(* ===== verification/Cutter_Prelude.thy ===== *)
theory Cutter_Prelude
  imports Main "HOL-Library.Code_Target_Nat"
begin

text \<open>
  Shared vocabulary of the development: texts as lists of code points, C's unsigned
  32-bit arithmetic where it can wrap, half-open slices of a sequence (the
  \<open>begin, end\<close> index pairs used all over \<open>cutter/\<close>), and the lemmas on lists
  that several components need.
\<close>

section \<open>Basic types\<close>

text \<open>
  A \<open>gunichar\<close> is a code point; a \<open>gchar *\<close> holding UTF-8 text is modelled
  by its code points (byte order and code point order agree in UTF-8, so \<open>strcmp\<close>
  is the lexicographic comparison of code points).
\<close>

type_synonym gunichar = nat
type_synonym ustring = "gunichar list"

named_theorems slice_simps \<open>evaluation of slices\<close>

section \<open>Unsigned 32-bit arithmetic\<close>

definition guint :: "nat \<Rightarrow> nat" where
  "guint n = n mod 4294967296"

lemma guint_small [simp]: "n < 4294967296 \<Longrightarrow> guint n = n"
  by (simp add: guint_def)

lemma guint_bound: "guint n < 4294967296"
  by (simp add: guint_def)

definition guint_pred :: "nat \<Rightarrow> nat" where
  "guint_pred n = (if n = 0 then 4294967295 else n - 1)"

lemma guint_pred_Suc [simp]: "guint_pred (Suc n) = n"
  by (simp add: guint_pred_def)

lemma guint_pred_0 [simp]: "guint_pred 0 = 4294967295"
  by (simp add: guint_pred_def)

section \<open>Slices\<close>

definition slice :: "'a list \<Rightarrow> nat \<Rightarrow> nat \<Rightarrow> 'a list" where
  "slice xs b e = take (e - b) (drop b xs)"

lemma slice_empty [simp, slice_simps]: "e \<le> b \<Longrightarrow> slice xs b e = []"
  by (simp add: slice_def)

lemma slice_full [simp, slice_simps]: "slice xs 0 (length xs) = xs"
  by (simp add: slice_def)

lemma length_slice: "e \<le> length xs \<Longrightarrow> length (slice xs b e) = e - b"
  by (simp add: slice_def)

lemma slice_append: "b \<le> m \<Longrightarrow> m \<le> e \<Longrightarrow> slice xs b m @ slice xs m e = slice xs b e"
proof -
  assume a: "b \<le> m" "m \<le> e"
  have "slice xs b e = take ((m - b) + (e - m)) (drop b xs)"
    using a by (simp add: slice_def)
  also have "\<dots> = take (m - b) (drop b xs) @ take (e - m) (drop (m - b) (drop b xs))"
    by (rule take_add)
  finally show ?thesis
    using a by (simp add: slice_def)
qed

lemma slice_nth: "b + k < e \<Longrightarrow> e \<le> length xs \<Longrightarrow> slice xs b e ! k = xs ! (b + k)"
  by (simp add: slice_def)

lemma slice_Suc: "b < e \<Longrightarrow> e \<le> length xs \<Longrightarrow> slice xs b e = xs ! b # slice xs (Suc b) e"
  by (simp add: slice_def Cons_nth_drop_Suc [symmetric] take_Cons' Suc_diff_Suc)

lemma slice_snoc: "b \<le> e \<Longrightarrow> e < length xs \<Longrightarrow> slice xs b (Suc e) = slice xs b e @ [xs ! e]"
  using slice_append [of b e "Suc e" xs] slice_Suc [of e "Suc e" xs] by simp

lemma slice_eq_iff:
  assumes "b + n \<le> length xs" "c + n \<le> length ys"
  shows "slice xs b (b + n) = slice ys c (c + n) \<longleftrightarrow> (\<forall>k<n. xs ! (b + k) = ys ! (c + k))"
  using assms by (auto simp: list_eq_iff_nth_eq length_slice slice_nth)

section \<open>Pairwise relations on lists\<close>

lemma sorted_wrt_sym_swap:
  assumes "\<And>x y. P x y \<Longrightarrow> P y x" "sorted_wrt P (xs @ ys)"
  shows "sorted_wrt P (ys @ xs)"
  using assms by (auto simp: sorted_wrt_append)

lemma sorted_wrt_sym_mset:
  assumes sym: "\<And>x y. P x y \<Longrightarrow> P y x"
  shows "sorted_wrt P (insort_key f x xs) = sorted_wrt P (x # xs)"
  by (induction xs) (auto simp: set_insort_key intro: sym)

lemma sorted_wrt_sym_sort_key:
  assumes sym: "\<And>x y. P x y \<Longrightarrow> P y x"
  shows "sorted_wrt P (sort_key f xs) = sorted_wrt P xs"
  by (induction xs) (simp_all add: sorted_wrt_sym_mset [OF sym])

end
