(* ===== verification/Sequence_Matcher.thy ===== *)
theory Sequence_Matcher
  imports Complex_Main Cutter_Prelude "HOL-Library.AList"
begin

text \<open>
  The sequence matcher of \<open>cutter/cut-sequence-matcher.c\<close>, the engine of every diff
  that cutter prints. A matcher holds the two sequences, the comparison function of their
  contents, the index table of the \<open>to\<close> sequence (content to ascending positions,
  junk contents stolen from it) and the junk table. On top of the longest common block
  search the file computes the list of matching blocks, the edit operations, the grouped
  operations with context, and the similarity ratio; each result is cached in the object.

  Sequences are lists. Positions are \<open>nat\<close>: a \<open>GSequence\<close> has a \<open>gint\<close>
  length, so a position never reaches \<open>2 ^ 31\<close> and the unsigned wrap of
  \<open>from_index - size + 1\<close> cancels; the two places where the code really computes with
  wrapped values, the key \<open>to_index - 1\<close> at position 0 and the arithmetic with the
  caller's \<open>context_size\<close>, are written with \<open>guint_pred\<close> and \<open>guint\<close>.
  The two hash tables are association lists with distinct keys.
\<close>

section \<open>Data\<close>

record match_info =
  from_index :: nat
  to_index :: nat
  info_size :: nat

definition cut_sequence_match_info_new :: "nat \<Rightarrow> nat \<Rightarrow> nat \<Rightarrow> match_info" where
  "cut_sequence_match_info_new f t n = \<lparr>from_index = f, to_index = t, info_size = n\<rparr>"

datatype operation_type = EQUAL | INSERT | DELETE | REPLACE

record operation =
  op_type :: operation_type
  from_begin :: nat
  from_end :: nat
  to_begin :: nat
  to_end :: nat

definition cut_sequence_match_operation_new ::
  "operation_type \<Rightarrow> nat \<Rightarrow> nat \<Rightarrow> nat \<Rightarrow> nat \<Rightarrow> operation" where
  "cut_sequence_match_operation_new ty fb fe tb te =
     \<lparr>op_type = ty, from_begin = fb, from_end = fe, to_begin = tb, to_end = te\<rparr>"

text \<open>
  \<open>NULL\<close> lists are empty lists; the ratio is \<open>- 1\<close> until it is computed. A ratio is
  the rational \<open>2 * matches / length\<close>: both operands are exact in a \<open>gdouble\<close>, and
  correctly rounded quotients of such operands compare with the constants of the differs
  as the rationals do.
\<close>

record 'a matcher =
  from_seq :: "'a list"
  to_seq :: "'a list"
  compare_func :: "'a \<Rightarrow> 'a \<Rightarrow> int"
  to_indices :: "('a \<times> nat list) list"
  junks :: "('a \<times> bool) list"
  matches :: "match_info list"
  blocks :: "match_info list"
  operations :: "operation list"
  grouped_operations :: "operation list list"
  ratio :: rat
  context_size :: nat

section \<open>Construction\<close>

text \<open>One round of the loop of \<open>update_to_indices\<close>: append the position to the list
  stored for the content.\<close>

fun index_loop :: "nat \<Rightarrow> 'a list \<Rightarrow> ('a \<times> nat list) list \<Rightarrow> ('a \<times> nat list) list" where
  "index_loop i [] tbl = tbl"
| "index_loop i (x # xs) tbl =
     index_loop (Suc i) xs
       (AList.update x ((case map_of tbl x of None \<Rightarrow> [] | Some is \<Rightarrow> is) @ [i]) tbl)"

text \<open>\<open>g_hash_table_foreach_steal\<close> with \<open>remove_junk\<close>: junk keys leave the index
  table and enter the junk table.\<close>

fun remove_junks_from_to_indices ::
  "('a \<Rightarrow> bool) \<Rightarrow> ('a \<times> nat list) list \<Rightarrow> ('a \<times> bool) list \<Rightarrow>
     ('a \<times> nat list) list \<times> ('a \<times> bool) list" where
  "remove_junks_from_to_indices is_junk [] js = ([], js)"
| "remove_junks_from_to_indices is_junk ((k, v) # tbl) js =
     (if is_junk k then remove_junks_from_to_indices is_junk tbl (AList.update k True js)
      else let (tbl', js') = remove_junks_from_to_indices is_junk tbl js
           in ((k, v) # tbl', js'))"

definition update_to_indices :: "('a \<Rightarrow> bool) option \<Rightarrow> 'a matcher \<Rightarrow> 'a matcher" where
  "update_to_indices junk_filter m =
     (let m1 = m\<lparr>to_indices := index_loop 0 (to_seq m) (to_indices m)\<rparr>
      in case junk_filter of
           None \<Rightarrow> m1
         | Some is_junk \<Rightarrow>
             let (tbl, js) = remove_junks_from_to_indices is_junk (to_indices m1) (junks m1)
             in m1\<lparr>to_indices := tbl, junks := js\<rparr>)"

definition cut_sequence_matcher_init ::
  "'a list \<Rightarrow> 'a list \<Rightarrow> ('a \<Rightarrow> 'a \<Rightarrow> int) \<Rightarrow> 'a matcher" where
  "cut_sequence_matcher_init f t cmp =
     \<lparr>from_seq = f, to_seq = t, compare_func = cmp, to_indices = [], junks = [],
      matches = [], blocks = [], operations = [], grouped_operations = [],
      ratio = - 1, context_size = 3\<rparr>"

definition cut_sequence_matcher_new ::
  "'a list \<Rightarrow> 'a list \<Rightarrow> ('a \<Rightarrow> 'a \<Rightarrow> int) \<Rightarrow> ('a \<Rightarrow> bool) option \<Rightarrow> 'a matcher" where
  "cut_sequence_matcher_new f t cmp junk_filter =
     update_to_indices junk_filter (cut_sequence_matcher_init f t cmp)"

definition char_sequence_iter_compare :: "gunichar \<Rightarrow> gunichar \<Rightarrow> int" where
  "char_sequence_iter_compare c1 c2 = (if c1 < c2 then - 1 else if c1 = c2 then 0 else 1)"

text \<open>\<open>strcmp\<close> on the contents of a string sequence (only its sign is specified).\<close>

fun string_sequence_iter_compare :: "ustring \<Rightarrow> ustring \<Rightarrow> int" where
  "string_sequence_iter_compare [] [] = 0"
| "string_sequence_iter_compare [] (c2 # s2) = - 1"
| "string_sequence_iter_compare (c1 # s1) [] = 1"
| "string_sequence_iter_compare (c1 # s1) (c2 # s2) =
     (if c1 < c2 then - 1 else if c2 < c1 then 1 else string_sequence_iter_compare s1 s2)"

definition cut_sequence_matcher_char_new_full ::
  "ustring \<Rightarrow> ustring \<Rightarrow> (gunichar \<Rightarrow> bool) option \<Rightarrow> gunichar matcher" where
  "cut_sequence_matcher_char_new_full f t junk_filter =
     cut_sequence_matcher_new f t char_sequence_iter_compare junk_filter"

definition cut_sequence_matcher_char_new :: "ustring \<Rightarrow> ustring \<Rightarrow> gunichar matcher" where
  "cut_sequence_matcher_char_new f t = cut_sequence_matcher_char_new_full f t None"

definition cut_sequence_matcher_string_new_full ::
  "ustring list \<Rightarrow> ustring list \<Rightarrow> (ustring \<Rightarrow> bool) option \<Rightarrow> ustring matcher" where
  "cut_sequence_matcher_string_new_full f t junk_filter =
     cut_sequence_matcher_new f t string_sequence_iter_compare junk_filter"

definition cut_sequence_matcher_string_new :: "ustring list \<Rightarrow> ustring list \<Rightarrow> ustring matcher" where
  "cut_sequence_matcher_string_new f t = cut_sequence_matcher_string_new_full f t None"

section \<open>The longest match\<close>

definition cut_sequence_matcher_get_to_index :: "'a matcher \<Rightarrow> 'a \<Rightarrow> nat list" where
  "cut_sequence_matcher_get_to_index m x =
     (case map_of (to_indices m) x of None \<Rightarrow> [] | Some is \<Rightarrow> is)"

text \<open>
  The inner loop of \<open>find_best_match_position\<close>: the positions of the current content in
  \<open>to\<close>, with the sizes of the common blocks that end just before each of them.
\<close>

type_synonym size_table = "nat \<Rightarrow> nat option"

definition lookup_size :: "size_table \<Rightarrow> nat \<Rightarrow> nat" where
  "lookup_size sizes k = (case sizes k of None \<Rightarrow> 0 | Some n \<Rightarrow> n)"

fun best_inner ::
  "nat \<Rightarrow> nat \<Rightarrow> nat \<Rightarrow> size_table \<Rightarrow> nat list \<Rightarrow> size_table \<times> match_info \<Rightarrow>
     size_table \<times> match_info" where
  "best_inner fi tb te sizes [] acc = acc"
| "best_inner fi tb te sizes (ti # tis) (cur, info) =
     (if ti < tb then best_inner fi tb te sizes tis (cur, info)
      else if te < ti + 1 then (cur, info)
      else let n = lookup_size sizes (guint_pred ti) + 1;
               cur' = cur(ti \<mapsto> n)
           in best_inner fi tb te sizes tis
                (cur', if info_size info < n
                       then \<lparr>from_index = fi + 1 - n, to_index = ti + 1 - n, info_size = n\<rparr>
                       else info))"

text \<open>The outer loop over the \<open>from\<close> positions, \<open>k\<close> of them left.\<close>

fun best_outer ::
  "'a matcher \<Rightarrow> nat \<Rightarrow> nat \<Rightarrow> nat \<Rightarrow> nat \<Rightarrow> size_table \<Rightarrow> match_info \<Rightarrow> match_info" where
  "best_outer m tb te fi 0 sizes info = info"
| "best_outer m tb te fi (Suc k) sizes info =
     (let (cur, info') = best_inner fi tb te sizes
            (cut_sequence_matcher_get_to_index m (from_seq m ! fi)) (Map.empty, info)
      in best_outer m tb te (Suc fi) k cur info')"

definition find_best_match_position ::
  "'a matcher \<Rightarrow> nat \<Rightarrow> nat \<Rightarrow> nat \<Rightarrow> nat \<Rightarrow> match_info" where
  "find_best_match_position m fb fe tb te =
     best_outer m tb te fb (fe - fb) Map.empty (cut_sequence_match_info_new fb tb 0)"

definition check_junk :: "'a matcher \<Rightarrow> bool \<Rightarrow> nat \<Rightarrow> bool" where
  "check_junk m should_junk i =
     (let is_junk = (case map_of (junks m) (to_seq m ! i) of None \<Rightarrow> False | Some b \<Rightarrow> b)
      in if should_junk then is_junk else \<not> is_junk)"

definition equal_content :: "'a matcher \<Rightarrow> nat \<Rightarrow> nat \<Rightarrow> bool" where
  "equal_content m fi ti \<longleftrightarrow> compare_func m (from_seq m ! fi) (to_seq m ! ti) = 0"

text \<open>The two loops of \<open>adjust_best_info_with_junk_predicate\<close>.\<close>

function adjust_backward :: "'a matcher \<Rightarrow> bool \<Rightarrow> nat \<Rightarrow> nat \<Rightarrow> match_info \<Rightarrow> match_info" where
  "adjust_backward m sj fb tb info =
     (if fb < from_index info \<and> tb < to_index info \<and>
         check_junk m sj (to_index info - 1) \<and>
         equal_content m (from_index info - 1) (to_index info - 1)
      then adjust_backward m sj fb tb
             \<lparr>from_index = from_index info - 1, to_index = to_index info - 1,
              info_size = info_size info + 1\<rparr>
      else info)"
  by pat_completeness auto
termination by (relation "measure (\<lambda>(m, sj, fb, tb, info). from_index info)") auto

function adjust_forward :: "'a matcher \<Rightarrow> bool \<Rightarrow> nat \<Rightarrow> nat \<Rightarrow> match_info \<Rightarrow> match_info" where
  "adjust_forward m sj fe te info =
     (if from_index info + info_size info + 1 < fe \<and>
         to_index info + info_size info + 1 < te \<and>
         check_junk m sj (to_index info + info_size info) \<and>
         equal_content m (from_index info + info_size info) (to_index info + info_size info)
      then adjust_forward m sj fe te (info\<lparr>info_size := info_size info + 1\<rparr>)
      else info)"
  by pat_completeness auto
termination
  by (relation "measure (\<lambda>(m, sj, fe, te, info). fe - (from_index info + info_size info))") auto

declare adjust_backward.simps [simp del] adjust_forward.simps [simp del]

definition adjust_best_info_with_junk_predicate ::
  "'a matcher \<Rightarrow> bool \<Rightarrow> match_info \<Rightarrow> nat \<Rightarrow> nat \<Rightarrow> nat \<Rightarrow> nat \<Rightarrow> match_info" where
  "adjust_best_info_with_junk_predicate m sj info fb fe tb te =
     adjust_forward m sj fe te (adjust_backward m sj fb tb info)"

definition cut_sequence_matcher_get_longest_match ::
  "'a matcher \<Rightarrow> nat \<Rightarrow> nat \<Rightarrow> nat \<Rightarrow> nat \<Rightarrow> match_info" where
  "cut_sequence_matcher_get_longest_match m fb fe tb te =
     (let info = find_best_match_position m fb fe tb te
      in if 0 < length (junks m) then
           adjust_best_info_with_junk_predicate m True
             (adjust_best_info_with_junk_predicate m False info fb fe tb te) fb fe tb te
         else info)"

section \<open>The index table\<close>

definition is_junk :: "'a matcher \<Rightarrow> 'a \<Rightarrow> bool" where
  "is_junk m x \<longleftrightarrow> map_of (junks m) x = Some True"

definition positions :: "'a list \<Rightarrow> 'a \<Rightarrow> nat list" where
  "positions xs x = filter (\<lambda>i. xs ! i = x) [0..<length xs]"

definition matcher_wf :: "'a matcher \<Rightarrow> bool" where
  "matcher_wf m \<longleftrightarrow>
     length (to_seq m) < 4294967296 \<and>
     (\<forall>x y. compare_func m x y = 0 \<longleftrightarrow> x = y) \<and>
     (\<forall>x. cut_sequence_matcher_get_to_index m x =
            (if is_junk m x then [] else positions (to_seq m) x))"

lemma filter_upt_snoc: "filter P [0..<Suc n] = filter P [0..<n] @ (if P n then [n] else [])"
  by simp

lemma index_loop_lookup:
  "(case map_of (index_loop i xs tbl) x of None \<Rightarrow> [] | Some is \<Rightarrow> is) =
   (case map_of tbl x of None \<Rightarrow> [] | Some is \<Rightarrow> is) @
   map (\<lambda>k. i + k) (filter (\<lambda>k. xs ! k = x) [0..<length xs])"
proof (induction xs arbitrary: i tbl)
  case Nil
  then show ?case by simp
next
  case (Cons y ys)
  have split: "[0..<length (y # ys)] = 0 # map Suc [0..<length ys]"
    by (simp add: upt_conv_Cons map_Suc_upt del: upt_Suc)
  show ?case
    unfolding split index_loop.simps Cons.IH
    by (cases "x = y") (auto simp: filter_map o_def update_conv')
qed

lemma index_loop_keys: "distinct (map fst tbl) \<Longrightarrow> distinct (map fst (index_loop i xs tbl))"
  by (induction i xs tbl rule: index_loop.induct) (simp_all add: distinct_update)

lemma remove_junks_index:
  "map_of (fst (remove_junks_from_to_indices P tbl js)) x = (if P x then None else map_of tbl x)"
  by (induction P tbl js rule: remove_junks_from_to_indices.induct) (auto split: prod.splits)

lemma remove_junks_junks:
  "map_of (snd (remove_junks_from_to_indices P tbl js)) x =
   (if P x \<and> x \<in> fst ` set tbl then Some True else map_of js x)"
  by (induction P tbl js rule: remove_junks_from_to_indices.induct)
     (auto split: prod.splits simp: update_conv' rev_image_eqI)

lemma index_loop_dom: "fst ` set (index_loop i xs tbl) = set xs \<union> fst ` set tbl"
  by (induction i xs tbl rule: index_loop.induct) (auto simp: dom_update)

lemma positions_eq_Nil: "positions xs x = [] \<longleftrightarrow> x \<notin> set xs"
  by (auto simp: positions_def filter_empty_conv in_set_conv_nth)

lemma set_positions: "set (positions xs x) = {i. i < length xs \<and> xs ! i = x}"
  by (auto simp: positions_def)

lemma sorted_positions: "sorted (positions xs x)"
  by (simp add: positions_def sorted_wrt_filter)

lemma new_seqs [simp]:
  "from_seq (cut_sequence_matcher_new f t cmp jf) = f"
  "to_seq (cut_sequence_matcher_new f t cmp jf) = t"
  "compare_func (cut_sequence_matcher_new f t cmp jf) = cmp"
  "context_size (cut_sequence_matcher_new f t cmp jf) = 3"
  by (auto simp: cut_sequence_matcher_new_def update_to_indices_def
        cut_sequence_matcher_init_def Let_def split: option.split prod.split)

lemma new_junk:
  "is_junk (cut_sequence_matcher_new f t cmp jf) x \<longleftrightarrow>
     (case jf of None \<Rightarrow> False | Some P \<Rightarrow> P x \<and> x \<in> set t)"
  by (cases jf)
     (simp_all add: is_junk_def cut_sequence_matcher_new_def update_to_indices_def
        cut_sequence_matcher_init_def Let_def index_loop_dom split_beta remove_junks_junks)

lemma new_to_index:
  "cut_sequence_matcher_get_to_index (cut_sequence_matcher_new f t cmp jf) x =
     (case jf of None \<Rightarrow> positions t x | Some P \<Rightarrow> if P x then [] else positions t x)"
proof -
  have idx: "(case map_of (index_loop 0 t []) x of None \<Rightarrow> [] | Some is \<Rightarrow> is) = positions t x"
    using index_loop_lookup [of 0 t "[]" x] by (simp add: positions_def)
  show ?thesis
    by (cases jf)
       (simp_all add: idx cut_sequence_matcher_get_to_index_def cut_sequence_matcher_new_def
          update_to_indices_def cut_sequence_matcher_init_def Let_def split_beta remove_junks_index)
qed

lemma new_wf:
  assumes "length t < 4294967296" "\<And>x y. cmp x y = 0 \<longleftrightarrow> x = y"
  shows "matcher_wf (cut_sequence_matcher_new f t cmp jf)"
  using assms by (auto simp: matcher_wf_def new_junk new_to_index
        positions_eq_Nil [THEN iffD2] split: option.split)

section \<open>The longest match\<close>

fun common_suffix :: "'a matcher \<Rightarrow> nat \<Rightarrow> nat \<Rightarrow> nat \<Rightarrow> nat \<Rightarrow> nat \<Rightarrow> nat" where
  "common_suffix m fb tb te 0 j = 0"
| "common_suffix m fb tb te (Suc i) 0 = 0"
| "common_suffix m fb tb te (Suc i) (Suc j) =
     (if fb \<le> i \<and> tb \<le> j \<and> j < te \<and> from_seq m ! i = to_seq m ! j \<and> \<not> is_junk m (to_seq m ! j)
      then Suc (common_suffix m fb tb te i j) else 0)"

lemma common_suffix_le:
  "common_suffix m fb tb te i j \<le> i - fb" "common_suffix m fb tb te i j \<le> j - tb"
  by (induction m fb tb te i j rule: common_suffix.induct) auto

lemma common_suffix_block:
  "k < common_suffix m fb tb te i j \<Longrightarrow>
     from_seq m ! (i - Suc k) = to_seq m ! (j - Suc k) \<and> \<not> is_junk m (to_seq m ! (j - Suc k)) \<and> j \<le> te"
proof (induction m fb tb te i j arbitrary: k rule: common_suffix.induct)
  case (3 m fb tb te i j)
  then show ?case by (cases k) (auto split: if_splits)
qed auto

lemma block_common_suffix:
  assumes "\<forall>k<n. from_seq m ! (i + k) = to_seq m ! (j + k) \<and> \<not> is_junk m (to_seq m ! (j + k))"
    and "fb \<le> i" "tb \<le> j" "j + n \<le> te"
  shows "n \<le> common_suffix m fb tb te (i + n) (j + n)"
  using assms(1,4)
proof (induction n)
  case (Suc n)
  then have "n \<le> common_suffix m fb tb te (i + n) (j + n)" by simp
  with Suc.prems assms(2,3) show ?case by simp
qed simp

lemma common_suffix_base: "i \<le> fb \<Longrightarrow> common_suffix m fb tb te i j = 0"
  using common_suffix_le(1) [of m fb tb te i j] by simp

text \<open>The inner loop against the recurrence.\<close>

lemma best_inner_spec:
  assumes "sorted tis" "best_inner i tb te sizes tis (cur, info) = (cur', info')"
  defines "L \<equiv> \<lambda>k. lookup_size sizes (guint_pred k) + 1"
  shows "cur' = (\<lambda>k. if k \<in> set tis \<and> tb \<le> k \<and> k < te then Some (L k) else cur k)"
    and "info_size info \<le> info_size info'"
    and "\<forall>k\<in>set tis. tb \<le> k \<and> k < te \<longrightarrow> L k \<le> info_size info'"
    and "info' = info \<or> (\<exists>k\<in>set tis. tb \<le> k \<and> k < te \<and>
           info' = \<lparr>from_index = i + 1 - L k, to_index = k + 1 - L k, info_size = L k\<rparr>)"
proof -
  have "cur' = (\<lambda>k. if k \<in> set tis \<and> tb \<le> k \<and> k < te then Some (L k) else cur k) \<and>
    info_size info \<le> info_size info' \<and>
    (\<forall>k\<in>set tis. tb \<le> k \<and> k < te \<longrightarrow> L k \<le> info_size info') \<and>
    (info' = info \<or> (\<exists>k\<in>set tis. tb \<le> k \<and> k < te \<and>
       info' = \<lparr>from_index = i + 1 - L k, to_index = k + 1 - L k, info_size = L k\<rparr>))"
    using assms(1,2)
  proof (induction tis arbitrary: cur info)
    case Nil
    then show ?case by (auto simp: fun_eq_iff)
  next
    case (Cons ti tis)
    consider "ti < tb" | "tb \<le> ti" "te \<le> ti" | "tb \<le> ti" "ti < te" by linarith
    then show ?case
    proof cases
      case 1
      then have "best_inner i tb te sizes tis (cur, info) = (cur', info')"
        using Cons.prems by simp
      with Cons.IH [of cur info] Cons.prems(1) 1 show ?thesis by (auto simp: fun_eq_iff)
    next
      case 2
      then have "cur' = cur" "info' = info" using Cons.prems by auto
      with 2 Cons.prems(1) show ?thesis by (auto simp: fun_eq_iff)
    next
      case 3
      let ?info = "if info_size info < L ti
        then \<lparr>from_index = i + 1 - L ti, to_index = ti + 1 - L ti, info_size = L ti\<rparr> else info"
      have srt: "sorted tis" using Cons.prems(1) by simp
      have step: "best_inner i tb te sizes tis (cur(ti \<mapsto> L ti), ?info) = (cur', info')"
        using Cons.prems 3 by (cases "info_size info < L ti") (simp_all add: L_def)
      note ih = Cons.IH [OF srt step]
      show ?thesis
        using ih [THEN conjunct2] 3
        by (intro conjI) (auto simp: fun_eq_iff ih [THEN conjunct1] split: if_splits)
    qed
  qed
  then show "cur' = (\<lambda>k. if k \<in> set tis \<and> tb \<le> k \<and> k < te then Some (L k) else cur k)"
    and "info_size info \<le> info_size info'"
    and "\<forall>k\<in>set tis. tb \<le> k \<and> k < te \<longrightarrow> L k \<le> info_size info'"
    and "info' = info \<or> (\<exists>k\<in>set tis. tb \<le> k \<and> k < te \<and>
           info' = \<lparr>from_index = i + 1 - L k, to_index = k + 1 - L k, info_size = L k\<rparr>)"
    by blast+
qed

lemma common_suffix_0_right [simp]: "common_suffix m fb tb te i 0 = 0"
  by (cases i) simp_all

lemma common_suffix_outside: "te \<le> j \<Longrightarrow> common_suffix m fb tb te i (Suc j) = 0"
  by (cases i) simp_all

lemma sizes_pred:
  assumes "\<forall>k. lookup_size sizes k = common_suffix m fb tb te i (Suc k)" "te < 4294967296"
  shows "lookup_size sizes (guint_pred k) = common_suffix m fb tb te i k"
  using assms common_suffix_outside [of te 4294967295 m fb tb i] by (cases k) simp_all

lemma mem_to_index:
  assumes "matcher_wf m"
  shows "k \<in> set (cut_sequence_matcher_get_to_index m x) \<longleftrightarrow>
     k < length (to_seq m) \<and> to_seq m ! k = x \<and> \<not> is_junk m x"
  using assms by (auto simp: matcher_wf_def set_positions)

lemma sorted_to_index: "matcher_wf m \<Longrightarrow> sorted (cut_sequence_matcher_get_to_index m x)"
  by (simp add: matcher_wf_def sorted_positions)

definition best_info :: "'a matcher \<Rightarrow> nat \<Rightarrow> nat \<Rightarrow> nat \<Rightarrow> nat \<Rightarrow> match_info \<Rightarrow> bool" where
  "best_info m fb tb te i info \<longleftrightarrow>
     (info = \<lparr>from_index = fb, to_index = tb, info_size = 0\<rparr> \<or>
      0 < info_size info \<and> from_index info + info_size info \<le> i \<and>
      to_index info + info_size info \<le> te \<and>
      info_size info \<le> common_suffix m fb tb te (from_index info + info_size info)
                        (to_index info + info_size info)) \<and>
     (\<forall>i'\<le>i. \<forall>j. common_suffix m fb tb te i' j \<le> info_size info)"

lemma best_row:
  assumes wf: "matcher_wf m" and te: "te \<le> length (to_seq m)" and fb: "fb \<le> i"
    and sizes: "\<forall>k. lookup_size sizes k = common_suffix m fb tb te i (Suc k)"
    and info: "best_info m fb tb te i info"
    and run: "best_inner i tb te sizes (cut_sequence_matcher_get_to_index m (from_seq m ! i))
                (Map.empty, info) = (cur, info')"
  shows "\<forall>k. lookup_size cur k = common_suffix m fb tb te (Suc i) (Suc k)"
    and "best_info m fb tb te (Suc i) info'"
proof -
  let ?ps = "cut_sequence_matcher_get_to_index m (from_seq m ! i)"
  let ?L = "\<lambda>k. lookup_size sizes (guint_pred k) + 1"
  have bound: "te < 4294967296" using wf te by (simp add: matcher_wf_def)
  have L: "?L k = Suc (common_suffix m fb tb te i k)" for k
    using sizes_pred [OF sizes bound] by simp
  note spec = best_inner_spec [OF sorted_to_index [OF wf] run, unfolded L]
  have mem: "k \<in> set ?ps \<and> tb \<le> k \<and> k < te \<longleftrightarrow>
      fb \<le> i \<and> tb \<le> k \<and> k < te \<and> from_seq m ! i = to_seq m ! k \<and> \<not> is_junk m (to_seq m ! k)" for k
    using mem_to_index [OF wf, of k "from_seq m ! i"] te fb by auto
  show row: "\<forall>k. lookup_size cur k = common_suffix m fb tb te (Suc i) (Suc k)"
  proof
    fix k
    show "lookup_size cur k = common_suffix m fb tb te (Suc i) (Suc k)"
      unfolding spec(1) lookup_size_def using mem [of k] by auto
  qed
  have max: "common_suffix m fb tb te i' j \<le> info_size info'" if "i' \<le> Suc i" for i' j
  proof (cases "i' \<le> i")
    case True
    then have "common_suffix m fb tb te i' j \<le> info_size info"
      using info by (simp add: best_info_def)
    with spec(2) show ?thesis by simp
  next
    case False
    with that have i': "i' = Suc i" by simp
    show ?thesis
    proof (cases j)
      case (Suc k)
      have "Suc (common_suffix m fb tb te i k) \<le> info_size info'" if "k \<in> set ?ps \<and> tb \<le> k \<and> k < te"
        using spec(3) that by blast
      with i' Suc mem [of k] show ?thesis by auto
    qed (simp add: i')
  qed
  have "info' = \<lparr>from_index = fb, to_index = tb, info_size = 0\<rparr> \<or>
      0 < info_size info' \<and> from_index info' + info_size info' \<le> Suc i \<and>
      to_index info' + info_size info' \<le> te \<and>
      info_size info' \<le> common_suffix m fb tb te (from_index info' + info_size info')
                        (to_index info' + info_size info')"
    using spec(4)
  proof
    assume "info' = info"
    with info show ?thesis by (auto simp: best_info_def)
  next
    assume "\<exists>k\<in>set ?ps. tb \<le> k \<and> k < te \<and> info' =
       \<lparr>from_index = i + 1 - Suc (common_suffix m fb tb te i k),
        to_index = k + 1 - Suc (common_suffix m fb tb te i k),
        info_size = Suc (common_suffix m fb tb te i k)\<rparr>"
    then obtain k where k: "k \<in> set ?ps \<and> tb \<le> k \<and> k < te" and i': "info' =
       \<lparr>from_index = i + 1 - Suc (common_suffix m fb tb te i k),
        to_index = k + 1 - Suc (common_suffix m fb tb te i k),
        info_size = Suc (common_suffix m fb tb te i k)\<rparr>" by blast
    have "common_suffix m fb tb te i k \<le> i" "common_suffix m fb tb te i k \<le> k"
      using common_suffix_le [of m fb tb te i k] by linarith+
    with k i' mem [of k] show ?thesis by simp
  qed
  with max show "best_info m fb tb te (Suc i) info'"
    by (simp add: best_info_def)
qed

lemma best_outer_spec:
  assumes wf: "matcher_wf m" and te: "te \<le> length (to_seq m)"
  shows "fb \<le> i \<Longrightarrow> \<forall>k. lookup_size sizes k = common_suffix m fb tb te i (Suc k) \<Longrightarrow>
    best_info m fb tb te i info \<Longrightarrow> best_info m fb tb te (i + n) (best_outer m tb te i n sizes info)"
proof (induction n arbitrary: i sizes info)
  case 0
  then show ?case by simp
next
  case (Suc n)
  obtain cur info' where run: "best_inner i tb te sizes
      (cut_sequence_matcher_get_to_index m (from_seq m ! i)) (Map.empty, info) = (cur, info')"
    by force
  note row = best_row [OF wf te Suc.prems(1,2,3) run]
  have "best_info m fb tb te (Suc i + n) (best_outer m tb te (Suc i) n cur info')"
    using Suc.IH [OF _ row] Suc.prems(1) by simp
  then show ?case by (simp add: run)
qed

lemma find_best_info:
  assumes "matcher_wf m" "te \<le> length (to_seq m)" "fb \<le> fe"
  shows "best_info m fb tb te fe (find_best_match_position m fb fe tb te)"
proof -
  have "best_info m fb tb te (fb + (fe - fb)) (find_best_match_position m fb fe tb te)"
    unfolding find_best_match_position_def cut_sequence_match_info_new_def
    by (rule best_outer_spec [OF assms(1,2)])
       (auto simp: lookup_size_def common_suffix_base best_info_def)
  with assms(3) show ?thesis by simp
qed

text \<open>Common blocks of a range, and the two halves of the contract of the search.\<close>

definition common_block :: "'a matcher \<Rightarrow> nat \<Rightarrow> nat \<Rightarrow> nat \<Rightarrow> bool" where
  "common_block m i j n \<longleftrightarrow> (\<forall>k<n. from_seq m ! (i + k) = to_seq m ! (j + k))"

definition junk_free :: "'a matcher \<Rightarrow> nat \<Rightarrow> nat \<Rightarrow> bool" where
  "junk_free m j n \<longleftrightarrow> (\<forall>k<n. \<not> is_junk m (to_seq m ! (j + k)))"

definition info_in :: "nat \<Rightarrow> nat \<Rightarrow> nat \<Rightarrow> nat \<Rightarrow> match_info \<Rightarrow> bool" where
  "info_in fb fe tb te info \<longleftrightarrow>
     fb \<le> from_index info \<and> from_index info + info_size info \<le> fe \<and>
     tb \<le> to_index info \<and> to_index info + info_size info \<le> te"

lemma find_best_sound:
  assumes wf: "matcher_wf m" and r: "te \<le> length (to_seq m)" "fb \<le> fe" "tb \<le> te"
  defines "info \<equiv> find_best_match_position m fb fe tb te"
  shows "info_in fb fe tb te info"
    and "common_block m (from_index info) (to_index info) (info_size info)"
    and "junk_free m (to_index info) (info_size info)"
proof -
  have best: "best_info m fb tb te fe info"
    unfolding info_def by (rule find_best_info [OF wf r(1,2)])
  show "info_in fb fe tb te info"
  proof (cases "info_size info = 0")
    case True
    with best r show ?thesis by (auto simp: best_info_def info_in_def)
  next
    case False
    with best common_suffix_le [of m fb tb te "from_index info + info_size info"
        "to_index info + info_size info"]
    show ?thesis by (auto simp: best_info_def info_in_def)
  qed
  have blk: "from_seq m ! (from_index info + k) = to_seq m ! (to_index info + k) \<and>
     \<not> is_junk m (to_seq m ! (to_index info + k))" if k: "k < info_size info" for k
  proof -
    have "info_size info \<le> common_suffix m fb tb te (from_index info + info_size info)
        (to_index info + info_size info)"
      using best k by (auto simp: best_info_def)
    then show ?thesis
      using common_suffix_block [of "info_size info - Suc k" m fb tb te
          "from_index info + info_size info" "to_index info + info_size info"] k by simp
  qed
  then show "common_block m (from_index info) (to_index info) (info_size info)"
    and "junk_free m (to_index info) (info_size info)"
    by (auto simp: common_block_def junk_free_def)
qed

lemma find_best_longest:
  assumes wf: "matcher_wf m" and r: "te \<le> length (to_seq m)"
    and blk: "fb \<le> i" "i + n \<le> fe" "tb \<le> j" "j + n \<le> te" "common_block m i j n" "junk_free m j n"
  shows "n \<le> info_size (find_best_match_position m fb fe tb te)"
proof -
  have "n \<le> common_suffix m fb tb te (i + n) (j + n)"
    using blk by (intro block_common_suffix) (auto simp: common_block_def junk_free_def)
  moreover have "best_info m fb tb te fe (find_best_match_position m fb fe tb te)"
    using blk by (intro find_best_info [OF wf r]) simp
  ultimately show ?thesis
    using blk(2) by (fastforce simp: best_info_def dest: le_trans)
qed

section \<open>Extension over junk\<close>

lemma check_junk_iff: "check_junk m True j = is_junk m (to_seq m ! j)"
  "check_junk m False j = (\<not> is_junk m (to_seq m ! j))"
  by (auto simp: check_junk_def is_junk_def split: option.split)

lemma equal_content_iff: "matcher_wf m \<Longrightarrow> equal_content m i j \<longleftrightarrow> from_seq m ! i = to_seq m ! j"
  by (simp add: equal_content_def matcher_wf_def)

lemma adjust_backward_step:
  "fb < from_index info \<and> tb < to_index info \<and> check_junk m sj (to_index info - 1) \<and>
     equal_content m (from_index info - 1) (to_index info - 1) \<Longrightarrow>
   adjust_backward m sj fb tb info = adjust_backward m sj fb tb
     \<lparr>from_index = from_index info - 1, to_index = to_index info - 1,
      info_size = info_size info + 1\<rparr>"
  by (subst adjust_backward.simps) (rule if_P)

lemma adjust_backward_stop:
  "\<not> (fb < from_index info \<and> tb < to_index info \<and> check_junk m sj (to_index info - 1) \<and>
     equal_content m (from_index info - 1) (to_index info - 1)) \<Longrightarrow>
   adjust_backward m sj fb tb info = info"
  by (subst adjust_backward.simps) (rule if_not_P)

lemma adjust_forward_step:
  "from_index info + info_size info + 1 < fe \<and> to_index info + info_size info + 1 < te \<and>
     check_junk m sj (to_index info + info_size info) \<and>
     equal_content m (from_index info + info_size info) (to_index info + info_size info) \<Longrightarrow>
   adjust_forward m sj fe te info =
     adjust_forward m sj fe te (info\<lparr>info_size := info_size info + 1\<rparr>)"
  by (subst adjust_forward.simps) (rule if_P)

lemma adjust_forward_stop:
  "\<not> (from_index info + info_size info + 1 < fe \<and> to_index info + info_size info + 1 < te \<and>
     check_junk m sj (to_index info + info_size info) \<and>
     equal_content m (from_index info + info_size info) (to_index info + info_size info)) \<Longrightarrow>
   adjust_forward m sj fe te info = info"
  by (subst adjust_forward.simps) (rule if_not_P)

lemma adjust_backward_in:
  "info_in fb fe tb te info \<Longrightarrow> info_in fb fe tb te (adjust_backward m sj fb tb info) \<and>
     info_size info \<le> info_size (adjust_backward m sj fb tb info)"
proof (induction m sj fb tb info rule: adjust_backward.induct)
  case (1 m sj fb tb info)
  show ?case
  proof (cases "fb < from_index info \<and> tb < to_index info \<and> check_junk m sj (to_index info - 1) \<and>
     equal_content m (from_index info - 1) (to_index info - 1)")
    case True
    then have "info_in fb fe tb te \<lparr>from_index = from_index info - 1,
        to_index = to_index info - 1, info_size = info_size info + 1\<rparr>"
      using "1.prems" by (auto simp: info_in_def)
    from "1.IH" [OF True this] show ?thesis
      by (simp add: adjust_backward_step [OF True])
  qed (use "1.prems" in \<open>simp add: adjust_backward_stop\<close>)
qed

lemma adjust_backward_block:
  assumes "matcher_wf m"
  shows "common_block m (from_index info) (to_index info) (info_size info) \<Longrightarrow>
    common_block m (from_index (adjust_backward m sj fb tb info))
      (to_index (adjust_backward m sj fb tb info)) (info_size (adjust_backward m sj fb tb info))"
  using assms
proof (induction m sj fb tb info rule: adjust_backward.induct)
  case (1 m sj fb tb info)
  let ?i = "from_index info - 1" and ?j = "to_index info - 1"
  show ?case
  proof (cases "fb < from_index info \<and> tb < to_index info \<and> check_junk m sj ?j \<and> equal_content m ?i ?j")
    case True
    have "common_block m ?i ?j (info_size info + 1)"
      unfolding common_block_def
    proof (intro allI impI)
      fix k assume "k < info_size info + 1"
      then show "from_seq m ! (?i + k) = to_seq m ! (?j + k)"
        using True "1.prems" by (cases k) (auto simp: common_block_def equal_content_iff)
    qed
    with "1.IH" [OF True] "1.prems" show ?thesis
      by (simp add: adjust_backward_step [OF True])
  next
    case False
    with "1.prems" show ?thesis by (simp add: adjust_backward_stop [OF False])
  qed
qed

lemma adjust_forward_in:
  "info_in fb fe tb te info \<Longrightarrow> info_in fb fe tb te (adjust_forward m sj fe te info) \<and>
     info_size info \<le> info_size (adjust_forward m sj fe te info)"
proof (induction m sj fe te info rule: adjust_forward.induct)
  case (1 m sj fe te info)
  show ?case
  proof (cases "from_index info + info_size info + 1 < fe \<and> to_index info + info_size info + 1 < te \<and>
     check_junk m sj (to_index info + info_size info) \<and>
     equal_content m (from_index info + info_size info) (to_index info + info_size info)")
    case True
    then have "info_in fb fe tb te (info\<lparr>info_size := info_size info + 1\<rparr>)"
      using "1.prems" by (auto simp: info_in_def)
    from "1.IH" [OF True this] show ?thesis
      by (simp add: adjust_forward_step [OF True])
  qed (use "1.prems" in \<open>simp add: adjust_forward_stop\<close>)
qed

lemma adjust_forward_block:
  assumes "matcher_wf m"
  shows "common_block m (from_index info) (to_index info) (info_size info) \<Longrightarrow>
    common_block m (from_index (adjust_forward m sj fe te info))
      (to_index (adjust_forward m sj fe te info)) (info_size (adjust_forward m sj fe te info))"
  using assms
proof (induction m sj fe te info rule: adjust_forward.induct)
  case (1 m sj fe te info)
  let ?i = "from_index info + info_size info" and ?j = "to_index info + info_size info"
  show ?case
  proof (cases "?i + 1 < fe \<and> ?j + 1 < te \<and> check_junk m sj ?j \<and> equal_content m ?i ?j")
    case True
    have "common_block m (from_index info) (to_index info) (info_size info + 1)"
      using True "1.prems" by (auto simp: common_block_def equal_content_iff less_Suc_eq)
    with "1.IH" [OF True] "1.prems" show ?thesis
      by (simp add: adjust_forward_step [OF True])
  next
    case False
    with "1.prems" show ?thesis by (simp add: adjust_forward_stop [OF False])
  qed
qed

lemma adjust_sound:
  fixes sj :: bool
  assumes "matcher_wf m" "info_in fb fe tb te info"
    "common_block m (from_index info) (to_index info) (info_size info)"
  defines "info' \<equiv> adjust_best_info_with_junk_predicate m sj info fb fe tb te"
  shows "info_in fb fe tb te info'" "info_size info \<le> info_size info'"
    "common_block m (from_index info') (to_index info') (info_size info')"
proof -
  note b = adjust_backward_in [OF assms(2), of m sj]
  note f = adjust_forward_in [OF b [THEN conjunct1], of m sj]
  show "info_in fb fe tb te info'" "info_size info \<le> info_size info'"
    using b f by (auto simp: info'_def adjust_best_info_with_junk_predicate_def)
  show "common_block m (from_index info') (to_index info') (info_size info')"
    unfolding info'_def adjust_best_info_with_junk_predicate_def
    by (rule adjust_forward_block [OF assms(1) adjust_backward_block [OF assms(1,3)]])
qed

lemma longest_match_sound:
  assumes wf: "matcher_wf m" and r: "te \<le> length (to_seq m)" "fb \<le> fe" "tb \<le> te"
  defines "info \<equiv> cut_sequence_matcher_get_longest_match m fb fe tb te"
  shows "info_in fb fe tb te info"
    and "common_block m (from_index info) (to_index info) (info_size info)"
    and "info_size (find_best_match_position m fb fe tb te) \<le> info_size info"
proof -
  note f = find_best_sound [OF wf r]
  note a1 = adjust_sound [OF wf f(1,2), of False]
  note a2 = adjust_sound [OF wf a1(1,3), of True]
  show "info_in fb fe tb te info"
    "common_block m (from_index info) (to_index info) (info_size info)"
    "info_size (find_best_match_position m fb fe tb te) \<le> info_size info"
    using f a1 a2
    by (auto simp: info_def cut_sequence_matcher_get_longest_match_def Let_def)
qed

end
