(* ===== verification/Sequence_Script.thy ===== *)
theory Sequence_Script
  imports Sequence_Operations
begin

text \<open>
  What the results of the sequence matcher mean: the matches and the blocks form an ordered
  chain of disjoint common blocks, the operations are an edit script that tiles both
  sequences and replays one into the other, and the ratio is a number between 0 and 1. The
  last section shows that the results do not depend on the caches of the matcher.
\<close>

section \<open>The matches form an ordered chain of common blocks\<close>

definition range_before :: "matching_range \<Rightarrow> matching_range \<Rightarrow> bool" where
  "range_before r s = (case r of (fb, fe, tb, te) \<Rightarrow> case s of (fb', fe', tb', te') \<Rightarrow>
     fe \<le> fb' \<and> te \<le> tb')"

definition range_apart :: "matching_range \<Rightarrow> matching_range \<Rightarrow> bool" where
  "range_apart r s \<longleftrightarrow> range_before r s \<or> range_before s r"

definition range_in :: "matching_range \<Rightarrow> matching_range \<Rightarrow> bool" where
  "range_in r s = (case r of (fb, fe, tb, te) \<Rightarrow> case s of (fb', fe', tb', te') \<Rightarrow>
     fb' \<le> fb \<and> fe \<le> fe' \<and> tb' \<le> tb \<and> te \<le> te')"

definition range_ok :: "'a matcher \<Rightarrow> matching_range \<Rightarrow> bool" where
  "range_ok m r = (case r of (fb, fe, tb, te) \<Rightarrow>
     fb \<le> fe \<and> fe \<le> length (from_seq m) \<and> tb \<le> te \<and> te \<le> length (to_seq m))"

definition info_range :: "match_info \<Rightarrow> matching_range" where
  "info_range info = (from_index info, from_index info + info_size info,
     to_index info, to_index info + info_size info)"

definition match_ok :: "'a matcher \<Rightarrow> match_info \<Rightarrow> bool" where
  "match_ok m info \<longleftrightarrow> 0 < info_size info \<and>
     info_in 0 (length (from_seq m)) 0 (length (to_seq m)) info \<and>
     common_block m (from_index info) (to_index info) (info_size info)"

lemmas range_defs = range_before_def range_apart_def range_in_def range_ok_def info_range_def

lemma range_apart_sym: "range_apart r s \<Longrightarrow> range_apart s r"
  by (auto simp: range_apart_def)

lemma range_apart_in: "range_apart x s \<Longrightarrow> range_in r s \<Longrightarrow> range_apart x r"
  by (auto simp: range_defs)

definition pushed :: "match_info \<Rightarrow> matching_range \<Rightarrow> matching_range list" where
  "pushed info r = push_right info r (push_left info r [])"

lemma push_append: "push_right info r (push_left info r q) = q @ pushed info r"
  by (cases r) (simp add: pushed_def push_right_def push_left_def push_matching_info_def)

lemma pushed_parts:
  assumes "info_in fb fe tb te info" "range_ok m (fb, fe, tb, te)"
  shows "\<forall>p\<in>set (pushed info (fb, fe, tb, te)). range_ok m p \<and> range_in p (fb, fe, tb, te) \<and>
           range_apart p (info_range info)"
    and "sorted_wrt range_apart (pushed info (fb, fe, tb, te))"
  using assms by (auto simp: pushed_def push_right_def push_left_def push_matching_info_def
      range_defs info_in_def split: if_splits)

lemma matches_loop_chain:
  assumes wf: "matcher_wf m"
  shows "sorted_wrt range_apart (q @ map info_range ms) \<Longrightarrow> \<forall>r\<in>set q. range_ok m r \<Longrightarrow>
    \<forall>info\<in>set ms. match_ok m info \<Longrightarrow>
    sorted_wrt range_apart (map info_range (matches_loop m q ms)) \<and>
    (\<forall>info\<in>set (matches_loop m q ms). match_ok m info)"
  using wf
proof (induction m q ms rule: matches_loop.induct)
  case (1 m ms)
  then show ?case by simp
next
  case (2 m fb fe tb te q ms)
  let ?info = "cut_sequence_matcher_get_longest_match m fb fe tb te"
  let ?r = "(fb, fe, tb, te)"
  have ok: "range_ok m ?r" using "2.prems" by simp
  note snd = longest_match_sound [OF "2.prems"(4), of te fb fe tb]
  have in_r: "info_in fb fe tb te ?info" using snd(1) ok by (simp add: range_ok_def)
  show ?case
  proof (cases "info_size ?info = 0")
    case True
    with 2 show ?thesis by (simp add: Let_def)
  next
    case False
    have mok: "match_ok m ?info"
      using in_r snd(2) ok False by (auto simp: match_ok_def info_in_def range_ok_def)
    have m_in: "range_in (info_range ?info) ?r"
      using in_r by (auto simp: info_in_def range_defs)
    note parts = pushed_parts [OF in_r ok]
    have ap: "range_apart x p \<and> range_apart p x"
      if "x \<in> set q \<union> info_range ` set ms" "range_in p ?r" for x p
      using "2.prems"(1) that range_apart_in [of x ?r p] range_apart_sym
      by (auto simp del: split_paired_All)
    have chain: "sorted_wrt range_apart ((q @ pushed ?info ?r) @ map info_range (?info # ms))"
      using "2.prems"(1) parts m_in ap
      by (simp add: sorted_wrt_append del: split_paired_All) blast
    have "sorted_wrt range_apart (map info_range (matches_loop m (push_right ?info ?r (push_left ?info ?r q)) (?info # ms))) \<and>
      (\<forall>info\<in>set (matches_loop m (push_right ?info ?r (push_left ?info ?r q)) (?info # ms)). match_ok m info)"
      by (rule "2.IH"(2) [OF refl False])
         (use chain "2.prems" parts mok in \<open>auto simp: push_append\<close>)
    with False show ?thesis by (simp add: Let_def)
  qed
qed

definition info_before :: "match_info \<Rightarrow> match_info \<Rightarrow> bool" where
  "info_before a b \<longleftrightarrow> from_index a + info_size a \<le> from_index b \<and> to_index a + info_size a \<le> to_index b"

definition chain_ok :: "'a matcher \<Rightarrow> match_info list \<Rightarrow> bool" where
  "chain_ok m ms \<longleftrightarrow> sorted_wrt info_before ms \<and> (\<forall>info\<in>set ms. match_ok m info)"

lemma sorted_apart_before:
  assumes "sorted (map from_index ms)" "sorted_wrt (\<lambda>a b. range_apart (info_range a) (info_range b)) ms"
    and "\<forall>info\<in>set ms. 0 < info_size info"
  shows "sorted_wrt info_before ms"
  using assms
proof (induction ms)
  case (Cons a ms)
  have "info_before a b" if "b \<in> set ms" for b
    using Cons.prems that by (fastforce simp: range_defs info_before_def)
  with Cons show ?case by simp
qed simp

lemma compute_matches_chain:
  assumes "matcher_wf m"
  shows "chain_ok m (compute_matches m)"
proof -
  let ?ms = "matches_loop m [(0, length (from_seq m), 0, length (to_seq m))] []"
  have loop: "sorted_wrt range_apart (map info_range ?ms) \<and> (\<forall>info\<in>set ?ms. match_ok m info)"
    by (rule matches_loop_chain [OF assms]) (auto simp: range_ok_def)
  have "sorted_wrt (\<lambda>a b. range_apart (info_range a) (info_range b)) (sort_key from_index ?ms)"
    using loop by (subst sorted_wrt_sym_sort_key) (auto simp: sorted_wrt_map intro: range_apart_sym)
  with loop show ?thesis
    by (auto simp: chain_ok_def compute_matches_def push_matching_info_def match_ok_def
        intro!: sorted_apart_before)
qed

section \<open>Blocks\<close>

definition chain_total :: "match_info list \<Rightarrow> nat" where
  "chain_total ms = (\<Sum>info\<leftarrow>ms. info_size info)"

lemma common_block_join:
  "common_block m i j n \<Longrightarrow> common_block m (i + n) (j + n) k \<Longrightarrow> common_block m i j (n + k)"
  unfolding common_block_def
proof (intro allI impI)
  fix l
  assume a: "\<forall>k<n. from_seq m ! (i + k) = to_seq m ! (j + k)"
    "\<forall>l<k. from_seq m ! (i + n + l) = to_seq m ! (j + n + l)" "l < n + k"
  show "from_seq m ! (i + l) = to_seq m ! (j + l)"
  proof (cases "l < n")
    case False
    with a(3) have "l - n < k" by simp
    with a(2) have "from_seq m ! (i + n + (l - n)) = to_seq m ! (j + n + (l - n))" by blast
    with False show ?thesis by simp
  qed (use a(1) in blast)
qed

definition block_new :: "nat \<Rightarrow> nat \<Rightarrow> nat \<Rightarrow> match_info list" where
  "block_new fi ti n = (if 0 < n then [cut_sequence_match_info_new fi ti n] else [])"

lemma blocks_loop_chain:
  "chain_ok m (rev acc @ block_new fi ti n) \<Longrightarrow> chain_ok m ms \<Longrightarrow>
   \<forall>info\<in>set ms. fi + n \<le> from_index info \<and> ti + n \<le> to_index info \<Longrightarrow>
   \<forall>a\<in>set acc. from_index a + info_size a \<le> fi \<and> to_index a + info_size a \<le> ti \<Longrightarrow>
   chain_ok m (rev (blocks_loop ms fi ti n acc)) \<and>
   chain_total (blocks_loop ms fi ti n acc) = chain_total ms + n + chain_total acc"
proof (induction ms fi ti n acc rule: blocks_loop.induct)
  case (1 fi ti n acc)
  then show ?case
    by (auto simp: block_new_def chain_total_def cut_sequence_match_info_new_def)
next
  case (2 info rest fi ti n acc)
  have info: "match_ok m info" "\<forall>b\<in>set rest. info_before info b" "chain_ok m rest"
    using "2.prems"(2) by (auto simp: chain_ok_def)
  show ?case
  proof (cases "fi + n = from_index info \<and> ti + n = to_index info")
    case True
    have "match_ok m (cut_sequence_match_info_new fi ti (n + info_size info))"
      using "2.prems"(1) info(1) True
      by (auto simp: match_ok_def cut_sequence_match_info_new_def info_in_def chain_ok_def
          block_new_def split: if_splits intro: common_block_join)
    then have "chain_ok m (rev acc @ block_new fi ti (n + info_size info))"
      using "2.prems"(1,4)
      by (auto simp: chain_ok_def block_new_def sorted_wrt_append info_before_def
          cut_sequence_match_info_new_def split: if_splits)
    moreover have "\<forall>b\<in>set rest. fi + (n + info_size info) \<le> from_index b \<and>
        ti + (n + info_size info) \<le> to_index b"
      using info(2) True by (auto simp: info_before_def)
    ultimately show ?thesis
      using "2.IH"(1) [OF True _ info(3) _ "2.prems"(4)] True by (simp add: chain_total_def)
  next
    case False
    let ?acc = "if 0 < n then cut_sequence_match_info_new fi ti n # acc else acc"
    have acc: "chain_ok m (rev ?acc @ block_new (from_index info) (to_index info) (info_size info))"
      using "2.prems" info(1)
      by (auto simp: chain_ok_def block_new_def sorted_wrt_append info_before_def match_ok_def
          cut_sequence_match_info_new_def info_in_def split: if_splits)
    have le: "\<forall>a\<in>set ?acc. from_index a + info_size a \<le> from_index info \<and>
        to_index a + info_size a \<le> to_index info"
      using "2.prems"(3,4) by (auto simp: cut_sequence_match_info_new_def)
    from "2.IH"(2) [OF False acc info(3) _ le] False info(2)
    show ?thesis
      by (auto simp: info_before_def chain_total_def cut_sequence_match_info_new_def)
  qed
qed

lemma compute_blocks_chain:
  assumes "chain_ok m ms"
  shows "\<exists>bs. compute_blocks (length (from_seq m)) (length (to_seq m)) ms =
      bs @ [cut_sequence_match_info_new (length (from_seq m)) (length (to_seq m)) 0] \<and>
      chain_ok m bs \<and> chain_total bs = chain_total ms"
proof -
  have "chain_ok m (rev (blocks_loop ms 0 0 0 [])) \<and>
      chain_total (blocks_loop ms 0 0 0 []) = chain_total ms + 0 + chain_total []"
    using assms by (intro blocks_loop_chain) (auto simp: block_new_def chain_ok_def)
  then show ?thesis
    by (auto simp: compute_blocks_def chain_total_def rev_map [symmetric] sum_list_rev)
qed


section \<open>Operations\<close>

text \<open>The operations without the accumulator.\<close>

fun operation_list :: "match_info list \<Rightarrow> nat \<Rightarrow> nat \<Rightarrow> operation list" where
  "operation_list [] fi ti = []"
| "operation_list (info # rest) fi ti =
     (let ty = determine_operation_type fi ti info;
          fi' = from_index info + info_size info;
          ti' = to_index info + info_size info
      in (if ty \<noteq> EQUAL
          then [cut_sequence_match_operation_new ty fi (from_index info) ti (to_index info)] else []) @
         (if 0 < info_size info
          then [cut_sequence_match_operation_new EQUAL (from_index info) fi' (to_index info) ti'] else []) @
         operation_list rest fi' ti')"

lemma operations_loop_list:
  "operations_loop bs fi ti acc = rev (operation_list bs fi ti) @ acc"
  by (induction bs fi ti acc rule: operations_loop.induct) (simp_all add: Let_def)

text \<open>An operation is well formed over two sequences when its indices are in range, its type
  says which sides are empty, and an \<open>EQUAL\<close> operation spans equal contents.\<close>

definition operation_ok :: "'a list \<Rightarrow> 'a list \<Rightarrow> operation \<Rightarrow> bool" where
  "operation_ok f t oper \<longleftrightarrow>
     from_begin oper \<le> from_end oper \<and> from_end oper \<le> length f \<and>
     to_begin oper \<le> to_end oper \<and> to_end oper \<le> length t \<and>
     (case op_type oper of
        EQUAL \<Rightarrow> from_begin oper < from_end oper \<and>
          slice f (from_begin oper) (from_end oper) = slice t (to_begin oper) (to_end oper)
      | INSERT \<Rightarrow> from_begin oper = from_end oper \<and> to_begin oper < to_end oper
      | DELETE \<Rightarrow> from_begin oper < from_end oper \<and> to_begin oper = to_end oper
      | REPLACE \<Rightarrow> from_begin oper < from_end oper \<and> to_begin oper < to_end oper)"

fun tiles :: "nat \<Rightarrow> nat \<Rightarrow> operation list \<Rightarrow> nat \<Rightarrow> nat \<Rightarrow> bool" where
  "tiles fi ti [] fe te \<longleftrightarrow> fi = fe \<and> ti = te"
| "tiles fi ti (oper # ops) fe te \<longleftrightarrow>
     from_begin oper = fi \<and> to_begin oper = ti \<and> tiles (from_end oper) (to_end oper) ops fe te"

lemma tiles_append:
  "tiles fi ti (ops1 @ ops2) fe te \<longleftrightarrow> (\<exists>fm tm. tiles fi ti ops1 fm tm \<and> tiles fm tm ops2 fe te)"
  by (induction ops1 arbitrary: fi ti) auto

lemma operation_list_Cons:
  assumes "fi \<le> from_index info" "ti \<le> to_index info"
    and "info_in 0 (length f) 0 (length t) info"
    and "slice f (from_index info) (from_index info + info_size info) =
         slice t (to_index info) (to_index info + info_size info)"
  shows "\<exists>ops1. operation_list (info # rest) fi ti = ops1 @
           operation_list rest (from_index info + info_size info) (to_index info + info_size info) \<and>
         tiles fi ti ops1 (from_index info + info_size info) (to_index info + info_size info) \<and>
         (\<forall>oper\<in>set ops1. operation_ok f t oper)"
  using assms
  by (auto simp: Let_def determine_operation_type_def cut_sequence_match_operation_new_def
      operation_ok_def info_in_def)

lemma operation_list_tiles:
  assumes "\<forall>info\<in>set bs. info_in 0 (length f) 0 (length t) info \<and>
      slice f (from_index info) (from_index info + info_size info) =
      slice t (to_index info) (to_index info + info_size info)"
    and "sorted_wrt info_before bs" "\<forall>info\<in>set bs. fi \<le> from_index info \<and> ti \<le> to_index info"
    and "bs \<noteq> []"
  shows "tiles fi ti (operation_list bs fi ti)
      (from_index (last bs) + info_size (last bs)) (to_index (last bs) + info_size (last bs)) \<and>
    (\<forall>oper\<in>set (operation_list bs fi ti). operation_ok f t oper)"
  using assms
proof (induction bs arbitrary: fi ti)
  case (Cons info rest)
  let ?fi = "from_index info + info_size info" and ?ti = "to_index info + info_size info"
  obtain ops1 where ops1: "operation_list (info # rest) fi ti = ops1 @ operation_list rest ?fi ?ti"
    "tiles fi ti ops1 ?fi ?ti" "\<forall>oper\<in>set ops1. operation_ok f t oper"
    using operation_list_Cons [of fi info ti f t rest] Cons.prems by auto
  show ?case
  proof (cases "rest = []")
    case True
    with ops1 show ?thesis by simp
  next
    case False
    have "tiles ?fi ?ti (operation_list rest ?fi ?ti)
        (from_index (last rest) + info_size (last rest)) (to_index (last rest) + info_size (last rest)) \<and>
      (\<forall>oper\<in>set (operation_list rest ?fi ?ti). operation_ok f t oper)"
      using Cons.prems False by (intro Cons.IH) (auto simp: info_before_def)
    with ops1 False show ?thesis by (auto simp only: tiles_append last.simps if_False set_append)
  qed
qed simp

definition edit_script :: "'a list \<Rightarrow> 'a list \<Rightarrow> operation list \<Rightarrow> bool" where
  "edit_script f t ops \<longleftrightarrow> tiles 0 0 ops (length f) (length t) \<and> (\<forall>oper\<in>set ops. operation_ok f t oper)"

definition compute_operations :: "'a matcher \<Rightarrow> operation list" where
  "compute_operations m =
     rev (operations_loop
            (compute_blocks (length (from_seq m)) (length (to_seq m)) (compute_matches m)) 0 0 [])"

lemma common_block_slice:
  assumes "common_block m i j n" "i + n \<le> length (from_seq m)" "j + n \<le> length (to_seq m)"
  shows "slice (from_seq m) i (i + n) = slice (to_seq m) j (j + n)"
  using assms by (simp add: slice_eq_iff common_block_def)

lemma compute_operations_script:
  assumes wf: "matcher_wf m"
  shows "edit_script (from_seq m) (to_seq m) (compute_operations m)"
proof -
  let ?f = "from_seq m" and ?t = "to_seq m"
  let ?last = "cut_sequence_match_info_new (length ?f) (length ?t) 0"
  obtain bs where bs: "compute_blocks (length ?f) (length ?t) (compute_matches m) = bs @ [?last]"
    "chain_ok m bs"
    using compute_blocks_chain [OF compute_matches_chain [OF wf]] by blast
  have ok: "info_in 0 (length ?f) 0 (length ?t) info \<and>
      slice ?f (from_index info) (from_index info + info_size info) =
      slice ?t (to_index info) (to_index info + info_size info)" if "info \<in> set bs" for info
    using bs(2) that by (auto simp: chain_ok_def match_ok_def info_in_def intro: common_block_slice)
  have "tiles 0 0 (operation_list (bs @ [?last]) 0 0)
      (from_index (last (bs @ [?last])) + info_size (last (bs @ [?last])))
      (to_index (last (bs @ [?last])) + info_size (last (bs @ [?last]))) \<and>
    (\<forall>oper\<in>set (operation_list (bs @ [?last]) 0 0). operation_ok ?f ?t oper)"
    using bs(2) ok
    by (intro operation_list_tiles)
       (auto simp: sorted_wrt_append chain_ok_def info_before_def info_in_def match_ok_def
          cut_sequence_match_info_new_def)
  then show ?thesis
    by (simp add: edit_script_def compute_operations_def bs(1) operations_loop_list
        cut_sequence_match_info_new_def)
qed

text \<open>Replaying a script.\<close>

definition apply_operation :: "'a list \<Rightarrow> 'a list \<Rightarrow> operation \<Rightarrow> 'a list" where
  "apply_operation f t oper =
     (case op_type oper of
        EQUAL \<Rightarrow> slice f (from_begin oper) (from_end oper)
      | INSERT \<Rightarrow> slice t (to_begin oper) (to_end oper)
      | DELETE \<Rightarrow> []
      | REPLACE \<Rightarrow> slice t (to_begin oper) (to_end oper))"

lemma apply_operation_ok:
  "operation_ok f t oper \<Longrightarrow> apply_operation f t oper = slice t (to_begin oper) (to_end oper)"
  by (auto simp: operation_ok_def apply_operation_def split: operation_type.splits)

lemma tiles_replay:
  assumes "\<forall>oper\<in>set ops. operation_ok f t oper" "tiles fi ti ops fe te"
  shows "fi \<le> fe \<and> ti \<le> te \<and>
    concat (map (apply_operation f t) ops) = slice t ti te \<and>
    concat (map (\<lambda>oper. slice f (from_begin oper) (from_end oper)) ops) = slice f fi fe"
  using assms
proof (induction ops arbitrary: fi ti)
  case (Cons oper ops)
  have "from_begin oper \<le> from_end oper" "to_begin oper \<le> to_end oper"
    using Cons.prems(1) by (auto simp: operation_ok_def)
  moreover have "from_end oper \<le> fe \<and> to_end oper \<le> te \<and>
      concat (map (apply_operation f t) ops) = slice t (to_end oper) te \<and>
      concat (map (\<lambda>oper. slice f (from_begin oper) (from_end oper)) ops) = slice f (from_end oper) fe"
    using Cons.prems by (intro Cons.IH) auto
  ultimately show ?case
    using Cons.prems slice_append [of ti "to_end oper" te t] slice_append [of fi "from_end oper" fe f]
    by (auto simp: apply_operation_ok)
qed simp

lemma edit_script_replay:
  assumes "edit_script f t ops"
  shows "concat (map (apply_operation f t) ops) = t"
    and "concat (map (\<lambda>oper. slice f (from_begin oper) (from_end oper)) ops) = f"
  using assms tiles_replay [of ops f t 0 0 "length f" "length t"] by (simp_all add: edit_script_def)

section \<open>Ratio\<close>

lemma chain_total_bound:
  "sorted_wrt info_before ms \<Longrightarrow> \<forall>info\<in>set ms. lo \<le> from_index info \<and> lt \<le> to_index info \<and>
     from_index info + info_size info \<le> hi \<and> to_index info + info_size info \<le> ht \<Longrightarrow>
   lo \<le> hi \<Longrightarrow> lt \<le> ht \<Longrightarrow>
   chain_total ms \<le> hi - lo \<and> chain_total ms \<le> ht - lt"
proof (induction ms arbitrary: lo lt)
  case (Cons info ms)
  have "chain_total ms \<le> hi - (from_index info + info_size info) \<and>
      chain_total ms \<le> ht - (to_index info + info_size info)"
    using Cons.prems by (intro Cons.IH) (auto simp: info_before_def)
  moreover have "chain_total (info # ms) = info_size info + chain_total ms"
    by (simp add: chain_total_def)
  ultimately show ?case using Cons.prems(2) by fastforce
qed (simp add: chain_total_def)

definition compute_ratio :: "'a matcher \<Rightarrow> rat" where
  "compute_ratio m =
     (let n = length (from_seq m) + length (to_seq m)
      in if n = 0 then 1
         else 2 * of_nat (chain_total
                (compute_blocks (length (from_seq m)) (length (to_seq m)) (compute_matches m))) / of_nat n)"

lemma compute_blocks_total:
  assumes "matcher_wf m"
  shows "chain_total (compute_blocks (length (from_seq m)) (length (to_seq m)) (compute_matches m)) =
     chain_total (compute_matches m)"
  using compute_blocks_chain [OF compute_matches_chain [OF assms]]
  by (auto simp: chain_total_def cut_sequence_match_info_new_def)

lemma compute_ratio_bounds:
  assumes "matcher_wf m"
  shows "0 \<le> compute_ratio m" "compute_ratio m \<le> 1"
proof -
  have "chain_total (compute_matches m) \<le> length (from_seq m) - 0 \<and>
      chain_total (compute_matches m) \<le> length (to_seq m) - 0"
    using compute_matches_chain [OF assms]
    by (intro chain_total_bound) (auto simp: chain_ok_def match_ok_def info_in_def)
  then have "2 * chain_total (compute_matches m) \<le> length (from_seq m) + length (to_seq m)"
    by simp
  then have "(2 * of_nat (chain_total (compute_matches m)) :: rat) \<le>
      of_nat (length (from_seq m) + length (to_seq m))"
    by (metis of_nat_le_iff of_nat_mult of_nat_numeral)
  then show "0 \<le> compute_ratio m" "compute_ratio m \<le> 1"
    by (auto simp: compute_ratio_def Let_def compute_blocks_total [OF assms] divide_le_eq)
qed

text \<open>Equal sequences without junk: one match covers everything.\<close>

lemma longest_match_equal:
  assumes wf: "matcher_wf m" and eq: "from_seq m = to_seq m" and nj: "junks m = []"
  defines "n \<equiv> length (to_seq m)"
  shows "cut_sequence_matcher_get_longest_match m 0 n 0 n = \<lparr>from_index = 0, to_index = 0, info_size = n\<rparr>"
proof -
  let ?i = "find_best_match_position m 0 n 0 n"
  have "n \<le> info_size ?i"
    using eq nj by (intro find_best_longest [OF wf, of n 0 0 n n 0 0])
      (auto simp: n_def common_block_def junk_free_def is_junk_def)
  moreover have "info_in 0 n 0 n ?i"
    by (intro find_best_sound [OF wf]) (auto simp: n_def)
  ultimately show ?thesis
    by (simp add: cut_sequence_matcher_get_longest_match_def nj info_in_def)
qed

lemma compute_matches_equal:
  assumes wf: "matcher_wf m" and eq: "from_seq m = to_seq m" and nj: "junks m = []"
    and ne: "to_seq m \<noteq> []"
  shows "compute_matches m = [\<lparr>from_index = 0, to_index = 0, info_size = length (to_seq m)\<rparr>]"
  using longest_match_equal [OF wf eq nj] ne
  by (simp add: compute_matches_def push_matching_info_def eq push_left_def push_right_def Let_def)

lemma compute_operations_equal:
  assumes "matcher_wf m" "from_seq m = to_seq m" "junks m = []" "to_seq m \<noteq> []"
  shows "compute_operations m =
     [cut_sequence_match_operation_new EQUAL 0 (length (to_seq m)) 0 (length (to_seq m))]"
  using assms(4)
  by (simp add: compute_operations_def compute_matches_equal [OF assms] compute_blocks_def assms(2)
      cut_sequence_match_info_new_def determine_operation_type_def Let_def)

lemma compute_ratio_equal:
  assumes "matcher_wf m" "from_seq m = to_seq m" "junks m = []"
  shows "compute_ratio m = 1"
proof (cases "to_seq m = []")
  case True
  with assms(2) show ?thesis by (simp add: compute_ratio_def)
next
  case False
  have "chain_total (compute_blocks (length (from_seq m)) (length (to_seq m)) (compute_matches m)) =
      chain_total (compute_matches m)"
    by (rule compute_blocks_total [OF assms(1)])
  also have "\<dots> = length (to_seq m)"
    by (simp add: compute_matches_equal [OF assms False] chain_total_def)
  finally have "chain_total (compute_blocks (length (from_seq m)) (length (to_seq m))
      (compute_matches m)) = length (to_seq m)" .
  with False show ?thesis
    by (simp add: compute_ratio_def assms(2))
qed

section \<open>Caches\<close>

text \<open>Two matchers with the same input fields search alike, whatever their caches hold.\<close>

definition same_input :: "'a matcher \<Rightarrow> 'a matcher \<Rightarrow> bool" where
  "same_input m m' \<longleftrightarrow> from_seq m = from_seq m' \<and> to_seq m = to_seq m' \<and>
     compare_func m = compare_func m' \<and> to_indices m = to_indices m' \<and> junks m = junks m'"

lemma same_input_simps [simp]:
  "same_input m m"
  "same_input (m\<lparr>matches := ms\<rparr>) m" "same_input (m\<lparr>blocks := bs\<rparr>) m"
  "same_input (m\<lparr>operations := ops\<rparr>) m" "same_input (m\<lparr>grouped_operations := gs\<rparr>) m"
  "same_input (m\<lparr>ratio := r\<rparr>) m" "same_input (m\<lparr>context_size := n\<rparr>) m"
  by (simp_all add: same_input_def)

lemma best_outer_same:
  "same_input m m' \<Longrightarrow> best_outer m tb te i n sizes info = best_outer m' tb te i n sizes info"
  by (induction n arbitrary: i sizes info)
     (simp_all add: same_input_def cut_sequence_matcher_get_to_index_def split_beta)

lemma check_same:
  "same_input m m' \<Longrightarrow> check_junk m sj i = check_junk m' sj i"
  "same_input m m' \<Longrightarrow> equal_content m i j = equal_content m' i j"
  by (simp_all add: same_input_def check_junk_def equal_content_def)

lemma adjust_backward_same:
  assumes "same_input m m'"
  shows "adjust_backward m sj fb tb info = adjust_backward m' sj fb tb info"
  using assms
proof (induction m sj fb tb info rule: adjust_backward.induct)
  case (1 m sj fb tb info)
  then show ?case
    by (subst (1 2) adjust_backward.simps) (simp add: check_same [OF "1.prems"])
qed

lemma adjust_forward_same:
  assumes "same_input m m'"
  shows "adjust_forward m sj fe te info = adjust_forward m' sj fe te info"
  using assms
proof (induction m sj fe te info rule: adjust_forward.induct)
  case (1 m sj fe te info)
  then show ?case
    by (subst (1 2) adjust_forward.simps) (simp add: check_same [OF "1.prems"])
qed

lemma longest_match_same:
  assumes "same_input m m'"
  shows "cut_sequence_matcher_get_longest_match m fb fe tb te =
    cut_sequence_matcher_get_longest_match m' fb fe tb te"
proof -
  have "junks m = junks m'" using assms by (simp add: same_input_def)
  then show ?thesis
    by (simp add: cut_sequence_matcher_get_longest_match_def find_best_match_position_def
        best_outer_same [OF assms] adjust_best_info_with_junk_predicate_def
        adjust_backward_same [OF assms] adjust_forward_same [OF assms] Let_def)
qed

lemma matches_loop_same:
  "same_input m m' \<Longrightarrow> matches_loop m q ms = matches_loop m' q ms"
  by (induction m q ms rule: matches_loop.induct)
     (simp_all add: Let_def longest_match_same)

lemma compute_same:
  assumes "same_input m m'"
  shows "compute_matches m = compute_matches m'"
    "compute_operations m = compute_operations m'" "compute_ratio m = compute_ratio m'"
  using assms matches_loop_same [OF assms]
  by (auto simp: compute_matches_def compute_operations_def compute_ratio_def same_input_def)

end
