(* ===== verification/Sequence_Groups.thy ===== *)
theory Sequence_Groups
  imports Sequence_Script
begin

text \<open>
  The grouped operations of the sequence matcher: every change of the script is kept, a group
  is a contiguous piece of the script, and its unchanged parts are cut to the context size.
\<close>

section \<open>Grouping keeps the changes\<close>

abbreviation changes :: "operation list \<Rightarrow> operation list" where
  "changes ops \<equiv> filter (\<lambda>oper. op_type oper \<noteq> EQUAL) ops"

lemma operation_new_type [simp]:
  "op_type (cut_sequence_match_operation_new ty fb fe tb te) = ty"
  by (simp add: cut_sequence_match_operation_new_def)

lemma copy_edge_changes: "changes (copy_edge_operations ctx ops) = changes ops"
  by (induction ops) auto

lemma edge_expanded_changes:
  "changes (get_edge_expanded_copied_operations ctx ops) = changes ops"
  by (cases ops)
     (auto simp: get_edge_expanded_copied_operations_def copy_edge_changes
        simp del: copy_edge_operations.simps)

lemma group_loop_changes:
  "changes (concat (rev (group_loop ctx ops grp grps))) =
   changes (concat (rev grps)) @ changes (rev grp) @ changes ops"
proof (induction ctx ops grp grps rule: group_loop.induct)
  case (2 ctx oper rest grp grps)
  show ?case
  proof (cases "op_type oper = EQUAL \<and> guint (ctx * 2) < from_end oper - from_begin oper")
    case True
    with "2.IH"(1) [OF refl refl refl refl True refl refl refl] show ?thesis
      by (simp add: Let_def)
  next
    case False
    then show ?thesis using "2.IH"(2) [OF refl refl refl refl False]
      by (cases "op_type oper = EQUAL") (simp_all add: Let_def)
  qed
qed simp

lemma compute_groups_changes: "changes (concat (compute_groups ctx ops)) = changes ops"
  by (simp add: compute_groups_def group_loop_changes edge_expanded_changes)

section \<open>A group is a contiguous piece of the script\<close>

definition joins :: "operation \<Rightarrow> operation \<Rightarrow> bool" where
  "joins a b \<longleftrightarrow> from_end a = from_begin b \<and> to_end a = to_begin b"

lemma tiles_joined: "tiles fi ti ops fe te \<Longrightarrow> successively joins ops"
proof (induction fi ti ops fe te rule: tiles.induct)
  case (2 fi ti oper ops fe te)
  then show ?case by (cases ops) (auto simp: joins_def)
qed simp

lemma copy_edge_begin:
  "map (\<lambda>oper. (from_begin oper, to_begin oper)) (copy_edge_operations ctx ops) =
   map (\<lambda>oper. (from_begin oper, to_begin oper)) ops"
  by (induction ops) (auto simp: cut_sequence_match_operation_new_def)

lemma copy_edge_Nil [simp]: "copy_edge_operations ctx ops = [] \<longleftrightarrow> ops = []"
  by (cases ops) auto

lemma copy_edge_hd:
  "ops \<noteq> [] \<Longrightarrow> from_begin (hd (copy_edge_operations ctx ops)) = from_begin (hd ops) \<and>
     to_begin (hd (copy_edge_operations ctx ops)) = to_begin (hd ops)"
  by (cases ops) (auto simp: cut_sequence_match_operation_new_def)

lemma copy_edge_joined:
  "successively joins ops \<Longrightarrow> successively joins (copy_edge_operations ctx ops)"
proof (induction ops)
  case (Cons oper ops)
  show ?case
  proof (cases ops)
    case (Cons b r)
    then show ?thesis
      using Cons.IH Cons.prems copy_edge_hd [of ops ctx]
      by (cases "copy_edge_operations ctx ops") (auto simp: joins_def)
  qed simp
qed simp

lemma edge_expanded_joined:
  assumes "successively joins ops"
  shows "successively joins (get_edge_expanded_copied_operations ctx ops)"
proof (cases ops)
  case (Cons oper rest)
  have "successively joins (copy_edge_operations ctx rest)"
    using assms Cons by (intro copy_edge_joined) (auto simp: successively_Cons)
  then show ?thesis
    using assms Cons copy_edge_joined [OF assms, of ctx] copy_edge_hd [of rest ctx]
    by (auto simp: get_edge_expanded_copied_operations_def successively_Cons joins_def
        cut_sequence_match_operation_new_def simp del: copy_edge_operations.simps)
qed (simp add: get_edge_expanded_copied_operations_def)

lemma group_loop_joined:
  "successively joins (rev grp @ ops) \<Longrightarrow> \<forall>g\<in>set grps. g \<noteq> [] \<and> successively joins g \<Longrightarrow>
   \<forall>g\<in>set (group_loop ctx ops grp grps). g \<noteq> [] \<and> successively joins g"
proof (induction ctx ops grp grps rule: group_loop.induct)
  case (2 ctx oper rest grp grps)
  show ?case
  proof (cases "op_type oper = EQUAL \<and> guint (ctx * 2) < from_end oper - from_begin oper")
    case True
    note IH = "2.IH"(1) [OF refl refl refl refl True refl refl refl]
    show ?thesis
      unfolding group_loop.simps Let_def if_P [OF True]
      by (rule IH; use "2.prems" in \<open>auto simp: successively_append_iff successively_Cons
            joins_def cut_sequence_match_operation_new_def\<close>)
  next
    case False
    note IH = "2.IH"(2) [OF refl refl refl refl False]
    have "\<forall>g\<in>set (group_loop ctx rest (oper # grp) grps). g \<noteq> [] \<and> successively joins g"
      using "2.prems" by (intro IH) auto
    then show ?thesis unfolding group_loop.simps Let_def if_not_P [OF False] .
  qed
qed auto

lemma compute_groups_joined:
  assumes "edit_script f t ops" "g \<in> set (compute_groups ctx ops)"
  shows "g \<noteq> []" "successively joins g"
proof -
  have "successively joins ops"
    using assms(1) by (auto simp: edit_script_def intro: tiles_joined)
  then have "\<forall>g\<in>set (group_loop ctx (get_edge_expanded_copied_operations ctx ops) [] []).
      g \<noteq> [] \<and> successively joins g"
    by (intro group_loop_joined) (simp_all add: edge_expanded_joined)
  with assms(2) show "g \<noteq> []" "successively joins g"
    by (simp_all add: compute_groups_def)
qed

section \<open>The context of a group\<close>

text \<open>An \<open>EQUAL\<close> piece of a group spans equal contents.\<close>

definition piece_ok :: "'a list \<Rightarrow> 'a list \<Rightarrow> operation \<Rightarrow> bool" where
  "piece_ok f t oper \<longleftrightarrow>
     from_begin oper \<le> from_end oper \<and> from_end oper \<le> length f \<and>
     to_begin oper \<le> to_end oper \<and> to_end oper \<le> length t \<and>
     (op_type oper = EQUAL \<longrightarrow>
        slice f (from_begin oper) (from_end oper) = slice t (to_begin oper) (to_end oper))"

lemma operation_piece: "operation_ok f t oper \<Longrightarrow> piece_ok f t oper"
  by (cases "op_type oper") (auto simp: operation_ok_def piece_ok_def)

lemma slice_sub:
  assumes "slice f b (b + n) = slice t c (c + n)" "b + n \<le> length f" "c + n \<le> length t"
    and "k + l \<le> n"
  shows "slice f (b + k) (b + k + l) = slice t (c + k) (c + k + l)"
proof -
  have "\<forall>i<n. f ! (b + i) = t ! (c + i)" using assms by (simp add: slice_eq_iff)
  then have "\<forall>i<l. f ! (b + (k + i)) = t ! (c + (k + i))" using assms(4) by auto
  then have "\<forall>i<l. f ! (b + k + i) = t ! (c + k + i)" by (simp add: add.assoc)
  then show ?thesis using assms by (subst slice_eq_iff) auto
qed

text \<open>The two ways a long common part is cut: its first and its last \<open>ctx\<close> items.\<close>

lemma piece_length:
  assumes "piece_ok f t oper" "op_type oper = EQUAL"
  shows "to_end oper - to_begin oper = from_end oper - from_begin oper"
  using assms length_slice [of "from_end oper" f "from_begin oper"]
    length_slice [of "to_end oper" t "to_begin oper"] by (simp add: piece_ok_def)

lemma piece_head:
  fixes oper :: operation and ctx :: nat
  assumes ok: "piece_ok f t oper" "op_type oper = EQUAL"
  defines "o' \<equiv> cut_sequence_match_operation_new EQUAL
      (from_begin oper) (min (from_end oper) (from_begin oper + ctx))
      (to_begin oper) (min (to_end oper) (to_begin oper + ctx))"
  shows "piece_ok f t o'" "from_end o' - from_begin o' \<le> ctx"
proof -
  let ?n = "from_end oper - from_begin oper"
  let ?l = "min ?n ctx"
  have le: "from_begin oper \<le> from_end oper" "to_begin oper \<le> to_end oper"
    "from_end oper \<le> length f" "to_end oper \<le> length t"
    using ok by (auto simp: piece_ok_def)
  have n: "from_end oper = from_begin oper + ?n" "to_end oper = to_begin oper + ?n"
    using piece_length [OF ok] le by auto
  have cut: "min (from_end oper) (from_begin oper + ctx) = from_begin oper + ?l"
    "min (to_end oper) (to_begin oper + ctx) = to_begin oper + ?l"
    using n by linarith+
  have eq: "slice f (from_begin oper) (from_begin oper + ?n) =
      slice t (to_begin oper) (to_begin oper + ?n)"
    using ok n by (metis piece_ok_def)
  have "slice f (from_begin oper + 0) (from_begin oper + 0 + ?l) =
      slice t (to_begin oper + 0) (to_begin oper + 0 + ?l)"
    by (rule slice_sub [OF eq]) (use n le in auto)
  then show "piece_ok f t o'" "from_end o' - from_begin o' \<le> ctx"
    unfolding o'_def cut using le n
    by (auto simp: piece_ok_def cut_sequence_match_operation_new_def)
qed

lemma piece_tail:
  fixes oper :: operation and ctx :: nat
  assumes ok: "piece_ok f t oper" "op_type oper = EQUAL"
  defines "o' \<equiv> cut_sequence_match_operation_new EQUAL
      (max (from_begin oper) (from_end oper - ctx)) (from_end oper)
      (max (to_begin oper) (to_end oper - ctx)) (to_end oper)"
  shows "piece_ok f t o'" "from_end o' - from_begin o' \<le> ctx"
proof -
  let ?n = "from_end oper - from_begin oper"
  let ?l = "min ?n ctx"
  have le: "from_begin oper \<le> from_end oper" "to_begin oper \<le> to_end oper"
    "from_end oper \<le> length f" "to_end oper \<le> length t"
    using ok by (auto simp: piece_ok_def)
  have n: "from_end oper = from_begin oper + ?n" "to_end oper = to_begin oper + ?n"
    using piece_length [OF ok] le by auto
  have cut: "max (from_begin oper) (from_end oper - ctx) = from_begin oper + (?n - ?l)"
    "max (to_begin oper) (to_end oper - ctx) = to_begin oper + (?n - ?l)"
    using n by linarith+
  have eq: "slice f (from_begin oper) (from_begin oper + ?n) =
      slice t (to_begin oper) (to_begin oper + ?n)"
    using ok n by (metis piece_ok_def)
  have "slice f (from_begin oper + (?n - ?l)) (from_begin oper + (?n - ?l) + ?l) =
      slice t (to_begin oper + (?n - ?l)) (to_begin oper + (?n - ?l) + ?l)"
    by (rule slice_sub [OF eq]) (use n le in auto)
  moreover have "from_begin oper + (?n - ?l) + ?l = from_end oper"
    "to_begin oper + (?n - ?l) + ?l = to_end oper"
    using n by auto
  ultimately show "piece_ok f t o'" "from_end o' - from_begin o' \<le> ctx"
    unfolding o'_def cut using le n
    by (auto simp: piece_ok_def cut_sequence_match_operation_new_def)
qed

definition context_ok :: "nat \<Rightarrow> 'a list \<Rightarrow> 'a list \<Rightarrow> operation \<Rightarrow> bool" where
  "context_ok ctx f t oper \<longleftrightarrow> piece_ok f t oper \<and>
     (op_type oper = EQUAL \<longrightarrow> from_end oper - from_begin oper \<le> 2 * ctx)"

lemma cut_head:
  "op_type oper = EQUAL \<Longrightarrow> oper\<lparr>from_end := fe, to_end := te\<rparr> =
     cut_sequence_match_operation_new EQUAL (from_begin oper) fe (to_begin oper) te"
  by (cases oper) (simp add: cut_sequence_match_operation_new_def)

lemma cut_tail:
  fixes n m ctx :: nat
  shows "(if ctx < n then max m (n - ctx) else m) = max m (n - ctx)"
    "max m (if ctx < n then n - ctx else 0) = max m (n - ctx)"
  by auto

lemma context_head:
  assumes "piece_ok f t oper" "op_type oper = EQUAL"
  shows "context_ok ctx f t (cut_sequence_match_operation_new EQUAL
      (from_begin oper) (min (from_end oper) (from_begin oper + ctx))
      (to_begin oper) (min (to_end oper) (to_begin oper + ctx)))"
  using piece_head [OF assms, of ctx] by (auto simp: context_ok_def)

lemma context_tail:
  assumes "piece_ok f t oper" "op_type oper = EQUAL"
  shows "context_ok ctx f t (cut_sequence_match_operation_new EQUAL
      (max (from_begin oper) (from_end oper - ctx)) (from_end oper)
      (max (to_begin oper) (to_end oper - ctx)) (to_end oper))"
  using piece_tail [OF assms, of ctx] by (auto simp: context_ok_def)

lemma group_loop_context:
  assumes b: "length f < 2147483648" "length t < 2147483648" "ctx < 2147483648"
  shows "\<forall>oper\<in>set ops. piece_ok f t oper \<Longrightarrow> \<forall>oper\<in>set grp. context_ok ctx f t oper \<Longrightarrow>
    \<forall>g\<in>set grps. \<forall>oper\<in>set g. context_ok ctx f t oper \<Longrightarrow>
    \<forall>g\<in>set (group_loop ctx ops grp grps). \<forall>oper\<in>set g. context_ok ctx f t oper"
  using b
proof (induction ctx ops grp grps rule: group_loop.induct)
  case (2 ctx oper rest grp grps)
  have piece: "piece_ok f t oper" using "2.prems" by simp
  then have small: "guint (ctx * 2) = ctx * 2" "guint (from_begin oper + ctx) = from_begin oper + ctx"
    "guint (to_begin oper + ctx) = to_begin oper + ctx"
    using "2.prems"(4-6) by (auto simp: piece_ok_def)
  show ?case
  proof (cases "op_type oper = EQUAL \<and> guint (ctx * 2) < from_end oper - from_begin oper")
    case True
    note IH = "2.IH"(1) [OF refl refl refl refl True refl refl refl]
    have eq: "op_type oper = EQUAL" using True by simp
    show ?thesis
      unfolding group_loop.simps Let_def if_P [OF True]
      by (rule IH; use "2.prems" context_head [OF piece eq, of ctx] context_tail [OF piece eq, of ctx] in
          \<open>auto simp: cut_head [OF eq] cut_tail eq small\<close>)
  next
    case False
    note IH = "2.IH"(2) [OF refl refl refl refl False]
    have "context_ok ctx f t oper" using False piece small by (auto simp: context_ok_def)
    then have "\<forall>g\<in>set (group_loop ctx rest (oper # grp) grps). \<forall>oper\<in>set g. context_ok ctx f t oper"
      using "2.prems" by (intro IH) auto
    then show ?thesis unfolding group_loop.simps Let_def if_not_P [OF False] .
  qed
qed auto

lemma copy_edge_piece:
  assumes "length f < 2147483648" "length t < 2147483648" "ctx < 2147483648"
  shows "\<forall>oper\<in>set ops. piece_ok f t oper \<Longrightarrow>
    \<forall>oper\<in>set (copy_edge_operations ctx ops). piece_ok f t oper"
proof (induction ops)
  case (Cons oper rest)
  have piece: "piece_ok f t oper" using Cons.prems by simp
  then have small: "guint (from_begin oper + ctx) = from_begin oper + ctx"
    "guint (to_begin oper + ctx) = to_begin oper + ctx"
    using assms by (auto simp: piece_ok_def)
  show ?case
    using Cons piece context_head [OF piece, of ctx] by (auto simp: small context_ok_def)
qed simp

lemma edge_expanded_piece:
  assumes "length f < 2147483648" "length t < 2147483648" "ctx < 2147483648"
    and "\<forall>oper\<in>set ops. piece_ok f t oper"
  shows "\<forall>oper\<in>set (get_edge_expanded_copied_operations ctx ops). piece_ok f t oper"
proof (cases ops)
  case Nil
  then show ?thesis
    by (simp add: get_edge_expanded_copied_operations_def piece_ok_def
        cut_sequence_match_operation_new_def)
next
  case (Cons oper rest)
  have "\<forall>oper\<in>set (copy_edge_operations ctx rest). piece_ok f t oper"
    "\<forall>oper\<in>set (copy_edge_operations ctx ops). piece_ok f t oper"
    using assms(4) Cons copy_edge_piece [OF assms(1-3), of rest] copy_edge_piece [OF assms]
    by simp_all
  then show ?thesis
    using Cons assms(4) context_tail [of f t oper ctx]
    by (auto simp: get_edge_expanded_copied_operations_def cut_tail context_ok_def
        simp del: copy_edge_operations.simps)
qed

lemma compute_groups_context:
  assumes "length f < 2147483648" "length t < 2147483648" "ctx < 2147483648"
    and "edit_script f t ops" "g \<in> set (compute_groups ctx ops)" "oper \<in> set g"
  shows "context_ok ctx f t oper"
proof -
  have "\<forall>g\<in>set (group_loop ctx (get_edge_expanded_copied_operations ctx ops) [] []).
      \<forall>oper\<in>set g. context_ok ctx f t oper"
    using assms(4)
    by (intro group_loop_context assms(1-3) edge_expanded_piece)
       (auto simp: edit_script_def operation_piece)
  with assms(5,6) show ?thesis by (simp add: compute_groups_def)
qed

end
