(* ===== verification/Sequence_Cache.thy ===== *)
theory Sequence_Cache
  imports Sequence_Groups
begin

text \<open>
  The matcher as an object: its cached results stay what a fresh computation gives under any
  sequence of calls. The contract of a comparison function is a locale, interpreted on the two
  comparisons of the source; the properties of the matcher follow.
\<close>

section \<open>The caches\<close>

text \<open>Every cache of a matcher is empty or holds what would be computed from its input.\<close>

definition cache_ok :: "'a matcher \<Rightarrow> bool" where
  "cache_ok m \<longleftrightarrow>
     (matches m = [] \<or> matches m = compute_matches m) \<and>
     (blocks m = [] \<or> blocks m = compute_blocks (length (from_seq m)) (length (to_seq m)) (compute_matches m)) \<and>
     (operations m = [] \<or> operations m = compute_operations m) \<and>
     (grouped_operations m = [] \<or>
        grouped_operations m = compute_groups (context_size m) (compute_operations m)) \<and>
     (ratio m < 0 \<or> ratio m = compute_ratio m)"

text \<open>The calls a client may make on a matcher, in any order.\<close>

datatype matcher_call =
    Get_Matches | Get_Blocks | Get_Operations | Get_Grouped_Operations | Get_Ratio
  | Set_Context_Size nat

primrec matcher_step :: "matcher_call \<Rightarrow> 'a matcher \<Rightarrow> 'a matcher" where
  "matcher_step Get_Matches m = snd (cut_sequence_matcher_get_matches m)"
| "matcher_step Get_Blocks m = snd (cut_sequence_matcher_get_blocks m)"
| "matcher_step Get_Operations m = snd (cut_sequence_matcher_get_operations m)"
| "matcher_step Get_Grouped_Operations m = snd (cut_sequence_matcher_get_grouped_operations m)"
| "matcher_step Get_Ratio m = snd (cut_sequence_matcher_get_ratio m)"
| "matcher_step (Set_Context_Size n) m = cut_sequence_matcher_set_context_size m n"

lemma same_input_trans: "same_input a b \<Longrightarrow> same_input b c \<Longrightarrow> same_input a c"
  by (simp add: same_input_def)

lemma same_input_update [simp]:
  "same_input (m\<lparr>matches := ms\<rparr>) m' = same_input m m'"
  "same_input (m\<lparr>blocks := bs\<rparr>) m' = same_input m m'"
  "same_input (m\<lparr>operations := ops\<rparr>) m' = same_input m m'"
  "same_input (m\<lparr>grouped_operations := gs\<rparr>) m' = same_input m m'"
  "same_input (m\<lparr>ratio := r\<rparr>) m' = same_input m m'"
  "same_input (m\<lparr>context_size := n\<rparr>) m' = same_input m m'"
  by (simp_all add: same_input_def)

lemma compute_same_simps [simp]:
  "compute_matches (m\<lparr>matches := ms\<rparr>) = compute_matches m"
  "compute_matches (m\<lparr>blocks := bs\<rparr>) = compute_matches m"
  "compute_matches (m\<lparr>operations := ops\<rparr>) = compute_matches m"
  "compute_matches (m\<lparr>grouped_operations := gs\<rparr>) = compute_matches m"
  "compute_matches (m\<lparr>ratio := r\<rparr>) = compute_matches m"
  "compute_matches (m\<lparr>context_size := n\<rparr>) = compute_matches m"
  "compute_operations (m\<lparr>matches := ms\<rparr>) = compute_operations m"
  "compute_operations (m\<lparr>blocks := bs\<rparr>) = compute_operations m"
  "compute_operations (m\<lparr>operations := ops\<rparr>) = compute_operations m"
  "compute_operations (m\<lparr>grouped_operations := gs\<rparr>) = compute_operations m"
  "compute_operations (m\<lparr>ratio := r\<rparr>) = compute_operations m"
  "compute_operations (m\<lparr>context_size := n\<rparr>) = compute_operations m"
  "compute_ratio (m\<lparr>matches := ms\<rparr>) = compute_ratio m"
  "compute_ratio (m\<lparr>blocks := bs\<rparr>) = compute_ratio m"
  "compute_ratio (m\<lparr>operations := ops\<rparr>) = compute_ratio m"
  "compute_ratio (m\<lparr>grouped_operations := gs\<rparr>) = compute_ratio m"
  "compute_ratio (m\<lparr>ratio := r\<rparr>) = compute_ratio m"
  "compute_ratio (m\<lparr>context_size := n\<rparr>) = compute_ratio m"
  by (rule compute_same; simp)+

lemma get_matches_cached:
  assumes "cache_ok m"
  shows "fst (cut_sequence_matcher_get_matches m) = compute_matches m"
    "cache_ok (snd (cut_sequence_matcher_get_matches m))"
    "same_input (snd (cut_sequence_matcher_get_matches m)) m"
    "context_size (snd (cut_sequence_matcher_get_matches m)) = context_size m"
  using assms by (auto simp: cut_sequence_matcher_get_matches_def cache_ok_def Let_def)

lemma get_blocks_cached:
  assumes "cache_ok m"
  shows "fst (cut_sequence_matcher_get_blocks m) =
       compute_blocks (length (from_seq m)) (length (to_seq m)) (compute_matches m)"
    "cache_ok (snd (cut_sequence_matcher_get_blocks m))"
    "same_input (snd (cut_sequence_matcher_get_blocks m)) m"
    "context_size (snd (cut_sequence_matcher_get_blocks m)) = context_size m"
  using assms by (auto simp: cut_sequence_matcher_get_blocks_def cut_sequence_matcher_get_matches_def
      cache_ok_def Let_def split: prod.split)

lemma get_operations_cached:
  assumes "cache_ok m"
  shows "fst (cut_sequence_matcher_get_operations m) = compute_operations m"
    "cache_ok (snd (cut_sequence_matcher_get_operations m))"
    "same_input (snd (cut_sequence_matcher_get_operations m)) m"
    "context_size (snd (cut_sequence_matcher_get_operations m)) = context_size m"
proof -
  note b = get_blocks_cached [OF assms]
  obtain bs m' where r: "cut_sequence_matcher_get_blocks m = (bs, m')" by force
  have same: "compute_matches m' = compute_matches m" "compute_operations m' = compute_operations m"
    "compute_ratio m' = compute_ratio m" "from_seq m' = from_seq m" "to_seq m' = to_seq m"
    using b(3) compute_same [of m' m] by (simp_all add: r same_input_def)
  show "fst (cut_sequence_matcher_get_operations m) = compute_operations m"
    "cache_ok (snd (cut_sequence_matcher_get_operations m))"
    "same_input (snd (cut_sequence_matcher_get_operations m)) m"
    "context_size (snd (cut_sequence_matcher_get_operations m)) = context_size m"
    using assms b same
    by (auto simp: cut_sequence_matcher_get_operations_def r cache_ok_def Let_def
        compute_operations_def [of m])
qed

lemma get_grouped_cached:
  assumes "cache_ok m"
  shows "fst (cut_sequence_matcher_get_grouped_operations m) =
       compute_groups (context_size m) (compute_operations m)"
    "cache_ok (snd (cut_sequence_matcher_get_grouped_operations m))"
    "same_input (snd (cut_sequence_matcher_get_grouped_operations m)) m"
    "context_size (snd (cut_sequence_matcher_get_grouped_operations m)) = context_size m"
proof -
  note b = get_operations_cached [OF assms]
  obtain ops m' where r: "cut_sequence_matcher_get_operations m = (ops, m')" by force
  have same: "compute_matches m' = compute_matches m" "compute_operations m' = compute_operations m"
    "compute_ratio m' = compute_ratio m" "from_seq m' = from_seq m" "to_seq m' = to_seq m"
    using b(3) compute_same [of m' m] by (simp_all add: r same_input_def)
  show "fst (cut_sequence_matcher_get_grouped_operations m) =
       compute_groups (context_size m) (compute_operations m)"
    "cache_ok (snd (cut_sequence_matcher_get_grouped_operations m))"
    "same_input (snd (cut_sequence_matcher_get_grouped_operations m)) m"
    "context_size (snd (cut_sequence_matcher_get_grouped_operations m)) = context_size m"
    using assms b same
    by (auto simp: cut_sequence_matcher_get_grouped_operations_def r cache_ok_def Let_def)
qed

lemma compute_ratio_nonneg: "0 \<le> compute_ratio m"
  by (simp add: compute_ratio_def Let_def)

lemma get_ratio_cached:
  assumes "cache_ok m"
  shows "fst (cut_sequence_matcher_get_ratio m) = compute_ratio m"
    "cache_ok (snd (cut_sequence_matcher_get_ratio m))"
    "same_input (snd (cut_sequence_matcher_get_ratio m)) m"
    "context_size (snd (cut_sequence_matcher_get_ratio m)) = context_size m"
proof -
  note b = get_blocks_cached [OF assms]
  obtain bs m' where r: "cut_sequence_matcher_get_blocks m = (bs, m')" by force
  have same: "compute_matches m' = compute_matches m" "compute_operations m' = compute_operations m"
    "compute_ratio m' = compute_ratio m" "from_seq m' = from_seq m" "to_seq m' = to_seq m"
    using b(3) compute_same [of m' m] by (simp_all add: r same_input_def)
  have bs: "bs = compute_blocks (length (from_seq m)) (length (to_seq m)) (compute_matches m)"
    and m': "cache_ok m'" "same_input m' m" "context_size m' = context_size m"
    using b by (simp_all add: r)
  have val: "cut_sequence_matcher_get_ratio m = (compute_ratio m,
      if 0 \<le> ratio m then m
      else (if length (from_seq m) + length (to_seq m) = 0 then m else m')\<lparr>ratio := compute_ratio m\<rparr>)"
  proof (cases "0 \<le> ratio m")
    case True
    then have "ratio m = compute_ratio m" using assms by (auto simp: cache_ok_def)
    with True show ?thesis by (simp add: cut_sequence_matcher_get_ratio_def)
  next
    case False
    then show ?thesis
      by (simp add: cut_sequence_matcher_get_ratio_def compute_ratio_def r bs chain_total_def Let_def)
  qed
  have upd: "cache_ok (n\<lparr>ratio := compute_ratio n\<rparr>)" if "cache_ok n" for n :: "'a matcher"
    using that by (simp add: cache_ok_def)
  show "fst (cut_sequence_matcher_get_ratio m) = compute_ratio m"
    "cache_ok (snd (cut_sequence_matcher_get_ratio m))"
    "same_input (snd (cut_sequence_matcher_get_ratio m)) m"
    "context_size (snd (cut_sequence_matcher_get_ratio m)) = context_size m"
    using assms m' upd [OF assms] upd [OF m'(1)] same(3) by (simp_all add: val)
qed

lemma set_context_size_ok:
  assumes "cache_ok m"
  shows "cache_ok (cut_sequence_matcher_set_context_size m n)"
    "same_input (cut_sequence_matcher_set_context_size m n) m"
  using assms by (auto simp: cut_sequence_matcher_set_context_size_def
        dispose_goruped_operations_def cache_ok_def)

lemma matcher_step_ok:
  assumes "cache_ok m"
  shows "cache_ok (matcher_step c m) \<and> same_input (matcher_step c m) m"
  by (cases c; simp only: matcher_step.simps)
     (rule conjI get_matches_cached get_blocks_cached get_operations_cached get_grouped_cached
        get_ratio_cached set_context_size_ok assms)+

lemma matcher_steps_ok:
  assumes "cache_ok m"
  shows "cache_ok (fold matcher_step cs m) \<and> same_input (fold matcher_step cs m) m"
  using assms
proof (induction cs arbitrary: m)
  case (Cons c cs)
  from Cons.IH [of "matcher_step c m"] matcher_step_ok [OF Cons.prems, of c]
  show ?case by (auto intro: same_input_trans)
qed simp

lemma new_cache_ok: "cache_ok (cut_sequence_matcher_new f t cmp jf)"
  by (cases jf) (simp_all add: cache_ok_def cut_sequence_matcher_new_def update_to_indices_def
      cut_sequence_matcher_init_def Let_def split_beta)

lemma calls_results:
  fixes m :: "'a matcher" and cs :: "matcher_call list"
  assumes "cache_ok m"
  defines "m' \<equiv> fold matcher_step cs m"
  shows "fst (cut_sequence_matcher_get_matches m') = compute_matches m"
    "fst (cut_sequence_matcher_get_blocks m') =
       compute_blocks (length (from_seq m)) (length (to_seq m)) (compute_matches m)"
    "fst (cut_sequence_matcher_get_operations m') = compute_operations m"
    "fst (cut_sequence_matcher_get_grouped_operations m') =
       compute_groups (context_size m') (compute_operations m)"
    "fst (cut_sequence_matcher_get_ratio m') = compute_ratio m"
  using matcher_steps_ok [OF assms(1), of cs] compute_same [of m' m]
  by (simp_all add: m'_def same_input_def get_matches_cached get_blocks_cached get_operations_cached
      get_grouped_cached get_ratio_cached)

text \<open>The accessors without a cache read only the input, which no call changes.\<close>

lemma calls_to_index:
  assumes "cache_ok m"
  shows "cut_sequence_matcher_get_to_index (fold matcher_step cs m) x = cut_sequence_matcher_get_to_index m x"
  using matcher_steps_ok [OF assms, of cs]
  by (simp add: cut_sequence_matcher_get_to_index_def same_input_def)

lemma calls_longest_match:
  assumes "cache_ok m"
  shows "cut_sequence_matcher_get_longest_match (fold matcher_step cs m) fb fe tb te =
    cut_sequence_matcher_get_longest_match m fb fe tb te"
  using matcher_steps_ok [OF assms, of cs] longest_match_same by blast

text \<open>The context size is the one last set, or the initial one.\<close>

primrec last_context_size :: "matcher_call list \<Rightarrow> nat \<Rightarrow> nat" where
  "last_context_size [] n = n"
| "last_context_size (c # cs) n =
     last_context_size cs (case c of Set_Context_Size k \<Rightarrow> k | _ \<Rightarrow> n)"

lemma step_context_size:
  assumes "cache_ok m"
  shows "context_size (matcher_step c m) = (case c of Set_Context_Size k \<Rightarrow> k | _ \<Rightarrow> context_size m)"
  using assms by (cases c) (simp_all add: get_matches_cached get_blocks_cached get_operations_cached
      get_grouped_cached get_ratio_cached cut_sequence_matcher_set_context_size_def
      dispose_goruped_operations_def)

lemma calls_context_size:
  "cache_ok m \<Longrightarrow> context_size (fold matcher_step cs m) = last_context_size cs (context_size m)"
proof (induction cs arbitrary: m)
  case (Cons c cs)
  from Cons.IH [of "matcher_step c m"] matcher_step_ok [OF Cons.prems, of c]
    step_context_size [OF Cons.prems, of c] show ?case by simp
qed simp

section \<open>Comparison functions\<close>

text \<open>The interface a sequence type gives to the matcher: its comparison is 0 on equal contents
  only.\<close>

locale content_compare =
  fixes cmp :: "'a \<Rightarrow> 'a \<Rightarrow> int"
  assumes compare_zero: "cmp x y = 0 \<longleftrightarrow> x = y"
begin

lemma wf: "length t < 4294967296 \<Longrightarrow> matcher_wf (cut_sequence_matcher_new f t cmp jf)"
  by (rule new_wf) (simp_all add: compare_zero)

lemma script:
  assumes "length t < 4294967296"
  shows "edit_script f t (fst (cut_sequence_matcher_get_operations
    (fold matcher_step cs (cut_sequence_matcher_new f t cmp jf))))"
  using compute_operations_script [OF wf [OF assms, of f jf]]
  by (simp add: calls_results [OF new_cache_ok])

lemma replay:
  fixes f t :: "'a list" and cs :: "matcher_call list" and jf :: "('a \<Rightarrow> bool) option"
  assumes "length t < 4294967296"
  defines "ops \<equiv> fst (cut_sequence_matcher_get_operations
    (fold matcher_step cs (cut_sequence_matcher_new f t cmp jf)))"
  shows "concat (map (apply_operation f t) ops) = t"
    "concat (map (\<lambda>oper. slice f (from_begin oper) (from_end oper)) ops) = f"
  using edit_script_replay [OF script [OF assms(1)]] by (simp_all add: ops_def)

lemma groups_context:
  fixes f t :: "'a list" and cs :: "matcher_call list" and jf :: "('a \<Rightarrow> bool) option"
  assumes "length f < 2147483648" "length t < 2147483648"
  defines "m \<equiv> fold matcher_step cs (cut_sequence_matcher_new f t cmp jf)"
  assumes "context_size m < 2147483648"
    and "g \<in> set (fst (cut_sequence_matcher_get_grouped_operations m))"
  shows "g \<noteq> [] \<and> successively joins g \<and> (\<forall>oper\<in>set g. context_ok (context_size m) f t oper)"
proof -
  have "edit_script f t (compute_operations (cut_sequence_matcher_new f t cmp jf))"
    using compute_operations_script [OF wf [of t f jf]] assms(2) by simp
  moreover have "g \<in> set (compute_groups (context_size m)
      (compute_operations (cut_sequence_matcher_new f t cmp jf)))"
    using assms(5) by (simp add: m_def calls_results [OF new_cache_ok])
  ultimately show ?thesis
    using compute_groups_joined compute_groups_context [OF assms(1,2,4)] by blast
qed

lemma ratio_bounds:
  fixes f t :: "'a list" and cs :: "matcher_call list" and jf :: "('a \<Rightarrow> bool) option"
  assumes "length t < 4294967296"
  defines "r \<equiv> fst (cut_sequence_matcher_get_ratio
    (fold matcher_step cs (cut_sequence_matcher_new f t cmp jf)))"
  shows "0 \<le> r \<and> r \<le> 1 \<and> (f = t \<and> jf = None \<longrightarrow> r = 1)"
proof -
  let ?m = "cut_sequence_matcher_new f t cmp jf"
  have wf: "matcher_wf ?m" by (rule wf [OF assms(1)])
  have "junks (cut_sequence_matcher_new f t cmp None) = []"
    by (simp add: cut_sequence_matcher_new_def update_to_indices_def cut_sequence_matcher_init_def)
  then have "compute_ratio ?m = 1" if "f = t \<and> jf = None"
    using that compute_ratio_equal [OF wf] by simp
  with compute_ratio_bounds [OF wf] show ?thesis
    by (auto simp: r_def calls_results [OF new_cache_ok])
qed

end

lemma string_compare_zero: "string_sequence_iter_compare s1 s2 = 0 \<longleftrightarrow> s1 = s2"
  by (induction s1 s2 rule: string_sequence_iter_compare.induct) auto

interpretation char_contents: content_compare char_sequence_iter_compare
  by unfold_locales (simp add: char_sequence_iter_compare_def)

interpretation string_contents: content_compare string_sequence_iter_compare
  by unfold_locales (rule string_compare_zero)

section \<open>Properties\<close>

text \<open>C7: whatever calls were made before, the operations of a character matcher are an edit
  script: they tile both texts without gap or overlap, every operation has the type its ranges
  show, and replaying them on the first text gives the second text while their first ranges
  give back the first text.\<close>

theorem char_operations_replay:
  fixes f t :: ustring and cs :: "matcher_call list" and jf :: "(gunichar \<Rightarrow> bool) option"
  assumes "length t < 4294967296"
  defines "ops \<equiv> fst (cut_sequence_matcher_get_operations
    (fold matcher_step cs (cut_sequence_matcher_char_new_full f t jf)))"
  shows "edit_script f t ops \<and> concat (map (apply_operation f t) ops) = t \<and>
    concat (map (\<lambda>oper. slice f (from_begin oper) (from_end oper)) ops) = f"
  using char_contents.script [OF assms(1)] char_contents.replay [OF assms(1)]
  by (simp add: ops_def cut_sequence_matcher_char_new_full_def)

theorem char_operations_replay_witness:
  "edit_script [97, 98, 99] [97, 100, 99 :: nat] (fst (cut_sequence_matcher_get_operations
     (fold matcher_step [Get_Ratio, Set_Context_Size 1] (cut_sequence_matcher_char_new_full
       [97, 98, 99] [97, 100, 99] None))))"
  using char_operations_replay [where f = "[97, 98, 99]" and t = "[97, 100, 99]" and jf = None
      and cs = "[Get_Ratio, Set_Context_Size 1]"] by simp

text \<open>C26: the operations of a string matcher are an edit script between the two lists of
  lines, junk filter or not, after any calls.\<close>

theorem string_operations_script:
  assumes "length t < 4294967296"
  shows "edit_script f t (fst (cut_sequence_matcher_get_operations
    (fold matcher_step cs (cut_sequence_matcher_string_new_full f t jf))))"
  using string_contents.script [OF assms] by (simp add: cut_sequence_matcher_string_new_full_def)

theorem string_operations_script_witness:
  "edit_script [[97], [98]] [[98 :: nat], [99]] (fst (cut_sequence_matcher_get_operations
     (fold matcher_step [] (cut_sequence_matcher_string_new_full [[97], [98]] [[98], [99]] None))))"
  by (rule string_operations_script) simp

text \<open>C27: the longest match in a range is a common block inside the range, and no common block
  of the range without junk is longer.\<close>

theorem longest_match_longest:
  fixes f t :: "ustring list" and jf :: "(ustring \<Rightarrow> bool) option" and fb fe tb te :: nat
  defines "m \<equiv> cut_sequence_matcher_string_new_full f t jf"
  defines "info \<equiv> cut_sequence_matcher_get_longest_match m fb fe tb te"
  assumes "length t < 4294967296" "te \<le> length t" "fb \<le> fe" "tb \<le> te"
  shows "info_in fb fe tb te info \<and> common_block m (from_index info) (to_index info) (info_size info) \<and>
    \<not> (\<exists>i j n. fb \<le> i \<and> i + n \<le> fe \<and> tb \<le> j \<and> j + n \<le> te \<and> common_block m i j n \<and>
        junk_free m j n \<and> info_size info < n)"
proof -
  have wf: "matcher_wf m" and te: "te \<le> length (to_seq m)"
    using string_contents.wf [OF assms(3)] assms(4)
    by (simp_all add: m_def cut_sequence_matcher_string_new_full_def)
  note snd = longest_match_sound [OF wf te assms(5,6)]
  have "n \<le> info_size info" if "fb \<le> i" "i + n \<le> fe" "tb \<le> j" "j + n \<le> te" "common_block m i j n"
    "junk_free m j n" for i j n
    using find_best_longest [OF wf te that] snd(3) by (simp add: info_def)
  then have "\<not> (\<exists>i j n. fb \<le> i \<and> i + n \<le> fe \<and> tb \<le> j \<and> j + n \<le> te \<and> common_block m i j n \<and>
        junk_free m j n \<and> info_size info < n)"
    by (meson leD)
  with snd(1,2) show ?thesis unfolding info_def by blast
qed

theorem longest_match_longest_witness:
  "info_in 0 2 0 2 (cut_sequence_matcher_get_longest_match
     (cut_sequence_matcher_string_new_full [[97], [98]] [[98], [99 :: nat]] None) 0 2 0 2)"
  using longest_match_longest [of "[[98], [99]]" 2 0 2 0 "[[97], [98]]" None] by simp

text \<open>C28: the grouped operations keep every change of the script, each once and in order,
  whatever the context size; only the unchanged parts are cut.\<close>

theorem groups_keep_changes:
  "changes (concat (fst (cut_sequence_matcher_get_grouped_operations
     (fold matcher_step cs (cut_sequence_matcher_new f t cmp jf))))) =
   changes (fst (cut_sequence_matcher_get_operations
     (fold matcher_step cs (cut_sequence_matcher_new f t cmp jf))))"
  by (simp add: calls_results [OF new_cache_ok] compute_groups_changes)

text \<open>C29: a group is a nonempty contiguous run of well-formed pieces, and an unchanged piece of
  it has at most twice the context size.\<close>

theorem groups_have_context:
  fixes f t :: "ustring list" and cs :: "matcher_call list" and jf :: "(ustring \<Rightarrow> bool) option"
  defines "m \<equiv> fold matcher_step cs (cut_sequence_matcher_string_new_full f t jf)"
  assumes "length f < 2147483648" "length t < 2147483648" "context_size m < 2147483648"
    and "g \<in> set (fst (cut_sequence_matcher_get_grouped_operations m))"
  shows "g \<noteq> [] \<and> successively joins g \<and> (\<forall>oper\<in>set g. context_ok (context_size m) f t oper)"
  using assms string_contents.groups_context [of f t cs jf g]
  by (simp add: m_def cut_sequence_matcher_string_new_full_def)

lemma two_line_groups:
  "fst (cut_sequence_matcher_get_grouped_operations
     (fold matcher_step [Set_Context_Size 1] (cut_sequence_matcher_string_new_full [[97], [98]] [[97], [99]] None)))
   = [[cut_sequence_match_operation_new EQUAL 0 1 0 1, cut_sequence_match_operation_new REPLACE 1 2 1 2]]"
  by code_simp

theorem groups_have_context_witness:
  "successively joins [cut_sequence_match_operation_new EQUAL 0 1 0 1,
     cut_sequence_match_operation_new REPLACE 1 2 1 2]"
proof -
  have "context_size (fold matcher_step [Set_Context_Size 1]
      (cut_sequence_matcher_string_new_full [[97], [98]] [[97], [99]] None)) = 1"
    by code_simp
  then show ?thesis
    using groups_have_context [where f = "[[97], [98]]" and t = "[[97], [99]]" and jf = None
        and cs = "[Set_Context_Size 1]"] two_line_groups by simp
qed

text \<open>C30: the ratio is between 0 and 1, and it is 1 for equal texts without junk.\<close>

theorem char_ratio_bounds:
  fixes f t :: ustring and cs :: "matcher_call list" and jf :: "(gunichar \<Rightarrow> bool) option"
  assumes "length t < 4294967296"
  defines "r \<equiv> fst (cut_sequence_matcher_get_ratio
    (fold matcher_step cs (cut_sequence_matcher_char_new_full f t jf)))"
  shows "0 \<le> r \<and> r \<le> 1 \<and> (f = t \<and> jf = None \<longrightarrow> r = 1)"
  using char_contents.ratio_bounds [OF assms(1)]
  by (simp add: r_def cut_sequence_matcher_char_new_full_def)

theorem char_ratio_bounds_witness:
  "fst (cut_sequence_matcher_get_ratio
     (fold matcher_step [] (cut_sequence_matcher_char_new_full [97, 98] [97, 98] None))) = 1"
  using char_ratio_bounds [where f = "[97, 98]" and t = "[97, 98]" and jf = None and cs = "[]"] by simp

text \<open>C31: the caches are invisible: after any sequence of calls every accessor (matches,
  blocks, operations, grouped operations, ratio, positions of a content, longest match) returns
  what a fresh computation on the two sequences gives, the groups for the context size that was
  set last.\<close>

theorem caches_coherent:
  fixes f t :: "'a list" and cmp :: "'a \<Rightarrow> 'a \<Rightarrow> int" and jf :: "('a \<Rightarrow> bool) option"
    and cs :: "matcher_call list"
  defines "m \<equiv> cut_sequence_matcher_new f t cmp jf"
  defines "m' \<equiv> fold matcher_step cs m"
  shows "fst (cut_sequence_matcher_get_matches m') = compute_matches m \<and>
    fst (cut_sequence_matcher_get_blocks m') = compute_blocks (length f) (length t) (compute_matches m) \<and>
    fst (cut_sequence_matcher_get_operations m') = compute_operations m \<and>
    fst (cut_sequence_matcher_get_grouped_operations m') =
      compute_groups (last_context_size cs 3) (compute_operations m) \<and>
    cut_sequence_matcher_get_context_size m' = last_context_size cs 3 \<and>
    fst (cut_sequence_matcher_get_ratio m') = compute_ratio m \<and>
    (\<forall>x. cut_sequence_matcher_get_to_index m' x = cut_sequence_matcher_get_to_index m x) \<and>
    (\<forall>fb fe tb te. cut_sequence_matcher_get_longest_match m' fb fe tb te =
       cut_sequence_matcher_get_longest_match m fb fe tb te)"
proof -
  have ok: "cache_ok m" unfolding m_def by (rule new_cache_ok)
  have new: "from_seq m = f" "to_seq m = t" "context_size m = 3"
    by (simp_all add: m_def)
  show ?thesis
    unfolding m'_def cut_sequence_matcher_get_context_size_def
    by (simp add: calls_results [OF ok] calls_context_size [OF ok] calls_to_index [OF ok]
        calls_longest_match [OF ok] new)
qed

text \<open>Junk at the end of both sequences is never joined to the match before it: the forward
  extension asks for one more item beyond the junk. Equal texts that end in junk come out as
  changed.\<close>

theorem trailing_junk_not_joined:
  "fst (cut_sequence_matcher_get_operations
     (cut_sequence_matcher_char_new_full [97, 98, 32] [97, 98, 32] (Some (\<lambda>c. c = 32)))) =
   [cut_sequence_match_operation_new EQUAL 0 2 0 2, cut_sequence_match_operation_new REPLACE 2 3 2 3] \<and>
   fst (cut_sequence_matcher_get_ratio
     (cut_sequence_matcher_char_new_full [97, 98, 32] [97, 98, 32] (Some (\<lambda>c. c = 32)))) = 2 / 3"
  by code_simp

end
