(* ===== verification/Diff_Writer.thy ===== *)
theory Diff_Writer
  imports Cutter_Prelude
begin

text \<open>
  The diff writers of \<open>cutter/cut-diff-writer.c\<close>, \<open>cut-string-diff-writer.c\<close>
  and \<open>cut-console-diff-writer.c\<close>. A differ never reads its writer, so an operation of the
  abstract writer is modelled by the list of virtual method calls it makes; a concrete writer is a
  record of the three virtual methods, run over such a list. \<open>finish\<close> returns no writer where
  the C code reads the byte before an empty buffer.
\<close>

section \<open>Calls\<close>

datatype diff_tag =
    TAG_NONE | TAG_SUMMARY | TAG_CONTEXT
  | TAG_EQUAL_MARK | TAG_DELETED_MARK | TAG_INSERTED_MARK | TAG_DIFFERENCE_MARK
  | TAG_EQUAL_LINE | TAG_DELETED_LINE | TAG_INSERTED_LINE | TAG_DIFFERENCE_LINE
  | TAG_EQUAL_SEGMENT | TAG_DELETED_SEGMENT | TAG_INSERTED_SEGMENT | TAG_DIFFERENCE_SEGMENT

datatype writer_call = Write ustring diff_tag | Write_Line ustring diff_tag | Finish

definition cut_diff_writer_write :: "ustring \<Rightarrow> diff_tag \<Rightarrow> writer_call list" where
  "cut_diff_writer_write s tag = [Write s tag]"

definition cut_diff_writer_write_segment ::
  "ustring \<Rightarrow> nat \<Rightarrow> nat \<Rightarrow> diff_tag \<Rightarrow> writer_call list" where
  "cut_diff_writer_write_segment s b e tag = cut_diff_writer_write (slice s b e) tag"

definition cut_diff_writer_write_mark ::
  "ustring \<Rightarrow> ustring option \<Rightarrow> diff_tag \<Rightarrow> writer_call list" where
  "cut_diff_writer_write_mark mark separator tag =
     cut_diff_writer_write mark tag @
     (case separator of
        None \<Rightarrow> []
      | Some sep \<Rightarrow> if sep \<noteq> [] then cut_diff_writer_write sep TAG_NONE else [])"

definition cut_diff_writer_write_line :: "ustring \<Rightarrow> diff_tag \<Rightarrow> writer_call list" where
  "cut_diff_writer_write_line line tag = [Write_Line line tag]"

definition cut_diff_writer_write_lines ::
  "ustring list \<Rightarrow> nat \<Rightarrow> nat \<Rightarrow> diff_tag \<Rightarrow> writer_call list" where
  "cut_diff_writer_write_lines lines b e tag =
     concat (map (\<lambda>i. cut_diff_writer_write_line (lines ! i) tag) [b..<e])"

definition cut_diff_writer_mark_line ::
  "ustring \<Rightarrow> ustring option \<Rightarrow> ustring \<Rightarrow> diff_tag \<Rightarrow> writer_call list" where
  "cut_diff_writer_mark_line mark separator line tag =
     cut_diff_writer_write_mark mark separator tag @ cut_diff_writer_write_line line tag"

definition cut_diff_writer_mark_lines ::
  "ustring \<Rightarrow> ustring option \<Rightarrow> ustring list \<Rightarrow> nat \<Rightarrow> nat \<Rightarrow> diff_tag \<Rightarrow> writer_call list" where
  "cut_diff_writer_mark_lines mark separator lines b e tag =
     concat (map (\<lambda>i. cut_diff_writer_mark_line mark separator (lines ! i) tag) [b..<e])"

definition cut_diff_writer_write_character_n_times ::
  "gunichar \<Rightarrow> nat \<Rightarrow> diff_tag \<Rightarrow> writer_call list" where
  "cut_diff_writer_write_character_n_times c n tag = cut_diff_writer_write (replicate n c) tag"

text \<open>The blanks under a piece of a line: \<open>iswide\<close> is GLib's \<open>g_unichar_iswide_cjk\<close>.\<close>

definition spaces_of :: "(gunichar \<Rightarrow> bool) \<Rightarrow> ustring \<Rightarrow> ustring" where
  "spaces_of iswide s =
     concat (map (\<lambda>c. if iswide c then [32, 32] else if c = 9 then [9] else [32]) s)"

definition cut_diff_writer_write_spaces ::
  "(gunichar \<Rightarrow> bool) \<Rightarrow> ustring \<Rightarrow> nat \<Rightarrow> nat \<Rightarrow> diff_tag \<Rightarrow> writer_call list" where
  "cut_diff_writer_write_spaces iswide s b e tag =
     cut_diff_writer_write (spaces_of iswide (slice s b e)) tag"

definition cut_diff_writer_finish :: "writer_call list" where
  "cut_diff_writer_finish = [Finish]"

section \<open>Concrete writers\<close>

record 'w writer_class =
  class_write :: "ustring \<Rightarrow> diff_tag \<Rightarrow> 'w \<Rightarrow> 'w"
  class_write_line :: "ustring \<Rightarrow> diff_tag \<Rightarrow> 'w \<Rightarrow> 'w"
  class_finish :: "'w \<Rightarrow> 'w option"

primrec run_call :: "'w writer_class \<Rightarrow> writer_call \<Rightarrow> 'w \<Rightarrow> 'w option" where
  "run_call W (Write s tag) w = Some (class_write W s tag w)"
| "run_call W (Write_Line s tag) w = Some (class_write_line W s tag w)"
| "run_call W Finish w = class_finish W w"

fun run_calls :: "'w writer_class \<Rightarrow> writer_call list \<Rightarrow> 'w \<Rightarrow> 'w option" where
  "run_calls W [] w = Some w"
| "run_calls W (c # cs) w = (case run_call W c w of None \<Rightarrow> None | Some w' \<Rightarrow> run_calls W cs w')"

subsection \<open>The string writer\<close>

record string_writer =
  writer_result :: ustring

definition cut_string_diff_writer_new :: string_writer where
  "cut_string_diff_writer_new = \<lparr>writer_result = []\<rparr>"

definition cut_string_diff_writer_get_result :: "string_writer \<Rightarrow> ustring" where
  "cut_string_diff_writer_get_result w = writer_result w"

definition string_write :: "ustring \<Rightarrow> diff_tag \<Rightarrow> string_writer \<Rightarrow> string_writer" where
  "string_write s tag w = w\<lparr>writer_result := writer_result w @ s\<rparr>"

definition string_write_line :: "ustring \<Rightarrow> diff_tag \<Rightarrow> string_writer \<Rightarrow> string_writer" where
  "string_write_line s tag w = w\<lparr>writer_result := writer_result w @ s @ [10]\<rparr>"

definition string_finish :: "string_writer \<Rightarrow> string_writer option" where
  "string_finish w =
     (if writer_result w = [] then None
      else if last (writer_result w) = 10 then Some (w\<lparr>writer_result := butlast (writer_result w)\<rparr>)
      else Some w)"

definition string_writer_class :: "string_writer writer_class" where
  "string_writer_class =
     \<lparr>class_write = string_write, class_write_line = string_write_line, class_finish = string_finish\<rparr>"

subsection \<open>The console writer\<close>

text \<open>\<open>console_output\<close> is what \<open>g_print\<close> has written. Colors are escape sequences,
  \<open>color m\<close> is \<open>ESC [ m m\<close>.\<close>

record console_writer =
  use_color :: bool
  deleted_mark_color :: ustring
  inserted_mark_color :: ustring
  deleted_line_color :: ustring
  inserted_line_color :: ustring
  deleted_segment_color :: ustring
  inserted_segment_color :: ustring
  console_output :: ustring

definition color :: "ustring \<Rightarrow> ustring" where
  "color codes = [27, 91] @ codes @ [109]"

definition color_red :: ustring where "color_red = color [48, 49, 59, 51, 49]"
definition color_green :: ustring where "color_green = color [48, 49, 59, 51, 50]"
definition color_cyan :: ustring where "color_cyan = color [48, 49, 59, 51, 54]"
definition color_white :: ustring where "color_white = color [48, 49, 59, 51, 55]"
definition color_red_back :: ustring where "color_red_back = color [52, 49]"
definition color_green_back :: ustring where "color_green_back = color [48, 49, 59, 52, 50]"
definition color_cyan_back :: ustring where "color_cyan_back = color [48, 49, 59, 52, 54]"
definition color_normal :: ustring where "color_normal = color [48, 48]"

definition cut_console_diff_writer_new :: "bool \<Rightarrow> console_writer" where
  "cut_console_diff_writer_new uc =
     \<lparr>use_color = uc,
      deleted_mark_color = color_red, inserted_mark_color = color_green,
      deleted_line_color = color_red, inserted_line_color = color_green,
      deleted_segment_color = color_white @ color_red_back,
      inserted_segment_color = color_white @ color_green_back,
      console_output = []\<rparr>"

definition cut_console_diff_writer_set_deleted_line_color ::
  "ustring option \<Rightarrow> console_writer \<Rightarrow> console_writer" where
  "cut_console_diff_writer_set_deleted_line_color c w =
     w\<lparr>deleted_line_color := (case c of None \<Rightarrow> color_red | Some c \<Rightarrow> c)\<rparr>"

definition cut_console_diff_writer_set_inserted_line_color ::
  "ustring option \<Rightarrow> console_writer \<Rightarrow> console_writer" where
  "cut_console_diff_writer_set_inserted_line_color c w =
     w\<lparr>inserted_line_color := (case c of None \<Rightarrow> color_green | Some c \<Rightarrow> c)\<rparr>"

definition cut_console_diff_writer_set_deleted_mark_color ::
  "ustring option \<Rightarrow> console_writer \<Rightarrow> console_writer" where
  "cut_console_diff_writer_set_deleted_mark_color c w =
     w\<lparr>deleted_mark_color := (case c of None \<Rightarrow> color_red | Some c \<Rightarrow> c)\<rparr>"

definition cut_console_diff_writer_set_inserted_mark_color ::
  "ustring option \<Rightarrow> console_writer \<Rightarrow> console_writer" where
  "cut_console_diff_writer_set_inserted_mark_color c w =
     w\<lparr>inserted_mark_color := (case c of None \<Rightarrow> color_green | Some c \<Rightarrow> c)\<rparr>"

definition cut_console_diff_writer_set_deleted_segment_color ::
  "ustring option \<Rightarrow> console_writer \<Rightarrow> console_writer" where
  "cut_console_diff_writer_set_deleted_segment_color c w =
     w\<lparr>deleted_segment_color := (case c of None \<Rightarrow> color_white @ color_red_back | Some c \<Rightarrow> c)\<rparr>"

definition cut_console_diff_writer_set_inserted_segment_color ::
  "ustring option \<Rightarrow> console_writer \<Rightarrow> console_writer" where
  "cut_console_diff_writer_set_inserted_segment_color c w =
     w\<lparr>inserted_segment_color := (case c of None \<Rightarrow> color_white @ color_green_back | Some c \<Rightarrow> c)\<rparr>"

definition tag_to_color :: "console_writer \<Rightarrow> diff_tag \<Rightarrow> ustring option" where
  "tag_to_color w tag =
     (case tag of
        TAG_SUMMARY \<Rightarrow> Some color_cyan
      | TAG_CONTEXT \<Rightarrow> Some (color_white @ color_cyan_back)
      | TAG_DELETED_MARK \<Rightarrow> Some (deleted_mark_color w)
      | TAG_INSERTED_MARK \<Rightarrow> Some (inserted_mark_color w)
      | TAG_DIFFERENCE_MARK \<Rightarrow> Some color_cyan
      | TAG_DELETED_LINE \<Rightarrow> Some (deleted_line_color w)
      | TAG_INSERTED_LINE \<Rightarrow> Some (inserted_line_color w)
      | TAG_DIFFERENCE_LINE \<Rightarrow> Some color_cyan
      | TAG_DELETED_SEGMENT \<Rightarrow> Some (deleted_segment_color w)
      | TAG_INSERTED_SEGMENT \<Rightarrow> Some (inserted_segment_color w)
      | _ \<Rightarrow> None)"

definition console_text :: "console_writer \<Rightarrow> ustring \<Rightarrow> diff_tag \<Rightarrow> ustring" where
  "console_text w s tag =
     (case (if use_color w then tag_to_color w tag else None) of
        None \<Rightarrow> s
      | Some c \<Rightarrow> c @ s @ color_normal)"

definition console_write :: "ustring \<Rightarrow> diff_tag \<Rightarrow> console_writer \<Rightarrow> console_writer" where
  "console_write s tag w = w\<lparr>console_output := console_output w @ console_text w s tag\<rparr>"

definition console_write_line :: "ustring \<Rightarrow> diff_tag \<Rightarrow> console_writer \<Rightarrow> console_writer" where
  "console_write_line s tag w =
     (let w' = console_write s tag w in w'\<lparr>console_output := console_output w' @ [10]\<rparr>)"

definition console_finish :: "console_writer \<Rightarrow> console_writer option" where
  "console_finish w = Some w"

definition console_writer_class :: "console_writer writer_class" where
  "console_writer_class =
     \<lparr>class_write = console_write, class_write_line = console_write_line,
      class_finish = console_finish\<rparr>"

section \<open>The writer interface\<close>

primrec rendered :: "(ustring \<Rightarrow> diff_tag \<Rightarrow> ustring) \<Rightarrow> writer_call \<Rightarrow> ustring" where
  "rendered r (Write s tag) = r s tag"
| "rendered r (Write_Line s tag) = r s tag @ [10]"
| "rendered r Finish = []"

text \<open>What a differ may rely on: both methods append to the output, a line ends in a newline,
  and the configuration of the writer does not change.\<close>

locale diff_writer =
  fixes W :: "'w writer_class" and out :: "'w \<Rightarrow> ustring" and cfg :: "'w \<Rightarrow> 'c"
    and render :: "'c \<Rightarrow> ustring \<Rightarrow> diff_tag \<Rightarrow> ustring"
  assumes write_out: "out (class_write W s tag w) = out w @ render (cfg w) s tag"
    and write_cfg: "cfg (class_write W s tag w) = cfg w"
    and line_out: "out (class_write_line W s tag w) = out w @ render (cfg w) s tag @ [10]"
    and line_cfg: "cfg (class_write_line W s tag w) = cfg w"
begin

lemma run_output:
  "Finish \<notin> set cs \<Longrightarrow> \<exists>w'. run_calls W cs w = Some w' \<and> cfg w' = cfg w \<and>
     out w' = out w @ concat (map (rendered (render (cfg w))) cs)"
proof (induction cs arbitrary: w)
  case (Cons c cs)
  show ?case
  proof (cases c)
    case (Write s tag)
    with Cons.IH [of "class_write W s tag w"] Cons.prems show ?thesis
      by (auto simp: write_out write_cfg)
  next
    case (Write_Line s tag)
    with Cons.IH [of "class_write_line W s tag w"] Cons.prems show ?thesis
      by (auto simp: line_out line_cfg)
  qed (use Cons.prems in simp)
qed simp

end

interpretation string_diff_writer: diff_writer string_writer_class writer_result "\<lambda>w. ()" "\<lambda>c s tag. s"
  by unfold_locales (simp_all add: string_writer_class_def string_write_def string_write_line_def)

interpretation console_diff_writer: diff_writer console_writer_class console_output
    "\<lambda>w. w\<lparr>console_output := []\<rparr>" console_text
  by unfold_locales (simp_all add: console_writer_class_def console_write_def console_write_line_def
      console_text_def tag_to_color_def Let_def split: option.split diff_tag.split)

lemma run_calls_append:
  "run_calls W (cs @ ds) w = (case run_calls W cs w of None \<Rightarrow> None | Some w' \<Rightarrow> run_calls W ds w')"
  by (induction cs arbitrary: w) (auto split: option.split)

lemma plain_console_text: "\<not> use_color w \<Longrightarrow> console_text w s tag = s"
  by (simp add: console_text_def)

section \<open>Properties\<close>

text \<open>Without colors the console writer prints exactly the text that the string writer
  collects for the same calls.\<close>

theorem plain_console_writer:
  assumes "Finish \<notin> set cs"
  shows "map_option console_output (run_calls console_writer_class cs (cut_console_diff_writer_new False)) =
    map_option cut_string_diff_writer_get_result (run_calls string_writer_class cs cut_string_diff_writer_new)"
proof -
  let ?w = "cut_console_diff_writer_new False"
  have "rendered (console_text (?w\<lparr>console_output := []\<rparr>)) = rendered (\<lambda>s tag. s)"
    by (rule arg_cong [where f = rendered])
       (auto simp: fun_eq_iff plain_console_text cut_console_diff_writer_new_def)
  with console_diff_writer.run_output [OF assms, of ?w]
    string_diff_writer.run_output [OF assms, of cut_string_diff_writer_new]
  show ?thesis
    by (auto simp: cut_console_diff_writer_new_def cut_string_diff_writer_new_def
        cut_string_diff_writer_get_result_def)
qed

theorem plain_console_writer_witness:
  "map_option console_output (run_calls console_writer_class [Write [45] TAG_DELETED_LINE, Write_Line [97] TAG_DELETED_LINE]
     (cut_console_diff_writer_new False)) = Some [45, 97, 10]"
proof -
  have "map_option cut_string_diff_writer_get_result (run_calls string_writer_class
      [Write [45] TAG_DELETED_LINE, Write_Line [97] TAG_DELETED_LINE] cut_string_diff_writer_new) =
      Some [45, 97, 10]"
    by code_simp
  then show ?thesis
    using plain_console_writer [of "[Write [45] TAG_DELETED_LINE, Write_Line [97] TAG_DELETED_LINE]"]
    by simp
qed

end
