(* ===== verification/Differ.thy ===== *)
theory Differ
  imports Sequence_Cache Diff_Writer
begin

text \<open>
  The differs: the base class of \<open>cutter/cut-differ.c\<close>, the unified differ, the readable
  differ and its colorized subclass (\<open>cut-unified-differ.c\<close>,
  \<open>cut-readable-differ.c\<close>, \<open>cut-colorize-differ.c\<close>). A differ is a record with its
  class; a virtual method is a definition that selects on the class. An operation returns the
  writer calls it makes. Parameters stand for GLib: \<open>split\<close> is the split of a text into
  lines by the regular expression CR? LF, \<open>iswide\<close> is \<open>g_unichar_iswide_cjk\<close>.
\<close>

section \<open>The base class\<close>

datatype differ_class = UNIFIED | READABLE | COLORIZE

record differ =
  differ_kind :: differ_class
  differ_from :: "ustring list"
  differ_to :: "ustring list"
  differ_matcher :: "ustring matcher option"
  differ_from_label :: "ustring option"
  differ_to_label :: "ustring option"

definition cut_differ_new ::
  "(ustring \<Rightarrow> ustring list) \<Rightarrow> differ_class \<Rightarrow> ustring \<Rightarrow> ustring \<Rightarrow> differ" where
  "cut_differ_new split kind f t =
     \<lparr>differ_kind = kind, differ_from = split f, differ_to = split t, differ_matcher = None,
      differ_from_label = None, differ_to_label = None\<rparr>"

definition get_best_ratio :: "differ_class \<Rightarrow> rat" where
  "get_best_ratio kind = (case kind of COLORIZE \<Rightarrow> 0 | _ \<Rightarrow> 74 / 100)"

definition get_cut_off_ratio :: "differ_class \<Rightarrow> rat" where
  "get_cut_off_ratio kind = (case kind of COLORIZE \<Rightarrow> 0 | _ \<Rightarrow> 75 / 100)"

definition get_initial_context_size :: "differ_class \<Rightarrow> nat option" where
  "get_initial_context_size kind = (case kind of UNIFIED \<Rightarrow> None | _ \<Rightarrow> Some 0)"

definition cut_differ_get_sequence_matcher :: "differ \<Rightarrow> ustring matcher \<times> differ" where
  "cut_differ_get_sequence_matcher d =
     (case differ_matcher d of
        Some m \<Rightarrow> (m, d)
      | None \<Rightarrow>
          let m = cut_sequence_matcher_string_new (differ_from d) (differ_to d);
              m' = (case get_initial_context_size (differ_kind d) of
                      None \<Rightarrow> m
                    | Some n \<Rightarrow> cut_sequence_matcher_set_context_size m n)
          in (m', d\<lparr>differ_matcher := Some m'\<rparr>))"

definition cut_differ_set_context_size :: "differ \<Rightarrow> nat \<Rightarrow> differ" where
  "cut_differ_set_context_size d n =
     (let (m, d') = cut_differ_get_sequence_matcher d
      in d'\<lparr>differ_matcher := Some (cut_sequence_matcher_set_context_size m n)\<rparr>)"

definition cut_differ_get_context_size :: "differ \<Rightarrow> nat \<times> differ" where
  "cut_differ_get_context_size d =
     (let (m, d') = cut_differ_get_sequence_matcher d
      in (cut_sequence_matcher_get_context_size m, d'))"

definition cut_differ_util_is_space_character :: "gunichar \<Rightarrow> bool" where
  "cut_differ_util_is_space_character c \<longleftrightarrow> c = 32 \<or> c = 9"

definition cut_differ_util_compute_width ::
  "(gunichar \<Rightarrow> bool) \<Rightarrow> ustring \<Rightarrow> nat \<Rightarrow> nat \<Rightarrow> nat" where
  "cut_differ_util_compute_width iswide s b e =
     sum_list (map (\<lambda>c. if iswide c then 2 else if c = 9 then 8 else 1) (slice s b e))"

text \<open>The group list is never empty where this is called; the group may be.\<close>

definition cut_differ_util_is_same_content :: "operation list list \<Rightarrow> bool" where
  "cut_differ_util_is_same_content groups \<longleftrightarrow>
     (case groups of
        [[oper]] \<Rightarrow> op_type oper = EQUAL \<and> from_begin oper = to_begin oper \<and>
                     from_end oper = to_end oper
      | _ \<Rightarrow> False)"

text \<open>The ratio of two lines with blanks as junk, the comparison used line by line.\<close>

definition line_ratio :: "ustring \<Rightarrow> ustring \<Rightarrow> rat" where
  "line_ratio f t = fst (cut_sequence_matcher_get_ratio
     (cut_sequence_matcher_char_new_full f t (Some cut_differ_util_is_space_character)))"

definition line_operations :: "ustring \<Rightarrow> ustring \<Rightarrow> operation list" where
  "line_operations f t = fst (cut_sequence_matcher_get_operations
     (cut_sequence_matcher_char_new_full f t (Some cut_differ_util_is_space_character)))"

fun need_diff_loop ::
  "rat \<Rightarrow> ustring list \<Rightarrow> ustring list \<Rightarrow> operation list \<Rightarrow> bool \<Rightarrow> bool \<Rightarrow> bool" where
  "need_diff_loop best f t [] have_equal have_ins_del = False"
| "need_diff_loop best f t (oper # ops) have_equal have_ins_del =
     (case op_type oper of
        EQUAL \<Rightarrow> have_ins_del \<or> need_diff_loop best f t ops True have_ins_del
      | REPLACE \<Rightarrow>
          list_ex (\<lambda>i. list_ex (\<lambda>j. best < line_ratio (f ! i) (t ! j))
                      [to_begin oper..<to_end oper]) [from_begin oper..<from_end oper] \<or>
          need_diff_loop best f t ops have_equal have_ins_del
      | _ \<Rightarrow> have_equal \<or> need_diff_loop best f t ops have_equal True)"

definition cut_differ_need_diff :: "differ \<Rightarrow> bool \<times> differ" where
  "cut_differ_need_diff d =
     (let (m, d1) = cut_differ_get_sequence_matcher d;
          (ops, m') = cut_sequence_matcher_get_operations m
      in (need_diff_loop (get_best_ratio (differ_kind d)) (differ_from d) (differ_to d) ops False False,
          d1\<lparr>differ_matcher := Some m'\<rparr>))"

text \<open>\<open>%d\<close> of a number below \<open>2 ^ 31\<close>.\<close>

fun decimal :: "nat \<Rightarrow> ustring" where
  "decimal n = (if n < 10 then [48 + n] else decimal (n div 10) @ [48 + n mod 10])"

declare decimal.simps [simp del]

definition cut_differ_write_summary :: "operation list \<Rightarrow> writer_call list" where
  "cut_differ_write_summary ops =
     (let first = hd ops; end = last ops;
          deleted_lines = from_end end - from_begin first;
          inserted_lines = to_end end - to_begin first
      in cut_diff_writer_write_line
           ([64, 64, 32] @ [45] @ decimal (from_begin first + 1) @
            (if 1 < deleted_lines then [44] @ decimal deleted_lines else []) @
            [32, 43] @ decimal (to_begin first + 1) @
            (if 1 < inserted_lines then [44] @ decimal inserted_lines else []) @
            [32, 64, 64]) TAG_SUMMARY)"

section \<open>The unified differ\<close>

definition unified_mark_equal :: "ustring list \<Rightarrow> nat \<Rightarrow> nat \<Rightarrow> writer_call list" where
  "unified_mark_equal lines b e = cut_diff_writer_mark_lines [32] None lines b e TAG_EQUAL_LINE"

definition unified_mark_inserted :: "ustring list \<Rightarrow> nat \<Rightarrow> nat \<Rightarrow> writer_call list" where
  "unified_mark_inserted lines b e = cut_diff_writer_mark_lines [43] None lines b e TAG_INSERTED_LINE"

definition unified_mark_deleted :: "ustring list \<Rightarrow> nat \<Rightarrow> nat \<Rightarrow> writer_call list" where
  "unified_mark_deleted lines b e = cut_diff_writer_mark_lines [45] None lines b e TAG_DELETED_LINE"

definition label_line :: "ustring \<Rightarrow> ustring option \<Rightarrow> diff_tag \<Rightarrow> writer_call list" where
  "label_line mark label tag =
     (case label of
        Some (c # cs) \<Rightarrow> cut_diff_writer_mark_line mark (Some [32]) (c # cs) tag
      | _ \<Rightarrow> cut_diff_writer_mark_line mark None [] tag)"

definition write_header :: "differ \<Rightarrow> writer_call list" where
  "write_header d =
     label_line [45, 45, 45] (differ_from_label d) TAG_DELETED_LINE @
     label_line [43, 43, 43] (differ_to_label d) TAG_INSERTED_LINE"

definition unified_operation :: "ustring list \<Rightarrow> ustring list \<Rightarrow> operation \<Rightarrow> writer_call list" where
  "unified_operation f t oper =
     (case op_type oper of
        EQUAL \<Rightarrow> unified_mark_equal f (from_begin oper) (from_end oper)
      | INSERT \<Rightarrow> unified_mark_inserted t (to_begin oper) (to_end oper)
      | DELETE \<Rightarrow> unified_mark_deleted f (from_begin oper) (from_end oper)
      | REPLACE \<Rightarrow> unified_mark_deleted f (from_begin oper) (from_end oper) @
                   unified_mark_inserted t (to_begin oper) (to_end oper))"

definition unified_hunk :: "ustring list \<Rightarrow> ustring list \<Rightarrow> operation list \<Rightarrow> writer_call list" where
  "unified_hunk f t ops =
     cut_differ_write_summary ops @ concat (map (unified_operation f t) ops)"

definition unified_diff :: "differ \<Rightarrow> writer_call list \<times> differ" where
  "unified_diff d =
     (let f = differ_from d; t = differ_to d;
          (m, d1) = cut_differ_get_sequence_matcher d;
          (groups, m') = cut_sequence_matcher_get_grouped_operations m;
          d2 = d1\<lparr>differ_matcher := Some m'\<rparr>
      in if cut_differ_util_is_same_content groups then ([], d2)
         else (write_header d @ concat (map (unified_hunk f t) groups) @ cut_diff_writer_finish, d2))"

section \<open>The readable differ\<close>

definition mark_equal :: "ustring list \<Rightarrow> nat \<Rightarrow> nat \<Rightarrow> writer_call list" where
  "mark_equal lines b e = cut_diff_writer_mark_lines [32] (Some [32]) lines b e TAG_EQUAL_LINE"

definition mark_inserted :: "ustring list \<Rightarrow> nat \<Rightarrow> nat \<Rightarrow> writer_call list" where
  "mark_inserted lines b e = cut_diff_writer_mark_lines [43] (Some [32]) lines b e TAG_INSERTED_LINE"

definition mark_deleted :: "ustring list \<Rightarrow> nat \<Rightarrow> nat \<Rightarrow> writer_call list" where
  "mark_deleted lines b e = cut_diff_writer_mark_lines [45] (Some [32]) lines b e TAG_DELETED_LINE"

definition mark_difference :: "ustring list \<Rightarrow> nat \<Rightarrow> nat \<Rightarrow> writer_call list" where
  "mark_difference lines b e =
     cut_diff_writer_mark_lines [63] (Some [32]) lines b e TAG_DIFFERENCE_LINE"

text \<open>\<open>g_strchomp\<close>: drop the trailing white space.\<close>

definition strchomp :: "ustring \<Rightarrow> ustring" where
  "strchomp s = rev (dropWhile (\<lambda>c. c = 32 \<or> c = 9 \<or> c = 10 \<or> c = 12 \<or> c = 13) (rev s))"

definition format_diff_point ::
  "ustring \<Rightarrow> ustring \<Rightarrow> ustring \<Rightarrow> ustring \<Rightarrow> writer_call list" where
  "format_diff_point from_line to_line from_tags to_tags =
     mark_deleted [from_line] 0 1 @
     (if strchomp from_tags \<noteq> [] then mark_difference [strchomp from_tags] 0 1 else []) @
     mark_inserted [to_line] 0 1 @
     (if strchomp to_tags \<noteq> [] then mark_difference [strchomp to_tags] 0 1 else [])"

text \<open>The two tag buffers after one character operation (\<open>append_spaces\<close> and
  \<open>append_character_n_times\<close>).\<close>

definition tag_operation ::
  "(gunichar \<Rightarrow> bool) \<Rightarrow> ustring \<Rightarrow> ustring \<Rightarrow> operation \<Rightarrow> ustring \<times> ustring \<Rightarrow> ustring \<times> ustring" where
  "tag_operation iswide from_line to_line oper tags =
     (let (from_tags, to_tags) = tags;
          from_width = cut_differ_util_compute_width iswide from_line (from_begin oper) (from_end oper);
          to_width = cut_differ_util_compute_width iswide to_line (to_begin oper) (to_end oper)
      in case op_type oper of
           EQUAL \<Rightarrow> (from_tags @ spaces_of iswide (slice from_line (from_begin oper) (from_end oper)),
                     to_tags @ spaces_of iswide (slice to_line (to_begin oper) (to_end oper)))
         | INSERT \<Rightarrow> (from_tags, to_tags @ replicate to_width 43)
         | DELETE \<Rightarrow> (from_tags @ replicate from_width 45, to_tags)
         | REPLACE \<Rightarrow> (from_tags @ replicate from_width 94, to_tags @ replicate to_width 94))"

definition readable_diff_line :: "(gunichar \<Rightarrow> bool) \<Rightarrow> ustring \<Rightarrow> ustring \<Rightarrow> writer_call list" where
  "readable_diff_line iswide from_line to_line =
     (let (from_tags, to_tags) =
            fold (tag_operation iswide from_line to_line) (line_operations from_line to_line) ([], [])
      in format_diff_point from_line to_line from_tags to_tags)"

section \<open>The colorized differ\<close>

datatype write_operation =
    WRITE_EQUAL_SPACES ustring nat nat
  | WRITE_DIFFERENCE_SPACES ustring nat nat
  | WRITE_INSERTED_SEGMENT ustring nat nat

definition colorize_operation ::
  "(gunichar \<Rightarrow> bool) \<Rightarrow> bool \<Rightarrow> ustring \<Rightarrow> ustring \<Rightarrow> operation \<Rightarrow>
     writer_call list \<times> write_operation list" where
  "colorize_operation iswide no_replace from_line to_line oper =
     (let fb = from_begin oper; fe = from_end oper; tb = to_begin oper; te = to_end oper;
          from_width = cut_differ_util_compute_width iswide from_line fb fe;
          to_width = cut_differ_util_compute_width iswide to_line tb te
      in case op_type oper of
           EQUAL \<Rightarrow>
             (cut_diff_writer_write_segment from_line fb fe TAG_EQUAL_SEGMENT,
              if \<not> no_replace then [WRITE_EQUAL_SPACES from_line fb fe] else [])
         | INSERT \<Rightarrow>
             (if no_replace
              then (cut_diff_writer_write_segment to_line tb te TAG_INSERTED_SEGMENT, [])
              else (cut_diff_writer_write_spaces iswide to_line tb te TAG_DIFFERENCE_SEGMENT,
                    [WRITE_INSERTED_SEGMENT to_line tb te]))
         | DELETE \<Rightarrow>
             (cut_diff_writer_write_segment from_line fb fe TAG_DELETED_SEGMENT,
              if \<not> no_replace then [WRITE_DIFFERENCE_SPACES from_line fb fe] else [])
         | REPLACE \<Rightarrow>
             (cut_diff_writer_write_segment from_line fb fe TAG_DELETED_SEGMENT @
              (if from_width < to_width
               then cut_diff_writer_write_spaces iswide to_line (tb + from_width) te TAG_DIFFERENCE_SEGMENT
               else []),
              WRITE_INSERTED_SEGMENT to_line tb te #
              (if to_width < from_width
               then [WRITE_DIFFERENCE_SPACES from_line (fb + to_width) fe] else [])))"

primrec run_write_operation :: "(gunichar \<Rightarrow> bool) \<Rightarrow> write_operation \<Rightarrow> writer_call list" where
  "run_write_operation iswide (WRITE_EQUAL_SPACES line b e) =
     cut_diff_writer_write_spaces iswide line b e TAG_EQUAL_SEGMENT"
| "run_write_operation iswide (WRITE_DIFFERENCE_SPACES line b e) =
     cut_diff_writer_write_spaces iswide line b e TAG_DIFFERENCE_SEGMENT"
| "run_write_operation iswide (WRITE_INSERTED_SEGMENT line b e) =
     cut_diff_writer_write_segment line b e TAG_INSERTED_SEGMENT"

definition colorize_diff_line :: "(gunichar \<Rightarrow> bool) \<Rightarrow> ustring \<Rightarrow> ustring \<Rightarrow> writer_call list" where
  "colorize_diff_line iswide from_line to_line =
     (let ops = line_operations from_line to_line;
          no_replace = list_all (\<lambda>oper. op_type oper \<noteq> REPLACE) ops;
          parts = map (colorize_operation iswide no_replace from_line to_line) ops;
          pending = concat (map snd parts)
      in cut_diff_writer_write_mark [63] (Some [32]) TAG_DIFFERENCE_MARK @
         concat (map fst parts) @
         cut_diff_writer_write_line [] TAG_NONE @
         (if pending \<noteq> []
          then cut_diff_writer_write_mark [63] (Some [32]) TAG_DIFFERENCE_MARK @
               concat (map (run_write_operation iswide) pending) @
               cut_diff_writer_write_line [] TAG_NONE
          else []))"

definition diff_line :: "(gunichar \<Rightarrow> bool) \<Rightarrow> differ_class \<Rightarrow> ustring \<Rightarrow> ustring \<Rightarrow> writer_call list" where
  "diff_line iswide kind =
     (if kind = COLORIZE then colorize_diff_line iswide else readable_diff_line iswide)"

end
