(* ===== verification/Differ_Lines.thy ===== *)
theory Differ_Lines
  imports Differ
begin

text \<open>
  The line by line part of the readable differ (\<open>cutter/cut-readable-differ.c\<close>): the
  search for the most similar pair of lines, the recursion around it, and the entry points
  \<open>cut_differ_diff\<close>, \<open>cut_diff_readable\<close> and \<open>cut_diff_unified\<close>.
\<close>

section \<open>The search for the best pair of lines\<close>

record best_search =
  best_ratio :: rat
  from_best :: nat
  to_best :: nat
  from_equal :: "nat option"
  to_equal :: "nat option"

definition best_step :: "ustring list \<Rightarrow> ustring list \<Rightarrow> nat \<times> nat \<Rightarrow> best_search \<Rightarrow> best_search" where
  "best_step f t p s =
     (let (j, i) = p
      in if f ! i = t ! j
         then s\<lparr>from_equal := (case from_equal s of None \<Rightarrow> Some i | x \<Rightarrow> x),
                to_equal := (case to_equal s of None \<Rightarrow> Some j | x \<Rightarrow> x)\<rparr>
         else let r = line_ratio (f ! i) (t ! j)
              in if best_ratio s < r then s\<lparr>best_ratio := r, from_best := i, to_best := j\<rparr> else s)"

definition best_pair ::
  "rat \<Rightarrow> ustring list \<Rightarrow> nat \<Rightarrow> nat \<Rightarrow> ustring list \<Rightarrow> nat \<Rightarrow> nat \<Rightarrow> best_search" where
  "best_pair best f fb fe t tb te =
     fold (best_step f t) [(j, i). j \<leftarrow> [tb..<te], i \<leftarrow> [fb..<fe]]
       \<lparr>best_ratio = best, from_best = fb, to_best = tb, from_equal = None, to_equal = None\<rparr>"

text \<open>\<open>best_index\<close> is what \<open>diff_lines\<close> splits at, \<open>None\<close> where it gives up.\<close>

definition best_index ::
  "differ_class \<Rightarrow> ustring list \<Rightarrow> nat \<Rightarrow> nat \<Rightarrow> ustring list \<Rightarrow> nat \<Rightarrow> nat \<Rightarrow> (nat \<times> nat) option" where
  "best_index kind f fb fe t tb te =
     (let s = best_pair (get_best_ratio kind) f fb fe t tb te
      in if best_ratio s < get_cut_off_ratio kind
         then case (from_equal s, to_equal s) of
                (Some i, Some j) \<Rightarrow> Some (i, j)
              | _ \<Rightarrow> None
         else Some (from_best s, to_best s))"

definition in_ranges :: "nat \<Rightarrow> nat \<Rightarrow> nat \<Rightarrow> nat \<Rightarrow> best_search \<Rightarrow> bool" where
  "in_ranges fb fe tb te s \<longleftrightarrow>
     (from_best s = fb \<and> to_best s = tb \<or>
      fb \<le> from_best s \<and> from_best s < fe \<and> tb \<le> to_best s \<and> to_best s < te) \<and>
     (\<forall>i. from_equal s = Some i \<longrightarrow> fb \<le> i \<and> i < fe) \<and>
     (\<forall>j. to_equal s = Some j \<longrightarrow> tb \<le> j \<and> j < te)"

lemma best_step_in:
  "in_ranges fb fe tb te s \<Longrightarrow> fb \<le> i \<Longrightarrow> i < fe \<Longrightarrow> tb \<le> j \<Longrightarrow> j < te \<Longrightarrow>
   in_ranges fb fe tb te (best_step f t (j, i) s)"
  by (auto simp: best_step_def in_ranges_def Let_def split: option.splits)

lemma best_steps_in:
  assumes "\<forall>(j, i)\<in>set ps. fb \<le> i \<and> i < fe \<and> tb \<le> j \<and> j < te" "in_ranges fb fe tb te s"
  shows "in_ranges fb fe tb te (fold (best_step f t) ps s)"
  using assms by (induction ps arbitrary: s) (auto simp: best_step_in)

lemma best_index_in:
  assumes "best_index kind f fb fe t tb te = Some (i, j)"
  shows "i = fb \<and> j = tb \<or> fb \<le> i \<and> i < fe \<and> tb \<le> j \<and> j < te"
proof -
  have "in_ranges fb fe tb te (best_pair (get_best_ratio kind) f fb fe t tb te)"
    unfolding best_pair_def by (rule best_steps_in) (auto simp: in_ranges_def)
  then show ?thesis
    using assms by (auto simp: best_index_def in_ranges_def Let_def split: if_splits option.splits)
qed

section \<open>Lines that differ\<close>

function diff_lines ::
    "(gunichar \<Rightarrow> bool) \<Rightarrow> differ_class \<Rightarrow> ustring list \<Rightarrow> nat \<Rightarrow> nat \<Rightarrow> ustring list \<Rightarrow> nat \<Rightarrow> nat \<Rightarrow>
      writer_call list"
  and mark_diff_lines ::
    "(gunichar \<Rightarrow> bool) \<Rightarrow> differ_class \<Rightarrow> ustring list \<Rightarrow> nat \<Rightarrow> nat \<Rightarrow> ustring list \<Rightarrow> nat \<Rightarrow> nat \<Rightarrow>
      writer_call list" where
  "mark_diff_lines iswide kind f fb fe t tb te =
     (if fb < fe
      then if tb < te then diff_lines iswide kind f fb fe t tb te else mark_deleted f fb fe
      else mark_inserted t tb te)"
| "diff_lines iswide kind f fb fe t tb te =
     (case best_index kind f fb fe t tb te of
        None \<Rightarrow>
          if te - tb < fe - fb then mark_inserted t tb te @ mark_deleted f fb fe
          else mark_deleted f fb fe @ mark_inserted t tb te
      | Some (i, j) \<Rightarrow>
          mark_diff_lines iswide kind f fb i t tb j @
          diff_line iswide kind (f ! i) (t ! j) @
          mark_diff_lines iswide kind f (i + 1) fe t (j + 1) te)"
  by pat_completeness auto

termination
proof (relation "measure (\<lambda>x. case x of
    Inl (iswide, kind, f, fb, fe, t, tb, te) \<Rightarrow> 2 * (fe - fb + (te - tb)) + 1
  | Inr (iswide, kind, f, fb, fe, t, tb, te) \<Rightarrow>
      if fb < fe \<and> tb < te then 2 * (fe - fb + (te - tb)) + 2 else 0)", goal_cases)
  case (3 iswide kind f fb fe t tb te p i j)
  then show ?case using best_index_in [of kind f fb fe t tb te i j] by auto
next
  case (4 iswide kind f fb fe t tb te p i j)
  then show ?case using best_index_in [of kind f fb fe t tb te i j] by auto
qed auto

declare diff_lines.simps [simp del] mark_diff_lines.simps [simp del]

definition diff_operation ::
  "(gunichar \<Rightarrow> bool) \<Rightarrow> differ_class \<Rightarrow> ustring list \<Rightarrow> ustring list \<Rightarrow> operation \<Rightarrow> writer_call list" where
  "diff_operation iswide kind f t oper =
     (case op_type oper of
        EQUAL \<Rightarrow> mark_equal f (from_begin oper) (from_end oper)
      | INSERT \<Rightarrow> mark_inserted t (to_begin oper) (to_end oper)
      | DELETE \<Rightarrow> mark_deleted f (from_begin oper) (from_end oper)
      | REPLACE \<Rightarrow> diff_lines iswide kind f (from_begin oper) (from_end oper)
                    t (to_begin oper) (to_end oper))"

definition diff_operations ::
  "(gunichar \<Rightarrow> bool) \<Rightarrow> differ_class \<Rightarrow> operation list \<Rightarrow> ustring list \<Rightarrow> ustring list \<Rightarrow> writer_call list" where
  "diff_operations iswide kind ops f t = concat (map (diff_operation iswide kind f t) ops)"

definition readable_diff :: "(gunichar \<Rightarrow> bool) \<Rightarrow> differ \<Rightarrow> writer_call list \<times> differ" where
  "readable_diff iswide d =
     (let f = differ_from d; t = differ_to d; kind = differ_kind d;
          (m, d1) = cut_differ_get_sequence_matcher d
      in if cut_sequence_matcher_get_context_size m = 0
         then let (ops, m') = cut_sequence_matcher_get_operations m
              in (diff_operations iswide kind ops f t @ cut_diff_writer_finish,
                  d1\<lparr>differ_matcher := Some m'\<rparr>)
         else let (groups, m') = cut_sequence_matcher_get_grouped_operations m;
                  d2 = d1\<lparr>differ_matcher := Some m'\<rparr>
              in if cut_differ_util_is_same_content groups then ([], d2)
                 else (concat (map (\<lambda>ops. cut_differ_write_summary ops @
                                          diff_operations iswide kind ops f t) groups) @
                       cut_diff_writer_finish, d2))"

definition cut_differ_diff :: "(gunichar \<Rightarrow> bool) \<Rightarrow> differ \<Rightarrow> writer_call list \<times> differ" where
  "cut_differ_diff iswide d =
     (if differ_kind d = UNIFIED then unified_diff d else readable_diff iswide d)"

text \<open>The two entry points that build a string; no result where \<open>finish\<close> reads out of
  bounds.\<close>

definition cut_diff_readable ::
  "(ustring \<Rightarrow> ustring list) \<Rightarrow> (gunichar \<Rightarrow> bool) \<Rightarrow> ustring \<Rightarrow> ustring \<Rightarrow> ustring option" where
  "cut_diff_readable split iswide f t =
     map_option cut_string_diff_writer_get_result
       (run_calls string_writer_class
          (fst (cut_differ_diff iswide (cut_differ_new split READABLE f t)))
          cut_string_diff_writer_new)"

definition cut_diff_unified ::
  "(ustring \<Rightarrow> ustring list) \<Rightarrow> (gunichar \<Rightarrow> bool) \<Rightarrow> ustring \<Rightarrow> ustring \<Rightarrow>
     ustring option \<Rightarrow> ustring option \<Rightarrow> ustring option" where
  "cut_diff_unified split iswide f t from_label to_label =
     map_option cut_string_diff_writer_get_result
       (run_calls string_writer_class
          (fst (cut_differ_diff iswide
             ((cut_differ_new split UNIFIED f t)\<lparr>differ_from_label := from_label,
                differ_to_label := to_label\<rparr>)))
          cut_string_diff_writer_new)"

end
