(* ===== verification/Test_Result.thy ===== *)
theory Test_Result
  imports Differ_Lines
begin

text \<open>
  Test results (\<open>cutter/cut-test-result.c\<close>): the status of a test, its messages, and the
  lazily computed diff, folded diff and message with the rules that reset them. Tests, test cases
  and the like are referred to by object numbers. The three diff functions the file calls are an
  argument, the record \<open>diff_tools\<close>; \<open>cutter_diff_tools\<close> builds it from the differ
  model, where \<open>re\<close> is \<open>g_regex_match_simple\<close> with the multi-line option and
  \<open>fold_text\<close> is \<open>cut_utils_fold\<close>.
\<close>

section \<open>Status\<close>

datatype test_status =
    SUCCESS | NOTIFICATION | OMISSION | PENDING | FAILURE | ERROR | CRASH

text \<open>The numbers of the enumeration, in the order of severity.\<close>

primrec severity :: "test_status \<Rightarrow> nat" where
  "severity SUCCESS = 0"
| "severity NOTIFICATION = 1"
| "severity OMISSION = 2"
| "severity PENDING = 3"
| "severity FAILURE = 4"
| "severity ERROR = 5"
| "severity CRASH = 6"

lemma severity_inject [simp]: "severity a = severity b \<longleftrightarrow> a = b"
  by (cases a; cases b) simp_all

instantiation test_status :: linorder
begin

definition less_eq_test_status :: "test_status \<Rightarrow> test_status \<Rightarrow> bool" where
  "less_eq_test_status a b \<longleftrightarrow> severity a \<le> severity b"

definition less_test_status :: "test_status \<Rightarrow> test_status \<Rightarrow> bool" where
  "less_test_status a b \<longleftrightarrow> severity a < severity b"

instance
  by standard (auto simp: less_eq_test_status_def less_test_status_def)

end

definition cut_test_result_status_is_critical :: "test_status \<Rightarrow> bool" where
  "cut_test_result_status_is_critical s \<longleftrightarrow> OMISSION < s"

definition cut_test_result_status_to_signal_name :: "test_status \<Rightarrow> string" where
  "cut_test_result_status_to_signal_name s =
     (case s of
        SUCCESS \<Rightarrow> ''success''
      | NOTIFICATION \<Rightarrow> ''notification''
      | OMISSION \<Rightarrow> ''omission''
      | PENDING \<Rightarrow> ''pending''
      | FAILURE \<Rightarrow> ''failure''
      | ERROR \<Rightarrow> ''error''
      | CRASH \<Rightarrow> ''crash'')"

definition result_status_to_name :: "test_status \<Rightarrow> string" where
  "result_status_to_name s =
     (case s of
        SUCCESS \<Rightarrow> ''success''
      | NOTIFICATION \<Rightarrow> ''notification''
      | OMISSION \<Rightarrow> ''omission''
      | PENDING \<Rightarrow> ''pending''
      | FAILURE \<Rightarrow> ''failure''
      | ERROR \<Rightarrow> ''error''
      | CRASH \<Rightarrow> ''crash'')"

section \<open>Results\<close>

type_synonym object_id = nat

text \<open>An entry of a backtrace (\<open>cutter/cut-backtrace-entry.c\<close>).\<close>

record backtrace_entry =
  entry_file :: "ustring option"
  entry_line :: nat
  entry_function :: "ustring option"
  entry_info :: "ustring option"

text \<open>A \<open>GTimeVal\<close>: seconds and microseconds.\<close>

type_synonym time_val = "int \<times> int"

record test_result =
  result_status :: test_status
  result_test :: "object_id option"
  result_test_iterator :: "object_id option"
  result_test_case :: "object_id option"
  result_test_suite :: "object_id option"
  result_test_data :: "object_id option"
  result_message :: "ustring option"
  user_set_message :: bool
  result_user_message :: "ustring option"
  result_system_message :: "ustring option"
  result_backtrace :: "backtrace_entry list"
  result_elapsed :: rat
  result_expected :: "ustring option"
  result_actual :: "ustring option"
  result_diff :: "ustring option"
  result_folded_diff :: "ustring option"
  user_set_diff :: bool
  user_set_folded_diff :: bool
  result_start_time :: time_val

definition cut_test_result_init :: test_result where
  "cut_test_result_init =
     \<lparr>result_status = SUCCESS, result_test = None, result_test_iterator = None,
      result_test_case = None, result_test_suite = None, result_test_data = None,
      result_message = None, user_set_message = False, result_user_message = None,
      result_system_message = None, result_backtrace = [], result_elapsed = 0,
      result_expected = None, result_actual = None, result_diff = None,
      result_folded_diff = None, user_set_diff = False, user_set_folded_diff = False,
      result_start_time = (0, 0)\<rparr>"

definition reset_message :: "test_result \<Rightarrow> test_result" where
  "reset_message r = (if user_set_message r then r else r\<lparr>result_message := None\<rparr>)"

definition nonempty_string :: "ustring option \<Rightarrow> ustring option" where
  "nonempty_string s = (case s of Some [] \<Rightarrow> None | _ \<Rightarrow> s)"

definition cut_test_result_set_user_message :: "ustring option \<Rightarrow> test_result \<Rightarrow> test_result" where
  "cut_test_result_set_user_message s r =
     reset_message (r\<lparr>result_user_message := nonempty_string s\<rparr>)"

definition cut_test_result_set_system_message :: "ustring option \<Rightarrow> test_result \<Rightarrow> test_result" where
  "cut_test_result_set_system_message s r =
     reset_message (r\<lparr>result_system_message := nonempty_string s\<rparr>)"

definition cut_test_result_set_message :: "ustring option \<Rightarrow> test_result \<Rightarrow> test_result" where
  "cut_test_result_set_message s r = r\<lparr>result_message := s, user_set_message := s \<noteq> None\<rparr>"

definition cut_test_result_new ::
  "test_status \<Rightarrow> object_id option \<Rightarrow> object_id option \<Rightarrow> object_id option \<Rightarrow> object_id option \<Rightarrow>
     object_id option \<Rightarrow> ustring option \<Rightarrow> ustring option \<Rightarrow> backtrace_entry list \<Rightarrow> test_result" where
  "cut_test_result_new status test iter tcase suite data user_message system_message backtrace =
     (cut_test_result_set_system_message system_message
       (cut_test_result_set_user_message user_message
         (cut_test_result_init
            \<lparr>result_status := status, result_test := test, result_test_iterator := iter,
             result_test_case := tcase, result_test_suite := suite, result_test_data := data\<rparr>)))
     \<lparr>result_backtrace := backtrace\<rparr>"

definition cut_test_result_new_empty :: test_result where
  "cut_test_result_new_empty =
     cut_test_result_new SUCCESS None None None None None None None []"

definition reset_diff :: "test_result \<Rightarrow> test_result" where
  "reset_diff r =
     (let r1 = (if user_set_diff r then r else r\<lparr>result_diff := None\<rparr>);
          r2 = (if user_set_folded_diff r1 then r1 else r1\<lparr>result_folded_diff := None\<rparr>)
      in if \<not> user_set_diff r \<or> \<not> user_set_folded_diff r then reset_message r2 else r2)"

definition cut_test_result_set_expected :: "ustring option \<Rightarrow> test_result \<Rightarrow> test_result" where
  "cut_test_result_set_expected s r =
     (let r1 = r\<lparr>result_expected := s\<rparr> in if s \<noteq> None then reset_diff r1 else r1)"

definition cut_test_result_set_actual :: "ustring option \<Rightarrow> test_result \<Rightarrow> test_result" where
  "cut_test_result_set_actual s r =
     (let r1 = r\<lparr>result_actual := s\<rparr> in if s \<noteq> None then reset_diff r1 else r1)"

definition cut_test_result_set_diff :: "ustring option \<Rightarrow> test_result \<Rightarrow> test_result" where
  "cut_test_result_set_diff s r =
     r\<lparr>result_diff := nonempty_string s, user_set_diff := nonempty_string s \<noteq> None\<rparr>"

definition cut_test_result_set_folded_diff :: "ustring option \<Rightarrow> test_result \<Rightarrow> test_result" where
  "cut_test_result_set_folded_diff s r =
     r\<lparr>result_folded_diff := nonempty_string s, user_set_folded_diff := nonempty_string s \<noteq> None\<rparr>"

definition cut_test_result_set_status :: "test_status \<Rightarrow> test_result \<Rightarrow> test_result" where
  "cut_test_result_set_status s r = r\<lparr>result_status := s\<rparr>"

definition cut_test_result_set_test :: "object_id option \<Rightarrow> test_result \<Rightarrow> test_result" where
  "cut_test_result_set_test x r = r\<lparr>result_test := x\<rparr>"

definition cut_test_result_set_test_iterator :: "object_id option \<Rightarrow> test_result \<Rightarrow> test_result" where
  "cut_test_result_set_test_iterator x r = r\<lparr>result_test_iterator := x\<rparr>"

definition cut_test_result_set_test_case :: "object_id option \<Rightarrow> test_result \<Rightarrow> test_result" where
  "cut_test_result_set_test_case x r = r\<lparr>result_test_case := x\<rparr>"

definition cut_test_result_set_test_suite :: "object_id option \<Rightarrow> test_result \<Rightarrow> test_result" where
  "cut_test_result_set_test_suite x r = r\<lparr>result_test_suite := x\<rparr>"

definition cut_test_result_set_test_data :: "object_id option \<Rightarrow> test_result \<Rightarrow> test_result" where
  "cut_test_result_set_test_data x r = r\<lparr>result_test_data := x\<rparr>"

definition cut_test_result_set_backtrace :: "backtrace_entry list \<Rightarrow> test_result \<Rightarrow> test_result" where
  "cut_test_result_set_backtrace xs r = r\<lparr>result_backtrace := xs\<rparr>"

definition cut_test_result_set_elapsed :: "rat \<Rightarrow> test_result \<Rightarrow> test_result" where
  "cut_test_result_set_elapsed x r = r\<lparr>result_elapsed := x\<rparr>"

definition cut_test_result_set_start_time :: "time_val \<Rightarrow> test_result \<Rightarrow> test_result" where
  "cut_test_result_set_start_time x r = r\<lparr>result_start_time := x\<rparr>"

section \<open>Diff, folded diff and message\<close>

record diff_tools =
  tool_readable :: "ustring \<Rightarrow> ustring \<Rightarrow> ustring"
  tool_is_interested :: "ustring \<Rightarrow> bool"
  tool_need_fold :: "ustring \<Rightarrow> bool"
  tool_fold :: "ustring \<Rightarrow> ustring"

text \<open>\<open>strlen\<close> counts the bytes of the UTF-8 encoding.\<close>

definition utf8_size :: "gunichar \<Rightarrow> nat" where
  "utf8_size c = (if c < 128 then 1 else if c < 2048 then 2 else if c < 65536 then 3 else 4)"

definition strlen :: "ustring \<Rightarrow> nat" where
  "strlen s = sum_list (map utf8_size s)"

definition cut_diff_readable_folded :: "diff_tools \<Rightarrow> ustring \<Rightarrow> ustring \<Rightarrow> ustring" where
  "cut_diff_readable_folded T f t = tool_readable T (tool_fold T f) (tool_fold T t)"

definition automatic_diff :: "diff_tools \<Rightarrow> ustring option \<Rightarrow> ustring option \<Rightarrow> ustring option" where
  "automatic_diff T expected actual =
     (case (expected, actual) of
        (Some e, Some a) \<Rightarrow>
          if strlen e < 8092 \<and> strlen a < 8092
          then let d = tool_readable T e a in if tool_is_interested T d then Some d else None
          else None
      | _ \<Rightarrow> None)"

definition cut_test_result_get_diff :: "diff_tools \<Rightarrow> test_result \<Rightarrow> ustring option \<times> test_result" where
  "cut_test_result_get_diff T r =
     (case result_diff r of
        Some d \<Rightarrow> (Some d, r)
      | None \<Rightarrow>
          let d = automatic_diff T (result_expected r) (result_actual r)
          in (d, r\<lparr>result_diff := d\<rparr>))"

text \<open>The folded diff is built from texts that exist when the diff was computed; for a diff
  set by hand on a result without them the C code would fold \<open>NULL\<close>, here no value.\<close>

definition cut_test_result_get_folded_diff ::
  "diff_tools \<Rightarrow> test_result \<Rightarrow> ustring option \<times> test_result" where
  "cut_test_result_get_folded_diff T r =
     (case result_folded_diff r of
        Some d \<Rightarrow> (Some d, r)
      | None \<Rightarrow>
          let (d, r1) = cut_test_result_get_diff T r;
              folded = (case (d, result_expected r1, result_actual r1) of
                          (Some d, Some e, Some a) \<Rightarrow>
                            if tool_need_fold T d then Some (cut_diff_readable_folded T e a) else None
                        | _ \<Rightarrow> None)
          in (folded, r1\<lparr>result_folded_diff := folded\<rparr>))"

definition append_part :: "ustring \<Rightarrow> ustring \<Rightarrow> ustring option \<Rightarrow> ustring \<Rightarrow> ustring" where
  "append_part separator label part text_so_far =
     (case part of
        None \<Rightarrow> text_so_far
      | Some s \<Rightarrow> (if text_so_far \<noteq> [] then text_so_far @ separator else text_so_far) @ label @ s)"

abbreviation angle :: "ustring option \<Rightarrow> ustring option" where
  "angle s \<equiv> map_option (\<lambda>s. [60] @ s @ [62]) s"

definition ascii :: "string \<Rightarrow> ustring" where
  "ascii s = map of_char s"

definition build_message ::
  "ustring option \<Rightarrow> ustring option \<Rightarrow> ustring option \<Rightarrow> ustring option \<Rightarrow> ustring option \<Rightarrow>
     ustring option \<Rightarrow> ustring option" where
  "build_message user system expected actual d folded =
     (let m = append_part [10, 10] (ascii ''folded diff:'' @ [10]) folded
               (append_part [10, 10] (ascii ''diff:'' @ [10]) d
                 (append_part [10] (ascii ''  actual: '') (angle actual)
                   (append_part [10] (ascii ''expected: '') (angle expected)
                     (append_part [10] [] system
                       (case user of None \<Rightarrow> [] | Some s \<Rightarrow> s)))))
      in if m = [] then None else Some m)"

definition cut_test_result_get_message ::
  "diff_tools \<Rightarrow> test_result \<Rightarrow> ustring option \<times> test_result" where
  "cut_test_result_get_message T r =
     (case result_message r of
        Some m \<Rightarrow> (Some m, r)
      | None \<Rightarrow>
          let (d, r1) = cut_test_result_get_diff T r;
              (folded, r2) = cut_test_result_get_folded_diff T r1;
              m = build_message (result_user_message r) (result_system_message r)
                    (result_expected r) (result_actual r) d folded
          in (m, r2\<lparr>result_message := m\<rparr>))"

text \<open>The tools of cutter: an undefined readable diff (two empty texts) is taken as the empty
  text the writer holds.\<close>

definition cut_diff_readable_is_interested :: "(string \<Rightarrow> ustring \<Rightarrow> bool) \<Rightarrow> ustring \<Rightarrow> bool" where
  "cut_diff_readable_is_interested re d \<longleftrightarrow>
     re ''^[-+]'' d \<and> (re ''^[ ?]'' d \<or> re (''(?:.*'' @ [CHR 0x0A] @ ''){2,}'') d)"

definition cut_diff_readable_need_fold :: "(string \<Rightarrow> ustring \<Rightarrow> bool) \<Rightarrow> ustring \<Rightarrow> bool" where
  "cut_diff_readable_need_fold re d \<longleftrightarrow> re ''^[-+].{79}'' d"

definition cutter_diff_tools ::
  "(ustring \<Rightarrow> ustring list) \<Rightarrow> (gunichar \<Rightarrow> bool) \<Rightarrow> (string \<Rightarrow> ustring \<Rightarrow> bool) \<Rightarrow>
     (ustring \<Rightarrow> ustring) \<Rightarrow> diff_tools" where
  "cutter_diff_tools split iswide re fold_text =
     \<lparr>tool_readable = \<lambda>f t. case cut_diff_readable split iswide f t of Some d \<Rightarrow> d | None \<Rightarrow> [],
      tool_is_interested = cut_diff_readable_is_interested re,
      tool_need_fold = cut_diff_readable_need_fold re,
      tool_fold = fold_text\<rparr>"

section \<open>The lazily computed fields\<close>

text \<open>What the lazily computed fields of a result are worth, from its current fields: what was set
  by hand, else what a computation gives now.\<close>

definition current_diff :: "diff_tools \<Rightarrow> test_result \<Rightarrow> ustring option" where
  "current_diff T r =
     (if user_set_diff r then result_diff r
      else automatic_diff T (result_expected r) (result_actual r))"

definition current_folded_diff :: "diff_tools \<Rightarrow> test_result \<Rightarrow> ustring option" where
  "current_folded_diff T r =
     (if user_set_folded_diff r then result_folded_diff r
      else case (current_diff T r, result_expected r, result_actual r) of
        (Some d, Some e, Some a) \<Rightarrow>
          if tool_need_fold T d then Some (cut_diff_readable_folded T e a) else None
      | _ \<Rightarrow> None)"

definition current_message :: "diff_tools \<Rightarrow> test_result \<Rightarrow> ustring option" where
  "current_message T r =
     (if user_set_message r then result_message r
      else build_message (result_user_message r) (result_system_message r) (result_expected r)
             (result_actual r) (current_diff T r) (current_folded_diff T r))"

text \<open>The calls that change a result.\<close>

datatype result_call =
    Set_Status test_status | Set_Test "object_id option" | Set_Test_Iterator "object_id option"
  | Set_Test_Case "object_id option" | Set_Test_Suite "object_id option"
  | Set_Test_Data "object_id option" | Set_Backtrace "backtrace_entry list"
  | Set_Start_Time time_val | Set_Elapsed rat
  | Set_User_Message "ustring option" | Set_System_Message "ustring option"
  | Set_Message "ustring option" | Set_Expected "ustring option" | Set_Actual "ustring option"
  | Set_Diff "ustring option" | Set_Folded_Diff "ustring option"
  | Get_Diff | Get_Folded_Diff | Get_Message

primrec result_step :: "diff_tools \<Rightarrow> result_call \<Rightarrow> test_result \<Rightarrow> test_result" where
  "result_step T (Set_Status x) r = cut_test_result_set_status x r"
| "result_step T (Set_Test x) r = cut_test_result_set_test x r"
| "result_step T (Set_Test_Iterator x) r = cut_test_result_set_test_iterator x r"
| "result_step T (Set_Test_Case x) r = cut_test_result_set_test_case x r"
| "result_step T (Set_Test_Suite x) r = cut_test_result_set_test_suite x r"
| "result_step T (Set_Test_Data x) r = cut_test_result_set_test_data x r"
| "result_step T (Set_Backtrace x) r = cut_test_result_set_backtrace x r"
| "result_step T (Set_Start_Time x) r = cut_test_result_set_start_time x r"
| "result_step T (Set_Elapsed x) r = cut_test_result_set_elapsed x r"
| "result_step T (Set_User_Message s) r = cut_test_result_set_user_message s r"
| "result_step T (Set_System_Message s) r = cut_test_result_set_system_message s r"
| "result_step T (Set_Message s) r = cut_test_result_set_message s r"
| "result_step T (Set_Expected s) r = cut_test_result_set_expected s r"
| "result_step T (Set_Actual s) r = cut_test_result_set_actual s r"
| "result_step T (Set_Diff s) r = cut_test_result_set_diff s r"
| "result_step T (Set_Folded_Diff s) r = cut_test_result_set_folded_diff s r"
| "result_step T Get_Diff r = snd (cut_test_result_get_diff T r)"
| "result_step T Get_Folded_Diff r = snd (cut_test_result_get_folded_diff T r)"
| "result_step T Get_Message r = snd (cut_test_result_get_message T r)"

text \<open>Which of the three values are known to be up to date after a call. A text resets them, unless
  they were set by hand; taking a text away resets nothing, a diff set by hand resets only itself,
  and a text does not reset the message when both diffs were set by hand.\<close>

record freshness =
  diff_fresh :: bool
  folded_fresh :: bool
  message_fresh :: bool

definition after_text :: "test_result \<Rightarrow> freshness" where
  "after_text r = \<lparr>diff_fresh = True, folded_fresh = True,
     message_fresh = (user_set_message r \<or> \<not> (user_set_diff r \<and> user_set_folded_diff r))\<rparr>"

definition after_no_text :: "test_result \<Rightarrow> freshness" where
  "after_no_text r = \<lparr>diff_fresh = user_set_diff r, folded_fresh = user_set_folded_diff r,
     message_fresh = user_set_message r\<rparr>"

definition after_message_reset :: "bool \<Rightarrow> freshness \<Rightarrow> freshness" where
  "after_message_reset by_hand x = x\<lparr>message_fresh := by_hand \<or> diff_fresh x \<and> folded_fresh x\<rparr>"

fun freshness_step :: "result_call \<Rightarrow> test_result \<Rightarrow> freshness \<Rightarrow> freshness" where
  "freshness_step (Set_User_Message s) r x = after_message_reset (user_set_message r) x"
| "freshness_step (Set_System_Message s) r x = after_message_reset (user_set_message r) x"
| "freshness_step (Set_Message s) r x = after_message_reset (s \<noteq> None) x"
| "freshness_step (Set_Expected s) r x = (if s = None then after_no_text r else after_text r)"
| "freshness_step (Set_Actual s) r x = (if s = None then after_no_text r else after_text r)"
| "freshness_step (Set_Diff s) r x = \<lparr>diff_fresh = True, folded_fresh = user_set_folded_diff r,
     message_fresh = user_set_message r\<rparr>"
| "freshness_step (Set_Folded_Diff s) r x =
     x\<lparr>folded_fresh := nonempty_string s \<noteq> None \<or> diff_fresh x, message_fresh := user_set_message r\<rparr>"
| "freshness_step c r x = x"

primrec freshness_after :: "diff_tools \<Rightarrow> result_call list \<Rightarrow> test_result \<Rightarrow> freshness \<Rightarrow> freshness" where
  "freshness_after T [] r x = x"
| "freshness_after T (c # cs) r x = freshness_after T cs (result_step T c r) (freshness_step c r x)"

abbreviation all_fresh :: freshness where
  "all_fresh \<equiv> \<lparr>diff_fresh = True, folded_fresh = True, message_fresh = True\<rparr>"

text \<open>What the caches hold, for the values that are up to date.\<close>

definition caches_ok :: "diff_tools \<Rightarrow> test_result \<Rightarrow> freshness \<Rightarrow> bool" where
  "caches_ok T r x \<longleftrightarrow>
     (user_set_diff r \<longrightarrow> result_diff r \<noteq> None) \<and>
     (user_set_folded_diff r \<longrightarrow> result_folded_diff r \<noteq> None) \<and>
     (user_set_message r \<longrightarrow> result_message r \<noteq> None) \<and>
     (diff_fresh x \<longrightarrow> result_diff r = None \<or> result_diff r = current_diff T r) \<and>
     (folded_fresh x \<longrightarrow> user_set_folded_diff r \<or> diff_fresh x \<and>
        (result_folded_diff r = None \<or> result_folded_diff r = current_folded_diff T r)) \<and>
     (message_fresh x \<longrightarrow> user_set_message r \<or> diff_fresh x \<and> folded_fresh x \<and>
        (result_message r = None \<or> result_message r = current_message T r))"

lemma same_updates:
  "result_diff r = x \<Longrightarrow> r\<lparr>result_diff := x\<rparr> = r"
  "result_folded_diff r = y \<Longrightarrow> r\<lparr>result_folded_diff := y\<rparr> = r"
  "result_message r = z \<Longrightarrow> r\<lparr>result_message := z\<rparr> = r"
  by auto

text \<open>What a getter returns and stores: the cached value, if there is one, else the computed one.\<close>

lemma get_diff_value:
  "cut_test_result_get_diff T r =
     (let d = (case result_diff r of Some d \<Rightarrow> Some d
               | None \<Rightarrow> automatic_diff T (result_expected r) (result_actual r))
      in (d, r\<lparr>result_diff := d\<rparr>))"
  by (cases "result_diff r") (simp_all add: cut_test_result_get_diff_def Let_def same_updates)

definition folded_from :: "diff_tools \<Rightarrow> test_result \<Rightarrow> ustring option \<Rightarrow> ustring option" where
  "folded_from T r d =
     (case (d, result_expected r, result_actual r) of
        (Some d, Some e, Some a) \<Rightarrow>
          if tool_need_fold T d then Some (cut_diff_readable_folded T e a) else None
      | _ \<Rightarrow> None)"

lemma current_folded_diff_from:
  "current_folded_diff T r =
     (if user_set_folded_diff r then result_folded_diff r else folded_from T r (current_diff T r))"
  by (simp add: current_folded_diff_def folded_from_def)

lemma folded_from_update [simp]: "folded_from T (r\<lparr>result_diff := d\<rparr>) = folded_from T r"
  by (simp add: folded_from_def fun_eq_iff)

lemma get_diff_pair:
  "cut_test_result_get_diff T r =
     (fst (cut_test_result_get_diff T r), r\<lparr>result_diff := fst (cut_test_result_get_diff T r)\<rparr>)"
  by (simp add: get_diff_value Let_def)

lemma get_folded_diff_value:
  "cut_test_result_get_folded_diff T r =
     (case result_folded_diff r of
        Some d \<Rightarrow> (Some d, r)
      | None \<Rightarrow>
          let d = fst (cut_test_result_get_diff T r)
          in (folded_from T r d, r\<lparr>result_diff := d, result_folded_diff := folded_from T r d\<rparr>))"
proof (cases "result_folded_diff r")
  case None
  obtain d where d: "cut_test_result_get_diff T r = (d, r\<lparr>result_diff := d\<rparr>)"
    using get_diff_pair by blast
  show ?thesis
    unfolding cut_test_result_get_folded_diff_def d None
    by (simp add: Let_def folded_from_def cong: option.case_cong)
qed (simp add: cut_test_result_get_folded_diff_def)

lemma fresh_diff_value:
  assumes "caches_ok T r x" "diff_fresh x"
  shows "cut_test_result_get_diff T r = (current_diff T r, r\<lparr>result_diff := current_diff T r\<rparr>)"
proof (cases "result_diff r")
  case None
  then have "\<not> user_set_diff r" using assms by (auto simp: caches_ok_def)
  with None show ?thesis by (simp add: get_diff_value current_diff_def Let_def)
next
  case (Some d)
  then have "current_diff T r = result_diff r" using assms by (simp add: caches_ok_def)
  with Some show ?thesis by (simp add: get_diff_value Let_def)
qed

lemma fresh_folded_value:
  assumes "caches_ok T r x" "folded_fresh x"
  shows "fst (cut_test_result_get_folded_diff T r) = current_folded_diff T r"
proof (cases "result_folded_diff r")
  case None
  then have "\<not> user_set_folded_diff r" "diff_fresh x" using assms by (auto simp: caches_ok_def)
  with None fresh_diff_value [OF assms(1)] show ?thesis
    by (simp add: get_folded_diff_value current_folded_diff_from Let_def)
next
  case (Some d)
  with assms show ?thesis
    by (auto simp: get_folded_diff_value caches_ok_def current_folded_diff_from)
qed

lemma get_diff_ok:
  assumes "caches_ok T r x"
  shows "caches_ok T (snd (cut_test_result_get_diff T r)) x"
    and "current_diff T (snd (cut_test_result_get_diff T r)) = current_diff T r"
    and "current_folded_diff T (snd (cut_test_result_get_diff T r)) = current_folded_diff T r"
    and "current_message T (snd (cut_test_result_get_diff T r)) = current_message T r"
proof -
  have d: "current_diff T (snd (cut_test_result_get_diff T r)) = current_diff T r"
    using assms by (cases "result_diff r")
      (auto simp: cut_test_result_get_diff_def current_diff_def caches_ok_def Let_def)
  then have f: "current_folded_diff T (snd (cut_test_result_get_diff T r)) = current_folded_diff T r"
    by (simp add: current_folded_diff_from get_diff_value Let_def)
  with d have m: "current_message T (snd (cut_test_result_get_diff T r)) = current_message T r"
    by (simp add: current_message_def get_diff_value Let_def)
  have "result_diff (snd (cut_test_result_get_diff T r)) = current_diff T r" if "diff_fresh x"
    using fresh_diff_value [OF assms that] by simp
  moreover have "result_diff (snd (cut_test_result_get_diff T r)) \<noteq> None" if "user_set_diff r"
    using assms that by (auto simp: get_diff_value caches_ok_def Let_def)
  moreover have "user_set_diff (snd (cut_test_result_get_diff T r)) = user_set_diff r"
    "user_set_folded_diff (snd (cut_test_result_get_diff T r)) = user_set_folded_diff r"
    "user_set_message (snd (cut_test_result_get_diff T r)) = user_set_message r"
    "result_folded_diff (snd (cut_test_result_get_diff T r)) = result_folded_diff r"
    "result_message (snd (cut_test_result_get_diff T r)) = result_message r"
    by (simp_all add: get_diff_value Let_def)
  ultimately show "caches_ok T (snd (cut_test_result_get_diff T r)) x"
    using assms by (simp add: caches_ok_def d f m)
  show "current_diff T (snd (cut_test_result_get_diff T r)) = current_diff T r"
    "current_folded_diff T (snd (cut_test_result_get_diff T r)) = current_folded_diff T r"
    "current_message T (snd (cut_test_result_get_diff T r)) = current_message T r"
    by (rule d, rule f, rule m)
qed

lemma folded_update_ok:
  assumes "caches_ok T r x" "\<not> user_set_folded_diff r"
    and "folded_fresh x \<Longrightarrow> f = current_folded_diff T r"
  shows "caches_ok T (r\<lparr>result_folded_diff := f\<rparr>) x"
    "current_folded_diff T (r\<lparr>result_folded_diff := f\<rparr>) = current_folded_diff T r"
    "current_message T (r\<lparr>result_folded_diff := f\<rparr>) = current_message T r"
proof -
  have d: "current_diff T (r\<lparr>result_folded_diff := f\<rparr>) = current_diff T r" for f
    by (simp add: current_diff_def)
  have fo: "current_folded_diff T (r\<lparr>result_folded_diff := f\<rparr>) = current_folded_diff T r" for f
    using assms(2) by (simp add: current_folded_diff_from d folded_from_def)
  have m: "current_message T (r\<lparr>result_folded_diff := f\<rparr>) = current_message T r" for f
    by (simp add: current_message_def d fo)
  show "caches_ok T (r\<lparr>result_folded_diff := f\<rparr>) x"
    using assms by (simp add: caches_ok_def d fo m)
  show "current_folded_diff T (r\<lparr>result_folded_diff := f\<rparr>) = current_folded_diff T r"
    "current_message T (r\<lparr>result_folded_diff := f\<rparr>) = current_message T r" by (rule fo, rule m)
qed

lemma get_folded_snd:
  "snd (cut_test_result_get_folded_diff T r) =
     (if result_folded_diff r = None
      then (snd (cut_test_result_get_diff T r))
             \<lparr>result_folded_diff := fst (cut_test_result_get_folded_diff T r)\<rparr>
      else r)"
  by (auto simp: get_folded_diff_value get_diff_value Let_def)

lemma get_folded_diff_ok:
  assumes "caches_ok T r x"
  shows "caches_ok T (snd (cut_test_result_get_folded_diff T r)) x"
    and "current_message T (snd (cut_test_result_get_folded_diff T r)) = current_message T r"
proof -
  note d = get_diff_ok [OF assms]
  have v: "folded_fresh x \<Longrightarrow> fst (cut_test_result_get_folded_diff T r) =
      current_folded_diff T (snd (cut_test_result_get_diff T r))"
    using fresh_folded_value [OF assms] d(3) by simp
  have u: "result_folded_diff r = None \<Longrightarrow> \<not> user_set_folded_diff (snd (cut_test_result_get_diff T r))"
    using assms by (auto simp: caches_ok_def get_diff_value Let_def)
  show "caches_ok T (snd (cut_test_result_get_folded_diff T r)) x"
    "current_message T (snd (cut_test_result_get_folded_diff T r)) = current_message T r"
    using folded_update_ok [OF d(1) u v] d(4) assms by (simp_all add: get_folded_snd)
qed

lemma get_message_None:
  assumes "result_message r = None"
  shows "cut_test_result_get_message T r =
     (let r1 = snd (cut_test_result_get_diff T r);
          m = build_message (result_user_message r) (result_system_message r) (result_expected r)
                (result_actual r) (fst (cut_test_result_get_diff T r))
                (fst (cut_test_result_get_folded_diff T r1))
      in (m, (snd (cut_test_result_get_folded_diff T r1))\<lparr>result_message := m\<rparr>))"
  using assms by (simp add: cut_test_result_get_message_def Let_def split_beta)

lemma get_message_Some:
  "result_message r = Some m \<Longrightarrow> cut_test_result_get_message T r = (Some m, r)"
  by (simp add: cut_test_result_get_message_def)

lemma fresh_message_value:
  assumes "caches_ok T r x" "message_fresh x"
  shows "fst (cut_test_result_get_message T r) = current_message T r"
proof (cases "result_message r")
  case None
  then have f: "\<not> user_set_message r" "diff_fresh x" "folded_fresh x" using assms by (auto simp: caches_ok_def)
  show ?thesis
    using fresh_diff_value [OF assms(1) f(2)] fresh_folded_value [OF get_diff_ok(1) [OF assms(1)] f(3)]
      get_diff_ok(3) [OF assms(1)] f(1)
    by (simp add: get_message_None [OF None] current_message_def Let_def)
next
  case (Some m)
  with assms show ?thesis by (auto simp: get_message_Some caches_ok_def current_message_def)
qed

lemma message_update_ok:
  assumes "caches_ok T r x" "\<not> user_set_message r" "message_fresh x \<Longrightarrow> m = current_message T r"
  shows "caches_ok T (r\<lparr>result_message := m\<rparr>) x"
proof -
  have c: "current_diff T (r\<lparr>result_message := m\<rparr>) = current_diff T r"
    "current_folded_diff T (r\<lparr>result_message := m\<rparr>) = current_folded_diff T r" for m
    by (simp_all add: current_diff_def current_folded_diff_from folded_from_def)
  have "current_message T (r\<lparr>result_message := m\<rparr>) = current_message T r" for m
    using assms(2) by (simp add: current_message_def c)
  with assms c show ?thesis by (simp add: caches_ok_def)
qed

lemma getter_flags:
  "user_set_message (snd (cut_test_result_get_diff T r)) = user_set_message r"
  "user_set_message (snd (cut_test_result_get_folded_diff T r)) = user_set_message r"
  by (auto simp: get_folded_snd get_diff_value Let_def)

lemma get_message_ok:
  assumes "caches_ok T r x"
  shows "caches_ok T (snd (cut_test_result_get_message T r)) x"
proof (cases "result_message r")
  case None
  then have u: "\<not> user_set_message r" using assms by (auto simp: caches_ok_def)
  let ?r1 = "snd (cut_test_result_get_diff T r)"
  let ?r2 = "snd (cut_test_result_get_folded_diff T ?r1)"
  note d = get_diff_ok [OF assms]
  note f = get_folded_diff_ok [OF d(1)]
  have "snd (cut_test_result_get_message T r) =
      ?r2\<lparr>result_message := fst (cut_test_result_get_message T r)\<rparr>"
    by (simp add: get_message_None [OF None] Let_def)
  moreover have "message_fresh x \<Longrightarrow> fst (cut_test_result_get_message T r) = current_message T ?r2"
    using fresh_message_value [OF assms] f(2) d(4) by simp
  ultimately show ?thesis
    using message_update_ok [OF f(1)] u by (simp add: getter_flags)
qed (simp add: get_message_Some assms)

lemma reset_diff_ok:
  assumes "user_set_diff r \<longrightarrow> result_diff r \<noteq> None"
    and "user_set_folded_diff r \<longrightarrow> result_folded_diff r \<noteq> None"
    and "user_set_message r \<longrightarrow> result_message r \<noteq> None"
  shows "caches_ok T (reset_diff r) (after_text r)"
  using assms by (auto simp: reset_diff_def reset_message_def caches_ok_def after_text_def
      current_diff_def Let_def)

lemma expected_ok:
  assumes "caches_ok T r x"
  shows "caches_ok T (cut_test_result_set_expected s r) (if s = None then after_no_text r else after_text r)"
proof (cases s)
  case None
  with assms show ?thesis
    by (auto simp: cut_test_result_set_expected_def caches_ok_def after_no_text_def current_diff_def)
next
  case (Some e)
  have "after_text (r\<lparr>result_expected := s\<rparr>) = after_text r" by (simp add: after_text_def)
  with Some assms reset_diff_ok [of "r\<lparr>result_expected := s\<rparr>" T] show ?thesis
    by (simp add: cut_test_result_set_expected_def caches_ok_def [of T r])
qed

lemma actual_ok:
  assumes "caches_ok T r x"
  shows "caches_ok T (cut_test_result_set_actual s r) (if s = None then after_no_text r else after_text r)"
proof (cases s)
  case None
  with assms show ?thesis
    by (auto simp: cut_test_result_set_actual_def caches_ok_def after_no_text_def current_diff_def)
next
  case (Some a)
  have "after_text (r\<lparr>result_actual := s\<rparr>) = after_text r" by (simp add: after_text_def)
  with Some assms reset_diff_ok [of "r\<lparr>result_actual := s\<rparr>" T] show ?thesis
    by (simp add: cut_test_result_set_actual_def caches_ok_def [of T r])
qed

text \<open>A call that touches none of the fields the values are computed from.\<close>

lemma unrelated_ok:
  assumes "caches_ok T r x"
    and "result_user_message r' = result_user_message r" "result_system_message r' = result_system_message r"
    and "result_expected r' = result_expected r" "result_actual r' = result_actual r"
    and "result_diff r' = result_diff r" "result_folded_diff r' = result_folded_diff r"
    and "result_message r' = result_message r" "user_set_diff r' = user_set_diff r"
    and "user_set_folded_diff r' = user_set_folded_diff r" "user_set_message r' = user_set_message r"
  shows "caches_ok T r' x"
proof -
  have d: "current_diff T r' = current_diff T r" using assms by (simp add: current_diff_def)
  moreover from d have f: "current_folded_diff T r' = current_folded_diff T r"
    using assms by (simp add: current_folded_diff_def)
  moreover from d f have "current_message T r' = current_message T r"
    using assms by (simp add: current_message_def)
  ultimately show ?thesis using assms by (simp add: caches_ok_def)
qed

text \<open>The message is dropped or set, and the diffs stay.\<close>

lemma message_reset_ok:
  assumes "caches_ok T r x"
    and "result_expected r' = result_expected r" "result_actual r' = result_actual r"
    and "result_diff r' = result_diff r" "result_folded_diff r' = result_folded_diff r"
    and "user_set_diff r' = user_set_diff r" "user_set_folded_diff r' = user_set_folded_diff r"
    and "if user_set_message r' then result_message r' \<noteq> None else result_message r' = None"
  shows "caches_ok T r' (after_message_reset (user_set_message r') x)"
proof -
  have "current_diff T r' = current_diff T r" "current_folded_diff T r' = current_folded_diff T r"
    using assms by (simp_all add: current_diff_def current_folded_diff_def)
  then show ?thesis
    using assms by (auto simp: caches_ok_def after_message_reset_def split: if_splits)
qed

lemma set_diff_ok:
  assumes "caches_ok T r x"
  shows "caches_ok T (cut_test_result_set_diff s r) (freshness_step (Set_Diff s) r x)"
  using assms by (auto simp: caches_ok_def cut_test_result_set_diff_def current_diff_def)

lemma set_folded_diff_ok:
  assumes "caches_ok T r x"
  shows "caches_ok T (cut_test_result_set_folded_diff s r) (freshness_step (Set_Folded_Diff s) r x)"
  using assms by (auto simp: caches_ok_def cut_test_result_set_folded_diff_def current_diff_def)

lemma user_message_ok:
  assumes "caches_ok T r x"
  shows "caches_ok T (cut_test_result_set_user_message s r) (after_message_reset (user_set_message r) x)"
proof -
  have u: "user_set_message (cut_test_result_set_user_message s r) = user_set_message r"
    by (simp add: cut_test_result_set_user_message_def reset_message_def)
  show ?thesis unfolding u [symmetric]
    by (rule message_reset_ok [OF assms])
      (use assms in \<open>simp_all add: cut_test_result_set_user_message_def reset_message_def caches_ok_def [of T r x]\<close>)
qed

lemma system_message_ok:
  assumes "caches_ok T r x"
  shows "caches_ok T (cut_test_result_set_system_message s r) (after_message_reset (user_set_message r) x)"
proof -
  have u: "user_set_message (cut_test_result_set_system_message s r) = user_set_message r"
    by (simp add: cut_test_result_set_system_message_def reset_message_def)
  show ?thesis unfolding u [symmetric]
    by (rule message_reset_ok [OF assms])
      (use assms in \<open>simp_all add: cut_test_result_set_system_message_def reset_message_def caches_ok_def [of T r x]\<close>)
qed

lemma message_ok:
  assumes "caches_ok T r x"
  shows "caches_ok T (cut_test_result_set_message s r) (after_message_reset (s \<noteq> None) x)"
  using message_reset_ok [OF assms, of "cut_test_result_set_message s r"]
  by (simp add: cut_test_result_set_message_def)

lemmas other_setters =
  cut_test_result_set_status_def cut_test_result_set_test_def cut_test_result_set_test_iterator_def
  cut_test_result_set_test_case_def cut_test_result_set_test_suite_def cut_test_result_set_test_data_def
  cut_test_result_set_backtrace_def cut_test_result_set_start_time_def cut_test_result_set_elapsed_def

lemma result_step_ok:
  assumes "caches_ok T r x"
  shows "caches_ok T (result_step T c r) (freshness_step c r x)"
  using unrelated_ok [OF assms] expected_ok [OF assms] actual_ok [OF assms] user_message_ok [OF assms]
    system_message_ok [OF assms] message_ok [OF assms] set_diff_ok [OF assms]
    set_folded_diff_ok [OF assms] get_diff_ok(1) [OF assms] get_folded_diff_ok(1) [OF assms]
    get_message_ok [OF assms]
  by (cases c; simp only: result_step.simps freshness_step.simps) (simp_all add: other_setters)

lemma result_steps_ok:
  "caches_ok T r x \<Longrightarrow> caches_ok T (fold (result_step T) cs r) (freshness_after T cs r x)"
  by (induction cs arbitrary: r x) (simp_all add: result_step_ok)

lemma new_caches_ok: "caches_ok T (cut_test_result_new st te it tc su da um sm bt) all_fresh"
  by (simp add: caches_ok_def cut_test_result_new_def cut_test_result_init_def
      cut_test_result_set_user_message_def cut_test_result_set_system_message_def reset_message_def)

lemma get_message_stored: "result_message (snd (cut_test_result_get_message T r)) = fst (cut_test_result_get_message T r)"
  by (cases "result_message r") (simp_all add: get_message_Some get_message_None Let_def)

lemma get_message_flags:
  "user_set_message (snd (cut_test_result_get_message T r)) = user_set_message r"
  "user_set_diff (snd (cut_test_result_get_message T r)) = user_set_diff r"
  "user_set_folded_diff (snd (cut_test_result_get_message T r)) = user_set_folded_diff r"
  by (cases "result_message r";
      simp add: get_message_Some get_message_None get_folded_snd get_diff_value Let_def)+

lemma no_reset_keeps_message:
  assumes "\<not> message_fresh (freshness_step c r all_fresh)"
    and "user_set_diff r' = user_set_diff r" "user_set_folded_diff r' = user_set_folded_diff r"
  shows "result_message (result_step T c r') = result_message r'"
  using assms by (cases c) (auto simp: after_message_reset_def after_text_def after_no_text_def
      cut_test_result_set_expected_def cut_test_result_set_actual_def cut_test_result_set_diff_def
      cut_test_result_set_folded_diff_def reset_diff_def Let_def split: if_splits)

lemma kept_message:
  assumes "\<not> message_fresh (freshness_step c r all_fresh)" "fst (cut_test_result_get_message T r) \<noteq> None"
  shows "fst (cut_test_result_get_message T (result_step T c (snd (cut_test_result_get_message T r)))) =
    fst (cut_test_result_get_message T r)"
proof -
  from assms(2) obtain m where m: "fst (cut_test_result_get_message T r) = Some m" by blast
  have "result_message (result_step T c (snd (cut_test_result_get_message T r))) = Some m"
    using no_reset_keeps_message [OF assms(1) get_message_flags(2,3)] m by (simp add: get_message_stored)
  with m show ?thesis by (simp add: get_message_Some)
qed

section \<open>Properties\<close>



text \<open>Taking the expected text away does not reset the message: the old message with the
  expected text is still returned, although a fresh one would not mention it.\<close>

theorem stale_message:
  fixes T :: diff_tools and e a :: ustring
  defines "r \<equiv> snd (cut_test_result_get_message T
    (cut_test_result_set_actual (Some a) (cut_test_result_set_expected (Some e) cut_test_result_new_empty)))"
  shows "fst (cut_test_result_get_message T (cut_test_result_set_expected None r)) = result_message r \<and>
    result_message r \<noteq> None \<and> result_expected r = Some e \<and>
    result_expected (cut_test_result_set_expected None r) = None"
proof -
  let ?r0 = "cut_test_result_set_actual (Some a) (cut_test_result_set_expected (Some e) cut_test_result_new_empty)"
  have r0: "result_expected ?r0 = Some e" "result_message ?r0 = None"
    by (simp_all add: cut_test_result_set_actual_def cut_test_result_set_expected_def
        cut_test_result_new_empty_def cut_test_result_new_def cut_test_result_init_def reset_diff_def
        reset_message_def cut_test_result_set_user_message_def cut_test_result_set_system_message_def
        nonempty_string_def Let_def)
  have m: "result_message r \<noteq> None" unfolding r_def get_message_stored
    by (simp add: get_message_None [OF r0(2)] Let_def r0(1) build_message_def append_part_def ascii_def
        split: option.splits)
  then obtain M where "result_message r = Some M" by blast
  moreover have "result_expected r = Some e"
    using r0 by (simp add: r_def get_message_None [OF r0(2)] get_folded_snd get_diff_value Let_def)
  moreover have "cut_test_result_set_expected None r = r\<lparr>result_expected := None\<rparr>"
    by (simp add: cut_test_result_set_expected_def)
  ultimately show ?thesis by (simp add: get_message_Some)
qed

end
