(* ===== verification/Markup.thy ===== *)
theory Markup
  imports Test_Result Differ
begin

text \<open>
  The markup that cutter's parts exchange: how it is written (\<open>cutter/cut-utils.c\<close>) and what
  GLib's markup parser reports of it. The functions of GLib and of the C library that the writers and
  the parser call (\<open>g_markup_escape_text\<close>, \<open>printf\<close> of a double,
  \<open>g_ascii_strtod\<close>, the ISO 8601 functions) are the record \<open>text_tools\<close>; what is used of
  them is \<open>text_tools_ok\<close>. A document of nested elements is a value of \<open>xml_tree\<close>, and
  the lemmas relate the written text to the events that a parser of markup reports.
\<close>

section \<open>Functions of the libraries\<close>

record text_tools =
  escape_text :: "ustring \<Rightarrow> ustring"
  print_double :: "rat \<Rightarrow> ustring"
  ascii_strtod :: "ustring \<Rightarrow> rat \<times> nat"
  to_iso8601 :: "time_val \<Rightarrow> ustring"
  from_iso8601 :: "ustring \<Rightarrow> time_val option"

section \<open>Writing\<close>

definition cut_utils_append_indent :: "nat \<Rightarrow> ustring" where
  "cut_utils_append_indent n = replicate n 32"

definition newline :: ustring where
  "newline = [10]"

definition open_tag :: "ustring \<Rightarrow> ustring" where
  "open_tag name = [60] @ name @ [62]"

definition close_tag :: "ustring \<Rightarrow> ustring" where
  "close_tag name = [60, 47] @ name @ [62]"

definition cut_utils_append_xml_element_with_value ::
  "text_tools \<Rightarrow> nat \<Rightarrow> ustring \<Rightarrow> ustring \<Rightarrow> ustring" where
  "cut_utils_append_xml_element_with_value G indent name value =
     cut_utils_append_indent indent @ open_tag (escape_text G name) @ escape_text G value @
       close_tag (escape_text G name) @ newline"

definition cut_utils_append_xml_element_with_boolean_value ::
  "text_tools \<Rightarrow> nat \<Rightarrow> ustring \<Rightarrow> bool \<Rightarrow> ustring" where
  "cut_utils_append_xml_element_with_boolean_value G indent name b =
     cut_utils_append_xml_element_with_value G indent name
       (if b then ascii ''true'' else ascii ''false'')"

definition cut_utils_double_to_string :: "text_tools \<Rightarrow> rat \<Rightarrow> ustring" where
  "cut_utils_double_to_string G x = map (\<lambda>c. if c = 44 then 46 else c) (print_double G x)"

text \<open>\<open>%d\<close> applied to an unsigned number.\<close>

definition print_guint :: "nat \<Rightarrow> ustring" where
  "print_guint n = (if n < 2147483648 then decimal n else [45] @ decimal (4294967296 - n))"

section \<open>Reading\<close>

definition is_integer :: "ustring \<Rightarrow> bool" where
  "is_integer s \<longleftrightarrow> (\<forall>c \<in> set s. 48 \<le> c \<and> c \<le> 57)"

text \<open>\<open>atoi\<close> of digits, as \<open>(int) strtol\<close>, read as an unsigned number.\<close>

definition digits_value :: "ustring \<Rightarrow> nat" where
  "digits_value s = foldl (\<lambda>n c. 10 * n + (c - 48)) 0 s"

definition atoi :: "ustring \<Rightarrow> nat" where
  "atoi s = guint (min (digits_value s) 9223372036854775807)"

definition ascii_lower :: "ustring \<Rightarrow> ustring" where
  "ascii_lower s = map (\<lambda>c. if 65 \<le> c \<and> c \<le> 90 then c + 32 else c) s"

definition is_boolean :: "ustring \<Rightarrow> bool" where
  "is_boolean s \<longleftrightarrow> ascii_lower s = ascii ''true'' \<or> ascii_lower s = ascii ''false''"

definition string_to_boolean :: "ustring \<Rightarrow> bool" where
  "string_to_boolean s \<longleftrightarrow> ascii_lower s = ascii ''true''"

section \<open>Events\<close>

text \<open>What a markup parser reports of a text without attributes: start and end of elements, and
  the text between them, unescaped.\<close>

datatype xml_event = Start_Element string | End_Element string | Characters ustring

primrec render_event :: "text_tools \<Rightarrow> xml_event \<Rightarrow> ustring" where
  "render_event G (Start_Element n) = open_tag (ascii n)"
| "render_event G (End_Element n) = close_tag (ascii n)"
| "render_event G (Characters s) = escape_text G s"

definition render :: "text_tools \<Rightarrow> xml_event list \<Rightarrow> ustring" where
  "render G evs = concat (map (render_event G) evs)"

lemma render_simps [simp]:
  "render G [] = []"
  "render G (e # es) = render_event G e @ render G es"
  "render G (xs @ ys) = render G xs @ render G ys"
  by (simp_all add: render_def)

section \<open>Trees\<close>

text \<open>The elements that are written are leaves with a text, on one line, and elements whose
  children stand on lines of their own, indented by two.\<close>

datatype xml_tree = Leaf string ustring | Node string "xml_tree list"

primrec write_tree :: "text_tools \<Rightarrow> nat \<Rightarrow> xml_tree \<Rightarrow> ustring" where
  "write_tree G i (Leaf n v) =
     cut_utils_append_indent i @ open_tag (ascii n) @ escape_text G v @ close_tag (ascii n) @ newline"
| "write_tree G i (Node n ts) =
     cut_utils_append_indent i @ open_tag (ascii n) @ newline @ concat (map (write_tree G (i + 2)) ts) @
       cut_utils_append_indent i @ close_tag (ascii n) @ newline"

definition write_trees :: "text_tools \<Rightarrow> nat \<Rightarrow> xml_tree list \<Rightarrow> ustring" where
  "write_trees G i ts = concat (map (write_tree G i) ts)"

lemma write_trees_simps [simp]:
  "write_trees G i [] = []"
  "write_trees G i (t # ts) = write_tree G i t @ write_trees G i ts"
  "write_trees G i (ts @ us) = write_trees G i ts @ write_trees G i us"
  by (simp_all add: write_trees_def)

definition line_break :: "nat \<Rightarrow> xml_event" where
  "line_break i = Characters (newline @ cut_utils_append_indent i)"

text \<open>No text is empty and no two texts are adjacent, as a markup parser reports them.\<close>

primrec tree_events :: "nat \<Rightarrow> xml_tree \<Rightarrow> xml_event list" where
  "tree_events i (Leaf n v) =
     Start_Element n # (if v = [] then [] else [Characters v]) @ [End_Element n]"
| "tree_events i (Node n ts) =
     Start_Element n # concat (map (\<lambda>t. line_break (i + 2) # tree_events (i + 2) t) ts) @
       [line_break i, End_Element n]"

text \<open>What is used of the library functions, as documented: text without special and control
  characters, and white space, is escaped to itself; a number that was printed is read to its end; a
  time of the epoch, with its microseconds below a second, that was printed is read back.\<close>

definition plain_text :: "ustring \<Rightarrow> bool" where
  "plain_text s \<longleftrightarrow> (\<forall>c \<in> set s. c \<notin> {38, 60, 62, 34, 39} \<and> (c = 10 \<or> 32 \<le> c \<and> c < 127))"

definition valid_time :: "time_val \<Rightarrow> bool" where
  "valid_time t \<longleftrightarrow> 0 \<le> fst t \<and> fst t < 2147483648 \<and> 0 \<le> snd t \<and> snd t < 1000000"

definition text_tools_ok :: "text_tools \<Rightarrow> bool" where
  "text_tools_ok G \<longleftrightarrow>
     (\<forall>s. plain_text s \<longrightarrow> escape_text G s = s) \<and>
     (\<forall>x. cut_utils_double_to_string G x \<noteq> [] \<and>
        snd (ascii_strtod G (cut_utils_double_to_string G x)) = length (cut_utils_double_to_string G x)) \<and>
     (\<forall>t. valid_time t \<longrightarrow> to_iso8601 G t \<noteq> [] \<and> from_iso8601 G (to_iso8601 G t) = Some t)"

lemma plain_indent [simp]: "plain_text (newline @ cut_utils_append_indent i)" "plain_text []"
  by (auto simp: plain_text_def newline_def cut_utils_append_indent_def)

lemma line_break_render:
  "text_tools_ok G \<Longrightarrow> render_event G (line_break i) = newline @ cut_utils_append_indent i"
  unfolding text_tools_ok_def line_break_def by (metis plain_indent(1) render_event.simps(3))

lemma write_tree_events:
  assumes G: "text_tools_ok G"
  shows "write_tree G i t = cut_utils_append_indent i @ render G (tree_events i t) @ newline"
proof (induction t arbitrary: i)
  case (Leaf n v)
  have "escape_text G [] = []" using G unfolding text_tools_ok_def by simp
  then show ?case by simp
next
  case (Node n ts)
  have "newline @ concat (map (write_tree G j) ts) @ x =
      render G (concat (map (\<lambda>t. line_break j # tree_events j t) ts)) @ newline @ x" for j x
    using Node by (induction ts) (simp_all add: line_break_render [OF G])
  then show ?case by (simp add: line_break_render [OF G])
qed

section \<open>Decimal numbers\<close>

lemma decimal_digits: "is_integer (decimal n)"
  by (induction n rule: decimal.induct) (subst decimal.simps, auto simp: is_integer_def)

lemma decimal_not_empty [simp]: "decimal n \<noteq> []"
  by (subst decimal.simps) simp

lemma decimal_value: "digits_value (decimal n) = n"
proof (induction n rule: decimal.induct)
  case (1 n)
  show ?case
    by (subst decimal.simps) (use 1 in \<open>auto simp: digits_value_def\<close>)
qed

lemma print_guint_read:
  assumes "n < 2147483648"
  shows "is_integer (print_guint n)" "print_guint n \<noteq> []" "atoi (print_guint n) = n"
  using assms by (simp_all add: print_guint_def decimal_digits decimal_value atoi_def)

lemma boolean_read:
  "is_boolean (if b then ascii ''true'' else ascii ''false'')"
  "string_to_boolean (if b then ascii ''true'' else ascii ''false'') = b"
  "(if b then ascii ''true'' else ascii ''false'') \<noteq> []"
  by (cases b; simp add: is_boolean_def string_to_boolean_def ascii_lower_def ascii_def)+

end
