(* ===== verification/C_Strings.thy ===== *)
theory C_Strings
  imports Markup
begin

text \<open>
  The functions of the C library and of GLib on strings that the stream parser and the loader call.
  A \<open>const gchar *\<close> is the string from the pointer on, without its NUL; where C would read
  beyond the NUL, the model stops with \<open>Out_Of_Bounds\<close>, and where the product of two
  \<open>int\<close> overflows with \<open>Int_Overflow\<close>, and where it uses what has been freed with
  \<open>Use_After_Free\<close>.
\<close>

section \<open>Reading memory\<close>

datatype memory_fault = Out_Of_Bounds | Int_Overflow | Use_After_Free

type_synonym 'a reading = "memory_fault + 'a"

definition bind_reading :: "'a reading \<Rightarrow> ('a \<Rightarrow> 'b reading) \<Rightarrow> 'b reading" where
  "bind_reading m f = (case m of Inl e \<Rightarrow> Inl e | Inr a \<Rightarrow> f a)"

lemma bind_reading_simps [simp]:
  "bind_reading (Inr a) f = f a" "bind_reading (Inl e) f = Inl e"
  by (simp_all add: bind_reading_def)

lemma bind_reading_Inr: "bind_reading m f = Inr b \<longleftrightarrow> (\<exists>a. m = Inr a \<and> f a = Inr b)"
  by (cases m) simp_all

text \<open>\<open>g_string_append_len\<close>: a negative length stands for the whole string.\<close>

definition bytes_from :: "ustring \<Rightarrow> int \<Rightarrow> ustring reading" where
  "bytes_from s n =
     (if n < 0 then Inr s else if n \<le> int (length s) then Inr (take (nat n) s) else Inl Out_Of_Bounds)"

section \<open>Searching\<close>

definition has_prefix :: "ustring \<Rightarrow> ustring \<Rightarrow> bool" where
  "has_prefix p s \<longleftrightarrow> take (length p) s = p"

lemma has_prefix_append [simp]: "has_prefix p (p @ s)"
  by (simp add: has_prefix_def)

definition has_suffix :: "ustring \<Rightarrow> ustring \<Rightarrow> bool" where
  "has_suffix s x \<longleftrightarrow> length x \<le> length s \<and> drop (length s - length x) s = x"

text \<open>\<open>strstr\<close>: the text before the first occurrence and from it.\<close>

fun strstr :: "ustring \<Rightarrow> ustring \<Rightarrow> (ustring \<times> ustring) option" where
  "strstr [] x = (if x = [] then Some ([], []) else None)"
| "strstr (c # s) x =
     (if take (length x) (c # s) = x then Some ([], c # s)
      else map_option (\<lambda>(u, v). (c # u, v)) (strstr s x))"

text \<open>\<open>g_strrstr\<close>: the text from the last occurrence, the whole text for an empty one.\<close>

primrec last_occurrence :: "ustring \<Rightarrow> ustring \<Rightarrow> ustring option" where
  "last_occurrence [] x = None"
| "last_occurrence (c # s) x =
     (case last_occurrence s x of
        Some r \<Rightarrow> Some r
      | None \<Rightarrow> if has_prefix x (c # s) then Some (c # s) else None)"

definition g_strrstr :: "ustring \<Rightarrow> ustring \<Rightarrow> ustring option" where
  "g_strrstr s x = (if x = [] then Some s else last_occurrence s x)"

lemma strstr_parts: "strstr s x = Some (u, v) \<Longrightarrow> s = u @ v"
  by (induction s arbitrary: u) (auto split: if_splits)

lemma strstr_at: "strstr s x = Some (u, v) \<Longrightarrow> take (length x) v = x"
  by (induction s arbitrary: u) (auto split: if_splits)

section \<open>Splitting\<close>

text \<open>\<open>g_strsplit\<close> with a delimiter that is not empty and no limit.\<close>

function split_rest :: "ustring \<Rightarrow> ustring \<Rightarrow> ustring list" where
  "split_rest d s =
     (case strstr s d of
        None \<Rightarrow> [s]
      | Some (u, v) \<Rightarrow> if d = [] then [s] else u # split_rest d (drop (length d) v))"
  by auto
termination
proof (relation "measure (length \<circ> snd)")
  fix d s :: ustring and x u v
  assume a: "strstr s d = Some x" "(u, v) = x" "d \<noteq> []"
  then have s: "s = u @ v" by (auto dest: strstr_parts)
  have "v \<noteq> []"
    using a by (induction s arbitrary: u x) (auto split: if_splits)
  then show "((d, drop (length d) v), d, s) \<in> measure (length \<circ> snd)" using s a(3)
    by (cases v; cases d) auto
qed simp

declare split_rest.simps [simp del]

definition g_strsplit :: "ustring \<Rightarrow> ustring \<Rightarrow> ustring list" where
  "g_strsplit s d = (if s = [] then [] else split_rest d s)"

definition g_strjoin :: "ustring \<Rightarrow> ustring list \<Rightarrow> ustring" where
  "g_strjoin d ss = (case ss of [] \<Rightarrow> [] | s # ss \<Rightarrow> s @ concat (map (\<lambda>x. d @ x) ss))"

section \<open>Numbers\<close>

definition is_digit :: "gunichar \<Rightarrow> bool" where
  "is_digit c \<longleftrightarrow> 48 \<le> c \<and> c \<le> 57"

definition is_space :: "gunichar \<Rightarrow> bool" where
  "is_space c \<longleftrightarrow> c = 32 \<or> 9 \<le> c \<and> c \<le> 13"

text \<open>\<open>g_ascii_strtoull\<close> to the base 10: the number and what follows it; without digits 0 and
  the text itself. A number beyond 64 bits is the greatest, a sign is read.\<close>

definition read_sign :: "ustring \<Rightarrow> bool \<times> ustring" where
  "read_sign s =
     (case s of [] \<Rightarrow> (False, [])
      | c # r \<Rightarrow> if c = 45 then (True, r) else if c = 43 then (False, r) else (False, c # r))"

definition g_ascii_strtoull :: "ustring \<Rightarrow> nat \<times> ustring" where
  "g_ascii_strtoull s =
     (let (negative, u) = read_sign (dropWhile is_space s);
          n = digits_value (takeWhile is_digit u);
          limit = 18446744073709551616
      in if takeWhile is_digit u = [] then (0, s)
         else (if limit \<le> n then limit - 1 else if negative then (limit - n) mod limit else n,
               dropWhile is_digit u))"

lemma decimal_is_digit: "c \<in> set (decimal n) \<Longrightarrow> is_digit c"
  using decimal_digits [of n] by (simp add: is_integer_def is_digit_def)

lemma strtoull_decimal:
  assumes "n < 18446744073709551616" "s = [] \<or> \<not> is_digit (hd s)"
  shows "g_ascii_strtoull (decimal n @ s) = (n, s)"
proof -
  obtain c r where c: "decimal n = c # r" by (cases "decimal n") auto
  then have d: "is_digit c" using decimal_is_digit [of c n] by simp
  then have "\<not> is_space c" "c \<noteq> 45" "c \<noteq> 43" by (auto simp: is_digit_def is_space_def)
  moreover have "takeWhile is_digit (decimal n @ s) = decimal n" "dropWhile is_digit (decimal n @ s) = s"
    using assms(2) decimal_is_digit [of _ n] by (cases s; simp)+
  ultimately show ?thesis using assms(1) c decimal_value [of n] by (simp add: g_ascii_strtoull_def read_sign_def)
qed

lemma strtoull_shorter:
  assumes "g_ascii_strtoull s = (n, t)" "n \<noteq> 0"
  shows "length t < length s"
proof -
  let ?u = "snd (read_sign (dropWhile is_space s))"
  have digits: "takeWhile is_digit ?u \<noteq> []" and t: "t = dropWhile is_digit ?u"
    using assms by (auto simp: g_ascii_strtoull_def Let_def split: prod.splits if_splits)
  have "length ?u \<le> length (dropWhile is_space s)"
    by (auto simp: read_sign_def split: list.split)
  moreover have "length (dropWhile is_space s) \<le> length s" by (simp add: length_dropWhile_le)
  moreover have "length (takeWhile is_digit ?u) + length (dropWhile is_digit ?u) = length ?u"
    by (metis length_append takeWhile_dropWhile_id)
  moreover have "0 < length (takeWhile is_digit ?u)" using digits by simp
  ultimately show ?thesis unfolding t by linarith
qed

section \<open>Paths\<close>

text \<open>\<open>g_path_get_basename\<close>: the part after the last slash, with slashes at the end left out.\<close>

definition without_last_slashes :: "ustring \<Rightarrow> ustring" where
  "without_last_slashes s = rev (dropWhile (\<lambda>c. c = 47) (rev s))"

definition g_path_get_basename :: "ustring \<Rightarrow> ustring" where
  "g_path_get_basename s =
     (if s = [] then [46]
      else if without_last_slashes s = [] then [47]
      else rev (takeWhile (\<lambda>c. c \<noteq> 47) (rev (without_last_slashes s))))"

text \<open>\<open>g_build_filename\<close>: one slash between two parts, the slashes at the start of the first and
  at the end of the last kept; a single part is left as it is.\<close>

definition g_build_filename :: "ustring list \<Rightarrow> ustring" where
  "g_build_filename elements =
     (let es = filter (\<lambda>e. e \<noteq> []) elements;
          inner = filter (\<lambda>e. e \<noteq> []) (map (\<lambda>e. without_last_slashes (dropWhile (\<lambda>c. c = 47) e)) es)
      in case es of
           [] \<Rightarrow> []
         | [e] \<Rightarrow> e
         | e # _ \<Rightarrow> takeWhile (\<lambda>c. c = 47) e @ g_strjoin [47] inner @ takeWhile (\<lambda>c. c = 47) (rev (last es)))"

end
