(* ===== verification/Run_Context.thy ===== *)
theory Run_Context
  imports Test_Result "HOL-Library.Multiset"
begin

text \<open>
  The run context (\<open>cutter/cut-run-context.c\<close>): the object that counts and collects what a
  run reports. A GObject signal with its arguments is a value of \<open>run_signal\<close>; the class
  handlers of the file are one function on such values. The signals run their connected handlers
  first and the class handler last; the handlers of the file itself, which pass most signals on
  to another context (\<open>cut_run_context_delegate_signals\<close>), are a list of connections.
  Counters are unsigned 32-bit numbers. The timer, the mutex and the options that are only stored
  for other components are left out.
\<close>

section \<open>Signals\<close>

datatype run_signal =
    Start_Run
  | Ready_Test_Suite object_id nat nat
  | Start_Test_Suite object_id
  | Ready_Test_Case object_id nat
  | Start_Test_Case object_id
  | Ready_Test_Iterator object_id nat
  | Start_Test_Iterator object_id
  | Start_Test object_id "object_id option"
  | Start_Iterated_Test object_id "object_id option"
  | Pass_Assertion object_id "object_id option"
  | Status_Test test_status object_id "object_id option" test_result
  | Status_Test_Iterator test_status object_id test_result
  | Status_Test_Case test_status object_id test_result
  | Status_In_Test_Case test_status object_id test_result
  | Crash_Test_Suite object_id test_result
  | Complete_Iterated_Test object_id "object_id option" bool
  | Complete_Test object_id "object_id option" bool
  | Complete_Test_Iterator object_id bool
  | Complete_Test_Case object_id bool
  | Complete_Test_Suite object_id bool
  | Complete_Run bool
  | Error_Signal ustring

section \<open>State\<close>

datatype test_order = ORDER_NONE_SPECIFIED | ORDER_NAME_ASCENDING | ORDER_NAME_DESCENDING

record run_context =
  n_tests :: nat
  n_assertions :: nat
  n_successes :: nat
  n_failures :: nat
  n_errors :: nat
  n_pendings :: nat
  n_notifications :: nat
  n_omissions :: nat
  total_elapsed :: rat
  run_results :: "test_result list"
  use_multi_thread :: bool
  is_multi_thread :: bool
  max_threads :: int
  handle_signals :: bool
  crashed :: bool
  canceled :: bool
  listeners :: "object_id list"
  test_case_order :: test_order
  completed :: bool
  fatal_failures :: bool
  stop_before_test :: bool

definition cut_run_context_init :: run_context where
  "cut_run_context_init =
     \<lparr>n_tests = 0, n_assertions = 0, n_successes = 0, n_failures = 0, n_errors = 0, n_pendings = 0,
      n_notifications = 0, n_omissions = 0, total_elapsed = 0, run_results = [],
      use_multi_thread = False, is_multi_thread = False, max_threads = 10, handle_signals = True,
      crashed = False, canceled = False, listeners = [], test_case_order = ORDER_NONE_SPECIFIED,
      completed = False, fatal_failures = False, stop_before_test = False\<rparr>"

section \<open>Class handlers\<close>

definition guint_inc :: "nat \<Rightarrow> nat" where
  "guint_inc n = guint (n + 1)"

definition start_run :: "run_context \<Rightarrow> run_context" where
  "start_run c = c\<lparr>completed := False\<rparr>"

definition start_test :: "run_context \<Rightarrow> run_context" where
  "start_test c = c\<lparr>n_tests := guint_inc (n_tests c)\<rparr>"

definition start_iterated_test :: "run_context \<Rightarrow> run_context" where
  "start_iterated_test c = c\<lparr>n_tests := guint_inc (n_tests c)\<rparr>"

definition pass_assertion :: "run_context \<Rightarrow> run_context" where
  "pass_assertion c = c\<lparr>n_assertions := guint_inc (n_assertions c)\<rparr>"

definition register_success_result :: "test_result \<Rightarrow> run_context \<Rightarrow> run_context" where
  "register_success_result r c =
     c\<lparr>run_results := r # run_results c, n_successes := guint_inc (n_successes c)\<rparr>"

definition register_failure_result :: "test_result \<Rightarrow> run_context \<Rightarrow> run_context" where
  "register_failure_result r c =
     c\<lparr>run_results := r # run_results c, n_failures := guint_inc (n_failures c)\<rparr>"

definition register_error_result :: "test_result \<Rightarrow> run_context \<Rightarrow> run_context" where
  "register_error_result r c =
     c\<lparr>run_results := r # run_results c, n_errors := guint_inc (n_errors c)\<rparr>"

definition register_pending_result :: "test_result \<Rightarrow> run_context \<Rightarrow> run_context" where
  "register_pending_result r c =
     c\<lparr>run_results := r # run_results c, n_pendings := guint_inc (n_pendings c)\<rparr>"

definition register_notification_result :: "test_result \<Rightarrow> run_context \<Rightarrow> run_context" where
  "register_notification_result r c =
     c\<lparr>run_results := r # run_results c, n_notifications := guint_inc (n_notifications c)\<rparr>"

definition register_omission_result :: "test_result \<Rightarrow> run_context \<Rightarrow> run_context" where
  "register_omission_result r c =
     c\<lparr>run_results := r # run_results c, n_omissions := guint_inc (n_omissions c)\<rparr>"

definition register_crash_result :: "test_result \<Rightarrow> run_context \<Rightarrow> run_context" where
  "register_crash_result r c = c\<lparr>crashed := True, run_results := r # run_results c\<rparr>"

text \<open>\<open>success_test\<close> to \<open>crash_test\<close> and, for a test case, \<open>failure_in_test_case\<close>
  to \<open>crash_in_test_case\<close> (there is no handler for a success there).\<close>

definition status_test :: "test_status \<Rightarrow> test_result \<Rightarrow> run_context \<Rightarrow> run_context" where
  "status_test s r c =
     (case s of
        SUCCESS \<Rightarrow> register_success_result r c
      | FAILURE \<Rightarrow> register_failure_result r c
      | ERROR \<Rightarrow> register_error_result r c
      | PENDING \<Rightarrow> register_pending_result r c
      | NOTIFICATION \<Rightarrow> register_notification_result r c
      | OMISSION \<Rightarrow> register_omission_result r c
      | CRASH \<Rightarrow> register_crash_result r c)"

definition status_in_test_case :: "test_status \<Rightarrow> test_result \<Rightarrow> run_context \<Rightarrow> run_context" where
  "status_in_test_case s r c =
     (case s of
        SUCCESS \<Rightarrow> c
      | FAILURE \<Rightarrow> register_failure_result r c
      | ERROR \<Rightarrow> register_error_result r c
      | PENDING \<Rightarrow> register_pending_result r c
      | NOTIFICATION \<Rightarrow> register_notification_result r c
      | OMISSION \<Rightarrow> register_omission_result r c
      | CRASH \<Rightarrow> register_crash_result r c)"

definition crash_test_suite :: "test_result \<Rightarrow> run_context \<Rightarrow> run_context" where
  "crash_test_suite r c = register_crash_result r c"

text \<open>\<open>elapsed_of\<close> is \<open>cut_test_get_elapsed\<close>, the time a test measured.\<close>

definition complete_test :: "(object_id \<Rightarrow> rat) \<Rightarrow> object_id \<Rightarrow> run_context \<Rightarrow> run_context" where
  "complete_test elapsed_of t c = c\<lparr>total_elapsed := total_elapsed c + elapsed_of t\<rparr>"

definition complete_iterated_test ::
  "(object_id \<Rightarrow> rat) \<Rightarrow> object_id \<Rightarrow> run_context \<Rightarrow> run_context" where
  "complete_iterated_test elapsed_of t c = c\<lparr>total_elapsed := total_elapsed c + elapsed_of t\<rparr>"

definition complete_run :: "run_context \<Rightarrow> run_context" where
  "complete_run c = c\<lparr>completed := True\<rparr>"

fun run_context_handler :: "(object_id \<Rightarrow> rat) \<Rightarrow> run_signal \<Rightarrow> run_context \<Rightarrow> run_context" where
  "run_context_handler elapsed_of Start_Run c = start_run c"
| "run_context_handler elapsed_of (Start_Test t tc) c = start_test c"
| "run_context_handler elapsed_of (Start_Iterated_Test t tc) c = start_iterated_test c"
| "run_context_handler elapsed_of (Pass_Assertion t tc) c = pass_assertion c"
| "run_context_handler elapsed_of (Status_Test s t tc r) c = status_test s r c"
| "run_context_handler elapsed_of (Status_In_Test_Case s t r) c = status_in_test_case s r c"
| "run_context_handler elapsed_of (Crash_Test_Suite t r) c = crash_test_suite r c"
| "run_context_handler elapsed_of (Complete_Test t tc b) c = complete_test elapsed_of t c"
| "run_context_handler elapsed_of (Complete_Iterated_Test t tc b) c = complete_iterated_test elapsed_of t c"
| "run_context_handler elapsed_of (Complete_Run b) c = complete_run c"
| "run_context_handler elapsed_of sig c = c"

section \<open>Accessors\<close>

definition cut_run_context_get_status :: "run_context \<Rightarrow> test_status" where
  "cut_run_context_get_status c =
     (if crashed c then CRASH
      else if 0 < n_errors c then ERROR
      else if 0 < n_failures c then FAILURE
      else if 0 < n_pendings c then PENDING
      else if 0 < n_omissions c then OMISSION
      else if 0 < n_notifications c then NOTIFICATION
      else SUCCESS)"

definition cut_run_context_get_results :: "run_context \<Rightarrow> test_result list" where
  "cut_run_context_get_results c = rev (run_results c)"

definition cut_run_context_cancel :: "run_context \<Rightarrow> run_context" where
  "cut_run_context_cancel c = c\<lparr>canceled := True\<rparr>"

definition cut_run_context_is_canceled :: "run_context \<Rightarrow> bool" where
  "cut_run_context_is_canceled c \<longleftrightarrow> canceled c \<or> crashed c"

definition cut_run_context_set_multi_thread :: "bool \<Rightarrow> run_context \<Rightarrow> run_context" where
  "cut_run_context_set_multi_thread b c =
     (let c1 = c\<lparr>use_multi_thread := b\<rparr> in if b then c1\<lparr>is_multi_thread := True\<rparr> else c1)"

definition cut_run_context_set_test_case_order :: "test_order \<Rightarrow> run_context \<Rightarrow> run_context" where
  "cut_run_context_set_test_case_order ord c = c\<lparr>test_case_order := ord\<rparr>"

definition cut_run_context_add_listener :: "object_id \<Rightarrow> run_context \<Rightarrow> run_context" where
  "cut_run_context_add_listener l c = c\<lparr>listeners := l # listeners c\<rparr>"

definition cut_run_context_remove_listener :: "object_id \<Rightarrow> run_context \<Rightarrow> run_context" where
  "cut_run_context_remove_listener l c = c\<lparr>listeners := remove1 l (listeners c)\<rparr>"

section \<open>The order of the test cases\<close>

definition compare_test_cases_by_name :: "(object_id \<Rightarrow> ustring) \<Rightarrow> bool \<Rightarrow> object_id \<Rightarrow> object_id \<Rightarrow> int" where
  "compare_test_cases_by_name name ascending a b =
     (if ascending then string_sequence_iter_compare (name a) (name b)
      else string_sequence_iter_compare (name b) (name a))"

text \<open>\<open>g_list_sort_with_data\<close>: a stable sort.\<close>

fun insert_before :: "('a \<Rightarrow> 'a \<Rightarrow> int) \<Rightarrow> 'a \<Rightarrow> 'a list \<Rightarrow> 'a list" where
  "insert_before cmp x [] = [x]"
| "insert_before cmp x (y # ys) = (if cmp x y \<le> 0 then x # y # ys else y # insert_before cmp x ys)"

definition sort_with_data :: "('a \<Rightarrow> 'a \<Rightarrow> int) \<Rightarrow> 'a list \<Rightarrow> 'a list" where
  "sort_with_data cmp xs = foldr (insert_before cmp) xs []"

definition cut_run_context_sort_test_cases ::
  "(object_id \<Rightarrow> ustring) \<Rightarrow> run_context \<Rightarrow> object_id list \<Rightarrow> object_id list" where
  "cut_run_context_sort_test_cases name c xs =
     (case test_case_order c of
        ORDER_NONE_SPECIFIED \<Rightarrow> xs
      | ORDER_NAME_ASCENDING \<Rightarrow> sort_with_data (compare_test_cases_by_name name True) xs
      | ORDER_NAME_DESCENDING \<Rightarrow> sort_with_data (compare_test_cases_by_name name False) xs)"

section \<open>Emission and delegation\<close>

text \<open>The names of the signals as they are connected; a status makes a name of its own.\<close>

datatype signal_name =
    N_Start_Run | N_Ready_Test_Suite | N_Start_Test_Suite | N_Ready_Test_Case | N_Start_Test_Case
  | N_Ready_Test_Iterator | N_Start_Test_Iterator | N_Start_Test | N_Start_Iterated_Test
  | N_Pass_Assertion | N_Status_Test test_status | N_Status_Test_Iterator test_status
  | N_Status_Test_Case test_status | N_Status_In_Test_Case test_status | N_Crash_Test_Suite
  | N_Complete_Iterated_Test | N_Complete_Test | N_Complete_Test_Iterator | N_Complete_Test_Case
  | N_Complete_Test_Suite | N_Complete_Run | N_Error

fun name_of :: "run_signal \<Rightarrow> signal_name" where
  "name_of Start_Run = N_Start_Run"
| "name_of (Ready_Test_Suite t n m) = N_Ready_Test_Suite"
| "name_of (Start_Test_Suite t) = N_Start_Test_Suite"
| "name_of (Ready_Test_Case t n) = N_Ready_Test_Case"
| "name_of (Start_Test_Case t) = N_Start_Test_Case"
| "name_of (Ready_Test_Iterator t n) = N_Ready_Test_Iterator"
| "name_of (Start_Test_Iterator t) = N_Start_Test_Iterator"
| "name_of (Start_Test t tc) = N_Start_Test"
| "name_of (Start_Iterated_Test t tc) = N_Start_Iterated_Test"
| "name_of (Pass_Assertion t tc) = N_Pass_Assertion"
| "name_of (Status_Test s t tc r) = N_Status_Test s"
| "name_of (Status_Test_Iterator s t r) = N_Status_Test_Iterator s"
| "name_of (Status_Test_Case s t r) = N_Status_Test_Case s"
| "name_of (Status_In_Test_Case s t r) = N_Status_In_Test_Case s"
| "name_of (Crash_Test_Suite t r) = N_Crash_Test_Suite"
| "name_of (Complete_Iterated_Test t tc b) = N_Complete_Iterated_Test"
| "name_of (Complete_Test t tc b) = N_Complete_Test"
| "name_of (Complete_Test_Iterator t b) = N_Complete_Test_Iterator"
| "name_of (Complete_Test_Case t b) = N_Complete_Test_Case"
| "name_of (Complete_Test_Suite t b) = N_Complete_Test_Suite"
| "name_of (Complete_Run b) = N_Complete_Run"
| "name_of (Error_Signal e) = N_Error"

text \<open>The names in \<open>cut_run_context_delegate_signals\<close> (\<open>CONNECT_DELEGATE_SIGNAL\<close>) and
  in \<open>cb_delegate_complete_run\<close> (\<open>DISCONNECT_DELEGATE_SIGNAL\<close>), in the order of the code.\<close>

definition connected_names :: "signal_name list" where
  "connected_names =
     [N_Ready_Test_Case, N_Start_Test_Case, N_Ready_Test_Iterator, N_Start_Test_Iterator,
      N_Start_Test, N_Start_Iterated_Test,
      N_Pass_Assertion, N_Status_Test SUCCESS, N_Status_Test FAILURE, N_Status_Test ERROR,
      N_Status_Test PENDING, N_Status_Test NOTIFICATION, N_Status_Test OMISSION, N_Status_Test CRASH,
      N_Complete_Test, N_Complete_Iterated_Test,
      N_Status_Test_Iterator SUCCESS, N_Status_Test_Iterator FAILURE, N_Status_Test_Iterator ERROR,
      N_Status_Test_Iterator PENDING, N_Status_Test_Iterator NOTIFICATION,
      N_Status_Test_Iterator OMISSION, N_Status_Test_Iterator CRASH, N_Complete_Test_Iterator,
      N_Status_Test_Case SUCCESS, N_Status_Test_Case FAILURE, N_Status_Test_Case ERROR,
      N_Status_Test_Case PENDING, N_Status_Test_Case NOTIFICATION, N_Status_Test_Case OMISSION,
      N_Status_Test_Case CRASH, N_Complete_Test_Case,
      N_Error, N_Complete_Run]"

definition disconnected_names :: "signal_name list" where
  "disconnected_names =
     [N_Ready_Test_Case, N_Start_Test_Case, N_Ready_Test_Iterator, N_Start_Test_Iterator,
      N_Start_Test, N_Start_Iterated_Test,
      N_Pass_Assertion, N_Status_Test SUCCESS, N_Status_Test FAILURE, N_Status_Test ERROR,
      N_Status_Test PENDING, N_Status_Test NOTIFICATION, N_Status_Test OMISSION, N_Status_Test CRASH,
      N_Complete_Test, N_Complete_Iterated_Test,
      N_Status_Test_Iterator SUCCESS, N_Status_Test_Iterator FAILURE, N_Status_Test_Iterator ERROR,
      N_Status_Test_Iterator PENDING, N_Status_Test_Iterator NOTIFICATION,
      N_Status_Test_Iterator OMISSION, N_Status_Test_Iterator CRASH, N_Complete_Test_Iterator,
      N_Status_Test_Case SUCCESS, N_Status_Test_Case FAILURE, N_Status_Test_Case ERROR,
      N_Status_Test_Case PENDING, N_Status_Test_Case NOTIFICATION, N_Status_Test_Case OMISSION,
      N_Status_Test_Case CRASH, N_Complete_Test_Case,
      N_Error, N_Complete_Run]"

text \<open>A context with its delegation: the connections (one name per connected handler) and the
  other context. A delegating handler emits the same signal on the other context; the handler of
  \<open>complete-run\<close> only disconnects.\<close>

record delegation =
  own_context :: run_context
  connections :: "signal_name list"
  other_context :: run_context

definition cut_run_context_delegate_signals :: "delegation \<Rightarrow> delegation" where
  "cut_run_context_delegate_signals d = d\<lparr>connections := connections d @ connected_names\<rparr>"

definition cb_delegate_complete_run :: "delegation \<Rightarrow> delegation" where
  "cb_delegate_complete_run d =
     d\<lparr>connections := filter (\<lambda>n. n \<notin> set disconnected_names) (connections d)\<rparr>"

text \<open>The signal that each delegating handler emits on the other context: the callbacks for
  the progress of tests and their results, for iterators, and for test cases and errors.\<close>

fun cb_delegate_test_signal :: "run_signal \<Rightarrow> run_signal option" where
  "cb_delegate_test_signal (Ready_Test_Case t n) = Some (Ready_Test_Case t n)"
| "cb_delegate_test_signal (Start_Test_Case t) = Some (Start_Test_Case t)"
| "cb_delegate_test_signal (Ready_Test_Iterator t n) = Some (Ready_Test_Iterator t n)"
| "cb_delegate_test_signal (Start_Test_Iterator t) = Some (Start_Test_Iterator t)"
| "cb_delegate_test_signal (Start_Test t tc) = Some (Start_Test t tc)"
| "cb_delegate_test_signal (Start_Iterated_Test t tc) = Some (Start_Iterated_Test t tc)"
| "cb_delegate_test_signal (Pass_Assertion t tc) = Some (Pass_Assertion t tc)"
| "cb_delegate_test_signal (Status_Test s t tc r) =
     Some (case s of
             SUCCESS \<Rightarrow> Status_Test SUCCESS t tc r
           | FAILURE \<Rightarrow> Status_Test FAILURE t tc r
           | ERROR \<Rightarrow> Status_Test ERROR t tc r
           | PENDING \<Rightarrow> Status_Test PENDING t tc r
           | NOTIFICATION \<Rightarrow> Status_Test NOTIFICATION t tc r
           | OMISSION \<Rightarrow> Status_Test OMISSION t tc r
           | CRASH \<Rightarrow> Status_Test CRASH t tc r)"
| "cb_delegate_test_signal sig = None"

fun cb_delegate_iterator_signal :: "run_signal \<Rightarrow> run_signal option" where
  "cb_delegate_iterator_signal (Complete_Test t tc b) = Some (Complete_Test t tc b)"
| "cb_delegate_iterator_signal (Complete_Iterated_Test t tc b) = Some (Complete_Iterated_Test t tc b)"
| "cb_delegate_iterator_signal (Status_Test_Iterator s t r) =
     Some (case s of
             SUCCESS \<Rightarrow> Status_Test_Iterator SUCCESS t r
           | FAILURE \<Rightarrow> Status_Test_Iterator FAILURE t r
           | ERROR \<Rightarrow> Status_Test_Iterator ERROR t r
           | PENDING \<Rightarrow> Status_Test_Iterator PENDING t r
           | NOTIFICATION \<Rightarrow> Status_Test_Iterator NOTIFICATION t r
           | OMISSION \<Rightarrow> Status_Test_Iterator OMISSION t r
           | CRASH \<Rightarrow> Status_Test_Iterator CRASH t r)"
| "cb_delegate_iterator_signal (Complete_Test_Iterator t b) = Some (Complete_Test_Iterator t b)"
| "cb_delegate_iterator_signal sig = None"

fun cb_delegate_case_signal :: "run_signal \<Rightarrow> run_signal option" where
  "cb_delegate_case_signal (Status_Test_Case s t r) =
     Some (case s of
             SUCCESS \<Rightarrow> Status_Test_Case SUCCESS t r
           | FAILURE \<Rightarrow> Status_Test_Case FAILURE t r
           | ERROR \<Rightarrow> Status_Test_Case ERROR t r
           | PENDING \<Rightarrow> Status_Test_Case PENDING t r
           | NOTIFICATION \<Rightarrow> Status_Test_Case NOTIFICATION t r
           | OMISSION \<Rightarrow> Status_Test_Case OMISSION t r
           | CRASH \<Rightarrow> Status_Test_Case CRASH t r)"
| "cb_delegate_case_signal (Complete_Test_Case t b) = Some (Complete_Test_Case t b)"
| "cb_delegate_case_signal (Error_Signal e) = Some (Error_Signal e)"
| "cb_delegate_case_signal sig = None"

definition delegated_signal :: "run_signal \<Rightarrow> run_signal option" where
  "delegated_signal sig =
     (case cb_delegate_test_signal sig of
        Some s \<Rightarrow> Some s
      | None \<Rightarrow> (case cb_delegate_iterator_signal sig of
                   Some s \<Rightarrow> Some s
                 | None \<Rightarrow> cb_delegate_case_signal sig))"

definition emit_on_other :: "(object_id \<Rightarrow> rat) \<Rightarrow> run_signal \<Rightarrow> run_context \<Rightarrow> run_context" where
  "emit_on_other elapsed_of sig o' =
     (case delegated_signal sig of None \<Rightarrow> o' | Some s \<Rightarrow> run_context_handler elapsed_of s o')"

definition emit :: "(object_id \<Rightarrow> rat) \<Rightarrow> run_signal \<Rightarrow> delegation \<Rightarrow> delegation" where
  "emit elapsed_of sig d =
     (let k = count_list (connections d) (name_of sig);
          d1 = (if name_of sig = N_Complete_Run
                then if 0 < k then cb_delegate_complete_run d else d
                else d\<lparr>other_context := (emit_on_other elapsed_of sig ^^ k) (other_context d)\<rparr>)
      in d1\<lparr>own_context := run_context_handler elapsed_of sig (own_context d1)\<rparr>)"

text \<open>\<open>cut_run_context_emit_complete_run\<close>: a critical status turns success into failure.\<close>

definition cut_run_context_emit_complete_run ::
  "(object_id \<Rightarrow> rat) \<Rightarrow> bool \<Rightarrow> delegation \<Rightarrow> bool \<times> delegation" where
  "cut_run_context_emit_complete_run elapsed_of success d =
     (let success' = (if cut_test_result_status_is_critical (cut_run_context_get_status (own_context d))
                      then False else success)
      in (success', emit elapsed_of (Complete_Run success') d))"

end
