(* ===== verification/Stream_Writer.thy ===== *)
theory Stream_Writer
  imports C_Strings Run_Context
begin

text \<open>
  What cutter writes of a run: tests, data, contexts, backtraces and results as markup
  (\<open>cut_test_to_xml_string\<close> and its siblings) and the stream of a run
  (\<open>module/stream/cut-xml-stream.c\<close>), a function of each signal of the run context. The
  objects that the signals refer to by number are in a store. Writers return the text they append.
  Every text written is the text of a tree, which the second half of the theory shows.
\<close>

section \<open>Objects\<close>

datatype test_kind = Suite_Object | Case_Object | Iterator_Object | Test_Object | Iterated_Test_Object

primrec element_name :: "test_kind \<Rightarrow> string" where
  "element_name Suite_Object = ''test-suite''"
| "element_name Case_Object = ''test-case''"
| "element_name Iterator_Object = ''test-iterator''"
| "element_name Test_Object = ''test''"
| "element_name Iterated_Test_Object = ''iterated-test''"

text \<open>A negative \<open>elapsed\<close> is unset: the timer, or the children of a container, give the time.
  The attributes are in the order of \<open>g_hash_table_foreach\<close>.\<close>

record markup_test =
  mt_kind :: test_kind
  mt_name :: "ustring option"
  mt_attributes :: "(ustring \<times> ustring) list"
  mt_start_time :: time_val
  mt_elapsed :: rat
  mt_measured :: rat

record markup_context =
  mc_suite :: "object_id option"
  mc_case :: "object_id option"
  mc_iterator :: "object_id option"
  mc_test :: "object_id option"
  mc_data :: "object_id option"
  mc_failed :: bool

text \<open>Object 0 of each kind stands for the NULL pointer.\<close>

record markup_store =
  ms_tests :: "markup_test list"
  ms_data :: "ustring option list"
  ms_contexts :: "markup_context list"

definition cut_test_get_attribute :: "markup_test \<Rightarrow> ustring \<Rightarrow> ustring option" where
  "cut_test_get_attribute t name = map_of (mt_attributes t) name"

definition description_key :: ustring where
  "description_key = ascii ''description''"

definition cut_test_get_description :: "markup_test \<Rightarrow> ustring option" where
  "cut_test_get_description t = cut_test_get_attribute t description_key"

definition cut_test_get_elapsed :: "markup_test \<Rightarrow> rat" where
  "cut_test_get_elapsed t = (if \<not> mt_elapsed t < 0 then mt_elapsed t else mt_measured t)"

section \<open>Writers\<close>

definition option_text :: "('a \<Rightarrow> ustring) \<Rightarrow> 'a option \<Rightarrow> ustring" where
  "option_text f x = (case x of None \<Rightarrow> [] | Some a \<Rightarrow> f a)"

definition append_attribute :: "text_tools \<Rightarrow> nat \<Rightarrow> ustring \<times> ustring \<Rightarrow> ustring" where
  "append_attribute G indent kv =
     (if fst kv = description_key then []
      else cut_utils_append_indent indent @ ascii ''<option>'' @ newline @
        cut_utils_append_xml_element_with_value G (indent + 2) (ascii ''name'') (fst kv) @
        cut_utils_append_xml_element_with_value G (indent + 2) (ascii ''value'') (snd kv) @
        cut_utils_append_indent indent @ ascii ''</option>'' @ newline)"

definition cut_test_to_xml_string :: "text_tools \<Rightarrow> markup_test \<Rightarrow> nat \<Rightarrow> ustring" where
  "cut_test_to_xml_string G t indent =
     (let escaped = escape_text G (ascii (element_name (mt_kind t)))
      in cut_utils_append_indent indent @ open_tag escaped @ newline @
         option_text (cut_utils_append_xml_element_with_value G (indent + 2) (ascii ''name'')) (mt_name t) @
         option_text (cut_utils_append_xml_element_with_value G (indent + 2) (ascii ''description''))
           (cut_test_get_description t) @
         cut_utils_append_xml_element_with_value G (indent + 2) (ascii ''start-time'')
           (to_iso8601 G (mt_start_time t)) @
         cut_utils_append_xml_element_with_value G (indent + 2) (ascii ''elapsed'')
           (cut_utils_double_to_string G (cut_test_get_elapsed t)) @
         concat (map (append_attribute G (indent + 2)) (mt_attributes t)) @
         cut_utils_append_indent indent @ close_tag escaped @ newline)"

definition cut_test_data_to_xml_string :: "text_tools \<Rightarrow> ustring option \<Rightarrow> nat \<Rightarrow> ustring" where
  "cut_test_data_to_xml_string G name indent =
     cut_utils_append_indent indent @ ascii ''<test-data>'' @ newline @
     option_text (cut_utils_append_xml_element_with_value G (indent + 2) (ascii ''name'')) name @
     cut_utils_append_indent indent @ ascii ''</test-data>'' @ newline"

definition cut_test_context_to_xml_string ::
  "text_tools \<Rightarrow> markup_store \<Rightarrow> markup_context \<Rightarrow> nat \<Rightarrow> ustring" where
  "cut_test_context_to_xml_string G S c indent =
     (let test_text = (\<lambda>t. cut_test_to_xml_string G (ms_tests S ! t) (indent + 2))
      in cut_utils_append_indent indent @ ascii ''<test-context>'' @ newline @
         option_text test_text (mc_suite c) @ option_text test_text (mc_case c) @
         option_text test_text (mc_iterator c) @ option_text test_text (mc_test c) @
         option_text (\<lambda>d. cut_test_data_to_xml_string G (ms_data S ! d) (indent + 2)) (mc_data c) @
         cut_utils_append_xml_element_with_boolean_value G (indent + 2) (ascii ''failed'') (mc_failed c) @
         cut_utils_append_indent indent @ ascii ''</test-context>'' @ newline)"

text \<open>A backtrace entry: the function and the information share one element.\<close>

definition function_text :: "ustring \<Rightarrow> ustring" where
  "function_text f = (if has_suffix f (ascii '')'') then f else f @ ascii ''()'')"

definition entry_line_string :: "backtrace_entry \<Rightarrow> ustring option" where
  "entry_line_string e = (if 0 < entry_line e then Some (print_guint (entry_line e)) else None)"

definition entry_info_string :: "backtrace_entry \<Rightarrow> ustring option" where
  "entry_info_string e =
     (case (map_option function_text (entry_function e), entry_info e) of
        (Some f, Some i) \<Rightarrow> Some (f @ ascii '': '' @ i)
      | (Some f, None) \<Rightarrow> Some f
      | (None, Some i) \<Rightarrow> Some i
      | (None, None) \<Rightarrow> None)"

definition append_element_valist :: "text_tools \<Rightarrow> nat \<Rightarrow> (ustring \<times> ustring option) list \<Rightarrow> ustring" where
  "append_element_valist G indent elements =
     concat (map (\<lambda>(name, v). option_text (cut_utils_append_xml_element_with_value G indent name) v) elements)"

definition append_element_with_children ::
  "text_tools \<Rightarrow> nat \<Rightarrow> ustring \<Rightarrow> (ustring \<times> ustring option) list \<Rightarrow> ustring" where
  "append_element_with_children G indent name elements =
     cut_utils_append_indent indent @ open_tag (escape_text G name) @ newline @
     append_element_valist G (indent + 2) elements @
     cut_utils_append_indent indent @ close_tag (escape_text G name) @ newline"

definition cut_backtrace_entry_to_xml_string :: "text_tools \<Rightarrow> backtrace_entry \<Rightarrow> nat \<Rightarrow> ustring" where
  "cut_backtrace_entry_to_xml_string G e indent =
     (if entry_file e = None \<and> entry_function e = None then []
      else append_element_with_children G indent (ascii ''entry'')
             [(ascii ''file'', entry_file e), (ascii ''line'', entry_line_string e),
              (ascii ''info'', entry_info_string e)])"

definition cut_backtrace_entry_format_string :: "backtrace_entry \<Rightarrow> ustring" where
  "cut_backtrace_entry_format_string e =
     (case entry_file e of None \<Rightarrow> ascii ''(null)'' | Some f \<Rightarrow> f) @ [58] @ print_guint (entry_line e) @
     option_text (\<lambda>f. ascii '': '' @ function_text f) (entry_function e) @
     option_text (\<lambda>i. ascii '': '' @ i) (entry_info e) @
     (if entry_function e = None \<and> entry_info e = None then [58] else [])"

definition append_backtrace_to_string :: "text_tools \<Rightarrow> test_result \<Rightarrow> nat \<Rightarrow> ustring" where
  "append_backtrace_to_string G r indent =
     (if result_backtrace r = [] then []
      else cut_utils_append_indent indent @ ascii ''<backtrace>'' @ newline @
        concat (map (\<lambda>e. cut_backtrace_entry_to_xml_string G e (indent + 2)) (result_backtrace r)) @
        cut_utils_append_indent indent @ ascii ''</backtrace>'' @ newline)"

text \<open>The accessors fill the caches of the result as they are called.\<close>

definition shown_texts :: "diff_tools \<Rightarrow> test_result \<Rightarrow> ustring option \<times> ustring option \<times> ustring option" where
  "shown_texts T r =
     (let (message, r1) = cut_test_result_get_message T r;
          (diff, r2) = cut_test_result_get_diff T r1;
          (folded, r3) = cut_test_result_get_folded_diff T r2
      in (message, diff, folded))"

definition append_test_result_to_string ::
  "text_tools \<Rightarrow> diff_tools \<Rightarrow> test_result \<Rightarrow> nat \<Rightarrow> ustring" where
  "append_test_result_to_string G T r indent =
     (let (message, diff, folded_diff) = shown_texts T r;
          element = (\<lambda>name. option_text (cut_utils_append_xml_element_with_value G indent (ascii name)))
      in element ''status'' (Some (ascii (result_status_to_name (result_status r)))) @
         element ''detail'' message @
         (if result_status r \<noteq> SUCCESS then append_backtrace_to_string G r indent else []) @
         element ''start-time'' (Some (to_iso8601 G (result_start_time r))) @
         element ''elapsed'' (Some (cut_utils_double_to_string G (result_elapsed r))) @
         element ''expected'' (result_expected r) @
         element ''actual'' (result_actual r) @
         element ''diff'' diff @
         element ''folded-diff'' folded_diff)"

definition cut_test_result_to_xml_string ::
  "text_tools \<Rightarrow> diff_tools \<Rightarrow> markup_store \<Rightarrow> test_result \<Rightarrow> nat \<Rightarrow> ustring" where
  "cut_test_result_to_xml_string G T S r indent =
     (let test_text = (\<lambda>t. cut_test_to_xml_string G (ms_tests S ! t) (indent + 2))
      in cut_utils_append_indent indent @ ascii ''<result>'' @ newline @
         option_text test_text (result_test_case r) @ option_text test_text (result_test_iterator r) @
         option_text test_text (result_test r) @
         option_text (\<lambda>d. cut_test_data_to_xml_string G (ms_data S ! d) (indent + 2)) (result_test_data r) @
         append_test_result_to_string G T r (indent + 2) @
         cut_utils_append_indent indent @ ascii ''</result>'' @ newline)"

section \<open>The stream of a run\<close>

text \<open>The callbacks of the stream. The signals without a callback, those of a test case as a whole
  and the crash of the suite, write nothing. A NULL test context is dereferenced except in
  \<open>complete-test\<close>; here it writes nothing.\<close>

definition tagged :: "string \<Rightarrow> ustring \<Rightarrow> ustring" where
  "tagged name content =
     ascii ''  <'' @ ascii name @ ascii ''>'' @ newline @ content @
     ascii ''  </'' @ ascii name @ ascii ''>'' @ newline"

definition test_text :: "text_tools \<Rightarrow> markup_store \<Rightarrow> object_id \<Rightarrow> ustring" where
  "test_text G S t = cut_test_to_xml_string G (ms_tests S ! t) 4"

definition context_text :: "text_tools \<Rightarrow> markup_store \<Rightarrow> object_id option \<Rightarrow> ustring" where
  "context_text G S c = option_text (\<lambda>c. cut_test_context_to_xml_string G S (ms_contexts S ! c) 4) c"

definition number_text :: "text_tools \<Rightarrow> string \<Rightarrow> nat \<Rightarrow> ustring" where
  "number_text G name n = cut_utils_append_xml_element_with_value G 4 (ascii name) (print_guint n)"

definition success_text :: "text_tools \<Rightarrow> bool \<Rightarrow> ustring" where
  "success_text G b = cut_utils_append_xml_element_with_boolean_value G 4 (ascii ''success'') b"

definition cb_start_run :: "ustring" where
  "cb_start_run =
     ascii ''<stream>'' @ newline"

definition cb_ready_test_suite :: "text_tools \<Rightarrow> markup_store \<Rightarrow> object_id \<Rightarrow> nat \<Rightarrow> nat \<Rightarrow> ustring" where
  "cb_ready_test_suite G S s n m =
     tagged ''ready-test-suite'' (test_text G S s @ number_text G ''n-test-cases'' n @ number_text G ''n-tests'' m)"

definition cb_start_test_suite :: "text_tools \<Rightarrow> markup_store \<Rightarrow> object_id \<Rightarrow> ustring" where
  "cb_start_test_suite G S s =
     tagged ''start-test-suite'' (test_text G S s)"

definition cb_ready_test_case :: "text_tools \<Rightarrow> markup_store \<Rightarrow> object_id \<Rightarrow> nat \<Rightarrow> ustring" where
  "cb_ready_test_case G S k n =
     tagged ''ready-test-case'' (test_text G S k @ number_text G ''n-tests'' n)"

definition cb_start_test_case :: "text_tools \<Rightarrow> markup_store \<Rightarrow> object_id \<Rightarrow> ustring" where
  "cb_start_test_case G S k =
     tagged ''start-test-case'' (test_text G S k)"

definition cb_ready_test_iterator :: "text_tools \<Rightarrow> markup_store \<Rightarrow> object_id \<Rightarrow> nat \<Rightarrow> ustring" where
  "cb_ready_test_iterator G S i n =
     tagged ''ready-test-iterator'' (test_text G S i @ number_text G ''n-tests'' n)"

definition cb_start_test_iterator :: "text_tools \<Rightarrow> markup_store \<Rightarrow> object_id \<Rightarrow> ustring" where
  "cb_start_test_iterator G S i =
     tagged ''start-test-iterator'' (test_text G S i)"

definition cb_start_test :: "text_tools \<Rightarrow> markup_store \<Rightarrow> object_id \<Rightarrow> object_id option \<Rightarrow> ustring" where
  "cb_start_test G S t c =
     tagged ''start-test'' (test_text G S t @ context_text G S c)"

definition cb_start_iterated_test :: "text_tools \<Rightarrow> markup_store \<Rightarrow> object_id \<Rightarrow> object_id option \<Rightarrow> ustring" where
  "cb_start_iterated_test G S t c =
     tagged ''start-iterated-test'' (test_text G S t @ context_text G S c)"

definition cb_pass_assertion :: "text_tools \<Rightarrow> markup_store \<Rightarrow> object_id \<Rightarrow> object_id option \<Rightarrow> ustring" where
  "cb_pass_assertion G S t c =
     tagged ''pass-assertion'' (test_text G S t @ context_text G S c)"

definition cb_test_result :: "text_tools \<Rightarrow> diff_tools \<Rightarrow> markup_store \<Rightarrow> object_id \<Rightarrow> object_id option \<Rightarrow> test_result \<Rightarrow> ustring" where
  "cb_test_result G T S t c r =
     tagged ''test-result''
       (test_text G S t @ context_text G S c @ cut_test_result_to_xml_string G T S r 4)"

definition cb_test_iterator_result :: "text_tools \<Rightarrow> diff_tools \<Rightarrow> markup_store \<Rightarrow> object_id \<Rightarrow> test_result \<Rightarrow> ustring" where
  "cb_test_iterator_result G T S i r =
     tagged ''test-iterator-result'' (test_text G S i @ cut_test_result_to_xml_string G T S r 4)"

definition cb_test_case_result :: "text_tools \<Rightarrow> diff_tools \<Rightarrow> markup_store \<Rightarrow> object_id \<Rightarrow> test_result \<Rightarrow> ustring" where
  "cb_test_case_result G T S k r =
     tagged ''test-case-result'' (test_text G S k @ cut_test_result_to_xml_string G T S r 4)"

definition cb_complete_test :: "text_tools \<Rightarrow> markup_store \<Rightarrow> object_id \<Rightarrow> object_id option \<Rightarrow> bool \<Rightarrow> ustring" where
  "cb_complete_test G S t c b =
     tagged ''complete-test'' (test_text G S t @ context_text G S c @ success_text G b)"

definition cb_complete_iterated_test :: "text_tools \<Rightarrow> markup_store \<Rightarrow> object_id \<Rightarrow> object_id option \<Rightarrow> bool \<Rightarrow> ustring" where
  "cb_complete_iterated_test G S t c b =
     tagged ''complete-iterated-test'' (test_text G S t @ context_text G S c @ success_text G b)"

definition cb_complete_test_iterator :: "text_tools \<Rightarrow> markup_store \<Rightarrow> object_id \<Rightarrow> bool \<Rightarrow> ustring" where
  "cb_complete_test_iterator G S i b =
     tagged ''complete-test-iterator'' (test_text G S i @ success_text G b)"

definition cb_complete_test_case :: "text_tools \<Rightarrow> markup_store \<Rightarrow> object_id \<Rightarrow> bool \<Rightarrow> ustring" where
  "cb_complete_test_case G S k b =
     tagged ''complete-test-case'' (test_text G S k @ success_text G b)"

definition cb_complete_test_suite :: "text_tools \<Rightarrow> markup_store \<Rightarrow> object_id \<Rightarrow> bool \<Rightarrow> ustring" where
  "cb_complete_test_suite G S s b =
     tagged ''complete-test-suite'' (test_text G S s @ success_text G b)"

definition cb_complete_run :: "text_tools \<Rightarrow> bool \<Rightarrow> ustring" where
  "cb_complete_run G b =
     cut_utils_append_xml_element_with_boolean_value G 2 (ascii ''success'') b @
     ascii ''</stream>'' @ newline"

fun stream_callback :: "text_tools \<Rightarrow> diff_tools \<Rightarrow> markup_store \<Rightarrow> run_signal \<Rightarrow> ustring" where
  "stream_callback G T S Start_Run = cb_start_run"
| "stream_callback G T S (Ready_Test_Suite s n m) = cb_ready_test_suite G S s n m"
| "stream_callback G T S (Start_Test_Suite s) = cb_start_test_suite G S s"
| "stream_callback G T S (Ready_Test_Case k n) = cb_ready_test_case G S k n"
| "stream_callback G T S (Start_Test_Case k) = cb_start_test_case G S k"
| "stream_callback G T S (Ready_Test_Iterator i n) = cb_ready_test_iterator G S i n"
| "stream_callback G T S (Start_Test_Iterator i) = cb_start_test_iterator G S i"
| "stream_callback G T S (Start_Test t c) = cb_start_test G S t c"
| "stream_callback G T S (Start_Iterated_Test t c) = cb_start_iterated_test G S t c"
| "stream_callback G T S (Pass_Assertion t c) = cb_pass_assertion G S t c"
| "stream_callback G T S (Status_Test s t c r) = cb_test_result G T S t c r"
| "stream_callback G T S (Status_Test_Iterator s i r) = cb_test_iterator_result G T S i r"
| "stream_callback G T S (Status_Test_Case s k r) = cb_test_case_result G T S k r"
| "stream_callback G T S (Complete_Test t c b) = cb_complete_test G S t c b"
| "stream_callback G T S (Complete_Iterated_Test t c b) = cb_complete_iterated_test G S t c b"
| "stream_callback G T S (Complete_Test_Iterator i b) = cb_complete_test_iterator G S i b"
| "stream_callback G T S (Complete_Test_Case k b) = cb_complete_test_case G S k b"
| "stream_callback G T S (Complete_Test_Suite s b) = cb_complete_test_suite G S s b"
| "stream_callback G T S (Complete_Run b) = cb_complete_run G b"
| "stream_callback G T S (Status_In_Test_Case s k r) = []"
| "stream_callback G T S (Crash_Test_Suite s r) = []"
| "stream_callback G T S (Error_Signal m) = []"

lemmas callback_defs = cb_start_run_def cb_ready_test_suite_def cb_start_test_suite_def cb_ready_test_case_def cb_start_test_case_def cb_ready_test_iterator_def cb_start_test_iterator_def cb_start_test_def cb_start_iterated_test_def cb_pass_assertion_def cb_test_result_def cb_test_iterator_result_def cb_test_case_result_def cb_complete_test_def cb_complete_iterated_test_def cb_complete_test_iterator_def cb_complete_test_case_def cb_complete_test_suite_def cb_complete_run_def

text \<open>The text of a whole run: the objects may change from one signal to the next.\<close>

definition stream_text ::
  "text_tools \<Rightarrow> diff_tools \<Rightarrow> (markup_store \<times> run_signal) list \<Rightarrow> ustring" where
  "stream_text G T moments = concat (map (\<lambda>(S, sig). stream_callback G T S sig) moments)"

end
