(* ===== verification/Test_Context.thy ===== *)
theory Test_Context
  imports Test_Result
begin

text \<open>
  The test context (\<open>cutter/cut-test-context.c\<close>): what one running test, test case or
  iterated test knows of itself. Modelled are the fields and operations that decide what is
  reported: the failed and omitted flags, the queue of test data, the user message with its keep
  count, the backtrace, the expected and actual texts, the current result, and the nesting of
  user-message jumps; also the bookkeeping of taken objects and the fixture paths and their cache.
  Operations that emit signals or jump need the running program and are in \<open>Test_World\<close>.
  Reference counts, the mutex and threads are not modelled.
\<close>

section \<open>State\<close>

record test_data =
  data_name :: "ustring option"
  data_value :: "object_id option"

definition cut_test_data_new :: "ustring option \<Rightarrow> object_id option \<Rightarrow> test_data" where
  "cut_test_data_new n v = \<lparr>data_name = n, data_value = v\<rparr>"

definition cut_test_data_set_value :: "object_id option \<Rightarrow> test_data \<Rightarrow> test_data" where
  "cut_test_data_set_value v d = d\<lparr>data_value := v\<rparr>"

text \<open>A node of \<open>data_list\<close> is named by the number of nodes behind it, which
  prepending a node does not change; \<open>current_data\<close> is such a pointer or NULL.\<close>

record test_context =
  tc_test_suite :: "object_id option"
  tc_test_case :: "object_id option"
  tc_test_iterator :: "object_id option"
  tc_test :: "object_id option"
  tc_failed :: bool
  tc_omitted :: bool
  tc_multi_thread :: bool
  tc_taken :: "object_id list"
  tc_data_list :: "test_data list"
  tc_current_data :: "nat option"
  tc_fixture_data_dir :: "ustring option"
  tc_cached_fixture_data :: "(ustring \<times> ustring) list"
  tc_backtrace :: "backtrace_entry list"
  tc_user_message :: "ustring option"
  tc_keep_count :: nat
  tc_expected :: "ustring option"
  tc_actual :: "ustring option"
  tc_current_result :: "test_result option"
  tc_jump_nest :: nat
  tc_parent :: "object_id option"

definition cut_test_context_init :: test_context where
  "cut_test_context_init =
     \<lparr>tc_test_suite = None, tc_test_case = None, tc_test_iterator = None, tc_test = None,
      tc_failed = False, tc_omitted = False, tc_multi_thread = False, tc_taken = [],
      tc_data_list = [], tc_current_data = None, tc_fixture_data_dir = None,
      tc_cached_fixture_data = [], tc_backtrace = [], tc_user_message = None, tc_keep_count = 0,
      tc_expected = None, tc_actual = None, tc_current_result = None, tc_jump_nest = 0,
      tc_parent = None\<rparr>"

definition cut_test_context_set_test_suite :: "object_id option \<Rightarrow> test_context \<Rightarrow> test_context" where
  "cut_test_context_set_test_suite x c = c\<lparr>tc_test_suite := x\<rparr>"

definition cut_test_context_set_test_case :: "object_id option \<Rightarrow> test_context \<Rightarrow> test_context" where
  "cut_test_context_set_test_case x c = c\<lparr>tc_test_case := x\<rparr>"

definition cut_test_context_set_test_iterator :: "object_id option \<Rightarrow> test_context \<Rightarrow> test_context" where
  "cut_test_context_set_test_iterator x c = c\<lparr>tc_test_iterator := x\<rparr>"

definition cut_test_context_set_test :: "object_id option \<Rightarrow> test_context \<Rightarrow> test_context" where
  "cut_test_context_set_test x c = c\<lparr>tc_test := x\<rparr>"

definition cut_test_context_new ::
  "object_id option \<Rightarrow> object_id option \<Rightarrow> object_id option \<Rightarrow> object_id option \<Rightarrow> test_context" where
  "cut_test_context_new suite tcase iter test =
     cut_test_context_set_test test
       (cut_test_context_set_test_iterator iter
         (cut_test_context_set_test_case tcase
           (cut_test_context_set_test_suite suite cut_test_context_init)))"

text \<open>\<open>set_parent\<close>, the construction of a sub context for another thread.\<close>

definition set_parent :: "object_id \<Rightarrow> test_context \<Rightarrow> test_context \<Rightarrow> test_context" where
  "set_parent parent_id parent c =
     cut_test_context_set_test (tc_test parent)
       (cut_test_context_set_test_iterator (tc_test_iterator parent)
         (cut_test_context_set_test_case (tc_test_case parent)
           (cut_test_context_set_test_suite (tc_test_suite parent) (c\<lparr>tc_parent := Some parent_id\<rparr>))))"

definition cut_test_context_set_multi_thread :: "bool \<Rightarrow> test_context \<Rightarrow> test_context" where
  "cut_test_context_set_multi_thread b c = c\<lparr>tc_multi_thread := b\<rparr>"

definition cut_test_context_set_failed :: "bool \<Rightarrow> test_context \<Rightarrow> test_context" where
  "cut_test_context_set_failed b c = c\<lparr>tc_failed := b\<rparr>"

definition cut_test_context_is_failed :: "test_context \<Rightarrow> bool" where
  "cut_test_context_is_failed c = tc_failed c"

definition cut_test_context_need_test_run :: "test_context \<Rightarrow> bool" where
  "cut_test_context_need_test_run c \<longleftrightarrow> \<not> cut_test_context_is_failed c \<and> \<not> tc_omitted c"

section \<open>The queue of test data\<close>

definition add_one_data :: "test_data \<Rightarrow> test_context \<Rightarrow> test_context" where
  "add_one_data d c =
     (let c1 = c\<lparr>tc_data_list := d # tc_data_list c\<rparr>
      in if tc_current_data c1 = None then c1\<lparr>tc_current_data := Some (length (tc_data_list c))\<rparr> else c1)"

definition cut_test_context_add_data :: "test_data list \<Rightarrow> test_context \<Rightarrow> test_context" where
  "cut_test_context_add_data ds c = fold add_one_data ds c"

definition free_data_list :: "test_context \<Rightarrow> test_context" where
  "free_data_list c = c\<lparr>tc_data_list := [], tc_current_data := None\<rparr>"

definition cut_test_context_set_data :: "test_data option \<Rightarrow> test_context \<Rightarrow> test_context" where
  "cut_test_context_set_data d c =
     (let c1 = free_data_list c
      in case d of None \<Rightarrow> c1 | Some d' \<Rightarrow> c1\<lparr>tc_data_list := [d'], tc_current_data := Some 0\<rparr>)"

definition cut_test_context_get_data :: "nat \<Rightarrow> test_context \<Rightarrow> test_data option" where
  "cut_test_context_get_data i c =
     (if i < length (tc_data_list c) then Some (tc_data_list c ! i) else None)"

text \<open>\<open>g_list_previous\<close>: the node before the current one, NULL at the head.\<close>

definition cut_test_context_shift_data :: "test_context \<Rightarrow> test_context" where
  "cut_test_context_shift_data c =
     (case tc_current_data c of
        None \<Rightarrow> c
      | Some k \<Rightarrow> c\<lparr>tc_current_data := if k + 1 < length (tc_data_list c) then Some (k + 1) else None\<rparr>)"

definition cut_test_context_have_data :: "test_context \<Rightarrow> bool" where
  "cut_test_context_have_data c \<longleftrightarrow> tc_current_data c \<noteq> None"

definition cut_test_context_get_current_data :: "test_context \<Rightarrow> test_data option" where
  "cut_test_context_get_current_data c =
     (case tc_current_data c of
        None \<Rightarrow> None
      | Some k \<Rightarrow> Some (tc_data_list c ! (length (tc_data_list c) - 1 - k)))"

definition cut_test_context_get_n_data :: "test_context \<Rightarrow> nat" where
  "cut_test_context_get_n_data c = length (tc_data_list c)"

section \<open>Messages, texts and results\<close>

definition clear_user_message :: "test_context \<Rightarrow> test_context" where
  "clear_user_message c =
     (let c1 = (if 0 < tc_keep_count c then c\<lparr>tc_keep_count := tc_keep_count c - 1\<rparr> else c)
      in if tc_keep_count c1 = 0 then c1\<lparr>tc_user_message := None\<rparr> else c1)"

text \<open>\<open>cut_test_context_set_user_message\<close>: the formatted text, None for a NULL format.\<close>

definition cut_test_context_set_user_message :: "ustring option \<Rightarrow> test_context \<Rightarrow> test_context" where
  "cut_test_context_set_user_message m c =
     (let c1 = clear_user_message c
      in case m of None \<Rightarrow> c1 | Some s \<Rightarrow> c1\<lparr>tc_user_message := Some s\<rparr>)"

definition cut_test_context_set_user_message_backward_compatibility ::
  "ustring option \<Rightarrow> test_context \<Rightarrow> test_context" where
  "cut_test_context_set_user_message_backward_compatibility m c =
     (case m of None \<Rightarrow> c | Some s \<Rightarrow> cut_test_context_set_user_message (Some s) c)"

definition cut_test_context_keep_user_message :: "test_context \<Rightarrow> test_context" where
  "cut_test_context_keep_user_message c = c\<lparr>tc_keep_count := guint (tc_keep_count c + 1)\<rparr>"

definition cut_test_context_set_expected :: "ustring option \<Rightarrow> test_context \<Rightarrow> test_context" where
  "cut_test_context_set_expected s c = c\<lparr>tc_expected := s\<rparr>"

definition cut_test_context_set_actual :: "ustring option \<Rightarrow> test_context \<Rightarrow> test_context" where
  "cut_test_context_set_actual s c = c\<lparr>tc_actual := s\<rparr>"

definition clear_additional_test_result_data :: "test_context \<Rightarrow> test_context" where
  "clear_additional_test_result_data c = c\<lparr>tc_expected := None, tc_actual := None\<rparr>"

definition clear_current_result :: "test_context \<Rightarrow> test_context" where
  "clear_current_result c = c\<lparr>tc_current_result := None\<rparr>"

text \<open>A result refers to its data by the value of the data.\<close>

definition current_data_id :: "test_context \<Rightarrow> object_id option" where
  "current_data_id c = Option.bind (cut_test_context_get_current_data c) data_value"

definition cut_test_context_set_current_result ::
  "test_status \<Rightarrow> ustring option \<Rightarrow> test_context \<Rightarrow> test_context" where
  "cut_test_context_set_current_result status system_message c =
     (let c1 = clear_current_result c;
          c2 = (if cut_test_result_status_is_critical status then c1\<lparr>tc_failed := True\<rparr> else c1);
          c3 = c2\<lparr>tc_omitted := (status = OMISSION)\<rparr>;
          r = cut_test_result_new status (tc_test c3) (tc_test_iterator c3) (tc_test_case c3)
                (tc_test_suite c3) (current_data_id c3) (tc_user_message c3) system_message
                (tc_backtrace c3);
          c4 = clear_user_message c3;
          r2 = cut_test_result_set_actual (tc_actual c4)
                 (cut_test_result_set_expected (tc_expected c4) r)
      in clear_additional_test_result_data (c4\<lparr>tc_current_result := Some r2\<rparr>))"

definition cut_test_context_set_current_result_user_message ::
  "ustring option \<Rightarrow> test_context \<Rightarrow> test_context" where
  "cut_test_context_set_current_result_user_message m c =
     (case tc_current_result c of
        None \<Rightarrow> c
      | Some r \<Rightarrow> c\<lparr>tc_current_result := Some (cut_test_result_set_user_message m r)\<rparr>)"

definition cut_test_context_get_have_current_result :: "test_context \<Rightarrow> bool" where
  "cut_test_context_get_have_current_result c \<longleftrightarrow> tc_current_result c \<noteq> None"

text \<open>What a result is emitted on: the test, else the iterator, else the test case.\<close>

datatype emit_target = On_Test object_id | On_Iterator object_id | On_Case object_id | On_Suite object_id

definition result_target :: "test_context \<Rightarrow> emit_target option" where
  "result_target c =
     (case tc_test c of
        Some t \<Rightarrow> Some (On_Test t)
      | None \<Rightarrow>
         (case tc_test_iterator c of
            Some i \<Rightarrow> Some (On_Iterator i)
          | None \<Rightarrow> (case tc_test_case c of Some k \<Rightarrow> Some (On_Case k) | None \<Rightarrow> None)))"

definition cut_test_context_start_user_message_jump :: "test_context \<Rightarrow> test_context" where
  "cut_test_context_start_user_message_jump c = c\<lparr>tc_jump_nest := guint (tc_jump_nest c + 1)\<rparr>"

definition cut_test_context_finish_user_message_jump :: "test_context \<Rightarrow> test_context" where
  "cut_test_context_finish_user_message_jump c = c\<lparr>tc_jump_nest := guint_pred (tc_jump_nest c)\<rparr>"

definition cut_test_context_in_user_message_jump :: "test_context \<Rightarrow> bool" where
  "cut_test_context_in_user_message_jump c \<longleftrightarrow> 0 < tc_jump_nest c"

section \<open>Iteration over the data\<close>

text \<open>The loop of \<open>run_iterated_tests\<close> takes the current data and shifts until there is
  none. Its laws are the interface of a queue.\<close>

locale data_queue =
  fixes ok :: "'q \<Rightarrow> bool" and waiting :: "'q \<Rightarrow> 'd list" and have_data :: "'q \<Rightarrow> bool"
    and current :: "'q \<Rightarrow> 'd option" and shift :: "'q \<Rightarrow> 'q" and add :: "'d \<Rightarrow> 'q \<Rightarrow> 'q"
  assumes have_iff: "ok q \<Longrightarrow> have_data q \<longleftrightarrow> waiting q \<noteq> []"
    and current_hd: "ok q \<Longrightarrow> waiting q \<noteq> [] \<Longrightarrow> current q = Some (hd (waiting q))"
    and shift_tl: "ok q \<Longrightarrow> waiting (shift q) = tl (waiting q)"
    and shift_ok: "ok q \<Longrightarrow> ok (shift q)"
    and add_waiting: "ok q \<Longrightarrow> waiting (add d q) = waiting q @ [d]"
    and add_ok: "ok q \<Longrightarrow> ok (add d q)"
begin

lemma loop_takes_waiting:
  assumes loop: "\<And>q. ok q \<Longrightarrow> L q = (if have_data q then the (current q) # L (shift q) else [])"
  shows "ok q \<Longrightarrow> L q = waiting q"
proof (induction "waiting q" arbitrary: q)
  case Nil
  then show ?case using loop [of q] have_iff [of q] by simp
next
  case (Cons d ds)
  have w: "waiting q \<noteq> []" "hd (waiting q) = d" "tl (waiting q) = ds"
    using Cons.hyps(2) by (metis list.discI, metis list.sel(1), metis list.sel(3))
  have "L (shift q) = ds"
    using Cons.hyps(1) [of "shift q"] shift_tl shift_ok Cons.prems w by metis
  then show ?case
    using loop [OF Cons.prems] have_iff [OF Cons.prems] current_hd [OF Cons.prems] w Cons.hyps(2) by auto
qed

lemma adds: "ok q \<Longrightarrow> ok (fold add ds q) \<and> waiting (fold add ds q) = waiting q @ ds"
  by (induction ds arbitrary: q) (simp_all add: add_ok add_waiting)

lemma fifo:
  assumes "\<And>q. ok q \<Longrightarrow> L q = (if have_data q then the (current q) # L (shift q) else [])"
    and "ok q"
  shows "L (fold add ds q) = waiting q @ ds"
  using loop_takes_waiting [of L, OF assms(1)] adds [OF assms(2)] by metis

end

text \<open>The pointer of a well-formed context is a node of its list; the nodes from it to the head
  wait, the oldest first.\<close>

definition data_ok :: "test_context \<Rightarrow> bool" where
  "data_ok c \<longleftrightarrow> (\<forall>k. tc_current_data c = Some k \<longrightarrow> k < length (tc_data_list c))"

definition waiting_data :: "test_context \<Rightarrow> test_data list" where
  "waiting_data c =
     (case tc_current_data c of None \<Rightarrow> [] | Some k \<Rightarrow> drop k (rev (tc_data_list c)))"

lemma shift_smaller:
  "cut_test_context_have_data c \<Longrightarrow>
   (case tc_current_data (cut_test_context_shift_data c) of
      None \<Rightarrow> 0 | Some k \<Rightarrow> Suc (length (tc_data_list (cut_test_context_shift_data c)) - k)) <
   (case tc_current_data c of None \<Rightarrow> 0 | Some k \<Rightarrow> Suc (length (tc_data_list c) - k))"
  by (auto simp: cut_test_context_have_data_def cut_test_context_shift_data_def split: option.splits)

function iterated_data :: "test_context \<Rightarrow> test_data list" where
  "iterated_data c =
     (if cut_test_context_have_data c
      then the (cut_test_context_get_current_data c) # iterated_data (cut_test_context_shift_data c)
      else [])"
  by auto
termination
  by (relation "measure (\<lambda>c. case tc_current_data c of None \<Rightarrow> 0 | Some k \<Rightarrow> Suc (length (tc_data_list c) - k))")
    (simp_all only: in_measure wf_measure shift_smaller)

declare iterated_data.simps [simp del]

interpretation context_data: data_queue data_ok waiting_data cut_test_context_have_data
  cut_test_context_get_current_data cut_test_context_shift_data add_one_data
proof unfold_locales
  fix q d
  assume ok: "data_ok q"
  show "cut_test_context_have_data q \<longleftrightarrow> waiting_data q \<noteq> []"
    using ok by (auto simp: cut_test_context_have_data_def waiting_data_def data_ok_def split: option.splits)
  show "waiting_data (cut_test_context_shift_data q) = tl (waiting_data q)"
    using ok by (auto simp: waiting_data_def cut_test_context_shift_data_def data_ok_def tl_drop drop_Suc
        split: option.splits)
  show "data_ok (cut_test_context_shift_data q)"
    using ok by (auto simp: cut_test_context_shift_data_def data_ok_def split: option.splits)
  show "waiting_data (add_one_data d q) = waiting_data q @ [d]"
    using ok by (auto simp: waiting_data_def add_one_data_def Let_def data_ok_def split: option.splits)
  show "data_ok (add_one_data d q)"
    using ok by (auto simp: add_one_data_def data_ok_def Let_def less_Suc_eq split: option.splits)
next
  fix q
  assume "data_ok q" "waiting_data q \<noteq> []"
  then show "cut_test_context_get_current_data q = Some (hd (waiting_data q))"
    by (auto simp: waiting_data_def data_ok_def cut_test_context_get_current_data_def hd_drop_conv_nth
        rev_nth split: option.splits)
qed

lemma iterated_data_waiting: "data_ok c \<Longrightarrow> iterated_data c = waiting_data c"
  by (rule context_data.loop_takes_waiting [OF iterated_data.simps])

end
