(* ===== verification/Console_UI.thy ===== *)
theory Console_UI
  imports Stream_Writer Differ_Lines C_Strings Test_Context
begin

text \<open>
  The console (\<open>module/ui/cut-console-ui.c\<close>): the listener that prints the progress of a run,
  the details of its results and the summary, and that starts the notification command. What
  \<open>g_print\<close> has written is a field of the state. Numbers of the type \<open>double\<close> are rationals;
  the file system, the start of a process and the regular expression that splits lines are parameters.
\<close>

section \<open>Numbers\<close>

definition round_half_even :: "rat \<Rightarrow> int" where
  "round_half_even r =
     (let q = \<lfloor>r\<rfloor>; d = r - of_int q
      in if d < 1 / 2 then q else if 1 / 2 < d then q + 1 else if even q then q else q + 1)"

text \<open>\<open>%f\<close>: six digits behind the point.\<close>

definition padded_decimal :: "nat \<Rightarrow> nat \<Rightarrow> ustring" where
  "padded_decimal n k = replicate (n - length (decimal k)) 48 @ decimal k"

definition printf_f :: "rat \<Rightarrow> ustring" where
  "printf_f r =
     (let n = nat (round_half_even (1000000 * \<bar>r\<bar>))
      in (if r < 0 then [45] else []) @ decimal (n div 1000000) @ [46] @ padded_decimal 6 (n mod 1000000))"

text \<open>\<open>%g\<close> of a number that is not negative: six significant digits without the zeros at the end, with
  an exponent if it is below -4 or above 5. The exponent is searched between -30 and 30.\<close>

definition power_ten :: "int \<Rightarrow> rat" where
  "power_ten x = (if 0 \<le> x then 10 ^ nat x else 1 / 10 ^ nat (- x))"

definition six_digits :: "rat \<Rightarrow> nat \<times> int" where
  "six_digits r =
     (let x = (case find (\<lambda>x. power_ten x \<le> r) (rev [-30..30]) of None \<Rightarrow> -30 | Some x \<Rightarrow> x);
          n = nat (round_half_even (r * power_ten (5 - x)))
      in if n = 1000000 then (100000, x + 1) else (n, x))"

definition strip_zeros :: "ustring \<Rightarrow> ustring" where
  "strip_zeros s = rev (dropWhile (\<lambda>c. c = 48) (rev s))"

definition with_point :: "ustring \<Rightarrow> ustring \<Rightarrow> ustring" where
  "with_point whole fraction =
     (let f = strip_zeros fraction in if f = [] then whole else whole @ [46] @ f)"

definition printf_g :: "rat \<Rightarrow> ustring" where
  "printf_g r =
     (if r = 0 then [48]
      else
        (let (n, x) = six_digits r; digits = padded_decimal 6 n
         in if x < -4 \<or> 6 \<le> x
            then with_point (take 1 digits) (drop 1 digits) @ [101] @
                 (if x < 0 then [45] else [43]) @ padded_decimal 2 (nat \<bar>x\<bar>)
            else if 0 \<le> x then with_point (take (nat x + 1) digits) (drop (nat x + 1) digits)
            else with_point [48] (replicate (nat (- x) - 1) 48 @ digits)))"

section \<open>State\<close>

datatype verbose_level = VERBOSE_LEVEL_INVALID | VERBOSE_LEVEL_SILENT | VERBOSE_LEVEL_NORMAL | VERBOSE_LEVEL_VERBOSE

primrec level_number :: "verbose_level \<Rightarrow> int" where
  "level_number VERBOSE_LEVEL_INVALID = -1"
| "level_number VERBOSE_LEVEL_SILENT = 0"
| "level_number VERBOSE_LEVEL_NORMAL = 1"
| "level_number VERBOSE_LEVEL_VERBOSE = 2"

text \<open>\<open>g_utf8_collate\<close> gives 0 for equal names only.\<close>

definition cut_verbose_level_parse :: "ustring option \<Rightarrow> verbose_level \<times> ustring option" where
  "cut_verbose_level_parse name =
     (case name of
        None \<Rightarrow> (VERBOSE_LEVEL_NORMAL, None)
      | Some n \<Rightarrow>
          if n = ascii ''s'' \<or> n = ascii ''silent'' then (VERBOSE_LEVEL_SILENT, None)
          else if n = ascii ''n'' \<or> n = ascii ''normal'' then (VERBOSE_LEVEL_NORMAL, None)
          else if n = ascii ''v'' \<or> n = ascii ''verbose'' then (VERBOSE_LEVEL_VERBOSE, None)
          else (VERBOSE_LEVEL_INVALID, Some (ascii ''Invalid verbose level name: '' @ n)))"

record gerror =
  error_domain :: ustring
  error_code :: int
  error_message :: "ustring option"

record console_ui =
  ui_use_color :: bool
  ui_verbose_level :: verbose_level
  ui_notify_command :: "ustring option"
  ui_errors :: "gerror list"
  ui_progress_row :: int
  ui_progress_row_max :: int
  ui_show_detail_immediately :: bool
  ui_output :: ustring
  ui_spawned :: "ustring list list"

definition console_ui_init :: console_ui where
  "console_ui_init =
     \<lparr>ui_use_color = False, ui_verbose_level = VERBOSE_LEVEL_NORMAL, ui_notify_command = None,
      ui_errors = [], ui_progress_row = 0, ui_progress_row_max = -1, ui_show_detail_immediately = True,
      ui_output = [], ui_spawned = []\<rparr>"

datatype ui_property =
    PROP_USE_COLOR bool
  | PROP_VERBOSE_LEVEL verbose_level
  | PROP_NOTIFY_COMMAND "ustring option"
  | PROP_PROGRESS_ROW_MAX int
  | PROP_SHOW_DETAIL_IMMEDIATELY bool

primrec set_property :: "ui_property \<Rightarrow> console_ui \<Rightarrow> console_ui" where
  "set_property (PROP_USE_COLOR b) ui = ui\<lparr>ui_use_color := b\<rparr>"
| "set_property (PROP_VERBOSE_LEVEL l) ui = ui\<lparr>ui_verbose_level := l\<rparr>"
| "set_property (PROP_NOTIFY_COMMAND c) ui = ui\<lparr>ui_notify_command := c\<rparr>"
| "set_property (PROP_PROGRESS_ROW_MAX n) ui = ui\<lparr>ui_progress_row_max := n\<rparr>"
| "set_property (PROP_SHOW_DETAIL_IMMEDIATELY b) ui = ui\<lparr>ui_show_detail_immediately := b\<rparr>"

text \<open>What the console reads of its surroundings. An iterated test has data; the signal of an error
  carries the message, its domain and code are read here.\<close>

record console_env =
  env_store :: markup_store
  env_data :: "object_id \<Rightarrow> test_data option"
  env_elapsed :: rat
  env_error :: "ustring \<Rightarrow> ustring \<times> int"
  env_tools :: diff_tools
  env_iswide :: "gunichar \<Rightarrow> bool"
  env_split :: "ustring \<Rightarrow> ustring list"
  env_markup :: text_tools
  env_icons_dir :: ustring
  env_is_regular :: "ustring \<Rightarrow> bool"
  env_spawn_error :: "ustring list \<Rightarrow> ustring option"

type_synonym ui_step = "console_ui \<Rightarrow> console_ui"

definition g_print :: "ustring \<Rightarrow> ui_step" where
  "g_print s ui = ui\<lparr>ui_output := ui_output ui @ s\<rparr>"

abbreviation at_least :: "console_ui \<Rightarrow> verbose_level \<Rightarrow> bool" where
  "at_least ui l \<equiv> level_number l \<le> level_number (ui_verbose_level ui)"

section \<open>Statuses and colors\<close>

definition color_yellow :: ustring where "color_yellow = color (ascii ''01;33'')"
definition color_blue :: ustring where "color_blue = color (ascii ''01;34'')"
definition color_blue_back :: ustring where "color_blue_back = color (ascii ''01;44'')"
definition color_magenta :: ustring where "color_magenta = color (ascii ''01;35'')"

definition CRASH_COLOR :: ustring where "CRASH_COLOR = color_red_back @ color_white"

primrec status_to_name :: "test_status \<Rightarrow> ustring" where
  "status_to_name SUCCESS = ascii ''success''"
| "status_to_name NOTIFICATION = ascii ''notification''"
| "status_to_name OMISSION = ascii ''omission''"
| "status_to_name PENDING = ascii ''pending''"
| "status_to_name FAILURE = ascii ''failure''"
| "status_to_name ERROR = ascii ''error''"
| "status_to_name CRASH = ascii ''crash''"

primrec status_to_label :: "test_status \<Rightarrow> ustring" where
  "status_to_label SUCCESS = ascii ''Success''"
| "status_to_label NOTIFICATION = ascii ''Notification''"
| "status_to_label OMISSION = ascii ''Omission''"
| "status_to_label PENDING = ascii ''Pending''"
| "status_to_label FAILURE = ascii ''Failure''"
| "status_to_label ERROR = ascii ''Error''"
| "status_to_label CRASH = ascii ''Crash''"

primrec status_to_color :: "test_status \<Rightarrow> ustring" where
  "status_to_color SUCCESS = color_green"
| "status_to_color NOTIFICATION = color_cyan"
| "status_to_color OMISSION = color_blue"
| "status_to_color PENDING = color_magenta"
| "status_to_color FAILURE = color_red"
| "status_to_color ERROR = color_yellow"
| "status_to_color CRASH = CRASH_COLOR"

definition print_with_color :: "ustring \<Rightarrow> ustring \<Rightarrow> ui_step" where
  "print_with_color c message ui =
     (if ui_use_color ui then g_print (c @ message @ color_normal) ui else g_print message ui)"

definition print_for_status :: "test_status \<Rightarrow> ustring \<Rightarrow> ui_step" where
  "print_for_status status message = print_with_color (status_to_color status) message"

section \<open>Details\<close>

definition test_of :: "console_env \<Rightarrow> object_id \<Rightarrow> markup_test" where
  "test_of E t = ms_tests (env_store E) ! t"

definition null_text :: "ustring option \<Rightarrow> ustring" where
  "null_text s = (case s of None \<Rightarrow> ascii ''(null)'' | Some t \<Rightarrow> t)"

text \<open>\<open>cut_test_get_full_name\<close> of the test of a result, else the name of its test case, else of its test suite.\<close>

definition cut_test_result_get_test_name :: "console_env \<Rightarrow> test_result \<Rightarrow> ustring option" where
  "cut_test_result_get_test_name E r =
     (case result_test r of
        None \<Rightarrow> None
      | Some t \<Rightarrow>
          (case (mt_name (test_of E t), env_data E t) of
             (Some n, Some d) \<Rightarrow> Some (n @ (case data_name d of None \<Rightarrow> ascii '' ('' | Some m \<Rightarrow> ascii '' ('' @ m @ ascii '')''))
           | (Some n, None) \<Rightarrow> Some n
           | (None, Some d) \<Rightarrow> Some (case data_name d of None \<Rightarrow> ascii '' ('' | Some m \<Rightarrow> ascii '' ('' @ m @ ascii '')'')
           | (None, None) \<Rightarrow> None))"

definition cut_test_result_get_test_case_name :: "console_env \<Rightarrow> test_result \<Rightarrow> ustring option" where
  "cut_test_result_get_test_case_name E r = Option.bind (result_test_case r) (\<lambda>t. mt_name (test_of E t))"

definition cut_test_result_get_test_suite_name :: "console_env \<Rightarrow> test_result \<Rightarrow> ustring option" where
  "cut_test_result_get_test_suite_name E r = Option.bind (result_test_suite r) (\<lambda>t. mt_name (test_of E t))"

definition print_each_attribute :: "test_status \<Rightarrow> ustring \<times> ustring \<Rightarrow> ui_step" where
  "print_each_attribute status kv ui =
     print_with_color (status_to_color status) (ascii ''  '' @ fst kv @ ascii '': '' @ snd kv) (g_print newline ui)"

definition print_test_attributes :: "test_status \<Rightarrow> markup_test \<Rightarrow> ui_step" where
  "print_test_attributes status t ui = fold (print_each_attribute status) (mt_attributes t) ui"

text \<open>The colors of the writer of a difference, with those of deleted and inserted parts exchanged.\<close>

definition console_diff_writer_new :: "bool \<Rightarrow> console_writer" where
  "console_diff_writer_new uc =
     (let w = cut_console_diff_writer_new uc
      in cut_console_diff_writer_set_deleted_segment_color (Some (inserted_segment_color w))
           (cut_console_diff_writer_set_inserted_segment_color (Some (deleted_segment_color w))
             (cut_console_diff_writer_set_deleted_line_color (Some (inserted_line_color w))
               (cut_console_diff_writer_set_inserted_line_color (Some (deleted_line_color w))
                 (cut_console_diff_writer_set_deleted_mark_color (Some (inserted_mark_color w))
                   (cut_console_diff_writer_set_inserted_mark_color (Some (deleted_mark_color w)) w))))))"

definition colored_difference :: "console_env \<Rightarrow> bool \<Rightarrow> ustring \<Rightarrow> ustring \<Rightarrow> ustring" where
  "colored_difference E uc expected actual =
     (let (needed, d) = cut_differ_need_diff (cut_differ_new (env_split E) COLORIZE expected actual)
      in if needed
         then newline @ newline @ ascii ''diff:'' @ newline @
              (case run_calls console_writer_class (fst (cut_differ_diff (env_iswide E) d)) (console_diff_writer_new uc) of
                 None \<Rightarrow> [] | Some w \<Rightarrow> console_output w)
         else [])"

definition print_result_message :: "console_env \<Rightarrow> test_result \<Rightarrow> ui_step" where
  "print_result_message E r ui =
     g_print newline
       (case (result_expected r, result_actual r) of
          (Some expected, Some actual) \<Rightarrow>
            if ui_use_color ui
            then g_print (colored_difference E True expected actual)
                   (g_print (ascii ''>'')
                     (print_for_status FAILURE actual
                       (g_print (ascii ''>'' @ newline @ ascii ''  actual: <'')
                         (print_for_status SUCCESS expected
                           (g_print (option_text (\<lambda>m. newline @ m) (result_user_message r) @
                                     option_text (\<lambda>m. newline @ m) (result_system_message r) @
                                     newline @ ascii ''expected: <'') ui)))))
            else g_print (option_text (\<lambda>m. newline @ m) (fst (cut_test_result_get_message (env_tools E) r))) ui
        | _ \<Rightarrow> g_print (option_text (\<lambda>m. newline @ m) (fst (cut_test_result_get_message (env_tools E) r))) ui)"

definition print_result_backtrace :: "test_result \<Rightarrow> ui_step" where
  "print_result_backtrace r ui =
     fold (\<lambda>e. g_print (cut_backtrace_entry_format_string e @ newline)) (result_backtrace r) ui"

definition print_result_detail :: "console_env \<Rightarrow> test_status \<Rightarrow> test_result \<Rightarrow> ui_step" where
  "print_result_detail E status r ui =
     (let name = (case cut_test_result_get_test_name E r of
                    Some n \<Rightarrow> Some n
                  | None \<Rightarrow> (case cut_test_result_get_test_case_name E r of
                               Some n \<Rightarrow> Some n
                             | None \<Rightarrow> cut_test_result_get_test_suite_name E r));
          ui1 = g_print (ascii '': '' @ null_text name) (print_for_status status (status_to_label status) ui);
          ui2 = (case result_test r of None \<Rightarrow> ui1 | Some t \<Rightarrow> print_test_attributes status (test_of E t) ui1)
      in print_result_backtrace r (print_result_message E r ui2))"

definition print_int :: "int \<Rightarrow> ustring" where
  "print_int i = (if i < 0 then 45 # decimal (nat (- i)) else decimal (nat i))"

definition print_error_detail :: "gerror \<Rightarrow> ui_step" where
  "print_error_detail e ui =
     (let ui1 = print_for_status ERROR (ascii ''SystemError: '' @ error_domain e @ ascii '':'' @ print_int (error_code e)) ui
      in g_print newline
           (case error_message e of
              None \<Rightarrow> ui1
            | Some m \<Rightarrow> print_for_status ERROR m (g_print newline ui1)))"

section \<open>Progress\<close>

definition print_progress :: "test_status \<Rightarrow> ustring \<Rightarrow> ui_step" where
  "print_progress status mark ui =
     (let ui1 = print_with_color (status_to_color status) mark ui;
          row = ui_progress_row ui1 + int (length mark)
      in if ui_progress_row_max ui1 \<le> row
         then (if ui_progress_row_max ui1 \<noteq> -1 \<and> \<not> at_least ui1 VERBOSE_LEVEL_VERBOSE
               then g_print newline ui1 else ui1)\<lparr>ui_progress_row := 0\<rparr>
         else ui1\<lparr>ui_progress_row := row\<rparr>)"

definition print_progress_in_detail :: "console_env \<Rightarrow> test_result \<Rightarrow> ui_step" where
  "print_progress_in_detail E r ui =
     (if \<not> at_least ui VERBOSE_LEVEL_NORMAL \<or> \<not> ui_show_detail_immediately ui then ui
      else
        (let status = result_status r;
             marker = (if ui_progress_row_max ui = -1 then None
                       else Some (replicate (nat (ui_progress_row_max ui)) 61));
             line = (\<lambda>u. case marker of None \<Rightarrow> u | Some m \<Rightarrow> g_print newline (print_for_status status m u));
             ui1 = line (print_result_detail E status r (line (g_print newline ui)))
         in ui1\<lparr>ui_progress_row := 0\<rparr>))"

definition print_status_of_test :: "console_env \<Rightarrow> test_status \<Rightarrow> ustring \<Rightarrow> test_result \<Rightarrow> ui_step" where
  "print_status_of_test E status mark r ui =
     (if \<not> at_least ui VERBOSE_LEVEL_NORMAL then ui
      else print_progress_in_detail E r (print_progress status mark ui))"

section \<open>Starts and completions of tests\<close>

definition utf8_n_spaces :: "(gunichar \<Rightarrow> bool) \<Rightarrow> ustring \<Rightarrow> nat" where
  "utf8_n_spaces iswide s = sum_list (map (\<lambda>c. if iswide c then 2 else if c = 9 then 8 else 1) s)"

function tab_stop :: "nat \<Rightarrow> ustring" where
  "tab_stop n = (if n < 8 * 7 - 1 then 9 # tab_stop (n + 8) else [])"
  by auto
termination by (relation "measure (\<lambda>n. 55 - n)") auto

declare tab_stop.simps [simp del]

text \<open>The name must not be NULL here.\<close>

definition print_test_on_start :: "console_env \<Rightarrow> ustring option \<Rightarrow> markup_test \<Rightarrow> ustring \<Rightarrow> console_ui \<Rightarrow> console_ui option" where
  "print_test_on_start E name t indent ui =
     (let ui1 = (case cut_test_get_description t of
                   None \<Rightarrow> ui
                 | Some d \<Rightarrow> g_print (ascii ''  '' @ indent @ d @ newline) ui)
      in case name of
           None \<Rightarrow> None
         | Some n \<Rightarrow>
             Some (g_print (ascii ''  '' @ indent @ n @ ascii '':'' @
                     tab_stop (utf8_n_spaces (env_iswide E) indent + utf8_n_spaces (env_iswide E) n + 2)) ui1))"

definition console_start_test_case :: "console_env \<Rightarrow> object_id \<Rightarrow> ui_step" where
  "console_start_test_case E k ui =
     (if \<not> at_least ui VERBOSE_LEVEL_VERBOSE then ui
      else g_print (ascii '':'' @ newline) (print_with_color color_green_back (null_text (mt_name (test_of E k))) ui))"

definition console_start_test_iterator :: "console_env \<Rightarrow> object_id \<Rightarrow> ui_step" where
  "console_start_test_iterator E i ui =
     (if \<not> at_least ui VERBOSE_LEVEL_VERBOSE then ui
      else g_print (ascii '':'' @ newline)
             (print_with_color color_blue_back (null_text (mt_name (test_of E i))) (g_print (ascii ''  '') ui)))"

definition console_start_test :: "console_env \<Rightarrow> object_id \<Rightarrow> console_ui \<Rightarrow> console_ui option" where
  "console_start_test E t ui =
     (if \<not> at_least ui VERBOSE_LEVEL_VERBOSE then Some ui
      else print_test_on_start E (mt_name (test_of E t)) (test_of E t) [] ui)"

text \<open>The name of the data of the context, else of the test; without a context there is no data.\<close>

definition context_data_name :: "console_env \<Rightarrow> object_id option \<Rightarrow> ustring option" where
  "context_data_name E c =
     Option.bind c (\<lambda>c'. Option.bind (mc_data (ms_contexts (env_store E) ! c')) (\<lambda>d. ms_data (env_store E) ! d))"

definition console_start_iterated_test :: "console_env \<Rightarrow> object_id \<Rightarrow> object_id option \<Rightarrow> console_ui \<Rightarrow> console_ui option" where
  "console_start_iterated_test E t c ui =
     (if \<not> at_least ui VERBOSE_LEVEL_VERBOSE then Some ui
      else print_test_on_start E
             (case context_data_name E c of Some n \<Rightarrow> Some n | None \<Rightarrow> mt_name (test_of E t))
             (test_of E t) (ascii ''  '') ui)"

definition console_complete_test :: "console_env \<Rightarrow> object_id \<Rightarrow> ui_step" where
  "console_complete_test E t ui =
     (if \<not> at_least ui VERBOSE_LEVEL_VERBOSE then ui
      else g_print (ascii '': ('' @ printf_f (cut_test_get_elapsed (test_of E t)) @ ascii '')'' @ newline) ui)"

section \<open>The end of a run\<close>

definition print_numbered :: "(console_ui \<Rightarrow> console_ui) \<Rightarrow> int \<times> console_ui \<Rightarrow> int \<times> console_ui" where
  "print_numbered detail iu =
     (fst iu + 1, detail (g_print (newline @ print_int (fst iu) @ ascii '') '') (snd iu)))"

definition print_results :: "console_env \<Rightarrow> run_context \<Rightarrow> ui_step" where
  "print_results E rc ui =
     (if ui_show_detail_immediately ui then ui
      else
        (let after_errors = fold (\<lambda>e. print_numbered (print_error_detail e)) (ui_errors ui) (1, ui)
         in snd (fold (\<lambda>r iu. if result_status r = SUCCESS then iu
                              else print_numbered (print_result_detail E (result_status r) r) iu)
                   (cut_run_context_get_results rc) after_errors)))"

definition compute_pass_percentage :: "run_context \<Rightarrow> rat" where
  "compute_pass_percentage rc =
     (if n_tests rc = 0 then 0 else 100 * (of_nat (n_successes rc) / of_nat (n_tests rc)))"

definition format_summary :: "run_context \<Rightarrow> ustring" where
  "format_summary rc =
     print_guint (n_tests rc) @ ascii '' test(s), '' @ print_guint (n_assertions rc) @ ascii '' assertion(s), '' @
     print_guint (n_failures rc) @ ascii '' failure(s), '' @ print_guint (n_errors rc) @ ascii '' error(s), '' @
     print_guint (n_pendings rc) @ ascii '' pending(s), '' @ print_guint (n_omissions rc) @ ascii '' omission(s), '' @
     print_guint (n_notifications rc) @ ascii '' notification(s)''"

definition print_summary :: "run_context \<Rightarrow> ui_step" where
  "print_summary rc ui =
     (let c = status_to_color (cut_run_context_get_status rc)
      in g_print newline
           (print_with_color c (printf_g (compute_pass_percentage rc) @ ascii ''% passed'')
             (g_print newline (print_with_color c (format_summary rc) ui))))"

section \<open>Notification\<close>

definition icon_names :: "test_status \<Rightarrow> bool \<Rightarrow> ustring list" where
  "icon_names status success =
     [status_to_name status] @
     (if success then [ascii ''pass'']
      else if status = FAILURE then [ascii ''error'']
      else if status = ERROR then [ascii ''failure'']
      else []) @ [ascii ''default'']"

definition search_icon_path :: "console_env \<Rightarrow> test_status \<Rightarrow> bool \<Rightarrow> ustring option" where
  "search_icon_path E status success =
     find (env_is_regular E)
       (map (\<lambda>n. g_build_filename [env_icons_dir E, ascii ''kinotan'', n @ ascii ''.png'']) (icon_names status success))"

definition run_notify_command :: "console_env \<Rightarrow> ustring list \<Rightarrow> ui_step" where
  "run_notify_command E args ui =
     (case env_spawn_error E args of
        None \<Rightarrow> ui\<lparr>ui_spawned := ui_spawned ui @ [args]\<rparr>
      | Some message \<Rightarrow>
          g_print (ascii ''failed to run <'' @ null_text (ui_notify_command ui) @ ascii ''>: <'' @
                   g_strjoin [32] args @ ascii ''>: <'' @ message @ ascii ''>'' @ newline) ui)"

definition format_notify_message :: "console_env \<Rightarrow> run_context \<Rightarrow> ustring" where
  "format_notify_message E rc =
     status_to_label (cut_run_context_get_status rc) @ ascii '' ['' @ printf_g (compute_pass_percentage rc) @
     ascii ''%] ('' @ printf_g (env_elapsed E) @ ascii ''s)''"

definition notify_by_growlnotify :: "console_env \<Rightarrow> run_context \<Rightarrow> bool \<Rightarrow> ui_step" where
  "notify_by_growlnotify E rc success ui =
     run_notify_command E
       ([null_text (ui_notify_command ui), ascii ''--message'', format_summary rc, ascii ''--priority'',
         if success then ascii ''Normal'' else ascii ''Emergency''] @
        (case search_icon_path E (cut_run_context_get_status rc) success of
           None \<Rightarrow> [] | Some icon \<Rightarrow> [ascii ''--image'', icon]) @
        [format_notify_message E rc]) ui"

definition notify_by_notify_send :: "console_env \<Rightarrow> run_context \<Rightarrow> bool \<Rightarrow> ui_step" where
  "notify_by_notify_send E rc success ui =
     run_notify_command E
       ([null_text (ui_notify_command ui), ascii ''--expire-time'', ascii ''5000'', ascii ''--urgency'',
         if success then ascii ''normal'' else ascii ''critical''] @
        (case search_icon_path E (cut_run_context_get_status rc) success of
           None \<Rightarrow> [] | Some icon \<Rightarrow> [ascii ''--icon'', icon]) @
        [format_notify_message E rc, escape_text (env_markup E) (format_summary rc)]) ui"

definition notify :: "console_env \<Rightarrow> run_context \<Rightarrow> bool \<Rightarrow> ui_step" where
  "notify E rc success ui =
     (if ui_notify_command ui = Some (ascii ''notify-send'') then notify_by_notify_send E rc success ui
      else if ui_notify_command ui = Some (ascii ''growlnotify'') then notify_by_growlnotify E rc success ui
      else ui)"

definition console_complete_run :: "console_env \<Rightarrow> run_context \<Rightarrow> bool \<Rightarrow> ui_step" where
  "console_complete_run E rc success ui =
     (let ui1 = notify E rc success ui
      in if \<not> at_least ui1 VERBOSE_LEVEL_NORMAL then ui1
         else
           (let ui2 = (if ui_verbose_level ui1 = VERBOSE_LEVEL_NORMAL then g_print newline ui1 else ui1);
                ui3 = print_results E rc ui2;
                ui4 = g_print (newline @ ascii ''Finished in '' @ printf_f (env_elapsed E) @
                        ascii '' seconds (total: '' @ printf_f (total_elapsed rc) @ ascii '' seconds)'' @
                        newline @ newline) ui3
            in print_summary rc ui4))"

definition cb_error :: "gerror \<Rightarrow> ui_step" where
  "cb_error e ui =
     (let ui1 = (if \<not> at_least ui VERBOSE_LEVEL_NORMAL then ui
                 else
                   (let u = print_with_color (status_to_color ERROR) (ascii ''E'') ui
                    in if ui_show_detail_immediately u then print_error_detail e (g_print newline u) else u))
      in ui1\<lparr>ui_errors := ui_errors ui1 @ [e]\<rparr>)"

section \<open>The listener\<close>

text \<open>The callbacks that \<open>connect_to_run_context\<close> connects; the other signals reach no callback.\<close>

definition gerror_of :: "console_env \<Rightarrow> ustring \<Rightarrow> gerror" where
  "gerror_of E m =
     \<lparr>error_domain = fst (env_error E m), error_code = snd (env_error E m), error_message = Some m\<rparr>"

primrec status_mark :: "test_status \<Rightarrow> ustring" where
  "status_mark SUCCESS = ascii ''.''"
| "status_mark NOTIFICATION = ascii ''N''"
| "status_mark OMISSION = ascii ''O''"
| "status_mark PENDING = ascii ''P''"
| "status_mark FAILURE = ascii ''F''"
| "status_mark ERROR = ascii ''E''"
| "status_mark CRASH = ascii ''!''"

definition cb_success_test :: "ui_step" where
  "cb_success_test ui =
     (if \<not> at_least ui VERBOSE_LEVEL_NORMAL then ui else print_progress SUCCESS (ascii ''.'') ui)"

fun console_callback :: "console_env \<Rightarrow> run_context \<Rightarrow> run_signal \<Rightarrow> console_ui \<Rightarrow> console_ui option" where
  "console_callback E rc (Start_Test_Case k) ui = Some (console_start_test_case E k ui)"
| "console_callback E rc (Start_Test_Iterator i) ui = Some (console_start_test_iterator E i ui)"
| "console_callback E rc (Start_Test t c) ui = console_start_test E t ui"
| "console_callback E rc (Start_Iterated_Test t c) ui = console_start_iterated_test E t c ui"
| "console_callback E rc (Status_Test s t c r) ui =
     Some (if s = SUCCESS then cb_success_test ui else print_status_of_test E s (status_mark s) r ui)"
| "console_callback E rc (Crash_Test_Suite s r) ui = Some (print_status_of_test E CRASH (status_mark CRASH) r ui)"
| "console_callback E rc (Complete_Test t c b) ui = Some (console_complete_test E t ui)"
| "console_callback E rc (Complete_Iterated_Test t c b) ui = Some (console_complete_test E t ui)"
| "console_callback E rc (Complete_Run b) ui = Some (console_complete_run E rc b ui)"
| "console_callback E rc (Error_Signal m) ui = Some (cb_error (gerror_of E m) ui)"
| "console_callback E rc sig ui = Some ui"

text \<open>What is printed for the signals of a run, each with the surroundings and the run context at its time.\<close>

fun console_run :: "(console_env \<times> run_context \<times> run_signal) list \<Rightarrow> console_ui \<Rightarrow> console_ui option" where
  "console_run [] ui = Some ui"
| "console_run ((E, rc, sig) # rest) ui =
     (case console_callback E rc sig ui of None \<Rightarrow> None | Some ui' \<Rightarrow> console_run rest ui')"

end
