(* ===== verification/Console_Properties.thy ===== *)
theory Console_Properties
  imports Console_UI
begin

text \<open>
  Properties of the console: what it prints is appended, so every piece of it is a text; the details of a
  run are numbered, the progress is cut into rows, a silent console prints nothing, and colors only
  decorate what is printed without them.
\<close>

section \<open>Texts\<close>

lemma g_print_fields [simp]:
  "ui_output (g_print s ui) = ui_output ui @ s" "ui_use_color (g_print s ui) = ui_use_color ui"
  "ui_verbose_level (g_print s ui) = ui_verbose_level ui" "ui_notify_command (g_print s ui) = ui_notify_command ui"
  "ui_errors (g_print s ui) = ui_errors ui" "ui_progress_row (g_print s ui) = ui_progress_row ui"
  "ui_progress_row_max (g_print s ui) = ui_progress_row_max ui"
  "ui_show_detail_immediately (g_print s ui) = ui_show_detail_immediately ui"
  "ui_spawned (g_print s ui) = ui_spawned ui"
  by (simp_all add: g_print_def)

lemma g_print_g_print [simp]: "g_print s (g_print t ui) = g_print (t @ s) ui"
  by (simp add: g_print_def)

lemma g_print_nothing [simp]: "g_print [] ui = ui"
  by (simp add: g_print_def)

definition color_text :: "bool \<Rightarrow> ustring \<Rightarrow> ustring \<Rightarrow> ustring" where
  "color_text uc c s = (if uc then c @ s @ color_normal else s)"

lemma print_with_color_text: "print_with_color c s ui = g_print (color_text (ui_use_color ui) c s) ui"
  by (simp add: print_with_color_def color_text_def)

lemma print_for_status_text:
  "print_for_status status s ui = g_print (color_text (ui_use_color ui) (status_to_color status) s) ui"
  by (simp add: print_for_status_def print_with_color_text)

text \<open>A step that appends a text which depends on the use of colors only.\<close>

definition appends :: "ui_step \<Rightarrow> (bool \<Rightarrow> ustring) \<Rightarrow> bool" where
  "appends f text_of \<longleftrightarrow> (\<forall>ui. f ui = g_print (text_of (ui_use_color ui)) ui)"

lemma appends_fold:
  "(\<And>x. x \<in> set xs \<Longrightarrow> appends (f x) (t x)) \<Longrightarrow> appends (fold f xs) (\<lambda>uc. concat (map (\<lambda>x. t x uc) xs))"
  by (induction xs) (simp_all add: appends_def)

definition attribute_text :: "test_status \<Rightarrow> ustring \<times> ustring \<Rightarrow> bool \<Rightarrow> ustring" where
  "attribute_text status kv uc =
     newline @ color_text uc (status_to_color status) (ascii ''  '' @ fst kv @ ascii '': '' @ snd kv)"

lemma attribute_appends: "appends (print_each_attribute status kv) (attribute_text status kv)"
  by (simp add: appends_def print_each_attribute_def attribute_text_def print_with_color_text)

lemma attributes_append:
  "appends (print_test_attributes status t) (\<lambda>uc. concat (map (\<lambda>kv. attribute_text status kv uc) (mt_attributes t)))"
  using appends_fold [of "mt_attributes t" "print_each_attribute status" "attribute_text status"] attribute_appends
  by (simp add: appends_def print_test_attributes_def)

definition message_text :: "console_env \<Rightarrow> test_result \<Rightarrow> bool \<Rightarrow> ustring" where
  "message_text E r uc =
     (case (uc, result_expected r, result_actual r) of
        (True, Some expected, Some actual) \<Rightarrow>
          option_text (\<lambda>m. newline @ m) (result_user_message r) @
          option_text (\<lambda>m. newline @ m) (result_system_message r) @ newline @ ascii ''expected: <'' @
          color_text True color_green expected @ ascii ''>'' @ newline @ ascii ''  actual: <'' @
          color_text True color_red actual @ ascii ''>'' @ colored_difference E True expected actual @ newline
      | _ \<Rightarrow> option_text (\<lambda>m. newline @ m) (fst (cut_test_result_get_message (env_tools E) r)) @ newline)"

lemma message_appends: "appends (print_result_message E r) (message_text E r)"
  by (auto simp: appends_def print_result_message_def message_text_def print_for_status_text split: option.split bool.split)

definition backtrace_text :: "test_result \<Rightarrow> ustring" where
  "backtrace_text r = concat (map (\<lambda>e. cut_backtrace_entry_format_string e @ newline) (result_backtrace r))"

lemma backtrace_appends: "appends (print_result_backtrace r) (\<lambda>uc. backtrace_text r)"
  using appends_fold [of "result_backtrace r" "\<lambda>e. g_print (cut_backtrace_entry_format_string e @ newline)"
      "\<lambda>e uc. cut_backtrace_entry_format_string e @ newline"]
  by (simp add: appends_def print_result_backtrace_def backtrace_text_def)

definition shown_name :: "console_env \<Rightarrow> test_result \<Rightarrow> ustring" where
  "shown_name E r =
     null_text
       (case cut_test_result_get_test_name E r of
          Some n \<Rightarrow> Some n
        | None \<Rightarrow> (case cut_test_result_get_test_case_name E r of
                     Some n \<Rightarrow> Some n
                   | None \<Rightarrow> cut_test_result_get_test_suite_name E r))"

definition detail_text :: "console_env \<Rightarrow> test_result \<Rightarrow> bool \<Rightarrow> ustring" where
  "detail_text E r uc =
     color_text uc (status_to_color (result_status r)) (status_to_label (result_status r)) @ ascii '': '' @ shown_name E r @
     option_text (\<lambda>t. concat (map (\<lambda>kv. attribute_text (result_status r) kv uc) (mt_attributes (test_of E t)))) (result_test r) @
     message_text E r uc @ backtrace_text r"

lemma detail_appends: "appends (print_result_detail E (result_status r) r) (detail_text E r)"
  using attributes_append message_appends [of E r] backtrace_appends [of r]
  by (auto simp: appends_def print_result_detail_def detail_text_def print_for_status_text shown_name_def Let_def
      option_text_def split: option.split)

definition error_text :: "gerror \<Rightarrow> bool \<Rightarrow> ustring" where
  "error_text e uc =
     color_text uc color_yellow (ascii ''SystemError: '' @ error_domain e @ ascii '':'' @ print_int (error_code e)) @
     option_text (\<lambda>m. newline @ color_text uc color_yellow m) (error_message e) @ newline"

lemma error_appends: "appends (print_error_detail e) (error_text e)"
  by (auto simp: appends_def print_error_detail_def error_text_def print_for_status_text option_text_def Let_def
      split: option.split)

section \<open>The details at the end of a run\<close>

text \<open>Texts numbered from a number on.\<close>

fun numbered :: "int \<Rightarrow> ustring list \<Rightarrow> ustring" where
  "numbered i [] = []"
| "numbered i (s # ss) = newline @ print_int i @ ascii '') '' @ s @ numbered (i + 1) ss"

lemma numbered_append: "numbered i (ss @ ts) = numbered i ss @ numbered (i + int (length ss)) ts"
  by (induction i ss rule: numbered.induct) (simp_all add: algebra_simps)

lemma print_numbered_text:
  assumes "appends f t"
  shows "print_numbered f (i, ui) = (i + 1, g_print (newline @ print_int i @ ascii '') '' @ t (ui_use_color ui)) ui)"
  using assms by (simp add: print_numbered_def appends_def)

lemma errors_numbered:
  "fold (\<lambda>e. print_numbered (print_error_detail e)) es (i, ui) =
   (i + int (length es), g_print (numbered i (map (\<lambda>e. error_text e (ui_use_color ui)) es)) ui)"
  by (induction es arbitrary: i ui) (simp_all add: print_numbered_text [OF error_appends])

lemma results_numbered:
  "snd (fold (\<lambda>r iu. if result_status r = SUCCESS then iu
                     else print_numbered (print_result_detail E (result_status r) r) iu) rs (i, ui)) =
   g_print (numbered i (map (\<lambda>r. detail_text E r (ui_use_color ui)) (filter (\<lambda>r. result_status r \<noteq> SUCCESS) rs))) ui"
  by (induction rs arbitrary: i ui) (simp_all add: print_numbered_text [OF detail_appends])

definition details :: "console_env \<Rightarrow> run_context \<Rightarrow> gerror list \<Rightarrow> bool \<Rightarrow> ustring list" where
  "details E rc es uc =
     map (\<lambda>e. error_text e uc) es @
     map (\<lambda>r. detail_text E r uc) (filter (\<lambda>r. result_status r \<noteq> SUCCESS) (cut_run_context_get_results rc))"

lemma print_results_text:
  "print_results E rc ui =
   (if ui_show_detail_immediately ui then ui else g_print (numbered 1 (details E rc (ui_errors ui) (ui_use_color ui))) ui)"
  by (simp add: print_results_def errors_numbered results_numbered details_def numbered_append Let_def)

definition end_text :: "console_env \<Rightarrow> run_context \<Rightarrow> bool \<Rightarrow> ustring" where
  "end_text E rc uc =
     newline @ ascii ''Finished in '' @ printf_f (env_elapsed E) @ ascii '' seconds (total: '' @
     printf_f (total_elapsed rc) @ ascii '' seconds)'' @ newline @ newline @
     color_text uc (status_to_color (cut_run_context_get_status rc)) (format_summary rc) @ newline @
     color_text uc (status_to_color (cut_run_context_get_status rc))
       (printf_g (compute_pass_percentage rc) @ ascii ''% passed'') @ newline"

lemma notify_fields:
  "ui_use_color (notify E rc b ui) = ui_use_color ui" "ui_verbose_level (notify E rc b ui) = ui_verbose_level ui"
  "ui_errors (notify E rc b ui) = ui_errors ui"
  "ui_show_detail_immediately (notify E rc b ui) = ui_show_detail_immediately ui"
  by (simp_all add: notify_def notify_by_notify_send_def notify_by_growlnotify_def run_notify_command_def
      split: option.split)

text \<open>C20: When the details are shown at the end, the console prints every error and then every
  result of the run that is not a success, each once and in order, numbered from 1, before the times, the
  counters and the percentage.\<close>

theorem console_details_numbered:
  assumes "\<not> ui_show_detail_immediately ui" "ui_verbose_level ui = VERBOSE_LEVEL_NORMAL"
  shows "ui_output (console_complete_run E rc b ui) = ui_output (notify E rc b ui) @ newline @
    numbered 1 (details E rc (ui_errors ui) (ui_use_color ui)) @ end_text E rc (ui_use_color ui)"
  using assms
  by (simp add: console_complete_run_def print_results_text print_summary_def print_with_color_text end_text_def
      notify_fields Let_def)

section \<open>Rows of marks\<close>

lemma success_mark:
  assumes "ui_verbose_level ui = VERBOSE_LEVEL_NORMAL" "ui_progress_row_max ui = int m"
    and "ui_progress_row ui = int (k mod m)" "0 < m"
  shows "cb_success_test ui =
    (g_print (color_text (ui_use_color ui) color_green (ascii ''.'') @ (if Suc k mod m = 0 then newline else [])) ui)
      \<lparr>ui_progress_row := int (Suc k mod m)\<rparr>"
proof (cases "Suc (k mod m) = m")
  case True
  then have "Suc k mod m = 0" by (simp add: mod_Suc)
  moreover have "int m \<le> int (k mod m) + 1" using True by linarith
  ultimately show ?thesis
    using assms by (simp add: cb_success_test_def print_progress_def print_with_color_text Let_def ascii_def)
next
  case False
  then have "Suc k mod m = Suc (k mod m)" by (simp add: mod_Suc)
  moreover have "\<not> int m \<le> int (k mod m) + 1"
    using False mod_less_divisor [OF assms(4), of k] by linarith
  ultimately show ?thesis
    using assms by (simp add: cb_success_test_def print_progress_def print_with_color_text Let_def ascii_def)
qed

definition success_moment :: "console_env \<times> run_context \<times> run_signal \<Rightarrow> bool" where
  "success_moment m \<longleftrightarrow> (\<exists>t c r. snd (snd m) = Status_Test SUCCESS t c r)"

text \<open>\<open>n\<close> marks in rows of \<open>m\<close>, after \<open>k\<close> others.\<close>

definition mark_rows :: "bool \<Rightarrow> nat \<Rightarrow> nat \<Rightarrow> nat \<Rightarrow> ustring" where
  "mark_rows uc m k n =
     concat (map (\<lambda>j. color_text uc color_green (ascii ''.'') @ (if Suc j mod m = 0 then newline else [])) [k..<k + n])"

lemma mark_rows_Suc:
  "mark_rows uc m k (Suc n) =
   color_text uc color_green (ascii ''.'') @ (if Suc k mod m = 0 then newline else []) @ mark_rows uc m (Suc k) n"
proof -
  have "[k..<k + Suc n] = k # [Suc k..<Suc k + n]" by (simp add: upt_conv_Cons del: upt_Suc)
  then show ?thesis by (simp add: mark_rows_def del: upt_Suc)
qed

lemma success_rows:
  assumes "list_all success_moment ms"
    and "ui_verbose_level ui = VERBOSE_LEVEL_NORMAL" "ui_progress_row_max ui = int m" "0 < m"
    and "ui_progress_row ui = int (k mod m)"
  shows "console_run ms ui = Some
    ((g_print (mark_rows (ui_use_color ui) m k (length ms)) ui)\<lparr>ui_progress_row := int ((k + length ms) mod m)\<rparr>)"
  using assms
proof (induction ms arbitrary: ui k)
  case Nil
  then show ?case by (simp add: g_print_def mark_rows_def)
next
  case (Cons x ms)
  obtain E rc sig where x: "x = (E, rc, sig)" by (cases x)
  then obtain t c r where sig: "sig = Status_Test SUCCESS t c r" using Cons.prems(1) by (auto simp: success_moment_def)
  define u where "u = cb_success_test ui"
  note mark = success_mark [OF Cons.prems(2,3,5,4)]
  have "console_run ms u = Some
    ((g_print (mark_rows (ui_use_color u) m (Suc k) (length ms)) u)\<lparr>ui_progress_row := int ((Suc k + length ms) mod m)\<rparr>)"
    by (rule Cons.IH) (use Cons.prems in \<open>simp_all add: u_def mark\<close>)
  then have "console_run (x # ms) ui = Some
    ((g_print (mark_rows (ui_use_color u) m (Suc k) (length ms)) u)\<lparr>ui_progress_row := int ((Suc k + length ms) mod m)\<rparr>)"
    by (simp add: x sig u_def)
  then show ?case
    by (simp add: u_def mark mark_rows_Suc g_print_def)
qed

text \<open>C40: In a run of successes the console prints one mark for each, and ends the row after each
  \<open>progress_row_max\<close> of them.\<close>

theorem console_progress_rows:
  assumes "list_all success_moment ms" "ui_verbose_level ui = VERBOSE_LEVEL_NORMAL"
    and "ui_progress_row_max ui = int m" "0 < m" "ui_progress_row ui = 0"
  shows "\<exists>ui'. console_run ms ui = Some ui' \<and>
    ui_output ui' = ui_output ui @ mark_rows (ui_use_color ui) m 0 (length ms) \<and>
    ui_progress_row ui' = int (length ms mod m)"
  using success_rows [OF assms(1-4), of 0] assms(5) by simp

section \<open>Silence\<close>

text \<open>Below the normal level nothing is printed and no name is looked at.\<close>

lemma silent_console:
  assumes "\<not> at_least ui VERBOSE_LEVEL_NORMAL" "ui_notify_command ui = None"
  shows "\<exists>ui'. console_run ms ui = Some ui' \<and> ui_output ui' = ui_output ui"
proof -
  have silent: "\<exists>v. console_callback E rc sig u = Some v \<and> ui_output v = ui_output u \<and>
      ui_verbose_level v = ui_verbose_level u \<and> ui_notify_command v = ui_notify_command u"
    if "\<not> at_least u VERBOSE_LEVEL_NORMAL" "ui_notify_command u = None" for E rc sig u
    using that
    by (cases sig) (auto simp: console_start_test_case_def console_start_test_iterator_def console_start_test_def console_start_iterated_test_def
        cb_success_test_def print_status_of_test_def console_complete_test_def console_complete_run_def notify_def cb_error_def Let_def)
  show ?thesis
    using assms
  proof (induction ms arbitrary: ui)
    case (Cons x ms)
    obtain E rc sig where x: "x = (E, rc, sig)" by (cases x)
    obtain v where v: "console_callback E rc sig ui = Some v" "ui_output v = ui_output ui"
      "ui_verbose_level v = ui_verbose_level ui" "ui_notify_command v = ui_notify_command ui"
      using silent [OF Cons.prems] by blast
    then show ?case using Cons.IH [of v] Cons.prems by (simp add: x)
  qed simp
qed

text \<open>Results of a test case or of an iterator reach no callback: with the details shown at once, which
  is the default, they are counted and never shown.\<close>

definition unseen :: "console_env \<times> run_context \<times> run_signal \<Rightarrow> bool" where
  "unseen m \<longleftrightarrow> (case snd (snd m) of
     Status_In_Test_Case s k r \<Rightarrow> True | Status_Test_Case s k r \<Rightarrow> True | Status_Test_Iterator s i r \<Rightarrow> True | _ \<Rightarrow> False)"

lemma results_in_test_case_not_shown: "console_run (filter (\<lambda>m. \<not> unseen m) ms) ui = console_run ms ui"
proof (induction ms arbitrary: ui)
  case (Cons x ms)
  obtain E rc sig where x: "x = (E, rc, sig)" by (cases x)
  then show ?case using Cons by (cases sig) (auto simp: unseen_def split: option.split)
qed simp

section \<open>Colors\<close>

text \<open>A text with some pieces in a color, and the same text without.\<close>

inductive decorated :: "ustring \<Rightarrow> ustring \<Rightarrow> bool" where
  decorated_nil: "decorated [] []"
| decorated_plain: "decorated a b \<Longrightarrow> decorated (a @ s) (b @ s)"
| decorated_color:
    "decorated a b \<Longrightarrow>
     c \<in> {color_green, color_cyan, color_blue, color_magenta, color_red, color_yellow, CRASH_COLOR,
          color_green_back, color_blue_back} \<Longrightarrow>
     decorated (a @ c @ s @ color_normal) (b @ s)"

lemma decorated_same: "decorated s s"
  using decorated_plain [OF decorated_nil, of s] by simp

lemma decorated_append: "decorated c d \<Longrightarrow> decorated a b \<Longrightarrow> decorated (a @ c) (b @ d)"
proof (induction rule: decorated.induct)
  case (decorated_plain a' b' s)
  then show ?case using decorated.decorated_plain [of "a @ a'" "b @ b'" s] by simp
next
  case (decorated_color a' b' c s)
  then show ?case using decorated.decorated_color [of "a @ a'" "b @ b'" c s] by simp
qed simp

lemma decorated_piece:
  "c \<in> {color_green, color_cyan, color_blue, color_magenta, color_red, color_yellow, CRASH_COLOR,
        color_green_back, color_blue_back} \<Longrightarrow>
   decorated (color_text True c s) (color_text False c s)"
  using decorated_color [OF decorated_nil, of c s] by (simp add: color_text_def)

lemma decorated_status: "decorated (color_text True (status_to_color x) s) (color_text False (status_to_color x) s)"
  by (rule decorated_piece) (cases x; simp)

lemma decorated_concat:
  "(\<And>x. x \<in> set xs \<Longrightarrow> decorated (f x) (g x)) \<Longrightarrow> decorated (concat (map f xs)) (concat (map g xs))"
  by (induction xs) (auto intro: decorated_append decorated_nil)

lemmas decorations = decorated_append decorated_same decorated_status decorated_piece decorated_concat

definition one_text :: "test_result \<Rightarrow> bool" where
  "one_text r \<longleftrightarrow> result_expected r = None \<or> result_actual r = None"

lemma detail_decorated:
  assumes "one_text r"
  shows "decorated (detail_text E r True) (detail_text E r False)"
proof -
  have "message_text E r True = message_text E r False"
    using assms by (auto simp: one_text_def message_text_def split: option.split)
  then show ?thesis
    unfolding detail_text_def attribute_text_def option_text_def
    by (cases "result_test r") (auto intro!: decorations)
qed

lemma error_decorated: "decorated (error_text e True) (error_text e False)"
  unfolding error_text_def option_text_def by (cases "error_message e") (auto intro!: decorations)

lemma numbered_decorated:
  "list_all2 decorated ss ts \<Longrightarrow> decorated (numbered i ss) (numbered i ts)"
proof (induction ss ts arbitrary: i rule: list_all2_induct)
  case (Cons s ss t ts)
  then show ?case by (auto intro!: decorations)
qed (simp add: decorated_nil)

text \<open>Two consoles that differ in the use of colors only.\<close>

definition alike :: "console_ui \<Rightarrow> console_ui \<Rightarrow> bool" where
  "alike u v \<longleftrightarrow> decorated (ui_output u) (ui_output v) \<and> ui_use_color u \<and> \<not> ui_use_color v \<and>
     ui_verbose_level u = ui_verbose_level v \<and> ui_notify_command u = ui_notify_command v \<and>
     ui_errors u = ui_errors v \<and> ui_progress_row u = ui_progress_row v \<and>
     ui_progress_row_max u = ui_progress_row_max v \<and>
     ui_show_detail_immediately u = ui_show_detail_immediately v \<and> ui_spawned u = ui_spawned v"

lemma alike_print: "alike u v \<Longrightarrow> decorated s t \<Longrightarrow> alike (g_print s u) (g_print t v)"
  by (simp add: alike_def decorated_append)

lemma alike_updates:
  "alike u v \<Longrightarrow> alike (u\<lparr>ui_progress_row := n\<rparr>) (v\<lparr>ui_progress_row := n\<rparr>)"
  "alike u v \<Longrightarrow> alike (u\<lparr>ui_errors := es\<rparr>) (v\<lparr>ui_errors := es\<rparr>)"
  "alike u v \<Longrightarrow> alike (u\<lparr>ui_spawned := ss\<rparr>) (v\<lparr>ui_spawned := ss\<rparr>)"
  by (simp_all add: alike_def)

lemma alike_color:
  "alike u v \<Longrightarrow> c \<in> {color_green, color_cyan, color_blue, color_magenta, color_red, color_yellow, CRASH_COLOR,
     color_green_back, color_blue_back} \<Longrightarrow> alike (print_with_color c s u) (print_with_color c s v)"
  unfolding print_with_color_text by (rule alike_print) (auto simp: alike_def intro: decorated_piece)

lemma alike_status: "alike u v \<Longrightarrow> alike (print_for_status x s u) (print_for_status x s v)"
  unfolding print_for_status_text by (rule alike_print) (auto simp: alike_def intro: decorated_status)

lemma alike_appends:
  "appends f t \<Longrightarrow> decorated (t True) (t False) \<Longrightarrow> alike u v \<Longrightarrow> alike (f u) (f v)"
  by (simp add: appends_def alike_print) (simp add: alike_def decorated_append)

lemma alike_detail: "one_text r \<Longrightarrow> alike u v \<Longrightarrow>
  alike (print_result_detail E (result_status r) r u) (print_result_detail E (result_status r) r v)"
  by (rule alike_appends [OF detail_appends detail_decorated])

lemma alike_error: "alike u v \<Longrightarrow> alike (print_error_detail e u) (print_error_detail e v)"
  by (rule alike_appends [OF error_appends error_decorated])

lemma alike_plain: "alike u v \<Longrightarrow> alike (g_print s u) (g_print s v)"
  by (rule alike_print [OF _ decorated_same])

lemma alike_level: "alike u v \<Longrightarrow> ui_verbose_level v = ui_verbose_level u"
  by (simp add: alike_def)

lemma alike_progress:
  assumes "alike u v"
  shows "alike (print_progress x s u) (print_progress x s v)"
proof -
  define u1 v1 where uv: "u1 = print_with_color (status_to_color x) s u" "v1 = print_with_color (status_to_color x) s v"
  have n: "alike u1 v1"
    using alike_status [OF assms, of x s] by (simp add: print_for_status_def uv)
  then have m: "ui_progress_row v1 = ui_progress_row u1" "ui_progress_row_max v1 = ui_progress_row_max u1"
    "ui_verbose_level v1 = ui_verbose_level u1"
    by (simp_all add: alike_def)
  show ?thesis
    unfolding print_progress_def Let_def uv [symmetric] m
    by (simp add: n alike_updates alike_plain)
qed

lemma alike_progress_detail:
  assumes "alike u v" "one_text r"
  shows "alike (print_progress_in_detail E r u) (print_progress_in_detail E r v)"
proof -
  have m: "ui_progress_row_max v = ui_progress_row_max u"
    "ui_show_detail_immediately v = ui_show_detail_immediately u" "ui_verbose_level v = ui_verbose_level u"
    using assms(1) by (simp_all add: alike_def)
  have line: "alike (case mk of None \<Rightarrow> x | Some k \<Rightarrow> g_print newline (print_for_status s k x))
      (case mk of None \<Rightarrow> y | Some k \<Rightarrow> g_print newline (print_for_status s k y))" if "alike x y" for x y mk s
    using that by (cases mk) (simp_all add: alike_plain alike_status)
  show ?thesis
    unfolding print_progress_in_detail_def Let_def m
    by (simp add: assms alike_updates alike_plain alike_detail line del: One_nat_def)
qed

lemma alike_notify:
  assumes "alike u v"
  shows "alike (notify E rc b u) (notify E rc b v)"
proof -
  have m: "ui_notify_command v = ui_notify_command u" "ui_spawned v = ui_spawned u"
    using assms by (simp_all add: alike_def)
  have run: "alike (run_notify_command E args u) (run_notify_command E args v)" for args
    unfolding run_notify_command_def m
    by (cases "env_spawn_error E args") (simp_all add: assms alike_plain alike_updates)
  show ?thesis
    unfolding notify_def notify_by_notify_send_def notify_by_growlnotify_def m by (simp add: run assms)
qed

lemma alike_complete:
  assumes "alike u v" "list_all one_text (cut_run_context_get_results rc)"
  shows "alike (console_complete_run E rc b u) (console_complete_run E rc b v)"
proof -
  define u1 v1 where uv: "u1 = notify E rc b u" "v1 = notify E rc b v"
  have n: "alike u1 v1" unfolding uv by (rule alike_notify [OF assms(1)])
  then have m: "ui_verbose_level v1 = ui_verbose_level u1" by (rule alike_level)
  have results: "alike (print_results E rc x) (print_results E rc y)" if "alike x y" for x y
  proof -
    have "list_all2 decorated (details E rc es True) (details E rc es False)" for es
      using assms(2)
      by (auto simp: details_def list_all2_append list_all2_map1 list_all2_map2 list_all_iff list.rel_refl_strong
          intro!: list_all2_appendI list.rel_refl_strong error_decorated detail_decorated)
    then show ?thesis
      using that unfolding print_results_text
      by (auto simp: alike_def intro!: decorated_append numbered_decorated)
  qed
  have summary: "alike (print_summary rc x) (print_summary rc y)" if "alike x y" for x y
    unfolding print_summary_def Let_def
    by (intro alike_plain alike_status [unfolded print_for_status_def] that)
  show ?thesis
    unfolding console_complete_run_def Let_def uv [symmetric] m
    using n by (auto intro!: summary alike_plain results)
qed

lemma alike_start:
  assumes "alike u v"
  shows "rel_option alike (print_test_on_start E name t indent u) (print_test_on_start E name t indent v)"
  using assms
  by (cases name; cases "cut_test_get_description t") (simp_all add: print_test_on_start_def alike_plain Let_def)

definition one_text_moment :: "console_env \<times> run_context \<times> run_signal \<Rightarrow> bool" where
  "one_text_moment m \<longleftrightarrow> (case m of (E, rc, sig) \<Rightarrow>
     (case sig of
        Status_Test s t c r \<Rightarrow> one_text r
      | Crash_Test_Suite s r \<Rightarrow> one_text r
      | Complete_Run b \<Rightarrow> list_all one_text (cut_run_context_get_results rc)
      | _ \<Rightarrow> True))"

lemma alike_callback:
  assumes "alike u v" "one_text_moment (E, rc, sig)"
  shows "rel_option alike (console_callback E rc sig u) (console_callback E rc sig v)"
proof -
  have level: "ui_verbose_level v = ui_verbose_level u" "ui_show_detail_immediately v = ui_show_detail_immediately u"
    "ui_errors v = ui_errors u"
    using assms(1) by (simp_all add: alike_def)
  have status: "alike (print_status_of_test E s mark r u) (print_status_of_test E s mark r v)" if "one_text r" for s mark r
    unfolding print_status_of_test_def level by (simp add: assms(1) that alike_progress alike_progress_detail)
  have success: "alike (cb_success_test u) (cb_success_test v)"
    unfolding cb_success_test_def level by (simp add: assms(1) alike_progress)
  have mark: "alike (print_with_color (status_to_color ERROR) s u) (print_with_color (status_to_color ERROR) s v)" for s
    by (rule alike_status [unfolded print_for_status_def, OF assms(1)])
  have error: "alike (cb_error e u) (cb_error e v)" for e
  proof -
    define x y where xy: "x = print_with_color (status_to_color ERROR) (ascii ''E'') u"
      "y = print_with_color (status_to_color ERROR) (ascii ''E'') v"
    have n: "alike x y" unfolding xy by (rule mark)
    have m: "ui_show_detail_immediately y = ui_show_detail_immediately x" using n by (simp add: alike_def)
    define x1 y1 where xy1: "x1 = (if \<not> at_least u VERBOSE_LEVEL_NORMAL then u
        else if ui_show_detail_immediately x then print_error_detail e (g_print newline x) else x)"
      "y1 = (if \<not> at_least u VERBOSE_LEVEL_NORMAL then v
        else if ui_show_detail_immediately x then print_error_detail e (g_print newline y) else y)"
    have n1: "alike x1 y1" unfolding xy1 by (simp add: n assms(1) alike_error alike_plain)
    then have "ui_errors y1 = ui_errors x1" by (simp add: alike_def)
    then have "alike (x1\<lparr>ui_errors := ui_errors x1 @ [e]\<rparr>) (y1\<lparr>ui_errors := ui_errors y1 @ [e]\<rparr>)"
      using alike_updates(2) [OF n1] by simp
    then show ?thesis
      unfolding cb_error_def Let_def level xy [symmetric] m xy1 [symmetric] .
  qed
  have tests: "alike (console_start_test_case E k u) (console_start_test_case E k v)"
    "alike (console_start_test_iterator E k u) (console_start_test_iterator E k v)"
    "alike (console_complete_test E k u) (console_complete_test E k v)" for k
    unfolding console_start_test_case_def console_start_test_iterator_def console_complete_test_def level
    by (simp_all add: assms(1) alike_plain alike_color)
  have starts: "rel_option alike (console_start_test E k u) (console_start_test E k v)"
    "rel_option alike (console_start_iterated_test E k c u) (console_start_iterated_test E k c v)" for k c
    unfolding console_start_test_def console_start_iterated_test_def level
    by (simp_all add: assms(1) alike_start)
  show ?thesis
    using assms(2)
    by (cases sig) (simp_all add: assms(1) one_text_moment_def status success error tests starts alike_complete)
qed

text \<open>C21: Colors add nothing but escape sequences around pieces of the text, as long as no result has
  both an expected and an actual text, which are laid out in another way with colors: two consoles that
  differ in the use of colors only print the same otherwise, or both dereference NULL.\<close>

theorem console_colors_decorate:
  assumes "list_all one_text_moment ms" "\<not> ui_use_color ui"
  shows "rel_option (\<lambda>u v. decorated (ui_output u) (ui_output v))
    (console_run ms (ui\<lparr>ui_use_color := True\<rparr>)) (console_run ms ui)"
proof -
  have "rel_option alike (console_run ms u) (console_run ms v)" if "alike u v" for u v
    using assms(1) that
  proof (induction ms arbitrary: u v)
    case (Cons x ms)
    obtain E rc sig where x: "x = (E, rc, sig)" by (cases x)
    have "rel_option alike (console_callback E rc sig u) (console_callback E rc sig v)"
      using Cons.prems x alike_callback by simp
    then show ?case
      using Cons.IH Cons.prems by (auto simp: x elim!: option.rel_cases)
  qed simp
  moreover have "alike (ui\<lparr>ui_use_color := True\<rparr>) ui"
    using assms(2) by (simp add: alike_def decorated_same)
  ultimately have "rel_option alike (console_run ms (ui\<lparr>ui_use_color := True\<rparr>)) (console_run ms ui)" by blast
  then show ?thesis
    by (rule option.rel_mono_strong) (simp add: alike_def)
qed

section \<open>Witnesses\<close>

definition example_tools :: text_tools where
  "example_tools =
     \<lparr>escape_text = (\<lambda>s. s), print_double = printf_f, ascii_strtod = (\<lambda>s. (0, 0)), to_iso8601 = (\<lambda>t. []),
      from_iso8601 = (\<lambda>s. None)\<rparr>"

definition example_env :: console_env where
  "example_env =
     \<lparr>env_store = \<lparr>ms_tests = [\<lparr>mt_kind = Test_Object, mt_name = Some (ascii ''test_a''), mt_attributes = [],
          mt_start_time = (0, 0), mt_elapsed = 0, mt_measured = 0\<rparr>], ms_data = [], ms_contexts = []\<rparr>,
      env_data = (\<lambda>t. None), env_elapsed = 1 / 3, env_error = (\<lambda>m. ([], 0)),
      env_tools = \<lparr>tool_readable = (\<lambda>s t. []), tool_is_interested = (\<lambda>s. False), tool_need_fold = (\<lambda>s. False),
        tool_fold = (\<lambda>s. s)\<rparr>,
      env_iswide = (\<lambda>c. False), env_split = (\<lambda>s. [s]), env_markup = example_tools, env_icons_dir = [],
      env_is_regular = (\<lambda>s. False), env_spawn_error = (\<lambda>args. None)\<rparr>"

definition example_result :: test_result where
  "example_result = cut_test_result_new FAILURE (Some 0) None None None None None (Some (ascii ''bad'')) []"

definition example_signal :: run_signal where
  "example_signal = Status_Test FAILURE 0 None example_result"

definition example_context :: run_context where
  "example_context = run_context_handler (\<lambda>t. 0) example_signal cut_run_context_init"

definition example_console :: console_ui where
  "example_console = console_ui_init\<lparr>ui_show_detail_immediately := False, ui_progress_row_max := 2\<rparr>"

lemma example_facts:
  "\<not> ui_show_detail_immediately example_console" "ui_verbose_level example_console = VERBOSE_LEVEL_NORMAL"
  "ui_progress_row_max example_console = int 2" "ui_progress_row example_console = 0"
  "\<not> ui_use_color example_console" "ui_output example_console = []" "ui_notify_command example_console = None"
  by (simp_all add: example_console_def console_ui_init_def)

theorem console_details_numbered_witness:
  "ui_output (console_complete_run example_env example_context False example_console) =
   newline @ numbered 1 (details example_env example_context (ui_errors example_console) False) @
   end_text example_env example_context False"
  using console_details_numbered [OF example_facts(1,2), of example_env example_context False]
  by (simp add: notify_def example_facts)

text \<open>The details are what one expects.\<close>

lemma example_details:
  "details example_env example_context [] False =
     [ascii ''Failure: test_a'' @ newline @ ascii ''bad'' @ newline]"
  by code_simp

definition example_moments :: "(console_env \<times> run_context \<times> run_signal) list" where
  "example_moments = replicate 3 (example_env, example_context, Status_Test SUCCESS 0 None example_result)"

lemma example_moments_successful: "list_all success_moment example_moments"
  by (simp add: example_moments_def success_moment_def list_all_iff)

theorem console_progress_rows_witness:
  "\<exists>ui. console_run example_moments example_console = Some ui \<and> ui_output ui = ascii ''..'' @ newline @ ascii ''.''"
proof -
  have "mark_rows False 2 0 3 = ascii ''..'' @ newline @ ascii ''.''" by code_simp
  moreover have "length example_moments = 3" by (simp add: example_moments_def)
  ultimately show ?thesis
    using console_progress_rows [OF example_moments_successful example_facts(2,3) _ example_facts(4)]
    by (auto simp: example_facts)
qed

lemma example_one_text: "list_all one_text_moment [(example_env, example_context, example_signal)]"
  by code_simp

theorem console_colors_decorate_witness:
  "rel_option (\<lambda>u v. decorated (ui_output u) (ui_output v))
     (console_run [(example_env, example_context, example_signal)] (example_console\<lparr>ui_use_color := True\<rparr>))
     (console_run [(example_env, example_context, example_signal)] example_console)"
  using console_colors_decorate [OF example_one_text example_facts(5)] .

text \<open>A failure in the start-up of a test case: counted in the summary, but its message is printed nowhere
  when the details are shown at once.\<close>

definition failed_start_up :: run_context where
  "failed_start_up = run_context_handler (\<lambda>t. 0) (Status_In_Test_Case FAILURE 0 example_result) cut_run_context_init"

lemma failed_start_up_only_counted:
  "n_failures failed_start_up = 1 \<and>
   map_option ui_output
     (console_run [(example_env, failed_start_up, Status_In_Test_Case FAILURE 0 example_result),
        (example_env, failed_start_up, Complete_Run False)] console_ui_init) =
   Some (newline @ newline @ ascii ''Finished in 0.333333 seconds (total: 0.000000 seconds)'' @ newline @ newline @
     ascii ''0 test(s), 0 assertion(s), 1 failure(s), 0 error(s), 0 pending(s), 0 omission(s), 0 notification(s)'' @
     newline @ ascii ''0% passed'' @ newline)"
  by code_simp

end
