(* ===== verification/Test_World.thy ===== *)
theory Test_World
  imports Test_Context Run_Context
begin

text \<open>
  The running program: the state that the functions of \<open>cutter/cut-test.c\<close>,
  \<open>cut-test-case.c\<close>, \<open>cut-test-iterator.c\<close>, \<open>cut-test-suite.c\<close> and
  \<open>cut-test-runner.c\<close> share, the signals of test objects with the handlers connected to
  them, the user's test code, and the operations of the test context that emit signals.

  Test contexts live in a heap; the stack of current contexts has its top first. A handler table
  lists the connections in the order they were made. The user's functions are parameters: given
  the state, the calls of the API they make and how they end (a return, a long jump out of a failed
  assertion, or a signal). A computation returns a value or stops by a signal that is still to be
  caught or by the exit of the process.
\<close>

section \<open>Signals of test objects\<close>

datatype object_signal =
    Sig_Ready nat nat
  | Sig_Start "object_id option"
  | Sig_Pass_Assertion "object_id option"
  | Sig_Status test_status "object_id option" test_result
  | Sig_Status_In test_status "object_id option" test_result
  | Sig_Complete "object_id option" bool
  | Sig_Start_Test object_id object_id
  | Sig_Complete_Test object_id object_id bool
  | Sig_Start_Test_Iterator object_id object_id
  | Sig_Complete_Test_Iterator object_id object_id bool
  | Sig_Start_Iterated_Test object_id object_id
  | Sig_Complete_Iterated_Test object_id object_id bool
  | Sig_Start_Test_Case object_id
  | Sig_Complete_Test_Case object_id bool

datatype signal_kind =
    K_Ready | K_Start | K_Pass_Assertion | K_Status test_status | K_Status_In test_status | K_Complete
  | K_Start_Test | K_Complete_Test | K_Start_Test_Iterator | K_Complete_Test_Iterator
  | K_Start_Iterated_Test | K_Complete_Iterated_Test | K_Start_Test_Case | K_Complete_Test_Case

fun kind_of :: "object_signal \<Rightarrow> signal_kind" where
  "kind_of (Sig_Ready n m) = K_Ready"
| "kind_of (Sig_Start c) = K_Start"
| "kind_of (Sig_Pass_Assertion c) = K_Pass_Assertion"
| "kind_of (Sig_Status s c r) = K_Status s"
| "kind_of (Sig_Status_In s c r) = K_Status_In s"
| "kind_of (Sig_Complete c b) = K_Complete"
| "kind_of (Sig_Start_Test t c) = K_Start_Test"
| "kind_of (Sig_Complete_Test t c b) = K_Complete_Test"
| "kind_of (Sig_Start_Test_Iterator t c) = K_Start_Test_Iterator"
| "kind_of (Sig_Complete_Test_Iterator t c b) = K_Complete_Test_Iterator"
| "kind_of (Sig_Start_Iterated_Test t c) = K_Start_Iterated_Test"
| "kind_of (Sig_Complete_Iterated_Test t c b) = K_Complete_Iterated_Test"
| "kind_of (Sig_Start_Test_Case k) = K_Start_Test_Case"
| "kind_of (Sig_Complete_Test_Case k b) = K_Complete_Test_Case"

text \<open>The objects that emit: a suite, a test case, or a test of any class (a plain test, an
  iterator, an iterated test).\<close>

datatype test_object = O_Suite object_id | O_Case object_id | O_Test object_id

text \<open>A handler is one of the families of callbacks of the test runner, which relay to the run
  context, or a callback that collects the worst status in a cell
  (\<open>cb_test_status\<close>, \<open>cb_test_case_status_in\<close>).\<close>

datatype handler =
    Relay_Test | Relay_Iterated_Test | Relay_Iterator | Relay_Case | Relay_Suite | Collect nat

type_synonym connection = "test_object \<times> signal_kind \<times> handler"

section \<open>State\<close>

datatype posix_signal = SIGSEGV | SIGABRT | SIGTERM | SIGBUS | SIGINT

datatype stop = Signaled posix_signal | Process_Exit

text \<open>The user's functions that a run calls.\<close>

datatype user_code =
    Warmup | Cooldown | Startup object_id | Shutdown object_id | Setup object_id | Teardown object_id
  | Test_Body object_id | Data_Setup object_id

record iterated_test =
  it_iterator :: object_id
  it_data :: test_data

record test_world =
  run_state :: run_context
  run_signals :: "run_signal list"
  contexts :: "test_context list"
  current_contexts :: "object_id list"
  handler_table :: "connection list"
  status_cells :: "test_status list"
  iterator_children :: "object_id \<Rightarrow> object_id list"
  iterated_tests :: "object_id \<Rightarrow> iterated_test option"
  next_object :: object_id
  user_calls :: "user_code list"
  suite_success :: bool
  signal_received :: bool

type_synonym 'a step = "test_world \<Rightarrow> (stop + 'a) \<times> test_world"

definition bind_step :: "'a step \<Rightarrow> ('a \<Rightarrow> 'b step) \<Rightarrow> 'b step" where
  "bind_step m f w =
     (case m w of (Inl s, w') \<Rightarrow> (Inl s, w') | (Inr a, w') \<Rightarrow> f a w')"

definition result_step :: "'a \<Rightarrow> 'a step" where
  "result_step a w = (Inr a, w)"

definition do_step :: "(test_world \<Rightarrow> test_world) \<Rightarrow> unit step" where
  "do_step f w = (Inr (), f w)"

section \<open>The user's program\<close>

text \<open>The calls of a user function that matter here; the macros of
  \<open>cut-assertions-helper.h\<close> expand to them.\<close>

datatype user_call =
    Pass
  | Set_Message "ustring option"
  | Keep_Message
  | Set_Expected_Text "ustring option"
  | Set_Actual_Text "ustring option"
  | Push_Backtrace backtrace_entry
  | Pop_Backtrace
  | Add_Data "test_data list"
  | Start_Message_Jump
  | Finish_Message_Jump
  | Set_Result test_status "ustring option"
  | Set_Result_Message "ustring option"
  | Process_Result

datatype function_end = Returns | Long_Jumps | Raises posix_signal

type_synonym user_function = "test_world \<Rightarrow> user_call list \<times> function_end"

record test_program =
  suite_id :: object_id
  suite_warmup :: "user_function option"
  suite_cooldown :: "user_function option"
  suite_cases :: "object_id list"
  case_startup :: "object_id \<Rightarrow> user_function option"
  case_shutdown :: "object_id \<Rightarrow> user_function option"
  case_setup :: "object_id \<Rightarrow> user_function option"
  case_teardown :: "object_id \<Rightarrow> user_function option"
  case_tests :: "object_id \<Rightarrow> object_id list"
  is_iterator :: "object_id \<Rightarrow> bool"
  test_function :: "object_id \<Rightarrow> user_function option"
  data_setup_function :: "object_id \<Rightarrow> user_function option"
  iterated_test_function :: "object_id \<Rightarrow> (object_id option \<Rightarrow> user_function) option"
  multi_thread_attribute :: "object_id \<Rightarrow> ustring option"
  test_name :: "object_id \<Rightarrow> ustring option"
  target_test_case_names :: "ustring list option"
  target_test_names :: "ustring list option"
  regex_escape :: "ustring \<Rightarrow> ustring"
  regex_new :: "ustring \<Rightarrow> (ustring \<Rightarrow> bool) option"
  test_elapsed :: "object_id \<Rightarrow> rat"
  crash_entries :: "backtrace_entry list"

section \<open>Test contexts of the state\<close>

definition context_at :: "test_world \<Rightarrow> object_id \<Rightarrow> test_context" where
  "context_at w c = contexts w ! c"

definition update_context :: "object_id \<Rightarrow> (test_context \<Rightarrow> test_context) \<Rightarrow> test_world \<Rightarrow> test_world" where
  "update_context c f w = w\<lparr>contexts := (contexts w)[c := f (contexts w ! c)]\<rparr>"

definition new_context :: "test_context \<Rightarrow> test_world \<Rightarrow> test_world" where
  "new_context c w = w\<lparr>contexts := contexts w @ [c]\<rparr>"

definition cut_test_context_current_push :: "object_id \<Rightarrow> test_world \<Rightarrow> test_world" where
  "cut_test_context_current_push c w = w\<lparr>current_contexts := c # current_contexts w\<rparr>"

definition cut_test_context_current_pop :: "test_world \<Rightarrow> test_world" where
  "cut_test_context_current_pop w = w\<lparr>current_contexts := tl (current_contexts w)\<rparr>"

definition cut_test_context_current_peek :: "test_world \<Rightarrow> object_id option" where
  "cut_test_context_current_peek w =
     (case current_contexts w of [] \<Rightarrow> None | c # cs \<Rightarrow> Some c)"

section \<open>Connections and emission\<close>

definition all_statuses :: "test_status list" where
  "all_statuses = [SUCCESS, FAILURE, ERROR, PENDING, NOTIFICATION, OMISSION, CRASH]"

definition connect :: "test_object \<Rightarrow> signal_kind list \<Rightarrow> handler \<Rightarrow> test_world \<Rightarrow> test_world" where
  "connect x ks h w = w\<lparr>handler_table := handler_table w @ map (\<lambda>k. (x, k, h)) ks\<rparr>"

definition disconnect :: "test_object \<Rightarrow> signal_kind list \<Rightarrow> handler \<Rightarrow> test_world \<Rightarrow> test_world" where
  "disconnect x ks h w =
     w\<lparr>handler_table := filter (\<lambda>(y, k, h'). \<not> (y = x \<and> k \<in> set ks \<and> h' = h)) (handler_table w)\<rparr>"

definition emit_run :: "test_program \<Rightarrow> run_signal \<Rightarrow> test_world \<Rightarrow> test_world" where
  "emit_run P sig w =
     w\<lparr>run_state := run_context_handler (test_elapsed P) sig (run_state w),
       run_signals := run_signals w @ [sig]\<rparr>"

definition collect_status :: "nat \<Rightarrow> test_status \<Rightarrow> test_world \<Rightarrow> test_world" where
  "collect_status cell s w = w\<lparr>status_cells := (status_cells w)[cell := max (status_cells w ! cell) s]\<rparr>"

end
