(* ===== verification/Assertions.thy ===== *)
theory Assertions
  imports C_Strings Test_World "HOL-Library.Word"
begin

text \<open>
  Assertions: the macros of \<open>cutter/cut-assertions-helper.h\<close> and \<open>cut-helper.h\<close>, the
  functions of \<open>cut-assertions-helper.c\<close>, and what they use of \<open>cut-utils.c\<close> and
  \<open>gcutter/gcut-inspect.c\<close>. A function passes or fails with a message and, often, with the two
  values as they are shown; the macro turns this into the calls that a test makes. Assertions on
  floating point numbers, fixture data, files and socket addresses are not modelled.
\<close>

section \<open>Macros\<close>

text \<open>What decides where a macro goes: the number of macros that are open and whether there is a result.
  A macro gives the calls that are made and whether it ends by a long jump.\<close>

record jump_state =
  jump_nest :: nat
  have_result :: bool

type_synonym user_macro = "jump_state \<Rightarrow> user_call list \<times> bool \<times> jump_state"

definition cut_test_pass :: user_macro where
  "cut_test_pass s = ([Pass], False, s)"

definition cut_test_terminate :: "test_status \<Rightarrow> ustring option \<Rightarrow> user_call list \<Rightarrow> user_macro" where
  "cut_test_terminate status system_message extra s =
     (if jump_nest s = 0
      then ([Set_Result status system_message] @ extra @ [Process_Result], True, s\<lparr>have_result := False\<rparr>)
      else ([Set_Result status system_message] @ extra, True, s\<lparr>have_result := True\<rparr>))"

definition cut_test_register_result :: "test_status \<Rightarrow> ustring option \<Rightarrow> user_call list \<Rightarrow> user_macro" where
  "cut_test_register_result status system_message extra s =
     ([Set_Result status system_message] @ extra @ [Process_Result], False, s\<lparr>have_result := False\<rparr>)"

definition cut_test_fail :: "ustring \<Rightarrow> user_macro" where
  "cut_test_fail system_message = cut_test_terminate FAILURE (Some system_message) []"

text \<open>The jump buffer of the macro is set while the assertion runs, so that a long jump out of it goes on
  behind it.\<close>

definition cut_test_with_user_message :: "user_macro \<Rightarrow> user_call list \<Rightarrow> user_macro" where
  "cut_test_with_user_message assertion set_user_message s =
     (let (calls, _, s1) = assertion (s\<lparr>jump_nest := guint (jump_nest s + 1)\<rparr>);
          s2 = s1\<lparr>jump_nest := guint_pred (jump_nest s1)\<rparr>;
          done = [Start_Message_Jump] @ calls @ [Finish_Message_Jump] @ set_user_message
      in if \<not> have_result s2 then (done, False, s2)
         else if jump_nest s2 = 0 then (done @ [Process_Result], True, s2\<lparr>have_result := False\<rparr>)
         else (done, True, s2))"

definition cut_trace_with_info_expression :: "backtrace_entry \<Rightarrow> user_macro \<Rightarrow> user_macro" where
  "cut_trace_with_info_expression place expression s =
     (let (calls, jumped, s1) = expression s
      in ([Push_Backtrace place] @ calls @ (if jumped then [] else [Pop_Backtrace]), jumped, s1))"

text \<open>Statements one after the other; a long jump leaves the rest.\<close>

primrec statements :: "user_macro list \<Rightarrow> user_macro" where
  "statements [] s = ([], False, s)"
| "statements (m # ms) s =
     (let (calls, jumped, s1) = m s
      in if jumped then (calls, True, s1)
         else (let (rest, jumped2, s2) = statements ms s1 in (calls @ rest, jumped2, s2)))"

text \<open>A user function of such statements.\<close>

definition function_of :: "user_macro list \<Rightarrow> user_call list \<times> function_end" where
  "function_of ms =
     (let (calls, jumped, _) = statements ms \<lparr>jump_nest = 0, have_result = False\<rparr>
      in (calls, if jumped then Long_Jumps else Returns))"

section \<open>Outcomes\<close>

datatype assertion = Passed | Failed "(ustring \<times> ustring) option" ustring

text \<open>The calls of an assertion function: the expected and the actual text are set before the failure.\<close>

definition assertion_macro :: "assertion \<Rightarrow> user_macro" where
  "assertion_macro a =
     (case a of
        Passed \<Rightarrow> cut_test_pass
      | Failed shown m \<Rightarrow>
          (\<lambda>s. let (calls, jumped, s1) = cut_test_fail m s
               in ((case shown of
                      None \<Rightarrow> []
                    | Some (e, a) \<Rightarrow> [Set_Expected_Text (Some e), Set_Actual_Text (Some a)]) @ calls, jumped, s1)))"

text \<open>An assertion as it is written in a test, such as \<open>cut_assert_equal_int (expected, actual, message)\<close>;
  \<open>cut_message\<close> sets the user message of the result.\<close>

definition assert_statement :: "backtrace_entry \<Rightarrow> assertion \<Rightarrow> ustring option \<Rightarrow> user_macro" where
  "assert_statement place a user_message =
     cut_trace_with_info_expression place
       (cut_test_with_user_message (assertion_macro a)
          (case user_message of None \<Rightarrow> [] | Some m \<Rightarrow> [Set_Result_Message (Some m)]))"

text \<open>Statements that give a result of their own; \<open>cut_notify\<close> alone goes on.\<close>

definition terminating_statement :: "test_status \<Rightarrow> backtrace_entry \<Rightarrow> ustring \<Rightarrow> user_macro" where
  "terminating_statement status place m =
     cut_trace_with_info_expression place (cut_test_terminate status None [Set_Result_Message (Some m)])"

definition cut_error :: "backtrace_entry \<Rightarrow> ustring \<Rightarrow> user_macro" where
  "cut_error = terminating_statement ERROR"

definition cut_fail :: "backtrace_entry \<Rightarrow> ustring \<Rightarrow> user_macro" where
  "cut_fail = terminating_statement FAILURE"

definition cut_pend :: "backtrace_entry \<Rightarrow> ustring \<Rightarrow> user_macro" where
  "cut_pend = terminating_statement PENDING"

definition cut_omit :: "backtrace_entry \<Rightarrow> ustring \<Rightarrow> user_macro" where
  "cut_omit = terminating_statement OMISSION"

definition cut_notify :: "backtrace_entry \<Rightarrow> ustring \<Rightarrow> user_macro" where
  "cut_notify place m =
     cut_trace_with_info_expression place (cut_test_register_result NOTIFICATION None [Set_Result_Message (Some m)])"

section \<open>Equality and inspection\<close>

definition cut_utils_equal_string :: "ustring option \<Rightarrow> ustring option \<Rightarrow> bool" where
  "cut_utils_equal_string string1 string2 \<longleftrightarrow>
     (case (string1, string2) of
        (None, None) \<Rightarrow> True
      | (Some s, Some t) \<Rightarrow> s = t
      | _ \<Rightarrow> False)"

definition cut_utils_equal_substring :: "ustring option \<Rightarrow> ustring option \<Rightarrow> nat \<Rightarrow> bool" where
  "cut_utils_equal_substring string1 string2 n \<longleftrightarrow>
     (case (string1, string2) of
        (None, None) \<Rightarrow> True
      | (Some s, Some t) \<Rightarrow> take n s = take n t
      | _ \<Rightarrow> False)"

definition cut_utils_equal_string_array :: "ustring list option \<Rightarrow> ustring list option \<Rightarrow> bool" where
  "cut_utils_equal_string_array strings1 strings2 \<longleftrightarrow>
     (case (strings1, strings2) of
        (None, None) \<Rightarrow> True
      | (Some ss, Some ts) \<Rightarrow> length ss = length ts \<and> list_all (\<lambda>(s, t). s = t) (zip ss ts)
      | _ \<Rightarrow> False)"

definition escaped_unit :: "gunichar \<Rightarrow> ustring" where
  "escaped_unit c = (if c = 34 then [92, 34] else if c = 92 then [92, 92] else [c])"

definition cut_utils_inspect_string :: "ustring option \<Rightarrow> ustring" where
  "cut_utils_inspect_string string =
     (case string of
        None \<Rightarrow> ascii ''(null)''
      | Some s \<Rightarrow> [34] @ concat (map escaped_unit s) @ [34])"

definition cut_utils_inspect_string_array :: "ustring list option \<Rightarrow> ustring" where
  "cut_utils_inspect_string_array strings =
     (case strings of
        None \<Rightarrow> ascii ''(null)''
      | Some ss \<Rightarrow> ascii ''['' @ g_strjoin (ascii '', '') (map (\<lambda>s. cut_utils_inspect_string (Some s)) ss) @ ascii '']'')"

text \<open>A byte as \<open>0x%02x\<close>.\<close>

definition hex_digit :: "nat \<Rightarrow> gunichar" where
  "hex_digit d = (if d < 10 then 48 + d else 87 + d)"

definition hex_byte :: "nat \<Rightarrow> ustring" where
  "hex_byte b = ascii ''0x'' @ [hex_digit (b div 16), hex_digit (b mod 16)]"

definition g_ascii_isprint :: "nat \<Rightarrow> bool" where
  "g_ascii_isprint b \<longleftrightarrow> 32 \<le> b \<and> b \<le> 126"

text \<open>Memory is NULL or its bytes; only 1024 of them are shown, and as text too if at least three in ten
  are printable.\<close>

definition cut_utils_inspect_memory :: "nat list option \<Rightarrow> ustring" where
  "cut_utils_inspect_memory memory =
     (case memory of
        None \<Rightarrow> ascii ''(null)''
      | Some bytes \<Rightarrow>
          if bytes = [] then ascii ''(null)''
          else
            (let shown = take 1024 bytes;
                 more = 1024 < length bytes;
                 buffer = concat (map (\<lambda>b. hex_byte b @ ascii '' '') shown) @ (if more then ascii ''... '' else []);
                 printable = length (filter g_ascii_isprint shown)
             in if 3 * length shown \<le> 10 * printable
                then butlast buffer @ ascii '': '' @ map (\<lambda>b. if g_ascii_isprint b then b else 46) shown @
                     (if more then ascii ''...'' else [])
                else butlast buffer))"

text \<open>A \<open>char\<close> is signed.\<close>

definition signed_decimal :: "int \<Rightarrow> ustring" where
  "signed_decimal i = (if i < 0 then 45 # decimal (nat (- i)) else decimal (nat i))"

definition gcut_inspect_char :: "8 word \<Rightarrow> ustring" where
  "gcut_inspect_char c =
     (let quoted = (\<lambda>s. [39] @ s @ [39])
      in if c = 7 then quoted [92, 97] else if c = 8 then quoted [92, 98] else if c = 9 then quoted [92, 116]
         else if c = 10 then quoted [92, 110] else if c = 11 then quoted [92, 118]
         else if c = 12 then quoted [92, 102] else if c = 13 then quoted [92, 114]
         else if c = 27 then quoted [92, 101] else if c = 39 then quoted [92, 39]
         else if c = 92 then quoted [92, 92]
         else if 32 \<le> sint c \<and> sint c \<le> 126 then quoted [unat c]
         else quoted (92 # signed_decimal (sint c)))"

section \<open>Messages\<close>

definition equal_message :: "ustring \<Rightarrow> ustring \<Rightarrow> ustring" where
  "equal_message e a = ascii ''<'' @ e @ ascii '' == '' @ a @ ascii ''>''"

definition not_equal_message :: "ustring \<Rightarrow> ustring \<Rightarrow> ustring" where
  "not_equal_message e a = ascii ''<'' @ e @ ascii '' != '' @ a @ ascii ''>''"

definition expected_message :: "ustring \<Rightarrow> string \<Rightarrow> ustring" where
  "expected_message e suffix = ascii ''expected: <'' @ e @ ascii ''>'' @ ascii suffix"

text \<open>\<open>%s\<close> applied to a string or NULL.\<close>

definition shown_string :: "ustring option \<Rightarrow> ustring" where
  "shown_string s = (case s of None \<Rightarrow> ascii ''(null)'' | Some t \<Rightarrow> t)"

definition equality :: "bool \<Rightarrow> ustring \<Rightarrow> ustring \<Rightarrow> ustring \<Rightarrow> ustring \<Rightarrow> assertion" where
  "equality passed expected actual e a =
     (if passed then Passed else Failed (Some (expected, actual)) (equal_message e a))"

definition inequality :: "bool \<Rightarrow> ustring \<Rightarrow> ustring \<Rightarrow> ustring \<Rightarrow> ustring \<Rightarrow> assertion" where
  "inequality passed expected actual e a =
     (if passed then Passed else Failed (Some (expected, actual)) (not_equal_message e a))"

end
