(* ===== verification/Test_Runner.thy ===== *)
theory Test_Runner
  imports Test_World
begin

text \<open>
  The test runner (\<open>cutter/cut-test-runner.c\<close>): the callbacks that relay the signals of
  test objects to the run context, and the connections that are made when an object starts and
  removed when it completes. The runner is itself the run context it relays to.
\<close>

section \<open>The connected signals\<close>

definition test_kinds :: "signal_kind list" where
  "test_kinds =
     [K_Start, K_Pass_Assertion, K_Status SUCCESS, K_Status FAILURE, K_Status ERROR, K_Status PENDING,
      K_Status NOTIFICATION, K_Status OMISSION, K_Status CRASH, K_Complete]"

definition iterated_test_kinds :: "signal_kind list" where
  "iterated_test_kinds =
     [K_Start, K_Complete, K_Pass_Assertion, K_Status SUCCESS, K_Status FAILURE, K_Status ERROR,
      K_Status PENDING, K_Status NOTIFICATION, K_Status OMISSION, K_Status CRASH]"

definition iterator_kinds :: "signal_kind list" where
  "iterator_kinds =
     [K_Start_Iterated_Test, K_Complete_Iterated_Test, K_Status SUCCESS, K_Status FAILURE,
      K_Status ERROR, K_Status PENDING, K_Status NOTIFICATION, K_Status OMISSION, K_Status CRASH,
      K_Ready, K_Start, K_Complete]"

definition case_kinds :: "signal_kind list" where
  "case_kinds =
     [K_Start_Test, K_Complete_Test, K_Start_Test_Iterator, K_Complete_Test_Iterator,
      K_Status SUCCESS, K_Status FAILURE, K_Status ERROR, K_Status PENDING, K_Status NOTIFICATION,
      K_Status OMISSION, K_Status CRASH,
      K_Status_In FAILURE, K_Status_In ERROR, K_Status_In PENDING, K_Status_In NOTIFICATION,
      K_Status_In OMISSION, K_Status_In CRASH,
      K_Ready, K_Start, K_Complete]"

definition case_disconnected_kinds :: "signal_kind list" where
  "case_disconnected_kinds =
     [K_Start_Test, K_Complete_Test, K_Start_Test_Iterator, K_Complete_Test_Iterator,
      K_Status SUCCESS, K_Status FAILURE, K_Status ERROR, K_Status PENDING, K_Status NOTIFICATION,
      K_Status OMISSION, K_Status CRASH,
      K_Ready, K_Start, K_Complete]"

definition suite_kinds :: "signal_kind list" where
  "suite_kinds =
     [K_Ready, K_Start, K_Status CRASH, K_Complete, K_Start_Test_Case, K_Complete_Test_Case]"

definition connect_to_test :: "object_id \<Rightarrow> test_world \<Rightarrow> test_world" where
  "connect_to_test t w = connect (O_Test t) test_kinds Relay_Test w"

definition connect_to_test_iterator :: "object_id \<Rightarrow> test_world \<Rightarrow> test_world" where
  "connect_to_test_iterator i w = connect (O_Test i) iterator_kinds Relay_Iterator w"

definition connect_to_test_case :: "object_id \<Rightarrow> test_world \<Rightarrow> test_world" where
  "connect_to_test_case k w = connect (O_Case k) case_kinds Relay_Case w"

definition connect_to_test_suite :: "object_id \<Rightarrow> test_world \<Rightarrow> test_world" where
  "connect_to_test_suite s w = connect (O_Suite s) suite_kinds Relay_Suite w"

section \<open>The callbacks\<close>

definition relay_test :: "test_program \<Rightarrow> object_id \<Rightarrow> object_signal \<Rightarrow> test_world \<Rightarrow> test_world" where
  "relay_test P t sig w =
     (case sig of
        Sig_Start c \<Rightarrow> emit_run P (Start_Test t c) w
      | Sig_Pass_Assertion c \<Rightarrow> emit_run P (Pass_Assertion t c) w
      | Sig_Status s c r \<Rightarrow>
          (case s of
             SUCCESS \<Rightarrow> emit_run P (Status_Test SUCCESS t c r) w
           | FAILURE \<Rightarrow> emit_run P (Status_Test FAILURE t c r) w
           | ERROR \<Rightarrow> emit_run P (Status_Test ERROR t c r) w
           | PENDING \<Rightarrow> emit_run P (Status_Test PENDING t c r) w
           | NOTIFICATION \<Rightarrow> emit_run P (Status_Test NOTIFICATION t c r) w
           | OMISSION \<Rightarrow> emit_run P (Status_Test OMISSION t c r) w
           | CRASH \<Rightarrow> emit_run P (Status_Test CRASH t c r) w)
      | Sig_Complete c b \<Rightarrow> emit_run P (Complete_Test t c b) w
      | _ \<Rightarrow> w)"

definition relay_iterated_test :: "test_program \<Rightarrow> object_id \<Rightarrow> object_signal \<Rightarrow> test_world \<Rightarrow> test_world" where
  "relay_iterated_test P t sig w =
     (case sig of
        Sig_Start c \<Rightarrow> emit_run P (Start_Iterated_Test t c) w
      | Sig_Complete c b \<Rightarrow> emit_run P (Complete_Iterated_Test t c b) w
      | _ \<Rightarrow> relay_test P t sig w)"

definition relay_iterator :: "test_program \<Rightarrow> object_id \<Rightarrow> object_signal \<Rightarrow> test_world \<Rightarrow> test_world" where
  "relay_iterator P i sig w =
     (case sig of
        Sig_Start_Iterated_Test t c \<Rightarrow> connect (O_Test t) iterated_test_kinds Relay_Iterated_Test w
      | Sig_Complete_Iterated_Test t c b \<Rightarrow> disconnect (O_Test t) iterated_test_kinds Relay_Iterated_Test w
      | Sig_Status s c r \<Rightarrow>
          (case s of
             SUCCESS \<Rightarrow> emit_run P (Status_Test_Iterator SUCCESS i r) w
           | FAILURE \<Rightarrow> emit_run P (Status_Test_Iterator FAILURE i r) w
           | ERROR \<Rightarrow> emit_run P (Status_Test_Iterator ERROR i r) w
           | PENDING \<Rightarrow> emit_run P (Status_Test_Iterator PENDING i r) w
           | NOTIFICATION \<Rightarrow> emit_run P (Status_Test_Iterator NOTIFICATION i r) w
           | OMISSION \<Rightarrow> emit_run P (Status_Test_Iterator OMISSION i r) w
           | CRASH \<Rightarrow> emit_run P (Status_Test_Iterator CRASH i r) w)
      | Sig_Ready n m \<Rightarrow> emit_run P (Ready_Test_Iterator i n) w
      | Sig_Start c \<Rightarrow> emit_run P (Start_Test_Iterator i) w
      | Sig_Complete c b \<Rightarrow> emit_run P (Complete_Test_Iterator i b) w
      | _ \<Rightarrow> w)"

definition relay_case :: "test_program \<Rightarrow> object_id \<Rightarrow> object_signal \<Rightarrow> test_world \<Rightarrow> test_world" where
  "relay_case P k sig w =
     (case sig of
        Sig_Start_Test t c \<Rightarrow> connect_to_test t w
      | Sig_Complete_Test t c b \<Rightarrow> disconnect (O_Test t) test_kinds Relay_Test w
      | Sig_Start_Test_Iterator i c \<Rightarrow> connect_to_test_iterator i w
      | Sig_Complete_Test_Iterator i c b \<Rightarrow> disconnect (O_Test i) iterator_kinds Relay_Iterator w
      | Sig_Status s c r \<Rightarrow>
          (case s of
             SUCCESS \<Rightarrow> emit_run P (Status_Test_Case SUCCESS k r) w
           | FAILURE \<Rightarrow> emit_run P (Status_Test_Case FAILURE k r) w
           | ERROR \<Rightarrow> emit_run P (Status_Test_Case ERROR k r) w
           | PENDING \<Rightarrow> emit_run P (Status_Test_Case PENDING k r) w
           | NOTIFICATION \<Rightarrow> emit_run P (Status_Test_Case NOTIFICATION k r) w
           | OMISSION \<Rightarrow> emit_run P (Status_Test_Case OMISSION k r) w
           | CRASH \<Rightarrow> emit_run P (Status_Test_Case CRASH k r) w)
      | Sig_Status_In s c r \<Rightarrow>
          (case s of
             SUCCESS \<Rightarrow> w
           | FAILURE \<Rightarrow> emit_run P (Status_In_Test_Case FAILURE k r) w
           | ERROR \<Rightarrow> emit_run P (Status_In_Test_Case ERROR k r) w
           | PENDING \<Rightarrow> emit_run P (Status_In_Test_Case PENDING k r) w
           | NOTIFICATION \<Rightarrow> emit_run P (Status_In_Test_Case NOTIFICATION k r) w
           | OMISSION \<Rightarrow> emit_run P (Status_In_Test_Case OMISSION k r) w
           | CRASH \<Rightarrow> emit_run P (Status_In_Test_Case CRASH k r) w)
      | Sig_Start c \<Rightarrow> emit_run P (Start_Test_Case k) w
      | Sig_Ready n m \<Rightarrow> emit_run P (Ready_Test_Case k n) w
      | Sig_Complete c b \<Rightarrow> emit_run P (Complete_Test_Case k b) w
      | _ \<Rightarrow> w)"

definition relay_suite :: "test_program \<Rightarrow> object_id \<Rightarrow> object_signal \<Rightarrow> test_world \<Rightarrow> test_world" where
  "relay_suite P x sig w =
     (case sig of
        Sig_Start_Test_Case k \<Rightarrow> connect_to_test_case k w
      | Sig_Complete_Test_Case k b \<Rightarrow> disconnect (O_Case k) case_disconnected_kinds Relay_Case w
      | Sig_Ready n m \<Rightarrow> emit_run P (Ready_Test_Suite x n m) w
      | Sig_Start c \<Rightarrow> emit_run P (Start_Test_Suite x) w
      | Sig_Status s c r \<Rightarrow> (case s of CRASH \<Rightarrow> emit_run P (Crash_Test_Suite x r) w | _ \<Rightarrow> w)
      | Sig_Complete c b \<Rightarrow>
          emit_run P (Complete_Test_Suite x b) (disconnect (O_Suite x) suite_kinds Relay_Suite w)
      | _ \<Rightarrow> w)"

definition collect_from :: "nat \<Rightarrow> object_signal \<Rightarrow> test_world \<Rightarrow> test_world" where
  "collect_from cell sig w =
     (case sig of
        Sig_Status s c r \<Rightarrow> collect_status cell (result_status r) w
      | Sig_Status_In s c r \<Rightarrow> collect_status cell (result_status r) w
      | _ \<Rightarrow> w)"

fun run_handler ::
  "test_program \<Rightarrow> handler \<Rightarrow> test_object \<Rightarrow> object_signal \<Rightarrow> test_world \<Rightarrow> test_world" where
  "run_handler P Relay_Test (O_Test t) sig w = relay_test P t sig w"
| "run_handler P Relay_Iterated_Test (O_Test t) sig w = relay_iterated_test P t sig w"
| "run_handler P Relay_Iterator (O_Test i) sig w = relay_iterator P i sig w"
| "run_handler P Relay_Case (O_Case k) sig w = relay_case P k sig w"
| "run_handler P Relay_Suite (O_Suite x) sig w = relay_suite P x sig w"
| "run_handler P (Collect cell) x sig w = collect_from cell sig w"
| "run_handler P h x sig w = w"

text \<open>\<open>g_signal_emit_by_name\<close>: the handlers connected when the emission starts run in
  the order of connection, unless they have been disconnected meanwhile.\<close>

fun run_connections ::
  "test_program \<Rightarrow> test_object \<Rightarrow> object_signal \<Rightarrow> connection list \<Rightarrow> test_world \<Rightarrow> test_world" where
  "run_connections P x sig [] w = w"
| "run_connections P x sig ((y, k, h) # cs) w =
     run_connections P x sig cs
       (if y = x \<and> k = kind_of sig \<and> (y, k, h) \<in> set (handler_table w) then run_handler P h x sig w else w)"

definition emit_object :: "test_program \<Rightarrow> test_object \<Rightarrow> object_signal \<Rightarrow> test_world \<Rightarrow> test_world" where
  "emit_object P x sig w = run_connections P x sig (handler_table w) w"

section \<open>Results of tests\<close>

text \<open>\<open>cut_test_emit_result_signal\<close>: the object adds its elapsed time and emits the signal
  of the status; the class of test cases emits the \<open>-in\<close> signal instead.\<close>

definition cut_test_set_result_elapsed :: "test_program \<Rightarrow> object_id \<Rightarrow> test_result \<Rightarrow> test_result" where
  "cut_test_set_result_elapsed P x r = cut_test_result_set_elapsed (test_elapsed P x) r"

definition cut_test_emit_result_signal ::
  "test_program \<Rightarrow> emit_target \<Rightarrow> object_id option \<Rightarrow> test_result \<Rightarrow> test_world \<Rightarrow> test_world" where
  "cut_test_emit_result_signal P target c r w =
     (case target of
        On_Test t \<Rightarrow>
          emit_object P (O_Test t) (Sig_Status (result_status r) c (cut_test_set_result_elapsed P t r)) w
      | On_Iterator i \<Rightarrow>
          emit_object P (O_Test i) (Sig_Status (result_status r) c (cut_test_set_result_elapsed P i r)) w
      | On_Case k \<Rightarrow>
          emit_object P (O_Case k) (Sig_Status_In (result_status r) c (cut_test_set_result_elapsed P k r)) w
      | On_Suite x \<Rightarrow>
          emit_object P (O_Suite x) (Sig_Status (result_status r) c (cut_test_set_result_elapsed P x r)) w)"

definition cut_test_context_emit_signal ::
  "test_program \<Rightarrow> object_id \<Rightarrow> test_result \<Rightarrow> test_world \<Rightarrow> test_world" where
  "cut_test_context_emit_signal P c r w =
     (case result_target (context_at w c) of
        None \<Rightarrow> w
      | Some target \<Rightarrow> cut_test_emit_result_signal P target (Some c) r w)"

text \<open>\<open>cut_crash_backtrace_emit\<close>.\<close>

definition crash_target ::
  "object_id option \<Rightarrow> object_id option \<Rightarrow> object_id option \<Rightarrow> object_id option \<Rightarrow> emit_target option" where
  "crash_target suite tcase test iter =
     (case test of Some t \<Rightarrow> Some (On_Test t)
      | None \<Rightarrow> (case iter of Some i \<Rightarrow> Some (On_Iterator i)
        | None \<Rightarrow> (case tcase of Some k \<Rightarrow> Some (On_Case k)
          | None \<Rightarrow> (case suite of Some x \<Rightarrow> Some (On_Suite x) | None \<Rightarrow> None))))"

definition cut_crash_backtrace_emit ::
  "test_program \<Rightarrow> object_id option \<Rightarrow> object_id option \<Rightarrow> object_id option \<Rightarrow> object_id option \<Rightarrow>
     object_id option \<Rightarrow> object_id option \<Rightarrow> test_world \<Rightarrow> test_world" where
  "cut_crash_backtrace_emit P suite tcase test iter data c w =
     (case crash_target suite tcase test iter of
        None \<Rightarrow> w
      | Some target \<Rightarrow>
          cut_test_emit_result_signal P target c
            (cut_test_result_new CRASH test iter tcase suite data None None (crash_entries P)) w)"

end
