(* ===== verification/Filters.thy ===== *)
theory Filters
  imports Cutter_Prelude
begin

text \<open>
  The filters of \<open>cutter/cut-utils.c\<close> that select tests, files and directories by name. A compiled
  expression is the set of the names that it matches; to compile and to escape are functions of the
  library.
\<close>

type_synonym regex = "ustring \<Rightarrow> bool"

text \<open>A text between two slashes is an expression, another one is matched literally.\<close>

definition cut_utils_create_regex_pattern :: "(ustring \<Rightarrow> ustring) \<Rightarrow> ustring option \<Rightarrow> ustring" where
  "cut_utils_create_regex_pattern escape string =
     (case string of
        None \<Rightarrow> [46, 42]
      | Some s \<Rightarrow>
          if 1 < length s \<and> hd s = 47 \<and> last s = 47 then take (length s - 2) (tl s)
          else [94] @ escape s @ [36])"

text \<open>An empty text is left out, and so is one that cannot be compiled. The last one comes first.\<close>

definition cut_utils_filter_to_regexs ::
  "(ustring \<Rightarrow> ustring) \<Rightarrow> (ustring \<Rightarrow> regex option) \<Rightarrow> ustring list \<Rightarrow> regex list" where
  "cut_utils_filter_to_regexs escape compile filters =
     rev (List.map_filter
            (\<lambda>s. if s = [] then None else compile (cut_utils_create_regex_pattern escape (Some s))) filters)"

text \<open>No expression matches NULL.\<close>

definition cut_utils_filter_match :: "regex list \<Rightarrow> ustring option \<Rightarrow> bool" where
  "cut_utils_filter_match regexs name =
     (case name of None \<Rightarrow> False | Some s \<Rightarrow> list_ex (\<lambda>r. r s) regexs)"

end
