(* ===== verification/Test_Run.thy ===== *)
theory Test_Run
  imports Test_Runner Filters
begin

text \<open>
  Running tests: the test (\<open>cutter/cut-test.c\<close>, \<open>cut-iterated-test.c\<close>), the
  test case (\<open>cut-test-case.c\<close>), the iterator (\<open>cut-test-iterator.c\<close>), the
  container with its filter (\<open>cut-test-container.c\<close>), the suite
  (\<open>cut-test-suite.c\<close>) and the runner, in one thread: the thread pools are NULL, so
  every piece of work runs at once. A long jump ends the user function that is running, as the
  jump buffer is set before each of them. A signal is caught by the innermost running function
  that has installed a crash handler; a second signal exits the process.
\<close>

section \<open>User functions\<close>

definition fatal_failure_message :: ustring where
  "fatal_failure_message = map of_char ''Treat a failure as a fatal problem, aborting.''"

text \<open>\<open>cut_test_context_process_current_result\<close>, in the parent process: emit the result
  and, when failures are fatal, end the run and the process.\<close>

definition cut_test_context_process_current_result :: "test_program \<Rightarrow> object_id \<Rightarrow> unit step" where
  "cut_test_context_process_current_result P c w =
     (case tc_current_result (context_at w c) of
        None \<Rightarrow> (Inr (), w)
      | Some r \<Rightarrow>
          (let w1 = cut_test_context_emit_signal P c r w
           in if result_status r = FAILURE \<and> fatal_failures (run_state w1)
              then (Inl Process_Exit,
                    emit_run P (Complete_Run False) (emit_run P (Error_Signal fatal_failure_message) w1))
              else (Inr (), update_context c clear_current_result w1)))"

definition cut_test_context_register_result ::
  "test_program \<Rightarrow> object_id \<Rightarrow> test_status \<Rightarrow> ustring option \<Rightarrow> unit step" where
  "cut_test_context_register_result P c s m w =
     cut_test_context_process_current_result P c
       (update_context c (cut_test_context_set_current_result s m) w)"

definition cut_test_context_pass_assertion :: "test_program \<Rightarrow> object_id \<Rightarrow> test_world \<Rightarrow> test_world" where
  "cut_test_context_pass_assertion P c w =
     (case tc_test (context_at w c) of
        None \<Rightarrow> w
      | Some t \<Rightarrow> emit_object P (O_Test t) (Sig_Pass_Assertion (Some c)) (update_context c clear_user_message w))"

definition cut_test_context_push_backtrace :: "backtrace_entry \<Rightarrow> test_context \<Rightarrow> test_context" where
  "cut_test_context_push_backtrace e c = c\<lparr>tc_backtrace := e # tc_backtrace c\<rparr>"

definition cut_test_context_pop_backtrace :: "test_context \<Rightarrow> test_context" where
  "cut_test_context_pop_backtrace c =
     (if tc_backtrace c \<noteq> [] then c\<lparr>tc_backtrace := tl (tc_backtrace c)\<rparr> else c)"

text \<open>A call acts on the current context; without one it dereferences NULL.\<close>

definition perform_call :: "test_program \<Rightarrow> object_id \<Rightarrow> user_call \<Rightarrow> unit step" where
  "perform_call P c call =
     (case call of
        Pass \<Rightarrow> do_step (cut_test_context_pass_assertion P c)
      | Set_Message m \<Rightarrow> do_step (update_context c (cut_test_context_set_user_message m))
      | Keep_Message \<Rightarrow> do_step (update_context c cut_test_context_keep_user_message)
      | Set_Expected_Text s \<Rightarrow> do_step (update_context c (cut_test_context_set_expected s))
      | Set_Actual_Text s \<Rightarrow> do_step (update_context c (cut_test_context_set_actual s))
      | Push_Backtrace e \<Rightarrow> do_step (update_context c (cut_test_context_push_backtrace e))
      | Pop_Backtrace \<Rightarrow> do_step (update_context c cut_test_context_pop_backtrace)
      | Add_Data ds \<Rightarrow> do_step (update_context c (cut_test_context_add_data ds))
      | Start_Message_Jump \<Rightarrow> do_step (update_context c cut_test_context_start_user_message_jump)
      | Finish_Message_Jump \<Rightarrow> do_step (update_context c cut_test_context_finish_user_message_jump)
      | Set_Result s m \<Rightarrow> do_step (update_context c (cut_test_context_set_current_result s m))
      | Set_Result_Message m \<Rightarrow>
          do_step (update_context c (cut_test_context_set_current_result_user_message m))
      | Process_Result \<Rightarrow> cut_test_context_process_current_result P c)"

fun perform_calls :: "test_program \<Rightarrow> user_call list \<Rightarrow> unit step" where
  "perform_calls P [] w = (Inr (), w)"
| "perform_calls P (call # calls) w =
     (case cut_test_context_current_peek w of
        None \<Rightarrow> (Inl (Signaled SIGSEGV), w)
      | Some c \<Rightarrow> bind_step (perform_call P c call) (\<lambda>_. perform_calls P calls) w)"

definition run_user_function :: "test_program \<Rightarrow> user_code \<Rightarrow> user_function \<Rightarrow> unit step" where
  "run_user_function P code f w =
     (let w1 = w\<lparr>user_calls := user_calls w @ [code]\<rparr>;
          (calls, e) = f w1
      in bind_step (perform_calls P calls)
           (\<lambda>_ w2. case e of
                Returns \<Rightarrow> (Inr (), w2)
              | Long_Jumps \<Rightarrow> (if cut_test_context_current_peek w2 = None
                               then (Inl (Signaled SIGSEGV), w2) else (Inr (), w2))
              | Raises s \<Rightarrow> (Inl (Signaled s), w2)) w1)"

definition run_user_option :: "test_program \<Rightarrow> user_code \<Rightarrow> user_function option \<Rightarrow> unit step" where
  "run_user_option P code fo w =
     (case fo of None \<Rightarrow> (Inr (), w) | Some f \<Rightarrow> run_user_function P code f w)"

text \<open>The crash handler (\<open>i_will_be_back_handler\<close>) with the \<open>switch\<close> on the
  signal after \<open>setjmp\<close>.\<close>

definition catch_signal :: "bool \<Rightarrow> 'a step \<Rightarrow> (posix_signal \<Rightarrow> 'a step) \<Rightarrow> 'a step" where
  "catch_signal installed body on_signal w =
     (case body w of
        (Inl (Signaled s), w') \<Rightarrow>
          (if \<not> installed then (Inl (Signaled s), w')
           else if signal_received w' then (Inl Process_Exit, w')
           else on_signal s (w'\<lparr>signal_received := True\<rparr>))
      | r \<Rightarrow> r)"

definition crash_handler_installed :: "test_world \<Rightarrow> bool" where
  "crash_handler_installed w \<longleftrightarrow> \<not> (is_multi_thread (run_state w) \<or> \<not> handle_signals (run_state w))"

definition cancel_run :: "test_world \<Rightarrow> test_world" where
  "cancel_run w = w\<lparr>run_state := cut_run_context_cancel (run_state w)\<rparr>"

section \<open>Tests\<close>

text \<open>\<open>is_available\<close> and \<open>invoke\<close> of a plain and of an iterated test.\<close>

definition test_body :: "test_program \<Rightarrow> object_id \<Rightarrow> test_world \<Rightarrow> user_function option" where
  "test_body P t w =
     (case iterated_tests w t of
        None \<Rightarrow> test_function P t
      | Some it \<Rightarrow> map_option (\<lambda>f. f (data_value (it_data it))) (iterated_test_function P (it_iterator it)))"

definition test_data_id :: "object_id \<Rightarrow> test_world \<Rightarrow> object_id option" where
  "test_data_id t w = (case iterated_tests w t of None \<Rightarrow> None | Some it \<Rightarrow> data_value (it_data it))"

definition invoke_test :: "test_program \<Rightarrow> object_id \<Rightarrow> object_id \<Rightarrow> user_function \<Rightarrow> bool step" where
  "invoke_test P t c f w =
     bind_step (run_user_function P (Test_Body t) f)
       (\<lambda>_ w2. (Inr (\<not> cut_test_context_is_failed (context_at w2 c)), w2))
       (emit_object P (O_Test t) (Sig_Start (Some c)) w)"

definition test_signaled ::
  "test_program \<Rightarrow> object_id \<Rightarrow> object_id \<Rightarrow> test_context \<Rightarrow> object_id option \<Rightarrow> posix_signal \<Rightarrow> bool step" where
  "test_signaled P t c tc data s w =
     (case s of
        SIGINT \<Rightarrow> (Inr True, cancel_run w)
      | _ \<Rightarrow> (Inr False,
              cut_crash_backtrace_emit P (tc_test_suite (context_at w c)) (tc_test_case tc) (Some t)
                (tc_test_iterator tc) data (Some c) w))"

definition run_plain_test :: "test_program \<Rightarrow> object_id \<Rightarrow> object_id \<Rightarrow> bool step" where
  "run_plain_test P t c w =
     (case test_body P t w of
        None \<Rightarrow> (Inr False, w)
      | Some f \<Rightarrow>
          (let tc = context_at w c;
               data = test_data_id t w
           in bind_step
                (catch_signal (crash_handler_installed w) (invoke_test P t c f)
                  (test_signaled P t c tc data))
                (\<lambda>success w1.
                   let w2 = (if success
                             then cut_test_emit_result_signal P (On_Test t) (Some c)
                                    (cut_test_result_new SUCCESS (Some t) (tc_test_iterator tc)
                                       (tc_test_case tc) None data None None []) w1
                             else w1)
                   in (Inr success, emit_object P (O_Test t) (Sig_Complete (Some c) success) w2)) w))"

section \<open>Filters\<close>

text \<open>\<open>g_strconcat\<close> ends at the first NULL, so data without a name leaves the bracket
  open. Iterated tests are created with the name of their iterator.\<close>

definition data_suffix :: "test_data \<Rightarrow> ustring" where
  "data_suffix d = (case data_name d of None \<Rightarrow> [32, 40] | Some m \<Rightarrow> [32, 40] @ m @ [41])"

definition cut_test_get_name :: "test_program \<Rightarrow> object_id \<Rightarrow> test_world \<Rightarrow> ustring option" where
  "cut_test_get_name P t w =
     (case iterated_tests w t of None \<Rightarrow> test_name P t | Some it \<Rightarrow> test_name P (it_iterator it))"

definition cut_test_get_full_name :: "test_program \<Rightarrow> object_id \<Rightarrow> test_world \<Rightarrow> ustring option" where
  "cut_test_get_full_name P t w =
     (case (cut_test_get_name P t w, map_option it_data (iterated_tests w t)) of
        (Some n, Some d) \<Rightarrow> Some (n @ data_suffix d)
      | (Some n, None) \<Rightarrow> Some n
      | (None, Some d) \<Rightarrow> Some (data_suffix d)
      | (None, None) \<Rightarrow> None)"

definition cut_test_container_filter_children ::
  "test_program \<Rightarrow> object_id list \<Rightarrow> ustring list option \<Rightarrow> test_world \<Rightarrow> object_id list" where
  "cut_test_container_filter_children P original names w =
     (case names of
        None \<Rightarrow> original
      | Some ns \<Rightarrow>
          (let rs = cut_utils_filter_to_regexs (regex_escape P) (regex_new P) ns
           in if rs = [] then original
              else filter (\<lambda>t. is_iterator P t \<or> cut_utils_filter_match rs (cut_test_get_name P t w) \<or>
                                cut_utils_filter_match rs (cut_test_get_full_name P t w)) original))"

definition cut_test_container_get_n_tests ::
  "test_program \<Rightarrow> object_id list \<Rightarrow> test_world \<Rightarrow> nat" where
  "cut_test_container_get_n_tests P children w =
     (case target_test_names P of
        None \<Rightarrow> length children
      | Some ns \<Rightarrow> length (cut_test_container_filter_children P children (Some ns) w))"

section \<open>Set-up and tear-down\<close>

definition cut_test_case_run_setup :: "test_program \<Rightarrow> object_id \<Rightarrow> unit step" where
  "cut_test_case_run_setup P k w = run_user_option P (Setup k) (case_setup P k) w"

definition cut_test_case_run_teardown :: "test_program \<Rightarrow> object_id \<Rightarrow> unit step" where
  "cut_test_case_run_teardown P k w = run_user_option P (Teardown k) (case_teardown P k) w"

definition cut_test_case_run_startup :: "test_program \<Rightarrow> object_id \<Rightarrow> unit step" where
  "cut_test_case_run_startup P k w = run_user_option P (Startup k) (case_startup P k) w"

definition cut_test_case_run_shutdown :: "test_program \<Rightarrow> object_id \<Rightarrow> unit step" where
  "cut_test_case_run_shutdown P k w = run_user_option P (Shutdown k) (case_shutdown P k) w"

section \<open>Iterators\<close>

text \<open>\<open>cb_test_status\<close> is connected for these signals; the iterator leaves out the crash.\<close>

definition collected_kinds :: "signal_kind list" where
  "collected_kinds =
     [K_Status SUCCESS, K_Status FAILURE, K_Status ERROR, K_Status PENDING, K_Status NOTIFICATION,
      K_Status OMISSION, K_Status CRASH]"

definition iterated_collected_kinds :: "signal_kind list" where
  "iterated_collected_kinds =
     [K_Status SUCCESS, K_Status FAILURE, K_Status ERROR, K_Status PENDING, K_Status NOTIFICATION,
      K_Status OMISSION]"

text \<open>The loop over the data: each creates an iterated test, a child of the iterator, whose
  results are collected.\<close>

definition create_iterated_test :: "object_id \<Rightarrow> nat \<Rightarrow> test_data \<Rightarrow> test_world \<Rightarrow> test_world" where
  "create_iterated_test i cell d w =
     (let t = next_object w;
          w1 = w\<lparr>next_object := t + 1,
                 iterated_tests := (iterated_tests w)(t := Some \<lparr>it_iterator = i, it_data = d\<rparr>),
                 iterator_children := (iterator_children w)(i := iterator_children w i @ [t])\<rparr>
      in connect (O_Test t) iterated_collected_kinds (Collect cell) w1)"

definition created_ids :: "test_world \<Rightarrow> nat \<Rightarrow> object_id list" where
  "created_ids w n = [next_object w ..< next_object w + n]"

text \<open>\<open>run_test_without_thread\<close>. The crash branch sets the pointer \<open>success\<close> itself
  to NULL, and the emission after the \<open>switch\<close> dereferences it: a second signal, which ends
  the process. The value is the new value of the shared success flag.\<close>

definition iterated_body ::
  "test_program \<Rightarrow> object_id \<Rightarrow> object_id \<Rightarrow> object_id \<Rightarrow> object_id \<Rightarrow> bool \<Rightarrow> bool option step" where
  "iterated_body P i k t c success w =
     bind_step (cut_test_case_run_setup P k)
       (\<lambda>_ w1. if cut_test_context_is_failed (context_at w1 c) then (Inr (Some False), w1)
               else bind_step (run_plain_test P t c)
                      (\<lambda>ok. result_step (Some (if ok then success else False))) w1)
       (emit_object P (O_Test i) (Sig_Start_Iterated_Test t c) w)"

definition iterated_signaled ::
  "test_program \<Rightarrow> object_id \<Rightarrow> object_id \<Rightarrow> object_id \<Rightarrow> object_id \<Rightarrow> bool \<Rightarrow> posix_signal \<Rightarrow> bool option step" where
  "iterated_signaled P i k t c success s w =
     (case s of
        SIGINT \<Rightarrow> (Inr (Some success), cancel_run w)
      | _ \<Rightarrow> (Inr None,
              cut_crash_backtrace_emit P (Some (suite_id P)) (Some k) (Some t) (Some i)
                (test_data_id t w) (Some c) w))"

definition run_test_without_thread ::
  "test_program \<Rightarrow> object_id \<Rightarrow> object_id \<Rightarrow> object_id \<Rightarrow> object_id \<Rightarrow> object_id \<Rightarrow> bool \<Rightarrow> bool step" where
  "run_test_without_thread P i k t c parent success w =
     (if cut_run_context_is_canceled (run_state w) then (Inr success, w)
      else
        (let w1 = cut_test_context_current_push c w
         in bind_step
              (catch_signal (crash_handler_installed w1) (iterated_body P i k t c success)
                (iterated_signaled P i k t c success))
              (\<lambda>flag. bind_step (cut_test_case_run_teardown P k)
                 (\<lambda>_ w2.
                    let w3 = update_context parent
                               (cut_test_context_set_failed
                                  (cut_test_context_is_failed (context_at w2 c))) w2
                    in case flag of
                         None \<Rightarrow> (Inl (Signaled SIGSEGV), w3)
                       | Some b \<Rightarrow>
                           (let w4 = emit_object P (O_Test i) (Sig_Complete_Iterated_Test t c b) w3;
                                w5 = update_context c (cut_test_context_set_test None) w4;
                                w6 = update_context parent (cut_test_context_set_test None) w5
                            in (Inr b, cut_test_context_current_pop w6)))) w1))"

text \<open>\<open>run_test_with_thread_support\<close> without a pool: the iterated test gets a context
  of its own with its data.\<close>

definition local_context :: "test_program \<Rightarrow> object_id \<Rightarrow> object_id \<Rightarrow> object_id \<Rightarrow> object_id \<Rightarrow> test_world \<Rightarrow> test_context" where
  "local_context P i k t c w =
     (let multi = (if multi_thread_attribute P i = Some (map of_char ''false'') then False
                   else is_multi_thread (run_state w))
      in cut_test_context_set_test (Some t)
           (cut_test_context_set_data (map_option it_data (iterated_tests w t))
             (cut_test_context_set_multi_thread multi
               (cut_test_context_new None (Some k) (Some i) (Some t)))))"

definition run_test_with_thread_support ::
  "test_program \<Rightarrow> object_id \<Rightarrow> object_id \<Rightarrow> object_id \<Rightarrow> object_id \<Rightarrow> bool \<Rightarrow> bool step" where
  "run_test_with_thread_support P i k t c success w =
     (if cut_run_context_is_canceled (run_state w) then (Inr success, w)
      else
        (let l = length (contexts w);
             w1 = new_context (local_context P i k t c w) w;
             w2 = update_context c (cut_test_context_set_test (Some t)) w1
         in run_test_without_thread P i k t l c success w2))"

fun run_filtered_tests ::
  "test_program \<Rightarrow> object_id \<Rightarrow> object_id \<Rightarrow> object_id \<Rightarrow> object_id list \<Rightarrow> bool \<Rightarrow> bool step" where
  "run_filtered_tests P i k c [] success w = (Inr success, w)"
| "run_filtered_tests P i k c (t # ts) success w =
     bind_step (run_test_with_thread_support P i k t c success)
       (\<lambda>b. run_filtered_tests P i k c ts b) w"

definition cut_iterated_test_clear_data :: "object_id \<Rightarrow> test_world \<Rightarrow> test_world" where
  "cut_iterated_test_clear_data t w =
     w\<lparr>iterated_tests := (iterated_tests w)
         (t := map_option (\<lambda>it. it\<lparr>it_data := cut_test_data_set_value None (it_data it)\<rparr>)
                 (iterated_tests w t))\<rparr>"

definition forget_iterated_test :: "nat \<Rightarrow> object_id \<Rightarrow> test_world \<Rightarrow> test_world" where
  "forget_iterated_test cell t w =
     cut_iterated_test_clear_data t (disconnect (O_Test t) iterated_collected_kinds (Collect cell) w)"

definition run_iterated_tests ::
  "test_program \<Rightarrow> object_id \<Rightarrow> object_id \<Rightarrow> object_id \<Rightarrow> nat \<Rightarrow> bool step" where
  "run_iterated_tests P i k c cell w =
     (let ds = iterated_data (context_at w c);
          ts = created_ids w (length ds);
          w1 = fold (create_iterated_test i cell) ds w;
          w2 = update_context c (cut_test_context_shift_data ^^ length ds) w1;
          filtered = cut_test_container_filter_children P (iterator_children w2 i) (target_test_names P) w2;
          n = cut_test_container_get_n_tests P (iterator_children w2 i) w2;
          w3 = emit_object P (O_Test i) (Sig_Start None) (emit_object P (O_Test i) (Sig_Ready n 0) w2)
      in bind_step (run_filtered_tests P i k c filtered True)
           (\<lambda>success w4. (Inr success, fold (forget_iterated_test cell) ts w4)) w3)"

definition new_cell :: "test_world \<Rightarrow> test_world" where
  "new_cell w = w\<lparr>status_cells := status_cells w @ [SUCCESS]\<rparr>"

definition run_iterator :: "test_program \<Rightarrow> object_id \<Rightarrow> object_id \<Rightarrow> bool step" where
  "run_iterator P i c w =
     (case data_setup_function P i of
        None \<Rightarrow> (Inr False, w)
      | Some f \<Rightarrow>
          bind_step (run_user_function P (Data_Setup i) f)
            (\<lambda>_ w1.
               if cut_test_context_is_failed (context_at w1 c)
               then (Inr False, update_context c (cut_test_context_set_test_iterator None) w1)
               else
                 (let k = the (tc_test_case (context_at w1 c));
                      cell = length (status_cells w1)
                  in bind_step (run_iterated_tests P i k c cell)
                       (\<lambda>success w2.
                          let r = cut_test_result_new (status_cells w2 ! cell) None (Some i) (Some k)
                                    None None None None [];
                              w3 = cut_test_emit_result_signal P (On_Iterator i) (Some c) r w2;
                              w4 = emit_object P (O_Test i) (Sig_Complete None success) w3
                          in (Inr success,
                              update_context c (cut_test_context_set_test_iterator None) w4))
                       (new_cell w1)))
            (update_context c (cut_test_context_set_test_iterator (Some i)) w))"

text \<open>\<open>cut_test_run\<close>: the class of the object decides.\<close>

definition cut_test_run :: "test_program \<Rightarrow> object_id \<Rightarrow> object_id \<Rightarrow> bool step" where
  "cut_test_run P t c w = (if is_iterator P t then run_iterator P t c w else run_plain_test P t c w)"

section \<open>Test cases\<close>

definition run_if_needed :: "test_program \<Rightarrow> object_id \<Rightarrow> object_id \<Rightarrow> bool step" where
  "run_if_needed P t c w =
     (if cut_test_context_is_failed (context_at w c) then (Inr False, w)
      else if cut_test_context_need_test_run (context_at w c) then cut_test_run P t c w
      else (Inr True, w))"

definition run_test :: "test_program \<Rightarrow> object_id \<Rightarrow> object_id \<Rightarrow> object_id \<Rightarrow> bool step" where
  "run_test P k t c w =
     (if is_iterator P t
      then bind_step (run_if_needed P t c)
             (\<lambda>success w1. (Inr success, emit_object P (O_Case k) (Sig_Complete_Test_Iterator t c success) w1))
             (emit_object P (O_Case k) (Sig_Start_Test_Iterator t c) w)
      else bind_step (cut_test_case_run_setup P k)
             (\<lambda>_. bind_step (run_if_needed P t c)
                (\<lambda>success. bind_step (cut_test_case_run_teardown P k)
                   (\<lambda>_ w1. (Inr success, emit_object P (O_Case k) (Sig_Complete_Test t c success) w1))))
             (emit_object P (O_Case k) (Sig_Start_Test t c) w))"

definition case_run :: "test_program \<Rightarrow> object_id \<Rightarrow> object_id \<Rightarrow> bool step" where
  "case_run P k t w =
     (if cut_run_context_is_canceled (run_state w) then (Inr True, w)
      else
        (let c = length (contexts w);
             w1 = new_context (cut_test_context_set_multi_thread (is_multi_thread (run_state w))
                    (cut_test_context_new (Some (suite_id P)) (Some k) None None)) w;
             w2 = update_context c (cut_test_context_set_test (Some t))
                    (cut_test_context_current_push c w1)
         in bind_step (run_test P k t c)
              (\<lambda>success w3. (Inr success,
                 cut_test_context_current_pop (update_context c (cut_test_context_set_test None) w3))) w2))"

fun run_tests :: "test_program \<Rightarrow> object_id \<Rightarrow> nat \<Rightarrow> object_id list \<Rightarrow> bool step" where
  "run_tests P k cell [] w = (Inr True, w)"
| "run_tests P k cell (t # ts) w =
     bind_step (case_run P k t)
       (\<lambda>ok w1. bind_step (run_tests P k cell ts)
          (\<lambda>all_ok. result_step (ok \<and> all_ok))
          (disconnect (O_Test t) collected_kinds (Collect cell) w1))
       (connect (O_Test t) collected_kinds (Collect cell) w)"

definition in_case_kinds :: "signal_kind list" where
  "in_case_kinds =
     [K_Status_In FAILURE, K_Status_In ERROR, K_Status_In PENDING, K_Status_In NOTIFICATION,
      K_Status_In OMISSION, K_Status_In CRASH]"

definition case_body :: "test_program \<Rightarrow> object_id \<Rightarrow> object_id \<Rightarrow> nat \<Rightarrow> object_id list \<Rightarrow> bool step" where
  "case_body P k c cell tests w =
     bind_step (cut_test_case_run_startup P k)
       (\<lambda>_ w1. if cut_test_context_is_failed (context_at w1 c) then (Inr False, w1)
               else if status_cells w1 ! cell \<noteq> OMISSION then run_tests P k cell tests w1
               else (Inr True, w1)) w"

definition case_signaled :: "test_program \<Rightarrow> object_id \<Rightarrow> object_id \<Rightarrow> posix_signal \<Rightarrow> bool step" where
  "case_signaled P k c s w =
     (case s of
        SIGINT \<Rightarrow> (Inr True, cancel_run w)
      | _ \<Rightarrow> (Inr False,
              cut_crash_backtrace_emit P (Some (suite_id P)) (Some k) None None None (Some c) w))"

definition cut_test_case_emit_result_signal :: "test_program \<Rightarrow> object_id \<Rightarrow> test_result \<Rightarrow> test_world \<Rightarrow> test_world" where
  "cut_test_case_emit_result_signal P k r w =
     emit_object P (O_Case k) (Sig_Status (result_status r) None (cut_test_set_result_elapsed P k r)) w"

definition finish_case ::
  "test_program \<Rightarrow> object_id \<Rightarrow> nat \<Rightarrow> bool \<Rightarrow> bool step" where
  "finish_case P k cell success w =
     bind_step (cut_test_case_run_shutdown P k)
       (\<lambda>_ w1.
          let w2 = disconnect (O_Case k) in_case_kinds (Collect cell) w1;
              r = cut_test_result_new (status_cells w2 ! cell) None None (Some k) None None None None [];
              w3 = cut_test_case_emit_result_signal P k r w2;
              w4 = emit_object P (O_Case k) (Sig_Complete None success) w3
          in (Inr success, cut_test_context_current_pop w4)) w"

definition cut_test_case_run_tests :: "test_program \<Rightarrow> object_id \<Rightarrow> object_id list \<Rightarrow> bool step" where
  "cut_test_case_run_tests P k tests w =
     (let w1 = emit_object P (O_Case k) (Sig_Start None) (emit_object P (O_Case k) (Sig_Ready (length tests) 0) w);
          c = length (contexts w1);
          cell = length (status_cells w1);
          w2 = new_cell (new_context (cut_test_context_new (Some (suite_id P)) (Some k) None None) w1);
          w3 = connect (O_Case k) in_case_kinds (Collect cell) (cut_test_context_current_push c w2)
      in bind_step
           (catch_signal (crash_handler_installed w3) (case_body P k c cell tests) (case_signaled P k c))
           (finish_case P k cell) w3)"

definition get_filtered_tests :: "test_program \<Rightarrow> object_id \<Rightarrow> ustring list option \<Rightarrow> test_world \<Rightarrow> object_id list" where
  "get_filtered_tests P k names w =
     (case names of
        Some (n # ns) \<Rightarrow> cut_test_container_filter_children P (case_tests P k) names w
      | _ \<Rightarrow> case_tests P k)"

definition cut_test_case_run_with_filter :: "test_program \<Rightarrow> object_id \<Rightarrow> ustring list option \<Rightarrow> bool step" where
  "cut_test_case_run_with_filter P k names w =
     (let tests = get_filtered_tests P k names w
      in if tests = [] then (Inr True, w) else cut_test_case_run_tests P k tests w)"

definition cut_test_case_run_test :: "test_program \<Rightarrow> object_id \<Rightarrow> ustring \<Rightarrow> bool step" where
  "cut_test_case_run_test P k name w = cut_test_case_run_with_filter P k (Some [name]) w"

definition cut_test_case_run :: "test_program \<Rightarrow> object_id \<Rightarrow> bool step" where
  "cut_test_case_run P k w = cut_test_case_run_with_filter P k (target_test_names P) w"

section \<open>Suites\<close>

text \<open>The flag \<open>all_success\<close> of \<open>cut_test_suite_run_test_cases\<close> is shared with
  the threads by a pointer; it is the field \<open>suite_success\<close> of the state.\<close>

definition suite_run_case :: "test_program \<Rightarrow> object_id \<Rightarrow> ustring list option \<Rightarrow> unit step" where
  "suite_run_case P k names w =
     bind_step (cut_test_case_run_with_filter P k names)
       (\<lambda>ok w1.
          let w2 = (if ok then w1 else w1\<lparr>suite_success := False\<rparr>)
          in (Inr (), emit_object P (O_Suite (suite_id P)) (Sig_Complete_Test_Case k (suite_success w2)) w2))
       (emit_object P (O_Suite (suite_id P)) (Sig_Start_Test_Case k) w)"

definition suite_run_with_thread_support ::
  "test_program \<Rightarrow> object_id \<Rightarrow> ustring list option \<Rightarrow> unit step" where
  "suite_run_with_thread_support P k names w =
     (if cut_run_context_is_canceled (run_state w) then (Inr (), w)
      else suite_run_case P k names w)"

fun run_test_cases :: "test_program \<Rightarrow> ustring list option \<Rightarrow> object_id list \<Rightarrow> unit step" where
  "run_test_cases P names [] w = (Inr (), w)"
| "run_test_cases P names (k # ks) w =
     bind_step (suite_run_with_thread_support P k names) (\<lambda>_. run_test_cases P names ks) w"

definition emit_ready_signal :: "test_program \<Rightarrow> object_id list \<Rightarrow> test_world \<Rightarrow> test_world" where
  "emit_ready_signal P ks w =
     emit_object P (O_Suite (suite_id P))
       (Sig_Ready (length ks)
         (guint (sum_list (map (\<lambda>k. cut_test_container_get_n_tests P (case_tests P k) w) ks)))) w"

definition suite_body :: "test_program \<Rightarrow> ustring list option \<Rightarrow> object_id list \<Rightarrow> bool step" where
  "suite_body P names ks w =
     bind_step (run_user_option P Warmup (suite_warmup P))
       (\<lambda>_. bind_step (run_test_cases P names ks)
          (\<lambda>_ w1.
             (Inr (suite_success w1),
              if suite_success w1
              then cut_test_emit_result_signal P (On_Suite (suite_id P)) None
                     (cut_test_result_new SUCCESS None None None (Some (suite_id P)) None None None []) w1
              else w1)))
       (emit_object P (O_Suite (suite_id P)) (Sig_Start None) (emit_ready_signal P ks w))"

definition suite_signaled :: "test_program \<Rightarrow> posix_signal \<Rightarrow> bool step" where
  "suite_signaled P s w =
     (case s of
        SIGINT \<Rightarrow> (Inr (suite_success w), cancel_run w)
      | _ \<Rightarrow> (Inr False,
              cut_crash_backtrace_emit P (Some (suite_id P)) None None None None None w))"

definition cut_test_suite_run_test_cases ::
  "test_program \<Rightarrow> object_id list \<Rightarrow> ustring list option \<Rightarrow> bool step" where
  "cut_test_suite_run_test_cases P ks names w =
     (let sorted = cut_run_context_sort_test_cases (\<lambda>k. case test_name P k of Some n \<Rightarrow> n | None \<Rightarrow> [])
                     (run_state w) ks
      in bind_step
           (catch_signal (handle_signals (run_state w)) (suite_body P names sorted) (suite_signaled P))
           (\<lambda>success. bind_step (run_user_option P Cooldown (suite_cooldown P))
              (\<lambda>_ w1. (Inr success, emit_object P (O_Suite (suite_id P)) (Sig_Complete None success) w1)))
           (w\<lparr>suite_success := True\<rparr>))"

definition cut_test_suite_run_with_filter ::
  "test_program \<Rightarrow> ustring list option \<Rightarrow> ustring list option \<Rightarrow> bool step" where
  "cut_test_suite_run_with_filter P case_names names w =
     (let ks = (case case_names of
                  Some (n # ns) \<Rightarrow> cut_test_container_filter_children P (suite_cases P) case_names w
                | _ \<Rightarrow> suite_cases P)
      in if ks = [] then (Inr True, w) else cut_test_suite_run_test_cases P ks names w)"

definition cut_test_suite_run :: "test_program \<Rightarrow> bool step" where
  "cut_test_suite_run P w =
     cut_test_suite_run_with_filter P (target_test_case_names P) (target_test_names P) w"

definition cut_test_suite_run_test_case :: "test_program \<Rightarrow> ustring \<Rightarrow> bool step" where
  "cut_test_suite_run_test_case P case_name w = cut_test_suite_run_with_filter P (Some [case_name]) None w"

definition cut_test_suite_run_test :: "test_program \<Rightarrow> ustring \<Rightarrow> bool step" where
  "cut_test_suite_run_test P name w = cut_test_suite_run_test_cases P (suite_cases P) (Some [name]) w"

definition cut_test_suite_run_test_in_test_case :: "test_program \<Rightarrow> ustring \<Rightarrow> ustring \<Rightarrow> bool step" where
  "cut_test_suite_run_test_in_test_case P name case_name w =
     cut_test_suite_run_with_filter P (Some [case_name]) (Some [name]) w"

section \<open>The runner\<close>

definition cut_test_runner_run_test :: "test_program \<Rightarrow> object_id \<Rightarrow> object_id \<Rightarrow> bool step" where
  "cut_test_runner_run_test P t c w = cut_test_run P t c (connect_to_test t w)"

definition cut_test_runner_run_test_case :: "test_program \<Rightarrow> object_id \<Rightarrow> bool step" where
  "cut_test_runner_run_test_case P k w = cut_test_case_run P k (connect_to_test_case k w)"

definition cut_test_runner_run_test_iterator :: "test_program \<Rightarrow> object_id \<Rightarrow> object_id \<Rightarrow> bool step" where
  "cut_test_runner_run_test_iterator P i c w = cut_test_run P i c (connect_to_test_iterator i w)"

definition cut_test_runner_run_test_suite :: "test_program \<Rightarrow> bool step" where
  "cut_test_runner_run_test_suite P w = cut_test_suite_run P (connect_to_test_suite (suite_id P) w)"

definition emit_complete_run :: "test_program \<Rightarrow> bool \<Rightarrow> test_world \<Rightarrow> bool \<times> test_world" where
  "emit_complete_run P success w =
     (let success' = (if cut_test_result_status_is_critical (cut_run_context_get_status (run_state w))
                      then False else success)
      in (success', emit_run P (Complete_Run success') w))"

definition runner_run :: "test_program \<Rightarrow> bool step" where
  "runner_run P w =
     bind_step (cut_test_runner_run_test_suite P)
       (\<lambda>success w1. (let (b, w2) = emit_complete_run P success w1 in (Inr b, w2)))
       (emit_run P Start_Run w)"

definition initial_world :: "run_context \<Rightarrow> object_id \<Rightarrow> test_world" where
  "initial_world rc next =
     \<lparr>run_state = rc, run_signals = [], contexts = [], current_contexts = [], handler_table = [],
      status_cells = [], iterator_children = (\<lambda>_. []), iterated_tests = (\<lambda>_. None),
      next_object = next, user_calls = [], suite_success = True, signal_received = False\<rparr>"

end
