(* ===== verification/Run_Relation.thy ===== *)
theory Run_Relation
  imports Test_Run
begin

text \<open>
  What the functions of \<open>Test_Run\<close> do to the state, whatever the program: relations
  between the states before and after. There is one locale per layer (user functions and tests,
  iterators, test cases, suites, the whole run); a relation that holds for the primitive changes
  and emissions of the layer holds for every function of the layer.
\<close>

lemma snd_bind_step:
  "snd (bind_step m f w) = (case m w of (Inl s, w') \<Rightarrow> w' | (Inr a, w') \<Rightarrow> snd (f a w'))"
  by (simp add: bind_step_def split: prod.splits sum.splits)

text \<open>The changes of a context that the calls of user code make, and the signals of a test.\<close>

inductive_set context_calls :: "(test_context \<Rightarrow> test_context) set" where
  "clear_user_message \<in> context_calls"
| "clear_current_result \<in> context_calls"
| "cut_test_context_set_user_message m \<in> context_calls"
| "cut_test_context_keep_user_message \<in> context_calls"
| "cut_test_context_set_expected s \<in> context_calls"
| "cut_test_context_set_actual s \<in> context_calls"
| "cut_test_context_push_backtrace e \<in> context_calls"
| "cut_test_context_pop_backtrace \<in> context_calls"
| "cut_test_context_add_data ds \<in> context_calls"
| "cut_test_context_start_user_message_jump \<in> context_calls"
| "cut_test_context_finish_user_message_jump \<in> context_calls"
| "cut_test_context_set_current_result st m \<in> context_calls"
| "cut_test_context_set_current_result_user_message m \<in> context_calls"

fun test_level :: "object_signal \<Rightarrow> bool" where
  "test_level (Sig_Start c) = True"
| "test_level (Sig_Pass_Assertion c) = True"
| "test_level (Sig_Status s c r) = True"
| "test_level (Sig_Complete c b) = True"
| "test_level sig = False"

section \<open>User functions and tests\<close>

locale test_relation =
  fixes P :: test_program and R :: "test_world \<Rightarrow> test_world \<Rightarrow> bool"
  assumes refl [simp, intro]: "R w w"
    and trans: "R u v \<Longrightarrow> R v w \<Longrightarrow> R u w"
    and logged: "R w (w\<lparr>user_calls := user_calls w @ [code]\<rparr>)"
    and canceling: "R w (cancel_run w)"
    and received: "R w (w\<lparr>signal_received := True\<rparr>)"
    and emitted: "R w (emit_run P sig w)"
    and context_call: "f \<in> context_calls \<Longrightarrow> R w (update_context c f w)"
    and test_signal: "test_level osig \<Longrightarrow> R w (emit_object P (O_Test t) osig w)"
    and case_result: "R w (emit_object P (O_Case k) (Sig_Status_In st tc r) w)"
    and suite_result: "R w (emit_object P (O_Suite x) (Sig_Status st tc r) w)"
begin

lemma bind:
  assumes "R v w" and m: "\<And>x. R x (snd (m x))" and f: "\<And>a x. R x (snd (f a x))"
  shows "R v (snd (bind_step m f w))"
proof (cases "m w")
  case (Pair r w')
  with m [of w] have "R w w'" by simp
  with assms(1) have v: "R v w'" by (rule trans)
  show ?thesis
  proof (cases r)
    case (Inl s)
    then show ?thesis using v Pair by (simp add: snd_bind_step)
  next
    case (Inr a)
    then show ?thesis using trans [OF v f [of w' a]] Pair by (simp add: snd_bind_step)
  qed
qed

lemma catch:
  assumes "R v w" and m: "\<And>x. R x (snd (m x))" and h: "\<And>s x. R x (snd (h s x))"
  shows "R v (snd (catch_signal b m h w))"
proof (cases "m w")
  case (Pair r w')
  with m [of w] have "R w w'" by simp
  with assms(1) have v: "R v w'" by (rule trans)
  have "R v (snd (h s (w'\<lparr>signal_received := True\<rparr>)))" for s
    using trans [OF trans [OF v received] h] .
  then show ?thesis using v Pair
    by (auto simp: catch_signal_def split: sum.splits stop.splits)
qed

lemma emit_result [intro]: "R w (cut_test_emit_result_signal P target c r w)"
  by (simp add: cut_test_emit_result_signal_def test_signal case_result suite_result split: emit_target.splits)

lemma emit_signal [intro]: "R w (cut_test_context_emit_signal P c r w)"
  by (auto simp: cut_test_context_emit_signal_def split: option.splits)

lemma crash_emit [intro]: "R w (cut_crash_backtrace_emit P su k t i d c w)"
  by (auto simp: cut_crash_backtrace_emit_def split: option.splits)

lemma process_result [intro]: "R w (snd (cut_test_context_process_current_result P c w))"
proof (cases "tc_current_result (context_at w c)")
  case (Some r)
  let ?w1 = "cut_test_context_emit_signal P c r w"
  have 1: "R w ?w1" by (rule emit_signal)
  have "R w (emit_run P (Complete_Run False) (emit_run P (Error_Signal fatal_failure_message) ?w1))"
    by (rule trans [OF trans [OF 1 emitted] emitted])
  moreover have "R w (update_context c clear_current_result ?w1)"
    by (rule trans [OF 1 context_call]) (rule context_calls.intros)
  ultimately show ?thesis
    by (simp add: cut_test_context_process_current_result_def Some Let_def)
qed (simp add: cut_test_context_process_current_result_def)

lemma pass_assertion [intro]: "R w (cut_test_context_pass_assertion P c w)"
  by (auto simp: cut_test_context_pass_assertion_def
      intro: trans [OF context_call test_signal] context_calls.intros split: option.splits)

lemma perform_call [intro]: "R w (snd (perform_call P c call w))"
  by (auto simp: perform_call_def do_step_def context_call context_calls.intros split: user_call.splits)

lemma perform_calls: "R w (snd (perform_calls P calls w))"
  by (induction calls arbitrary: w) (auto split: option.splits intro!: bind)

lemma user_function: "R w (snd (run_user_function P code f w))"
proof -
  obtain calls e where f: "f (w\<lparr>user_calls := user_calls w @ [code]\<rparr>) = (calls, e)" by fastforce
  show ?thesis
    by (auto simp: run_user_function_def f intro!: bind logged perform_calls split: function_end.splits)
qed

lemma user_option: "R w (snd (run_user_option P code fo w))"
  by (auto simp: run_user_option_def user_function split: option.splits)

lemma set_up: "R w (snd (cut_test_case_run_setup P k w))"
  and teardown: "R w (snd (cut_test_case_run_teardown P k w))"
  and startup: "R w (snd (cut_test_case_run_startup P k w))"
  and shutdown: "R w (snd (cut_test_case_run_shutdown P k w))"
  by (simp_all add: cut_test_case_run_setup_def cut_test_case_run_teardown_def
      cut_test_case_run_startup_def cut_test_case_run_shutdown_def user_option)

lemma invoke: "R w (snd (invoke_test P t c f w))"
  by (auto simp: invoke_test_def test_signal intro!: bind user_function)

lemma signaled:
  "R w (snd (test_signaled P t c tc d s w))"
  "R w (snd (iterated_signaled P i k t c b s w))"
  "R w (snd (case_signaled P k c s w))"
  "R w (snd (suite_signaled P s w))"
  by (auto simp: test_signaled_def iterated_signaled_def case_signaled_def suite_signaled_def canceling
      split: posix_signal.splits)

lemma plain_test: "R w (snd (run_plain_test P t c w))"
proof -
  have complete: "R x (emit_object P (O_Test t) (Sig_Complete cc b) x)" for x cc b
    by (rule test_signal) simp
  have "R x (emit_object P (O_Test t) (Sig_Complete cc ok)
      (if b then cut_test_emit_result_signal P tg cc r x else x))" for x b ok tg cc r
    using trans [OF emit_result complete] complete by simp
  then show ?thesis
    unfolding run_plain_test_def Let_def
    by (cases "test_body P t w") (simp_all add: bind [OF refl catch [OF refl invoke signaled(1)]])
qed

end

section \<open>Iterators\<close>

locale iterator_relation = test_relation +
  assumes update_context [intro]: "R w (update_context c g w)"
    and new_context [intro]: "R w (new_context tc w)"
    and current_changed: "R w (w\<lparr>current_contexts := ids\<rparr>)"
    and cells_changed: "R w (w\<lparr>status_cells := ss\<rparr>)"
    and children_changed: "R w (w\<lparr>iterator_children := ch\<rparr>)"
    and iterated_changed: "R w (w\<lparr>iterated_tests := it\<rparr>)"
    and next_changed: "R w (w\<lparr>next_object := n\<rparr>)"
    and collector_on [intro]: "R w (connect x ks (Collect n) w)"
    and collector_off [intro]: "R w (disconnect x ks (Collect n) w)"
    and any_test_signal [intro]: "R w (emit_object P (O_Test t) osig w)"
begin

lemma new_cell [intro]: "R w (new_cell w)"
  by (simp add: new_cell_def cells_changed)

lemma push [intro]: "R w (cut_test_context_current_push c w)"
  by (simp add: cut_test_context_current_push_def current_changed)

lemma pop [intro]: "R w (cut_test_context_current_pop w)"
  by (simp add: cut_test_context_current_pop_def current_changed)

lemma iterated_body: "R w (snd (iterated_body P i k t c b w))"
  unfolding iterated_body_def
  by (rule bind [OF any_test_signal set_up]) (simp add: result_step_def bind [OF refl plain_test])

lemma without_thread: "R w (snd (run_test_without_thread P i k t c parent b w))"
proof -
  have "R x (cut_test_context_current_pop (update_context parent f (update_context c g (emit_object P (O_Test i) sig
    (update_context parent h x)))))" for x f g h sig
    by (rule trans [OF trans [OF trans [OF trans [OF update_context any_test_signal] update_context] update_context] pop])
  then show ?thesis
    by (auto simp: run_test_without_thread_def Let_def intro!: bind catch iterated_body signaled teardown
        split: option.splits)
qed

lemma thread_support: "R w (snd (run_test_with_thread_support P i k t c b w))"
  by (auto simp: run_test_with_thread_support_def Let_def
      intro!: trans [OF trans [OF new_context update_context] without_thread])

lemma filtered_tests: "R w (snd (run_filtered_tests P i k c ts b w))"
  by (induction ts arbitrary: b w) (auto intro!: bind thread_support)

lemma folded: "(\<And>a x. R x (f a x)) \<Longrightarrow> R w (fold f xs w)"
  by (induction xs arbitrary: w) (auto intro: trans)

lemma create [intro]: "R w (create_iterated_test i cell d w)"
proof -
  have "R w (w\<lparr>next_object := n\<rparr>\<lparr>iterated_tests := it\<rparr>\<lparr>iterator_children := ch\<rparr>)" for n it ch
    by (rule trans [OF trans [OF next_changed iterated_changed] children_changed])
  then have "R w (connect x ks (Collect m) (w\<lparr>next_object := n\<rparr>\<lparr>iterated_tests := it\<rparr>\<lparr>iterator_children := ch\<rparr>))"
    for x ks m n it ch
    by (rule trans) (rule collector_on)
  then show ?thesis
    by (simp add: create_iterated_test_def Let_def)
qed

lemma forget [intro]: "R w (forget_iterated_test cell t w)"
  unfolding forget_iterated_test_def cut_iterated_test_clear_data_def
  by (rule trans [OF collector_off iterated_changed])

lemma iterated: "R w (snd (run_iterated_tests P i k c cell w))"
  by (auto simp: run_iterated_tests_def Let_def
      intro!: bind filtered_tests folded trans [OF trans [OF trans [OF folded update_context] any_test_signal] any_test_signal])

lemma iterator: "R w (snd (run_iterator P i c w))"
proof -
  have "R x (update_context c f (emit_object P (O_Test i) s2 (cut_test_emit_result_signal P tg cc r x)))" for x f s2 tg cc r
    by (rule trans [OF trans [OF emit_result any_test_signal] update_context])
  then have rest: "R x (snd (bind_step (run_iterated_tests P i k c cell)
      (\<lambda>success w2. (Inr success, update_context c f (emit_object P (O_Test i) (s2 success)
         (cut_test_emit_result_signal P tg cc (r w2) w2)))) (new_cell x)))" for x k cell f s2 tg cc r
    by (intro bind [OF new_cell iterated]) simp
  show ?thesis
    unfolding run_iterator_def Let_def
    by (cases "data_setup_function P i") (simp_all add: bind [OF update_context user_function] update_context rest)
qed

lemma if_needed: "R w (snd (run_if_needed P t c w))"
  by (simp add: run_if_needed_def cut_test_run_def iterator plain_test)

end

section \<open>Test cases\<close>

locale case_relation = iterator_relation +
  assumes case_signal [intro]: "R w (emit_object P (O_Case k) osig w)"
begin

lemma test: "R w (snd (run_test P k t c w))"
  by (auto simp: run_test_def intro!: bind set_up teardown if_needed)

lemma case_test: "R w (snd (case_run P k t w))"
  by (auto simp: case_run_def Let_def
      intro!: bind test trans [OF trans [OF new_context push] update_context] trans [OF update_context pop])

lemma tests: "R w (snd (run_tests P k cell ts w))"
proof (induction ts arbitrary: w)
  case (Cons t ts)
  have "R x (snd (bind_step (run_tests P k cell ts) (\<lambda>b. result_step (ok \<and> b))
      (disconnect (O_Test t) collected_kinds (Collect cell) x)))" for ok x
    by (rule bind [OF collector_off Cons.IH]) (simp add: result_step_def)
  then show ?case
    unfolding run_tests.simps by (rule bind [OF collector_on case_test])
qed simp

lemma case_body: "R w (snd (case_body P k c cell ts w))"
  by (auto simp: case_body_def intro!: bind startup tests)

lemma finish: "R w (snd (finish_case P k cell b w))"
proof -
  have "R x (cut_test_context_current_pop (emit_object P (O_Case k) s2 (cut_test_case_emit_result_signal P k r
    (disconnect (O_Case k) ks (Collect h) x))))" for x s2 r ks h
    unfolding cut_test_case_emit_result_signal_def
    by (rule trans [OF trans [OF trans [OF collector_off case_signal] case_signal] pop])
  then show ?thesis by (auto simp: finish_case_def Let_def intro!: bind shutdown)
qed

lemma whole_case: "R w (snd (cut_test_case_run_with_filter P k names w))"
proof -
  have "R x (connect (O_Case k) ks (Collect h) (cut_test_context_current_push c (new_cell (new_context nc
      (emit_object P (O_Case k) s1 (emit_object P (O_Case k) s2 x))))))" for x ks h c nc s1 s2
    by (rule trans [OF trans [OF trans [OF trans [OF trans [OF case_signal case_signal] new_context] new_cell] push] collector_on])
  then show ?thesis
    by (auto simp: cut_test_case_run_with_filter_def cut_test_case_run_tests_def Let_def
        intro!: bind catch case_body signaled finish)
qed

end

section \<open>Suites\<close>

locale suite_relation = case_relation +
  assumes success_changed: "R w (w\<lparr>suite_success := b\<rparr>)"
    and suite_signal: "kind_of osig \<noteq> K_Complete \<Longrightarrow> R w (emit_object P (O_Suite x) osig w)"
begin

lemma suite_case: "R w (snd (suite_run_case P k names w))"
proof -
  have "R x (emit_object P (O_Suite y) (Sig_Complete_Test_Case k b) (x\<lparr>suite_success := b'\<rparr>))" for x y b b'
    by (rule trans [OF success_changed suite_signal]) simp
  then show ?thesis
    by (auto simp: suite_run_case_def Let_def suite_signal intro!: bind whole_case)
qed

lemma test_cases: "R w (snd (run_test_cases P names ks w))"
  by (induction ks arbitrary: w)
     (auto simp: suite_run_with_thread_support_def intro!: bind suite_case)

lemma suite_body: "R w (snd (suite_body P names ks w))"
  by (auto simp: suite_body_def emit_ready_signal_def suite_signal
      intro!: bind user_option test_cases trans [OF suite_signal suite_signal])

end

section \<open>The run\<close>

locale run_relation = suite_relation +
  assumes any_suite_signal [intro]: "R w (emit_object P (O_Suite x) osig w)"
    and suite_connected: "R w (connect_to_test_suite x w)"
begin

lemma suite: "R w (snd (cut_test_suite_run P w))"
  by (auto simp: cut_test_suite_run_def cut_test_suite_run_with_filter_def cut_test_suite_run_test_cases_def
      Let_def intro!: bind catch suite_body signaled user_option success_changed)

lemma runner: "R w (snd (runner_run P w))"
  by (auto simp: runner_run_def cut_test_runner_run_test_suite_def
      emit_complete_run_def Let_def intro!: bind emitted trans [OF suite_connected suite])

end

section \<open>Relations respected by every primitive change\<close>

locale state_relation =
  fixes P :: test_program and R :: "test_world \<Rightarrow> test_world \<Rightarrow> bool"
  assumes refl [simp, intro]: "R w w"
    and trans: "R u v \<Longrightarrow> R v w \<Longrightarrow> R u w"
    and logged: "R w (w\<lparr>user_calls := user_calls w @ [code]\<rparr>)"
    and canceling: "R w (cancel_run w)"
    and received: "R w (w\<lparr>signal_received := True\<rparr>)"
    and emitted: "R w (emit_run P sig w)"
    and contexts_changed: "R w (w\<lparr>contexts := cs\<rparr>)"
    and current_changed: "R w (w\<lparr>current_contexts := ids\<rparr>)"
    and table_changed: "R w (w\<lparr>handler_table := t\<rparr>)"
    and cells_changed: "R w (w\<lparr>status_cells := ss\<rparr>)"
    and children_changed: "R w (w\<lparr>iterator_children := ch\<rparr>)"
    and iterated_changed: "R w (w\<lparr>iterated_tests := it\<rparr>)"
    and next_changed: "R w (w\<lparr>next_object := n\<rparr>)"
    and success_changed: "R w (w\<lparr>suite_success := b\<rparr>)"
begin

lemma connected: "R w (connect x ks h w)"
  by (simp add: connect_def table_changed)

lemma disconnected: "R w (disconnect x ks h w)"
  by (simp add: disconnect_def table_changed)

lemma collected: "R w (collect_from n sig w)"
  by (auto simp: collect_from_def collect_status_def cells_changed split: object_signal.splits)

lemma handled: "R w (run_handler P h x sig w)"
  by (cases "(P, h, x, sig, w)" rule: run_handler.cases)
     (auto simp: relay_test_def relay_iterated_test_def relay_iterator_def relay_case_def
      relay_suite_def connect_to_test_def connect_to_test_iterator_def connect_to_test_case_def emitted
      connected disconnected collected intro: trans [OF disconnected emitted]
      split: object_signal.splits test_status.splits)

lemma all_handled: "R w (run_connections P x sig cs w)"
proof (induction cs arbitrary: w)
  case (Cons c cs)
  obtain y k h where c: "c = (y, k, h)" by (cases c)
  show ?case using trans [OF handled Cons.IH] Cons.IH by (simp add: c)
qed simp

lemma object_signal: "R w (emit_object P x sig w)"
  by (simp add: emit_object_def all_handled)

end

sublocale state_relation \<subseteq> layers: run_relation P R
  by unfold_locales
    (auto intro: trans simp: logged canceling received emitted update_context_def new_context_def
      contexts_changed
      object_signal current_changed cells_changed children_changed iterated_changed next_changed
      connected disconnected success_changed connect_to_test_suite_def)

end
