(* ===== verification/Run_Context_Properties.thy ===== *)
theory Run_Context_Properties
  imports Run_Context
begin

text \<open>
  What the run context registers: counters, results and status against the list of reported
  results, the order of the test cases, and the delegation to another context.
\<close>

section \<open>What a context has registered\<close>

fun registered :: "run_signal \<Rightarrow> (test_status \<times> test_result) list" where
  "registered (Status_Test s t tc r) = [(s, r)]"
| "registered (Status_In_Test_Case s t r) = (if s = SUCCESS then [] else [(s, r)])"
| "registered (Crash_Test_Suite t r) = [(CRASH, r)]"
| "registered sig = []"

definition registered_all :: "run_signal list \<Rightarrow> (test_status \<times> test_result) list" where
  "registered_all sigs = concat (map registered sigs)"

lemma registered_all_simps [simp]:
  "registered_all [] = []" "registered_all (sig # sigs) = registered sig @ registered_all sigs"
  by (simp_all add: registered_all_def)

abbreviation statuses :: "run_signal list \<Rightarrow> test_status list" where
  "statuses sigs \<equiv> map fst (registered_all sigs)"

lemma length_registered: "length (registered_all sigs) \<le> length sigs"
proof (induction sigs)
  case (Cons sig sigs)
  have "length (registered sig) \<le> 1" by (cases sig rule: registered.cases) auto
  with Cons show ?case by simp
qed simp

text \<open>The counters as a function of the status.\<close>

definition counter :: "run_context \<Rightarrow> test_status \<Rightarrow> nat" where
  "counter c s =
     (case s of
        SUCCESS \<Rightarrow> n_successes c | FAILURE \<Rightarrow> n_failures c | ERROR \<Rightarrow> n_errors c
      | PENDING \<Rightarrow> n_pendings c | NOTIFICATION \<Rightarrow> n_notifications c | OMISSION \<Rightarrow> n_omissions c
      | CRASH \<Rightarrow> 0)"

lemmas register_defs =
  register_success_result_def register_failure_result_def register_error_result_def
  register_pending_result_def register_notification_result_def register_omission_result_def
  register_crash_result_def

lemmas handler_defs =
  status_test_def status_in_test_case_def crash_test_suite_def start_run_def start_test_def
  start_iterated_test_def pass_assertion_def complete_test_def complete_iterated_test_def
  complete_run_def register_defs

lemma handler_registers:
  "run_results (run_context_handler el sig c) = rev (map snd (registered sig)) @ run_results c"
  "crashed (run_context_handler el sig c) \<longleftrightarrow> CRASH \<in> fst ` set (registered sig) \<or> crashed c"
  "s \<noteq> CRASH \<Longrightarrow> counter (run_context_handler el sig c) s =
     (guint_inc ^^ count_list (map fst (registered sig)) s) (counter c s)"
  by (induction el sig c rule: run_context_handler.induct)
     (auto simp: handler_defs counter_def split: test_status.splits)

lemma fold_registers:
  "run_results (fold (run_context_handler el) sigs c) =
     rev (map snd (registered_all sigs)) @ run_results c"
  "crashed (fold (run_context_handler el) sigs c) \<longleftrightarrow> CRASH \<in> set (statuses sigs) \<or> crashed c"
  "s \<noteq> CRASH \<Longrightarrow> counter (fold (run_context_handler el) sigs c) s =
     (guint_inc ^^ count_list (statuses sigs) s) (counter c s)"
proof (induction sigs arbitrary: c)
  case (Cons sig sigs)
  { case 1 show ?case using Cons(1) by (simp add: handler_registers)
  next
    case 2 show ?case using Cons(2) by (auto simp: handler_registers)
  next
    case 3
    then show ?case using Cons(3)
      by (simp add: handler_registers funpow_add add.commute [of "count_list (map fst (registered sig)) s"])
  }
qed simp_all

lemma guint_inc_funpow: "(guint_inc ^^ n) 0 = guint n"
  by (induction n) (simp_all add: guint_inc_def guint_def mod_Suc_eq)

lemma init_counter [simp]: "counter cut_run_context_init s = 0" "\<not> crashed cut_run_context_init"
    "run_results cut_run_context_init = []"
  by (cases s; simp add: counter_def cut_run_context_init_def)+

lemma init_counts:
  assumes "length sigs < 4294967296" "s \<noteq> CRASH"
  shows "counter (fold (run_context_handler el) sigs cut_run_context_init) s = count_list (statuses sigs) s"
proof -
  have "count_list (statuses sigs) s \<le> length (statuses sigs)" by (rule count_le_length)
  then have "count_list (statuses sigs) s < 4294967296"
    using length_registered [of sigs] assms(1) by simp
  then show ?thesis using assms(2) by (simp add: fold_registers guint_inc_funpow)
qed

lemma get_status_counter:
  "cut_run_context_get_status c =
     (if crashed c then CRASH else if 0 < counter c ERROR then ERROR
      else if 0 < counter c FAILURE then FAILURE else if 0 < counter c PENDING then PENDING
      else if 0 < counter c OMISSION then OMISSION
      else if 0 < counter c NOTIFICATION then NOTIFICATION else SUCCESS)"
  by (simp add: cut_run_context_get_status_def counter_def)

definition worst :: "test_status list \<Rightarrow> test_status" where
  "worst ss = Max (insert SUCCESS (set ss))"

lemma worst_eqI:
  "s \<in> insert SUCCESS (set ss) \<Longrightarrow> (\<And>s'. s' \<in> set ss \<Longrightarrow> severity s' \<le> severity s) \<Longrightarrow> worst ss = s"
  unfolding worst_def by (rule Max_eqI) (auto simp: less_eq_test_status_def)

lemma count_list_pos: "0 < count_list xs x \<longleftrightarrow> x \<in> set xs"
  by (induction xs) auto

lemma worst_cases:
  "worst ss = (if CRASH \<in> set ss then CRASH else if ERROR \<in> set ss then ERROR
     else if FAILURE \<in> set ss then FAILURE else if PENDING \<in> set ss then PENDING
     else if OMISSION \<in> set ss then OMISSION
     else if NOTIFICATION \<in> set ss then NOTIFICATION else SUCCESS)"
  (is "_ = ?worst")
proof (rule worst_eqI)
  fix s
  assume m: "s \<in> set ss"
  show "severity s \<le> severity ?worst" by (cases s) (use m in simp_all)
qed simp

lemma status_is_worst:
  assumes "length sigs < 4294967296"
  shows "cut_run_context_get_status (fold (run_context_handler el) sigs cut_run_context_init) =
    worst (statuses sigs)"
  unfolding worst_cases
  by (simp add: get_status_counter init_counts [OF assms] fold_registers(2) count_list_pos
      del: set_map)

lemma worst_critical:
  "cut_test_result_status_is_critical (worst ss) \<longleftrightarrow> (\<exists>s\<in>set ss. cut_test_result_status_is_critical s)"
proof
  assume "cut_test_result_status_is_critical (worst ss)"
  moreover have "worst ss \<in> insert SUCCESS (set ss)" unfolding worst_def by (rule Max_in) auto
  ultimately show "\<exists>s\<in>set ss. cut_test_result_status_is_critical s"
    by (auto simp: cut_test_result_status_is_critical_def less_test_status_def)
next
  assume "\<exists>s\<in>set ss. cut_test_result_status_is_critical s"
  then obtain s where s: "s \<in> set ss" "OMISSION < s" by (auto simp: cut_test_result_status_is_critical_def)
  then have "s \<le> worst ss" unfolding worst_def by (intro Max_ge) auto
  with s(2) show "cut_test_result_status_is_critical (worst ss)"
    by (simp add: cut_test_result_status_is_critical_def less_le_trans)
qed

section \<open>Sorting\<close>

text \<open>A comparison function that GLib may sort with.\<close>

locale total_compare =
  fixes cmp :: "'a \<Rightarrow> 'a \<Rightarrow> int"
  assumes total: "cmp x y \<le> 0 \<or> cmp y x \<le> 0"
    and trans: "cmp x y \<le> 0 \<Longrightarrow> cmp y z \<le> 0 \<Longrightarrow> cmp x z \<le> 0"
begin

lemma insert_mset: "mset (insert_before cmp x ys) = mset (x # ys)"
  by (induction ys) auto

lemma insert_set [simp]: "set (insert_before cmp x ys) = insert x (set ys)"
  by (induction ys) auto

lemma insert_sorted:
  "sorted_wrt (\<lambda>a b. cmp a b \<le> 0) ys \<Longrightarrow> sorted_wrt (\<lambda>a b. cmp a b \<le> 0) (insert_before cmp x ys)"
proof (induction ys)
  case (Cons y ys)
  then show ?case using total [of x y] trans [of x y] by auto
qed simp

lemma insert_stable:
  assumes "\<And>a b. P a \<Longrightarrow> P b \<Longrightarrow> cmp a b \<le> 0"
  shows "filter P (insert_before cmp x ys) = filter P (x # ys)"
  using assms by (induction ys) auto

lemma sort_mset: "mset (sort_with_data cmp xs) = mset xs"
  by (induction xs) (simp_all add: sort_with_data_def insert_mset)

lemma sort_sorted: "sorted_wrt (\<lambda>a b. cmp a b \<le> 0) (sort_with_data cmp xs)"
  by (induction xs) (simp_all add: sort_with_data_def insert_sorted)

lemma sort_stable:
  assumes "\<And>a b. P a \<Longrightarrow> P b \<Longrightarrow> cmp a b \<le> 0"
  shows "filter P (sort_with_data cmp xs) = filter P xs"
proof (induction xs)
  case (Cons x xs)
  then show ?case using insert_stable [of P x "sort_with_data cmp xs", OF assms]
    by (simp add: sort_with_data_def)
qed (simp add: sort_with_data_def)

end

lemma strcmp_total:
  "string_sequence_iter_compare s t \<le> 0 \<or> string_sequence_iter_compare t s \<le> 0"
  by (induction s t rule: string_sequence_iter_compare.induct) auto

lemma strcmp_trans:
  "string_sequence_iter_compare s t \<le> 0 \<Longrightarrow> string_sequence_iter_compare t u \<le> 0 \<Longrightarrow>
   string_sequence_iter_compare s u \<le> 0"
proof (induction s arbitrary: t u)
  case Nil
  then show ?case by (cases u) auto
next
  case (Cons a s)
  then obtain b t' where t: "t = b # t'" by (cases t) auto
  with Cons.prems obtain c u' where u: "u = c # u'" by (cases u) auto
  from Cons.prems Cons.IH [of t' u'] show ?case by (auto simp: t u split: if_splits)
qed

lemma strcmp_refl: "string_sequence_iter_compare s s = 0"
  by (induction s) auto

text \<open>The order of C strings, as the lexicographic order of their characters.\<close>

definition string_less :: "ustring \<Rightarrow> ustring \<Rightarrow> bool" where
  "string_less s t \<longleftrightarrow> (s, t) \<in> lexord {(x, y). x < y}"

lemma strcmp_le_0: "string_sequence_iter_compare s t \<le> 0 \<longleftrightarrow> s = t \<or> string_less s t"
  by (induction s t rule: string_sequence_iter_compare.induct) (auto simp: string_less_def)

interpretation case_order: total_compare "compare_test_cases_by_name name ascending"
  for name ascending
  by unfold_locales
     (use strcmp_total strcmp_trans in \<open>auto simp: compare_test_cases_by_name_def\<close>)

section \<open>Delegation\<close>

lemma connected_delegated:
  assumes "name_of sig \<in> set connected_names" "name_of sig \<noteq> N_Complete_Run"
  shows "emit_on_other el sig = run_context_handler el sig"
proof -
  have "delegated_signal sig = Some sig"
    using assms by (cases sig)
      (auto simp: connected_names_def delegated_signal_def split: test_status.split)
  then show ?thesis by (simp add: fun_eq_iff emit_on_other_def)
qed

lemma emit_connected:
  assumes "count_list (connections d) (name_of sig) = 1" "name_of sig \<in> set connected_names"
    "name_of sig \<noteq> N_Complete_Run"
  shows "emit el sig d = d\<lparr>own_context := run_context_handler el sig (own_context d),
      other_context := run_context_handler el sig (other_context d)\<rparr>"
  using assms by (simp add: emit_def connected_delegated)

lemma connected_once: "n \<in> set connected_names \<Longrightarrow> count_list connected_names n = 1"
  by (auto simp: connected_names_def)

lemma disconnect_all: "set connected_names \<subseteq> set disconnected_names"
  by (simp add: connected_names_def disconnected_names_def)

lemma emits_connected:
  assumes "connections d = connected_names"
    "\<forall>sig\<in>set sigs. name_of sig \<in> set connected_names \<and> name_of sig \<noteq> N_Complete_Run"
  shows "fold (emit el) sigs d = d\<lparr>own_context := fold (run_context_handler el) sigs (own_context d),
      other_context := fold (run_context_handler el) sigs (other_context d)\<rparr>"
  using assms by (induction sigs arbitrary: d) (simp_all add: emit_connected connected_once)

section \<open>Properties\<close>

text \<open>C6: the status of a run is the worst status among all results it registered, and
  SUCCESS for none (fewer than \<open>2 ^ 32\<close> signals, so that no counter wraps).\<close>

theorem run_status_is_worst:
  assumes "length sigs < 4294967296"
  shows "cut_run_context_get_status (fold (run_context_handler elapsed_of) sigs cut_run_context_init) =
    worst (statuses sigs)"
  by (rule status_is_worst [OF assms])

theorem run_status_is_worst_witness:
  "cut_run_context_get_status (fold (run_context_handler (\<lambda>t. 0))
     [Start_Run, Status_Test OMISSION 1 (Some 2) cut_test_result_new_empty,
      Status_In_Test_Case FAILURE 3 cut_test_result_new_empty,
      Status_Test SUCCESS 4 (Some 5) cut_test_result_new_empty] cut_run_context_init) = FAILURE"
  using run_status_is_worst [of "[Start_Run, Status_Test OMISSION 1 (Some 2) cut_test_result_new_empty,
      Status_In_Test_Case FAILURE 3 cut_test_result_new_empty,
      Status_Test SUCCESS 4 (Some 5) cut_test_result_new_empty]" "\<lambda>t. 0"]
  by (simp add: worst_cases)

text \<open>C34: the results come back complete and in the order they were reported, and each counter
  is the number of results with its status.\<close>

theorem run_results_complete:
  fixes sigs :: "run_signal list" and elapsed_of :: "object_id \<Rightarrow> rat"
  assumes "length sigs < 4294967296"
  defines "c \<equiv> fold (run_context_handler elapsed_of) sigs cut_run_context_init"
  shows "cut_run_context_get_results c = map snd (registered_all sigs) \<and>
    n_successes c = count_list (statuses sigs) SUCCESS \<and> n_failures c = count_list (statuses sigs) FAILURE \<and>
    n_errors c = count_list (statuses sigs) ERROR \<and> n_pendings c = count_list (statuses sigs) PENDING \<and>
    n_notifications c = count_list (statuses sigs) NOTIFICATION \<and>
    n_omissions c = count_list (statuses sigs) OMISSION"
proof -
  note n = init_counts [OF assms(1), of _ elapsed_of]
  show ?thesis
    using n [of SUCCESS] n [of FAILURE] n [of ERROR] n [of PENDING] n [of NOTIFICATION] n [of OMISSION]
    by (simp add: c_def cut_run_context_get_results_def fold_registers(1) counter_def)
qed

theorem run_results_complete_witness:
  "n_failures (fold (run_context_handler (\<lambda>t. 0))
     [Status_Test FAILURE 1 (Some 2) cut_test_result_new_empty] cut_run_context_init) = 1"
  using run_results_complete [of "[Status_Test FAILURE 1 (Some 2) cut_test_result_new_empty]" "\<lambda>t. 0"] by simp

text \<open>C35: a run is reported as successful exactly when the caller says so and no registered
  result is critical (pending, failure, error or crash).\<close>

theorem complete_run_success_iff:
  assumes "length sigs < 4294967296"
    and "own_context d = fold (run_context_handler elapsed_of) sigs cut_run_context_init"
  shows "fst (cut_run_context_emit_complete_run elapsed_of success d) \<longleftrightarrow>
    success \<and> \<not> (\<exists>s\<in>set (statuses sigs). PENDING \<le> s)"
proof -
  have crit: "cut_test_result_status_is_critical s \<longleftrightarrow> PENDING \<le> s" for s
    by (cases s) (simp_all add: cut_test_result_status_is_critical_def less_test_status_def less_eq_test_status_def)
  show ?thesis
    using worst_critical [of "statuses sigs"]
    by (simp add: cut_run_context_emit_complete_run_def assms(2) status_is_worst [OF assms(1)] crit
        Let_def del: set_map)
qed

theorem complete_run_success_iff_witness:
  "\<not> fst (cut_run_context_emit_complete_run (\<lambda>t. 0) True
     \<lparr>own_context = fold (run_context_handler (\<lambda>t. 0))
        [Status_Test PENDING 1 (Some 2) cut_test_result_new_empty] cut_run_context_init,
      connections = [], other_context = cut_run_context_init\<rparr>)"
  by (subst complete_run_success_iff [where sigs = "[Status_Test PENDING 1 (Some 2) cut_test_result_new_empty]"])
     (simp_all add: less_eq_test_status_def)

text \<open>C36: sorting the test cases keeps every test case; with the ascending order the names rise in
  the order of C strings, with the descending order they fall, and without an order the list is
  returned as it is; test cases with the same name keep their order.\<close>

theorem sort_test_cases_stable:
  fixes c :: run_context and name :: "object_id \<Rightarrow> ustring" and xs :: "object_id list"
  defines "ys \<equiv> cut_run_context_sort_test_cases name c xs"
  shows "mset ys = mset xs \<and>
    (case test_case_order c of
       ORDER_NONE_SPECIFIED \<Rightarrow> ys = xs
     | ORDER_NAME_ASCENDING \<Rightarrow> sorted_wrt (\<lambda>a b. name a = name b \<or> string_less (name a) (name b)) ys
     | ORDER_NAME_DESCENDING \<Rightarrow> sorted_wrt (\<lambda>a b. name a = name b \<or> string_less (name b) (name a)) ys) \<and>
    filter (\<lambda>t. name t = n) ys = filter (\<lambda>t. name t = n) xs"
proof (cases "test_case_order c = ORDER_NONE_SPECIFIED")
  case True
  then show ?thesis by (simp add: ys_def cut_run_context_sort_test_cases_def)
next
  case False
  let ?cmp = "\<lambda>asc. compare_test_cases_by_name name asc"
  have stable: "filter (\<lambda>t. name t = n) (sort_with_data (?cmp asc) xs) = filter (\<lambda>t. name t = n) xs" for asc
    by (rule case_order.sort_stable) (simp add: compare_test_cases_by_name_def strcmp_refl)
  have up: "sorted_wrt (\<lambda>a b. name a = name b \<or> string_less (name a) (name b)) (sort_with_data (?cmp True) xs)"
    using case_order.sort_sorted [of name True xs] by (simp add: compare_test_cases_by_name_def strcmp_le_0)
  have down: "sorted_wrt (\<lambda>a b. name a = name b \<or> string_less (name b) (name a)) (sort_with_data (?cmp False) xs)"
    using case_order.sort_sorted [of name False xs] 
    by (simp add: compare_test_cases_by_name_def strcmp_le_0 eq_commute [of "name a" "name b" for a b])
  show ?thesis
    using False stable up down
    by (cases "test_case_order c")
      (simp_all add: ys_def cut_run_context_sort_test_cases_def case_order.sort_mset)
qed

theorem sort_test_cases_stable_witness:
  defines "name \<equiv> (\<lambda>t. [t mod 10])"
  shows "cut_run_context_sort_test_cases name
      (cut_run_context_set_test_case_order ORDER_NAME_DESCENDING cut_run_context_init) [11, 3, 21, 2] =
      [3, 2, 11, 21] \<and>
    filter (\<lambda>t. name t = [1]) (cut_run_context_sort_test_cases name
      (cut_run_context_set_test_case_order ORDER_NAME_DESCENDING cut_run_context_init) [11, 3, 21, 2]) = [11, 21]"
proof
  show "cut_run_context_sort_test_cases name
      (cut_run_context_set_test_case_order ORDER_NAME_DESCENDING cut_run_context_init) [11, 3, 21, 2] =
      [3, 2, 11, 21]" unfolding name_def by code_simp
  show "filter (\<lambda>t. name t = [1]) (cut_run_context_sort_test_cases name
      (cut_run_context_set_test_case_order ORDER_NAME_DESCENDING cut_run_context_init) [11, 3, 21, 2]) = [11, 21]"
    using sort_test_cases_stable [of name "cut_run_context_set_test_case_order ORDER_NAME_DESCENDING
      cut_run_context_init" "[11, 3, 21, 2]" "[1]"] by (simp add: name_def)
qed

text \<open>C9: during a delegated run the other context registers exactly what the context itself
  registers, for every signal that is connected, and the end of the run removes every connection.\<close>

theorem delegation_faithful:
  fixes sigs :: "run_signal list" and c o' :: run_context
  assumes "\<forall>sig\<in>set sigs. name_of sig \<in> set connected_names \<and> name_of sig \<noteq> N_Complete_Run"
  defines "d \<equiv> cut_run_context_delegate_signals \<lparr>own_context = c, connections = [], other_context = o'\<rparr>"
  shows "emit elapsed_of (Complete_Run success) (fold (emit elapsed_of) sigs d) =
    \<lparr>own_context = complete_run (fold (run_context_handler elapsed_of) sigs c),
     connections = [],
     other_context = fold (run_context_handler elapsed_of) sigs o'\<rparr>"
proof -
  have d: "connections d = connected_names" by (simp add: d_def cut_run_context_delegate_signals_def)
  have "filter (\<lambda>n. n \<notin> set disconnected_names) connected_names = []"
    using disconnect_all by (auto simp: filter_empty_conv)
  then show ?thesis
    unfolding emits_connected [OF d assms(1)]
    by (simp add: emit_def d connected_once cb_delegate_complete_run_def Let_def)
       (simp add: d_def cut_run_context_delegate_signals_def connected_names_def)
qed

theorem delegation_faithful_witness:
  "other_context (emit (\<lambda>t. 0) (Complete_Run False) (fold (emit (\<lambda>t. 0))
      [Start_Test 1 (Some 2), Status_Test FAILURE 1 (Some 2) cut_test_result_new_empty]
      (cut_run_context_delegate_signals
        \<lparr>own_context = cut_run_context_init, connections = [], other_context = cut_run_context_init\<rparr>))) =
   fold (run_context_handler (\<lambda>t. 0))
      [Start_Test 1 (Some 2), Status_Test FAILURE 1 (Some 2) cut_test_result_new_empty] cut_run_context_init"
  by (subst delegation_faithful) (simp_all add: connected_names_def)

text \<open>Results reported for a test case as a whole (a failing set-up or tear-down) are not
  connected: the context itself gets their status, the other context stays successful.\<close>

theorem delegation_drops_in_test_case:
  fixes s :: test_status and t :: object_id and r :: test_result and elapsed_of :: "object_id \<Rightarrow> rat"
  defines "d \<equiv> emit elapsed_of (Status_In_Test_Case s t r) (cut_run_context_delegate_signals
    \<lparr>own_context = cut_run_context_init, connections = [], other_context = cut_run_context_init\<rparr>)"
  shows "cut_run_context_get_status (own_context d) = s \<and>
    cut_run_context_get_status (other_context d) = SUCCESS \<and> run_results (other_context d) = []"
  by (cases s)
     (simp_all add: d_def emit_def cut_run_context_delegate_signals_def connected_names_def
        handler_defs cut_run_context_get_status_def cut_run_context_init_def guint_inc_def)

end
