(* ===== verification/Run_Verdict.thy ===== *)
theory Run_Verdict
  imports Run_Relation Run_Context_Properties
begin

text \<open>
  What a run reports: the run context is a function of the signals that were emitted on it, and
  the verdict of the runner follows from them.
\<close>

section \<open>The run context is a function of the emitted signals\<close>

definition recorded :: "test_world \<Rightarrow> test_world \<Rightarrow> bool" where
  "recorded w w' \<longleftrightarrow>
     (\<exists>sigs. run_signals w' = run_signals w @ sigs \<and>
        run_results (run_state w') = rev (map snd (registered_all sigs)) @ run_results (run_state w) \<and>
        (crashed (run_state w') \<longleftrightarrow> CRASH \<in> set (statuses sigs) \<or> crashed (run_state w)) \<and>
        (\<forall>s. s \<noteq> CRASH \<longrightarrow> counter (run_state w') s =
           (guint_inc ^^ count_list (statuses sigs) s) (counter (run_state w) s)))"

lemma recordedI:
  "run_signals w' = run_signals w \<Longrightarrow> run_results (run_state w') = run_results (run_state w) \<Longrightarrow>
   crashed (run_state w') = crashed (run_state w) \<Longrightarrow>
   (\<And>s. counter (run_state w') s = counter (run_state w) s) \<Longrightarrow> recorded w w'"
  unfolding recorded_def by (rule exI [of _ "[]"]) simp

lemma registered_all_append [simp]: "registered_all (xs @ ys) = registered_all xs @ registered_all ys"
  by (simp add: registered_all_def)

lemma recorded_trans:
  assumes "recorded u v" "recorded v w"
  shows "recorded u w"
proof -
  from assms obtain xs ys where
    "run_signals v = run_signals u @ xs" "run_signals w = run_signals v @ ys"
    "run_results (run_state v) = rev (map snd (registered_all xs)) @ run_results (run_state u)"
    "run_results (run_state w) = rev (map snd (registered_all ys)) @ run_results (run_state v)"
    "crashed (run_state v) \<longleftrightarrow> CRASH \<in> set (statuses xs) \<or> crashed (run_state u)"
    "crashed (run_state w) \<longleftrightarrow> CRASH \<in> set (statuses ys) \<or> crashed (run_state v)"
    "\<And>s. s \<noteq> CRASH \<Longrightarrow> counter (run_state v) s =
       (guint_inc ^^ count_list (statuses xs) s) (counter (run_state u) s)"
    "\<And>s. s \<noteq> CRASH \<Longrightarrow> counter (run_state w) s =
       (guint_inc ^^ count_list (statuses ys) s) (counter (run_state v) s)"
    unfolding recorded_def by blast
  then show ?thesis
    unfolding recorded_def
    by (intro exI [of _ "xs @ ys"])
       (auto simp: funpow_add add.commute [of "count_list (statuses xs) s" for s] simp del: set_map)
qed

interpretation recorded: state_relation P recorded for P
proof unfold_locales
  fix P sig w
  show "recorded w (emit_run P sig w)"
    unfolding recorded_def
    by (intro exI [of _ "[sig]"]) (auto simp: emit_run_def handler_registers)
qed (auto simp: recorded_trans cancel_run_def cut_run_context_cancel_def counter_def
      intro: recordedI split: test_status.splits)

text \<open>Nothing is forgotten: the calls of user code only grow, and a cancelled run and a received
  signal stay so.\<close>

definition advanced :: "test_world \<Rightarrow> test_world \<Rightarrow> bool" where
  "advanced w w' \<longleftrightarrow> (\<exists>codes. user_calls w' = user_calls w @ codes) \<and>
     (canceled (run_state w) \<longrightarrow> canceled (run_state w')) \<and>
     (signal_received w \<longrightarrow> signal_received w')"

lemma handler_canceled [simp]: "canceled (run_context_handler el sig c) = canceled c"
  by (induction el sig c rule: run_context_handler.induct)
     (auto simp: handler_defs split: test_status.splits)

interpretation advanced: state_relation P advanced for P
proof unfold_locales
  fix u v w :: test_world
  assume "advanced u v" "advanced v w"
  then show "advanced u w" unfolding advanced_def by (metis append.assoc)
qed (simp_all add: advanced_def emit_run_def cancel_run_def cut_run_context_cancel_def)

section \<open>The verdict\<close>

definition unused :: "run_context \<Rightarrow> bool" where
  "unused rc \<longleftrightarrow> (\<forall>s \<in> set all_statuses. counter rc s = 0) \<and> \<not> crashed rc \<and> run_results rc = []"

lemma all_statuses [simp]: "s \<in> set all_statuses"
  by (cases s) (simp_all add: all_statuses_def)

lemma recorded_unused:
  assumes "recorded w w'" "unused (run_state w)" "length (run_signals w') < 4294967296"
    "run_signals w = []"
  shows "cut_run_context_get_status (run_state w') = worst (statuses (run_signals w')) \<and>
    cut_run_context_get_results (run_state w') = map snd (registered_all (run_signals w'))"
proof -
  from assms(1,4) have r: "run_results (run_state w') =
      rev (map snd (registered_all (run_signals w'))) @ run_results (run_state w)"
    "crashed (run_state w') \<longleftrightarrow> CRASH \<in> set (statuses (run_signals w')) \<or> crashed (run_state w)"
    "\<And>s. s \<noteq> CRASH \<Longrightarrow> counter (run_state w') s =
       (guint_inc ^^ count_list (statuses (run_signals w')) s) (counter (run_state w) s)"
    unfolding recorded_def by (metis append_Nil)+
  have "count_list (statuses (run_signals w')) s \<le> length (run_signals w')" for s
    using count_le_length [of "statuses (run_signals w')" s] length_registered [of "run_signals w'"]
    by (metis le_trans length_map)
  then have "count_list (statuses (run_signals w')) s < 4294967296" for s
    using assms(3) by (rule le_less_trans)
  then have "s \<noteq> CRASH \<Longrightarrow> counter (run_state w') s = count_list (statuses (run_signals w')) s" for s
    using assms(2) r(3) [of s] by (simp add: unused_def guint_inc_funpow)
  then show ?thesis
    using r(1,2) assms(2)
    by (simp add: get_status_counter worst_cases count_list_pos unused_def cut_run_context_get_results_def
        del: set_map)
qed

lemma suite_recorded: "recorded w (snd (cut_test_suite_run P w))"
  by (rule recorded.layers.suite)

lemma runner_result:
  assumes "runner_run P w = (Inr b, w')"
  obtains ok v where "cut_test_runner_run_test_suite P (emit_run P Start_Run w) = (Inr ok, v)"
    "w' = emit_run P (Complete_Run b) v"
    "b \<longleftrightarrow> ok \<and> \<not> cut_test_result_status_is_critical (cut_run_context_get_status (run_state v))"
proof (cases "cut_test_runner_run_test_suite P (emit_run P Start_Run w)")
  case (Pair r v)
  show thesis
  proof (cases r)
    case (Inl s)
    then show ?thesis using assms Pair by (simp add: runner_run_def bind_step_def)
  next
    case (Inr ok)
    show ?thesis
      by (rule that [of ok v])
         (use assms Pair Inr in \<open>auto simp: runner_run_def bind_step_def emit_complete_run_def Let_def split: if_splits\<close>)
  qed
qed

end
