(* ===== verification/Run_Frame.thy ===== *)
theory Run_Frame
  imports Run_Verdict
begin

text \<open>
  What the emission of signals leaves alone: the fields no handler touches, the connections that
  stay, and that a connected handler is reached.
\<close>

section \<open>What emissions leave alone\<close>

lemma connect_frame [simp]:
  "contexts (connect x ks h w) = contexts w" "current_contexts (connect x ks h w) = current_contexts w"
  "suite_success (connect x ks h w) = suite_success w" "run_state (connect x ks h w) = run_state w"
  "run_signals (connect x ks h w) = run_signals w" "status_cells (connect x ks h w) = status_cells w"
  "iterated_tests (connect x ks h w) = iterated_tests w" "user_calls (connect x ks h w) = user_calls w"
  "signal_received (connect x ks h w) = signal_received w"
  "iterator_children (connect x ks h w) = iterator_children w" "next_object (connect x ks h w) = next_object w"
  by (simp_all add: connect_def)

lemma disconnect_frame [simp]:
  "contexts (disconnect x ks h w) = contexts w"
  "current_contexts (disconnect x ks h w) = current_contexts w"
  "suite_success (disconnect x ks h w) = suite_success w"
  "run_state (disconnect x ks h w) = run_state w" "run_signals (disconnect x ks h w) = run_signals w"
  "status_cells (disconnect x ks h w) = status_cells w"
  "iterated_tests (disconnect x ks h w) = iterated_tests w" "user_calls (disconnect x ks h w) = user_calls w"
  "signal_received (disconnect x ks h w) = signal_received w"
  "iterator_children (disconnect x ks h w) = iterator_children w"
  "next_object (disconnect x ks h w) = next_object w"
  by (simp_all add: disconnect_def)

lemma emit_run_frame [simp]:
  "contexts (emit_run P sig w) = contexts w" "current_contexts (emit_run P sig w) = current_contexts w"
  "suite_success (emit_run P sig w) = suite_success w" "handler_table (emit_run P sig w) = handler_table w"
  "iterated_tests (emit_run P sig w) = iterated_tests w" "user_calls (emit_run P sig w) = user_calls w"
  "signal_received (emit_run P sig w) = signal_received w" "status_cells (emit_run P sig w) = status_cells w"
  "iterator_children (emit_run P sig w) = iterator_children w" "next_object (emit_run P sig w) = next_object w"
  "canceled (run_state (emit_run P sig w)) = canceled (run_state w)"
  by (simp_all add: emit_run_def)

text \<open>The part of the state that no handler touches.\<close>

definition frame :: "test_world \<Rightarrow>
    test_context list \<times> object_id list \<times> bool \<times> (object_id \<Rightarrow> iterated_test option) \<times>
    (object_id \<Rightarrow> object_id list) \<times> object_id \<times> user_code list \<times> bool \<times> bool" where
  "frame w = (contexts w, current_contexts w, suite_success w, iterated_tests w, iterator_children w,
     next_object w, user_calls w, signal_received w, canceled (run_state w))"

lemma handler_frame: "frame (run_handler P h x sig w) = frame w"
  by (cases "(P, h, x, sig, w)" rule: run_handler.cases)
     (auto simp: frame_def relay_test_def relay_iterated_test_def relay_iterator_def relay_case_def
      relay_suite_def connect_to_test_def connect_to_test_iterator_def connect_to_test_case_def
      collect_from_def collect_status_def split: object_signal.splits test_status.splits)

lemma connections_frame: "frame (run_connections P x sig cs w) = frame w"
  by (induction cs arbitrary: w) (auto simp: handler_frame)

lemma emit_object_frame [simp]:
  "contexts (emit_object P x sig w) = contexts w"
  "current_contexts (emit_object P x sig w) = current_contexts w"
  "suite_success (emit_object P x sig w) = suite_success w"
  "iterated_tests (emit_object P x sig w) = iterated_tests w"
  "iterator_children (emit_object P x sig w) = iterator_children w"
  "next_object (emit_object P x sig w) = next_object w"
  "user_calls (emit_object P x sig w) = user_calls w"
  "signal_received (emit_object P x sig w) = signal_received w"
  "canceled (run_state (emit_object P x sig w)) = canceled (run_state w)"
  using connections_frame [of P x sig "handler_table w" w] by (simp_all add: emit_object_def frame_def)

text \<open>The connections that the emission of a signal removes.\<close>

fun removes :: "object_signal \<Rightarrow> connection \<Rightarrow> bool" where
  "removes (Sig_Complete_Test t c b) (x, k, h) \<longleftrightarrow> x = O_Test t \<and> h = Relay_Test"
| "removes (Sig_Complete_Test_Iterator t c b) (x, k, h) \<longleftrightarrow> x = O_Test t \<and> h = Relay_Iterator"
| "removes (Sig_Complete_Iterated_Test t c b) (x, k, h) \<longleftrightarrow> x = O_Test t \<and> h = Relay_Iterated_Test"
| "removes (Sig_Complete_Test_Case t b) (x, k, h) \<longleftrightarrow> x = O_Case t \<and> h = Relay_Case"
| "removes (Sig_Complete c b) (x, k, h) \<longleftrightarrow> h = Relay_Suite"
| "removes sig c \<longleftrightarrow> False"

lemma handler_keeps:
  assumes "\<not> removes sig c" "c \<in> set (handler_table w)"
  shows "c \<in> set (handler_table (run_handler P h x sig w))"
  by (cases "(P, h, x, sig, w)" rule: run_handler.cases)
     (use assms in \<open>auto simp: relay_test_def relay_iterated_test_def relay_iterator_def relay_case_def
      relay_suite_def connect_to_test_def connect_to_test_iterator_def connect_to_test_case_def
      collect_from_def collect_status_def connect_def disconnect_def
      split: object_signal.splits test_status.splits\<close>)

lemma connections_invariant:
  assumes "\<And>h v. Q v \<Longrightarrow> Q (run_handler P h x sig v)"
  shows "Q w \<Longrightarrow> Q (run_connections P x sig cs w)"
proof (induction cs arbitrary: w)
  case (Cons c cs)
  obtain y k h where "c = (y, k, h)" by (cases c)
  with Cons assms show ?case by simp
qed simp

lemma emit_invariant:
  "(\<And>h v. Q v \<Longrightarrow> Q (run_handler P h x sig v)) \<Longrightarrow> Q w \<Longrightarrow> Q (emit_object P x sig w)"
  unfolding emit_object_def by (rule connections_invariant)

text \<open>Nothing that is emitted changes whether failures are fatal.\<close>

lemma fatal_handler: "fatal_failures (run_context_handler e sig rc) = fatal_failures rc"
  by (induction e sig rc rule: run_context_handler.induct)
     (auto simp: handler_defs split: test_status.splits)

lemma fatal_emit_run: "fatal_failures (run_state (emit_run P sig w)) = fatal_failures (run_state w)"
  by (simp add: emit_run_def fatal_handler)

lemma fatal_emit [simp]: "fatal_failures (run_state (emit_object P x sig w)) = fatal_failures (run_state w)"
proof (rule emit_invariant [of "\<lambda>v. fatal_failures (run_state v) = fatal_failures (run_state w)"])
  fix h and v :: test_world
  assume v: "fatal_failures (run_state v) = fatal_failures (run_state w)"
  have "fatal_failures (run_state (run_handler P h x sig v)) = fatal_failures (run_state v)"
    by (cases "(P, h, x, sig, v)" rule: run_handler.cases)
       (auto simp: relay_test_def relay_iterated_test_def relay_iterator_def relay_case_def
        relay_suite_def connect_to_test_def connect_to_test_iterator_def connect_to_test_case_def
        collect_from_def collect_status_def fatal_emit_run
        split: object_signal.splits test_status.splits)
  then show "fatal_failures (run_state (run_handler P h x sig v)) = fatal_failures (run_state w)" using v by simp
qed simp

lemma connections_keep:
  "\<not> removes sig c \<Longrightarrow> c \<in> set (handler_table w) \<Longrightarrow> c \<in> set (handler_table (run_connections P x sig cs w))"
  by (rule connections_invariant [where Q = "\<lambda>v. c \<in> set (handler_table v)"]) (rule handler_keeps)

lemma emit_keeps:
  "\<not> removes sig c \<Longrightarrow> c \<in> set (handler_table w) \<Longrightarrow> c \<in> set (handler_table (emit_object P x sig w))"
  by (simp add: emit_object_def connections_keep)

text \<open>A connected handler does run.\<close>

lemma connections_reach:
  assumes "(x, kind_of sig, h) \<in> set cs" "(x, kind_of sig, h) \<in> set (handler_table w)"
    and "\<not> removes sig (x, kind_of sig, h)"
    and mono: "\<And>h' v. Q v \<Longrightarrow> Q (run_handler P h' x sig v)"
    and hit: "\<And>v. Q (run_handler P h x sig v)"
  shows "Q (run_connections P x sig cs w)"
proof -
  have keep: "Q v \<Longrightarrow> Q (run_connections P x sig cs' v)" for cs' v
    by (rule connections_invariant [where Q = Q]) (rule mono)
  show ?thesis
    using assms(1,2)
  proof (induction cs arbitrary: w)
    case (Cons c cs)
    show ?case
    proof (cases "c = (x, kind_of sig, h)")
      case True
      then show ?thesis using Cons.prems keep hit by simp
    next
      case False
      then have "(x, kind_of sig, h) \<in> set cs" using Cons.prems by simp
      moreover obtain y k g where "c = (y, k, g)" by (cases c)
      ultimately show ?thesis
        using Cons.IH Cons.prems(2) handler_keeps [OF assms(3)] by simp
    qed
  qed simp
qed

lemma emit_reaches:
  assumes "(x, kind_of sig, h) \<in> set (handler_table w)" "\<not> removes sig (x, kind_of sig, h)"
    and "\<And>h' v. Q v \<Longrightarrow> Q (run_handler P h' x sig v)" "\<And>v. Q (run_handler P h x sig v)"
  shows "Q (emit_object P x sig w)"
  unfolding emit_object_def by (rule connections_reach [OF assms(1,1,2)]) (fact assms(3,4))+

text \<open>The signals of a test change no connection.\<close>

lemma handler_table_same:
  "test_level sig \<or> (\<exists>s c r. sig = Sig_Status_In s c r) \<Longrightarrow> x = O_Test t \<or> x = O_Case k \<Longrightarrow>
   handler_table (run_handler P h x sig w) = handler_table w"
  by (cases "(P, h, x, sig, w)" rule: run_handler.cases)
     (auto simp: relay_test_def relay_iterated_test_def relay_iterator_def relay_case_def
      collect_from_def collect_status_def split: object_signal.splits test_status.splits)

lemma suite_table_same:
  "handler_table (run_handler P h (O_Suite x) (Sig_Status s c r) w) = handler_table w"
  by (cases h) (auto simp: relay_suite_def collect_from_def collect_status_def split: test_status.splits)

lemma emit_same_table:
  assumes "\<And>h v. handler_table (run_handler P h x sig v) = handler_table v"
  shows "handler_table (emit_object P x sig w) = handler_table w"
  by (rule emit_invariant [of "\<lambda>v. handler_table v = handler_table w"]) (simp_all add: assms)

lemma emit_test_level [simp]:
  "test_level sig \<Longrightarrow> handler_table (emit_object P (O_Test t) sig w) = handler_table w"
  "handler_table (emit_object P (O_Case k) (Sig_Status_In s c r) w) = handler_table w"
  "handler_table (emit_object P (O_Suite x) (Sig_Status s c r) w) = handler_table w"
  by (rule emit_same_table; rule handler_table_same suite_table_same; simp)+

end
