(* ===== verification/Assertion_Runs.thy ===== *)
theory Assertion_Runs
  imports Assertions Test_Run Run_Frame
begin

text \<open>
  A test made of assertions: what it emits and what it leaves, as a function that goes through the
  assertions one after the other and stops at the first that fails.
\<close>

section \<open>Handlers do not look at the contexts\<close>

definition on_contexts :: "(test_context list \<Rightarrow> test_context list) \<Rightarrow> test_world \<Rightarrow> test_world" where
  "on_contexts g w = w\<lparr>contexts := g (contexts w)\<rparr>"

lemma emit_run_contexts: "emit_run P sig (on_contexts g w) = on_contexts g (emit_run P sig w)"
  by (simp add: emit_run_def on_contexts_def)

lemma handler_contexts: "run_handler P h x sig (on_contexts g w) = on_contexts g (run_handler P h x sig w)"
  by (cases "(P, h, x, sig, w)" rule: run_handler.cases)
     (auto simp: relay_test_def relay_iterated_test_def relay_iterator_def relay_case_def
      relay_suite_def connect_to_test_def connect_to_test_iterator_def connect_to_test_case_def
      collect_from_def collect_status_def emit_run_def on_contexts_def connect_def disconnect_def
      split: object_signal.splits test_status.splits)

lemma connections_contexts: "run_connections P x sig cs (on_contexts g w) = on_contexts g (run_connections P x sig cs w)"
proof (induction cs arbitrary: w)
  case (Cons c cs)
  obtain y k h where c: "c = (y, k, h)" by (cases c)
  have "handler_table (on_contexts g w) = handler_table w" by (simp add: on_contexts_def)
  then show ?case using Cons by (auto simp: c handler_contexts)
qed simp

lemma emit_contexts: "emit_object P x sig (on_contexts g w) = on_contexts g (emit_object P x sig w)"
proof -
  have "handler_table (on_contexts g w) = handler_table w" by (simp add: on_contexts_def)
  then show ?thesis by (simp add: emit_object_def connections_contexts)
qed

lemma update_context_on: "update_context c f w = on_contexts (\<lambda>cs. cs[c := f (cs ! c)]) w"
  by (simp add: update_context_def on_contexts_def)

lemma emit_update_context: "emit_object P x sig (update_context c f w) = update_context c f (emit_object P x sig w)"
  by (simp only: update_context_on emit_contexts)

lemma update_context_twice: "update_context c f (update_context c g w) = update_context c (f \<circ> g) w"
proof (cases "c < length (contexts w)")
  case True
  then show ?thesis by (simp add: update_context_def)
next
  case False
  then show ?thesis by (simp add: update_context_def list_update_beyond)
qed

lemma update_context_id: "f (contexts w ! c) = contexts w ! c \<Longrightarrow> update_context c f w = w"
  by (simp add: update_context_def)

section \<open>The effect of a list of assertions\<close>

text \<open>A line of a test: where it is, what the assertion gives and the user's message.\<close>

type_synonym assertion_line = "backtrace_entry \<times> assertion \<times> ustring option"

definition line_statement :: "assertion_line \<Rightarrow> user_macro" where
  "line_statement l = (case l of (place, a, m) \<Rightarrow> assert_statement place a m)"

definition line_passes :: "assertion_line \<Rightarrow> bool" where
  "line_passes l \<longleftrightarrow> (case l of (place, a, m) \<Rightarrow> a = Passed)"

text \<open>The reported result of a failed assertion.\<close>

definition failure_result ::
  "backtrace_entry \<Rightarrow> (ustring \<times> ustring) option \<Rightarrow> ustring \<Rightarrow> ustring option \<Rightarrow> test_context \<Rightarrow> test_result" where
  "failure_result place shown m user_message c =
     (let r = cut_test_result_set_actual (case shown of None \<Rightarrow> tc_actual c | Some (e, a) \<Rightarrow> Some a)
                (cut_test_result_set_expected (case shown of None \<Rightarrow> tc_expected c | Some (e, a) \<Rightarrow> Some e)
                  (cut_test_result_new FAILURE (tc_test c) (tc_test_iterator c) (tc_test_case c) (tc_test_suite c)
                    (current_data_id c) (tc_user_message c) (Some m) (place # tc_backtrace c)))
      in case user_message of None \<Rightarrow> r | Some u \<Rightarrow> cut_test_result_set_user_message (Some u) r)"

definition after_failure :: "backtrace_entry \<Rightarrow> test_context \<Rightarrow> test_context" where
  "after_failure place c =
     (clear_user_message c)\<lparr>tc_failed := True, tc_omitted := False, tc_backtrace := place # tc_backtrace c,
                            tc_expected := None, tc_actual := None\<rparr>"

fun assertions_effect ::
  "test_program \<Rightarrow> object_id \<Rightarrow> object_id \<Rightarrow> assertion_line list \<Rightarrow> test_world \<Rightarrow> test_world" where
  "assertions_effect P t c [] w = w"
| "assertions_effect P t c ((place, a, m) # ls) w =
     (case a of
        Passed \<Rightarrow> assertions_effect P t c ls (cut_test_context_pass_assertion P c w)
      | Failed shown text \<Rightarrow>
          emit_object P (O_Test t)
            (Sig_Status FAILURE (Some c)
              (cut_test_set_result_elapsed P t (failure_result place shown text m (context_at w c))))
            (update_context c (after_failure place) w))"

text \<open>A context in which a test can start an assertion.\<close>

definition assertion_ready :: "object_id \<Rightarrow> object_id \<Rightarrow> test_world \<Rightarrow> bool" where
  "assertion_ready t c w \<longleftrightarrow>
     cut_test_context_current_peek w = Some c \<and> c < length (contexts w) \<and>
     tc_test (context_at w c) = Some t \<and> tc_jump_nest (context_at w c) = 0 \<and>
     tc_current_result (context_at w c) = None \<and> \<not> fatal_failures (run_state w)"

section \<open>One assertion\<close>

abbreviation start_state :: jump_state where
  "start_state \<equiv> \<lparr>jump_nest = 0, have_result = False\<rparr>"

abbreviation message_calls :: "ustring option \<Rightarrow> user_call list" where
  "message_calls m \<equiv> (case m of None \<Rightarrow> [] | Some u \<Rightarrow> [Set_Result_Message (Some u)])"

abbreviation shown_calls :: "(ustring \<times> ustring) option \<Rightarrow> user_call list" where
  "shown_calls shown \<equiv>
     (case shown of None \<Rightarrow> [] | Some (e, a) \<Rightarrow> [Set_Expected_Text (Some e), Set_Actual_Text (Some a)])"

lemma passed_calls:
  "assert_statement place Passed m start_state =
   ([Push_Backtrace place, Start_Message_Jump, Pass, Finish_Message_Jump] @ message_calls m @ [Pop_Backtrace],
    False, start_state)"
  by (cases m) (simp_all add: assert_statement_def cut_trace_with_info_expression_def cut_test_with_user_message_def
      assertion_macro_def cut_test_pass_def guint_def guint_pred_def Let_def)

lemma failed_calls:
  "assert_statement place (Failed shown text) m start_state =
   ([Push_Backtrace place, Start_Message_Jump] @ shown_calls shown @
    [Set_Result FAILURE (Some text), Finish_Message_Jump] @ message_calls m @ [Process_Result],
    True, start_state)"
  by (cases m; cases shown)
     (auto simp: assert_statement_def cut_trace_with_info_expression_def cut_test_with_user_message_def
      assertion_macro_def cut_test_fail_def cut_test_terminate_def guint_def guint_pred_def Let_def)

section \<open>The calls of an assertion\<close>

lemma update_context_cong:
  "f (context_at w c) = g (context_at w c) \<Longrightarrow> update_context c f w = update_context c g w"
  by (simp add: update_context_def context_at_def)

lemma context_at_update:
  "c < length (contexts w) \<Longrightarrow> context_at (update_context c f w) c = f (context_at w c)"
  by (simp add: update_context_def context_at_def)

lemma frame_update [simp]:
  "current_contexts (update_context c f w) = current_contexts w"
  "length (contexts (update_context c f w)) = length (contexts w)"
  "run_state (update_context c f w) = run_state w"
  by (simp_all add: update_context_def)

lemma context_at_emit [simp]: "context_at (emit_object P x sig w) c = context_at w c"
  by (simp add: context_at_def)

text \<open>Calls that only change the context, as one function.\<close>

fun context_effect :: "user_call \<Rightarrow> (test_context \<Rightarrow> test_context) option" where
  "context_effect (Set_Expected_Text s) = Some (cut_test_context_set_expected s)"
| "context_effect (Set_Actual_Text s) = Some (cut_test_context_set_actual s)"
| "context_effect (Push_Backtrace e) = Some (cut_test_context_push_backtrace e)"
| "context_effect Pop_Backtrace = Some cut_test_context_pop_backtrace"
| "context_effect Start_Message_Jump = Some cut_test_context_start_user_message_jump"
| "context_effect Finish_Message_Jump = Some cut_test_context_finish_user_message_jump"
| "context_effect (Set_Result s m) = Some (cut_test_context_set_current_result s m)"
| "context_effect (Set_Result_Message m) = Some (cut_test_context_set_current_result_user_message m)"
| "context_effect _ = None"

lemma context_effect_performs:
  "context_effect call = Some f \<Longrightarrow> perform_call P c call w = (Inr (), update_context c f w)"
  by (cases call) (auto simp: perform_call_def do_step_def)

lemma perform_effects:
  assumes "cut_test_context_current_peek w = Some c"
  shows "list_all (\<lambda>call. context_effect call \<noteq> None) calls \<Longrightarrow>
    perform_calls P (calls @ rest) w =
    perform_calls P rest (update_context c (fold (the \<circ> context_effect) calls) w)"
  using assms
proof (induction calls arbitrary: w)
  case Nil
  then show ?case by (simp add: update_context_id)
next
  case (Cons call calls)
  then obtain f where f: "context_effect call = Some f" by auto
  then show ?case
    using Cons.IH [of "update_context c f w"] Cons.prems
    by (simp add: bind_step_def context_effect_performs update_context_twice cut_test_context_current_peek_def comp_def)
qed

lemma pass_on:
  assumes "tc_test (context_at w c) = Some t" "c < length (contexts w)" "\<And>tc. tc_test (f tc) = tc_test tc"
  shows "cut_test_context_pass_assertion P c (update_context c f w) =
    update_context c (clear_user_message \<circ> f) (emit_object P (O_Test t) (Sig_Pass_Assertion (Some c)) w)"
  using assms by (simp add: cut_test_context_pass_assertion_def context_at_update emit_update_context update_context_twice)

lemma passed_line:
  assumes ready: "assertion_ready t c w"
  shows "perform_calls P (fst (assert_statement place Passed m start_state) @ rest) w =
    perform_calls P rest (cut_test_context_pass_assertion P c w)"
proof -
  define f where "f = cut_test_context_start_user_message_jump \<circ> cut_test_context_push_backtrace place"
  define g where "g = fold (the \<circ> context_effect) ([Finish_Message_Jump] @ message_calls m @ [Pop_Backtrace])"
  let ?emitted = "emit_object P (O_Test t) (Sig_Pass_Assertion (Some c)) w"
  have c: "cut_test_context_current_peek w = Some c" "c < length (contexts w)" "tc_test (context_at w c) = Some t"
    "tc_jump_nest (context_at w c) = 0" "tc_current_result (context_at w c) = None"
    using ready by (simp_all add: assertion_ready_def)
  have f: "tc_test (f tc) = tc_test tc" for tc
    by (simp add: f_def cut_test_context_start_user_message_jump_def cut_test_context_push_backtrace_def)
  have calls: "fst (assert_statement place Passed m start_state) @ rest =
      [Push_Backtrace place, Start_Message_Jump] @ [Pass] @ ([Finish_Message_Jump] @ message_calls m @ [Pop_Backtrace]) @ rest"
    by (simp only: passed_calls fst_conv append.assoc append.simps)
  have "perform_calls P (fst (assert_statement place Passed m start_state) @ rest) w =
      perform_calls P ([Pass] @ ([Finish_Message_Jump] @ message_calls m @ [Pop_Backtrace]) @ rest) (update_context c f w)"
    unfolding calls by (subst perform_effects [OF c(1)]) (simp_all add: f_def comp_def)
  also have "\<dots> = perform_calls P (([Finish_Message_Jump] @ message_calls m @ [Pop_Backtrace]) @ rest)
      (update_context c (clear_user_message \<circ> f) ?emitted)"
    using c(1) pass_on [where f = f and P = P, OF c(3,2) f]
    by (simp add: perform_call_def do_step_def bind_step_def cut_test_context_current_peek_def)
  also have "\<dots> = perform_calls P rest (update_context c g (update_context c (clear_user_message \<circ> f) ?emitted))"
    using c(1) unfolding g_def
    by (subst perform_effects [where c = c]) (simp_all add: cut_test_context_current_peek_def split: option.splits)
  also have "update_context c g (update_context c (clear_user_message \<circ> f) ?emitted) =
      update_context c clear_user_message ?emitted"
    unfolding update_context_twice
  proof (rule update_context_cong)
    have "g (clear_user_message (f tc)) = clear_user_message tc"
      if "tc_jump_nest tc = 0" "tc_current_result tc = None" for tc
      using that
      by (cases m) (simp_all add: g_def f_def clear_user_message_def cut_test_context_finish_user_message_jump_def
          cut_test_context_start_user_message_jump_def cut_test_context_push_backtrace_def guint_def guint_pred_def
          cut_test_context_pop_backtrace_def cut_test_context_set_current_result_user_message_def Let_def)
    then show "(g \<circ> (clear_user_message \<circ> f)) (context_at ?emitted c) = clear_user_message (context_at ?emitted c)"
      using c(4,5) by simp
  qed
  also have "\<dots> = cut_test_context_pass_assertion P c w"
    using c(3) by (simp add: cut_test_context_pass_assertion_def emit_update_context)
  finally show ?thesis .
qed

text \<open>Clearing the message changes only the message and its count.\<close>

lemma clear_user_message_fields [simp]:
  "clear_user_message (c\<lparr>tc_jump_nest := n\<rparr>) = (clear_user_message c)\<lparr>tc_jump_nest := n\<rparr>"
  "clear_user_message (c\<lparr>tc_backtrace := b\<rparr>) = (clear_user_message c)\<lparr>tc_backtrace := b\<rparr>"
  "clear_user_message (c\<lparr>tc_expected := s\<rparr>) = (clear_user_message c)\<lparr>tc_expected := s\<rparr>"
  "clear_user_message (c\<lparr>tc_actual := s\<rparr>) = (clear_user_message c)\<lparr>tc_actual := s\<rparr>"
  "clear_user_message (c\<lparr>tc_current_result := r\<rparr>) = (clear_user_message c)\<lparr>tc_current_result := r\<rparr>"
  "clear_user_message (c\<lparr>tc_failed := x\<rparr>) = (clear_user_message c)\<lparr>tc_failed := x\<rparr>"
  "clear_user_message (c\<lparr>tc_omitted := x\<rparr>) = (clear_user_message c)\<lparr>tc_omitted := x\<rparr>"
  "tc_jump_nest (clear_user_message c) = tc_jump_nest c"
  "tc_current_result (clear_user_message c) = tc_current_result c"
  "tc_backtrace (clear_user_message c) = tc_backtrace c"
  "tc_expected (clear_user_message c) = tc_expected c" "tc_actual (clear_user_message c) = tc_actual c"
  "tc_test (clear_user_message c) = tc_test c" "tc_failed (clear_user_message c) = tc_failed c"
  by (simp_all add: clear_user_message_def Let_def)

lemma current_data_id_fields [simp]:
  "current_data_id (c\<lparr>tc_jump_nest := n\<rparr>) = current_data_id c"
  "current_data_id (c\<lparr>tc_backtrace := b\<rparr>) = current_data_id c"
  "current_data_id (c\<lparr>tc_expected := s\<rparr>) = current_data_id c"
  "current_data_id (c\<lparr>tc_actual := s\<rparr>) = current_data_id c"
  "current_data_id (c\<lparr>tc_current_result := r\<rparr>) = current_data_id c"
  "current_data_id (c\<lparr>tc_failed := x\<rparr>) = current_data_id c"
  "current_data_id (c\<lparr>tc_omitted := x\<rparr>) = current_data_id c"
  by (cases "tc_current_data c"; simp add: current_data_id_def cut_test_context_get_current_data_def)+

lemma failure_is_critical [simp]: "cut_test_result_status_is_critical FAILURE"
  by code_simp

lemma set_failure:
  "cut_test_context_set_current_result FAILURE (Some text) c =
   (clear_user_message c)
     \<lparr>tc_failed := True, tc_omitted := False, tc_expected := None, tc_actual := None,
      tc_current_result := Some
        (cut_test_result_set_actual (tc_actual c) (cut_test_result_set_expected (tc_expected c)
          (cut_test_result_new FAILURE (tc_test c) (tc_test_iterator c) (tc_test_case c) (tc_test_suite c)
            (current_data_id c) (tc_user_message c) (Some text) (tc_backtrace c))))\<rparr>"
  by (simp add: cut_test_context_set_current_result_def clear_current_result_def
      clear_additional_test_result_data_def Let_def)

definition failure_calls ::
  "backtrace_entry \<Rightarrow> (ustring \<times> ustring) option \<Rightarrow> ustring \<Rightarrow> ustring option \<Rightarrow> user_call list" where
  "failure_calls place shown text m =
     [Push_Backtrace place, Start_Message_Jump] @ shown_calls shown @
     [Set_Result FAILURE (Some text), Finish_Message_Jump] @ message_calls m"

lemma failure_calls_effect:
  assumes "tc_jump_nest c = 0"
  shows "fold (the \<circ> context_effect) (failure_calls place shown text m) c =
    (after_failure place c)\<lparr>tc_current_result := Some (failure_result place shown text m c)\<rparr>"
  using assms
  by (cases m; cases shown)
     (auto simp: failure_calls_def cut_test_context_push_backtrace_def cut_test_context_start_user_message_jump_def
      cut_test_context_finish_user_message_jump_def cut_test_context_set_expected_def
      cut_test_context_set_actual_def cut_test_context_set_current_result_user_message_def set_failure
      after_failure_def failure_result_def Let_def guint_def guint_pred_def)

lemma failure_result_status: "result_status (failure_result place shown text m c) = FAILURE"
  by (simp add: failure_result_def Let_def cut_test_result_set_actual_def cut_test_result_set_expected_def
      cut_test_result_set_user_message_def cut_test_result_set_system_message_def cut_test_result_new_def
      reset_message_def reset_diff_def split: option.splits)

lemma failed_line:
  assumes ready: "assertion_ready t c w"
  shows "perform_calls P (fst (assert_statement place (Failed shown text) m start_state)) w =
    (Inr (), assertions_effect P t c ((place, Failed shown text, m) # ls) w)"
proof -
  define f where "f = fold (the \<circ> context_effect) (failure_calls place shown text m)"
  define r where "r = failure_result place shown text m (context_at w c)"
  let ?w = "update_context c f w"
  have c: "cut_test_context_current_peek w = Some c" "c < length (contexts w)" "tc_test (context_at w c) = Some t"
    "tc_jump_nest (context_at w c) = 0" "\<not> fatal_failures (run_state w)"
    using ready by (simp_all add: assertion_ready_def)
  have f: "f (context_at w c) = (after_failure place (context_at w c))\<lparr>tc_current_result := Some r\<rparr>"
    unfolding f_def r_def by (rule failure_calls_effect [OF c(4)])
  have keep: "tc_test (after_failure place (context_at w c)) = Some t"
    using c(3) by (simp add: after_failure_def)
  have "perform_calls P (fst (assert_statement place (Failed shown text) m start_state)) w =
      perform_calls P (failure_calls place shown text m @ [Process_Result]) w"
    by (simp only: failed_calls fst_conv failure_calls_def append.assoc append.simps)
  also have "\<dots> = perform_calls P [Process_Result] ?w"
    unfolding f_def
    by (rule perform_effects [OF c(1)]) (auto simp: failure_calls_def split: option.splits)
  also have "\<dots> = (Inr (), update_context c clear_current_result
      (emit_object P (O_Test t) (Sig_Status FAILURE (Some c) (cut_test_set_result_elapsed P t r)) ?w))"
    using c(1,5) keep f failure_result_status [of place shown "text" m "context_at w c"]
    by (simp add: bind_step_def perform_call_def cut_test_context_current_peek_def
        cut_test_context_process_current_result_def cut_test_context_emit_signal_def result_target_def
        cut_test_emit_result_signal_def context_at_update [OF c(2)] Let_def r_def [symmetric])
  also have "update_context c clear_current_result
      (emit_object P (O_Test t) (Sig_Status FAILURE (Some c) (cut_test_set_result_elapsed P t r)) ?w) =
      emit_object P (O_Test t) (Sig_Status FAILURE (Some c) (cut_test_set_result_elapsed P t r))
        (update_context c (after_failure place) w)"
    unfolding emit_update_context update_context_twice
    by (rule update_context_cong)
       (use ready in \<open>simp add: f clear_current_result_def assertion_ready_def after_failure_def\<close>)
  finally show ?thesis by (simp add: r_def)
qed

section \<open>A list of assertions\<close>

lemma ready_emit: "assertion_ready t c w \<Longrightarrow> assertion_ready t c (emit_object P x sig w)"
  by (simp add: assertion_ready_def cut_test_context_current_peek_def)

lemma ready_pass: "assertion_ready t c w \<Longrightarrow> assertion_ready t c (cut_test_context_pass_assertion P c w)"
  by (simp add: assertion_ready_def cut_test_context_pass_assertion_def cut_test_context_current_peek_def
      context_at_update)

lemma ready_logged: "assertion_ready t c w \<Longrightarrow> assertion_ready t c (w\<lparr>user_calls := u\<rparr>)"
  by (simp add: assertion_ready_def cut_test_context_current_peek_def context_at_def)

lemma statements_performed:
  "assertion_ready t c w \<Longrightarrow>
   perform_calls P (fst (statements (map line_statement ls) start_state)) w = (Inr (), assertions_effect P t c ls w)"
proof (induction ls arbitrary: w)
  case (Cons l ls)
  obtain place a m where l: "l = (place, a, m)" by (cases l)
  show ?case
  proof (cases a)
    case Passed
    have "fst (statements (map line_statement (l # ls)) start_state) =
        fst (assert_statement place Passed m start_state) @ fst (statements (map line_statement ls) start_state)"
      by (simp add: l Passed line_statement_def passed_calls Let_def split: prod.split)
    then show ?thesis
      using Cons.IH [OF ready_pass [OF Cons.prems]] passed_line [OF Cons.prems] by (simp add: l Passed)
  next
    case (Failed shown msg)
    have "fst (statements (map line_statement (l # ls)) start_state) =
        fst (assert_statement place (Failed shown msg) m start_state)"
      by (simp add: l Failed line_statement_def failed_calls Let_def)
    then show ?thesis
      using failed_line [OF Cons.prems] by (simp only: l Failed)
  qed
qed simp

lemma line_simps:
  "line_statement (place, a, m) = assert_statement place a m" "line_passes (place, a, m) \<longleftrightarrow> a = Passed"
  by (simp_all add: line_statement_def line_passes_def)

lemma statements_end: "fst (snd (statements (map line_statement ls) start_state)) \<longleftrightarrow> \<not> list_all line_passes ls"
proof (induction ls)
  case (Cons l ls)
  obtain place a m where l: "l = (place, a, m)" by (cases l)
  show ?case
    using Cons
    by (cases a)
       (auto simp: l line_simps passed_calls failed_calls Let_def split: prod.split)
qed simp

lemma function_of_lines:
  assumes "assertion_ready t c w"
  shows "run_user_function P (Test_Body t) (\<lambda>_. function_of (map line_statement ls)) w =
    (Inr (), assertions_effect P t c ls (w\<lparr>user_calls := user_calls w @ [Test_Body t]\<rparr>))"
proof -
  let ?w = "w\<lparr>user_calls := user_calls w @ [Test_Body t]\<rparr>"
  obtain calls jumped s where f: "statements (map line_statement ls) start_state = (calls, jumped, s)"
    by (metis prod_cases3)
  have p: "perform_calls P calls ?w = (Inr (), assertions_effect P t c ls ?w)"
    using statements_performed [OF ready_logged [OF assms], of P ls] f by simp
  have "current_contexts (assertions_effect P t c ls v) = current_contexts v" for v
    by (induction P t c ls v rule: assertions_effect.induct)
       (auto simp: cut_test_context_pass_assertion_def split: assertion.splits option.splits)
  then have "cut_test_context_current_peek (assertions_effect P t c ls ?w) \<noteq> None"
    using assms by (simp add: assertion_ready_def cut_test_context_current_peek_def)
  then show ?thesis
    using f p by (auto simp: run_user_function_def function_of_def bind_step_def)
qed

lemma assertions_failed:
  "c < length (contexts w) \<Longrightarrow>
   tc_failed (context_at (assertions_effect P t c ls w) c) \<longleftrightarrow> tc_failed (context_at w c) \<or> \<not> list_all line_passes ls"
proof (induction ls arbitrary: w)
  case (Cons l ls)
  obtain place a m where l: "l = (place, a, m)" by (cases l)
  show ?case
  proof (cases a)
    case Passed
    let ?w = "cut_test_context_pass_assertion P c w"
    have "tc_failed (context_at ?w c) = tc_failed (context_at w c)" "c < length (contexts ?w)"
      using Cons.prems
      by (simp_all add: cut_test_context_pass_assertion_def context_at_update split: option.split)
    then show ?thesis using Cons.IH [of ?w] by (simp add: l Passed line_passes_def)
  next
    case (Failed shown msg)
    then show ?thesis
      using Cons.prems by (simp add: l line_passes_def context_at_update after_failure_def)
  qed
qed simp


end
