(* ===== verification/Assertion_Helpers.thy ===== *)
theory Assertion_Helpers
  imports Assertions
begin

text \<open>
  The functions of \<open>cutter/cut-assertions-helper.c\<close>: each takes the values and the texts of the
  expressions they come from and passes or fails. Integers have the width that the GNU library gives to
  the type on a 64-bit machine.
\<close>

section \<open>Truth\<close>

definition cut_assert_helper :: "bool \<Rightarrow> ustring \<Rightarrow> assertion" where
  "cut_assert_helper result e =
     (if result then Passed else Failed None (expected_message e '' is neither FALSE nor NULL''))"

definition cut_assert_true_helper :: "bool \<Rightarrow> ustring \<Rightarrow> assertion" where
  "cut_assert_true_helper result e =
     (if result then Passed else Failed None (expected_message e '' is TRUE value''))"

definition cut_assert_false_helper :: "bool \<Rightarrow> ustring \<Rightarrow> assertion" where
  "cut_assert_false_helper result e =
     (if result then Failed None (expected_message e '' is FALSE/NULL'') else Passed)"

text \<open>A \<open>cut_boolean\<close> is an \<open>int\<close>.\<close>

definition boolean_text :: "32 word \<Rightarrow> ustring" where
  "boolean_text b = (if b \<noteq> 0 then ascii ''true'' else ascii ''false'')"

definition cut_assert_equal_boolean_helper :: "32 word \<Rightarrow> 32 word \<Rightarrow> ustring \<Rightarrow> ustring \<Rightarrow> assertion" where
  "cut_assert_equal_boolean_helper expected actual =
     equality (expected \<noteq> 0 \<and> actual \<noteq> 0 \<or> expected = 0 \<and> actual = 0) (boolean_text expected) (boolean_text actual)"

definition cut_assert_not_equal_boolean_helper :: "32 word \<Rightarrow> 32 word \<Rightarrow> ustring \<Rightarrow> ustring \<Rightarrow> assertion" where
  "cut_assert_not_equal_boolean_helper expected actual =
     inequality (\<not> (expected \<noteq> 0 \<and> actual \<noteq> 0 \<or> expected = 0 \<and> actual = 0)) (boolean_text expected) (boolean_text actual)"

text \<open>A pointer is its address, NULL is 0.\<close>

definition cut_assert_null_helper :: "64 word \<Rightarrow> ustring \<Rightarrow> assertion" where
  "cut_assert_null_helper object e = (if object = 0 then Passed else Failed None (expected_message e '' is NULL''))"

definition cut_assert_null_string_helper :: "ustring option \<Rightarrow> ustring \<Rightarrow> assertion" where
  "cut_assert_null_string_helper string e =
     (case string of
        None \<Rightarrow> Passed
      | Some s \<Rightarrow> Failed (Some (ascii ''<NULL>'', s)) (ascii ''<'' @ e @ ascii ''> is NULL''))"

definition cut_assert_not_null_helper :: "64 word \<Rightarrow> ustring \<Rightarrow> assertion" where
  "cut_assert_not_null_helper object e =
     (if object \<noteq> 0 then Passed else Failed None (expected_message e '' is not NULL''))"

section \<open>Integers\<close>

definition equal_signed :: "'a::len word \<Rightarrow> 'a word \<Rightarrow> ustring \<Rightarrow> ustring \<Rightarrow> assertion" where
  "equal_signed expected actual =
     equality (expected = actual) (signed_decimal (sint expected)) (signed_decimal (sint actual))"

definition not_equal_signed :: "'a::len word \<Rightarrow> 'a word \<Rightarrow> ustring \<Rightarrow> ustring \<Rightarrow> assertion" where
  "not_equal_signed expected actual =
     inequality (expected \<noteq> actual) (signed_decimal (sint expected)) (signed_decimal (sint actual))"

definition equal_unsigned :: "'a::len word \<Rightarrow> 'a word \<Rightarrow> ustring \<Rightarrow> ustring \<Rightarrow> assertion" where
  "equal_unsigned expected actual =
     equality (expected = actual) (decimal (unat expected)) (decimal (unat actual))"

definition not_equal_unsigned :: "'a::len word \<Rightarrow> 'a word \<Rightarrow> ustring \<Rightarrow> ustring \<Rightarrow> assertion" where
  "not_equal_unsigned expected actual =
     inequality (expected \<noteq> actual) (decimal (unat expected)) (decimal (unat actual))"

definition cut_assert_equal_int_helper :: "64 word \<Rightarrow> 64 word \<Rightarrow> ustring \<Rightarrow> ustring \<Rightarrow> assertion" where
  "cut_assert_equal_int_helper = equal_signed"

definition cut_assert_not_equal_int_helper :: "64 word \<Rightarrow> 64 word \<Rightarrow> ustring \<Rightarrow> ustring \<Rightarrow> assertion" where
  "cut_assert_not_equal_int_helper = not_equal_signed"

definition cut_assert_equal_int_least8_helper :: "8 word \<Rightarrow> 8 word \<Rightarrow> ustring \<Rightarrow> ustring \<Rightarrow> assertion" where
  "cut_assert_equal_int_least8_helper = equal_signed"

definition cut_assert_not_equal_int_least8_helper :: "8 word \<Rightarrow> 8 word \<Rightarrow> ustring \<Rightarrow> ustring \<Rightarrow> assertion" where
  "cut_assert_not_equal_int_least8_helper = not_equal_signed"

definition cut_assert_equal_int_least16_helper :: "16 word \<Rightarrow> 16 word \<Rightarrow> ustring \<Rightarrow> ustring \<Rightarrow> assertion" where
  "cut_assert_equal_int_least16_helper = equal_signed"

definition cut_assert_not_equal_int_least16_helper :: "16 word \<Rightarrow> 16 word \<Rightarrow> ustring \<Rightarrow> ustring \<Rightarrow> assertion" where
  "cut_assert_not_equal_int_least16_helper = not_equal_signed"

definition cut_assert_equal_int_least32_helper :: "32 word \<Rightarrow> 32 word \<Rightarrow> ustring \<Rightarrow> ustring \<Rightarrow> assertion" where
  "cut_assert_equal_int_least32_helper = equal_signed"

definition cut_assert_not_equal_int_least32_helper :: "32 word \<Rightarrow> 32 word \<Rightarrow> ustring \<Rightarrow> ustring \<Rightarrow> assertion" where
  "cut_assert_not_equal_int_least32_helper = not_equal_signed"

definition cut_assert_equal_int_least64_helper :: "64 word \<Rightarrow> 64 word \<Rightarrow> ustring \<Rightarrow> ustring \<Rightarrow> assertion" where
  "cut_assert_equal_int_least64_helper = equal_signed"

definition cut_assert_not_equal_int_least64_helper :: "64 word \<Rightarrow> 64 word \<Rightarrow> ustring \<Rightarrow> ustring \<Rightarrow> assertion" where
  "cut_assert_not_equal_int_least64_helper = not_equal_signed"

definition cut_assert_equal_int_fast8_helper :: "8 word \<Rightarrow> 8 word \<Rightarrow> ustring \<Rightarrow> ustring \<Rightarrow> assertion" where
  "cut_assert_equal_int_fast8_helper = equal_signed"

definition cut_assert_not_equal_int_fast8_helper :: "8 word \<Rightarrow> 8 word \<Rightarrow> ustring \<Rightarrow> ustring \<Rightarrow> assertion" where
  "cut_assert_not_equal_int_fast8_helper = not_equal_signed"

definition cut_assert_equal_int_fast16_helper :: "64 word \<Rightarrow> 64 word \<Rightarrow> ustring \<Rightarrow> ustring \<Rightarrow> assertion" where
  "cut_assert_equal_int_fast16_helper = equal_signed"

definition cut_assert_not_equal_int_fast16_helper :: "64 word \<Rightarrow> 64 word \<Rightarrow> ustring \<Rightarrow> ustring \<Rightarrow> assertion" where
  "cut_assert_not_equal_int_fast16_helper = not_equal_signed"

definition cut_assert_equal_int_fast32_helper :: "64 word \<Rightarrow> 64 word \<Rightarrow> ustring \<Rightarrow> ustring \<Rightarrow> assertion" where
  "cut_assert_equal_int_fast32_helper = equal_signed"

definition cut_assert_not_equal_int_fast32_helper :: "64 word \<Rightarrow> 64 word \<Rightarrow> ustring \<Rightarrow> ustring \<Rightarrow> assertion" where
  "cut_assert_not_equal_int_fast32_helper = not_equal_signed"

definition cut_assert_equal_int_fast64_helper :: "64 word \<Rightarrow> 64 word \<Rightarrow> ustring \<Rightarrow> ustring \<Rightarrow> assertion" where
  "cut_assert_equal_int_fast64_helper = equal_signed"

definition cut_assert_not_equal_int_fast64_helper :: "64 word \<Rightarrow> 64 word \<Rightarrow> ustring \<Rightarrow> ustring \<Rightarrow> assertion" where
  "cut_assert_not_equal_int_fast64_helper = not_equal_signed"

definition cut_assert_equal_intptr_helper :: "64 word \<Rightarrow> 64 word \<Rightarrow> ustring \<Rightarrow> ustring \<Rightarrow> assertion" where
  "cut_assert_equal_intptr_helper = equal_signed"

definition cut_assert_not_equal_intptr_helper :: "64 word \<Rightarrow> 64 word \<Rightarrow> ustring \<Rightarrow> ustring \<Rightarrow> assertion" where
  "cut_assert_not_equal_intptr_helper = not_equal_signed"

definition cut_assert_equal_intmax_helper :: "64 word \<Rightarrow> 64 word \<Rightarrow> ustring \<Rightarrow> ustring \<Rightarrow> assertion" where
  "cut_assert_equal_intmax_helper = equal_signed"

definition cut_assert_not_equal_intmax_helper :: "64 word \<Rightarrow> 64 word \<Rightarrow> ustring \<Rightarrow> ustring \<Rightarrow> assertion" where
  "cut_assert_not_equal_intmax_helper = not_equal_signed"

definition cut_assert_equal_uint_helper :: "64 word \<Rightarrow> 64 word \<Rightarrow> ustring \<Rightarrow> ustring \<Rightarrow> assertion" where
  "cut_assert_equal_uint_helper = equal_unsigned"

definition cut_assert_not_equal_uint_helper :: "64 word \<Rightarrow> 64 word \<Rightarrow> ustring \<Rightarrow> ustring \<Rightarrow> assertion" where
  "cut_assert_not_equal_uint_helper = not_equal_unsigned"

definition cut_assert_equal_uint_least8_helper :: "8 word \<Rightarrow> 8 word \<Rightarrow> ustring \<Rightarrow> ustring \<Rightarrow> assertion" where
  "cut_assert_equal_uint_least8_helper = equal_unsigned"

definition cut_assert_not_equal_uint_least8_helper :: "8 word \<Rightarrow> 8 word \<Rightarrow> ustring \<Rightarrow> ustring \<Rightarrow> assertion" where
  "cut_assert_not_equal_uint_least8_helper = not_equal_unsigned"

definition cut_assert_equal_uint_least16_helper :: "16 word \<Rightarrow> 16 word \<Rightarrow> ustring \<Rightarrow> ustring \<Rightarrow> assertion" where
  "cut_assert_equal_uint_least16_helper = equal_unsigned"

definition cut_assert_not_equal_uint_least16_helper :: "16 word \<Rightarrow> 16 word \<Rightarrow> ustring \<Rightarrow> ustring \<Rightarrow> assertion" where
  "cut_assert_not_equal_uint_least16_helper = not_equal_unsigned"

definition cut_assert_equal_uint_least32_helper :: "32 word \<Rightarrow> 32 word \<Rightarrow> ustring \<Rightarrow> ustring \<Rightarrow> assertion" where
  "cut_assert_equal_uint_least32_helper = equal_unsigned"

definition cut_assert_not_equal_uint_least32_helper :: "32 word \<Rightarrow> 32 word \<Rightarrow> ustring \<Rightarrow> ustring \<Rightarrow> assertion" where
  "cut_assert_not_equal_uint_least32_helper = not_equal_unsigned"

definition cut_assert_equal_uint_least64_helper :: "64 word \<Rightarrow> 64 word \<Rightarrow> ustring \<Rightarrow> ustring \<Rightarrow> assertion" where
  "cut_assert_equal_uint_least64_helper = equal_unsigned"

definition cut_assert_not_equal_uint_least64_helper :: "64 word \<Rightarrow> 64 word \<Rightarrow> ustring \<Rightarrow> ustring \<Rightarrow> assertion" where
  "cut_assert_not_equal_uint_least64_helper = not_equal_unsigned"

definition cut_assert_equal_uint_fast8_helper :: "8 word \<Rightarrow> 8 word \<Rightarrow> ustring \<Rightarrow> ustring \<Rightarrow> assertion" where
  "cut_assert_equal_uint_fast8_helper = equal_unsigned"

definition cut_assert_not_equal_uint_fast8_helper :: "8 word \<Rightarrow> 8 word \<Rightarrow> ustring \<Rightarrow> ustring \<Rightarrow> assertion" where
  "cut_assert_not_equal_uint_fast8_helper = not_equal_unsigned"

definition cut_assert_equal_uint_fast16_helper :: "64 word \<Rightarrow> 64 word \<Rightarrow> ustring \<Rightarrow> ustring \<Rightarrow> assertion" where
  "cut_assert_equal_uint_fast16_helper = equal_unsigned"

definition cut_assert_not_equal_uint_fast16_helper :: "64 word \<Rightarrow> 64 word \<Rightarrow> ustring \<Rightarrow> ustring \<Rightarrow> assertion" where
  "cut_assert_not_equal_uint_fast16_helper = not_equal_unsigned"

definition cut_assert_equal_uint_fast32_helper :: "64 word \<Rightarrow> 64 word \<Rightarrow> ustring \<Rightarrow> ustring \<Rightarrow> assertion" where
  "cut_assert_equal_uint_fast32_helper = equal_unsigned"

definition cut_assert_not_equal_uint_fast32_helper :: "64 word \<Rightarrow> 64 word \<Rightarrow> ustring \<Rightarrow> ustring \<Rightarrow> assertion" where
  "cut_assert_not_equal_uint_fast32_helper = not_equal_unsigned"

definition cut_assert_equal_uint_fast64_helper :: "64 word \<Rightarrow> 64 word \<Rightarrow> ustring \<Rightarrow> ustring \<Rightarrow> assertion" where
  "cut_assert_equal_uint_fast64_helper = equal_unsigned"

definition cut_assert_not_equal_uint_fast64_helper :: "64 word \<Rightarrow> 64 word \<Rightarrow> ustring \<Rightarrow> ustring \<Rightarrow> assertion" where
  "cut_assert_not_equal_uint_fast64_helper = not_equal_unsigned"

definition cut_assert_equal_uintptr_helper :: "64 word \<Rightarrow> 64 word \<Rightarrow> ustring \<Rightarrow> ustring \<Rightarrow> assertion" where
  "cut_assert_equal_uintptr_helper = equal_unsigned"

definition cut_assert_not_equal_uintptr_helper :: "64 word \<Rightarrow> 64 word \<Rightarrow> ustring \<Rightarrow> ustring \<Rightarrow> assertion" where
  "cut_assert_not_equal_uintptr_helper = not_equal_unsigned"

definition cut_assert_equal_uintmax_helper :: "64 word \<Rightarrow> 64 word \<Rightarrow> ustring \<Rightarrow> ustring \<Rightarrow> assertion" where
  "cut_assert_equal_uintmax_helper = equal_unsigned"

definition cut_assert_not_equal_uintmax_helper :: "64 word \<Rightarrow> 64 word \<Rightarrow> ustring \<Rightarrow> ustring \<Rightarrow> assertion" where
  "cut_assert_not_equal_uintmax_helper = not_equal_unsigned"

definition cut_assert_equal_size_helper :: "64 word \<Rightarrow> 64 word \<Rightarrow> ustring \<Rightarrow> ustring \<Rightarrow> assertion" where
  "cut_assert_equal_size_helper = equal_unsigned"

definition cut_assert_not_equal_size_helper :: "64 word \<Rightarrow> 64 word \<Rightarrow> ustring \<Rightarrow> ustring \<Rightarrow> assertion" where
  "cut_assert_not_equal_size_helper = not_equal_unsigned"

section \<open>Characters and strings\<close>

definition cut_assert_equal_char_helper :: "8 word \<Rightarrow> 8 word \<Rightarrow> ustring \<Rightarrow> ustring \<Rightarrow> assertion" where
  "cut_assert_equal_char_helper expected actual =
     equality (expected = actual) (gcut_inspect_char expected) (gcut_inspect_char actual)"

definition cut_assert_not_equal_char_helper :: "8 word \<Rightarrow> 8 word \<Rightarrow> ustring \<Rightarrow> ustring \<Rightarrow> assertion" where
  "cut_assert_not_equal_char_helper expected actual =
     inequality (expected \<noteq> actual) (gcut_inspect_char expected) (gcut_inspect_char actual)"

definition cut_assert_equal_string_helper ::
  "ustring option \<Rightarrow> ustring option \<Rightarrow> ustring \<Rightarrow> ustring \<Rightarrow> assertion" where
  "cut_assert_equal_string_helper expected actual e a =
     (if expected = None
      then equality (actual = None) (cut_utils_inspect_string expected) (cut_utils_inspect_string actual) a (ascii ''NULL'')
      else equality (cut_utils_equal_string expected actual)
             (cut_utils_inspect_string expected) (cut_utils_inspect_string actual) e a)"

definition cut_assert_not_equal_string_helper ::
  "ustring option \<Rightarrow> ustring option \<Rightarrow> ustring \<Rightarrow> ustring \<Rightarrow> assertion" where
  "cut_assert_not_equal_string_helper expected actual e a =
     (if expected = None
      then inequality (actual \<noteq> None) (cut_utils_inspect_string expected) (cut_utils_inspect_string actual) a (ascii ''NULL'')
      else inequality (\<not> cut_utils_equal_string expected actual)
             (cut_utils_inspect_string expected) (cut_utils_inspect_string actual) e a)"

definition substring_text :: "ustring \<Rightarrow> ustring \<Rightarrow> ustring" where
  "substring_text a n = ascii ''('' @ a @ ascii '')[0..'' @ n @ ascii '']''"

definition cut_assert_equal_substring_helper ::
  "ustring option \<Rightarrow> ustring option \<Rightarrow> nat \<Rightarrow> ustring \<Rightarrow> ustring \<Rightarrow> ustring \<Rightarrow> assertion" where
  "cut_assert_equal_substring_helper expected actual n e a n_text =
     (let shown = cut_utils_inspect_string (map_option (take n) actual)
      in if expected = None
         then equality (actual = None) (cut_utils_inspect_string expected) shown a (ascii ''NULL'')
         else equality (cut_utils_equal_substring expected actual n) (cut_utils_inspect_string expected) shown
                e (substring_text a n_text))"

definition cut_assert_not_equal_substring_helper ::
  "ustring option \<Rightarrow> ustring option \<Rightarrow> nat \<Rightarrow> ustring \<Rightarrow> ustring \<Rightarrow> ustring \<Rightarrow> assertion" where
  "cut_assert_not_equal_substring_helper expected actual n e a n_text =
     (let shown = cut_utils_inspect_string (map_option (take n) actual)
      in if expected = None
         then inequality (actual \<noteq> None) (cut_utils_inspect_string expected) shown a (ascii ''NULL'')
         else inequality (\<not> cut_utils_equal_substring expected actual n) (cut_utils_inspect_string expected) shown
                e (substring_text a n_text))"

section \<open>Memory and arrays\<close>

definition memory_size :: "nat list option \<Rightarrow> nat" where
  "memory_size m = (case m of None \<Rightarrow> 0 | Some bytes \<Rightarrow> length bytes)"

definition memory_bytes :: "nat list option \<Rightarrow> nat list" where
  "memory_bytes m = (case m of None \<Rightarrow> [] | Some bytes \<Rightarrow> bytes)"

definition memory_text :: "nat list option \<Rightarrow> ustring" where
  "memory_text m = cut_utils_inspect_memory m @ ascii '' (size: '' @ decimal (memory_size m) @ ascii '')''"

definition sized_text :: "ustring \<Rightarrow> ustring \<Rightarrow> ustring" where
  "sized_text e n = e @ ascii ''(size: '' @ n @ ascii '')''"

definition cut_assert_equal_memory_helper ::
  "nat list option \<Rightarrow> nat list option \<Rightarrow> ustring \<Rightarrow> ustring \<Rightarrow> ustring \<Rightarrow> ustring \<Rightarrow> assertion" where
  "cut_assert_equal_memory_helper expected actual e e_size a a_size =
     equality (memory_size expected = memory_size actual \<and> memory_bytes expected = memory_bytes actual)
       (memory_text expected) (memory_text actual) (sized_text e e_size) (sized_text a a_size)"

definition cut_assert_not_equal_memory_helper ::
  "nat list option \<Rightarrow> nat list option \<Rightarrow> ustring \<Rightarrow> ustring \<Rightarrow> ustring \<Rightarrow> ustring \<Rightarrow> assertion" where
  "cut_assert_not_equal_memory_helper expected actual e e_size a a_size =
     inequality (memory_size expected \<noteq> memory_size actual \<or> memory_bytes expected \<noteq> memory_bytes actual)
       (memory_text expected) (memory_text actual) (sized_text e e_size) (sized_text a a_size)"

definition cut_assert_equal_string_array_helper ::
  "ustring list option \<Rightarrow> ustring list option \<Rightarrow> ustring \<Rightarrow> ustring \<Rightarrow> assertion" where
  "cut_assert_equal_string_array_helper expected actual =
     equality (expected \<noteq> None \<and> actual \<noteq> None \<and> cut_utils_equal_string_array expected actual)
       (cut_utils_inspect_string_array expected) (cut_utils_inspect_string_array actual)"

section \<open>Operators and functions\<close>

definition cut_assert_operator_helper :: "bool \<Rightarrow> ustring \<Rightarrow> ustring \<Rightarrow> ustring \<Rightarrow> assertion" where
  "cut_assert_operator_helper result lhs operator rhs =
     (if result then Passed
      else Failed None (expected_message (lhs @ ascii '' '' @ operator @ ascii '' '' @ rhs) '' is TRUE''))"

definition operator_message :: "ustring \<Rightarrow> ustring \<Rightarrow> ustring \<Rightarrow> ustring \<Rightarrow> ustring \<Rightarrow> ustring" where
  "operator_message lhs rhs e_lhs operator e_rhs =
     ascii ''expected: <'' @ e_lhs @ ascii ''> '' @ operator @ ascii '' <'' @ e_rhs @ ascii ''>'' @ [10] @
     ascii ''  actual: <'' @ lhs @ ascii ''> '' @ operator @ ascii '' <'' @ rhs @ ascii ''>''"

definition cut_assert_operator_int_helper ::
  "bool \<Rightarrow> 64 word \<Rightarrow> 64 word \<Rightarrow> ustring \<Rightarrow> ustring \<Rightarrow> ustring \<Rightarrow> assertion" where
  "cut_assert_operator_int_helper result lhs rhs e_lhs operator e_rhs =
     (if result then Passed
      else Failed None (operator_message (signed_decimal (sint lhs)) (signed_decimal (sint rhs)) e_lhs operator e_rhs))"

definition cut_assert_operator_uint_helper ::
  "bool \<Rightarrow> 64 word \<Rightarrow> 64 word \<Rightarrow> ustring \<Rightarrow> ustring \<Rightarrow> ustring \<Rightarrow> assertion" where
  "cut_assert_operator_uint_helper result lhs rhs e_lhs operator e_rhs =
     (if result then Passed
      else Failed None (operator_message (decimal (unat lhs)) (decimal (unat rhs)) e_lhs operator e_rhs))"

definition cut_assert_operator_size_helper ::
  "bool \<Rightarrow> 64 word \<Rightarrow> 64 word \<Rightarrow> ustring \<Rightarrow> ustring \<Rightarrow> ustring \<Rightarrow> assertion" where
  "cut_assert_operator_size_helper result lhs rhs e_lhs operator e_rhs =
     (if result then Passed
      else Failed None (operator_message (decimal (unat lhs)) (decimal (unat rhs)) e_lhs operator e_rhs))"

definition cut_assert_equal_helper :: "bool \<Rightarrow> ustring \<Rightarrow> ustring \<Rightarrow> ustring \<Rightarrow> assertion" where
  "cut_assert_equal_helper result f e a =
     (if result then Passed
      else Failed None (expected_message (f @ ascii ''('' @ e @ ascii '', '' @ a @ ascii '')'') '' is TRUE''))"

section \<open>The system\<close>

text \<open>\<open>strerror\<close> is \<open>g_strerror\<close>; the file system and the match of an expression are parameters.\<close>

definition cut_assert_errno_helper :: "(32 word \<Rightarrow> ustring) \<Rightarrow> 32 word \<Rightarrow> assertion" where
  "cut_assert_errno_helper strerror errno =
     (if errno = 0 then Passed
      else Failed None (ascii ''expected: <0> (errno)'' @ [10] @ ascii ''  actual: <'' @
                        signed_decimal (sint errno) @ ascii ''> ('' @ strerror errno @ ascii '')''))"

text \<open>No outcome if there is no error: the assertion is not even counted.\<close>

definition cut_error_errno_helper :: "(32 word \<Rightarrow> ustring) \<Rightarrow> 32 word \<Rightarrow> user_macro" where
  "cut_error_errno_helper strerror errno s =
     (if errno \<noteq> 0
      then cut_test_terminate ERROR
             (Some (ascii ''<'' @ signed_decimal (sint errno) @ ascii ''> ('' @ strerror errno @ ascii '')'')) [] s
      else ([], False, s))"

definition cut_assert_exist_path_helper :: "(ustring \<Rightarrow> bool) \<Rightarrow> ustring option \<Rightarrow> ustring \<Rightarrow> assertion" where
  "cut_assert_exist_path_helper exists path e =
     (let line = ascii ''<'' @ e @ ascii ''>'' @ [10]
      in case path of
           None \<Rightarrow> Failed None (line @ expected_message (shown_string path) '' should not be NULL'')
         | Some p \<Rightarrow>
             if exists p then Passed
             else Failed None (line @ expected_message p '' exists''))"

definition cut_assert_not_exist_path_helper :: "(ustring \<Rightarrow> bool) \<Rightarrow> ustring option \<Rightarrow> ustring \<Rightarrow> assertion" where
  "cut_assert_not_exist_path_helper exists path e =
     (let line = ascii ''<'' @ e @ ascii ''>'' @ [10]
      in case path of
           None \<Rightarrow> Failed None (line @ expected_message (shown_string path) '' should not be NULL'')
         | Some p \<Rightarrow>
             if \<not> exists p then Passed
             else Failed None (line @ expected_message p (CHR '' '' # ''doesn'' @ [CHR 39] @ ''t exist'')))"

definition cut_assert_match_helper ::
  "(ustring option \<Rightarrow> ustring option \<Rightarrow> bool) \<Rightarrow> ustring option \<Rightarrow> ustring option \<Rightarrow> ustring \<Rightarrow> ustring \<Rightarrow> assertion" where
  "cut_assert_match_helper match pattern actual e a =
     (if match pattern actual then Passed
      else Failed None (ascii ''<'' @ e @ ascii ''> =~ <'' @ a @ ascii ''>'' @ [10] @
                        ascii '' pattern: <'' @ shown_string pattern @ ascii ''>'' @ [10] @
                        ascii ''  actual: <'' @ shown_string actual @ ascii ''>''))"

text \<open>\<open>%p\<close> of the GNU library.\<close>

fun hex_number :: "nat \<Rightarrow> ustring" where
  "hex_number n = (if n < 16 then [hex_digit n] else hex_number (n div 16) @ [hex_digit (n mod 16)])"

declare hex_number.simps [simp del]

definition pointer_text :: "64 word \<Rightarrow> ustring" where
  "pointer_text p = (if p = 0 then ascii ''(nil)'' else ascii ''0x'' @ hex_number (unat p))"

definition cut_assert_equal_pointer_helper :: "64 word \<Rightarrow> 64 word \<Rightarrow> ustring \<Rightarrow> ustring \<Rightarrow> assertion" where
  "cut_assert_equal_pointer_helper expected actual e a =
     (if expected = actual then Passed
      else Failed None (equal_message e a @ [10] @ ascii ''expected: <'' @ pointer_text expected @ ascii ''>'' @ [10] @
                        ascii ''  actual: <'' @ pointer_text actual @ ascii ''>''))"

end
