(* ===== verification/Assertion_Texts.thy ===== *)
theory Assertion_Texts
  imports Assertion_Helpers Markup
begin

text \<open>
  The texts of values tell the values apart: decimals, quoted strings and characters, arrays of strings
  and memory.
\<close>

section \<open>Numbers\<close>

lemma decimal_inj: "decimal m = decimal n \<longleftrightarrow> m = n"
  using decimal_value by metis

lemma no_minus: "decimal m \<noteq> 45 # s"
proof
  assume "decimal m = 45 # s"
  then have "is_digit 45" using decimal_is_digit [of 45 m] by simp
  then show False by (simp add: is_digit_def)
qed

lemma signed_decimal_inj: "signed_decimal i = signed_decimal j \<longleftrightarrow> i = j"
  using no_minus [of "nat i" "decimal (nat (- j))"] no_minus [of "nat j" "decimal (nat (- i))"]
  by (auto simp: signed_decimal_def decimal_inj)

section \<open>Strings\<close>

lemma escaped_prefix:
  "concat (map escaped_unit s) @ 34 # r = concat (map escaped_unit t) @ 34 # q \<longleftrightarrow> s = t \<and> r = q"
proof (induction s arbitrary: t)
  case Nil
  show ?case by (cases t) (auto simp: escaped_unit_def split: if_splits)
next
  case (Cons c s)
  show ?case
  proof (cases t)
    case Nil
    then show ?thesis by (auto simp: escaped_unit_def split: if_splits)
  next
    case (Cons d t')
    then show ?thesis using Cons.IH [of t'] by (auto simp: escaped_unit_def split: if_splits)
  qed
qed

lemma inspect_prefix:
  "cut_utils_inspect_string (Some s) @ r = cut_utils_inspect_string (Some t) @ q \<longleftrightarrow> s = t \<and> r = q"
  using escaped_prefix [of s r t q] by (simp add: cut_utils_inspect_string_def)

lemma inspect_string_inj: "cut_utils_inspect_string s = cut_utils_inspect_string t \<longleftrightarrow> s = t"
proof (cases "s = None \<or> t = None")
  case True
  then show ?thesis by (auto simp: cut_utils_inspect_string_def ascii_def split: option.splits)
next
  case False
  then obtain x y where "s = Some x" "t = Some y" by auto
  then show ?thesis using inspect_prefix [of x "[]" y "[]"] by simp
qed

section \<open>Arrays of strings\<close>

lemma rest_of_array:
  "concat (map (\<lambda>s. ascii '', '' @ cut_utils_inspect_string (Some s)) ss) @ [93] =
   concat (map (\<lambda>s. ascii '', '' @ cut_utils_inspect_string (Some s)) ts) @ [93] \<longleftrightarrow> ss = ts"
proof (induction ss arbitrary: ts)
  case Nil
  show ?case by (cases ts) (auto simp: ascii_def)
next
  case (Cons s ss)
  show ?case
  proof (cases ts)
    case Nil
    then show ?thesis by (auto simp: ascii_def)
  next
    case (Cons t ts')
    then show ?thesis using Cons.IH [of ts'] inspect_prefix by (simp add: ascii_def)
  qed
qed

lemma inspect_starts: "\<exists>r. cut_utils_inspect_string (Some s) = 34 # r"
  by (simp add: cut_utils_inspect_string_def)

lemma inspect_string_array_inj:
  "cut_utils_inspect_string_array ss = cut_utils_inspect_string_array ts \<longleftrightarrow> ss = ts"
proof (cases "ss = None \<or> ts = None")
  case True
  then show ?thesis by (auto simp: cut_utils_inspect_string_array_def ascii_def split: option.splits)
next
  case False
  then obtain x y where xy: "ss = Some x" "ts = Some y" by auto
  have array: "cut_utils_inspect_string_array (Some z) =
      (case z of [] \<Rightarrow> [91, 93]
       | s # zs \<Rightarrow> 91 # cut_utils_inspect_string (Some s) @
           concat (map (\<lambda>s. ascii '', '' @ cut_utils_inspect_string (Some s)) zs) @ [93])" for z
    by (cases z) (simp_all add: cut_utils_inspect_string_array_def g_strjoin_def ascii_def comp_def)
  show ?thesis
  proof (cases x)
    case Nil
    then show ?thesis
      by (cases y) (simp_all add: xy array cut_utils_inspect_string_def)
  next
    case (Cons s zs)
    then show ?thesis
      using rest_of_array [of zs] inspect_prefix [of s]
      by (cases y) (simp_all add: xy array, simp add: cut_utils_inspect_string_def)
  qed
qed

lemma equal_string_array_iff: "cut_utils_equal_string_array ss ts \<longleftrightarrow> ss = ts"
  by (auto simp: cut_utils_equal_string_array_def list_all2_conv_all_nth list_all_length
      intro: nth_equalityI split: option.splits)

lemma equal_string_iff: "cut_utils_equal_string s t \<longleftrightarrow> s = t"
  by (auto simp: cut_utils_equal_string_def split: option.splits)

section \<open>Characters\<close>

definition escape_table :: "(nat \<times> gunichar) list" where
  "escape_table =
     [(7, 97), (8, 98), (9, 116), (10, 110), (11, 118), (12, 102), (13, 114), (27, 101), (39, 39), (92, 92)]"

definition byte_text :: "nat \<Rightarrow> ustring" where
  "byte_text n =
     (case map_of escape_table n of
        Some e \<Rightarrow> [39, 92, e, 39]
      | None \<Rightarrow>
          if 32 \<le> n \<and> n \<le> 126 then [39, n, 39]
          else if n < 128 then 39 # 92 # decimal n @ [39]
          else 39 # 92 # 45 # decimal (256 - n) @ [39])"

lemma byte_numbers: "\<exists>n < 256. unat c = n \<and> uint c = int n" for c :: "8 word"
proof -
  have "unat c < 2 ^ 8" using unsigned_less [of c, where 'a = nat] by simp
  then show ?thesis by (intro exI [of _ "unat c"]) simp
qed

lemma sint_byte:
  assumes "uint (c :: 8 word) = int n" "n < 256"
  shows "sint c = (if n < 128 then int n else int n - 256)"
proof -
  have "signed_take_bit 7 (int n) = (int n + 2 ^ 7) mod 2 ^ Suc 7 - 2 ^ 7"
    unfolding signed_take_bit_eq_take_bit_shift take_bit_eq_mod ..
  moreover have "sint c = signed_take_bit 7 (int n)"
    unfolding sint_uint assms(1) by simp
  ultimately have c: "sint c = (int n + 128) mod 256 - 128" by simp
  show ?thesis
  proof (cases "n < 128")
    case False
    have "(int n - 128 + 256) mod 256 = (int n - 128) mod 256" by (rule mod_add_self2)
    then show ?thesis using c False assms(2) by (simp add: add.commute)
  qed (simp add: c)
qed

lemma inspect_char_text:
  assumes "unat c = n" "uint c = int n" "n < 256"
  shows "gcut_inspect_char c = byte_text n"
proof -
  have eq: "c = d \<longleftrightarrow> n = unat d" for d
    using assms(1) by (auto simp: word_eq_iff_unsigned [where 'a = nat])
  have sign: "signed_decimal (int n - 256) = 45 # decimal (256 - n)" if "\<not> n < 128"
    using that assms(3) nat_diff_distrib [of "int n" 256] by (simp add: signed_decimal_def)
  have range: "32 \<le> sint c \<and> sint c \<le> 126 \<longleftrightarrow> 32 \<le> n \<and> n \<le> 126"
    using sint_byte [OF assms(2,3)] assms(3) by auto
  have numbers: "signed_decimal (sint c) = (if n < 128 then decimal n else 45 # decimal (256 - n))"
    unfolding sint_byte [OF assms(2,3)] using sign by (auto simp: signed_decimal_def)
  show ?thesis
    unfolding gcut_inspect_char_def byte_text_def escape_table_def eq range numbers Let_def assms(1)
    by simp
qed

lemma escapes:
  "map_of escape_table n = Some e \<Longrightarrow> \<not> is_digit e \<and> e \<noteq> 45"
  "map_of escape_table m = Some e \<Longrightarrow> map_of escape_table n = Some e \<Longrightarrow> m = n"
  by (auto simp: escape_table_def is_digit_def split: if_splits)

lemma decimal_first: "\<exists>c r. decimal n = c # r \<and> is_digit c"
  using decimal_is_digit [of _ n] by (cases "decimal n") (auto simp: decimal_not_empty)

lemma byte_text_cases:
  obtains (escape) e where "map_of escape_table n = Some e" "byte_text n = [39, 92, e, 39]"
  | (printable) "map_of escape_table n = None" "byte_text n = [39, n, 39]"
  | (number) "byte_text n = 39 # 92 # decimal n @ [39]"
  | (negative) "byte_text n = 39 # 92 # 45 # decimal (256 - n) @ [39]"
proof (cases "map_of escape_table n")
  case None
  consider "32 \<le> n \<and> n \<le> 126" | "\<not> (32 \<le> n \<and> n \<le> 126)" "n < 128" | "\<not> (32 \<le> n \<and> n \<le> 126)" "\<not> n < 128"
    by blast
  then show ?thesis by cases (use None that(2-4) in \<open>simp_all add: byte_text_def\<close>)
next
  case (Some e)
  then show ?thesis using that(1) by (simp add: byte_text_def)
qed

lemma byte_text_inj:
  assumes "m < 256" "n < 256" "byte_text m = byte_text n"
  shows "m = n"
proof -
  note first = decimal_first [of m] decimal_first [of n] decimal_first [of "256 - m"] decimal_first [of "256 - n"]
  have minus: "\<not> is_digit 45" by (simp add: is_digit_def)
  have same: "decimal m = decimal n \<Longrightarrow> m = n" "decimal (256 - m) = decimal (256 - n) \<Longrightarrow> m = n"
    using assms(1,2) by (auto simp: decimal_inj)
  show ?thesis
  proof (cases m rule: byte_text_cases)
    case m: (escape e)
    show ?thesis
      by (cases n rule: byte_text_cases) (use assms(3) m escapes first in auto)
  next
    case m: printable
    show ?thesis
      by (cases n rule: byte_text_cases) (use assms(3) m first in auto)
  next
    case m: number
    show ?thesis
      by (cases n rule: byte_text_cases) (use assms(3) m escapes(1) [of n] first minus same(1) in auto)
  next
    case m: negative
    show ?thesis
      by (cases n rule: byte_text_cases) (use assms(3) m escapes(1) [of n] first minus same(2) in auto)
  qed
qed

lemma inspect_char_inj: "gcut_inspect_char c = gcut_inspect_char d \<longleftrightarrow> c = d"
proof
  assume texts: "gcut_inspect_char c = gcut_inspect_char d"
  obtain m n where m: "m < 256" "unat c = m" "uint c = int m" and n: "n < 256" "unat d = n" "uint d = int n"
    using byte_numbers [of c] byte_numbers [of d] by blast
  have "byte_text m = byte_text n"
    using texts inspect_char_text [OF m(2,3,1)] inspect_char_text [OF n(2,3,1)] by simp
  then show "c = d" using byte_text_inj m n by (simp add: word_eq_iff_unsigned [where 'a = nat])
qed simp

section \<open>Memory\<close>

definition byte_list :: "nat list \<Rightarrow> bool" where
  "byte_list bs \<longleftrightarrow> (\<forall>b \<in> set bs. b < 256)"

definition hex_list :: "nat list \<Rightarrow> ustring" where
  "hex_list bs = concat (map (\<lambda>b. hex_byte b @ ascii '' '') bs)"

lemma hex_digit_inj: "hex_digit m = hex_digit n \<Longrightarrow> m < 16 \<Longrightarrow> n < 16 \<Longrightarrow> m = n"
  by (auto simp: hex_digit_def split: if_splits)

lemma hex_byte_inj:
  assumes "hex_byte m = hex_byte n" "m < 256" "n < 256"
  shows "m = n"
proof -
  have "hex_digit (m div 16) = hex_digit (n div 16)" "hex_digit (m mod 16) = hex_digit (n mod 16)"
    using assms(1) by (simp_all add: hex_byte_def)
  moreover have "m div 16 < 16" "n div 16 < 16" "m mod 16 < 16" "n mod 16 < 16" using assms(2,3) by simp_all
  ultimately have "m div 16 = n div 16" "m mod 16 = n mod 16" using hex_digit_inj by blast+
  then show ?thesis by (metis div_mult_mod_eq)
qed

lemma hex_list_length: "length (hex_list bs) = 5 * length bs"
  by (induction bs) (simp_all add: hex_list_def hex_byte_def ascii_def)

lemma hex_list_inj:
  "length bs = length cs \<Longrightarrow> byte_list bs \<Longrightarrow> byte_list cs \<Longrightarrow> hex_list bs = hex_list cs \<Longrightarrow> bs = cs"
proof (induction bs cs rule: list_induct2)
  case (Cons b bs c cs)
  then have "hex_byte b = hex_byte c" "hex_list bs = hex_list cs"
    by (auto simp: hex_list_def hex_byte_def ascii_def)
  then show ?case using Cons hex_byte_inj by (simp add: byte_list_def)
qed simp

text \<open>The bytes come first in the text.\<close>

lemma inspect_memory_hex:
  assumes "bs \<noteq> []"
  shows "\<exists>r. cut_utils_inspect_memory (Some bs) = butlast (hex_list (take 1024 bs)) @ r"
proof -
  have more: "butlast (x @ ascii ''... '') = butlast x @ (if x = [] then [] else [last x]) @ ascii ''...''" for x
    by (cases x rule: rev_cases) (simp_all add: ascii_def butlast_append)
  show ?thesis
    using assms by (auto simp: cut_utils_inspect_memory_def hex_list_def [symmetric] Let_def more)
qed

lemma inspect_memory_cut:
  "take 1024 bs = take 1024 cs \<Longrightarrow> length bs = length cs \<Longrightarrow>
   cut_utils_inspect_memory (Some bs) = cut_utils_inspect_memory (Some cs)"
  unfolding cut_utils_inspect_memory_def by (simp only: option.case length_0_conv [symmetric])

lemma hex_list_butlast: "bs \<noteq> [] \<Longrightarrow> hex_list bs = butlast (hex_list bs) @ [32]"
  by (cases bs rule: rev_cases) (simp_all add: hex_list_def ascii_def butlast_append)

text \<open>The size comes last.\<close>

lemma sized_text_ends:
  "rev (takeWhile (\<lambda>c. c \<noteq> 32) (rev (memory_text m))) = decimal (memory_size m) @ [41]"
proof -
  have digits: "c \<in> set (decimal (memory_size m)) \<Longrightarrow> c \<noteq> 32" for c
    using decimal_is_digit [of c "memory_size m"] by (auto simp: is_digit_def)
  have "rev (memory_text m) =
      41 # rev (decimal (memory_size m)) @ 32 # rev (cut_utils_inspect_memory m @ ascii '' (size:'')"
    by (simp add: memory_text_def ascii_def)
  then show ?thesis
    using digits by (simp, subst takeWhile_append2) auto
qed

lemma memory_text_iff:
  assumes "byte_list (memory_bytes m)" "byte_list (memory_bytes n)"
  shows "memory_text m = memory_text n \<longleftrightarrow>
    memory_size m = memory_size n \<and> take 1024 (memory_bytes m) = take 1024 (memory_bytes n)"
proof (cases "memory_size m = memory_size n \<and> memory_size m \<noteq> 0")
  case False
  show ?thesis
  proof (cases "memory_size m = memory_size n")
    case True
    then have "cut_utils_inspect_memory m = ascii ''(null)''" "cut_utils_inspect_memory n = ascii ''(null)''"
      using False by (auto simp: memory_size_def cut_utils_inspect_memory_def split: option.splits)
    moreover have "memory_bytes m = []" "memory_bytes n = []"
      using True False by (auto simp: memory_size_def memory_bytes_def split: option.splits)
    ultimately show ?thesis using True by (simp add: memory_text_def)
  next
    case False
    have "memory_text m \<noteq> memory_text n"
    proof
      assume "memory_text m = memory_text n"
      then have "decimal (memory_size m) @ [41] = decimal (memory_size n) @ [41]"
        using sized_text_ends by metis
      then show False using False by (simp add: decimal_inj)
    qed
    then show ?thesis using False by simp
  qed
next
  case True
  then obtain bs cs where m: "m = Some bs" "n = Some cs" "bs \<noteq> []" "cs \<noteq> []"
    by (cases m; cases n) (auto simp: memory_size_def)
  then have len: "length bs = length cs" using True by (simp add: memory_size_def)
  define xs ys where xy: "xs = take 1024 bs" "ys = take 1024 cs"
  have "memory_text m = memory_text n \<longleftrightarrow> cut_utils_inspect_memory (Some bs) = cut_utils_inspect_memory (Some cs)"
    using True by (simp add: memory_text_def m)
  also have "\<dots> \<longleftrightarrow> xs = ys"
  proof
    assume inspected: "cut_utils_inspect_memory (Some bs) = cut_utils_inspect_memory (Some cs)"
    obtain r q where "cut_utils_inspect_memory (Some bs) = butlast (hex_list xs) @ r"
      "cut_utils_inspect_memory (Some cs) = butlast (hex_list ys) @ q"
      using inspect_memory_hex [OF m(3)] inspect_memory_hex [OF m(4)] unfolding xy by blast
    then have "butlast (hex_list xs) @ r = butlast (hex_list ys) @ q"
      using inspected by (simp only:)
    moreover have "length (butlast (hex_list xs)) = length (butlast (hex_list ys))"
      using len by (simp add: xy hex_list_length)
    moreover have "xs \<noteq> []" "ys \<noteq> []" using m by (simp_all add: xy)
    ultimately have "hex_list xs = hex_list ys"
      using hex_list_butlast append_eq_append_conv by metis
    moreover have "byte_list xs" "byte_list ys"
      using assms m by (auto simp: xy byte_list_def memory_bytes_def dest: in_set_takeD)
    ultimately show "xs = ys"
      using hex_list_inj [of xs ys] len by (simp add: xy)
  next
    assume "xs = ys"
    then show "cut_utils_inspect_memory (Some bs) = cut_utils_inspect_memory (Some cs)"
      using inspect_memory_cut len unfolding xy by blast
  qed
  finally show ?thesis using True by (simp add: m xy memory_bytes_def)
qed

end
