(* ===== verification/Run_Connections.thy ===== *)
theory Run_Connections
  imports Run_Frame
begin

text \<open>
  Three relations of the layers of a run: user functions and tests change no connection and no
  context but by the calls of user code; contexts are only added; the relays of a layer stay
  connected while the layer runs.
\<close>

section \<open>User functions and tests change little\<close>

definition target_fields :: "test_context \<Rightarrow> object_id option \<times> object_id option \<times> object_id option" where
  "target_fields c = (tc_test c, tc_test_iterator c, tc_test_case c)"

definition quiet :: "test_world \<Rightarrow> test_world \<Rightarrow> bool" where
  "quiet w w' \<longleftrightarrow> handler_table w' = handler_table w \<and> current_contexts w' = current_contexts w \<and>
     suite_success w' = suite_success w \<and> iterated_tests w' = iterated_tests w \<and>
     iterator_children w' = iterator_children w \<and> next_object w' = next_object w \<and>
     map target_fields (contexts w') = map target_fields (contexts w)"

lemma context_calls_target: "f \<in> context_calls \<Longrightarrow> target_fields (f c) = target_fields c"
proof (induction rule: context_calls.induct)
  case (9 ds)
  have "target_fields (fold add_one_data ds c) = target_fields c"
    by (induction ds arbitrary: c) (auto simp: add_one_data_def Let_def target_fields_def)
  then show ?case by (simp add: cut_test_context_add_data_def)
qed (auto simp: target_fields_def clear_user_message_def clear_current_result_def Let_def
    cut_test_context_set_user_message_def cut_test_context_keep_user_message_def
    cut_test_context_set_expected_def cut_test_context_set_actual_def cut_test_context_push_backtrace_def
    cut_test_context_pop_backtrace_def cut_test_context_start_user_message_jump_def
    cut_test_context_finish_user_message_jump_def cut_test_context_set_current_result_def
    clear_additional_test_result_data_def cut_test_context_set_current_result_user_message_def
    split: option.splits)

interpretation quiet: test_relation P quiet for P
proof unfold_locales
  fix f c and w :: test_world
  assume f: "f \<in> context_calls"
  have "map target_fields ((contexts w)[c := f (contexts w ! c)]) = map target_fields (contexts w)"
    by (cases "c < length (contexts w)")
       (auto intro!: nth_equalityI simp: nth_list_update context_calls_target [OF f])
  then show "quiet w (update_context c f w)" by (simp add: quiet_def update_context_def)
qed (auto simp: quiet_def cancel_run_def)

lemma quiet_length: "quiet w w' \<Longrightarrow> length (contexts w') = length (contexts w)"
  unfolding quiet_def by (metis length_map)

lemma quiet_current: "quiet w w' \<Longrightarrow> current_contexts w' = current_contexts w"
  by (simp add: quiet_def)

lemma quiet_target:
  assumes "quiet w w'" "c < length (contexts w)"
  shows "result_target (context_at w' c) = result_target (context_at w c)"
proof -
  have "target_fields (contexts w' ! c) = target_fields (contexts w ! c)"
    using assms quiet_length [OF assms(1)] unfolding quiet_def by (metis nth_map)
  then show ?thesis
    by (simp add: context_at_def result_target_def target_fields_def cong: option.case_cong)
qed

section \<open>Contexts are only added\<close>

definition grows :: "test_world \<Rightarrow> test_world \<Rightarrow> bool" where
  "grows w w' \<longleftrightarrow> length (contexts w) \<le> length (contexts w')"

interpretation grows: case_relation P grows for P
  by unfold_locales (auto simp: grows_def cancel_run_def update_context_def new_context_def)

section \<open>Connections stay\<close>

definition keeps :: "handler set \<Rightarrow> test_world \<Rightarrow> test_world \<Rightarrow> bool" where
  "keeps H w w' \<longleftrightarrow>
     (\<forall>x k h. h \<in> H \<and> (x, k, h) \<in> set (handler_table w) \<longrightarrow> (x, k, h) \<in> set (handler_table w'))"

lemma keeps_same: "handler_table w' = handler_table w \<Longrightarrow> keeps H w w'"
  by (simp add: keeps_def)

lemma keeps_emit: "(\<And>x k h. h \<in> H \<Longrightarrow> \<not> removes sig (x, k, h)) \<Longrightarrow> keeps H w (emit_object P y sig w)"
  unfolding keeps_def using emit_keeps by blast

lemma keeps_trans: "keeps H u v \<Longrightarrow> keeps H v w \<Longrightarrow> keeps H u w"
  unfolding keeps_def by blast

definition iterator_relays :: "handler set" where
  "iterator_relays = {Relay_Test, Relay_Iterator, Relay_Case, Relay_Suite}"

definition case_relays :: "handler set" where
  "case_relays = {Relay_Case, Relay_Suite}"

lemma handler_case_keeps:
  assumes "c \<in> set (handler_table w)" "snd (snd c) \<in> iterator_relays"
  shows "c \<in> set (handler_table (run_handler P h (O_Test t) sig w))"
  by (cases "(P, h, O_Test t, sig, w)" rule: run_handler.cases)
     (use assms in \<open>auto simp: relay_test_def relay_iterated_test_def relay_iterator_def
      collect_from_def collect_status_def connect_def disconnect_def iterator_relays_def
      split: object_signal.splits test_status.splits\<close>)

lemma emit_case_keeps: "keeps iterator_relays w (emit_object P (O_Test t) sig w)"
  unfolding keeps_def by (auto intro!: emit_invariant [where Q = "\<lambda>v. c \<in> set (handler_table v)" for c] handler_case_keeps)

lemma keeps_mono: "H \<subseteq> H' \<Longrightarrow> keeps H' w w' \<Longrightarrow> keeps H w w'"
  unfolding keeps_def by blast

lemma connect_keeps: "keeps H w (connect x ks h w)"
  by (simp add: keeps_def connect_def)

lemma disconnect_collect_keeps: "Collect n \<notin> H \<Longrightarrow> keeps H w (disconnect x ks (Collect n) w)"
  by (auto simp: keeps_def disconnect_def)

text \<open>Handlers of a test case disconnect tests only.\<close>

lemma handler_of_case_keeps:
  assumes "c \<in> set (handler_table w)" "snd (snd c) \<in> case_relays"
  shows "c \<in> set (handler_table (run_handler P h (O_Case k) sig w))"
  by (cases "(P, h, O_Case k, sig, w)" rule: run_handler.cases)
     (use assms in \<open>auto simp: relay_case_def connect_to_test_def connect_to_test_iterator_def
      collect_from_def collect_status_def connect_def disconnect_def case_relays_def
      split: object_signal.splits test_status.splits\<close>)

lemma emit_of_case_keeps: "keeps case_relays w (emit_object P (O_Case k) sig w)"
  unfolding keeps_def by (auto intro!: emit_invariant [where Q = "\<lambda>v. c \<in> set (handler_table v)" for c] handler_of_case_keeps)

lemma suite_result_keeps: "keeps H w (emit_object P (O_Suite x) (Sig_Status st tc r) w)"
  "keeps H w (emit_object P (O_Case k) (Sig_Status_In st tc r) w)"
  by (simp_all add: keeps_same)

lemmas keeps_intros = keeps_same connect_keeps disconnect_collect_keeps suite_result_keeps

interpretation keeps_iterator: iterator_relation P "keeps iterator_relays" for P
proof unfold_locales
  fix x ks n w
  show "keeps iterator_relays w (disconnect x ks (Collect n) w)"
    by (rule disconnect_collect_keeps) (simp add: iterator_relays_def)
qed (auto intro: keeps_trans keeps_intros emit_case_keeps simp: cancel_run_def update_context_def new_context_def)

lemma case_relays_kept: "keeps case_relays w (emit_object P (O_Test t) sig w)"
  by (rule keeps_mono [OF _ emit_case_keeps]) (auto simp: case_relays_def iterator_relays_def)

interpretation keeps_case: case_relation P "keeps case_relays" for P
proof unfold_locales
  fix x ks n w
  show "keeps case_relays w (disconnect x ks (Collect n) w)"
    by (rule disconnect_collect_keeps) (simp add: case_relays_def)
qed (auto intro: keeps_trans keeps_intros case_relays_kept emit_of_case_keeps
    simp: cancel_run_def update_context_def new_context_def)

text \<open>Handlers of a suite do not disconnect the suite, except at its completion.\<close>

lemma suite_relay_kept:
  "keeps {Relay_Suite} w (emit_object P (O_Test t) sig w)"
  "keeps {Relay_Suite} w (emit_object P (O_Case k) sig w)"
  "kind_of sig \<noteq> K_Complete \<Longrightarrow> keeps {Relay_Suite} w (emit_object P (O_Suite x) sig w)"
proof -
  show "keeps {Relay_Suite} w (emit_object P (O_Test t) sig w)"
    by (rule keeps_mono [OF _ case_relays_kept]) (auto simp: case_relays_def)
  show "keeps {Relay_Suite} w (emit_object P (O_Case k) sig w)"
    by (rule keeps_mono [OF _ emit_of_case_keeps]) (auto simp: case_relays_def)
  show "kind_of sig \<noteq> K_Complete \<Longrightarrow> keeps {Relay_Suite} w (emit_object P (O_Suite x) sig w)"
    by (intro keeps_emit) (cases sig; auto)
qed

interpretation keeps_suite: suite_relation P "keeps {Relay_Suite}" for P
  by unfold_locales
    (auto intro: keeps_trans keeps_intros suite_relay_kept simp: cancel_run_def update_context_def new_context_def)

end
