(* ===== verification/Run_Accounting.thy ===== *)
theory Run_Accounting
  imports Run_Connections
begin

text \<open>
  Failures that are accounted for: reported by a critical status, excused by a cancelled run or a
  failed case, or absent. Where a context sends its results, and that the calls of a user
  function leave no failure unreported.
\<close>

section \<open>Accounted failures\<close>

definition critical_reported :: "test_world \<Rightarrow> bool" where
  "critical_reported w \<longleftrightarrow>
     (\<exists>s \<in> set (statuses (run_signals w)). cut_test_result_status_is_critical s)"

definition excused :: "test_world \<Rightarrow> bool" where
  "excused w \<longleftrightarrow> critical_reported w \<or> canceled (run_state w) \<or> \<not> suite_success w"

definition none_failed :: "test_world \<Rightarrow> bool" where
  "none_failed w \<longleftrightarrow> (\<forall>tc \<in> set (contexts w). \<not> tc_failed tc)"

definition accounted :: "test_world \<Rightarrow> bool" where
  "accounted w \<longleftrightarrow> excused w \<or> none_failed w"

lemma recorded_reported: "recorded w w' \<Longrightarrow> critical_reported w \<Longrightarrow> critical_reported w'"
  unfolding recorded_def critical_reported_def by auto

definition stays_excused :: "test_world \<Rightarrow> test_world \<Rightarrow> bool" where
  "stays_excused w w' \<longleftrightarrow> (excused w \<longrightarrow> excused w')"

lemma stays_excusedI:
  "recorded w w' \<Longrightarrow> suite_success w' = suite_success w \<Longrightarrow>
   (canceled (run_state w) \<Longrightarrow> canceled (run_state w')) \<Longrightarrow> stays_excused w w'"
  unfolding stays_excused_def excused_def using recorded_reported by blast

lemma emit_excused: "stays_excused w (emit_object P x sig w)"
  by (rule stays_excusedI) (simp_all add: recorded.object_signal)

interpretation excused: case_relation P stays_excused for P
proof unfold_locales
  fix u v w
  assume "stays_excused u v" "stays_excused v w"
  then show "stays_excused u w" unfolding stays_excused_def by blast
qed (simp_all add: emit_excused stays_excusedI recorded.emitted recorded.logged recorded.canceling
      recorded.received recorded.contexts_changed recorded.current_changed recorded.cells_changed
      recorded.children_changed recorded.iterated_changed recorded.next_changed
      recorded.connected recorded.disconnected recorded.layers.update_context recorded.layers.new_context,
     simp_all add: stays_excused_def cancel_run_def cut_run_context_cancel_def excused_def
      critical_reported_def update_context_def new_context_def)

lemma excusedD: "stays_excused w w' \<Longrightarrow> excused w \<Longrightarrow> excused w'"
  unfolding stays_excused_def by blast

lemma accounted_same:
  "stays_excused w w' \<Longrightarrow> contexts w' = contexts w \<Longrightarrow> accounted w \<Longrightarrow> accounted w'"
  unfolding accounted_def none_failed_def using excusedD by auto

lemma accounted_emit: "accounted w \<Longrightarrow> accounted (emit_object P x sig w)"
  by (rule accounted_same [OF emit_excused]) simp_all

lemma accounted_emit_result:
  "accounted w \<Longrightarrow> accounted (cut_test_emit_result_signal P target c r w)"
  by (cases target) (simp_all add: cut_test_emit_result_signal_def accounted_emit)

lemma canceled_excused: "excused (cancel_run w)"
  by (simp add: excused_def cancel_run_def cut_run_context_cancel_def)

section \<open>Where the results of a context go\<close>

definition delivers :: "connection list \<Rightarrow> emit_target option \<Rightarrow> bool" where
  "delivers table target =
     (case target of
        Some (On_Test t) \<Rightarrow>
          (\<forall>s. cut_test_result_status_is_critical s \<longrightarrow>
             (O_Test t, K_Status s, Relay_Test) \<in> set table \<or>
             (O_Test t, K_Status s, Relay_Iterated_Test) \<in> set table)
      | Some (On_Case k) \<Rightarrow>
          (\<forall>s. cut_test_result_status_is_critical s \<longrightarrow>
             (O_Case k, K_Status_In s, Relay_Case) \<in> set table)
      | _ \<Rightarrow> False)"

definition wired :: "test_world \<Rightarrow> object_id \<Rightarrow> bool" where
  "wired w c \<longleftrightarrow> c < length (contexts w) \<and> delivers (handler_table w) (result_target (context_at w c))"

lemma wired_quiet:
  assumes "quiet w w'" "wired w c"
  shows "wired w' c"
proof -
  have "handler_table w' = handler_table w" using assms(1) by (simp add: quiet_def)
  then show ?thesis
    using assms(2) quiet_length [OF assms(1)] quiet_target [OF assms(1), of c] unfolding wired_def by simp
qed

lemma critical_cases:
  "cut_test_result_status_is_critical s \<longleftrightarrow> s = PENDING \<or> s = FAILURE \<or> s = ERROR \<or> s = CRASH"
  by (cases s) (simp_all add: cut_test_result_status_is_critical_def less_test_status_def)

lemma emitted_critical:
  "cut_test_result_status_is_critical s \<Longrightarrow> s \<in> set (map fst (registered sig)) \<Longrightarrow>
   critical_reported (emit_run P sig w)"
  by (auto simp: critical_reported_def emit_run_def)

lemma handled_reported: "critical_reported v \<Longrightarrow> critical_reported (run_handler P h x sig v)"
  using recorded_reported recorded.handled by blast

lemma report_critical:
  assumes "cut_test_result_status_is_critical s"
  shows "(O_Test t, K_Status s, Relay_Test) \<in> set (handler_table w) \<Longrightarrow>
      critical_reported (emit_object P (O_Test t) (Sig_Status s c r) w)"
    and "(O_Test t, K_Status s, Relay_Iterated_Test) \<in> set (handler_table w) \<Longrightarrow>
      critical_reported (emit_object P (O_Test t) (Sig_Status s c r) w)"
    and "(O_Case k, K_Status_In s, Relay_Case) \<in> set (handler_table w) \<Longrightarrow>
      critical_reported (emit_object P (O_Case k) (Sig_Status_In s c r) w)"
proof -
  show "critical_reported (emit_object P (O_Test t) (Sig_Status s c r) w)"
    if "(O_Test t, K_Status s, Relay_Test) \<in> set (handler_table w)"
    by (rule emit_reaches [where h = Relay_Test])
       (use that assms in \<open>auto simp: handled_reported relay_test_def critical_cases intro!: emitted_critical [of s]\<close>)
  show "critical_reported (emit_object P (O_Test t) (Sig_Status s c r) w)"
    if "(O_Test t, K_Status s, Relay_Iterated_Test) \<in> set (handler_table w)"
    by (rule emit_reaches [where h = Relay_Iterated_Test])
       (use that assms in \<open>auto simp: handled_reported relay_iterated_test_def relay_test_def critical_cases
         intro!: emitted_critical [of s]\<close>)
  show "critical_reported (emit_object P (O_Case k) (Sig_Status_In s c r) w)"
    if "(O_Case k, K_Status_In s, Relay_Case) \<in> set (handler_table w)"
    by (rule emit_reaches [where h = Relay_Case])
       (use that assms in \<open>auto simp: handled_reported relay_case_def critical_cases intro!: emitted_critical [of s]\<close>)
qed

lemma set_elapsed_status [simp]: "result_status (cut_test_set_result_elapsed P x r) = result_status r"
  by (simp add: cut_test_set_result_elapsed_def cut_test_result_set_elapsed_def)

lemma wired_reports:
  assumes "wired w c" "cut_test_result_status_is_critical (result_status r)"
  shows "critical_reported (cut_test_context_emit_signal P c r w)"
  using assms report_critical [OF assms(2)]
  unfolding wired_def delivers_def cut_test_context_emit_signal_def cut_test_emit_result_signal_def
  by (cases "result_target (context_at w c)") (auto split: emit_target.splits)

section \<open>User functions\<close>

text \<open>Every result that a user function sets is processed before the function ends, as in the
  macros of \<open>cut-assertions-helper.h\<close>; the flag says that a critical result waits.\<close>

fun settled :: "user_call list \<Rightarrow> bool \<Rightarrow> bool" where
  "settled [] waiting \<longleftrightarrow> \<not> waiting"
| "settled (Set_Result s m # calls) waiting \<longleftrightarrow>
     \<not> waiting \<and> settled calls (cut_test_result_status_is_critical s)"
| "settled (Process_Result # calls) waiting \<longleftrightarrow> settled calls False"
| "settled (call # calls) waiting \<longleftrightarrow> settled calls waiting"

definition settled_function :: "user_function \<Rightarrow> bool" where
  "settled_function f \<longleftrightarrow> (\<forall>w. settled (fst (f w)) False)"

definition settled_option :: "user_function option \<Rightarrow> bool" where
  "settled_option fo \<longleftrightarrow> (\<forall>f. fo = Some f \<longrightarrow> settled_function f)"

text \<open>While the calls run: a waiting critical result is the current result of the context.\<close>

definition accounted_with :: "bool \<Rightarrow> object_id \<Rightarrow> test_world \<Rightarrow> bool" where
  "accounted_with waiting c w \<longleftrightarrow> excused w \<or>
     (\<forall>c' < length (contexts w). c' \<noteq> c \<longrightarrow> \<not> tc_failed (contexts w ! c')) \<and>
     (if waiting then \<exists>r. tc_current_result (contexts w ! c) = Some r \<and>
                       cut_test_result_status_is_critical (result_status r)
      else \<not> tc_failed (contexts w ! c))"

lemma accounted_with_False:
  "c < length (contexts w) \<Longrightarrow> accounted_with False c w \<longleftrightarrow> accounted w"
  unfolding accounted_with_def accounted_def none_failed_def all_set_conv_all_nth by (cases "excused w") auto

lemma contexts_update_context [simp]:
  "contexts (update_context c f w) = (contexts w)[c := f (contexts w ! c)]"
  by (simp add: update_context_def)

lemma update_excused: "excused (update_context c f w) = excused w"
  by (simp add: excused_def update_context_def critical_reported_def)

lemma accounted_with_update:
  assumes "c < length (contexts w)"
    and "accounted_with waiting c w"
    and "\<not> waiting \<Longrightarrow> \<not> tc_failed (contexts w ! c) \<Longrightarrow> waiting' \<or> \<not> tc_failed (f (contexts w ! c))"
    and "waiting' \<Longrightarrow> (waiting \<and> (\<forall>r. tc_current_result (contexts w ! c) = Some r \<longrightarrow>
          (\<exists>r'. tc_current_result (f (contexts w ! c)) = Some r' \<and> result_status r' = result_status r))) \<or>
        (\<exists>r. tc_current_result (f (contexts w ! c)) = Some r \<and>
             cut_test_result_status_is_critical (result_status r))"
    and "waiting \<Longrightarrow> waiting'"
  shows "accounted_with waiting' c (update_context c f w)"
  using assms unfolding accounted_with_def update_excused
  by (cases waiting; cases waiting') (auto simp: nth_list_update)

lemma message_keeps:
  "tc_failed (clear_user_message c) = tc_failed c"
  "tc_current_result (clear_user_message c) = tc_current_result c"
  by (simp_all add: clear_user_message_def Let_def)

lemma data_keeps:
  "tc_failed (cut_test_context_add_data ds c) = tc_failed c"
  "tc_current_result (cut_test_context_add_data ds c) = tc_current_result c"
proof -
  have "tc_failed (fold add_one_data ds c) = tc_failed c \<and>
    tc_current_result (fold add_one_data ds c) = tc_current_result c"
    by (induction ds arbitrary: c) (simp_all add: add_one_data_def Let_def)
  then show "tc_failed (cut_test_context_add_data ds c) = tc_failed c"
    "tc_current_result (cut_test_context_add_data ds c) = tc_current_result c"
    by (simp_all add: cut_test_context_add_data_def)
qed

lemma set_message_keeps:
  "tc_failed (cut_test_context_set_user_message m c) = tc_failed c"
  "tc_current_result (cut_test_context_set_user_message m c) = tc_current_result c"
  by (simp_all add: cut_test_context_set_user_message_def message_keeps Let_def split: option.splits)

lemma result_message_keeps:
  "tc_failed (cut_test_context_set_current_result_user_message m c) = tc_failed c"
  "tc_current_result c = Some r \<Longrightarrow>
   \<exists>r'. tc_current_result (cut_test_context_set_current_result_user_message m c) = Some r' \<and>
     result_status r' = result_status r"
  by (auto simp: cut_test_context_set_current_result_user_message_def cut_test_result_set_user_message_def
      reset_message_def split: option.splits)

lemma new_result_status [simp]: "result_status (cut_test_result_new s t i k x d um sm bt) = s"
  by (simp add: cut_test_result_new_def cut_test_result_set_system_message_def
      cut_test_result_set_user_message_def reset_message_def cut_test_result_init_def)

lemma text_status [simp]:
  "result_status (cut_test_result_set_expected e r) = result_status r"
  "result_status (cut_test_result_set_actual e r) = result_status r"
  by (simp_all add: cut_test_result_set_expected_def cut_test_result_set_actual_def reset_diff_def
      reset_message_def Let_def)

lemma set_current_result_keeps:
  "\<exists>r. tc_current_result (cut_test_context_set_current_result s m c) = Some r \<and> result_status r = s"
  "tc_failed (cut_test_context_set_current_result s m c) \<longleftrightarrow>
     tc_failed c \<or> cut_test_result_status_is_critical s"
  by (auto simp: cut_test_context_set_current_result_def Let_def clear_additional_test_result_data_def
      message_keeps clear_current_result_def clear_user_message_def)

lemma excused_accounted_with: "excused w \<Longrightarrow> accounted_with b c w"
  by (simp add: accounted_with_def)

lemma accounted_with_same:
  "stays_excused w w' \<Longrightarrow> contexts w' = contexts w \<Longrightarrow> accounted_with b c w \<Longrightarrow> accounted_with b c w'"
  unfolding accounted_with_def using excusedD by auto

lemma process_result_accounts:
  assumes "cut_test_context_process_current_result P c w = (Inr (), w')"
    and wired: "wired w c" and acc: "accounted_with waiting c w"
  shows "accounted_with False c w'"
proof (cases "tc_current_result (context_at w c)")
  case None
  then have "w' = w" using assms(1) by (simp add: cut_test_context_process_current_result_def)
  moreover have "excused w \<or> \<not> waiting" using acc None by (auto simp: accounted_with_def context_at_def)
  ultimately show ?thesis using acc by (auto simp: accounted_with_def)
next
  case (Some r)
  let ?w1 = "cut_test_context_emit_signal P c r w"
  have w': "w' = update_context c clear_current_result ?w1"
    using assms(1) Some
    by (auto simp: cut_test_context_process_current_result_def Let_def split: if_splits)
  have same: "contexts ?w1 = contexts w"
    by (simp add: cut_test_context_emit_signal_def cut_test_emit_result_signal_def
        split: option.splits emit_target.splits)
  have ex: "stays_excused w ?w1" by (rule excused.emit_signal)
  show ?thesis
  proof (cases "excused ?w1")
    case True
    then show ?thesis by (simp add: w' update_excused excused_accounted_with)
  next
    case False
    then have "\<not> cut_test_result_status_is_critical (result_status r)"
      using wired_reports [OF wired] by (auto simp: excused_def)
    then have "\<not> waiting \<and> \<not> excused w"
      using acc Some False excusedD [OF ex] by (auto simp: accounted_with_def context_at_def)
    then have "accounted_with False c ?w1"
      using acc accounted_with_same [OF ex same] by simp
    then show ?thesis
      unfolding w' by (rule accounted_with_update [rotated])
        (use wired same in \<open>auto simp: wired_def clear_current_result_def\<close>)
  qed
qed

text \<open>Calls other than the setting and processing of a result.\<close>

definition plain_call :: "user_call \<Rightarrow> bool" where
  "plain_call call \<longleftrightarrow> (case call of Set_Result s m \<Rightarrow> False | Process_Result \<Rightarrow> False | _ \<Rightarrow> True)"

lemma keeping_update:
  assumes "wired w c" "accounted_with waiting c w"
    and "\<And>tc. tc_failed (f tc) = tc_failed tc"
    and "\<And>tc r. tc_current_result tc = Some r \<Longrightarrow>
      \<exists>r'. tc_current_result (f tc) = Some r' \<and> result_status r' = result_status r"
  shows "accounted_with waiting c (update_context c f w)"
  by (rule accounted_with_update [OF _ assms(2)])
     (use assms(1,3,4) in \<open>auto simp: wired_def\<close>)

lemma plain_call_accounts:
  assumes "perform_call P c call w = (Inr (), w')" "plain_call call"
    and wired: "wired w c" and acc: "accounted_with waiting c w"
  shows "accounted_with waiting c w'"
proof (cases call)
  case Pass
  show ?thesis
  proof (cases "tc_test (context_at w c)")
    case None
    then show ?thesis using assms Pass
      by (simp add: perform_call_def do_step_def cut_test_context_pass_assertion_def)
  next
    case (Some t)
    have "w' = emit_object P (O_Test t) (Sig_Pass_Assertion (Some c)) (update_context c clear_user_message w)"
      using assms(1) Pass Some
      by (simp add: perform_call_def do_step_def cut_test_context_pass_assertion_def)
    moreover have "accounted_with waiting c (update_context c clear_user_message w)"
      by (rule keeping_update [OF wired acc]) (simp_all add: message_keeps)
    ultimately show ?thesis
      using accounted_with_same [OF emit_excused] by simp
  qed
next
  case (Set_Result_Message m)
  then show ?thesis
    using assms keeping_update [OF wired acc, of "cut_test_context_set_current_result_user_message m"]
    by (simp add: perform_call_def do_step_def result_message_keeps)
qed (use assms in \<open>auto simp: perform_call_def do_step_def plain_call_def message_keeps data_keeps
      set_message_keeps cut_test_context_keep_user_message_def cut_test_context_set_expected_def
      cut_test_context_set_actual_def cut_test_context_push_backtrace_def
      cut_test_context_pop_backtrace_def cut_test_context_start_user_message_jump_def
      cut_test_context_finish_user_message_jump_def split: if_splits intro!: keeping_update\<close>)

lemma set_result_accounts:
  assumes "wired w c" "accounted_with False c w"
  shows "accounted_with (cut_test_result_status_is_critical s) c
    (update_context c (cut_test_context_set_current_result s m) w)"
  by (rule accounted_with_update [OF _ assms(2)])
     (use assms(1) set_current_result_keeps [of s m] in \<open>auto simp: wired_def\<close>)

lemma peek_quiet: "quiet w w' \<Longrightarrow> cut_test_context_current_peek w' = cut_test_context_current_peek w"
  by (simp add: quiet_def cut_test_context_current_peek_def)

lemma perform_calls_account:
  "perform_calls P calls w = (Inr (), w') \<Longrightarrow> settled calls waiting \<Longrightarrow>
   cut_test_context_current_peek w = Some c \<Longrightarrow> wired w c \<Longrightarrow> accounted_with waiting c w \<Longrightarrow>
   accounted_with False c w'"
proof (induction calls arbitrary: w waiting)
  case Nil
  then show ?case by simp
next
  case (Cons call calls)
  obtain r v where call: "perform_call P c call w = (r, v)" by fastforce
  then have r: "r = Inr ()" and rest: "perform_calls P calls v = (Inr (), w')"
    using Cons.prems(1,3) by (auto simp: bind_step_def split: sum.splits)
  have q: "quiet w v" using quiet.perform_call [of w P c call] call by simp
  have peek: "cut_test_context_current_peek v = Some c" using peek_quiet [OF q] Cons.prems(3) by simp
  have wired: "wired v c" by (rule wired_quiet [OF q Cons.prems(4)])
  note IH = Cons.IH [OF rest _ peek wired]
  show ?case
  proof (cases "plain_call call")
    case True
    then have "settled calls waiting"
      using Cons.prems(2) by (cases call) (simp_all add: plain_call_def)
    then show ?thesis
      using IH plain_call_accounts [OF _ True Cons.prems(4,5)] call r by blast
  next
    case False
    then consider s m where "call = Set_Result s m" | "call = Process_Result"
      by (cases call) (auto simp: plain_call_def)
    then show ?thesis
    proof cases
      case 1
      then have set: "\<not> waiting" "settled calls (cut_test_result_status_is_critical s)"
        "v = update_context c (cut_test_context_set_current_result s m) w"
        using Cons.prems(2) call by (auto simp: perform_call_def do_step_def)
      then show ?thesis
        using IH [OF set(2)] set_result_accounts [OF Cons.prems(4)] Cons.prems(5) by simp
    next
      case 2
      then show ?thesis
        using IH [of False] process_result_accounts [OF _ Cons.prems(4,5)] Cons.prems(2) call r
        by (simp add: perform_call_def)
    qed
  qed
qed

lemma logged_same:
  "accounted (w\<lparr>user_calls := u\<rparr>) = accounted w" "wired (w\<lparr>user_calls := u\<rparr>) c = wired w c"
  by (simp_all add: accounted_def excused_def critical_reported_def none_failed_def wired_def context_at_def)

lemma user_function_accounts:
  assumes run: "run_user_function P code f w = (Inr (), w')" and f: "settled_function f"
    and c: "current_contexts w = c # cs" "wired w c" and acc: "accounted w"
  shows "accounted w'"
proof -
  let ?w1 = "w\<lparr>user_calls := user_calls w @ [code]\<rparr>"
  obtain calls e where fw: "f ?w1 = (calls, e)" by fastforce
  have set: "settled calls False" using f fw unfolding settled_function_def by (metis fst_conv)
  obtain r v where pc: "perform_calls P calls ?w1 = (r, v)" by fastforce
  have r: "r = Inr ()" "w' = v"
    using run by (auto simp: run_user_function_def fw pc bind_step_def
        split: sum.splits function_end.splits if_splits)
  have len: "c < length (contexts ?w1)" using c(2) by (simp add: wired_def)
  have "accounted_with False c ?w1"
    using accounted_with_False [OF len] acc by (simp add: logged_same)
  then have "accounted_with False c v"
    by (rule perform_calls_account [of P calls ?w1, rotated 4])
       (use pc r set c in \<open>simp_all add: logged_same cut_test_context_current_peek_def\<close>)
  moreover have "c < length (contexts v)"
    using quiet_length [OF quiet.perform_calls [of ?w1 P calls]] pc len by simp
  ultimately show ?thesis using r accounted_with_False by blast
qed

lemma user_option_accounts:
  assumes "run_user_option P code fo w = (Inr (), w')" "settled_option fo"
    and "current_contexts w = c # cs" "wired w c" "accounted w"
  shows "accounted w'"
  using assms user_function_accounts
  by (cases fo) (auto simp: run_user_option_def settled_option_def)

text \<open>A user function fails no other context; the set-up of data is judged by its own.\<close>

lemma perform_calls_local:
  assumes "perform_calls P calls w = (r, w')" "cut_test_context_current_peek w = Some c" "c' \<noteq> c"
  shows "contexts w' ! c' = contexts w ! c'"
  using assms(1,2)
proof (induction calls arbitrary: w)
  case (Cons call calls)
  obtain a v where call: "perform_call P c call w = (a, v)" by fastforce
  have "contexts v ! c' = contexts w ! c'"
    using call assms(3)
    by (cases call)
       (auto simp: perform_call_def do_step_def cut_test_context_pass_assertion_def
        cut_test_context_process_current_result_def cut_test_context_emit_signal_def
        cut_test_emit_result_signal_def Let_def split: option.splits emit_target.splits if_splits)
  moreover have "quiet w v" using quiet.perform_call [of w P c call] call by simp
  ultimately show ?case
    using Cons.IH [of v] Cons.prems peek_quiet call by (auto simp: bind_step_def split: sum.splits)
qed simp

lemma data_setup_accounts:
  assumes run: "run_user_function P code f w = (Inr (), w')"
    and c: "current_contexts w = c # cs" "c < length (contexts w)"
    and acc: "accounted w" and ok: "\<not> tc_failed (contexts w' ! c)"
  shows "accounted w'"
proof (cases "excused w")
  case True
  then show ?thesis
    using excusedD [OF excused.user_function [of w P code f]] run by (simp add: accounted_def)
next
  case False
  let ?w1 = "w\<lparr>user_calls := user_calls w @ [code]\<rparr>"
  obtain calls e where fw: "f ?w1 = (calls, e)" by fastforce
  obtain r v where pc: "perform_calls P calls ?w1 = (r, v)" by fastforce
  have r: "w' = v"
    using run by (auto simp: run_user_function_def fw pc bind_step_def
        split: sum.splits function_end.splits if_splits)
  have len: "length (contexts v) = length (contexts w)"
    using quiet_length [OF quiet.perform_calls [of ?w1 P calls]] pc by simp
  have "c' \<noteq> c \<Longrightarrow> contexts v ! c' = contexts w ! c'" for c'
    using perform_calls_local [OF pc, of c c'] c by (simp add: cut_test_context_current_peek_def)
  then have "none_failed w'"
    using acc False ok len r unfolding accounted_def none_failed_def all_set_conv_all_nth by metis
  then show ?thesis by (simp add: accounted_def)
qed

end
