(* ===== verification/Run_Balance.thy ===== *)
theory Run_Balance
  imports Run_Accounting
begin

text \<open>
  Computations that return: the stack of current contexts is as before, and older contexts still
  report to the same object.
\<close>

lemma bind_Inr_iff:
  "bind_step m f w = (Inr b, w') \<longleftrightarrow> (\<exists>a v. m w = (Inr a, v) \<and> f a v = (Inr b, w'))"
  by (cases "m w") (auto simp: bind_step_def split: sum.splits)

lemma catch_Inr_iff:
  "catch_signal installed m h w = (Inr b, w') \<longleftrightarrow>
     m w = (Inr b, w') \<or>
     (\<exists>s v. installed \<and> m w = (Inl (Signaled s), v) \<and> \<not> signal_received v \<and>
        h s (v\<lparr>signal_received := True\<rparr>) = (Inr b, w'))"
  by (cases "m w") (auto simp: catch_signal_def split: sum.splits stop.splits)

section \<open>Balance\<close>

text \<open>A computation that returns leaves the stack of current contexts as it was.\<close>

lemma catch_balanced:
  assumes "\<And>w. quiet w (snd (m w))" "\<And>s w. quiet w (snd (h s w))"
  shows "quiet w (snd (catch_signal b m h w))"
  by (rule quiet.catch) (simp_all add: assms)

lemma emit_result_frame [simp]:
  "contexts (cut_test_emit_result_signal P target c r w) = contexts w"
  "current_contexts (cut_test_emit_result_signal P target c r w) = current_contexts w"
  "suite_success (cut_test_emit_result_signal P target c r w) = suite_success w"
  by (simp_all add: cut_test_emit_result_signal_def split: emit_target.splits)

lemma update_context_current [simp]:
  "current_contexts (update_context c f w) = current_contexts w"
  "suite_success (update_context c f w) = suite_success w"
  "handler_table (update_context c f w) = handler_table w"
  "run_state (update_context c f w) = run_state w"
  "run_signals (update_context c f w) = run_signals w"
  by (simp_all add: update_context_def)

lemma iterated_body_quiet:
  "iterated_body P i k t c b w = (r, w') \<Longrightarrow>
   quiet (emit_object P (O_Test i) (Sig_Start_Iterated_Test t c) w) w'"
proof -
  let ?w1 = "emit_object P (O_Test i) (Sig_Start_Iterated_Test t c) w"
  have "quiet ?w1 (snd (iterated_body P i k t c b w))"
    unfolding iterated_body_def
    by (rule quiet.bind [OF quiet.refl quiet.set_up])
       (simp add: result_step_def quiet.bind [OF quiet.refl quiet.plain_test])
  then show "iterated_body P i k t c b w = (r, w') \<Longrightarrow> quiet ?w1 w'" by simp
qed

lemma iterated_catch_quiet:
  assumes "catch_signal inst (iterated_body P i k t c b) (iterated_signaled P i k t c b) w = (r, w')"
  shows "quiet (emit_object P (O_Test i) (Sig_Start_Iterated_Test t c) w) w'"
proof (cases "iterated_body P i k t c b w")
  case (Pair a v)
  note q = iterated_body_quiet [OF Pair]
  have "quiet v (snd (iterated_signaled P i k t c b s (v\<lparr>signal_received := True\<rparr>)))" for s
    by (rule quiet.trans [OF quiet.received quiet.signaled(2)])
  then show ?thesis
    using assms Pair q quiet.trans
    by (auto simp: catch_signal_def split: sum.splits stop.splits if_splits) (metis snd_conv)
qed

lemma without_thread_returns:
  assumes "run_test_without_thread P i k t c parent b w = (Inr b', w')"
    and "\<not> cut_run_context_is_canceled (run_state w)"
  obtains v v2 where
    "catch_signal (crash_handler_installed (cut_test_context_current_push c w)) (iterated_body P i k t c b)
      (iterated_signaled P i k t c b) (cut_test_context_current_push c w) = (Inr (Some b'), v)"
    "cut_test_case_run_teardown P k v = (Inr (), v2)"
    "w' = cut_test_context_current_pop (update_context parent (cut_test_context_set_test None)
       (update_context c (cut_test_context_set_test None) (emit_object P (O_Test i)
         (Sig_Complete_Iterated_Test t c b') (update_context parent (cut_test_context_set_failed
           (cut_test_context_is_failed (context_at v2 c))) v2))))"
proof -
  let ?w1 = "cut_test_context_current_push c w"
  obtain r v where body: "catch_signal (crash_handler_installed ?w1) (iterated_body P i k t c b)
      (iterated_signaled P i k t c b) ?w1 = (r, v)" by fastforce
  obtain r2 v2 where down: "cut_test_case_run_teardown P k v = (r2, v2)" by fastforce
  note run = assms(1) [unfolded run_test_without_thread_def Let_def if_not_P [OF assms(2)] bind_step_def body]
  have "r = Inr (Some b')" and "r2 = Inr ()"
    using run by (cases r; cases r2; auto simp: down split: option.splits)+
  with run show thesis by (intro that [of v v2]) (simp_all add: body down)
qed

lemma without_thread_balanced:
  assumes "run_test_without_thread P i k t c parent b w = (Inr b', w')"
  shows "current_contexts w' = current_contexts w"
proof (cases "cut_run_context_is_canceled (run_state w)")
  case True
  then show ?thesis using assms by (simp add: run_test_without_thread_def)
next
  case False
  let ?w1 = "cut_test_context_current_push c w"
  from without_thread_returns [OF assms False] obtain v v2 where
    body: "catch_signal (crash_handler_installed ?w1) (iterated_body P i k t c b)
      (iterated_signaled P i k t c b) ?w1 = (Inr (Some b'), v)"
    and down: "cut_test_case_run_teardown P k v = (Inr (), v2)"
    and pop: "w' = cut_test_context_current_pop (update_context parent (cut_test_context_set_test None)
       (update_context c (cut_test_context_set_test None) (emit_object P (O_Test i)
         (Sig_Complete_Iterated_Test t c b') (update_context parent (cut_test_context_set_failed
           (cut_test_context_is_failed (context_at v2 c))) v2))))" .
  have w': "current_contexts w' = tl (current_contexts v2)"
    by (simp add: pop cut_test_context_current_pop_def)
  have "current_contexts v = c # current_contexts w"
    using quiet_current [OF iterated_catch_quiet [OF body]] by (simp add: cut_test_context_current_push_def)
  moreover have "current_contexts v2 = current_contexts v"
    using quiet_current [OF quiet.teardown [of v P k]] down by simp
  ultimately show ?thesis using w' by simp
qed

lemma filtered_balanced:
  "run_filtered_tests P i k c ts b w = (Inr b', w') \<Longrightarrow> current_contexts w' = current_contexts w"
proof (induction ts arbitrary: b w)
  case (Cons t ts)
  obtain b1 v where 1: "run_test_with_thread_support P i k t c b w = (Inr b1, v)"
    and 2: "run_filtered_tests P i k c ts b1 v = (Inr b', w')"
    using Cons.prems by (auto simp: bind_Inr_iff)
  have "current_contexts v = current_contexts w"
    using 1 without_thread_balanced
    by (fastforce simp: run_test_with_thread_support_def Let_def new_context_def split: if_splits)
  then show ?case using Cons.IH [OF 2] by simp
qed simp

lemma fold_current:
  "(\<And>a w. current_contexts (f a w) = current_contexts w) \<Longrightarrow> current_contexts (fold f xs w) = current_contexts w"
  by (induction xs arbitrary: w) simp_all

lemma create_frame [simp]:
  "current_contexts (create_iterated_test i cell d w) = current_contexts w"
  "contexts (create_iterated_test i cell d w) = contexts w"
  "suite_success (create_iterated_test i cell d w) = suite_success w"
  "current_contexts (forget_iterated_test cell t w) = current_contexts w"
  "contexts (forget_iterated_test cell t w) = contexts w"
  "suite_success (forget_iterated_test cell t w) = suite_success w"
  by (simp_all add: create_iterated_test_def forget_iterated_test_def cut_iterated_test_clear_data_def Let_def)

lemma fold_contexts:
  "(\<And>a w. contexts (f a w) = contexts w) \<Longrightarrow> contexts (fold f xs w) = contexts w"
  by (induction xs arbitrary: w) simp_all

lemma iterated_balanced:
  "run_iterated_tests P i k c cell w = (Inr b, w') \<Longrightarrow> current_contexts w' = current_contexts w"
  by (auto simp: run_iterated_tests_def Let_def bind_Inr_iff fold_current dest!: filtered_balanced)

lemma iterator_balanced:
  assumes "run_iterator P i c w = (Inr b, w')"
  shows "current_contexts w' = current_contexts w"
proof (cases "data_setup_function P i")
  case None
  then show ?thesis using assms by (simp add: run_iterator_def)
next
  case (Some f)
  let ?w0 = "update_context c (cut_test_context_set_test_iterator (Some i)) w"
  obtain v where data: "run_user_function P (Data_Setup i) f ?w0 = (Inr (), v)"
    using assms Some by (auto simp: run_iterator_def bind_Inr_iff)
  have "current_contexts v = current_contexts w"
    using quiet_current [OF quiet.user_function [of ?w0 P "Data_Setup i" f]] data by simp
  then show ?thesis
    using assms Some data
    by (auto simp: run_iterator_def bind_Inr_iff Let_def new_cell_def split: if_splits dest!: iterated_balanced)
qed

lemma plain_current: "run_plain_test P t c w = (r, w') \<Longrightarrow> current_contexts w' = current_contexts w"
  using quiet_current [OF quiet.plain_test [of w P t c]] by simp

lemma if_needed_balanced:
  "run_if_needed P t c w = (Inr b, w') \<Longrightarrow> current_contexts w' = current_contexts w"
  by (auto simp: run_if_needed_def cut_test_run_def split: if_splits dest: iterator_balanced plain_current)

lemma option_current: "run_user_option P code fo w = (r, w') \<Longrightarrow> current_contexts w' = current_contexts w"
  using quiet_current [OF quiet.user_option [of w P code fo]] by simp

lemma run_test_balanced:
  "run_test P k t c w = (Inr b, w') \<Longrightarrow> current_contexts w' = current_contexts w"
  by (auto simp: run_test_def bind_Inr_iff cut_test_case_run_setup_def cut_test_case_run_teardown_def
      split: if_splits dest!: if_needed_balanced option_current)

lemma case_run_balanced:
  "case_run P k t w = (Inr b, w') \<Longrightarrow> current_contexts w' = current_contexts w"
  by (auto simp: case_run_def Let_def bind_Inr_iff new_context_def cut_test_context_current_push_def
      cut_test_context_current_pop_def split: if_splits dest!: run_test_balanced)

lemma run_tests_balanced:
  "run_tests P k cell ts w = (Inr b, w') \<Longrightarrow> current_contexts w' = current_contexts w"
  by (induction ts arbitrary: w b) (fastforce simp: bind_Inr_iff result_step_def dest!: case_run_balanced)+

section \<open>Contexts of the callers\<close>

text \<open>A computation on newer contexts does not change where an older one reports.\<close>

definition same_target :: "object_id \<Rightarrow> test_world \<Rightarrow> test_world \<Rightarrow> bool" where
  "same_target c w w' \<longleftrightarrow> (c < length (contexts w) \<longrightarrow>
     c < length (contexts w') \<and> target_fields (contexts w' ! c) = target_fields (contexts w ! c))"

lemma same_target_refl [simp]: "same_target c w w"
  by (simp add: same_target_def)

lemma same_target_trans: "same_target c u v \<Longrightarrow> same_target c v w \<Longrightarrow> same_target c u w"
  by (auto simp: same_target_def)

lemma same_target_contexts: "contexts w' = contexts w \<Longrightarrow> same_target c w w'"
  by (simp add: same_target_def)

lemma same_target_quiet:
  assumes "quiet w w'"
  shows "same_target c w w'"
proof -
  have "map target_fields (contexts w') ! c = map target_fields (contexts w) ! c"
    using assms by (simp add: quiet_def)
  then show ?thesis using quiet_length [OF assms]
    by (cases "c < length (contexts w)") (simp_all add: same_target_def)
qed

lemma same_target_update: "d \<noteq> c \<Longrightarrow> same_target c w (update_context d f w)"
  by (simp add: same_target_def)

lemma same_target_new: "same_target c w (new_context tc w)"
  by (simp add: same_target_def new_context_def nth_append)

lemma same_target_emit: "same_target c w (emit_object P x sig w)"
  by (simp add: same_target_contexts)

lemmas same_target_intros = same_target_update same_target_new same_target_emit

lemma without_thread_same:
  assumes run: "run_test_without_thread P i k t c parent b w = (Inr b', w')"
    and ne: "c \<noteq> d" "parent \<noteq> d"
  shows "same_target d w w'"
proof (cases "cut_run_context_is_canceled (run_state w)")
  case True
  then show ?thesis using run by (simp add: run_test_without_thread_def)
next
  case False
  let ?w1 = "cut_test_context_current_push c w"
  from without_thread_returns [OF run False] obtain v v2 where
    body: "catch_signal (crash_handler_installed ?w1) (iterated_body P i k t c b)
      (iterated_signaled P i k t c b) ?w1 = (Inr (Some b'), v)"
    and down: "cut_test_case_run_teardown P k v = (Inr (), v2)"
    and w': "w' = cut_test_context_current_pop (update_context parent (cut_test_context_set_test None)
       (update_context c (cut_test_context_set_test None) (emit_object P (O_Test i)
         (Sig_Complete_Iterated_Test t c b') (update_context parent (cut_test_context_set_failed
           (cut_test_context_is_failed (context_at v2 c))) v2))))" .
  have "same_target d w (emit_object P (O_Test i) (Sig_Start_Iterated_Test t c) ?w1)"
    by (simp add: same_target_contexts cut_test_context_current_push_def)
  moreover note same_target_quiet [OF iterated_catch_quiet [OF body]]
  moreover have "quiet v v2" using quiet.teardown [of v P k] down by simp
  then have "same_target d v v2" by (rule same_target_quiet)
  moreover have "same_target d v2 w'"
    using ne by (simp add: w' same_target_def cut_test_context_current_pop_def)
  ultimately show ?thesis using same_target_trans by blast
qed

lemma thread_support_same:
  assumes "run_test_with_thread_support P i k t c b w = (Inr b', w')" "c \<noteq> d"
  shows "same_target d w w'"
proof (cases "cut_run_context_is_canceled (run_state w) \<or> length (contexts w) \<le> d")
  case True
  then show ?thesis using assms by (auto simp: run_test_with_thread_support_def same_target_def)
next
  case False
  let ?w2 = "update_context c (cut_test_context_set_test (Some t)) (new_context (local_context P i k t c w) w)"
  have "same_target d w ?w2"
    by (rule same_target_trans [OF same_target_new same_target_update]) (fact assms(2))
  moreover have "same_target d ?w2 w'"
    by (rule without_thread_same [of P i k t "length (contexts w)" c b])
       (use assms False in \<open>auto simp: run_test_with_thread_support_def Let_def\<close>)
  ultimately show ?thesis by (rule same_target_trans)
qed

lemma filtered_same:
  "run_filtered_tests P i k c ts b w = (Inr b', w') \<Longrightarrow> c \<noteq> d \<Longrightarrow> same_target d w w'"
proof (induction ts arbitrary: b w)
  case (Cons t ts)
  obtain b1 v where 1: "run_test_with_thread_support P i k t c b w = (Inr b1, v)"
    and 2: "run_filtered_tests P i k c ts b1 v = (Inr b', w')"
    using Cons.prems(1) by (auto simp: bind_Inr_iff)
  show ?case
    by (rule same_target_trans [OF thread_support_same [OF 1 Cons.prems(2)] Cons.IH [OF 2 Cons.prems(2)]])
qed simp

lemma iterated_same:
  assumes "run_iterated_tests P i k c cell w = (Inr b, w')" "c \<noteq> d"
  shows "same_target d w w'"
proof -
  obtain ts w3 v where w3: "same_target d w w3"
    and loop: "run_filtered_tests P i k c ts True w3 = (Inr b, v)" and w': "contexts w' = contexts v"
  proof (rule that)
    let ?w2 = "update_context c (cut_test_context_shift_data ^^ length (iterated_data (context_at w c)))
       (fold (create_iterated_test i cell) (iterated_data (context_at w c)) w)"
    let ?ts = "cut_test_container_filter_children P (iterator_children ?w2 i) (target_test_names P) ?w2"
    let ?w3 = "emit_object P (O_Test i) (Sig_Start None) (emit_object P (O_Test i)
       (Sig_Ready (cut_test_container_get_n_tests P (iterator_children ?w2 i) ?w2) 0) ?w2)"
    show "same_target d w ?w3" using assms(2) by (simp add: same_target_def fold_contexts)
    show "run_filtered_tests P i k c ?ts True ?w3 = (Inr b, snd (run_filtered_tests P i k c ?ts True ?w3))"
      using assms(1) by (auto simp: run_iterated_tests_def Let_def bind_Inr_iff)
    show "contexts w' = contexts (snd (run_filtered_tests P i k c ?ts True ?w3))"
      using assms(1) by (auto simp: run_iterated_tests_def Let_def bind_Inr_iff fold_contexts)
  qed
  show ?thesis
    by (rule same_target_trans [OF same_target_trans [OF w3 filtered_same [OF loop assms(2)]]
          same_target_contexts [OF w']])
qed

lemma iterator_same:
  assumes run: "run_iterator P i c w = (Inr b, w')" and ne: "c \<noteq> d"
  shows "same_target d w w'"
proof (cases "data_setup_function P i")
  case None
  then show ?thesis using run by (simp add: run_iterator_def)
next
  case (Some f)
  let ?w0 = "update_context c (cut_test_context_set_test_iterator (Some i)) w"
  obtain v where data: "run_user_function P (Data_Setup i) f ?w0 = (Inr (), v)"
    using run Some by (auto simp: run_iterator_def bind_Inr_iff)
  have "quiet ?w0 v" using quiet.user_function [of ?w0 P "Data_Setup i" f] data by simp
  then have 1: "same_target d w v"
    using same_target_trans [OF same_target_update [OF ne] same_target_quiet] by blast
  show ?thesis
  proof (cases "cut_test_context_is_failed (context_at v c)")
    case True
    then have "w' = update_context c (cut_test_context_set_test_iterator None) v"
      using run Some data by (simp add: run_iterator_def bind_step_def)
    then show ?thesis using same_target_trans [OF 1 same_target_update [OF ne]] by simp
  next
    case False
    let ?cell = "length (status_cells v)" and ?k = "the (tc_test_case (context_at v c))"
    obtain r u where it: "run_iterated_tests P i ?k c ?cell (new_cell v) = (r, u)" by fastforce
    have r: "r = Inr b"
      using run Some data it False by (cases r) (auto simp: run_iterator_def bind_step_def Let_def)
    have u: "same_target d (new_cell v) u" using iterated_same [OF _ ne] it r by simp
    have "same_target d u w'"
      using run Some data it False r ne
      by (auto simp: run_iterator_def bind_step_def Let_def same_target_def)
    moreover have "same_target d v (new_cell v)" by (simp add: same_target_contexts new_cell_def)
    ultimately show ?thesis using 1 u same_target_trans by blast
  qed
qed

lemma if_needed_same:
  "run_if_needed P t c w = (Inr b, w') \<Longrightarrow> c \<noteq> d \<Longrightarrow> same_target d w w'"
  using quiet.plain_test [of w P t c] same_target_quiet
  by (auto simp: run_if_needed_def cut_test_run_def iterator_same split: if_splits)

lemma run_test_same:
  assumes "run_test P k t c w = (Inr b, w')" "c \<noteq> d"
  shows "same_target d w w'"
proof (cases "is_iterator P t")
  case True
  let ?w1 = "emit_object P (O_Case k) (Sig_Start_Test_Iterator t c) w"
  obtain v s where "run_if_needed P t c ?w1 = (Inr b, v)" "w' = emit_object P (O_Case k) s v"
    using assms(1) True by (auto simp: run_test_def bind_Inr_iff)
  then show ?thesis
    using same_target_trans [OF same_target_trans [OF same_target_emit if_needed_same] same_target_emit] assms(2)
    by blast
next
  case False
  let ?w1 = "emit_object P (O_Case k) (Sig_Start_Test t c) w"
  obtain v v2 v3 s where 1: "cut_test_case_run_setup P k ?w1 = (Inr (), v)"
    and 2: "run_if_needed P t c v = (Inr b, v2)"
    and 3: "cut_test_case_run_teardown P k v2 = (Inr (), v3)" "w' = emit_object P (O_Case k) s v3"
    using assms(1) False by (auto simp: run_test_def bind_Inr_iff)
  have "quiet ?w1 v" "quiet v2 v3"
    using quiet.set_up [of ?w1 P k] quiet.teardown [of v2 P k] 1 3 by simp_all
  then show ?thesis
    using same_target_trans same_target_emit same_target_quiet if_needed_same [OF 2 assms(2)]
    unfolding 3(2) by metis
qed

lemma case_run_same:
  assumes run: "case_run P k t w = (Inr b, w')"
  shows "same_target d w w'"
proof (cases "cut_run_context_is_canceled (run_state w) \<or> length (contexts w) \<le> d")
  case True
  then show ?thesis using run by (auto simp: case_run_def same_target_def)
next
  case False
  then have ne: "length (contexts w) \<noteq> d" by simp
  let ?c = "length (contexts w)"
  let ?w2 = "update_context ?c (cut_test_context_set_test (Some t)) (cut_test_context_current_push ?c
    (new_context (cut_test_context_set_multi_thread (is_multi_thread (run_state w))
       (cut_test_context_new (Some (suite_id P)) (Some k) None None)) w))"
  obtain v where t: "run_test P k t ?c ?w2 = (Inr b, v)"
    and w': "w' = cut_test_context_current_pop (update_context ?c (cut_test_context_set_test None) v)"
    using run False by (auto simp: case_run_def Let_def bind_Inr_iff)
  have "same_target d w ?w2"
    using ne by (simp add: same_target_def cut_test_context_current_push_def new_context_def nth_append)
  moreover have "same_target d v w'"
    using ne by (simp add: w' same_target_def cut_test_context_current_pop_def)
  ultimately show ?thesis using run_test_same [OF t ne] same_target_trans by blast
qed

lemma run_tests_same: "run_tests P k cell ts w = (Inr b, w') \<Longrightarrow> same_target d w w'"
proof (induction ts arbitrary: w b)
  case (Cons t ts)
  let ?w1 = "connect (O_Test t) collected_kinds (Collect cell) w"
  obtain b1 v b2 where 1: "case_run P k t ?w1 = (Inr b1, v)"
    and 2: "run_tests P k cell ts (disconnect (O_Test t) collected_kinds (Collect cell) v) = (Inr b2, w')"
    using Cons.prems(1) by (auto simp: bind_Inr_iff result_step_def)
  have "same_target d w ?w1" "same_target d v (disconnect (O_Test t) collected_kinds (Collect cell) v)"
    by (simp_all add: same_target_contexts)
  then show ?case using case_run_same [OF 1] Cons.IH [OF 2] same_target_trans by blast
qed simp

lemma case_body_same:
  assumes "case_body P k c cell ts w = (Inr b, w')"
  shows "same_target d w w'"
proof -
  obtain v where up: "cut_test_case_run_startup P k w = (Inr (), v)"
    and rest: "run_tests P k cell ts v = (Inr b, w') \<or> w' = v"
    using assms by (auto simp: case_body_def bind_Inr_iff split: if_splits)
  have "quiet w v" using quiet.startup [of w P k] up by simp
  then show ?thesis using rest run_tests_same same_target_quiet same_target_trans by blast
qed

end
