(* ===== verification/Run_Failures_Tests.thy ===== *)
theory Run_Failures_Tests
  imports Run_Balance
begin

text \<open>
  No failure of a test or of an iterated test is lost.
\<close>

section \<open>Tests\<close>

definition settled_program :: "test_program \<Rightarrow> bool" where
  "settled_program P \<longleftrightarrow>
     settled_option (suite_warmup P) \<and> settled_option (suite_cooldown P) \<and>
     (\<forall>k. settled_option (case_startup P k) \<and> settled_option (case_shutdown P k) \<and>
          settled_option (case_setup P k) \<and> settled_option (case_teardown P k)) \<and>
     (\<forall>t. settled_option (test_function P t)) \<and>
     (\<forall>i f d. iterated_test_function P i = Some f \<longrightarrow> settled_function (f d))"

lemma settled_body: "settled_program P \<Longrightarrow> test_body P t w = Some f \<Longrightarrow> settled_function f"
  unfolding test_body_def settled_program_def settled_option_def by (auto split: option.splits)

lemma signaled_True:
  "test_signaled P t c tc d s w = (Inr True, w') \<Longrightarrow> excused w'"
  "case_signaled P k c s w = (Inr True, w') \<Longrightarrow> excused w'"
  "iterated_signaled P i k t c b s w = (Inr (Some b'), w') \<Longrightarrow> excused w'"
  by (auto simp: test_signaled_def case_signaled_def iterated_signaled_def canceled_excused
      split: posix_signal.splits)

lemma excused_accounted: "excused w \<Longrightarrow> accounted w"
  by (simp add: accounted_def)

lemma invoke_accounts:
  assumes "invoke_test P t c f w = (Inr b, w')" "settled_function f"
    and "current_contexts w = c' # cs" "wired w c'" "accounted w"
  shows "accounted w'"
proof -
  let ?w1 = "emit_object P (O_Test t) (Sig_Start (Some c)) w"
  have q: "quiet w ?w1" by (rule quiet.test_signal) simp
  have "run_user_function P (Test_Body t) f ?w1 = (Inr (), w')"
    using assms(1) by (auto simp: invoke_test_def bind_Inr_iff)
  then show ?thesis
    by (rule user_function_accounts) (use assms wired_quiet [OF q] accounted_emit in auto)
qed

lemma plain_test_accounts:
  assumes run: "run_plain_test P t c w = (Inr True, w')" and P: "settled_program P"
    and c: "current_contexts w = c' # cs" "wired w c'" "accounted w"
  shows "accounted w'"
proof (cases "test_body P t w")
  case None
  then show ?thesis using run by (simp add: run_plain_test_def)
next
  case (Some f)
  obtain r v where body: "catch_signal (crash_handler_installed w) (invoke_test P t c f)
      (test_signaled P t c (context_at w c) (test_data_id t w)) w = (r, v)"
    by fastforce
  have r: "r = Inr True"
    using run Some body by (cases r) (auto simp: run_plain_test_def Let_def bind_step_def)
  then obtain s res tg cc where
    w': "w' = emit_object P (O_Test t) s (cut_test_emit_result_signal P tg cc res v)"
    using run Some body by (auto simp: run_plain_test_def Let_def bind_step_def)
  have "accounted v"
    using body r invoke_accounts [OF _ settled_body [OF P Some] c] signaled_True(1)
    by (auto simp: catch_Inr_iff excused_accounted)
  then show ?thesis unfolding w' by (intro accounted_emit accounted_emit_result)
qed

section \<open>Iterators\<close>

lemma teardown_accounts:
  assumes "cut_test_case_run_teardown P k w = (Inr (), w')" "settled_program P"
    and "current_contexts w = c # cs" "wired w c" "accounted w"
  shows "accounted w'"
  using assms user_option_accounts
  unfolding cut_test_case_run_teardown_def settled_program_def by blast

lemma setup_accounts:
  assumes "cut_test_case_run_setup P k w = (Inr (), w')" "settled_program P"
    and "current_contexts w = c # cs" "wired w c" "accounted w"
  shows "accounted w'"
  using assms user_option_accounts
  unfolding cut_test_case_run_setup_def settled_program_def by blast

lemma iterated_start_connects:
  assumes "(O_Test i, K_Start_Iterated_Test, Relay_Iterator) \<in> set (handler_table w)"
  shows "(O_Test t, K_Status s, Relay_Iterated_Test) \<in>
    set (handler_table (emit_object P (O_Test i) (Sig_Start_Iterated_Test t c) w))"
proof (rule emit_reaches [where h = Relay_Iterator])
  fix h and v :: test_world
  assume "(O_Test t, K_Status s, Relay_Iterated_Test) \<in> set (handler_table v)"
  then show "(O_Test t, K_Status s, Relay_Iterated_Test) \<in>
      set (handler_table (run_handler P h (O_Test i) (Sig_Start_Iterated_Test t c) v))"
    by (intro handler_keeps) simp_all
qed (use assms in \<open>cases s; simp add: relay_iterator_def connect_def iterated_test_kinds_def\<close>)+

lemma iterated_body_accounts:
  assumes run: "iterated_body P i k t c b w = (Inr (Some True), w')" and P: "settled_program P"
    and c: "current_contexts w = c # cs" "c < length (contexts w)" "tc_test (contexts w ! c) = Some t"
    and relay: "(O_Test i, K_Start_Iterated_Test, Relay_Iterator) \<in> set (handler_table w)"
    and acc: "accounted w"
  shows "accounted w'"
proof -
  let ?w1 = "emit_object P (O_Test i) (Sig_Start_Iterated_Test t c) w"
  obtain v where up: "cut_test_case_run_setup P k ?w1 = (Inr (), v)"
    and rest: "run_plain_test P t c v = (Inr True, w')"
    using run by (auto simp: iterated_body_def bind_Inr_iff result_step_def split: if_splits)
  have w1: "wired ?w1 c" "current_contexts ?w1 = c # cs" "accounted ?w1"
    using c accounted_emit [OF acc] iterated_start_connects [OF relay]
    by (simp_all add: wired_def delivers_def context_at_def result_target_def)
  have q: "quiet ?w1 v" using quiet.set_up [of ?w1 P k] up by simp
  show ?thesis
    by (rule plain_test_accounts [OF rest P])
       (use w1 wired_quiet [OF q] quiet_current [OF q] setup_accounts [OF up P] in auto)
qed

lemma none_failed_update:
  "accounted w \<Longrightarrow> (\<And>tc. \<not> tc_failed tc \<Longrightarrow> \<not> tc_failed (f tc)) \<Longrightarrow> accounted (update_context c f w)"
  unfolding accounted_def update_excused none_failed_def contexts_update_context
  by (cases "c < length (contexts w)")
     (auto dest!: set_update_subset_insert [THEN subsetD] simp: list_update_beyond)

lemma copy_failed:
  assumes "accounted w" "c < length (contexts w)"
  shows "accounted (update_context p (cut_test_context_set_failed
    (cut_test_context_is_failed (context_at w c))) w)"
proof (cases "excused w")
  case True
  then show ?thesis by (simp add: accounted_def update_excused)
next
  case False
  then have "\<not> tc_failed (contexts w ! c)" using assms by (simp add: accounted_def none_failed_def)
  then show ?thesis
    by (intro none_failed_update [OF assms(1)])
       (simp add: cut_test_context_set_failed_def cut_test_context_is_failed_def context_at_def)
qed

lemma accounted_current [simp]:
  "accounted (w\<lparr>current_contexts := x\<rparr>) = accounted w"
  "accounted (w\<lparr>status_cells := y\<rparr>) = accounted w"
  "accounted (w\<lparr>handler_table := z\<rparr>) = accounted w"
  by (simp_all add: accounted_def excused_def critical_reported_def none_failed_def)

lemma without_thread_accounts:
  assumes run: "run_test_without_thread P i k t c parent b w = (Inr True, w')" and P: "settled_program P"
    and c: "c < length (contexts w)" "tc_test (contexts w ! c) = Some t"
    and relay: "(O_Test i, K_Start_Iterated_Test, Relay_Iterator) \<in> set (handler_table w)"
    and acc: "accounted w"
  shows "accounted w'"
proof (cases "cut_run_context_is_canceled (run_state w)")
  case True
  then show ?thesis using run acc by (simp add: run_test_without_thread_def)
next
  case False
  let ?w1 = "cut_test_context_current_push c w"
  have w1: "current_contexts ?w1 = c # current_contexts w" "contexts ?w1 = contexts w"
    "handler_table ?w1 = handler_table w" "accounted ?w1"
    using acc by (simp_all add: cut_test_context_current_push_def)
  obtain v v2 where body: "catch_signal (crash_handler_installed ?w1) (iterated_body P i k t c b)
      (iterated_signaled P i k t c b) ?w1 = (Inr (Some True), v)"
    and down: "cut_test_case_run_teardown P k v = (Inr (), v2)"
    and w': "w' = cut_test_context_current_pop (update_context parent (cut_test_context_set_test None)
       (update_context c (cut_test_context_set_test None) (emit_object P (O_Test i)
         (Sig_Complete_Iterated_Test t c True) (update_context parent (cut_test_context_set_failed
           (cut_test_context_is_failed (context_at v2 c))) v2))))"
    by (rule without_thread_returns [OF run False])
  have q: "quiet (emit_object P (O_Test i) (Sig_Start_Iterated_Test t c) ?w1) v"
    by (rule iterated_catch_quiet [OF body])
  have v: "current_contexts v = c # current_contexts w" "length (contexts v) = length (contexts w)"
    using quiet_current [OF q] quiet_length [OF q] w1 by simp_all
  have "wired (emit_object P (O_Test i) (Sig_Start_Iterated_Test t c) ?w1) c"
    using c w1 iterated_start_connects [of i ?w1] relay
    by (simp add: wired_def delivers_def context_at_def result_target_def)
  then have wired: "wired v c" by (rule wired_quiet [OF q])
  have "accounted v"
    using body iterated_body_accounts [OF _ P w1(1)] signaled_True(3) c relay w1
    by (auto simp: catch_Inr_iff excused_accounted)
  then have "accounted v2" by (rule teardown_accounts [OF down P v(1) wired])
  moreover have "c < length (contexts v2)"
    using quiet_length [OF quiet.teardown [of v P k]] down v(2) c(1) by simp
  ultimately have "accounted (update_context parent (cut_test_context_set_failed
      (cut_test_context_is_failed (context_at v2 c))) v2)"
    by (rule copy_failed)
  then show ?thesis
    unfolding w' cut_test_context_current_pop_def accounted_current
    by (rule none_failed_update [OF none_failed_update [OF accounted_emit]])
       (simp_all add: cut_test_context_set_test_def)
qed

lemma local_context_fields [simp]:
  "tc_test (local_context P i k t c w) = Some t" "\<not> tc_failed (local_context P i k t c w)"
  by (simp_all add: local_context_def Let_def cut_test_context_set_test_def cut_test_context_set_data_def
      free_data_list_def cut_test_context_set_multi_thread_def cut_test_context_new_def
      cut_test_context_set_test_iterator_def cut_test_context_set_test_case_def
      cut_test_context_set_test_suite_def cut_test_context_init_def split: option.splits)

lemma new_context_accounted: "accounted w \<Longrightarrow> \<not> tc_failed tc \<Longrightarrow> accounted (new_context tc w)"
  by (auto simp: accounted_def excused_def critical_reported_def none_failed_def new_context_def)

lemma thread_support_accounts:
  assumes run: "run_test_with_thread_support P i k t c b w = (Inr True, w')" and P: "settled_program P"
    and relay: "(O_Test i, K_Start_Iterated_Test, Relay_Iterator) \<in> set (handler_table w)"
    and acc: "accounted w" and c: "c < length (contexts w)"
  shows "accounted w'"
proof (cases "cut_run_context_is_canceled (run_state w)")
  case True
  then show ?thesis using run acc by (simp add: run_test_with_thread_support_def)
next
  case False
  let ?w2 = "update_context c (cut_test_context_set_test (Some t)) (new_context (local_context P i k t c w) w)"
  have "accounted ?w2"
    by (intro none_failed_update new_context_accounted acc) (simp_all add: cut_test_context_set_test_def)
  moreover have "run_test_without_thread P i k t (length (contexts w)) c b ?w2 = (Inr True, w')"
    using run False by (simp add: run_test_with_thread_support_def Let_def)
  ultimately show ?thesis
    by (rule without_thread_accounts [OF _ P, rotated 4])
       (use relay c in \<open>simp_all add: new_context_def nth_append\<close>)
qed

text \<open>The success flag never comes back.\<close>

lemma iterated_flag:
  "iterated_body P i k t c False w = (Inr (Some b'), w') \<Longrightarrow> \<not> b'"
  "iterated_signaled P i k t c False s w = (Inr (Some b'), w') \<Longrightarrow> \<not> b'"
  by (auto simp: iterated_body_def bind_Inr_iff result_step_def split: if_splits)
     (cases s; auto simp: iterated_signaled_def)

lemma without_thread_flag:
  assumes "run_test_without_thread P i k t c parent False w = (Inr b', w')"
  shows "\<not> b'"
proof (cases "cut_run_context_is_canceled (run_state w)")
  case True
  then show ?thesis using assms by (simp add: run_test_without_thread_def)
next
  case False
  let ?w1 = "cut_test_context_current_push c w"
  obtain v where "catch_signal (crash_handler_installed ?w1) (iterated_body P i k t c False)
      (iterated_signaled P i k t c False) ?w1 = (Inr (Some b'), v)"
    by (rule without_thread_returns [OF assms False])
  then show ?thesis by (auto simp: catch_Inr_iff dest: iterated_flag)
qed

lemma filtered_flag: "run_filtered_tests P i k c ts False w = (Inr b', w') \<Longrightarrow> \<not> b'"
proof (induction ts arbitrary: w)
  case (Cons t ts)
  obtain b v where 1: "run_test_with_thread_support P i k t c False w = (Inr b, v)"
    and 2: "run_filtered_tests P i k c ts b v = (Inr b', w')"
    using Cons.prems by (auto simp: bind_Inr_iff)
  have "\<not> b" using 1
    by (auto simp: run_test_with_thread_support_def Let_def split: if_splits dest: without_thread_flag)
  then show ?case using Cons.IH 2 by simp
qed simp

lemma thread_support_kept:
  assumes "run_test_with_thread_support P i k t c b w = (r, w')"
  shows "(x, n, Relay_Iterator) \<in> set (handler_table w) \<Longrightarrow> (x, n, Relay_Iterator) \<in> set (handler_table w')"
    and "length (contexts w) \<le> length (contexts w')"
  using keeps_iterator.thread_support [of w P i k t c b] grows.thread_support [of w P i k t c b] assms
  by (simp_all add: keeps_def grows_def iterator_relays_def)

lemma filtered_accounts:
  "run_filtered_tests P i k c ts b w = (Inr True, w') \<Longrightarrow> settled_program P \<Longrightarrow>
   (O_Test i, K_Start_Iterated_Test, Relay_Iterator) \<in> set (handler_table w) \<Longrightarrow>
   accounted w \<Longrightarrow> c < length (contexts w) \<Longrightarrow> accounted w'"
proof (induction ts arbitrary: b w)
  case (Cons t ts)
  obtain b1 v where 1: "run_test_with_thread_support P i k t c b w = (Inr b1, v)"
    and 2: "run_filtered_tests P i k c ts b1 v = (Inr True, w')"
    using Cons.prems(1) by (auto simp: bind_Inr_iff)
  have b1: "b1" using 2 filtered_flag [of P i k c ts v True w'] by (cases b1) auto
  have "accounted v"
    by (rule thread_support_accounts [of P i k t c b w]) (use 1 b1 Cons.prems in simp_all)
  then show ?case
    by (intro Cons.IH [OF 2 Cons.prems(2)])
       (use thread_support_kept [OF 1] Cons.prems in \<open>auto intro: less_le_trans\<close>)
qed simp

lemma accounted_fields [simp]:
  "accounted (w\<lparr>iterated_tests := a\<rparr>) = accounted w" "accounted (w\<lparr>iterator_children := b\<rparr>) = accounted w"
  "accounted (w\<lparr>next_object := n\<rparr>) = accounted w"
  "accounted (connect x ks h w) = accounted w" "accounted (disconnect x ks h w) = accounted w"
  by (simp_all add: accounted_def excused_def critical_reported_def none_failed_def)

lemma create_accounted [simp]:
  "accounted (create_iterated_test i cell d w) = accounted w"
  "accounted (forget_iterated_test cell t w) = accounted w"
  by (simp_all add: create_iterated_test_def forget_iterated_test_def cut_iterated_test_clear_data_def Let_def
      accounted_def excused_def critical_reported_def none_failed_def)

lemma fold_accounted:
  "(\<And>a w. accounted (f a w) = accounted w) \<Longrightarrow> accounted (fold f xs w) = accounted w"
  by (induction xs arbitrary: w) simp_all

lemma shifts_failed: "tc_failed ((cut_test_context_shift_data ^^ n) tc) = tc_failed tc"
  by (induction n) (simp_all add: cut_test_context_shift_data_def split: option.splits)

lemma iterated_accounts:
  assumes run: "run_iterated_tests P i k c cell w = (Inr True, w')" and P: "settled_program P"
    and relay: "(O_Test i, K_Start_Iterated_Test, Relay_Iterator) \<in> set (handler_table w)"
    and acc: "accounted w" and c: "c < length (contexts w)"
  shows "accounted w'"
proof -
  let ?n = "length (iterated_data (context_at w c))"
  let ?w1 = "fold (create_iterated_test i cell) (iterated_data (context_at w c)) w"
  let ?w2 = "update_context c (cut_test_context_shift_data ^^ ?n) ?w1"
  obtain ts n v xs where
    loop: "run_filtered_tests P i k c ts True
       (emit_object P (O_Test i) (Sig_Start None) (emit_object P (O_Test i) (Sig_Ready n 0) ?w2)) = (Inr True, v)"
    and w': "w' = fold (forget_iterated_test cell) xs v"
    using run by (auto simp: run_iterated_tests_def Let_def bind_Inr_iff)
  let ?w3 = "emit_object P (O_Test i) (Sig_Start None) (emit_object P (O_Test i) (Sig_Ready n 0) ?w2)"
  have "keeps iterator_relays w ?w1" by (rule keeps_iterator.folded) (rule keeps_iterator.create)
  then have "(O_Test i, K_Start_Iterated_Test, Relay_Iterator) \<in> set (handler_table ?w2)"
    using relay by (simp add: keeps_def iterator_relays_def)
  then have relay3: "(O_Test i, K_Start_Iterated_Test, Relay_Iterator) \<in> set (handler_table ?w3)"
    by (intro emit_keeps) simp_all
  have "accounted ?w2"
    by (rule none_failed_update) (simp_all add: fold_accounted acc shifts_failed)
  then have acc3: "accounted ?w3" by (intro accounted_emit)
  have "c < length (contexts ?w3)" using c by (simp add: fold_contexts)
  then have "accounted v" by (rule filtered_accounts [OF loop P relay3 acc3])
  then show ?thesis by (simp add: w' fold_accounted)
qed

lemma iterator_accounts:
  assumes run: "run_iterator P i c w = (Inr True, w')" and P: "settled_program P"
    and c: "current_contexts w = c # cs" "c < length (contexts w)"
    and relay: "(O_Test i, K_Start_Iterated_Test, Relay_Iterator) \<in> set (handler_table w)"
    and acc: "accounted w"
  shows "accounted w'"
proof (cases "data_setup_function P i")
  case None
  then show ?thesis using run by (simp add: run_iterator_def)
next
  case (Some f)
  let ?w0 = "update_context c (cut_test_context_set_test_iterator (Some i)) w"
  obtain v where data: "run_user_function P (Data_Setup i) f ?w0 = (Inr (), v)"
    using run Some by (auto simp: run_iterator_def bind_Inr_iff)
  have q: "quiet ?w0 v" using quiet.user_function [of ?w0 P "Data_Setup i" f] data by simp
  have ok: "\<not> tc_failed (contexts v ! c)"
    using run Some data
    by (auto simp: run_iterator_def bind_Inr_iff cut_test_context_is_failed_def context_at_def split: if_splits)
  have acc0: "accounted ?w0"
    by (intro none_failed_update acc) (simp add: cut_test_context_set_test_iterator_def)
  have "accounted v"
    by (rule data_setup_accounts [OF data _ _ acc0 ok]) (use c in simp_all)
  then have acc1: "accounted (new_cell v)" by (simp add: new_cell_def)
  have tab: "handler_table v = handler_table w" using q by (simp add: quiet_def)
  let ?cell = "length (status_cells v)" and ?k = "the (tc_test_case (context_at v c))"
  have ok': "\<not> cut_test_context_is_failed (context_at v c)"
    using ok by (simp add: cut_test_context_is_failed_def context_at_def)
  obtain r u where it: "run_iterated_tests P i ?k c ?cell (new_cell v) = (r, u)" by fastforce
  have r: "r = Inr True"
    using run Some data it ok' by (cases r) (auto simp: run_iterator_def bind_step_def Let_def)
  then obtain res s1 where
    w': "w' = update_context c (cut_test_context_set_test_iterator None)
       (emit_object P (O_Test i) s1 (cut_test_emit_result_signal P (On_Iterator i) (Some c) res u))"
    using run Some data it ok' by (auto simp: run_iterator_def bind_step_def Let_def)
  have "accounted u"
    by (rule iterated_accounts [OF _ P _ acc1])
       (use it r relay tab quiet_length [OF q] c in \<open>auto simp: new_cell_def\<close>)
  then show ?thesis
    unfolding w'
    by (intro none_failed_update accounted_emit accounted_emit_result)
       (simp_all add: cut_test_context_set_test_iterator_def)
qed

end
