(* ===== verification/Run_Failures.thy ===== *)
theory Run_Failures
  imports Run_Failures_Tests
begin

text \<open>
  No failure of a test case or of a suite is lost.
\<close>

section \<open>Test cases\<close>

definition case_wired :: "test_world \<Rightarrow> object_id \<Rightarrow> bool" where
  "case_wired w k \<longleftrightarrow> (\<forall>n \<in> set case_kinds. (O_Case k, n, Relay_Case) \<in> set (handler_table w))"

lemma case_wired_keeps: "keeps case_relays w w' \<Longrightarrow> case_wired w k \<Longrightarrow> case_wired w' k"
  by (auto simp: case_wired_def keeps_def case_relays_def)

lemma start_test_connects:
  assumes "case_wired w k"
  shows "(O_Test t, K_Status s, Relay_Test) \<in> set (handler_table (emit_object P (O_Case k) (Sig_Start_Test t c) w))"
    and "(O_Test t, K_Start_Iterated_Test, Relay_Iterator) \<in>
      set (handler_table (emit_object P (O_Case k) (Sig_Start_Test_Iterator t c) w))"
proof -
  show "(O_Test t, K_Status s, Relay_Test) \<in> set (handler_table (emit_object P (O_Case k) (Sig_Start_Test t c) w))"
    by (rule emit_reaches [where h = Relay_Case])
       (use assms in \<open>auto simp: case_wired_def case_kinds_def relay_case_def connect_to_test_def connect_def
         test_kinds_def intro: handler_keeps, cases s, simp_all\<close>)
  show "(O_Test t, K_Start_Iterated_Test, Relay_Iterator) \<in>
      set (handler_table (emit_object P (O_Case k) (Sig_Start_Test_Iterator t c) w))"
    by (rule emit_reaches [where h = Relay_Case])
       (use assms in \<open>auto simp: case_wired_def case_kinds_def relay_case_def connect_to_test_iterator_def
         connect_def iterator_kinds_def intro: handler_keeps\<close>)
qed

lemma iterator_test_accounts:
  assumes run: "run_test P k t c w = (Inr True, w')" and P: "settled_program P"
    and c: "current_contexts w = c # cs" "c < length (contexts w)"
    and k: "case_wired w k" and acc: "accounted w" and it: "is_iterator P t"
  shows "accounted w'"
proof -
  let ?w1 = "emit_object P (O_Case k) (Sig_Start_Test_Iterator t c) w"
  obtain s v where need: "run_if_needed P t c ?w1 = (Inr True, v)"
    and w': "w' = emit_object P (O_Case k) s v"
    using run it by (auto simp: run_test_def bind_Inr_iff)
  have "accounted v"
    using need it accounted_emit [OF acc] start_test_connects(2) [OF k] c iterator_accounts [OF _ P]
    by (auto simp: run_if_needed_def cut_test_run_def split: if_splits)
  then show ?thesis by (simp add: w' accounted_emit)
qed

lemma plain_test_case_accounts:
  assumes run: "run_test P k t c w = (Inr True, w')" and P: "settled_program P"
    and c: "current_contexts w = c # cs" "c < length (contexts w)" "tc_test (contexts w ! c) = Some t"
    and k: "case_wired w k" and acc: "accounted w" and it: "\<not> is_iterator P t"
  shows "accounted w'"
proof -
  let ?w1 = "emit_object P (O_Case k) (Sig_Start_Test t c) w"
  obtain s v v2 v3 where up: "cut_test_case_run_setup P k ?w1 = (Inr (), v)"
    and need: "run_if_needed P t c v = (Inr True, v2)"
    and down: "cut_test_case_run_teardown P k v2 = (Inr (), v3)"
    and w': "w' = emit_object P (O_Case k) s v3"
    using run it by (auto simp: run_test_def bind_Inr_iff)
  have w1: "wired ?w1 c" "current_contexts ?w1 = c # cs" "accounted ?w1"
    using c accounted_emit [OF acc] start_test_connects(1) [OF k]
    by (simp_all add: wired_def delivers_def context_at_def result_target_def)
  have q1: "quiet ?w1 v" using quiet.set_up [of ?w1 P k] up by simp
  have v: "wired v c" "current_contexts v = c # cs" "accounted v"
    using wired_quiet [OF q1 w1(1)] quiet_current [OF q1] w1 setup_accounts [OF up P w1(2,1,3)] by simp_all
  have q2: "quiet v v2"
    using need quiet.plain_test [of v P t c] it
    by (auto simp: run_if_needed_def cut_test_run_def split: if_splits)
  have "accounted v2"
    using need it v plain_test_accounts [OF _ P v(2,1,3)]
    by (auto simp: run_if_needed_def cut_test_run_def split: if_splits)
  then have "accounted v3"
    by (intro teardown_accounts [OF down P]) (use wired_quiet [OF q2] quiet_current [OF q2] v in auto)
  then show ?thesis by (simp add: w' accounted_emit)
qed

lemma case_context_fields [simp]:
  "tc_test (cut_test_context_set_multi_thread m (cut_test_context_new s k i t)) = t"
  "\<not> tc_failed (cut_test_context_set_multi_thread m (cut_test_context_new s k i t))"
  "\<not> tc_failed (cut_test_context_new s k i t)"
  "result_target (cut_test_context_new s (Some x) None None) = Some (On_Case x)"
  by (simp_all add: cut_test_context_set_test_def result_target_def
      cut_test_context_set_multi_thread_def cut_test_context_new_def
      cut_test_context_set_test_iterator_def cut_test_context_set_test_case_def
      cut_test_context_set_test_suite_def cut_test_context_init_def)

lemma case_run_accounts:
  assumes run: "case_run P k t w = (Inr True, w')" and P: "settled_program P"
    and k: "case_wired w k" and acc: "accounted w"
  shows "accounted w'"
proof (cases "cut_run_context_is_canceled (run_state w)")
  case True
  then show ?thesis using run acc by (simp add: case_run_def)
next
  case False
  let ?c = "length (contexts w)"
  let ?w2 = "update_context ?c (cut_test_context_set_test (Some t)) (cut_test_context_current_push ?c
    (new_context (cut_test_context_set_multi_thread (is_multi_thread (run_state w))
       (cut_test_context_new (Some (suite_id P)) (Some k) None None)) w))"
  obtain v where t: "run_test P k t ?c ?w2 = (Inr True, v)"
    and w': "w' = cut_test_context_current_pop (update_context ?c (cut_test_context_set_test None) v)"
    using run False by (auto simp: case_run_def Let_def bind_Inr_iff)
  have acc2: "accounted ?w2"
    unfolding cut_test_context_current_push_def
    by (rule none_failed_update) (simp_all add: new_context_accounted acc cut_test_context_set_test_def)
  have w2: "current_contexts ?w2 = ?c # current_contexts w" "?c < length (contexts ?w2)"
    "tc_test (contexts ?w2 ! ?c) = Some t" "case_wired ?w2 k"
    using k by (simp_all add: cut_test_context_current_push_def new_context_def case_wired_def
        cut_test_context_set_test_def)
  have "accounted v"
    using iterator_test_accounts [OF t P w2(1,2,4) acc2] plain_test_case_accounts [OF t P w2 acc2] by blast
  then show ?thesis
    unfolding w' cut_test_context_current_pop_def accounted_current
    by (rule none_failed_update) (simp add: cut_test_context_set_test_def)
qed

lemma run_tests_account:
  "run_tests P k cell ts w = (Inr True, w') \<Longrightarrow> settled_program P \<Longrightarrow> case_wired w k \<Longrightarrow>
   accounted w \<Longrightarrow> accounted w'"
proof (induction ts arbitrary: w)
  case (Cons t ts)
  let ?w1 = "connect (O_Test t) collected_kinds (Collect cell) w"
  obtain v where 1: "case_run P k t ?w1 = (Inr True, v)"
    and 2: "run_tests P k cell ts (disconnect (O_Test t) collected_kinds (Collect cell) v) = (Inr True, w')"
    using Cons.prems(1) by (auto simp: bind_Inr_iff result_step_def)
  have k1: "case_wired ?w1 k" by (rule case_wired_keeps [OF keeps_case.collector_on Cons.prems(3)])
  have "case_wired v k"
    using case_wired_keeps [OF keeps_case.case_test [of ?w1 P k t]] k1 1 by simp
  then have "case_wired (disconnect (O_Test t) collected_kinds (Collect cell) v) k"
    by (rule case_wired_keeps [OF keeps_case.collector_off])
  moreover have "accounted v"
    by (rule case_run_accounts [OF 1 Cons.prems(2) k1]) (simp add: Cons.prems)
  ultimately show ?case using Cons.IH [OF 2 Cons.prems(2)] by simp
qed simp

lemma shutdown_accounts:
  assumes "cut_test_case_run_shutdown P k w = (Inr (), w')" "settled_program P"
    and "current_contexts w = c # cs" "wired w c" "accounted w"
  shows "accounted w'"
  using assms user_option_accounts
  unfolding cut_test_case_run_shutdown_def settled_program_def by blast

lemma startup_accounts:
  assumes "cut_test_case_run_startup P k w = (Inr (), w')" "settled_program P"
    and "current_contexts w = c # cs" "wired w c" "accounted w"
  shows "accounted w'"
  using assms user_option_accounts
  unfolding cut_test_case_run_startup_def settled_program_def by blast

lemma case_wired_wires:
  "case_wired w k \<Longrightarrow> c < length (contexts w) \<Longrightarrow> result_target (context_at w c) = Some (On_Case k) \<Longrightarrow>
   wired w c"
  by (auto simp: wired_def delivers_def case_wired_def case_kinds_def critical_cases)

lemma case_body_accounts:
  assumes run: "case_body P k c cell ts w = (Inr True, w')" and P: "settled_program P"
    and c: "current_contexts w = c # cs" "c < length (contexts w)"
      "result_target (context_at w c) = Some (On_Case k)"
    and k: "case_wired w k" and acc: "accounted w"
  shows "accounted w'" "current_contexts w' = c # cs"
proof -
  obtain v where up: "cut_test_case_run_startup P k w = (Inr (), v)"
    and rest: "run_tests P k cell ts v = (Inr True, w') \<or> w' = v"
    using run by (auto simp: case_body_def bind_Inr_iff split: if_splits)
  have q: "quiet w v" using quiet.startup [of w P k] up by simp
  have v: "accounted v" "case_wired v k" "current_contexts v = c # cs"
    using startup_accounts [OF up P c(1) case_wired_wires [OF k c(2,3)] acc] k q c
    by (simp_all add: case_wired_def quiet_def)
  show "accounted w'" using rest run_tests_account [OF _ P v(2,1)] v(1) by blast
  show "current_contexts w' = c # cs" using rest run_tests_balanced v(3) by fastforce
qed

lemma finish_accounts:
  assumes run: "finish_case P k cell True w = (Inr True, w')" and P: "settled_program P"
    and acc: "accounted w"
    and c: "excused w \<or> current_contexts w = c # cs \<and> wired w c"
  shows "accounted w'" "excused w' \<or> current_contexts w' = cs"
proof -
  obtain v s1 r where down: "cut_test_case_run_shutdown P k w = (Inr (), v)"
    and w': "w' = cut_test_context_current_pop (emit_object P (O_Case k) s1
       (cut_test_case_emit_result_signal P k r (disconnect (O_Case k) in_case_kinds (Collect cell) v)))"
    using run by (auto simp: finish_case_def Let_def bind_Inr_iff)
  have "excused w \<Longrightarrow> excused v"
    using excusedD [OF excused.shutdown [of w P k]] down by simp
  then have v: "accounted v"
    using c shutdown_accounts [OF down P _ _ acc] by (auto simp: excused_accounted)
  show "accounted w'"
    unfolding w' cut_test_case_emit_result_signal_def cut_test_context_current_pop_def accounted_current
    by (intro accounted_emit) (simp add: v)
  have "quiet w v" using quiet.shutdown [of w P k] down by simp
  then have "excused w \<or> current_contexts w' = cs"
    using c quiet_current
    by (auto simp: w' cut_test_case_emit_result_signal_def cut_test_context_current_pop_def)
  moreover have "stays_excused w w'" using excused.finish [of w P k cell True] run by simp
  ultimately show "excused w' \<or> current_contexts w' = cs" using excusedD by blast
qed

lemma case_accounts:
  assumes run: "cut_test_case_run_tests P k ts w = (Inr True, w')" and P: "settled_program P"
    and k: "case_wired w k" and acc: "accounted w"
  shows "accounted w'" "excused w' \<or> current_contexts w' = current_contexts w"
proof -
  let ?w1 = "emit_object P (O_Case k) (Sig_Start None) (emit_object P (O_Case k) (Sig_Ready (length ts) 0) w)"
  let ?c = "length (contexts ?w1)" and ?cell = "length (status_cells ?w1)"
  let ?w3 = "connect (O_Case k) in_case_kinds (Collect ?cell) (cut_test_context_current_push ?c
     (new_cell (new_context (cut_test_context_new (Some (suite_id P)) (Some k) None None) ?w1)))"
  obtain b v where body: "catch_signal (crash_handler_installed ?w3) (case_body P k ?c ?cell ts)
      (case_signaled P k ?c) ?w3 = (Inr b, v)"
    and fin: "finish_case P k ?cell b v = (Inr True, w')"
    using run by (auto simp: cut_test_case_run_tests_def Let_def bind_Inr_iff)
  have b: "b" using fin by (auto simp: finish_case_def Let_def bind_Inr_iff)
  have acc3: "accounted ?w3"
    unfolding cut_test_context_current_push_def new_cell_def
    by (simp add: new_context_accounted accounted_emit acc)
  have k1: "case_wired ?w1 k"
    by (rule case_wired_keeps [OF keeps_case.trans [OF keeps_case.case_signal keeps_case.case_signal] k])
  then have w3: "current_contexts ?w3 = ?c # current_contexts w" "?c < length (contexts ?w3)"
    "result_target (context_at ?w3 ?c) = Some (On_Case k)" "case_wired ?w3 k"
    by (auto simp: cut_test_context_current_push_def new_context_def new_cell_def context_at_def
        case_wired_def connect_def)
  have v: "accounted v" "excused v \<or> current_contexts v = ?c # current_contexts w \<and> wired v ?c"
  proof -
    have "excused v \<or> case_body P k ?c ?cell ts ?w3 = (Inr True, v)"
      using body b signaled_True(2) by (auto simp: catch_Inr_iff)
    moreover {
      assume ok: "case_body P k ?c ?cell ts ?w3 = (Inr True, v)"
      have "keeps case_relays ?w3 v" "grows ?w3 v"
        using keeps_case.case_body [of ?w3 P k ?c ?cell ts] grows.case_body [of ?w3 P k ?c ?cell ts] ok
        by simp_all
      then have "case_wired v k" "?c < length (contexts v)"
        using case_wired_keeps w3(2,4) by (auto simp: grows_def)
      moreover have "result_target (context_at v ?c) = Some (On_Case k)"
        using case_body_same [OF ok, of ?c] w3(2,3)
        by (simp add: same_target_def context_at_def result_target_def target_fields_def cong: option.case_cong)
      ultimately have "wired v ?c" by (rule case_wired_wires)
      then have "accounted v" "current_contexts v = ?c # current_contexts w \<and> wired v ?c"
        using case_body_accounts [OF ok P w3 acc3] by simp_all }
    ultimately show "accounted v" "excused v \<or> current_contexts v = ?c # current_contexts w \<and> wired v ?c"
      by (auto simp: excused_accounted)
  qed
  show "accounted w'" "excused w' \<or> current_contexts w' = current_contexts w"
    using finish_accounts [OF _ P v] fin b by auto
qed

section \<open>Suites and the run\<close>

definition suite_wired :: "test_program \<Rightarrow> test_world \<Rightarrow> bool" where
  "suite_wired P w \<longleftrightarrow> (O_Suite (suite_id P), K_Start_Test_Case, Relay_Suite) \<in> set (handler_table w)"

lemma suite_wired_keeps: "keeps {Relay_Suite} w w' \<Longrightarrow> suite_wired P w \<Longrightarrow> suite_wired P w'"
  by (simp add: suite_wired_def keeps_def)

lemma start_case_connects:
  assumes "suite_wired P w"
  shows "case_wired (emit_object P (O_Suite (suite_id P)) (Sig_Start_Test_Case k) w) k"
  unfolding case_wired_def
proof
  fix n
  assume n: "n \<in> set case_kinds"
  show "(O_Case k, n, Relay_Case) \<in>
      set (handler_table (emit_object P (O_Suite (suite_id P)) (Sig_Start_Test_Case k) w))"
    by (rule emit_reaches [where h = Relay_Suite])
       (use assms n in \<open>auto simp: suite_wired_def relay_suite_def connect_to_test_case_def connect_def
         intro: handler_keeps\<close>)
qed

text \<open>Between test cases no context is current, unless a failure is already accounted for.\<close>

definition suite_state :: "test_program \<Rightarrow> test_world \<Rightarrow> bool" where
  "suite_state P w \<longleftrightarrow> suite_wired P w \<and> accounted w \<and> (excused w \<or> current_contexts w = [])"

lemma suite_state_emit:
  assumes "suite_state P w" "kind_of sig \<noteq> K_Complete"
  shows "suite_state P (emit_object P (O_Suite x) sig w)"
  using assms suite_wired_keeps [OF keeps_suite.suite_signal] accounted_emit excusedD [OF emit_excused]
  unfolding suite_state_def by auto

lemma suite_run_case_state:
  assumes run: "suite_run_case P k names w = (Inr (), w')" and P: "settled_program P"
    and w: "suite_state P w"
  shows "suite_state P w'"
proof -
  let ?w1 = "emit_object P (O_Suite (suite_id P)) (Sig_Start_Test_Case k) w"
  obtain ok v where case': "cut_test_case_run_with_filter P k names ?w1 = (Inr ok, v)"
    and w': "w' = emit_object P (O_Suite (suite_id P))
       (Sig_Complete_Test_Case k (suite_success (if ok then v else v\<lparr>suite_success := False\<rparr>)))
       (if ok then v else v\<lparr>suite_success := False\<rparr>)"
    using run by (auto simp: suite_run_case_def bind_Inr_iff Let_def)
  have w1: "suite_state P ?w1" by (rule suite_state_emit [OF w]) simp
  have k1: "case_wired ?w1 k" using w start_case_connects by (simp add: suite_state_def)
  have wired: "suite_wired P v"
    using suite_wired_keeps [OF keeps_suite.whole_case [of ?w1 P k names]] w1 case' by (simp add: suite_state_def)
  have "suite_state P (if ok then v else v\<lparr>suite_success := False\<rparr>)"
  proof (cases ok)
    case True
    have "excused v \<or> current_contexts v = current_contexts ?w1" "accounted v"
      using case' True case_accounts [OF _ P k1] w1
      by (auto simp: cut_test_case_run_with_filter_def Let_def suite_state_def split: if_splits)
    moreover have "excused ?w1 \<Longrightarrow> excused v"
      using excusedD [OF excused.whole_case [of ?w1 P k names]] case' by simp
    ultimately show ?thesis using w1 wired True by (auto simp: suite_state_def)
  next
    case False
    then have "excused (v\<lparr>suite_success := False\<rparr>)" by (simp add: excused_def)
    then show ?thesis using False wired
      by (simp add: suite_state_def excused_accounted suite_wired_def)
  qed
  then show ?thesis unfolding w' by (rule suite_state_emit) simp
qed

lemma run_test_cases_state:
  "run_test_cases P names ks w = (Inr (), w') \<Longrightarrow> settled_program P \<Longrightarrow> suite_state P w \<Longrightarrow>
   suite_state P w'"
proof (induction ks arbitrary: w)
  case (Cons k ks)
  obtain v where 1: "suite_run_with_thread_support P k names w = (Inr (), v)"
    and 2: "run_test_cases P names ks v = (Inr (), w')"
    using Cons.prems(1) by (auto simp: bind_Inr_iff)
  have "suite_state P v"
    using 1 suite_run_case_state [OF _ Cons.prems(2,3)] Cons.prems(3)
    by (auto simp: suite_run_with_thread_support_def split: if_splits)
  then show ?case by (rule Cons.IH [OF 2 Cons.prems(2)])
qed simp

text \<open>Without a current context a user function can call nothing.\<close>

lemma idle_function:
  assumes "run_user_option P code fo w = (Inr (), w')" "suite_state P w"
  shows "suite_state P w'"
proof -
  have ex: "excused w \<Longrightarrow> excused w'"
    using excusedD [OF excused.user_option [of w P code fo]] assms(1) by simp
  have q: "quiet w w'" using quiet.user_option [of w P code fo] assms(1) by simp
  have wired: "suite_wired P w'" using assms(2) q by (simp add: suite_state_def suite_wired_def quiet_def)
  show ?thesis
  proof (cases "excused w")
    case True
    then show ?thesis using ex wired by (simp add: suite_state_def excused_accounted)
  next
    case False
    then have idle: "current_contexts w = []" "none_failed w"
      using assms(2) by (auto simp: suite_state_def accounted_def)
    have "contexts w' = contexts w"
    proof (cases fo)
      case None
      then show ?thesis using assms(1) by (simp add: run_user_option_def)
    next
      case (Some f)
      obtain calls e where fw: "f (w\<lparr>user_calls := user_calls w @ [code]\<rparr>) = (calls, e)" by fastforce
      show ?thesis
        using assms(1) Some fw idle(1)
        by (cases calls)
           (auto simp: run_user_option_def run_user_function_def bind_step_def
             cut_test_context_current_peek_def Let_def split: function_end.splits if_splits)
    qed
    then show ?thesis
      using idle wired quiet_current [OF q] by (simp add: suite_state_def accounted_def none_failed_def)
  qed
qed

lemma suite_body_state:
  assumes run: "suite_body P names ks w = (Inr b, w')" and P: "settled_program P" and w: "suite_state P w"
  shows "suite_state P w'" "b = suite_success w'"
proof -
  let ?w1 = "emit_object P (O_Suite (suite_id P)) (Sig_Start None) (emit_ready_signal P ks w)"
  obtain v v2 r where up: "run_user_option P Warmup (suite_warmup P) ?w1 = (Inr (), v)"
    and cases': "run_test_cases P names ks v = (Inr (), v2)"
    and b: "b = suite_success v2"
    and w': "w' = (if suite_success v2
       then emit_object P (O_Suite (suite_id P)) (Sig_Status SUCCESS None r) v2 else v2)"
    using run by (auto simp: suite_body_def bind_Inr_iff cut_test_emit_result_signal_def)
  have "suite_state P ?w1"
    unfolding emit_ready_signal_def by (intro suite_state_emit) (simp_all add: w)
  then have "suite_state P v2"
    using run_test_cases_state [OF cases' P] idle_function [OF up] by blast
  then show "suite_state P w'" "b = suite_success w'"
    using suite_state_emit by (auto simp: w' b)
qed

lemma suite_accounts:
  assumes run: "cut_test_suite_run P w = (Inr True, w')" and P: "settled_program P"
    and w: "contexts w = []" "current_contexts w = []" "suite_wired P w"
  shows "none_failed w' \<or> critical_reported w' \<or> canceled (run_state w')"
proof -
  obtain ks names where "w' = w \<or> cut_test_suite_run_test_cases P ks names w = (Inr True, w')"
    using run
    by (auto simp: cut_test_suite_run_def cut_test_suite_run_with_filter_def Let_def split: if_splits)
  moreover {
    assume "cut_test_suite_run_test_cases P ks names w = (Inr True, w')"
    then obtain ks' v v2 where
      body: "catch_signal (handle_signals (run_state w)) (suite_body P names ks') (suite_signaled P)
         (w\<lparr>suite_success := True\<rparr>) = (Inr True, v)"
      and down: "run_user_option P Cooldown (suite_cooldown P) v = (Inr (), v2)"
      and w': "w' = emit_object P (O_Suite (suite_id P)) (Sig_Complete None True) v2"
      by (auto simp: cut_test_suite_run_test_cases_def Let_def bind_Inr_iff)
    have w0: "suite_state P (w\<lparr>suite_success := True\<rparr>)"
      using w by (simp add: suite_state_def suite_wired_def accounted_def none_failed_def)
    have "canceled (run_state v) \<or> suite_state P v \<and> suite_success v"
    proof -
      have "suite_signaled P s u = (Inr True, v) \<Longrightarrow> canceled (run_state v)" for s u
        by (cases s) (auto simp: suite_signaled_def cancel_run_def cut_run_context_cancel_def)
      then show ?thesis
        using body suite_body_state [OF _ P w0] by (auto simp: catch_Inr_iff)
    qed
    moreover have q: "quiet v v2"
      using quiet.user_option [of v P Cooldown "suite_cooldown P"] down by simp
    moreover have "advanced v v2"
      using advanced.layers.user_option [of v P Cooldown "suite_cooldown P"] down by simp
    moreover have "suite_state P v \<Longrightarrow> suite_state P v2" by (rule idle_function [OF down])
    ultimately have "canceled (run_state v2) \<or> suite_state P v2 \<and> suite_success v2"
      by (auto simp: advanced_def quiet_def)
    then have "canceled (run_state w') \<or> accounted w' \<and> suite_success w'"
      using accounted_emit by (auto simp: w' suite_state_def)
    then have ?thesis by (auto simp: accounted_def excused_def) }
  ultimately show ?thesis using w by (auto simp: none_failed_def)
qed

end
