(* ===== verification/Run_Calls.thy ===== *)
theory Run_Calls
  imports Run_Failures
begin

text \<open>
  Which user functions a run calls: every test body once, between its set-up and its tear-down,
  the iterated tests of an iterator in the order of the data, and none after the run is cancelled.
\<close>

section \<open>The user functions that are called\<close>

definition logs :: "user_code list \<Rightarrow> test_world \<Rightarrow> test_world \<Rightarrow> bool" where
  "logs codes w w' \<longleftrightarrow> user_calls w' = user_calls w @ codes"

lemma logs_trans: "logs xs u v \<Longrightarrow> logs ys v w \<Longrightarrow> logs (xs @ ys) u w"
  by (simp add: logs_def)

lemma perform_call_logs: "user_calls (snd (perform_call P c call w)) = user_calls w"
  by (simp add: perform_call_def do_step_def cut_test_context_pass_assertion_def update_context_def
      cut_test_context_process_current_result_def cut_test_context_emit_signal_def
      cut_test_emit_result_signal_def Let_def split: user_call.splits option.splits emit_target.splits)

lemma perform_calls_logs: "user_calls (snd (perform_calls P calls w)) = user_calls w"
proof (induction calls arbitrary: w)
  case (Cons call calls)
  show ?case
    using Cons.IH [of "snd (perform_call P c call w)" for c] perform_call_logs [of P _ call w]
    by (auto simp: snd_bind_step split: option.splits prod.splits sum.splits) (metis snd_conv)+
qed simp

lemma user_function_logs: "logs [code] w (snd (run_user_function P code f w))"
proof -
  obtain calls e where f: "f (w\<lparr>user_calls := user_calls w @ [code]\<rparr>) = (calls, e)" by fastforce
  have "user_calls (snd (perform_calls P calls (w\<lparr>user_calls := user_calls w @ [code]\<rparr>))) =
      user_calls w @ [code]"
    using perform_calls_logs by simp
  then show ?thesis
    by (auto simp: logs_def run_user_function_def f snd_bind_step
        split: prod.splits sum.splits function_end.splits)
qed

definition optional :: "'f option \<Rightarrow> user_code \<Rightarrow> user_code list" where
  "optional fo code = (if fo = None then [] else [code])"

lemma user_option_logs: "logs (optional fo code) w (snd (run_user_option P code fo w))"
  using user_function_logs by (cases fo) (auto simp: run_user_option_def optional_def logs_def)

lemma emit_result_calls [simp]:
  "user_calls (cut_test_emit_result_signal P target c r w) = user_calls w"
  by (simp add: cut_test_emit_result_signal_def split: emit_target.splits)

lemma test_signaled_calls: "user_calls (snd (test_signaled P t c tc d s w)) = user_calls w"
  by (auto simp: test_signaled_def cancel_run_def cut_crash_backtrace_emit_def
      split: posix_signal.splits option.splits)

lemma invoke_logs: "logs [Test_Body t] w (snd (invoke_test P t c f w))"
  using user_function_logs [of "Test_Body t" "emit_object P (O_Test t) (Sig_Start (Some c)) w" P f]
  by (auto simp: invoke_test_def snd_bind_step logs_def split: prod.splits sum.splits)

lemma plain_test_logs: "logs (optional (test_body P t w) (Test_Body t)) w (snd (run_plain_test P t c w))"
proof (cases "test_body P t w")
  case (Some f)
  let ?c = "catch_signal (crash_handler_installed w) (invoke_test P t c f)
      (test_signaled P t c (context_at w c) (test_data_id t w))"
  have "logs [Test_Body t] w (snd (?c w))"
    using invoke_logs [of t w P c f]
    by (auto simp: catch_signal_def logs_def test_signaled_calls split: prod.splits sum.splits stop.splits)
  then show ?thesis
    by (auto simp: run_plain_test_def Some Let_def snd_bind_step logs_def optional_def
        split: prod.splits sum.splits)
qed (simp add: run_plain_test_def logs_def optional_def)

section \<open>Cancelled runs\<close>

lemma canceled_tests: "cut_run_context_is_canceled (run_state w) \<Longrightarrow>
  \<exists>w'. run_tests P k cell ts w = (Inr True, w') \<and> user_calls w' = user_calls w \<and>
     run_signals w' = run_signals w"
proof (induction ts arbitrary: w)
  case (Cons t ts)
  let ?v = "disconnect (O_Test t) collected_kinds (Collect cell) (connect (O_Test t) collected_kinds (Collect cell) w)"
  have "cut_run_context_is_canceled (run_state ?v)" using Cons.prems by simp
  from Cons.IH [OF this] show ?case
    using Cons.prems by (auto simp: bind_step_def case_run_def result_step_def)
qed simp

lemma canceled_cases: "cut_run_context_is_canceled (run_state w) \<Longrightarrow>
  run_test_cases P names ks w = (Inr (), w)"
  by (induction ks) (simp_all add: bind_step_def suite_run_with_thread_support_def)

section \<open>Iterated tests\<close>

definition stopping :: "test_world \<Rightarrow> test_world \<Rightarrow> bool" where
  "stopping w w' \<longleftrightarrow>
     (cut_run_context_is_canceled (run_state w) \<longrightarrow> cut_run_context_is_canceled (run_state w'))"

lemma stoppingI: "advanced w w' \<Longrightarrow> recorded w w' \<Longrightarrow> stopping w w'"
  by (auto simp: stopping_def advanced_def recorded_def cut_run_context_is_canceled_def)

interpretation stopping: state_relation P stopping for P
proof unfold_locales
  show "stopping w (emit_run P sig w)" for w sig
    by (rule stoppingI [OF advanced.emitted recorded.emitted])
qed (auto simp: stopping_def cut_run_context_is_canceled_def cancel_run_def cut_run_context_cancel_def)

section \<open>Cancelled suites\<close>

lemma suite_signaled_calls: "user_calls (snd (suite_signaled P s w)) = user_calls w"
  by (cases s) (simp_all add: suite_signaled_def cancel_run_def cut_crash_backtrace_emit_def split: option.splits)

lemma canceled_suite_body:
  assumes "catch_signal h (suite_body P names ks) (suite_signaled P) w = (Inr ok, w')"
    and "cut_run_context_is_canceled (run_state w)"
  shows "logs (optional (suite_warmup P) Warmup) w w'"
proof -
  let ?w1 = "emit_object P (O_Suite (suite_id P)) (Sig_Start None) (emit_ready_signal P ks w)"
  have w1: "user_calls ?w1 = user_calls w" by (simp add: emit_ready_signal_def)
  have "stopping w ?w1"
    unfolding emit_ready_signal_def by (rule stopping.layers.trans [OF stopping.object_signal stopping.object_signal])
  then have on: "cut_run_context_is_canceled (run_state ?w1)"
    using assms(2) by (simp add: stopping_def)
  obtain r v where v: "run_user_option P Warmup (suite_warmup P) ?w1 = (r, v)" by fastforce
  have "stopping ?w1 v" using stopping.layers.user_option [of ?w1 P Warmup "suite_warmup P"] v by simp
  then have "cut_run_context_is_canceled (run_state v)" using on by (simp add: stopping_def)
  then have cases': "run_test_cases P names ks v = (Inr (), v)" by (rule canceled_cases)
  have calls: "logs (optional (suite_warmup P) Warmup) w v"
    using user_option_logs [of "suite_warmup P" Warmup ?w1 P] v w1 by (simp add: logs_def)
  have "user_calls (snd (suite_body P names ks w)) = user_calls v"
    by (simp add: suite_body_def bind_step_def v cases' split: sum.splits)
  moreover have "user_calls w' = user_calls u"
    if "suite_signaled P s (u\<lparr>signal_received := True\<rparr>) = (Inr ok, w')" for s u
    using suite_signaled_calls [of P s "u\<lparr>signal_received := True\<rparr>"] that by simp
  ultimately have "user_calls w' = user_calls v"
    using assms(1) unfolding catch_Inr_iff by (metis snd_conv)
  then show ?thesis using calls by (simp add: logs_def)
qed

end
