(* ===== verification/Run_Data.thy ===== *)
theory Run_Data
  imports Run_Calls
begin

text \<open>
  The loop of an iterator over its data returns when the user's functions return: the conditions
  on them, the parts of the state that a test leaves alone, and the functions that are called.
\<close>

section \<open>Functions that return\<close>

text \<open>A user function that raises no signal: it returns or jumps out of a failed assertion.\<close>

definition calm_function :: "user_function \<Rightarrow> bool" where
  "calm_function f \<longleftrightarrow> (\<forall>w s. snd (f w) \<noteq> Raises s)"

definition calm_program :: "test_program \<Rightarrow> bool" where
  "calm_program P \<longleftrightarrow>
     (\<forall>k. \<forall>f\<in>set_option (case_setup P k) \<union> set_option (case_teardown P k). calm_function f) \<and>
     (\<forall>t. \<forall>f\<in>set_option (test_function P t). calm_function f) \<and>
     (\<forall>i. \<forall>f\<in>set_option (iterated_test_function P i). \<forall>d. calm_function (f d))"

lemma calm_body: "calm_program P \<Longrightarrow> test_body P t w = Some f \<Longrightarrow> calm_function f"
  by (auto simp: calm_program_def test_body_def split: option.splits)

text \<open>What the work in the context l leaves alone.\<close>

definition in_context :: "object_id \<Rightarrow> test_world \<Rightarrow> test_world \<Rightarrow> bool" where
  "in_context l w w' \<longleftrightarrow>
     current_contexts w' = current_contexts w \<and> length (contexts w') = length (contexts w) \<and>
     (\<forall>d. d \<noteq> l \<longrightarrow> contexts w' ! d = contexts w ! d) \<and>
     iterated_tests w' = iterated_tests w \<and>
     fatal_failures (run_state w') = fatal_failures (run_state w)"

lemma in_context_refl [simp]: "in_context l w w"
  by (simp add: in_context_def)

lemma in_context_trans: "in_context l u v \<Longrightarrow> in_context l v w \<Longrightarrow> in_context l u w"
  by (simp add: in_context_def)

definition fatal_kept :: "test_world \<Rightarrow> test_world \<Rightarrow> bool" where
  "fatal_kept w w' \<longleftrightarrow> fatal_failures (run_state w') = fatal_failures (run_state w)"

interpretation fatal: state_relation P fatal_kept for P
  by unfold_locales (simp_all add: fatal_kept_def fatal_emit_run cancel_run_def cut_run_context_cancel_def)

lemma in_context_emit: "in_context l w (emit_object P x sig w)"
  by (simp add: in_context_def)

lemma in_context_emit_result: "in_context l w (cut_test_emit_result_signal P target c r w)"
  by (simp add: cut_test_emit_result_signal_def in_context_emit split: emit_target.split)

lemma in_context_update: "in_context l w (update_context l f w)"
  by (simp add: in_context_def update_context_def)

lemma in_context_emit_signal: "in_context l w (cut_test_context_emit_signal P l r w)"
  by (auto simp: cut_test_context_emit_signal_def in_context_emit_result split: option.splits)

text \<open>A computation that returns, in the context l.\<close>

definition returns_in :: "object_id \<Rightarrow> 'a step \<Rightarrow> test_world \<Rightarrow> bool" where
  "returns_in l m w \<longleftrightarrow> (\<exists>a w'. m w = (Inr a, w') \<and> in_context l w w')"

lemma returns_bind:
  assumes "returns_in l m w" "\<And>a w'. m w = (Inr a, w') \<Longrightarrow> in_context l w w' \<Longrightarrow> returns_in l (f a) w'"
  shows "returns_in l (bind_step m f) w"
  using assms by (fastforce simp: returns_in_def bind_step_def intro: in_context_trans)

lemma returns_process:
  assumes "\<not> fatal_failures (run_state w)"
  shows "returns_in l (cut_test_context_process_current_result P l) w"
proof (cases "tc_current_result (context_at w l)")
  case (Some r)
  let ?w1 = "cut_test_context_emit_signal P l r w"
  have 1: "in_context l w ?w1" by (rule in_context_emit_signal)
  then have "\<not> fatal_failures (run_state ?w1)" using assms by (simp add: in_context_def)
  then show ?thesis
    using in_context_trans [OF 1 in_context_update]
    by (simp add: returns_in_def cut_test_context_process_current_result_def Some Let_def)
qed (simp add: returns_in_def cut_test_context_process_current_result_def)

lemma in_context_pass: "in_context l w (cut_test_context_pass_assertion P l w)"
  using in_context_trans [OF in_context_update in_context_emit]
  by (auto simp: cut_test_context_pass_assertion_def split: option.splits)

lemma returns_call:
  assumes "\<not> fatal_failures (run_state w)"
  shows "returns_in l (perform_call P l call) w"
  using returns_process [OF assms] in_context_pass in_context_update
  by (cases call) (simp_all add: perform_call_def do_step_def returns_in_def)

lemma returns_calls:
  "\<not> fatal_failures (run_state w) \<Longrightarrow> current_contexts w = l # cs \<Longrightarrow>
   returns_in l (perform_calls P calls) w"
proof (induction calls arbitrary: w)
  case Nil
  then show ?case by (simp add: returns_in_def)
next
  case (Cons call calls)
  have "returns_in l (bind_step (perform_call P l call) (\<lambda>_. perform_calls P calls)) w"
    by (rule returns_bind [OF returns_call [OF Cons.prems(1)]], rule Cons.IH)
       (use Cons.prems in \<open>simp_all add: in_context_def\<close>)
  then show ?case
    using Cons.prems(2) by (simp add: returns_in_def cut_test_context_current_peek_def)
qed

lemma returns_function:
  assumes "calm_function f" "\<not> fatal_failures (run_state w)" "current_contexts w = l # cs"
  shows "returns_in l (run_user_function P code f) w"
proof -
  let ?w1 = "w\<lparr>user_calls := user_calls w @ [code]\<rparr>"
  obtain calls e where f: "f ?w1 = (calls, e)" by fastforce
  have e: "e = Returns \<or> e = Long_Jumps"
    using assms(1) f by (cases e) (metis calm_function_def snd_conv)+
  have 1: "in_context l w ?w1" by (simp add: in_context_def)
  obtain w2 where w2: "perform_calls P calls ?w1 = (Inr (), w2)" "in_context l ?w1 w2"
    using returns_calls [of ?w1 l cs P calls] assms(2,3) by (auto simp: returns_in_def)
  have "cut_test_context_current_peek w2 = Some l"
    using w2(2) assms(3) by (simp add: in_context_def cut_test_context_current_peek_def)
  then have "run_user_function P code f w = (Inr (), w2)"
    using e by (auto simp: run_user_function_def f w2(1) bind_step_def)
  then show ?thesis using in_context_trans [OF 1 w2(2)] by (simp add: returns_in_def)
qed

lemma returns_option:
  assumes "\<forall>f\<in>set_option fo. calm_function f" "\<not> fatal_failures (run_state w)" "current_contexts w = l # cs"
  shows "returns_in l (run_user_option P code fo) w"
proof (cases fo)
  case None
  then show ?thesis by (simp add: returns_in_def run_user_option_def)
next
  case (Some f)
  have "run_user_option P code fo = run_user_function P code f"
    by (simp add: fun_eq_iff run_user_option_def Some)
  with returns_function [OF _ assms(2,3)] assms(1) Some show ?thesis by simp
qed

lemma returns_catch:
  assumes "returns_in l m w"
  shows "returns_in l (catch_signal b m h) w"
  using assms by (auto simp: returns_in_def catch_signal_def)

lemma returns_plain_test:
  assumes "calm_program P" "\<not> fatal_failures (run_state w)" "current_contexts w = l # cs"
  shows "returns_in l (run_plain_test P t c) w"
proof (cases "test_body P t w")
  case None
  then have "run_plain_test P t c w = (Inr False, w)" by (simp add: run_plain_test_def)
  then show ?thesis unfolding returns_in_def by (intro exI [of _ False] exI [of _ w]) simp
next
  case (Some f)
  let ?w1 = "emit_object P (O_Test t) (Sig_Start (Some c)) w"
  have 1: "in_context l w ?w1" by (rule in_context_emit)
  have "returns_in l (run_user_function P (Test_Body t) f) ?w1"
    by (rule returns_function [OF calm_body [OF assms(1) Some]])
       (use 1 assms(2,3) in \<open>simp_all add: in_context_def\<close>)
  then obtain u where u: "run_user_function P (Test_Body t) f ?w1 = (Inr (), u)" "in_context l ?w1 u"
    by (auto simp: returns_in_def)
  have "invoke_test P t c f w = (Inr (\<not> cut_test_context_is_failed (context_at u c)), u)"
    by (simp add: invoke_test_def bind_step_def u(1))
  with in_context_trans [OF 1 u(2)] have "returns_in l (invoke_test P t c f) w"
    unfolding returns_in_def by blast
  from returns_catch [OF this, of "crash_handler_installed w"
      "test_signaled P t c (context_at w c) (test_data_id t w)"] obtain ok v where
    v: "catch_signal (crash_handler_installed w) (invoke_test P t c f)
      (test_signaled P t c (context_at w c) (test_data_id t w)) w = (Inr ok, v)" "in_context l w v"
    unfolding returns_in_def by blast
  then show ?thesis
    using in_context_trans [OF v(2) in_context_emit] in_context_trans [OF v(2) in_context_trans [OF in_context_emit_result in_context_emit]]
    by (simp add: returns_in_def run_plain_test_def Some Let_def bind_step_def)
qed

lemma returns_setup:
  assumes "calm_program P" "\<not> fatal_failures (run_state w)" "current_contexts w = l # cs"
  shows "returns_in l (cut_test_case_run_setup P k) w" "returns_in l (cut_test_case_run_teardown P k) w"
proof -
  have eq: "cut_test_case_run_setup P k = run_user_option P (Setup k) (case_setup P k)"
    "cut_test_case_run_teardown P k = run_user_option P (Teardown k) (case_teardown P k)"
    by (simp_all add: fun_eq_iff cut_test_case_run_setup_def cut_test_case_run_teardown_def)
  have calm: "\<forall>f\<in>set_option (case_setup P k). calm_function f" "\<forall>f\<in>set_option (case_teardown P k). calm_function f"
    using assms(1) by (auto simp: calm_program_def)
  show "returns_in l (cut_test_case_run_setup P k) w" "returns_in l (cut_test_case_run_teardown P k) w"
    unfolding eq by (rule returns_option [OF calm(1) assms(2,3)], rule returns_option [OF calm(2) assms(2,3)])
qed

section \<open>One iterated test\<close>

text \<open>What is called for one iterated test: the body unless the set-up failed.\<close>

definition iterated_piece :: "test_program \<Rightarrow> object_id \<Rightarrow> object_id \<times> bool \<Rightarrow> user_code list" where
  "iterated_piece P k = (\<lambda>(t, ok). optional (case_setup P k) (Setup k) @ (if ok then [Test_Body t] else []) @
     optional (case_teardown P k) (Teardown k))"

lemma iterated_body_returns:
  assumes "calm_program P" "\<not> fatal_failures (run_state w)" "current_contexts w = l # cs"
    and body: "test_body P t w = Some f" and fresh: "\<not> tc_failed (context_at w c)"
  obtains b' ok w' where "iterated_body P i k t c b w = (Inr (Some b'), w')" "in_context l w w'"
    "user_calls w' = user_calls w @ optional (case_setup P k) (Setup k) @ (if ok then [Test_Body t] else [])"
    "b' \<longrightarrow> b \<and> ok" "case_setup P k = None \<longrightarrow> ok"
proof -
  let ?w1 = "emit_object P (O_Test i) (Sig_Start_Iterated_Test t c) w"
  have 1: "in_context l w ?w1" by (rule in_context_emit)
  have "returns_in l (cut_test_case_run_setup P k) ?w1"
    by (rule returns_setup) (use 1 assms(1-3) in \<open>simp_all add: in_context_def\<close>)
  then obtain v where v: "cut_test_case_run_setup P k ?w1 = (Inr (), v)" "in_context l ?w1 v"
    by (auto simp: returns_in_def)
  have calls: "user_calls v = user_calls w @ optional (case_setup P k) (Setup k)"
    using user_option_logs [of "case_setup P k" "Setup k" ?w1 P] v(1)
    by (simp add: cut_test_case_run_setup_def logs_def)
  note wv = in_context_trans [OF 1 v(2)]
  show thesis
  proof (cases "cut_test_context_is_failed (context_at v c)")
    case True
    have "case_setup P k \<noteq> None"
    proof
      assume "case_setup P k = None"
      then have "v = ?w1" using v(1) by (simp add: cut_test_case_run_setup_def run_user_option_def)
      with True fresh show False by (simp add: cut_test_context_is_failed_def context_at_def)
    qed
    with True show thesis
      by (intro that [of False v False]) (simp_all add: iterated_body_def bind_step_def v wv calls)
  next
    case False
    have "returns_in l (run_plain_test P t c) v"
      by (rule returns_plain_test) (use wv assms(1-3) in \<open>simp_all add: in_context_def\<close>)
    then obtain r w' where r: "run_plain_test P t c v = (Inr r, w')" "in_context l v w'"
      by (auto simp: returns_in_def)
    have "test_body P t v = Some f" using body wv by (simp add: test_body_def in_context_def)
    then have "user_calls w' = user_calls v @ [Test_Body t]"
      using plain_test_logs [of P t v c] r(1) by (simp add: logs_def optional_def)
    with False show thesis
      by (intro that [of "if r then b else False" w' True])
         (simp_all add: iterated_body_def bind_step_def result_step_def v r(1) calls in_context_trans [OF wv r(2)])
  qed
qed

text \<open>What a test that has returned leaves of its parent context c: its data.\<close>

definition test_kept :: "object_id \<Rightarrow> test_world \<Rightarrow> test_world \<Rightarrow> bool" where
  "test_kept c w w' \<longleftrightarrow>
     length (contexts w) \<le> length (contexts w') \<and> iterated_tests w' = iterated_tests w \<and>
     fatal_failures (run_state w') = fatal_failures (run_state w) \<and>
     tc_data_list (contexts w' ! c) = tc_data_list (contexts w ! c) \<and>
     tc_current_data (contexts w' ! c) = tc_current_data (contexts w ! c)"

lemma test_kept_trans: "test_kept c u v \<Longrightarrow> test_kept c v w \<Longrightarrow> test_kept c u w"
  by (simp add: test_kept_def)

lemma without_thread_runs:
  assumes "calm_program P" "\<not> fatal_failures (run_state w)"
    and body: "test_body P t w = Some f" and fresh: "\<not> tc_failed (context_at w l)"
    and c: "c < length (contexts w)" "l \<noteq> c" and on: "\<not> cut_run_context_is_canceled (run_state w)"
  obtains b' ok w' where "run_test_without_thread P i k t l c b w = (Inr b', w')" "test_kept c w w'"
    "user_calls w' = user_calls w @ iterated_piece P k (t, ok)"
    "b' \<longrightarrow> b \<and> ok" "case_setup P k = None \<longrightarrow> ok"
proof -
  let ?w1 = "cut_test_context_current_push l w"
  have w1: "contexts ?w1 = contexts w" "user_calls ?w1 = user_calls w" "run_state ?w1 = run_state w"
    "iterated_tests ?w1 = iterated_tests w" "current_contexts ?w1 = l # current_contexts w"
    by (simp_all add: cut_test_context_current_push_def)
  have "test_body P t ?w1 = Some f" "\<not> tc_failed (context_at ?w1 l)" "\<not> fatal_failures (run_state ?w1)"
    using body fresh assms(2) by (simp_all add: test_body_def context_at_def w1)
  from iterated_body_returns [OF assms(1) this(3) w1(5) this(1,2)] obtain b' ok v where
    v: "iterated_body P i k t l b ?w1 = (Inr (Some b'), v)" "in_context l ?w1 v"
      "user_calls v = user_calls ?w1 @ optional (case_setup P k) (Setup k) @ (if ok then [Test_Body t] else [])"
      "b' \<longrightarrow> b \<and> ok" "case_setup P k = None \<longrightarrow> ok" .
  have catch: "catch_signal (crash_handler_installed ?w1) (iterated_body P i k t l b)
      (iterated_signaled P i k t l b) ?w1 = (Inr (Some b'), v)"
    by (simp add: catch_signal_def v(1))
  have "returns_in l (cut_test_case_run_teardown P k) v"
    by (rule returns_setup) (use v(2) w1 assms(1,2) in \<open>simp_all add: in_context_def\<close>)
  then obtain v2 where v2: "cut_test_case_run_teardown P k v = (Inr (), v2)" "in_context l v v2"
    by (auto simp: returns_in_def)
  have calls: "user_calls v2 = user_calls v @ optional (case_teardown P k) (Teardown k)"
    using user_option_logs [of "case_teardown P k" "Teardown k" v P] v2(1)
    by (simp add: cut_test_case_run_teardown_def logs_def)
  let ?w' = "cut_test_context_current_pop (update_context c (cut_test_context_set_test None)
       (update_context l (cut_test_context_set_test None) (emit_object P (O_Test i)
         (Sig_Complete_Iterated_Test t l b') (update_context c (cut_test_context_set_failed
           (cut_test_context_is_failed (context_at v2 l))) v2))))"
  have run: "run_test_without_thread P i k t l c b w = (Inr b', ?w')"
    by (simp add: run_test_without_thread_def on Let_def bind_step_def catch v2(1))
  have "in_context l ?w1 v2" by (rule in_context_trans [OF v(2) v2(2)])
  then have kept: "length (contexts v2) = length (contexts w)" "contexts v2 ! c = contexts w ! c"
    "iterated_tests v2 = iterated_tests w" "fatal_failures (run_state v2) = fatal_failures (run_state w)"
    using c w1 by (auto simp: in_context_def)
  have k: "test_kept c w ?w'"
    using c kept by (simp add: test_kept_def cut_test_context_current_pop_def update_context_def
        cut_test_context_set_test_def cut_test_context_set_failed_def)
  have calls': "user_calls ?w' = user_calls w @ iterated_piece P k (t, ok)"
    by (simp add: cut_test_context_current_pop_def update_context_def calls v(3) w1 iterated_piece_def)
  show thesis by (rule that [OF run k calls' v(4,5)])
qed

lemma thread_support_runs:
  assumes "calm_program P" "\<not> fatal_failures (run_state w)"
    and body: "test_body P t w = Some f" and c: "c < length (contexts w)"
    and on: "\<not> cut_run_context_is_canceled (run_state w)"
  obtains b' ok w' where "run_test_with_thread_support P i k t c b w = (Inr b', w')" "test_kept c w w'"
    "user_calls w' = user_calls w @ iterated_piece P k (t, ok)"
    "b' \<longrightarrow> b \<and> ok" "case_setup P k = None \<longrightarrow> ok"
proof -
  let ?l = "length (contexts w)"
  let ?w2 = "update_context c (cut_test_context_set_test (Some t)) (new_context (local_context P i k t c w) w)"
  have w2: "test_kept c w ?w2" "user_calls ?w2 = user_calls w" "run_state ?w2 = run_state w"
    "iterated_tests ?w2 = iterated_tests w" "length (contexts ?w2) = ?l + 1"
    using c by (simp_all add: test_kept_def update_context_def new_context_def nth_append cut_test_context_set_test_def)
  have "\<not> fatal_failures (run_state ?w2)" "test_body P t ?w2 = Some f" "c < length (contexts ?w2)"
    "?l \<noteq> c" "\<not> cut_run_context_is_canceled (run_state ?w2)"
    using assms w2 by (simp_all add: test_body_def)
  moreover have "\<not> tc_failed (context_at ?w2 ?l)"
    using c by (simp add: context_at_def new_context_def update_context_def)
  ultimately obtain b' ok w' where r: "run_test_without_thread P i k t ?l c b ?w2 = (Inr b', w')"
    "test_kept c ?w2 w'" "user_calls w' = user_calls ?w2 @ iterated_piece P k (t, ok)"
    "b' \<longrightarrow> b \<and> ok" "case_setup P k = None \<longrightarrow> ok"
    using without_thread_runs [OF assms(1), of ?w2 t f ?l c] by metis
  show thesis
    by (rule that [of b' w' ok])
       (use r on test_kept_trans [OF w2(1) r(2)] w2(2) in \<open>simp_all add: run_test_with_thread_support_def Let_def\<close>)
qed

section \<open>The loop over the tests\<close>

lemma canceled_filtered:
  "cut_run_context_is_canceled (run_state w) \<Longrightarrow> run_filtered_tests P i k c ts b w = (Inr b, w)"
  by (induction ts) (simp_all add: run_test_with_thread_support_def bind_step_def)

lemma filtered_runs:
  assumes "calm_program P" "\<not> fatal_failures (run_state w)" "c < length (contexts w)"
    and "\<forall>t\<in>set ts. test_body P t w \<noteq> None"
  obtains b' oks w' where "run_filtered_tests P i k c ts b w = (Inr b', w')" "test_kept c w w'"
    "length oks = length ts"
    "\<not> cut_run_context_is_canceled (run_state w') \<longrightarrow>
       user_calls w' = user_calls w @ concat (map (iterated_piece P k) (zip ts oks)) \<and>
       (b' \<longrightarrow> b \<and> (\<forall>ok\<in>set oks. ok))"
    "case_setup P k = None \<longrightarrow> (\<forall>ok\<in>set oks. ok)"
  using assms(2-)
proof (induction ts arbitrary: b w thesis)
  case Nil
  show ?case by (rule Nil(1) [of b w "[]"]) (simp_all add: test_kept_def)
next
  case (Cons t ts)
  show ?case
  proof (cases "cut_run_context_is_canceled (run_state w)")
    case True
    then show ?thesis
      by (intro Cons.prems(1) [of b w "replicate (Suc (length ts)) True"])
        (simp_all add: canceled_filtered del: run_filtered_tests.simps, simp add: test_kept_def)
  next
    case False
    from Cons.prems(4) obtain f where f: "test_body P t w = Some f" by auto
    from thread_support_runs [OF assms(1) Cons.prems(2) f Cons.prems(3) False] obtain b1 ok v where
      1: "run_test_with_thread_support P i k t c b w = (Inr b1, v)" "test_kept c w v"
        "user_calls v = user_calls w @ iterated_piece P k (t, ok)"
        "b1 \<longrightarrow> b \<and> ok" "case_setup P k = None \<longrightarrow> ok" .
    have "\<not> fatal_failures (run_state v)" "c < length (contexts v)" "\<forall>t\<in>set ts. test_body P t v \<noteq> None"
      using Cons.prems(2-4) 1(2) by (auto simp: test_kept_def test_body_def)
    from Cons.IH [OF _ this] obtain b' oks w' where
      2: "run_filtered_tests P i k c ts b1 v = (Inr b', w')" "test_kept c v w'" "length oks = length ts"
        "\<not> cut_run_context_is_canceled (run_state w') \<longrightarrow>
           user_calls w' = user_calls v @ concat (map (iterated_piece P k) (zip ts oks)) \<and>
           (b' \<longrightarrow> b1 \<and> (\<forall>ok\<in>set oks. ok))"
        "case_setup P k = None \<longrightarrow> (\<forall>ok\<in>set oks. ok)" by blast
    show ?thesis
      by (rule Cons.prems(1) [of b' w' "ok # oks"])
         (use 1 2 test_kept_trans [OF 1(2) 2(2)] in \<open>auto simp: bind_step_def\<close>)
  qed
qed

section \<open>The loop over the data\<close>

lemma shifted_data:
  "data_ok q \<Longrightarrow> data_ok ((cut_test_context_shift_data ^^ n) q) \<and>
   waiting_data ((cut_test_context_shift_data ^^ n) q) = drop n (waiting_data q)"
proof (induction n arbitrary: q)
  case (Suc n)
  show ?case
    using Suc.IH [OF context_data.shift_ok [OF Suc.prems]]
    by (simp add: funpow_swap1 context_data.shift_tl [OF Suc.prems] drop_Suc)
qed simp

lemma filter_children_same:
  "iterated_tests w' = iterated_tests w \<Longrightarrow>
   cut_test_container_filter_children P ts names w' = cut_test_container_filter_children P ts names w"
  by (simp add: cut_test_container_filter_children_def cut_test_get_name_def cut_test_get_full_name_def
      Let_def split: option.split)

lemma filter_children_subset:
  "set (cut_test_container_filter_children P ts names w) \<subseteq> set ts"
  by (auto simp: cut_test_container_filter_children_def Let_def split: option.splits if_splits)

end
