(* ===== verification/Run_Properties.thy ===== *)
theory Run_Properties
  imports Run_Data
begin

text \<open>
  The properties of a whole run, with the example programs that the witnesses run.
\<close>

section \<open>Example programs\<close>

text \<open>One test case, test 4 an iterator over two data, every other test a plain test; all of them
  run the same body.\<close>

definition sample_program ::
  "object_id list \<Rightarrow> user_function \<Rightarrow> user_function option \<Rightarrow> user_function option \<Rightarrow> test_program" where
  "sample_program tests body set_up tear_down =
     \<lparr>suite_id = 1, suite_warmup = None, suite_cooldown = None, suite_cases = [2],
      case_startup = (\<lambda>_. None), case_shutdown = (\<lambda>_. None), case_setup = (\<lambda>_. set_up),
      case_teardown = (\<lambda>_. tear_down), case_tests = (\<lambda>_. tests),
      is_iterator = (\<lambda>t. t = 4), test_function = (\<lambda>_. Some body),
      data_setup_function = (\<lambda>_. Some (\<lambda>_. ([Add_Data
         [cut_test_data_new (Some [97]) (Some 8), cut_test_data_new (Some [98]) (Some 9)]], Returns))),
      iterated_test_function = (\<lambda>_. Some (\<lambda>d. body)),
      multi_thread_attribute = (\<lambda>_. None), test_name = (\<lambda>t. Some [t]),
      target_test_case_names = None, target_test_names = None, regex_escape = (\<lambda>s. s),
      regex_new = (\<lambda>p. Some (\<lambda>s. [94] @ s @ [36] = p)), test_elapsed = (\<lambda>_. 0), crash_entries = []\<rparr>"

definition passing :: user_function where
  "passing w = ([Pass], Returns)"

definition failing :: user_function where
  "failing w = ([Set_Result FAILURE None, Process_Result], Long_Jumps)"

definition crashing :: user_function where
  "crashing w = ([], Raises SIGSEGV)"

abbreviation sample_world :: test_world where
  "sample_world \<equiv> initial_world cut_run_context_init 10"

definition passed_run :: "(stop + bool) \<times> test_world" where
  "passed_run = runner_run (sample_program [3] passing None None) sample_world"

lemma passed_run_facts:
  "fst passed_run = Inr True \<and> length (run_signals (snd passed_run)) < 100 \<and>
   canceled (run_state (snd passed_run)) = False"
proof -
  have "(case passed_run of (r, w) \<Rightarrow> r = Inr True \<and> length (run_signals w) < 100 \<and>
    canceled (run_state w) = False)"
    by code_simp
  then show ?thesis by (simp add: split_def)
qed

lemma passed_run: "runner_run (sample_program [3] passing None None) sample_world = (Inr True, snd passed_run)"
  using passed_run_facts by (simp add: passed_run_def prod_eq_iff)

lemma sample_unused: "unused cut_run_context_init"
  by code_simp

section \<open>The verdict\<close>

text \<open>C2: A run that returns begins with its start signal and ends with its completion. The
  results it keeps are exactly those of the emitted signals, in order, its status is the worst of
  their statuses, and it is reported as successful only if none of them is pending or worse.\<close>

theorem run_verdict:
  assumes run: "runner_run P (initial_world rc n) = (Inr success, w)"
    and rc: "unused rc" and small: "length (run_signals w) < 4294967296"
  shows "(\<exists>sigs. run_signals w = Start_Run # sigs @ [Complete_Run success]) \<and>
    cut_run_context_get_results (run_state w) = map snd (registered_all (run_signals w)) \<and>
    cut_run_context_get_status (run_state w) = worst (statuses (run_signals w)) \<and>
    (success \<longrightarrow> (\<forall>s\<in>set (statuses (run_signals w)). s < PENDING))"
proof -
  have rec: "recorded (initial_world rc n) w"
    using recorded.layers.runner [of "initial_world rc n" P] run by simp
  obtain ok v where v: "cut_test_runner_run_test_suite P (emit_run P Start_Run (initial_world rc n)) = (Inr ok, v)"
    and w: "w = emit_run P (Complete_Run success) v"
    and b: "success \<longleftrightarrow> ok \<and> \<not> cut_test_result_status_is_critical (cut_run_context_get_status (run_state v))"
    using runner_result [OF run] .
  have "recorded (emit_run P Start_Run (initial_world rc n)) v"
    using recorded.trans [OF recorded.layers.suite_connected recorded.layers.suite] v
    by (simp add: cut_test_runner_run_test_suite_def ) (metis snd_conv)
  then obtain sigs where "run_signals v = [Start_Run] @ sigs"
    unfolding recorded_def by (auto simp: emit_run_def initial_world_def)
  then have shape: "run_signals w = Start_Run # sigs @ [Complete_Run success]"
    by (simp add: w emit_run_def)
  have st: "cut_run_context_get_status (run_state w) = worst (statuses (run_signals w)) \<and>
      cut_run_context_get_results (run_state w) = map snd (registered_all (run_signals w))"
    using recorded_unused [OF rec] rc small by (simp add: initial_world_def)
  have "cut_run_context_get_status (run_state w) = cut_run_context_get_status (run_state v)"
    by (simp add: w emit_run_def complete_run_def cut_run_context_get_status_def)
  moreover have "cut_test_result_status_is_critical s \<longleftrightarrow> \<not> s < PENDING" for s
    by (cases s) (simp_all add: cut_test_result_status_is_critical_def less_test_status_def)
  moreover have "s \<in> set (statuses (run_signals w)) \<Longrightarrow> s \<le> worst (statuses (run_signals w))" for s
    unfolding worst_def by (rule Max_ge) auto
  ultimately show ?thesis
    using shape st b by (metis le_less_trans)
qed

theorem run_verdict_witness:
  "cut_run_context_get_status (run_state (snd passed_run)) = worst (statuses (run_signals (snd passed_run)))"
  using run_verdict [OF passed_run sample_unused] passed_run_facts by simp

text \<open>C3: No failure is lost: when a run that was not cancelled is reported as successful,
  no test context that it made, of a test case, a test or an iterated test, is marked failed,
  for user functions that process the results they set.\<close>

theorem no_failure_lost:
  assumes run: "runner_run P (initial_world rc n) = (Inr True, w)"
    and rc: "unused rc" and small: "length (run_signals w) < 4294967296"
    and P: "settled_program P" and not_canceled: "\<not> canceled (run_state w)"
  shows "\<forall>tc \<in> set (contexts w). \<not> cut_test_context_is_failed tc"
proof -
  let ?w0 = "emit_run P Start_Run (initial_world rc n)"
  let ?w1 = "connect_to_test_suite (suite_id P) ?w0"
  obtain ok v where v: "cut_test_runner_run_test_suite P ?w0 = (Inr ok, v)"
    and w: "w = emit_run P (Complete_Run True) v"
    and ok: "ok \<and> \<not> cut_test_result_status_is_critical (cut_run_context_get_status (run_state v))"
    using runner_result [OF run] by blast
  have "cut_test_suite_run P ?w1 = (Inr True, v)"
    using v ok by (simp add: cut_test_runner_run_test_suite_def)
  then have "none_failed v \<or> critical_reported v \<or> canceled (run_state v)"
    by (rule suite_accounts [OF _ P])
       (simp_all add: connect_to_test_suite_def initial_world_def suite_wired_def connect_def suite_kinds_def)
  moreover have "\<not> canceled (run_state v)" using not_canceled by (simp add: w)
  moreover have "\<not> critical_reported v"
  proof -
    have "recorded (initial_world rc n) w"
      using recorded.layers.runner [of "initial_world rc n" P] run by simp
    then have "cut_run_context_get_status (run_state w) = worst (statuses (run_signals w))"
      using recorded_unused rc small by (simp add: initial_world_def)
    moreover have "cut_run_context_get_status (run_state w) = cut_run_context_get_status (run_state v)"
      "statuses (run_signals w) = statuses (run_signals v)"
      by (simp_all add: w emit_run_def complete_run_def cut_run_context_get_status_def)
    ultimately show ?thesis
      using ok worst_critical [of "statuses (run_signals v)"]
      by (auto simp: critical_reported_def cut_test_result_status_is_critical_def)
  qed
  ultimately show ?thesis by (simp add: w none_failed_def cut_test_context_is_failed_def)
qed

theorem no_failure_lost_witness:
  "filter cut_test_context_is_failed (contexts (snd passed_run)) = []"
proof -
  have "settled_program (sample_program [3] passing None None)"
    by (simp add: settled_program_def settled_option_def settled_function_def sample_program_def passing_def)
  then show ?thesis
    using no_failure_lost [OF passed_run sample_unused] passed_run_facts by (simp add: filter_empty_conv)
qed

section \<open>The order of the user functions\<close>

text \<open>C11: Running a plain test calls the set-up of the test case, the test unless the set-up failed
  or omitted it, and the tear-down in any case, each at most once and in this order; after a failed
  set-up the test is not successful.\<close>

theorem set_up_and_tear_down:
  assumes run: "run_test P k t c w = (Inr success, w')" and t: "\<not> is_iterator P t"
  defines "v \<equiv> snd (cut_test_case_run_setup P k (emit_object P (O_Case k) (Sig_Start_Test t c) w))"
  shows "user_calls w' = user_calls w @ optional (case_setup P k) (Setup k) @
      (if cut_test_context_need_test_run (context_at v c) then optional (test_body P t v) (Test_Body t)
       else []) @
      optional (case_teardown P k) (Teardown k) \<and>
    (cut_test_context_is_failed (context_at v c) \<longrightarrow> \<not> success)"
proof -
  let ?w1 = "emit_object P (O_Case k) (Sig_Start_Test t c) w"
  obtain v2 v3 s where up: "cut_test_case_run_setup P k ?w1 = (Inr (), v)"
    and need: "run_if_needed P t c v = (Inr success, v2)"
    and down: "cut_test_case_run_teardown P k v2 = (Inr (), v3)" "w' = emit_object P (O_Case k) s v3"
    using run t by (auto simp: run_test_def bind_Inr_iff v_def)
  have 1: "user_calls v = user_calls w @ optional (case_setup P k) (Setup k)"
    using user_option_logs [of "case_setup P k" "Setup k" ?w1 P] up
    by (simp add: cut_test_case_run_setup_def logs_def)
  have 3: "user_calls w' = user_calls v2 @ optional (case_teardown P k) (Teardown k)"
    using user_option_logs [of "case_teardown P k" "Teardown k" v2 P] down
    by (simp add: cut_test_case_run_teardown_def logs_def)
  have 2: "user_calls v2 = user_calls v @ (if cut_test_context_need_test_run (context_at v c)
      then optional (test_body P t v) (Test_Body t) else [])"
    using need t plain_test_logs [of P t v c]
    by (auto simp: run_if_needed_def cut_test_run_def cut_test_context_need_test_run_def logs_def split: if_splits)
  show ?thesis
    using 1 2 3 need by (auto simp: run_if_needed_def)
qed

definition failing_case :: "test_world" where
  "failing_case = update_context 0 (cut_test_context_set_test (Some 3))
     (cut_test_context_current_push 0 (new_context (cut_test_context_new (Some 1) (Some 2) None None) sample_world))"

lemma failing_set_up_run:
  "run_test (sample_program [3] passing (Some failing) (Some passing)) 2 3 0 failing_case =
     (Inr False, snd (run_test (sample_program [3] passing (Some failing) (Some passing)) 2 3 0 failing_case))"
  "cut_test_context_is_failed (context_at (snd (cut_test_case_run_setup (sample_program [3] passing (Some failing) (Some passing)) 2
     (emit_object (sample_program [3] passing (Some failing) (Some passing)) (O_Case 2) (Sig_Start_Test 3 0) failing_case))) 0)"
proof -
  have "fst (run_test (sample_program [3] passing (Some failing) (Some passing)) 2 3 0 failing_case) = Inr False"
    by code_simp
  then show "run_test (sample_program [3] passing (Some failing) (Some passing)) 2 3 0 failing_case =
     (Inr False, snd (run_test (sample_program [3] passing (Some failing) (Some passing)) 2 3 0 failing_case))"
    by (simp add: prod_eq_iff)
qed code_simp

theorem set_up_and_tear_down_witness:
  "user_calls (snd (run_test (sample_program [3] passing (Some failing) (Some passing)) 2 3 0 failing_case)) = [Setup 2, Teardown 2]"
  using set_up_and_tear_down [OF failing_set_up_run(1)] failing_set_up_run(2)
  by (simp add: sample_program_def optional_def failing_case_def initial_world_def
      cut_test_context_need_test_run_def update_context_def new_context_def cut_test_context_current_push_def)

section \<open>Iterated tests\<close>

text \<open>The state after the iterated tests are created, before they run.\<close>

abbreviation all_created :: "object_id \<Rightarrow> object_id \<Rightarrow> nat \<Rightarrow> test_world \<Rightarrow> test_world" where
  "all_created i c cell w \<equiv> fold (create_iterated_test i cell) (iterated_data (context_at w c)) w"

lemma created_tests:
  "next_object (fold (create_iterated_test i cell) ds w) = next_object w + length ds \<and>
   iterator_children (fold (create_iterated_test i cell) ds w) i =
     iterator_children w i @ created_ids w (length ds) \<and>
   contexts (fold (create_iterated_test i cell) ds w) = contexts w \<and>
   user_calls (fold (create_iterated_test i cell) ds w) = user_calls w \<and>
   (\<forall>t < next_object w. iterated_tests (fold (create_iterated_test i cell) ds w) t = iterated_tests w t) \<and>
   (\<forall>j < length ds. iterated_tests (fold (create_iterated_test i cell) ds w) (next_object w + j) =
      Some \<lparr>it_iterator = i, it_data = ds ! j\<rparr>)"
proof (induction ds arbitrary: w)
  case (Cons d ds)
  let ?v = "create_iterated_test i cell d w"
  have v: "next_object ?v = next_object w + 1" "iterator_children ?v i = iterator_children w i @ [next_object w]"
    "contexts ?v = contexts w" "user_calls ?v = user_calls w"
    "iterated_tests ?v = (iterated_tests w)(next_object w := Some \<lparr>it_iterator = i, it_data = d\<rparr>)"
    by (simp_all add: create_iterated_test_def Let_def connect_def)
  have "next_object w # created_ids ?v (length ds) = created_ids w (Suc (length ds))"
    by (simp add: created_ids_def v(1) upt_conv_Cons [of "next_object w"] del: upt_Suc)
  moreover have "iterated_tests (fold (create_iterated_test i cell) ds ?v) (next_object w + j) =
      Some \<lparr>it_iterator = i, it_data = (d # ds) ! j\<rparr>" if "j < Suc (length ds)" for j
    using Cons.IH [of ?v] that v(1,5) by (cases j) auto
  ultimately show ?case using Cons.IH [of ?v] v by simp
qed (simp add: created_ids_def)

lemma forgotten_calls [simp]: "user_calls (fold (forget_iterated_test cell) ts w) = user_calls w"
proof (induction ts arbitrary: w)
  case (Cons t ts)
  have "user_calls (forget_iterated_test cell t w) = user_calls w"
    by (simp add: forget_iterated_test_def cut_iterated_test_clear_data_def)
  then show ?case using Cons.IH [of "forget_iterated_test cell t w"] by simp
qed simp

lemma forgotten_state [simp]: "run_state (fold (forget_iterated_test cell) ts w) = run_state w"
proof (induction ts arbitrary: w)
  case (Cons t ts)
  have "run_state (forget_iterated_test cell t w) = run_state w"
    by (simp add: forget_iterated_test_def cut_iterated_test_clear_data_def)
  then show ?case using Cons.IH [of "forget_iterated_test cell t w"] by simp
qed simp


definition data_world :: test_world where
  "data_world = update_context 0 (cut_test_context_add_data
     [cut_test_data_new (Some [97]) (Some 8), cut_test_data_new (Some [98]) (Some 9)])
     (new_cell (cut_test_context_current_push 0
       (new_context (cut_test_context_new (Some 1) (Some 2) (Some 4) None) sample_world)))"

definition data_program :: test_program where
  "data_program = sample_program [4] passing (Some passing) (Some passing)"

lemma data_program_calm: "calm_program data_program"
  by (simp add: data_program_def calm_program_def sample_program_def calm_function_def passing_def)

lemma data_world_facts:
  "\<not> fatal_failures (run_state data_world)" "length (contexts data_world) = 1"
  "next_object data_world = 10" "user_calls data_world = []" "iterator_children data_world 4 = []"
  "tc_current_data (context_at data_world 0) = Some 0"
  "tc_data_list (context_at data_world 0) =
     [cut_test_data_new (Some [98]) (Some 9), cut_test_data_new (Some [97]) (Some 8)]"
  by code_simp+

lemma data_run_not_canceled:
  "\<not> cut_run_context_is_canceled (run_state (snd (run_iterated_tests data_program 4 2 0 0 data_world)))"
  by code_simp

lemma data_run_succeeds: "fst (run_iterated_tests data_program 4 2 0 0 data_world) = Inr True"
  by code_simp


section \<open>Cancelled runs\<close>

text \<open>C37: In a run whose context is already cancelled (or has crashed), no function of a test case
  and no test is called: at most the warm-up and the cool-down of the suite.\<close>

theorem canceled_run_calls_no_test:
  assumes run: "runner_run P w = (Inr b, w')" and on: "cut_run_context_is_canceled (run_state w)"
  shows "user_calls w' \<in> {user_calls w,
    user_calls w @ optional (suite_warmup P) Warmup @ optional (suite_cooldown P) Cooldown}"
proof -
  let ?w1 = "connect_to_test_suite (suite_id P) (emit_run P Start_Run w)"
  obtain ok v where "cut_test_runner_run_test_suite P (emit_run P Start_Run w) = (Inr ok, v)"
    and w': "w' = emit_run P (Complete_Run b) v"
    using runner_result [OF run] .
  then have suite: "cut_test_suite_run P ?w1 = (Inr ok, v)"
    by (simp add: cut_test_runner_run_test_suite_def)
  have calls: "user_calls ?w1 = user_calls w" "user_calls w' = user_calls v"
    by (simp_all add: connect_to_test_suite_def w')
  have "stopping w ?w1"
    unfolding connect_to_test_suite_def
    by (rule stopping.layers.trans [OF stopping.layers.emitted stopping.connected])
  then have on1: "cut_run_context_is_canceled (run_state ?w1)" using on by (simp add: stopping_def)
  have "v = ?w1 \<or> (\<exists>ks names. cut_test_suite_run_test_cases P ks names ?w1 = (Inr ok, v))"
    using suite by (auto simp: cut_test_suite_run_def cut_test_suite_run_with_filter_def Let_def split: if_splits)
  moreover {
    fix ks names assume "cut_test_suite_run_test_cases P ks names ?w1 = (Inr ok, v)"
    then obtain ks' u u2 where
      body: "catch_signal (handle_signals (run_state ?w1)) (suite_body P names ks') (suite_signaled P)
         (?w1\<lparr>suite_success := True\<rparr>) = (Inr ok, u)"
      and down: "run_user_option P Cooldown (suite_cooldown P) u = (Inr (), u2)"
      and v: "user_calls v = user_calls u2"
      by (auto simp: cut_test_suite_run_test_cases_def Let_def bind_Inr_iff)
    have "logs (optional (suite_warmup P) Warmup) (?w1\<lparr>suite_success := True\<rparr>) u"
      by (rule canceled_suite_body [OF body]) (use on1 in simp)
    moreover have "logs (optional (suite_cooldown P) Cooldown) u u2"
      using user_option_logs [of "suite_cooldown P" Cooldown u P] down by simp
    ultimately have "user_calls v = user_calls w @ optional (suite_warmup P) Warmup @
        optional (suite_cooldown P) Cooldown"
      using v calls by (simp add: logs_def) }
  ultimately show ?thesis using calls by auto
qed

definition canceled_context :: run_context where
  "canceled_context = cut_run_context_cancel cut_run_context_init"

definition canceled_run :: "(stop + bool) \<times> test_world" where
  "canceled_run = runner_run (sample_program [3] failing None None) (initial_world canceled_context 10)"

lemma canceled_run_facts:
  "fst canceled_run = Inr True" "cut_run_context_is_canceled canceled_context"
  by code_simp+

theorem canceled_run_calls_no_test_witness:
  "user_calls (snd canceled_run) = []"
proof -
  have "runner_run (sample_program [3] failing None None) (initial_world canceled_context 10) =
      (Inr True, snd canceled_run)"
    using canceled_run_facts(1) by (simp add: canceled_run_def prod_eq_iff)
  from canceled_run_calls_no_test [OF this] show ?thesis
    using canceled_run_facts(2) by (simp add: initial_world_def sample_program_def optional_def)
qed

section \<open>The message of the next assertion\<close>

text \<open>A message that is asked to be kept n times survives the first n - 1 assertions and not the
  n-th: asking once changes nothing, the message is gone after the next assertion as without it.\<close>

theorem message_kept:
  assumes "tc_keep_count c = 0" "tc_user_message c = Some s" "n < 4294967296"
  shows "tc_user_message ((clear_user_message ^^ m) ((cut_test_context_keep_user_message ^^ n) c)) =
    (if m = 0 \<or> m < n then Some s else None)"
proof -
  have keep: "tc_keep_count ((cut_test_context_keep_user_message ^^ n) c) = n \<and>
      tc_user_message ((cut_test_context_keep_user_message ^^ n) c) = Some s"
    using assms(3) by (induction n)
      (simp_all add: assms(1,2) cut_test_context_keep_user_message_def guint_def)
  have "tc_keep_count ((clear_user_message ^^ m) d) = tc_keep_count d - m \<and>
      tc_user_message ((clear_user_message ^^ m) d) =
        (if m = 0 \<or> m < tc_keep_count d then tc_user_message d else None)" for d
    by (induction m) (auto simp: clear_user_message_def Let_def)
  then show ?thesis using keep by simp
qed

theorem message_kept_witness:
  "tc_user_message ((clear_user_message ^^ 1) ((cut_test_context_keep_user_message ^^ 1)
     (cut_test_context_set_user_message (Some [104]) cut_test_context_init))) = None"
  using message_kept [of "cut_test_context_set_user_message (Some [104]) cut_test_context_init" "[104]" 1 1]
  by (simp add: cut_test_context_set_user_message_def cut_test_context_init_def clear_user_message_def)

section \<open>Crashes\<close>

text \<open>When the set-up of an iterated test raises a signal, the recovery itself crashes: the flag
  of the iterator is read through a NULL pointer after the crash was reported, so a second signal is
  raised while the first is marked as received, which the next handler answers with exit.\<close>

theorem iterated_set_up_crash:
  assumes "case_setup P k = Some f" "\<And>v. f v = ([], Raises s)" "s \<noteq> SIGINT" "case_teardown P k = None"
    and "\<not> cut_run_context_is_canceled (run_state w)" "crash_handler_installed w" "\<not> signal_received w"
  shows "fst (run_test_without_thread P i k t c parent b w) = Inl (Signaled SIGSEGV) \<and>
    signal_received (snd (run_test_without_thread P i k t c parent b w)) \<and>
    fst (catch_signal True (run_test_without_thread P i k t c parent b) h w) = Inl Process_Exit"
proof -
  let ?w1 = "cut_test_context_current_push c w"
  obtain v where v: "iterated_body P i k t c b ?w1 = (Inl (Signaled s), v)" "\<not> signal_received v"
    using assms(1,2,7)
    by (simp add: iterated_body_def bind_step_def cut_test_case_run_setup_def run_user_option_def
        run_user_function_def cut_test_context_current_push_def)
  obtain u where u: "iterated_signaled P i k t c b s (v\<lparr>signal_received := True\<rparr>) = (Inr None, u)"
    "signal_received u"
    using assms(3)
    by (cases s) (auto simp: iterated_signaled_def cut_crash_backtrace_emit_def cut_test_emit_result_signal_def
        split: option.splits emit_target.splits)
  have "crash_handler_installed ?w1"
    using assms(6) by (simp add: crash_handler_installed_def cut_test_context_current_push_def)
  then have "run_test_without_thread P i k t c parent b w = (Inl (Signaled SIGSEGV),
      update_context parent (cut_test_context_set_failed (cut_test_context_is_failed (context_at u c))) u)"
    using assms(4,5) v u
    by (simp add: run_test_without_thread_def Let_def bind_step_def catch_signal_def
        cut_test_case_run_teardown_def run_user_option_def)
  then show ?thesis using u(2) by (simp add: catch_signal_def update_context_def)
qed

theorem iterated_set_up_crash_witness:
  "fst (run_test_without_thread (sample_program [4] passing (Some crashing) None) 4 2 10 0 0 True data_world) =
     Inl (Signaled SIGSEGV)"
proof -
  have "\<not> cut_run_context_is_canceled (run_state data_world)" "crash_handler_installed data_world"
    "\<not> signal_received data_world"
    by code_simp+
  then show ?thesis
    using iterated_set_up_crash [of "sample_program [4] passing (Some crashing) None" 2 crashing SIGSEGV data_world]
    by (simp add: sample_program_def crashing_def)
qed

definition relayed_world :: test_world where
  "relayed_world = connect_to_test_iterator 4 (cut_test_context_current_push 0
     (new_context (cut_test_context_new (Some 1) (Some 2) None (Some 4)) sample_world))"

definition reported_statuses :: "test_world \<Rightarrow> (test_status \<times> bool) list" where
  "reported_statuses w = List.map_filter
     (\<lambda>sig. case sig of Status_Test s t c r \<Rightarrow> Some (s, False) | Status_Test_Iterator s i r \<Rightarrow> Some (s, True)
        | _ \<Rightarrow> None) (run_signals w)"

text \<open>An iterated test that crashes is not counted by its iterator: the iterator reports
  success as its result, after the crash of the test was reported.\<close>

theorem crashed_iterated_test_succeeds:
  "reported_statuses (snd (run_iterator (sample_program [4] crashing None None) 4 0 relayed_world)) =
     [(CRASH, False), (SUCCESS, True)]"
  by code_simp

section \<open>A second run\<close>

definition twice_run :: "nat \<times> nat" where
  "twice_run =
     (let P = (sample_program [3] passing None None)\<lparr>case_startup := (\<lambda>_. Some failing)\<rparr>;
          w1 = snd (runner_run P sample_world);
          w2 = snd (runner_run P w1)
      in (length (filter (\<lambda>s. s = FAILURE) (statuses (run_signals w1))),
          length (filter (\<lambda>s. s = FAILURE) (statuses (run_signals w2)))))"

text \<open>The signals of a test case as a whole stay connected after it completes: a failing start-up
  is registered once in the first run and twice in the second run of the same runner.\<close>

theorem second_run_counts_twice: "twice_run = (1, 3)"
  by code_simp

end
