(* ===== verification/Assertion_Properties.thy ===== *)
theory Assertion_Properties
  imports Assertion_Runs Assertion_Texts Run_Properties
begin

text \<open>
  Properties of assertions: the first failure ends a test and is the one that is reported, and a failed
  equality shows two different texts.
\<close>

section \<open>Helpers\<close>

definition shows_difference :: "assertion \<Rightarrow> bool" where
  "shows_difference a \<longleftrightarrow>
     (case a of Passed \<Rightarrow> True | Failed None m \<Rightarrow> False | Failed (Some (e, x)) m \<Rightarrow> e \<noteq> x)"

definition decides :: "assertion \<Rightarrow> bool \<Rightarrow> bool" where
  "decides a same \<longleftrightarrow> (a = Passed \<longleftrightarrow> same) \<and> shows_difference a"

lemma decides_equality: "(expected = actual \<Longrightarrow> same) \<Longrightarrow> decides (equality same expected actual e a) same"
  by (auto simp: decides_def equality_def shows_difference_def)

text \<open>The fields of the result of a failed assertion.\<close>

lemma setter_fields:
  "result_system_message (cut_test_result_set_actual x r) = result_system_message r"
  "result_system_message (cut_test_result_set_expected x r) = result_system_message r"
  "result_system_message (cut_test_result_set_user_message x r) = result_system_message r"
  "result_backtrace (cut_test_result_set_actual x r) = result_backtrace r"
  "result_backtrace (cut_test_result_set_expected x r) = result_backtrace r"
  "result_backtrace (cut_test_result_set_user_message x r) = result_backtrace r"
  "result_expected (cut_test_result_set_actual x r) = result_expected r"
  "result_expected (cut_test_result_set_user_message x r) = result_expected r"
  "result_actual (cut_test_result_set_user_message x r) = result_actual r"
  "result_expected (cut_test_result_set_expected x r) = x"
  "result_actual (cut_test_result_set_actual x r) = x"
  "result_backtrace (cut_test_result_new s t i k q d u m b) = b"
  "result_system_message (cut_test_result_new s t i k q d u m b) = nonempty_string m"
  by (simp_all add: cut_test_result_set_actual_def cut_test_result_set_expected_def reset_message_def
      cut_test_result_set_user_message_def reset_diff_def cut_test_result_new_def
      cut_test_result_set_system_message_def Let_def)

lemma failure_result_fields:
  "result_system_message (failure_result place shown m u c) = nonempty_string (Some m)"
  "result_backtrace (failure_result place shown m u c) = place # tc_backtrace c"
  "result_expected (failure_result place (Some (e, a)) m u c) = Some e"
  "result_actual (failure_result place (Some (e, a)) m u c) = Some a"
  by (cases u; simp add: failure_result_def Let_def setter_fields)+

text \<open>The long jump out of a failed assertion leaves its place on the backtrace, so that a failure in the
  tear-down function shows the place of the test too.\<close>

lemma tear_down_shows_place_of_test:
  "result_backtrace (failure_result q shown m u (after_failure p c)) = q # p # tc_backtrace c"
  by (simp add: failure_result_fields after_failure_def)

lemma null_arrays_fail:
  "\<exists>t m. cut_assert_equal_string_array_helper None None e a = Failed (Some (t, t)) m"
  by (simp add: cut_assert_equal_string_array_helper_def equality_def)

section \<open>Tests of assertions\<close>

text \<open>C12: A test that consists of assertions stops at the first that fails: the assertions before it
  are counted, it is reported as one failure with its message, its texts and its place, nothing behind it
  runs, and the test succeeds exactly if every assertion passes.\<close>

theorem first_failed_assertion_decides:
  assumes "assertion_ready t c w" "\<not> tc_failed (context_at w c)"
  shows "invoke_test P t c (\<lambda>_. function_of (map line_statement ls)) w =
    (let w1 = emit_object P (O_Test t) (Sig_Start (Some c)) w
     in (Inr (list_all line_passes ls),
         assertions_effect P t c ls (w1\<lparr>user_calls := user_calls w1 @ [Test_Body t]\<rparr>)))"
proof -
  define w1 where "w1 = emit_object P (O_Test t) (Sig_Start (Some c)) w"
  have "assertion_ready t c w1" using assms(1) by (simp add: w1_def ready_emit)
  moreover have "c < length (contexts w1)" "\<not> tc_failed (context_at w1 c)"
    using assms by (simp_all add: w1_def assertion_ready_def)
  ultimately show ?thesis
    using assertions_failed [of c "w1\<lparr>user_calls := user_calls w1 @ [Test_Body t]\<rparr>" P t ls]
    by (simp add: invoke_test_def bind_step_def function_of_lines cut_test_context_is_failed_def
        w1_def [symmetric] context_at_def)
qed

definition example_place :: "nat \<Rightarrow> backtrace_entry" where
  "example_place n = \<lparr>entry_file = Some (ascii ''t.c''), entry_line = n, entry_function = None, entry_info = None\<rparr>"

definition example_lines :: "assertion_line list" where
  "example_lines =
     [(example_place 7, cut_assert_equal_int_helper 3 3 (ascii ''3'') (ascii ''n''), None),
      (example_place 8, cut_assert_equal_string_helper (Some (ascii ''a'')) None (ascii ''s'') (ascii ''t''), Some (ascii ''why'')),
      (example_place 9, cut_assert_true_helper True (ascii ''b''), None)]"

definition example_program :: test_program where
  "example_program = sample_program [3] passing None None"

definition example_world :: test_world where
  "example_world = connect_to_test 3 failing_case"

definition example_effect :: test_world where
  "example_effect =
     (let w1 = emit_object example_program (O_Test 3) (Sig_Start (Some 0)) example_world
      in assertions_effect example_program 3 0 example_lines (w1\<lparr>user_calls := user_calls w1 @ [Test_Body 3]\<rparr>))"

lemma example_evaluated:
  "assertion_ready 3 0 example_world" "\<not> tc_failed (context_at example_world 0)"
  "\<not> list_all line_passes example_lines"
  "n_assertions (run_state example_effect) = 1 \<and> n_failures (run_state example_effect) = 1 \<and>
   map result_user_message (run_results (run_state example_effect)) = [Some (ascii ''why'')]"
  by code_simp+

theorem first_failed_assertion_decides_witness:
  "fst (invoke_test example_program 3 0 (\<lambda>_. function_of (map line_statement example_lines)) example_world) = Inr False \<and>
   n_failures (run_state (snd (invoke_test example_program 3 0
     (\<lambda>_. function_of (map line_statement example_lines)) example_world))) = 1"
  using first_failed_assertion_decides [OF example_evaluated(1,2), of example_program example_lines] example_evaluated(3,4)
  by (simp add: Let_def example_effect_def)

text \<open>C19: An equality assertion passes exactly if the values are equal, and if it fails, the expected
  and the actual text that it shows differ: for truth values, integers of every width, characters,
  strings, prefixes of strings and arrays of strings.\<close>

theorem failed_equality_shows_difference:
  "decides (cut_assert_equal_boolean_helper b1 b2 e a) (b1 \<noteq> 0 \<longleftrightarrow> b2 \<noteq> 0) \<and>
   decides (equal_signed (x :: 'a::len word) y e a) (x = y) \<and>
   decides (equal_unsigned (x :: 'a::len word) y e a) (x = y) \<and>
   decides (cut_assert_equal_int_helper i j e a) (i = j) \<and>
   decides (cut_assert_equal_size_helper i j e a) (i = j) \<and>
   decides (cut_assert_equal_char_helper c d e a) (c = d) \<and>
   decides (cut_assert_equal_string_helper s t e a) (s = t) \<and>
   decides (cut_assert_equal_substring_helper s t n e a l)
     (map_option (take n) s = map_option (take n) t) \<and>
   decides (cut_assert_equal_string_array_helper (Some ss) (Some ts) e a) (ss = ts)"
proof (intro conjI)
  show "decides (cut_assert_equal_boolean_helper b1 b2 e a) (b1 \<noteq> 0 \<longleftrightarrow> b2 \<noteq> 0)"
    by (auto simp: cut_assert_equal_boolean_helper_def boolean_text_def decides_def equality_def
        shows_difference_def ascii_def)
  show signed: "decides (equal_signed (x :: 'b::len word) y e a) (x = y)" for x y
    unfolding equal_signed_def by (rule decides_equality) (auto simp: signed_decimal_inj intro: signed_word_eqI)
  show unsigned: "decides (equal_unsigned (x :: 'b::len word) y e a) (x = y)" for x y
    unfolding equal_unsigned_def by (rule decides_equality) (simp add: decimal_inj word_eq_iff_unsigned [where 'a = nat])
  show "decides (cut_assert_equal_int_helper i j e a) (i = j)"
    unfolding cut_assert_equal_int_helper_def
    unfolding equal_signed_def by (rule decides_equality) (auto simp: signed_decimal_inj intro: signed_word_eqI)
  show "decides (cut_assert_equal_size_helper i j e a) (i = j)"
    unfolding cut_assert_equal_size_helper_def
    unfolding equal_unsigned_def by (rule decides_equality) (simp add: decimal_inj word_eq_iff_unsigned [where 'a = nat])
  show "decides (cut_assert_equal_char_helper c d e a) (c = d)"
    unfolding cut_assert_equal_char_helper_def by (rule decides_equality) (simp add: inspect_char_inj)
  show "decides (cut_assert_equal_string_helper s t e a) (s = t)"
    using decides_equality [of "cut_utils_inspect_string s" "cut_utils_inspect_string t" "s = t"]
    by (cases s) (auto simp: cut_assert_equal_string_helper_def inspect_string_inj equal_string_iff eq_commute)
  show "decides (cut_assert_equal_substring_helper s t n e a l)
     (map_option (take n) s = map_option (take n) t)"
    by (cases s; cases t) (auto simp: cut_assert_equal_substring_helper_def inspect_string_inj
        cut_utils_equal_substring_def decides_def equality_def shows_difference_def min_def)
  show "decides (cut_assert_equal_string_array_helper (Some ss) (Some ts) e a) (ss = ts)"
    using decides_equality [of "cut_utils_inspect_string_array (Some ss)" "cut_utils_inspect_string_array (Some ts)" "ss = ts"]
    by (simp add: cut_assert_equal_string_array_helper_def inspect_string_array_inj equal_string_array_iff)
qed

text \<open>C39: The equality of memory passes exactly if the bytes are equal. If it fails, the shown
  texts differ only if the sizes differ or one of the first 1024 bytes: a difference behind them is
  reported with two equal texts.\<close>

theorem memory_difference_behind_1024_hidden:
  assumes "byte_list (memory_bytes m)" "byte_list (memory_bytes n)" "memory_bytes m \<noteq> memory_bytes n"
  shows "\<exists>x y message.
    cut_assert_equal_memory_helper m n e e_size a a_size = Failed (Some (x, y)) message \<and>
    (x = y \<longleftrightarrow> memory_size m = memory_size n \<and> take 1024 (memory_bytes m) = take 1024 (memory_bytes n))"
  using assms by (simp add: cut_assert_equal_memory_helper_def equality_def memory_text_iff)

definition example_memory :: "nat \<Rightarrow> nat list option" where
  "example_memory b = Some (replicate 1024 0 @ [b])"

lemma example_memory_facts:
  "byte_list (memory_bytes (example_memory 1))" "byte_list (memory_bytes (example_memory 2))"
  "memory_bytes (example_memory 1) \<noteq> memory_bytes (example_memory 2)"
  "memory_size (example_memory 1) = memory_size (example_memory 2)"
  "take 1024 (memory_bytes (example_memory 1)) = take 1024 (memory_bytes (example_memory 2))"
  by (simp_all add: example_memory_def byte_list_def memory_bytes_def memory_size_def)

theorem memory_difference_behind_1024_hidden_witness:
  "\<exists>x message. cut_assert_equal_memory_helper (example_memory 1) (example_memory 2) [] [] [] [] = Failed (Some (x, x)) message"
  using memory_difference_behind_1024_hidden [OF example_memory_facts(1-3), of "[]" "[]" "[]" "[]"] example_memory_facts(4,5)
  by auto

end
