(* ===== verification/Symbol_Names.thy ===== *)
theory Symbol_Names
  imports C_Strings
begin

text \<open>
  The names of the functions of a module (\<open>cutter/cut-loader.c\<close>): which symbols are tests,
  where their data and attribute functions are looked for, and the mangled names of C++ functions for
  gcc and for Visual C++. Symbols are bytes without NUL. A length that leads beyond the end of a
  symbol makes the C code read beyond it, which is \<open>Out_Of_Bounds\<close> here.
\<close>

record symbol_names =
  sn_namespace :: "ustring option"
  sn_test_name :: ustring
  sn_test_function_name :: ustring
  sn_data_setup_function_name :: "ustring option"
  sn_attributes_setup_function_name :: "ustring option"
  sn_require_data_setup_function :: bool
  sn_cpp :: bool
  sn_gcc :: bool

definition TEST_NAME_PREFIX :: ustring where
  "TEST_NAME_PREFIX = ascii ''test_''"

definition DATA_SETUP_FUNCTION_NAME_PREFIX :: ustring where
  "DATA_SETUP_FUNCTION_NAME_PREFIX = ascii ''data_''"

definition ATTRIBUTES_SETUP_FUNCTION_NAME_PREFIX :: ustring where
  "ATTRIBUTES_SETUP_FUNCTION_NAME_PREFIX = ascii ''attributes_''"

section \<open>Names mangled by gcc\<close>

text \<open>The loop over the namespaces: what is left of the name, or NULL, and the namespaces so far.\<close>

function skip_namespaces :: "ustring \<Rightarrow> ustring \<Rightarrow> (ustring option \<times> ustring) reading" where
  "skip_namespaces name namespaces =
     (case g_ascii_strtoull name of
        (n, start) \<Rightarrow>
          if n = 0 then Inr (None, namespaces)
          else if length start < n then Inl Out_Of_Bounds
          else if drop n start = [] \<or> \<not> is_digit (hd (drop n start)) then Inr (Some name, namespaces)
          else skip_namespaces (drop n start) (namespaces @ take n start @ ascii ''::''))"
  by auto
termination
  by (relation "measure (length \<circ> fst)") (auto dest!: strtoull_shorter [OF sym])

declare skip_namespaces.simps [simp del]

definition skip_cpp_namespace_gcc :: "ustring \<Rightarrow> (ustring option \<times> ustring) reading" where
  "skip_cpp_namespace_gcc name =
     (if has_prefix (ascii ''_Z'') name then
        (case drop 2 name of
           [] \<Rightarrow> Inr (None, [])
         | c # r \<Rightarrow> if c \<noteq> 78 then Inr (Some (c # r), []) else skip_namespaces r [])
      else Inr (None, []))"

text \<open>The start of the name of the function, its length and the namespaces.\<close>

definition find_cpp_test_name_gcc :: "ustring \<Rightarrow> (ustring \<times> nat \<times> ustring) option reading" where
  "find_cpp_test_name_gcc name =
     bind_reading (skip_cpp_namespace_gcc name)
       (\<lambda>found. case found of
          (None, namespaces) \<Rightarrow> Inr None
        | (Some rest, namespaces) \<Rightarrow>
            (case g_ascii_strtoull rest of
               (n, start) \<Rightarrow>
                 if n = 0 then Inr None
                 else if has_prefix TEST_NAME_PREFIX start then Inr (Some (start, n, namespaces))
                 else Inr None))"

text \<open>The length that is passed for the part before the test name is negative, so that
  the name of the attribute function begins with the whole symbol.\<close>

definition detect_cpp_test_function_symbol_names_gcc :: "ustring \<Rightarrow> symbol_names option reading" where
  "detect_cpp_test_function_symbol_names_gcc original =
     bind_reading (find_cpp_test_name_gcc original)
       (\<lambda>found. case found of
          None \<Rightarrow> Inr None
        | Some (start, n, namespaces) \<Rightarrow>
            if length start < n then Inl Out_Of_Bounds
            else
              (let signature = drop n start;
                   preceding = int (length original) - int (length start);
                   with_data = signature \<in> {ascii ''EPv'', ascii ''EPKv''}
               in if signature \<noteq> ascii ''Ev'' \<and> \<not> with_data then Inr None
                  else
                    bind_reading (bytes_from original preceding)
                      (\<lambda>head. bind_reading (bytes_from (drop 5 start) (int n - 5))
                        (\<lambda>name. bind_reading (bytes_from original (- preceding))
                          (\<lambda>attributes_head.
                             Inr (Some \<lparr>sn_namespace = Some (take (length namespaces - 2) namespaces),
                                sn_test_name = namespaces @ take n start,
                                sn_test_function_name = original,
                                sn_data_setup_function_name =
                                  (if with_data then Some (head @ DATA_SETUP_FUNCTION_NAME_PREFIX @ name @ ascii ''Ev'')
                                   else None),
                                sn_attributes_setup_function_name =
                                  Some (attributes_head @ ATTRIBUTES_SETUP_FUNCTION_NAME_PREFIX @ name @ ascii ''Ev''),
                                sn_require_data_setup_function = with_data,
                                sn_cpp = True, sn_gcc = True\<rparr>))))))"

definition is_gcc_cpp_symbol :: "ustring \<Rightarrow> bool" where
  "is_gcc_cpp_symbol name \<longleftrightarrow> has_prefix (ascii ''_Z'') name"

section \<open>Names mangled by Visual C++\<close>

text \<open>The part before the next at sign, or all.\<close>

definition before_at :: "ustring \<Rightarrow> ustring" where
  "before_at s = takeWhile (\<lambda>c. c \<noteq> 64) s"

text \<open>The loop over the namespaces, which prepends each to the test name: what is left after the
  two at signs at the end and the qualified name.\<close>

function prepend_namespaces :: "ustring \<Rightarrow> ustring \<Rightarrow> (ustring \<times> ustring) option" where
  "prepend_namespaces name test_name =
     (case name of
        [] \<Rightarrow> Some ([], test_name)
      | c # namespace \<Rightarrow>
          if c \<noteq> 64 then None
          else if namespace \<noteq> [] \<and> hd namespace = 64 then Some (tl namespace, test_name)
          else prepend_namespaces (drop (length (before_at namespace)) namespace)
                 (before_at namespace @ ascii ''::'' @ test_name))"
  by auto
termination
  by (relation "measure (length \<circ> fst)") auto

declare prepend_namespaces.simps [simp del]

definition detect_cpp_test_function_symbol_names_vcc :: "ustring \<Rightarrow> symbol_names option reading" where
  "detect_cpp_test_function_symbol_names_vcc original =
     (let start = tl original; n = length (before_at start)
      in if \<not> has_prefix TEST_NAME_PREFIX start \<or> drop n start = [] then Inr None
         else
           (case prepend_namespaces (drop n start) (take n start) of
              None \<Rightarrow> Inr None
            | Some (signature, test_name) \<Rightarrow>
                (let with_data = signature \<in> {ascii ''YAXPAX@Z'', ascii ''YAXPBX@Z''};
                     preceding = int (length original) - int (length start);
                     n_name = int (length start) - int (length signature)
                 in if signature \<noteq> ascii ''YAXXZ'' \<and> \<not> with_data then Inr None
                    else
                      bind_reading (bytes_from original (- preceding))
                        (\<lambda>head. bind_reading (bytes_from (drop 5 start) (n_name + 5))
                          (\<lambda>name.
                             Inr (Some \<lparr>sn_namespace =
                                  Some (case g_strrstr test_name (ascii ''::'') of
                                          None \<Rightarrow> []
                                        | Some last_separator \<Rightarrow>
                                            take (length test_name - length last_separator) test_name),
                                sn_test_name = test_name,
                                sn_test_function_name = original,
                                sn_data_setup_function_name =
                                  (if with_data then Some (head @ DATA_SETUP_FUNCTION_NAME_PREFIX @ name @ ascii ''YAXXZ'')
                                   else None),
                                sn_attributes_setup_function_name =
                                  Some (head @ ATTRIBUTES_SETUP_FUNCTION_NAME_PREFIX @ name @ ascii ''YAXXZ''),
                                sn_require_data_setup_function = with_data,
                                sn_cpp = True, sn_gcc = False\<rparr>))))))"

definition is_vcc_cpp_symbol :: "ustring \<Rightarrow> bool" where
  "is_vcc_cpp_symbol name \<longleftrightarrow> has_prefix (ascii ''?'') name"

section \<open>Test functions\<close>

definition detect_cpp_test_function_symbol_names :: "ustring \<Rightarrow> symbol_names option reading" where
  "detect_cpp_test_function_symbol_names name =
     (if is_gcc_cpp_symbol name then detect_cpp_test_function_symbol_names_gcc name
      else if is_vcc_cpp_symbol name then detect_cpp_test_function_symbol_names_vcc name
      else Inr None)"

definition c_symbol_names :: "ustring \<Rightarrow> symbol_names" where
  "c_symbol_names name =
     \<lparr>sn_namespace = None, sn_test_name = name, sn_test_function_name = name,
      sn_data_setup_function_name = Some (DATA_SETUP_FUNCTION_NAME_PREFIX @ drop 5 name),
      sn_attributes_setup_function_name = Some (ATTRIBUTES_SETUP_FUNCTION_NAME_PREFIX @ drop 5 name),
      sn_require_data_setup_function = False, sn_cpp = False, sn_gcc = False\<rparr>"

definition detect_test_function_symbol_names :: "ustring \<Rightarrow> symbol_names option reading" where
  "detect_test_function_symbol_names name =
     (if has_prefix TEST_NAME_PREFIX name then Inr (Some (c_symbol_names name))
      else detect_cpp_test_function_symbol_names name)"

text \<open>The list of the tests is in the reverse order of the symbols.\<close>

primrec collect_names :: "ustring list \<Rightarrow> symbol_names list \<Rightarrow> symbol_names list reading" where
  "collect_names [] test_names = Inr test_names"
| "collect_names (s # ss) test_names =
     bind_reading (detect_test_function_symbol_names s)
       (\<lambda>names. collect_names ss (case names of None \<Rightarrow> test_names | Some x \<Rightarrow> x # test_names))"

definition collect_test_functions :: "ustring list \<Rightarrow> symbol_names list reading" where
  "collect_test_functions symbols = collect_names symbols []"

section \<open>Mangling\<close>

definition mangled_component :: "ustring \<Rightarrow> ustring" where
  "mangled_component c = decimal (length c) @ c"

definition mangle_gcc :: "ustring option \<Rightarrow> ustring \<Rightarrow> ustring" where
  "mangle_gcc namespace f =
     (case namespace of
        None \<Rightarrow> f
      | Some ns \<Rightarrow> ascii ''_ZN'' @ concat (map mangled_component (g_strsplit ns (ascii ''::''))) @
                    mangled_component f @ ascii ''Ev'')"

definition mangle_vcc :: "ustring option \<Rightarrow> ustring \<Rightarrow> ustring" where
  "mangle_vcc namespace f =
     (case namespace of
        None \<Rightarrow> f
      | Some ns \<Rightarrow> ascii ''?'' @ f @ ascii ''@'' @
                    concat (map (\<lambda>c. c @ ascii ''@'') (rev (g_strsplit ns (ascii ''::'')))) @ ascii ''@YAXXZ'')"

definition mangle :: "ustring option \<Rightarrow> ustring \<Rightarrow> bool \<Rightarrow> ustring" where
  "mangle namespace f gcc =
     (case namespace of
        None \<Rightarrow> f
      | Some _ \<Rightarrow> if gcc then mangle_gcc namespace f else mangle_vcc namespace f)"

end
