(* ===== verification/Loader.thy ===== *)
theory Loader
  imports Symbol_Names "HOL-Library.AList"
begin

text \<open>
  The loader (\<open>cutter/cut-loader.c\<close>): from the symbols of a module to its test cases. The
  module itself is the record \<open>module_env\<close>: what \<open>g_module_symbol\<close> finds under a
  name, the attributes that an attribute set-up function sets on the current test, and the value that
  an attribute function returns. Functions are values of \<open>'f\<close>.
\<close>

section \<open>Data\<close>

record 'f module_env =
  module_symbol :: "ustring \<Rightarrow> 'f option"
  attributes_set :: "'f \<Rightarrow> (ustring \<times> ustring) list"
  attribute_value :: "'f \<Rightarrow> ustring"

text \<open>A test, or an iterator if it has a data set-up function; a test case, with the mark of the one
  for the functions of C.\<close>

record 'f loaded_test =
  lt_name :: ustring
  lt_function :: 'f
  lt_data_setup :: "'f option"
  lt_base_directory :: "ustring option"
  lt_attributes :: "(ustring \<times> ustring) list"

record 'f loaded_case =
  lc_name :: ustring
  lc_setup :: "'f option"
  lc_teardown :: "'f option"
  lc_startup :: "'f option"
  lc_shutdown :: "'f option"
  lc_base_directory :: "ustring option"
  lc_is_c :: bool
  lc_tests :: "'f loaded_test list"

text \<open>The symbols are those of the loader for the format of the module.\<close>

record 'f loader =
  so_filename :: "ustring option"
  symbols :: "ustring list"
  support_attribute :: bool
  keep_opening :: bool
  enable_convenience_attribute_definition :: bool
  base_directory :: "ustring option"
  create_test_function :: "(ustring \<Rightarrow> 'f \<Rightarrow> 'f loaded_test) option"
  create_test_iterator_function :: "(ustring \<Rightarrow> 'f \<Rightarrow> 'f \<Rightarrow> 'f loaded_test) option"

definition cut_loader_new :: "ustring option \<Rightarrow> 'f loader" where
  "cut_loader_new soname =
     \<lparr>so_filename = soname, symbols = [], support_attribute = False, keep_opening = False,
      enable_convenience_attribute_definition = False, base_directory = None,
      create_test_function = None, create_test_iterator_function = None\<rparr>"

definition cut_loader_support_attribute :: "'f loader \<Rightarrow> bool" where
  "cut_loader_support_attribute L \<longleftrightarrow> enable_convenience_attribute_definition L \<and> support_attribute L"

section \<open>Attribute functions\<close>

definition is_including_test_name :: "ustring \<Rightarrow> symbol_names \<Rightarrow> bool reading" where
  "is_including_test_name function_name names =
     (let suffix = ascii ''_'' @ drop 5 (sn_test_name names)
      in if sn_cpp names then
           bind_reading (skip_cpp_namespace_gcc function_name)
             (\<lambda>target. case target of
                (None, _) \<Rightarrow> Inr False
              | (Some rest, target_namespace) \<Rightarrow>
                  bind_reading (skip_cpp_namespace_gcc (sn_test_function_name names))
                    (\<lambda>(_, test_namespace).
                       if target_namespace \<noteq> test_namespace then Inr False
                       else (case g_ascii_strtoull rest of
                               (n, base_name) \<Rightarrow>
                                 Inr (n \<noteq> 0 \<and> has_suffix base_name (suffix @ ascii ''Ev'')))))
         else Inr (has_suffix function_name suffix))"

definition attribute_base_name :: "ustring \<Rightarrow> bool" where
  "attribute_base_name base_name \<longleftrightarrow>
     \<not> has_prefix TEST_NAME_PREFIX base_name \<and> \<not> has_prefix ATTRIBUTES_SETUP_FUNCTION_NAME_PREFIX base_name \<and>
     \<not> has_prefix DATA_SETUP_FUNCTION_NAME_PREFIX base_name"

definition is_valid_attribute_function_name :: "ustring \<Rightarrow> symbol_names \<Rightarrow> bool reading" where
  "is_valid_attribute_function_name function_name names =
     (if sn_cpp names then
        bind_reading (find_cpp_test_name_gcc function_name)
          (\<lambda>found. case found of
             None \<Rightarrow> Inr False
           | Some (base_name, _, _) \<Rightarrow>
               if attribute_base_name base_name then is_including_test_name function_name names else Inr False)
      else if attribute_base_name function_name then is_including_test_name function_name names
      else Inr False)"

text \<open>The name is what stands before the underscore and the name of the test. With a NULL pointer,
  or with a position before the start, memory is read or written that is not the string's.\<close>

definition get_attribute_name :: "ustring \<Rightarrow> symbol_names \<Rightarrow> ustring reading" where
  "get_attribute_name function_name names =
     bind_reading
       (if sn_cpp names then
          bind_reading (skip_cpp_namespace_gcc function_name)
            (\<lambda>(rest, _). case rest of None \<Rightarrow> Inl Out_Of_Bounds | Some r \<Rightarrow> Inr (snd (g_ascii_strtoull r)))
        else Inr function_name)
       (\<lambda>base_name.
          case g_strrstr base_name (drop 5 (sn_test_name names)) of
            None \<Rightarrow> Inl Out_Of_Bounds
          | Some r \<Rightarrow>
              if length r = length base_name then Inl Out_Of_Bounds
              else Inr (take (length base_name - length r - 1) base_name))"

definition set_attribute :: "ustring \<Rightarrow> ustring \<Rightarrow> 'f loaded_test \<Rightarrow> 'f loaded_test" where
  "set_attribute name v t = t\<lparr>lt_attributes := AList.update name v (lt_attributes t)\<rparr>"

primrec apply_attributes ::
  "'f module_env \<Rightarrow> symbol_names \<Rightarrow> ustring list \<Rightarrow> 'f loaded_test \<Rightarrow> 'f loaded_test reading" where
  "apply_attributes E names [] t = Inr t"
| "apply_attributes E names (s # ss) t =
     bind_reading (is_valid_attribute_function_name s names)
       (\<lambda>valid. case (if valid then module_symbol E s else None) of
          None \<Rightarrow> apply_attributes E names ss t
        | Some f \<Rightarrow>
            bind_reading (get_attribute_name s names)
              (\<lambda>name. apply_attributes E names ss (set_attribute name (attribute_value E f) t)))"

section \<open>Tests\<close>

definition create_test :: "'f loader \<Rightarrow> ustring \<Rightarrow> 'f \<Rightarrow> 'f loaded_test" where
  "create_test L name f =
     (case create_test_function L of
        Some create \<Rightarrow> create name f
      | None \<Rightarrow> \<lparr>lt_name = name, lt_function = f, lt_data_setup = None, lt_base_directory = None,
                  lt_attributes = []\<rparr>)"

definition create_test_iterator :: "'f loader \<Rightarrow> ustring \<Rightarrow> 'f \<Rightarrow> 'f \<Rightarrow> 'f loaded_test" where
  "create_test_iterator L name f data_setup =
     (case create_test_iterator_function L of
        Some create \<Rightarrow> create name f data_setup
      | None \<Rightarrow> \<lparr>lt_name = name, lt_function = f, lt_data_setup = Some data_setup, lt_base_directory = None,
                  lt_attributes = []\<rparr>)"

definition optional_symbol :: "'f module_env \<Rightarrow> ustring option \<Rightarrow> 'f option" where
  "optional_symbol E name = Option.bind name (module_symbol E)"

text \<open>The test that is added to the test case, if any. The attribute set-up function runs with the
  test as the current one.\<close>

definition register_valid_test ::
  "'f module_env \<Rightarrow> 'f loader \<Rightarrow> symbol_names \<Rightarrow> 'f loaded_test option reading" where
  "register_valid_test E L names =
     (case module_symbol E (sn_test_function_name names) of
        None \<Rightarrow> Inr None
      | Some f \<Rightarrow>
          (let data_setup = optional_symbol E (sn_data_setup_function_name names);
               attributes_setup = optional_symbol E (sn_attributes_setup_function_name names)
           in if sn_require_data_setup_function names \<and> data_setup = None then Inr None
              else
                (let t = (case data_setup of
                            Some d \<Rightarrow> create_test_iterator L (sn_test_name names) f d
                          | None \<Rightarrow> create_test L (sn_test_name names) f);
                     t1 = t\<lparr>lt_base_directory := base_directory L\<rparr>;
                     t2 = (case attributes_setup of
                             None \<Rightarrow> t1
                           | Some a \<Rightarrow> fold (\<lambda>kv. set_attribute (fst kv) (snd kv)) (attributes_set E a) t1)
                 in if cut_loader_support_attribute L
                    then map_sum id Some (apply_attributes E names (symbols L) t2)
                    else Inr (Some t2))))"

section \<open>Test cases\<close>

text \<open>A hook under the name with the prefix, else under the plain name.\<close>

definition hook_function :: "'f module_env \<Rightarrow> ustring option \<Rightarrow> bool \<Rightarrow> string \<Rightarrow> 'f option" where
  "hook_function E namespace gcc name =
     (case module_symbol E (mangle namespace (ascii ''cut_'' @ ascii name) gcc) of
        Some f \<Rightarrow> Some f
      | None \<Rightarrow> module_symbol E (mangle namespace (ascii name) gcc))"

definition G_MODULE_SUFFIX :: ustring where
  "G_MODULE_SUFFIX = ascii ''so''"

text \<open>The length that is passed to \<open>g_strndup\<close> is unsigned: for a name shorter than the suffix it
  wraps, and the copy leaves its memory.\<close>

definition without_module_suffix :: "ustring \<Rightarrow> ustring reading" where
  "without_module_suffix name =
     (let n = length G_MODULE_SUFFIX + 1
      in if length name < n then Inl Out_Of_Bounds else Inr (take (length name - n) name))"

definition module_case_name :: "ustring \<Rightarrow> ustring reading" where
  "module_case_name filename =
     (let base = g_path_get_basename filename
      in without_module_suffix (if has_prefix (ascii ''lib'') base then drop 3 base else base))"

definition new_test_case ::
  "'f module_env \<Rightarrow> 'f loader \<Rightarrow> ustring \<Rightarrow> ustring option \<Rightarrow> bool \<Rightarrow> 'f loaded_case" where
  "new_test_case E L name namespace gcc =
     \<lparr>lc_name = name,
      lc_setup = hook_function E namespace gcc ''setup'',
      lc_teardown = hook_function E namespace gcc ''teardown'',
      lc_startup = (if namespace \<noteq> None then hook_function E namespace gcc ''startup''
                    else module_symbol E (mangle namespace (ascii ''cut_startup'') gcc)),
      lc_shutdown = (if namespace \<noteq> None then hook_function E namespace gcc ''shutdown''
                     else module_symbol E (mangle namespace (ascii ''cut_shutdown'') gcc)),
      lc_base_directory = base_directory L, lc_is_c = (namespace = None), lc_tests = []\<rparr>"

definition create_test_case ::
  "'f module_env \<Rightarrow> 'f loader \<Rightarrow> ustring \<Rightarrow> ustring option \<Rightarrow> bool \<Rightarrow> 'f loaded_case reading" where
  "create_test_case E L filename namespace gcc =
     map_sum id (\<lambda>name. new_test_case E L name namespace gcc)
       (case namespace of Some ns \<Rightarrow> Inr ns | None \<Rightarrow> module_case_name filename)"

definition cut_test_case_add_test :: "'f loaded_test option \<Rightarrow> 'f loaded_case \<Rightarrow> 'f loaded_case" where
  "cut_test_case_add_test t c =
     (case t of None \<Rightarrow> c | Some x \<Rightarrow> c\<lparr>lc_tests := lc_tests c @ [x]\<rparr>)"

primrec change_first :: "('a \<Rightarrow> bool) \<Rightarrow> ('a \<Rightarrow> 'a) \<Rightarrow> 'a list \<Rightarrow> 'a list" where
  "change_first P f [] = []"
| "change_first P f (x # xs) = (if P x then f x # xs else x # change_first P f xs)"

text \<open>The test case of a name: that of its namespace, by the name of the test case, or that of C.\<close>

definition case_of_names :: "symbol_names \<Rightarrow> 'f loaded_case \<Rightarrow> bool" where
  "case_of_names names c =
     (case sn_namespace names of Some ns \<Rightarrow> lc_name c = ns | None \<Rightarrow> lc_is_c c)"

definition load_test ::
  "'f module_env \<Rightarrow> 'f loader \<Rightarrow> ustring \<Rightarrow> symbol_names \<Rightarrow> 'f loaded_case list \<Rightarrow> 'f loaded_case list reading" where
  "load_test E L filename names test_cases =
     bind_reading
       (if list_ex (case_of_names names) test_cases then Inr test_cases
        else map_sum id (\<lambda>c. c # test_cases)
               (create_test_case E L filename (sn_namespace names) (sn_namespace names \<noteq> None \<and> sn_gcc names)))
       (\<lambda>cases1. map_sum id (\<lambda>t. change_first (case_of_names names) (cut_test_case_add_test t) cases1)
                   (register_valid_test E L names))"

primrec load_tests ::
  "'f module_env \<Rightarrow> 'f loader \<Rightarrow> ustring \<Rightarrow> symbol_names list \<Rightarrow> 'f loaded_case list \<Rightarrow> 'f loaded_case list reading" where
  "load_tests E L filename [] test_cases = Inr test_cases"
| "load_tests E L filename (names # rest) test_cases =
     bind_reading (load_test E L filename names test_cases) (load_tests E L filename rest)"

text \<open>NULL is the empty list. The module is what was opened, if it could be.\<close>

definition cut_loader_load_test_cases :: "'f module_env option \<Rightarrow> 'f loader \<Rightarrow> 'f loaded_case list reading" where
  "cut_loader_load_test_cases opened L =
     (case (so_filename L, opened) of
        (Some filename, Some E) \<Rightarrow>
          bind_reading (collect_test_functions (symbols L)) (\<lambda>names. load_tests E L filename names [])
      | _ \<Rightarrow> Inr [])"

definition cut_loader_load_test_case :: "'f module_env option \<Rightarrow> 'f loader \<Rightarrow> 'f loaded_case option reading" where
  "cut_loader_load_test_case opened L =
     map_sum id (\<lambda>cs. case cs of [] \<Rightarrow> None | c # _ \<Rightarrow> Some c) (cut_loader_load_test_cases opened L)"

section \<open>Test suites\<close>

definition TEST_SUITE_SO_NAME_PREFIX :: ustring where
  "TEST_SUITE_SO_NAME_PREFIX = ascii ''suite''"

definition get_suite_prefix :: "ustring \<Rightarrow> ustring reading" where
  "get_suite_prefix filename =
     (let base = g_path_get_basename filename
      in map_sum id (map (\<lambda>c. if c = 45 then 95 else c))
           (without_module_suffix
              (if has_prefix (TEST_SUITE_SO_NAME_PREFIX @ ascii ''_'') base \<or>
                  has_prefix (TEST_SUITE_SO_NAME_PREFIX @ ascii ''-'') base
               then drop 6 base else base)))"

record 'f loaded_suite =
  ls_warmup :: "'f option"
  ls_cooldown :: "'f option"
  ls_base_directory :: "ustring option"
  ls_cases :: "'f loaded_case list"

definition cut_loader_load_test_suite :: "'f module_env option \<Rightarrow> 'f loader \<Rightarrow> 'f loaded_suite option reading" where
  "cut_loader_load_test_suite opened L =
     (case (so_filename L, opened) of
        (Some filename, Some E) \<Rightarrow>
          map_sum id
            (\<lambda>prefix.
               Some \<lparr>ls_warmup = module_symbol E (prefix @ ascii ''_'' @ ascii ''warmup''),
                     ls_cooldown = module_symbol E (prefix @ ascii ''_'' @ ascii ''cooldown''),
                     ls_base_directory = base_directory L, ls_cases = []\<rparr>)
            (get_suite_prefix filename)
      | _ \<Rightarrow> Inr None)"

end
