(* ===== verification/Binary_Reading.thy ===== *)
theory Binary_Reading
  imports C_Strings
begin

text \<open>
  Reading a module as the loaders for ELF and for Mach-O do: numbers, strings and fields at an offset of
  the bytes of a file, on a little-endian machine. The memory is the content that
  \<open>g_file_get_contents\<close> returns with its NUL; the loaders do not check that an offset lies in
  it, so reading can end in \<open>Out_Of_Bounds\<close>. The second part writes numbers, for the images of
  modules that the round trips start from.
\<close>

section \<open>Bytes\<close>

primrec le_value :: "nat list \<Rightarrow> nat" where
  "le_value [] = 0"
| "le_value (b # bs) = b + 256 * le_value bs"

definition read_uint :: "nat list \<Rightarrow> nat \<Rightarrow> nat \<Rightarrow> nat reading" where
  "read_uint m offset width =
     (if offset + width \<le> length m then Inr (le_value (take width (drop offset m))) else Inl Out_Of_Bounds)"

text \<open>\<open>g_str_equal\<close> with a constant reads up to the first difference.\<close>

fun same_string :: "nat list \<Rightarrow> ustring \<Rightarrow> bool reading" where
  "same_string [] s = Inl Out_Of_Bounds"
| "same_string (b # m) [] = Inr (b = 0)"
| "same_string (b # m) (c # s) = (if b = c then same_string m s else Inr False)"

definition read_string :: "nat list \<Rightarrow> nat \<Rightarrow> ustring reading" where
  "read_string m offset =
     (if 0 \<in> set (drop offset m) then Inr (takeWhile (\<lambda>b. b \<noteq> 0) (drop offset m)) else Inl Out_Of_Bounds)"

section \<open>Fields\<close>

datatype architecture_bit = ARCHITECTURE_32BIT | ARCHITECTURE_64BIT

text \<open>A field is its offset and its width.\<close>

definition read_field :: "nat list \<Rightarrow> nat \<Rightarrow> nat \<times> nat \<Rightarrow> nat reading" where
  "read_field m base f = read_uint m (base + fst f) (snd f)"

definition gsize :: "nat \<Rightarrow> nat" where
  "gsize n = n mod 18446744073709551616"

section \<open>Writing\<close>

primrec le_bytes :: "nat \<Rightarrow> nat \<Rightarrow> nat list" where
  "le_bytes 0 v = []"
| "le_bytes (Suc k) v = v mod 256 # le_bytes k (v div 256)"

lemma length_le_bytes [simp]: "length (le_bytes k v) = k"
  by (induction k arbitrary: v) simp_all

lemma le_value_bytes: "v < 256 ^ k \<Longrightarrow> le_value (le_bytes k v) = v"
proof (induction k arbitrary: v)
  case (Suc k)
  have "v div 256 < 256 ^ k" using Suc.prems by (simp add: less_mult_imp_div_less mult.commute)
  then show ?case using Suc.IH [of "v div 256"] by simp
qed simp

lemma read_skip: "length x \<le> offset \<Longrightarrow> read_uint (x @ y) offset k = read_uint y (offset - length x) k"
  by (auto simp: read_uint_def)

lemma read_tail: "0 < offset \<Longrightarrow> read_uint (b # y) offset k = read_uint y (offset - 1) k"
  using read_skip [of "[b]" offset y k] by simp

lemma read_here: "v < 256 ^ k \<Longrightarrow> read_uint (le_bytes k v @ y) 0 k = Inr v"
  by (simp add: read_uint_def le_value_bytes)

lemma read_byte: "read_uint (b # y) 0 (Suc 0) = Inr b"
  by (simp add: read_uint_def)

lemmas read_simps = read_skip read_tail read_here read_byte

text \<open>Reading behind a part of known length, and within a part.\<close>

lemma read_behind: "length x = p \<Longrightarrow> read_uint (x @ y) (p + j) k = read_uint y j k"
  by (simp add: read_skip)

lemma read_within: "j + k \<le> length x \<Longrightarrow> read_uint (x @ y) j k = read_uint x j k"
  by (simp add: read_uint_def)

text \<open>Fields behind a part of known length.\<close>

lemma field_behind: "length x = p \<Longrightarrow> read_field (x @ y) (p + j) f = read_field y j f"
  using read_behind [of x p y "j + fst f" "snd f"] by (simp add: read_field_def add.assoc)

lemma field_behind_0: "length x = p \<Longrightarrow> read_field (x @ y) p f = read_field y 0 f"
  using field_behind [of x p y 0 f] by simp

end
