(* ===== verification/Elf_Loader.thy ===== *)
theory Elf_Loader
  imports Binary_Reading
begin

text \<open>
  The loader for ELF (\<open>cutter/cut-elf-loader.c\<close>): the functions that a shared object defines,
  read from the bytes of the file. The layouts are those of \<open>elf.h\<close>.
\<close>

section \<open>Layouts\<close>

record elf_layout =
  e_shoff :: "nat \<times> nat"
  e_shentsize :: "nat \<times> nat"
  e_shnum :: "nat \<times> nat"
  e_shstrndx :: "nat \<times> nat"
  sh_name :: "nat \<times> nat"
  sh_offset :: "nat \<times> nat"
  sh_size :: "nat \<times> nat"
  sh_entsize :: "nat \<times> nat"
  st_name :: "nat \<times> nat"
  st_info :: "nat \<times> nat"
  st_shndx :: "nat \<times> nat"

fun layout :: "architecture_bit \<Rightarrow> elf_layout" where
  "layout ARCHITECTURE_32BIT =
     \<lparr>e_shoff = (32, 4), e_shentsize = (46, 2), e_shnum = (48, 2), e_shstrndx = (50, 2),
      sh_name = (0, 4), sh_offset = (16, 4), sh_size = (20, 4), sh_entsize = (36, 4),
      st_name = (0, 4), st_info = (12, 1), st_shndx = (14, 2)\<rparr>"
| "layout ARCHITECTURE_64BIT =
     \<lparr>e_shoff = (40, 8), e_shentsize = (58, 2), e_shnum = (60, 2), e_shstrndx = (62, 2),
      sh_name = (0, 4), sh_offset = (24, 8), sh_size = (32, 8), sh_entsize = (56, 8),
      st_name = (0, 4), st_info = (4, 1), st_shndx = (6, 2)\<rparr>"

section \<open>Recognition\<close>

definition EI_NIDENT :: nat where
  "EI_NIDENT = 16"

definition ET_DYN :: nat where
  "ET_DYN = 3"

text \<open>The content, if the file could be read, and its architecture if it is a shared object. The type
  is read behind the identification, whose length alone is checked.\<close>

definition cut_elf_loader_is_elf :: "nat list option \<Rightarrow> architecture_bit option reading" where
  "cut_elf_loader_is_elf file =
     (case file of
        None \<Rightarrow> Inr None
      | Some content \<Rightarrow>
          if length content < EI_NIDENT then Inr None
          else
            (case (if take 4 content = [127, 69, 76, 70] then
                     (if content ! 4 = 1 then Some ARCHITECTURE_32BIT
                      else if content ! 4 = 2 then Some ARCHITECTURE_64BIT else None)
                   else None) of
               None \<Rightarrow> Inr None
             | Some arch \<Rightarrow>
                 bind_reading (read_uint (content @ [0]) EI_NIDENT 2)
                   (\<lambda>type. Inr (if type = ET_DYN then Some arch else None))))"

section \<open>Sections\<close>

text \<open>The product of two 16-arch numbers, as an \<open>int\<close>.\<close>

definition int_product :: "nat \<Rightarrow> nat \<Rightarrow> nat reading" where
  "int_product a b = (if a * b < 2147483648 then Inr (a * b) else Inl Int_Overflow)"

text \<open>The offset of the header of the section names is of the width of the file's offsets.\<close>

definition name_header_offset :: "architecture_bit \<Rightarrow> nat \<Rightarrow> nat" where
  "name_header_offset arch n = (case arch of ARCHITECTURE_32BIT \<Rightarrow> guint n | ARCHITECTURE_64BIT \<Rightarrow> gsize n)"

record found_sections =
  dynstr_header :: "nat option"
  dynsym_header :: "nat option"
  text_index :: nat

text \<open>The loop over the section headers: \<open>names\<close> is the offset of the section names.\<close>

primrec find_sections ::
  "nat list \<Rightarrow> architecture_bit \<Rightarrow> nat \<Rightarrow> nat \<Rightarrow> nat \<Rightarrow> nat list \<Rightarrow> found_sections \<Rightarrow> found_sections reading" where
  "find_sections m arch section_offset header_size names [] found = Inr found"
| "find_sections m arch section_offset header_size names (i # is) found =
     bind_reading (int_product header_size i)
       (\<lambda>k. let offset = gsize (section_offset + k)
            in bind_reading (read_field m offset (sh_name (layout arch)))
              (\<lambda>name. let section_name = drop (names + name) m
                      in bind_reading (same_string section_name (ascii ''.dynstr''))
                        (\<lambda>dynstr.
                           if dynstr then
                             find_sections m arch section_offset header_size names is (found\<lparr>dynstr_header := Some offset\<rparr>)
                           else bind_reading (same_string section_name (ascii ''.dynsym''))
                             (\<lambda>dynsym.
                                if dynsym then
                                  find_sections m arch section_offset header_size names is (found\<lparr>dynsym_header := Some offset\<rparr>)
                                else bind_reading (same_string section_name (ascii ''.text''))
                                  (\<lambda>text_section.
                                     find_sections m arch section_offset header_size names is
                                       (if text_section then found\<lparr>text_index := i\<rparr> else found))))))"

record symbol_information =
  symbol_section_offset :: nat
  symbol_entry_size :: nat
  n_entries :: nat
  name_section_offset :: nat
  text_section_header_index :: nat

definition collect_symbol_information ::
  "nat list \<Rightarrow> architecture_bit \<Rightarrow> symbol_information option reading" where
  "collect_symbol_information m arch =
     (let y = layout arch
      in bind_reading (read_field m 0 (e_shoff y)) (\<lambda>section_offset.
         bind_reading (read_field m 0 (e_shentsize y)) (\<lambda>header_size.
         bind_reading (read_field m 0 (e_shnum y)) (\<lambda>n_headers.
         bind_reading (read_field m 0 (e_shstrndx y)) (\<lambda>name_index.
         bind_reading (int_product name_index header_size) (\<lambda>k.
         bind_reading (read_field m (name_header_offset arch (section_offset + k)) (sh_offset y)) (\<lambda>names.
         bind_reading (find_sections m arch section_offset header_size names [0..<n_headers]
                         \<lparr>dynstr_header = None, dynsym_header = None, text_index = 0\<rparr>) (\<lambda>found.
           case (dynsym_header found, dynstr_header found) of
             (Some dynsym, Some dynstr) \<Rightarrow>
               if text_index found = 0 then Inr None
               else
                 bind_reading (read_field m dynsym (sh_offset y)) (\<lambda>symbol_offset.
                 bind_reading (read_field m dynsym (sh_entsize y)) (\<lambda>entry_size.
                 bind_reading (read_field m dynsym (sh_size y)) (\<lambda>size.
                 bind_reading (read_field m dynstr (sh_offset y)) (\<lambda>name_offset.
                   Inr (Some \<lparr>symbol_section_offset = symbol_offset, symbol_entry_size = entry_size,
                              n_entries = (if 0 < entry_size then guint (size div entry_size) else 0),
                              name_section_offset = name_offset,
                              text_section_header_index = text_index found\<rparr>)))))
           | _ \<Rightarrow> Inr None))))))))"

section \<open>Symbols\<close>

definition STT_FUNC :: nat where
  "STT_FUNC = 2"

definition STB_GLOBAL :: nat where
  "STB_GLOBAL = 1"

primrec collect_entries ::
  "nat list \<Rightarrow> architecture_bit \<Rightarrow> symbol_information \<Rightarrow> nat list \<Rightarrow> ustring list \<Rightarrow> ustring list reading" where
  "collect_entries m arch x [] names = Inr names"
| "collect_entries m arch x (i # is) names =
     (let offset = gsize (symbol_section_offset x + gsize (i * symbol_entry_size x)); y = layout arch
      in bind_reading (read_field m offset (st_name y)) (\<lambda>name_index.
         bind_reading (read_field m offset (st_info y)) (\<lambda>info.
         bind_reading (read_field m offset (st_shndx y)) (\<lambda>section_index.
           if info mod 16 = STT_FUNC \<and> info div 16 = STB_GLOBAL \<and>
              section_index = text_section_header_index x
           then bind_reading (read_string m (name_section_offset x + name_index))
                  (\<lambda>name. collect_entries m arch x is (name # names))
           else collect_entries m arch x is names))))"

definition cut_elf_loader_collect_symbols :: "nat list \<Rightarrow> architecture_bit \<Rightarrow> ustring list reading" where
  "cut_elf_loader_collect_symbols content arch =
     bind_reading (collect_symbol_information (content @ [0]) arch)
       (\<lambda>found. case found of
          None \<Rightarrow> Inr []
        | Some x \<Rightarrow> collect_entries (content @ [0]) arch x [0..<n_entries x] [])"

definition cut_elf_loader_support_attribute :: bool where
  "cut_elf_loader_support_attribute = True"

end
