(* ===== verification/Mach_O_Loader.thy ===== *)
theory Mach_O_Loader
  imports Binary_Reading
begin

unbundle bit_operations_syntax

text \<open>
  The loader for Mach-O (\<open>cutter/cut-mach-o-loader.c\<close>, compiled where \<open>mach-o/loader.h\<close> is):
  the functions that a bundle defines, read from the load commands. The layouts are those of
  \<open>mach-o/loader.h\<close> and \<open>mach-o/nlist.h\<close>.
\<close>

section \<open>Layouts\<close>

definition MH_MAGIC :: nat where "MH_MAGIC = 0xfeedface"
definition MH_MAGIC_64 :: nat where "MH_MAGIC_64 = 0xfeedfacf"
definition LC_SEGMENT :: nat where "LC_SEGMENT = 1"
definition LC_SYMTAB :: nat where "LC_SYMTAB = 2"
definition LC_SEGMENT_64 :: nat where "LC_SEGMENT_64 = 0x19"
definition N_TYPE :: nat where "N_TYPE = 0x0e"
definition N_SECT :: nat where "N_SECT = 0x0e"
definition N_EXT :: nat where "N_EXT = 0x01"

text \<open>The sizes of the structures and, where the two architectures differ, the field of the number of
  sections of a segment.\<close>

fun mach_header_size :: "architecture_bit \<Rightarrow> nat" where
  "mach_header_size ARCHITECTURE_32BIT = 28"
| "mach_header_size ARCHITECTURE_64BIT = 32"

fun segment_command_size :: "architecture_bit \<Rightarrow> nat" where
  "segment_command_size ARCHITECTURE_32BIT = 56"
| "segment_command_size ARCHITECTURE_64BIT = 72"

fun nsects :: "architecture_bit \<Rightarrow> nat \<times> nat" where
  "nsects ARCHITECTURE_32BIT = (48, 4)"
| "nsects ARCHITECTURE_64BIT = (64, 4)"

fun mach_section_size :: "architecture_bit \<Rightarrow> nat" where
  "mach_section_size ARCHITECTURE_32BIT = 68"
| "mach_section_size ARCHITECTURE_64BIT = 80"

fun nlist_size :: "architecture_bit \<Rightarrow> nat" where
  "nlist_size ARCHITECTURE_32BIT = 12"
| "nlist_size ARCHITECTURE_64BIT = 16"

section \<open>Recognition\<close>

definition cut_mach_o_loader_is_mach_o :: "nat list option \<Rightarrow> architecture_bit option" where
  "cut_mach_o_loader_is_mach_o file =
     (case file of
        None \<Rightarrow> None
      | Some content \<Rightarrow>
          (let magic = (if 4 \<le> length content then le_value (take 4 content) else 0)
           in if magic = MH_MAGIC then Some ARCHITECTURE_32BIT
              else if magic = MH_MAGIC_64 then Some ARCHITECTURE_64BIT
              else None))"

definition cut_mach_o_loader_support_attribute :: bool where
  "cut_mach_o_loader_support_attribute = True"

section \<open>Segments\<close>

text \<open>The index of the last section that was counted and that of the text section, 0 before it is met.\<close>

primrec update_sections :: "nat \<Rightarrow> nat list \<Rightarrow> architecture_bit \<Rightarrow> nat \<Rightarrow> nat \<times> nat \<Rightarrow> (nat \<times> nat) reading" where
  "update_sections 0 m arch section_at indexes = Inr indexes"
| "update_sections (Suc n) m arch section_at indexes =
     bind_reading (same_string (drop section_at m) (ascii ''__text''))
       (\<lambda>text_section.
          let i = guint (fst indexes + 1)
          in update_sections n m arch (section_at + mach_section_size arch)
               (i, if text_section then i else snd indexes))"

definition update_section_index ::
  "nat list \<Rightarrow> architecture_bit \<Rightarrow> nat \<Rightarrow> nat \<times> nat \<Rightarrow> (nat \<times> nat) reading" where
  "update_section_index m arch offset indexes =
     bind_reading (read_field m offset (nsects arch)) (\<lambda>n_sections.
     bind_reading (same_string (drop (offset + 8) m) (ascii ''__TEXT'')) (\<lambda>text_segment.
       if \<not> text_segment then Inr (guint (fst indexes + n_sections), snd indexes)
       else update_sections n_sections m arch (offset + segment_command_size arch) indexes))"

section \<open>Symbols\<close>

text \<open>The name stands behind an underscore; its offset is an \<open>int32_t\<close>.\<close>

definition symbol_name :: "nat list \<Rightarrow> nat \<Rightarrow> nat \<Rightarrow> ustring reading" where
  "symbol_name m strings n_strx =
     (let position = int strings + (if n_strx < 2147483648 then int n_strx else int n_strx - 4294967296) + 1
      in if position < 0 then Inl Out_Of_Bounds else read_string m (nat position))"

definition function_in_text :: "nat \<Rightarrow> nat \<Rightarrow> nat \<Rightarrow> bool" where
  "function_in_text n_type n_sect text_section_index \<longleftrightarrow>
     n_type AND N_TYPE = N_SECT \<and> n_sect = text_section_index \<and> n_type AND N_EXT \<noteq> 0"

primrec update_symbols_from ::
  "nat \<Rightarrow> nat list \<Rightarrow> architecture_bit \<Rightarrow> nat \<Rightarrow> nat \<Rightarrow> nat \<Rightarrow> ustring list \<Rightarrow> ustring list reading" where
  "update_symbols_from 0 m arch text_section_index strings symbol_at symbols = Inr symbols"
| "update_symbols_from (Suc n) m arch text_section_index strings symbol_at symbols =
     bind_reading (read_field m symbol_at (4, 1)) (\<lambda>n_type.
     bind_reading (read_field m symbol_at (0, 4)) (\<lambda>n_strx.
     bind_reading (read_field m symbol_at (5, 1)) (\<lambda>n_sect.
     bind_reading
       (if function_in_text n_type n_sect text_section_index
        then map_sum id (\<lambda>name. name # symbols) (symbol_name m strings n_strx)
        else Inr symbols)
       (update_symbols_from n m arch text_section_index strings (symbol_at + nlist_size arch)))))"

definition update_symbols ::
  "nat list \<Rightarrow> architecture_bit \<Rightarrow> nat \<Rightarrow> nat \<Rightarrow> ustring list \<Rightarrow> ustring list reading" where
  "update_symbols m arch offset text_section_index symbols =
     (if text_section_index = 0 then Inr symbols
      else
        bind_reading (read_field m offset (8, 4)) (\<lambda>symoff.
        bind_reading (read_field m offset (16, 4)) (\<lambda>stroff.
        bind_reading (read_field m offset (12, 4)) (\<lambda>nsyms.
          update_symbols_from nsyms m arch text_section_index stroff symoff symbols))))"

section \<open>Load commands\<close>

definition load_command ::
  "nat list \<Rightarrow> architecture_bit \<Rightarrow> nat \<Rightarrow> nat \<Rightarrow> (nat \<times> nat) \<times> ustring list \<Rightarrow> ((nat \<times> nat) \<times> ustring list) reading" where
  "load_command m arch cmd offset found =
     (if cmd = LC_SEGMENT \<or> cmd = LC_SEGMENT_64
      then map_sum id (\<lambda>indexes. (indexes, snd found)) (update_section_index m arch offset (fst found))
      else if cmd = LC_SYMTAB
      then map_sum id (\<lambda>symbols. (fst found, symbols)) (update_symbols m arch offset (snd (fst found)) (snd found))
      else Inr found)"

primrec collect_commands ::
  "nat \<Rightarrow> nat list \<Rightarrow> architecture_bit \<Rightarrow> nat \<Rightarrow> (nat \<times> nat) \<times> ustring list \<Rightarrow> ustring list reading" where
  "collect_commands 0 m arch offset found = Inr (snd found)"
| "collect_commands (Suc n) m arch offset found =
     bind_reading (read_field m offset (0, 4)) (\<lambda>cmd.
     bind_reading (load_command m arch cmd offset found) (\<lambda>found1.
     bind_reading (read_field m offset (4, 4)) (\<lambda>cmdsize.
       collect_commands n m arch (gsize (offset + cmdsize)) found1)))"

definition cut_mach_o_loader_collect_symbols :: "nat list \<Rightarrow> architecture_bit \<Rightarrow> ustring list reading" where
  "cut_mach_o_loader_collect_symbols content arch =
     bind_reading (read_field (content @ [0]) 0 (16, 4))
       (\<lambda>n_commands. collect_commands n_commands (content @ [0]) arch (mach_header_size arch) ((0, 0), []))"

section \<open>An image\<close>

record mach_symbol =
  ms_name :: ustring
  ms_type :: nat
  ms_sect :: nat
  ms_value :: nat

definition mach_symbol_ok :: "mach_symbol \<Rightarrow> bool" where
  "mach_symbol_ok s \<longleftrightarrow> 0 \<notin> set (ms_name s) \<and> ms_type s < 256 \<and> ms_sect s < 256"

fun address_width :: "architecture_bit \<Rightarrow> nat" where
  "address_width ARCHITECTURE_32BIT = 4"
| "address_width ARCHITECTURE_64BIT = 8"

fun mach_magic :: "architecture_bit \<Rightarrow> nat" where
  "mach_magic ARCHITECTURE_32BIT = MH_MAGIC"
| "mach_magic ARCHITECTURE_64BIT = MH_MAGIC_64"

definition name_field :: "string \<Rightarrow> nat list" where
  "name_field name = ascii name @ replicate (16 - length name) 0"

fun mach_header :: "architecture_bit \<Rightarrow> nat list" where
  "mach_header ARCHITECTURE_32BIT = le_bytes 4 MH_MAGIC @ replicate 12 0 @ le_bytes 4 2 @ replicate 8 0"
| "mach_header ARCHITECTURE_64BIT = le_bytes 4 MH_MAGIC_64 @ replicate 12 0 @ le_bytes 4 2 @ replicate 12 0"

fun text_segment :: "architecture_bit \<Rightarrow> nat list" where
  "text_segment ARCHITECTURE_32BIT =
     le_bytes 4 LC_SEGMENT @ le_bytes 4 124 @ name_field ''__TEXT'' @ replicate 24 0 @ le_bytes 4 1 @ replicate 4 0 @
     name_field ''__text'' @ name_field ''__TEXT'' @ replicate 36 0"
| "text_segment ARCHITECTURE_64BIT =
     le_bytes 4 LC_SEGMENT_64 @ le_bytes 4 152 @ name_field ''__TEXT'' @ replicate 40 0 @ le_bytes 4 1 @ replicate 4 0 @
     name_field ''__text'' @ name_field ''__TEXT'' @ replicate 48 0"

definition symtab_command :: "nat \<Rightarrow> nat \<Rightarrow> nat \<Rightarrow> nat \<Rightarrow> nat list" where
  "symtab_command symoff nsyms stroff strsize =
     le_bytes 4 LC_SYMTAB @ le_bytes 4 24 @ le_bytes 4 symoff @ le_bytes 4 nsyms @ le_bytes 4 stroff @ le_bytes 4 strsize"

definition nlist :: "architecture_bit \<Rightarrow> nat \<Rightarrow> mach_symbol \<Rightarrow> nat list" where
  "nlist arch strx s =
     le_bytes 4 strx @ [ms_type s, ms_sect s] @ le_bytes 2 0 @ le_bytes (address_width arch) (ms_value s)"

primrec nlists :: "architecture_bit \<Rightarrow> nat \<Rightarrow> mach_symbol list \<Rightarrow> nat list" where
  "nlists arch k [] = []"
| "nlists arch k (s # ss) = nlist arch k s @ nlists arch (k + length (ms_name s) + 2) ss"

definition mach_strings :: "mach_symbol list \<Rightarrow> nat list" where
  "mach_strings ss = concat (map (\<lambda>s. 95 # ms_name s @ [0]) ss)"

fun text_segment_size :: "architecture_bit \<Rightarrow> nat" where
  "text_segment_size ARCHITECTURE_32BIT = 124"
| "text_segment_size ARCHITECTURE_64BIT = 152"

definition commands_size :: "architecture_bit \<Rightarrow> nat" where
  "commands_size arch = mach_header_size arch + text_segment_size arch"

definition mach_image :: "architecture_bit \<Rightarrow> mach_symbol list \<Rightarrow> nat list" where
  "mach_image arch ss =
     (let symoff = commands_size arch + 24; stroff = symoff + length ss * nlist_size arch
      in mach_header arch @ text_segment arch @
         symtab_command symoff (length ss) stroff (length (mach_strings ss)) @
         nlists arch 0 ss @ mach_strings ss)"

end
