(* ===== verification/Module_Formats.thy ===== *)
theory Module_Formats
  imports Loader Elf_Loader Mach_O_Loader
begin

text \<open>
  How a module is opened and its format chosen (\<open>cut_loader_load_test_cases\<close> and
  \<open>collect_symbols\<close> of \<open>cutter/cut-loader.c\<close>).
\<close>

text \<open>What the loader meets: the module and the content of a file; whether the loader for Mach-O is
  compiled in; and for a file of another format the symbols that are found in it and whether attributes
  are supported.\<close>

record 'f host =
  module_at :: "ustring \<Rightarrow> 'f module_env option"
  content_at :: "ustring \<Rightarrow> nat list option"
  have_mach_o :: bool
  other_format :: "ustring \<Rightarrow> ustring list \<times> bool"

definition with_symbols :: "'f loader \<Rightarrow> bool \<Rightarrow> ustring list reading \<Rightarrow> 'f loader reading" where
  "with_symbols L supported = map_sum id (\<lambda>ss. L\<lparr>symbols := ss, support_attribute := supported\<rparr>)"

definition detect_format :: "'f host \<Rightarrow> ustring \<Rightarrow> 'f loader \<Rightarrow> 'f loader reading" where
  "detect_format H filename L =
     bind_reading (cut_elf_loader_is_elf (content_at H filename))
       (\<lambda>elf. case (elf, if have_mach_o H then cut_mach_o_loader_is_mach_o (content_at H filename) else None) of
          (Some arch, _) \<Rightarrow>
            with_symbols L cut_elf_loader_support_attribute
              (cut_elf_loader_collect_symbols (the (content_at H filename)) arch)
        | (None, Some arch) \<Rightarrow>
            with_symbols L cut_mach_o_loader_support_attribute
              (cut_mach_o_loader_collect_symbols (the (content_at H filename)) arch)
        | (None, None) \<Rightarrow>
            with_symbols L (snd (other_format H filename)) (Inr (fst (other_format H filename))))"

definition load_test_cases_of_file :: "'f host \<Rightarrow> 'f loader \<Rightarrow> 'f loaded_case list reading" where
  "load_test_cases_of_file H L =
     (case so_filename L of
        None \<Rightarrow> Inr []
      | Some filename \<Rightarrow>
          (case module_at H filename of
             None \<Rightarrow> Inr []
           | Some E \<Rightarrow> bind_reading (detect_format H filename L) (cut_loader_load_test_cases (Some E))))"

end
