(* ===== verification/Symbol_Properties.thy ===== *)
theory Symbol_Properties
  imports Symbol_Names
begin

text \<open>
  Mangling and detection agree for gcc: the symbol of a test in a namespace is detected as that test
  in that namespace. For Visual C++ the detection reads beyond every test symbol.
\<close>

section \<open>Splitting what was joined\<close>

definition cpp_identifier :: "ustring \<Rightarrow> bool" where
  "cpp_identifier c \<longleftrightarrow> c \<noteq> [] \<and> length c < 18446744073709551616 \<and> \<not> is_digit (hd c) \<and> 58 \<notin> set c"

abbreviation colons :: ustring where
  "colons \<equiv> ascii ''::''"

lemma colons_eq: "colons = [58, 58]"
  by (simp add: ascii_def)

lemma colons_length: "length colons = 2"
  by (simp add: ascii_def)

lemma strstr_colons: "58 \<notin> set c \<Longrightarrow> strstr (c @ [58, 58] @ s) [58, 58] = Some (c, [58, 58] @ s)"
  by (induction c) auto

lemma strstr_no_colons: "58 \<notin> set c \<Longrightarrow> strstr c [58, 58] = None"
  by (induction c) auto

lemma split_colons:
  assumes "58 \<notin> set c"
  shows "split_rest [58, 58] (c @ [58, 58] @ s) = c # split_rest [58, 58] s" "split_rest [58, 58] c = [c]"
  using strstr_colons [OF assms, of s] strstr_no_colons [OF assms]
  by (simp_all add: split_rest.simps [of _ c] split_rest.simps [of _ "c @ 58 # 58 # s"])

lemma split_join:
  assumes "list_all cpp_identifier cs"
  shows "g_strsplit (g_strjoin colons cs) colons = cs"
proof (cases cs)
  case (Cons c cs')
  have "split_rest [58, 58] (c @ concat (map ((@) [58, 58]) ds)) = c # ds"
    if "list_all cpp_identifier (c # ds)" for c ds
    using that by (induction ds arbitrary: c) (simp_all add: cpp_identifier_def split_colons [simplified])
  moreover have "g_strjoin colons cs \<noteq> []" using assms Cons by (simp add: g_strjoin_def cpp_identifier_def)
  ultimately show ?thesis using assms Cons by (simp add: g_strsplit_def g_strjoin_def colons_eq)
qed (simp add: g_strsplit_def g_strjoin_def)

section \<open>Skipping namespaces\<close>

lemma strtoull_component:
  assumes "cpp_identifier c"
  shows "g_ascii_strtoull (mangled_component c @ s) = (length c, c @ s)"
  unfolding mangled_component_def append_assoc
  by (rule strtoull_decimal) (use assms in \<open>auto simp: cpp_identifier_def\<close>)

lemma component_digit: "mangled_component c @ s \<noteq> []" "is_digit (hd (mangled_component c @ s))"
  using decimal_is_digit [of "hd (decimal (length c))" "length c"] by (simp_all add: mangled_component_def)

lemma skip_component:
  assumes "cpp_identifier c" "r \<noteq> []" "is_digit (hd r)"
  shows "skip_namespaces (mangled_component c @ r) ns = skip_namespaces r (ns @ c @ colons)"
  using strtoull_component [OF assms(1), of r] assms
  by (subst skip_namespaces.simps) (simp add: cpp_identifier_def)

lemma skip_components:
  assumes "list_all cpp_identifier cs" "cpp_identifier f" "s = [] \<or> \<not> is_digit (hd s)"
  shows "skip_namespaces (concat (map mangled_component cs) @ mangled_component f @ s) ns =
    Inr (Some (mangled_component f @ s), ns @ concat (map (\<lambda>c. c @ colons) cs))"
  using assms(1)
proof (induction cs arbitrary: ns)
  case Nil
  then show ?case
    using strtoull_component [OF assms(2)] assms(2,3)
    by (subst skip_namespaces.simps) (auto simp: cpp_identifier_def)
next
  case (Cons c cs)
  let ?rest = "concat (map mangled_component cs) @ mangled_component f @ s"
  have "?rest \<noteq> [] \<and> is_digit (hd ?rest)"
    using component_digit by (cases cs; simp)
  then show ?case using Cons skip_component [of c ?rest] by simp
qed

lemma joined_separators: "cs \<noteq> [] \<Longrightarrow> concat (map (\<lambda>c. c @ colons) cs) = g_strjoin colons cs @ colons"
proof -
  have "concat (map (\<lambda>c. c @ colons) (c # cs)) = c @ concat (map (\<lambda>x. colons @ x) cs) @ colons" for c cs
    by (induction cs arbitrary: c) simp_all
  then show "cs \<noteq> [] \<Longrightarrow> concat (map (\<lambda>c. c @ colons) cs) = g_strjoin colons cs @ colons"
    by (cases cs) (simp_all add: g_strjoin_def)
qed

lemma prefix_parts:
  "TEST_NAME_PREFIX = [116, 101, 115, 116, 95]" "DATA_SETUP_FUNCTION_NAME_PREFIX = [100, 97, 116, 97, 95]"
  "ascii ''_ZN'' = [95, 90, 78]" "ascii ''_Z'' = [95, 90]"
  by (simp_all add: TEST_NAME_PREFIX_def DATA_SETUP_FUNCTION_NAME_PREFIX_def ascii_def)

text \<open>The symbol of a function in a namespace, with the signature of its parameters.\<close>

definition gcc_symbol :: "ustring list \<Rightarrow> ustring \<Rightarrow> ustring \<Rightarrow> ustring" where
  "gcc_symbol cs f signature =
     ascii ''_ZN'' @ concat (map mangled_component cs) @ mangled_component f @ signature"

lemma mangle_symbol:
  "list_all cpp_identifier cs \<Longrightarrow> mangle_gcc (Some (g_strjoin colons cs)) f = gcc_symbol cs f (ascii ''Ev'')"
  by (simp add: mangle_gcc_def gcc_symbol_def split_join)

lemma find_symbol:
  assumes "list_all cpp_identifier cs" "cs \<noteq> []" "cpp_identifier (TEST_NAME_PREFIX @ x)"
    and "s = [] \<or> \<not> is_digit (hd s)"
  shows "find_cpp_test_name_gcc (gcc_symbol cs (TEST_NAME_PREFIX @ x) s) =
    Inr (Some (TEST_NAME_PREFIX @ x @ s, length (TEST_NAME_PREFIX @ x), g_strjoin colons cs @ colons))"
proof -
  let ?f = "TEST_NAME_PREFIX @ x"
  have "skip_cpp_namespace_gcc (gcc_symbol cs ?f s) =
      Inr (Some (mangled_component ?f @ s), g_strjoin colons cs @ colons)"
    using skip_components [OF assms(1,3,4), of "[]"]
    by (simp add: skip_cpp_namespace_gcc_def gcc_symbol_def prefix_parts(3,4) has_prefix_def
        joined_separators [OF assms(2)])
  moreover have "g_ascii_strtoull (mangled_component ?f @ s) = (length ?f, ?f @ s)"
    by (rule strtoull_component [OF assms(3)])
  ultimately show ?thesis
    using assms(3) by (simp add: find_cpp_test_name_gcc_def cpp_identifier_def)
qed

text \<open>C24: Mangling and detecting agree: for any namespaces and any test name, the symbol that gcc makes of
  the test is detected as this test in these namespaces, with the symbol of the data function of the same
  name for a test with a parameter. The attribute function is looked for under a name that begins with
  the whole symbol of the test.\<close>

theorem mangled_tests_detected:
  assumes "list_all cpp_identifier cs" and "cs \<noteq> []" and "cpp_identifier (TEST_NAME_PREFIX @ x)"
    and "signature \<in> {ascii ''Ev'', ascii ''EPv'', ascii ''EPKv''}"
    and "symbol = gcc_symbol cs (TEST_NAME_PREFIX @ x) signature"
    and "with_data \<longleftrightarrow> signature \<noteq> ascii ''Ev''"
  shows "detect_test_function_symbol_names symbol =
    Inr (Some \<lparr>sn_namespace = Some (g_strjoin colons cs),
      sn_test_name = g_strjoin colons cs @ colons @ TEST_NAME_PREFIX @ x, sn_test_function_name = symbol,
      sn_data_setup_function_name =
        (if with_data then Some (mangle_gcc (Some (g_strjoin colons cs)) (DATA_SETUP_FUNCTION_NAME_PREFIX @ x))
         else None),
      sn_attributes_setup_function_name =
        Some (symbol @ ATTRIBUTES_SETUP_FUNCTION_NAME_PREFIX @ x @ ascii ''Ev''),
      sn_require_data_setup_function = with_data, sn_cpp = True, sn_gcc = True\<rparr>)"
proof -
  let ?f = "TEST_NAME_PREFIX @ x"
  have s: "signature = [] \<or> \<not> is_digit (hd signature)"
    using assms(4) by (auto simp: ascii_def is_digit_def)
  note found = find_symbol [OF assms(1-3) s, folded assms(5)]
  define head where "head = ascii ''_ZN'' @ concat (map mangled_component cs) @ decimal (length ?f)"
  have symbol: "symbol = head @ ?f @ signature"
    using assms(5) by (simp add: gcc_symbol_def mangled_component_def head_def)
  have "head \<noteq> []" by (simp add: head_def prefix_parts)
  then have reads: "bytes_from symbol (int (length head)) = Inr head"
    "bytes_from (drop 5 (?f @ signature)) (int (length ?f) - 5) = Inr x"
    "bytes_from symbol (- int (length head)) = Inr symbol"
    by (simp_all add: bytes_from_def symbol prefix_parts)
  have data: "mangle_gcc (Some (g_strjoin colons cs)) (DATA_SETUP_FUNCTION_NAME_PREFIX @ x) =
      head @ DATA_SETUP_FUNCTION_NAME_PREFIX @ x @ ascii ''Ev''"
    by (simp add: mangle_symbol [OF assms(1)] gcc_symbol_def mangled_component_def prefix_parts head_def)
  have kind: "\<not> has_prefix TEST_NAME_PREFIX symbol" "is_gcc_cpp_symbol symbol"
    using assms(5)
    by (simp_all add: has_prefix_def is_gcc_cpp_symbol_def gcc_symbol_def prefix_parts)
  have before: "int (length symbol) - int (length (?f @ signature)) = int (length head)"
    by (simp add: symbol)
  have "signature \<noteq> ascii ''Ev'' \<longleftrightarrow> signature \<in> {ascii ''EPv'', ascii ''EPKv''}"
    using assms(4) by (auto simp: ascii_def)
  then show ?thesis
    using kind found before reads data assms(6)
    by (auto simp add: detect_test_function_symbol_names_def detect_cpp_test_function_symbol_names_def
        detect_cpp_test_function_symbol_names_gcc_def Let_def colons_length)
qed

section \<open>Visual C++\<close>

lemma beyond_signature:
  assumes "length signature \<le> 8" "5 \<le> length start"
  shows "bytes_from (drop 5 start) (int (length start) - int (length signature) + 5) \<noteq> Inr bytes"
  using assms by (auto simp: bytes_from_def split: if_splits)

lemma vcc_overread: "detect_cpp_test_function_symbol_names_vcc name \<noteq> Inr (Some names)"
proof
  assume found: "detect_cpp_test_function_symbol_names_vcc name = Inr (Some names)"
  let ?start = "tl name"
  obtain signature test_name where
    "prepend_namespaces (drop (length (before_at ?start)) ?start) (take (length (before_at ?start)) ?start) =
      Some (signature, test_name)"
    using found
    by (auto simp: detect_cpp_test_function_symbol_names_vcc_def Let_def split: if_splits option.splits)
  moreover from this have "signature \<in> {ascii ''YAXXZ'', ascii ''YAXPAX@Z'', ascii ''YAXPBX@Z''}"
    using found by (simp add: detect_cpp_test_function_symbol_names_vcc_def Let_def split: if_splits)
  ultimately obtain bytes where
    "bytes_from (drop 5 ?start) (int (length ?start) - int (length signature) + 5) = Inr bytes" "length signature \<le> 8"
    using found
    by (auto simp: detect_cpp_test_function_symbol_names_vcc_def Let_def bind_reading_Inr ascii_def split: if_splits)
  moreover have "5 \<le> length ?start"
    using found
    by (auto simp: detect_cpp_test_function_symbol_names_vcc_def Let_def has_prefix_def prefix_parts
        dest: arg_cong [where f = length] split: if_splits)
  ultimately show False using beyond_signature by blast
qed

text \<open>A test with a parameter in a namespace.\<close>

lemma mangled_tests_detected_witness:
  "detect_test_function_symbol_names (ascii ''_ZN4calc8test_addEPv'') =
     Inr (Some \<lparr>sn_namespace = Some (ascii ''calc''), sn_test_name = ascii ''calc::test_add'',
       sn_test_function_name = ascii ''_ZN4calc8test_addEPv'',
       sn_data_setup_function_name = Some (ascii ''_ZN4calc8data_addEv''),
       sn_attributes_setup_function_name = Some (ascii ''_ZN4calc8test_addEPvattributes_addEv''),
       sn_require_data_setup_function = True, sn_cpp = True, sn_gcc = True\<rparr>)"
proof -
  have "list_all cpp_identifier [ascii ''calc'']" "cpp_identifier (TEST_NAME_PREFIX @ ascii ''add'')"
    by (simp_all add: cpp_identifier_def is_digit_def prefix_parts ascii_def)
  moreover have "ascii ''_ZN4calc8test_addEPv'' = gcc_symbol [ascii ''calc''] (TEST_NAME_PREFIX @ ascii ''add'') (ascii ''EPv'')"
    by (simp add: gcc_symbol_def mangled_component_def prefix_parts ascii_def decimal.simps)
  moreover have "mangle_gcc (Some (g_strjoin colons [ascii ''calc''])) (DATA_SETUP_FUNCTION_NAME_PREFIX @ ascii ''add'') =
      ascii ''_ZN4calc8data_addEv''"
    using calculation(1)
    by (subst mangle_symbol) (simp_all add: gcc_symbol_def mangled_component_def prefix_parts ascii_def decimal.simps)
  moreover have "ascii ''EPv'' \<noteq> ascii ''Ev''" by (simp add: ascii_def)
  ultimately show ?thesis
    using mangled_tests_detected [of "[ascii ''calc'']" "ascii ''add''" "ascii ''EPv''" "ascii ''_ZN4calc8test_addEPv''" True]
    by (simp add: g_strjoin_def TEST_NAME_PREFIX_def ATTRIBUTES_SETUP_FUNCTION_NAME_PREFIX_def) (simp add: ascii_def)
qed

end
