(* ===== verification/Loader_Properties.thy ===== *)
theory Loader_Properties
  imports Loader Symbol_Properties
begin

text \<open>
  What a module is loaded as: one test case for every namespace and one for C, each with its
  tests in order; and which functions are taken for attributes of a test.
\<close>

section \<open>Test cases by namespace\<close>

text \<open>The namespaces, the last one that is met first.\<close>

definition case_keys :: "symbol_names list \<Rightarrow> ustring option list" where
  "case_keys names = fold (\<lambda>n ks. List.insert (sn_namespace n) ks) names []"

definition registered_test :: "'f module_env \<Rightarrow> 'f loader \<Rightarrow> symbol_names \<Rightarrow> 'f loaded_test option" where
  "registered_test E L n = (case register_valid_test E L n of Inr t \<Rightarrow> t | Inl _ \<Rightarrow> None)"

definition with_key :: "ustring option \<Rightarrow> symbol_names list \<Rightarrow> symbol_names list" where
  "with_key k names = filter (\<lambda>n. sn_namespace n = k) names"

definition grouped_case ::
  "'f module_env \<Rightarrow> 'f loader \<Rightarrow> ustring \<Rightarrow> symbol_names list \<Rightarrow> ustring option \<Rightarrow> 'f loaded_case" where
  "grouped_case E L m names k =
     (new_test_case E L (case k of Some ns \<Rightarrow> ns | None \<Rightarrow> m) k (k \<noteq> None \<and> sn_gcc (hd (with_key k names))))
     \<lparr>lc_tests := List.map_filter (registered_test E L) (with_key k names)\<rparr>"

definition names_apart :: "ustring \<Rightarrow> symbol_names list \<Rightarrow> bool" where
  "names_apart m names \<longleftrightarrow> list_all (\<lambda>n. sn_namespace n \<noteq> Some m) names"

lemma case_keys_snoc: "case_keys (names @ [n]) = List.insert (sn_namespace n) (case_keys names)"
  by (simp add: case_keys_def)

lemma case_keys_Nil: "case_keys [] = []"
  by (simp add: case_keys_def)

lemma case_keys_set: "set (case_keys names) = sn_namespace ` set names" "distinct (case_keys names)"
  by (induction names rule: rev_induct) (auto simp: case_keys_snoc case_keys_Nil)

lemma change_first_map:
  assumes "distinct ks" "\<And>k. k \<in> set ks \<Longrightarrow> P (g k) \<longleftrightarrow> k = a"
  shows "change_first P f (map g ks) = map (\<lambda>k. if k = a then f (g k) else g k) ks"
  using assms by (induction ks) auto

lemma load_tests_append:
  "load_tests E L filename (xs @ ys) cs =
   bind_reading (load_tests E L filename xs cs) (load_tests E L filename ys)"
proof (induction xs arbitrary: cs)
  case (Cons x xs)
  then show ?case by (cases "load_test E L filename x cs") simp_all
qed simp

lemma grouped_name:
  assumes "sn_namespace n \<noteq> Some m"
  shows "case_of_names n (grouped_case E L m names k) \<longleftrightarrow> k = sn_namespace n"
  using assms
  by (cases k) (auto simp: case_of_names_def grouped_case_def new_test_case_def split: option.splits)

lemma with_key_snoc: "with_key k (names @ [n]) = with_key k names @ (if sn_namespace n = k then [n] else [])"
  by (simp add: with_key_def)

lemma grouped_case_snoc:
  assumes "k \<in> set (case_keys names)"
  shows "grouped_case E L m (names @ [n]) k =
    (if k = sn_namespace n then cut_test_case_add_test (registered_test E L n) (grouped_case E L m names k)
     else grouped_case E L m names k)"
proof -
  have "with_key k names \<noteq> []" using assms by (auto simp: with_key_def case_keys_set filter_empty_conv)
  then show ?thesis
    by (auto simp: grouped_case_def with_key_snoc cut_test_case_add_test_def map_filter_def split: option.split)
qed

lemma grouped_case_new:
  assumes "sn_namespace n \<notin> set (case_keys names)"
  shows "grouped_case E L m (names @ [n]) (sn_namespace n) =
    cut_test_case_add_test (registered_test E L n)
      (new_test_case E L (case sn_namespace n of Some ns \<Rightarrow> ns | None \<Rightarrow> m) (sn_namespace n) (sn_namespace n \<noteq> None \<and> sn_gcc n))"
proof -
  have "with_key (sn_namespace n) names = []"
    using assms by (auto simp: with_key_def case_keys_set filter_empty_conv image_iff)
  then show ?thesis
    by (auto simp: grouped_case_def with_key_snoc cut_test_case_add_test_def map_filter_def new_test_case_def
        split: option.split)
qed

lemma load_tests_grouped:
  "module_case_name filename = Inr m \<Longrightarrow> names_apart m names \<Longrightarrow> load_tests E L filename names [] = Inr cases \<Longrightarrow>
   cases = map (grouped_case E L m names) (case_keys names)"
proof (induction names arbitrary: cases rule: rev_induct)
  case Nil
  then show ?case by (simp add: case_keys_def)
next
  case (snoc n names)
  let ?k = "sn_namespace n"
  obtain cs where cs: "load_tests E L filename names [] = Inr cs" "load_test E L filename n cs = Inr cases"
    using snoc.prems(3) by (auto simp: load_tests_append bind_reading_Inr)
  have apart: "?k \<noteq> Some m" and "names_apart m names"
    using snoc.prems(2) by (simp_all add: names_apart_def)
  then have cs_eq: "cs = map (grouped_case E L m names) (case_keys names)" using snoc.IH snoc.prems(1) cs(1) by blast
  obtain t where t: "register_valid_test E L n = Inr t" "registered_test E L n = t"
    using cs(2)
    by (cases "register_valid_test E L n") (auto simp: load_test_def registered_test_def bind_reading_Inr)
  have created: "create_test_case E L filename ?k b = Inr (new_test_case E L (case ?k of Some ns \<Rightarrow> ns | None \<Rightarrow> m) ?k b)" for b
    using snoc.prems(1) by (simp add: create_test_case_def split: option.split)
  have found: "list_ex (case_of_names n) cs \<longleftrightarrow> ?k \<in> set (case_keys names)"
    by (auto simp: cs_eq list_ex_iff grouped_name [OF apart])
  show ?case
  proof (cases "?k \<in> set (case_keys names)")
    case True
    have "cases = change_first (case_of_names n) (cut_test_case_add_test t) cs"
      using cs(2) t found True by (simp add: load_test_def)
    also have "\<dots> = map (\<lambda>k. if k = ?k then cut_test_case_add_test t (grouped_case E L m names k)
        else grouped_case E L m names k) (case_keys names)"
      unfolding cs_eq by (rule change_first_map [OF case_keys_set(2)]) (simp add: grouped_name [OF apart])
    also have "\<dots> = map (grouped_case E L m (names @ [n])) (case_keys names)"
      using t(2) by (intro map_cong refl) (simp add: grouped_case_snoc)
    finally show ?thesis using True by (simp add: case_keys_snoc)
  next
    case False
    let ?new = "new_test_case E L (case ?k of Some ns \<Rightarrow> ns | None \<Rightarrow> m) ?k (?k \<noteq> None \<and> sn_gcc n)"
    have "case_of_names n ?new"
      using apart by (auto simp: case_of_names_def new_test_case_def split: option.split)
    then have "cases = cut_test_case_add_test t ?new # cs"
      using cs(2) t found False created by (simp add: load_test_def)
    moreover have "map (grouped_case E L m (names @ [n])) (case_keys names) = cs"
      unfolding cs_eq using False by (intro map_cong refl) (auto simp: grouped_case_snoc)
    ultimately show ?thesis
      using False t(2) grouped_case_new [OF False, of E L m] by (simp add: case_keys_snoc)
  qed
qed

text \<open>C18: The test cases of a module are its tests grouped by namespace: whatever the order of the symbols,
  there is exactly one test case for every namespace and one for the tests without, each made with its
  own hooks and holding exactly the tests of its namespace that could be registered, in order. This needs
  that no namespace has the name \<open>m\<close> of the module.\<close>

theorem test_cases_grouped:
  assumes "so_filename L = Some filename" and "collect_test_functions (symbols L) = Inr names"
    and "module_case_name filename = Inr m" and "names_apart m names"
    and "cut_loader_load_test_cases (Some E) L = Inr cases"
  shows "cases = map (grouped_case E L m names) (case_keys names) \<and> distinct (case_keys names) \<and>
    set (case_keys names) = sn_namespace ` set names"
  using load_tests_grouped [OF assms(3,4), of E L cases] assms case_keys_set [of names]
  by (simp add: cut_loader_load_test_cases_def)

text \<open>A module with tests of C and of a namespace, in which one function is not found.\<close>

definition example_loader :: "nat loader" where
  "example_loader = (cut_loader_new (Some (ascii ''libtest.so'')))
     \<lparr>symbols := [ascii ''test_a'', ascii ''_ZN2ns6test_bEv'', ascii ''test_c'', ascii ''test_d'']\<rparr>"

definition example_module :: "nat module_env" where
  "example_module = \<lparr>module_symbol = (\<lambda>s. if s = ascii ''test_c'' then None else Some (length s)),
     attributes_set = (\<lambda>_. []), attribute_value = (\<lambda>_. [])\<rparr>"

lemma test_cases_grouped_witness:
  "map (\<lambda>c. (lc_name c, map lt_name (lc_tests c))) (projr (cut_loader_load_test_cases (Some example_module) example_loader)) =
     [(ascii ''ns'', [ascii ''ns::test_b'']), (ascii ''test'', [ascii ''test_d'', ascii ''test_a''])]"
proof -
  let ?names = "projr (collect_test_functions (symbols example_loader))"
  have "so_filename example_loader = Some (ascii ''libtest.so'')" by (simp add: example_loader_def cut_loader_new_def)
  moreover have "collect_test_functions (symbols example_loader) = Inr ?names" by code_simp
  moreover have "module_case_name (ascii ''libtest.so'') = Inr (ascii ''test'')" by code_simp
  moreover have "names_apart (ascii ''test'') ?names" by code_simp
  moreover have "cut_loader_load_test_cases (Some example_module) example_loader =
      Inr (projr (cut_loader_load_test_cases (Some example_module) example_loader))" by code_simp
  ultimately have "projr (cut_loader_load_test_cases (Some example_module) example_loader) =
      map (grouped_case example_module example_loader (ascii ''test'') ?names) (case_keys ?names)"
    using test_cases_grouped by blast
  moreover have "map (\<lambda>c. (lc_name c, map lt_name (lc_tests c)))
      (map (grouped_case example_module example_loader (ascii ''test'') ?names) (case_keys ?names)) =
     [(ascii ''ns'', [ascii ''ns::test_b'']), (ascii ''test'', [ascii ''test_d'', ascii ''test_a''])]"
    by code_simp
  ultimately show ?thesis by simp
qed

section \<open>Attributes\<close>

lemma suffix_append: "has_suffix (a @ x) x"
  by (simp add: has_suffix_def)

lemma last_occurrence_suffix: "x \<noteq> [] \<Longrightarrow> last_occurrence (a @ x) x = Some x"
proof (induction a)
  case Nil
  have none: "last_occurrence s y = None" if "length s < length y" for s y :: ustring
    using that by (induction s) (auto simp: has_prefix_def dest!: arg_cong [where f = length])
  then show ?case using Nil by (cases x) (auto simp: has_prefix_def)
qed simp

lemma underscore: "ascii ''_'' = [95]"
  by (simp add: ascii_def)

text \<open>The name of an attribute function of C and the attribute it stands for.\<close>

lemma attribute_of_c:
  assumes "attribute_base_name (a @ ascii ''_'' @ x)" "x \<noteq> []"
  shows "is_valid_attribute_function_name (a @ ascii ''_'' @ x) (c_symbol_names (TEST_NAME_PREFIX @ x)) = Inr True"
    "get_attribute_name (a @ ascii ''_'' @ x) (c_symbol_names (TEST_NAME_PREFIX @ x)) = Inr a"
  using assms last_occurrence_suffix [of x "a @ [95]"] suffix_append [of a "[95] @ x"]
  by (simp_all add: underscore is_valid_attribute_function_name_def is_including_test_name_def c_symbol_names_def
      get_attribute_name_def g_strrstr_def prefix_parts)

text \<open>An attribute function of a test is also taken for one of every test whose name is the end of
  the first one's after an underscore: what is the attribute \<open>a\<close> of \<open>test_x_y\<close> is the
  attribute \<open>a_x\<close> of \<open>test_y\<close>.\<close>

lemma attribute_of_other_test:
  assumes "attribute_base_name (a @ ascii ''_'' @ x @ ascii ''_'' @ y)" and "x \<noteq> []" and "y \<noteq> []"
  shows "is_valid_attribute_function_name (a @ ascii ''_'' @ x @ ascii ''_'' @ y)
      (c_symbol_names (TEST_NAME_PREFIX @ x @ ascii ''_'' @ y)) = Inr True \<and>
    get_attribute_name (a @ ascii ''_'' @ x @ ascii ''_'' @ y)
      (c_symbol_names (TEST_NAME_PREFIX @ x @ ascii ''_'' @ y)) = Inr a \<and>
    is_valid_attribute_function_name (a @ ascii ''_'' @ x @ ascii ''_'' @ y)
      (c_symbol_names (TEST_NAME_PREFIX @ y)) = Inr True \<and>
    get_attribute_name (a @ ascii ''_'' @ x @ ascii ''_'' @ y)
      (c_symbol_names (TEST_NAME_PREFIX @ y)) = Inr (a @ ascii ''_'' @ x)"
  using attribute_of_c [of a "x @ ascii ''_'' @ y"] attribute_of_c [of "a @ ascii ''_'' @ x" y] assms by simp

text \<open>No function is ever taken for an attribute of a test of C++: the function would have to be a test
  itself, and tests are no attribute functions.\<close>

lemma no_attributes_for_cpp:
  assumes "sn_cpp names"
  shows "is_valid_attribute_function_name function_name names \<noteq> Inr True"
  using assms
  by (auto simp: is_valid_attribute_function_name_def find_cpp_test_name_gcc_def bind_reading_Inr
      attribute_base_name_def split: option.splits if_splits prod.splits)

end
