(* ===== verification/Elf_Image.thy ===== *)
theory Elf_Image
  imports Elf_Loader
begin

text \<open>
  Shared objects as a linker lays them out: an image with a given symbol table, from which the
  loader for ELF reads back the functions.
\<close>

section \<open>An image\<close>

record elf_symbol =
  es_name :: ustring
  es_info :: nat
  es_shndx :: nat
  es_value :: nat
  es_size :: nat

definition symbol_ok :: "elf_symbol \<Rightarrow> bool" where
  "symbol_ok s \<longleftrightarrow> 0 \<notin> set (es_name s) \<and> es_info s < 256 \<and> es_shndx s < 65536"

fun width :: "architecture_bit \<Rightarrow> nat" where
  "width ARCHITECTURE_32BIT = 4"
| "width ARCHITECTURE_64BIT = 8"

fun elf_class :: "architecture_bit \<Rightarrow> nat" where
  "elf_class ARCHITECTURE_32BIT = 1"
| "elf_class ARCHITECTURE_64BIT = 2"

fun header_size :: "architecture_bit \<Rightarrow> nat" where
  "header_size ARCHITECTURE_32BIT = 52"
| "header_size ARCHITECTURE_64BIT = 64"

fun section_header_size :: "architecture_bit \<Rightarrow> nat" where
  "section_header_size ARCHITECTURE_32BIT = 40"
| "section_header_size ARCHITECTURE_64BIT = 64"

fun symbol_size :: "architecture_bit \<Rightarrow> nat" where
  "symbol_size ARCHITECTURE_32BIT = 16"
| "symbol_size ARCHITECTURE_64BIT = 24"

definition section_header :: "architecture_bit \<Rightarrow> nat \<Rightarrow> nat \<Rightarrow> nat \<Rightarrow> nat \<Rightarrow> nat list" where
  "section_header arch name offset bytes entsize =
     (let w = width arch
      in le_bytes 4 name @ le_bytes 4 0 @ le_bytes w 0 @ le_bytes w 0 @ le_bytes w offset @ le_bytes w bytes @
         le_bytes 4 0 @ le_bytes 4 0 @ le_bytes w 0 @ le_bytes w entsize)"

fun symbol_bytes :: "architecture_bit \<Rightarrow> nat \<Rightarrow> elf_symbol \<Rightarrow> nat list" where
  "symbol_bytes ARCHITECTURE_32BIT name s =
     le_bytes 4 name @ le_bytes 4 (es_value s) @ le_bytes 4 (es_size s) @ [es_info s, 0] @
     le_bytes 2 (es_shndx s)"
| "symbol_bytes ARCHITECTURE_64BIT name s =
     le_bytes 4 name @ [es_info s, 0] @ le_bytes 2 (es_shndx s) @ le_bytes 8 (es_value s) @
     le_bytes 8 (es_size s)"

text \<open>The strings of the symbols behind an empty one, and the symbols with the offset of the first
  one's name.\<close>

definition string_table :: "elf_symbol list \<Rightarrow> nat list" where
  "string_table ss = 0 # concat (map (\<lambda>s. es_name s @ [0]) ss)"

primrec symbol_table :: "architecture_bit \<Rightarrow> nat \<Rightarrow> elf_symbol list \<Rightarrow> nat list" where
  "symbol_table arch k [] = []"
| "symbol_table arch k (s # ss) = symbol_bytes arch k s @ symbol_table arch (k + length (es_name s) + 1) ss"

definition section_names :: "nat list" where
  "section_names =
     [0] @ ascii ''.shstrtab'' @ [0] @ ascii ''.dynstr'' @ [0] @ ascii ''.dynsym'' @ [0] @ ascii ''.text'' @ [0]"

definition string_table_offset :: "architecture_bit \<Rightarrow> nat" where
  "string_table_offset arch = header_size arch + 33"

definition symbol_table_offset :: "architecture_bit \<Rightarrow> elf_symbol list \<Rightarrow> nat" where
  "symbol_table_offset arch ss = string_table_offset arch + length (string_table ss)"

definition section_headers_offset :: "architecture_bit \<Rightarrow> elf_symbol list \<Rightarrow> nat" where
  "section_headers_offset arch ss = symbol_table_offset arch ss + length ss * symbol_size arch"

definition elf_ident :: "architecture_bit \<Rightarrow> nat list" where
  "elf_ident arch = [127, 69, 76, 70, elf_class arch, 1, 1] @ replicate 9 0"

definition elf_header :: "architecture_bit \<Rightarrow> nat \<Rightarrow> nat list" where
  "elf_header arch headers_offset =
     (let w = width arch
      in elf_ident arch @
         le_bytes 2 3 @ le_bytes 2 0 @ le_bytes 4 1 @ le_bytes w 0 @ le_bytes w 0 @ le_bytes w headers_offset @
         le_bytes 4 0 @ le_bytes 2 (header_size arch) @ le_bytes 2 0 @ le_bytes 2 0 @
         le_bytes 2 (section_header_size arch) @ le_bytes 2 5 @ le_bytes 2 4)"

definition section_header_table :: "architecture_bit \<Rightarrow> elf_symbol list \<Rightarrow> nat list" where
  "section_header_table arch ss =
     section_header arch 0 0 0 0 @
     section_header arch 11 (string_table_offset arch) (length (string_table ss)) 0 @
     section_header arch 19 (symbol_table_offset arch ss) (length ss * symbol_size arch) (symbol_size arch) @
     section_header arch 27 0 0 0 @
     section_header arch 1 (header_size arch) 33 0"

definition elf_image :: "architecture_bit \<Rightarrow> elf_symbol list \<Rightarrow> nat list" where
  "elf_image arch ss =
     elf_header arch (section_headers_offset arch ss) @ section_names @ string_table ss @ symbol_table arch 1 ss @
     section_header_table arch ss"

section \<open>Lengths\<close>

lemma length_ident [simp]: "length (elf_ident arch) = 16"
  by (simp add: elf_ident_def)

lemma lengths [simp]:
  "length (elf_header arch n) = header_size arch" "length section_names = 33"
  "length (section_header arch a b c d) = section_header_size arch"
  "length (symbol_bytes arch k s) = symbol_size arch"
  "length (symbol_table arch k ss) = length ss * symbol_size arch"
  "length (section_header_table arch ss) = 5 * section_header_size arch"
proof -
  show "length (elf_header arch n) = header_size arch"
    by (cases arch) (simp_all add: elf_header_def elf_ident_def)
  show "length section_names = 33" by (simp add: section_names_def ascii_def)
  show h: "length (section_header arch a b c d) = section_header_size arch" for a b c d
    by (cases arch) (simp_all add: section_header_def)
  show s: "length (symbol_bytes arch k s) = symbol_size arch" for k s by (cases arch) simp_all
  show "length (symbol_table arch k ss) = length ss * symbol_size arch"
    by (induction ss arbitrary: k) (simp_all add: s)
  show "length (section_header_table arch ss) = 5 * section_header_size arch"
    by (simp add: section_header_table_def h)
qed

text \<open>The parts that are behind the header, the names, the strings and the symbols.\<close>

lemma image_parts:
  obtains a b c where
    "elf_image arch ss @ [0] = elf_header arch (section_headers_offset arch ss) @ c"
    "elf_image arch ss @ [0] = a @ string_table ss @ symbol_table arch 1 ss @ section_header_table arch ss @ [0]"
    "length a = string_table_offset arch"
    "elf_image arch ss @ [0] = b @ section_header_table arch ss @ [0]" "length b = section_headers_offset arch ss"
  by (rule that [of "section_names @ string_table ss @ symbol_table arch 1 ss @ section_header_table arch ss @ [0]"
        "elf_header arch (section_headers_offset arch ss) @ section_names"
        "elf_header arch (section_headers_offset arch ss) @ section_names @ string_table ss @ symbol_table arch 1 ss"])
     (simp_all add: elf_image_def string_table_offset_def symbol_table_offset_def section_headers_offset_def)

end
