(* ===== verification/Elf_Properties.thy ===== *)
theory Elf_Properties
  imports Elf_Image
begin

text \<open>
  The loader for ELF reads the functions of an image back, and reads beyond a file that is too short.
\<close>

section \<open>Fields\<close>

lemma header_offsets:
  assumes "n < 4294967296"
  shows "read_field (elf_header arch n @ c) 0 (e_shoff (layout arch)) = Inr n"
  using assms by (cases arch) (simp_all add: read_field_def elf_header_def read_simps)

lemma header_counts:
  shows "read_field (elf_header arch n @ c) 0 (e_shentsize (layout arch)) = Inr (section_header_size arch)"
    "read_field (elf_header arch n @ c) 0 (e_shnum (layout arch)) = Inr 5"
    "read_field (elf_header arch n @ c) 0 (e_shstrndx (layout arch)) = Inr 4"
  by (cases arch; simp add: read_field_def elf_header_def read_simps)+

lemma header_type:
  "read_uint (elf_header arch n @ c) EI_NIDENT 2 = Inr ET_DYN" "take 4 (elf_header arch n @ c) = [127, 69, 76, 70]"
  "(elf_header arch n @ c) ! 4 = elf_class arch"
proof -
  show "read_uint (elf_header arch n @ c) EI_NIDENT 2 = Inr ET_DYN"
    by (simp add: EI_NIDENT_def ET_DYN_def elf_header_def read_simps Let_def)
  show "take 4 (elf_header arch n @ c) = [127, 69, 76, 70]" "(elf_header arch n @ c) ! 4 = elf_class arch"
    by (simp_all add: elf_header_def Let_def elf_ident_def)
qed

lemma section_fields:
  assumes "a < 4294967296" "b < 4294967296" "c < 4294967296" "d < 4294967296"
  shows "read_field (section_header arch a b c d @ z) 0 (sh_name (layout arch)) = Inr a"
    "read_field (section_header arch a b c d @ z) 0 (sh_offset (layout arch)) = Inr b"
    "read_field (section_header arch a b c d @ z) 0 (sh_size (layout arch)) = Inr c"
    "read_field (section_header arch a b c d @ z) 0 (sh_entsize (layout arch)) = Inr d"
  by (cases arch; use assms in \<open>simp add: read_field_def section_header_def read_simps\<close>)+

lemma symbol_fields:
  assumes "k < 4294967296" "symbol_ok s"
  shows "read_field (symbol_bytes arch k s @ z) 0 (st_name (layout arch)) = Inr k"
    "read_field (symbol_bytes arch k s @ z) 0 (st_info (layout arch)) = Inr (es_info s)"
    "read_field (symbol_bytes arch k s @ z) 0 (st_shndx (layout arch)) = Inr (es_shndx s)"
  by (cases arch; use assms in \<open>simp add: read_field_def symbol_ok_def read_simps\<close>)+

section \<open>Sections\<close>

text \<open>The fields of the section headers of an image.\<close>

lemma table_fields:
  assumes "length b = p"
  shows "read_field (b @ section_header_table arch ss @ z) p f =
      read_field (section_header arch 0 0 0 0 @ drop (section_header_size arch) (section_header_table arch ss) @ z) 0 f"
    "\<exists>y. read_field (b @ section_header_table arch ss @ z) (p + section_header_size arch) f =
      read_field (section_header arch 11 (string_table_offset arch) (length (string_table ss)) 0 @ y) 0 f"
    "\<exists>y. read_field (b @ section_header_table arch ss @ z) (p + section_header_size arch * 2) f =
      read_field (section_header arch 19 (symbol_table_offset arch ss) (length ss * symbol_size arch)
        (symbol_size arch) @ y) 0 f"
    "\<exists>y. read_field (b @ section_header_table arch ss @ z) (p + section_header_size arch * 3) f =
      read_field (section_header arch 27 0 0 0 @ y) 0 f"
    "\<exists>y. read_field (b @ section_header_table arch ss @ z) (p + section_header_size arch * 4) f =
      read_field (section_header arch 1 (header_size arch) 33 0 @ y) 0 f"
proof -
  let ?z = "section_header_size arch"
  have *: "length (section_header arch n o' s e) = ?z" for n o' s e by simp
  have shift: "p + ?z * 2 = p + (?z + ?z)" "p + ?z * 3 = p + (?z + (?z + ?z))" "p + ?z * 4 = p + (?z + (?z + (?z + ?z)))"
    by simp_all
  note skip = shift field_behind [OF assms] field_behind_0 [OF assms] field_behind [OF *] field_behind_0 [OF *]
  show "read_field (b @ section_header_table arch ss @ z) p f =
      read_field (section_header arch 0 0 0 0 @ drop (section_header_size arch) (section_header_table arch ss) @ z) 0 f"
    by (simp add: section_header_table_def skip)
  show "\<exists>y. read_field (b @ section_header_table arch ss @ z) (p + section_header_size arch) f =
      read_field (section_header arch 11 (string_table_offset arch) (length (string_table ss)) 0 @ y) 0 f"
    unfolding section_header_table_def append_assoc skip by blast
  show "\<exists>y. read_field (b @ section_header_table arch ss @ z) (p + section_header_size arch * 2) f =
      read_field (section_header arch 19 (symbol_table_offset arch ss) (length ss * symbol_size arch)
        (symbol_size arch) @ y) 0 f"
    unfolding section_header_table_def append_assoc skip by blast
  show "\<exists>y. read_field (b @ section_header_table arch ss @ z) (p + section_header_size arch * 3) f =
      read_field (section_header arch 27 0 0 0 @ y) 0 f"
    unfolding section_header_table_def append_assoc skip by blast
  show "\<exists>y. read_field (b @ section_header_table arch ss @ z) (p + section_header_size arch * 4) f =
      read_field (section_header arch 1 (header_size arch) 33 0 @ y) 0 f"
    unfolding section_header_table_def append_assoc skip by blast
qed

text \<open>An image whose offsets are 32-bit numbers.\<close>

definition image_fits :: "architecture_bit \<Rightarrow> elf_symbol list \<Rightarrow> bool" where
  "image_fits arch ss \<longleftrightarrow> length (elf_image arch ss) < 4294967296"

lemma image_length:
  "length (elf_image arch ss) = section_headers_offset arch ss + 5 * section_header_size arch"
  by (simp add: elf_image_def section_headers_offset_def symbol_table_offset_def string_table_offset_def)

lemma size_bounds:
  "header_size arch \<le> 64" "section_header_size arch \<le> 64" "16 \<le> symbol_size arch" "symbol_size arch \<le> 24"
  "40 \<le> section_header_size arch"
  by (cases arch; simp)+

lemma fits_bounds:
  assumes "image_fits arch ss"
  shows "section_headers_offset arch ss < 4294967296 - 200" "symbol_table_offset arch ss < 4294967296"
    "string_table_offset arch < 4294967296" "length (string_table ss) < 4294967296"
    "length ss * symbol_size arch < 4294967296" "length ss < 4294967296" "header_size arch < 4294967296"
    "symbol_size arch < 4294967296"
proof -
  have total: "section_headers_offset arch ss + 5 * section_header_size arch < 4294967296"
    using assms by (simp add: image_fits_def image_length)
  then show "section_headers_offset arch ss < 4294967296 - 200" using size_bounds(5) [of arch] by linarith
  note defs = section_headers_offset_def symbol_table_offset_def string_table_offset_def
  show "symbol_table_offset arch ss < 4294967296" "string_table_offset arch < 4294967296"
    "length (string_table ss) < 4294967296" "header_size arch < 4294967296"
    using total unfolding defs by linarith+
  show "length ss * symbol_size arch < 4294967296" using total unfolding defs by linarith
  moreover have "length ss \<le> length ss * symbol_size arch" using size_bounds(3) [of arch] by simp
  ultimately show "length ss < 4294967296" by linarith
  show "symbol_size arch < 4294967296" using size_bounds(4) [of arch] by linarith
qed

lemma image_sections:
  assumes fits: "image_fits arch ss"
  defines "m \<equiv> elf_image arch ss @ [0]" and "off \<equiv> section_headers_offset arch ss"
    and "z \<equiv> section_header_size arch" and "y \<equiv> layout arch"
  shows "read_field m off (sh_name y) = Inr 0" "read_field m (off + z) (sh_name y) = Inr 11"
    "read_field m (off + z * 2) (sh_name y) = Inr 19" "read_field m (off + z * 3) (sh_name y) = Inr 27"
    "read_field m (off + z * 4) (sh_name y) = Inr 1"
    "read_field m (off + z) (sh_offset y) = Inr (string_table_offset arch)"
    "read_field m (off + z * 2) (sh_offset y) = Inr (symbol_table_offset arch ss)"
    "read_field m (off + z * 2) (sh_size y) = Inr (length ss * symbol_size arch)"
    "read_field m (off + z * 2) (sh_entsize y) = Inr (symbol_size arch)"
    "read_field m (off + z * 4) (sh_offset y) = Inr (header_size arch)"
proof -
  obtain b where b: "m = b @ section_header_table arch ss @ [0]" "length b = off"
    unfolding m_def off_def by (rule image_parts)
  note at = table_fields [OF b(2), where arch = arch and ss = ss and z = "[0]", folded b(1), folded z_def]
  note bounds = fits_bounds [OF fits]
  show "read_field m off (sh_name y) = Inr 0" unfolding at(1) y_def by (rule section_fields) simp_all
  have one: "\<exists>x. read_field m (off + z) f = read_field (section_header arch 11 (string_table_offset arch)
      (length (string_table ss)) 0 @ x) 0 f" for f by (rule at(2))
  have two: "\<exists>x. read_field m (off + z * 2) f = read_field (section_header arch 19 (symbol_table_offset arch ss)
      (length ss * symbol_size arch) (symbol_size arch) @ x) 0 f" for f by (rule at(3))
  have three: "\<exists>x. read_field m (off + z * 3) f = read_field (section_header arch 27 0 0 0 @ x) 0 f" for f
    by (rule at(4))
  have four: "\<exists>x. read_field m (off + z * 4) f = read_field (section_header arch 1 (header_size arch) 33 0 @ x) 0 f"
    for f by (rule at(5))
  show "read_field m (off + z) (sh_name y) = Inr 11"
    "read_field m (off + z) (sh_offset y) = Inr (string_table_offset arch)"
    using one [of "sh_name y"] one [of "sh_offset y"] bounds by (auto simp: section_fields y_def)
  show "read_field m (off + z * 2) (sh_name y) = Inr 19"
    "read_field m (off + z * 2) (sh_offset y) = Inr (symbol_table_offset arch ss)"
    "read_field m (off + z * 2) (sh_size y) = Inr (length ss * symbol_size arch)"
    "read_field m (off + z * 2) (sh_entsize y) = Inr (symbol_size arch)"
    using two [of "sh_name y"] two [of "sh_offset y"] two [of "sh_size y"] two [of "sh_entsize y"] bounds
    by (auto simp: section_fields y_def)
  show "read_field m (off + z * 3) (sh_name y) = Inr 27"
    using three [of "sh_name y"] by (auto simp: section_fields y_def)
  show "read_field m (off + z * 4) (sh_name y) = Inr 1"
    "read_field m (off + z * 4) (sh_offset y) = Inr (header_size arch)"
    using four [of "sh_name y"] four [of "sh_offset y"] bounds by (auto simp: section_fields y_def)
qed

lemma names_compared:
  "same_string (section_names @ c) (46 # s) = Inr False"
  "same_string (drop 11 (section_names @ c)) (ascii ''.dynstr'') = Inr True"
  "same_string (drop 19 (section_names @ c)) (ascii ''.dynstr'') = Inr False"
  "same_string (drop 19 (section_names @ c)) (ascii ''.dynsym'') = Inr True"
  "same_string (drop 27 (section_names @ c)) (ascii ''.dynstr'') = Inr False"
  "same_string (drop 27 (section_names @ c)) (ascii ''.dynsym'') = Inr False"
  "same_string (drop 27 (section_names @ c)) (ascii ''.text'') = Inr True"
  "same_string (drop 1 (section_names @ c)) (ascii ''.dynstr'') = Inr False"
  "same_string (drop 1 (section_names @ c)) (ascii ''.dynsym'') = Inr False"
  "same_string (drop 1 (section_names @ c)) (ascii ''.text'') = Inr False"
  by (simp_all add: section_names_def ascii_def)

definition image_tables :: "architecture_bit \<Rightarrow> elf_symbol list \<Rightarrow> symbol_information" where
  "image_tables arch ss =
     \<lparr>symbol_section_offset = symbol_table_offset arch ss, symbol_entry_size = symbol_size arch,
      n_entries = length ss, name_section_offset = string_table_offset arch, text_section_header_index = 3\<rparr>"

lemma image_information:
  assumes fits: "image_fits arch ss"
  shows "collect_symbol_information (elf_image arch ss @ [0]) arch = Inr (Some (image_tables arch ss))"
proof -
  define m where "m = elf_image arch ss @ [0]"
  let ?off = "section_headers_offset arch ss" and ?z = "section_header_size arch"
  obtain c where header: "m = elf_header arch ?off @ c" unfolding m_def by (rule image_parts)
  have "m = elf_header arch ?off @ section_names @ (string_table ss @ symbol_table arch 1 ss @
      section_header_table arch ss @ [0])" by (simp add: m_def elf_image_def)
  then obtain c' where names: "m = elf_header arch ?off @ section_names @ c'" by blast
  have drops: "drop (header_size arch) m = section_names @ c'"
    "drop (header_size arch + k) m = drop k (section_names @ c')" for k
    unfolding names by simp_all
  note bounds = fits_bounds [OF fits]
  have fields: "read_field m 0 (e_shoff (layout arch)) = Inr ?off"
    "read_field m 0 (e_shentsize (layout arch)) = Inr ?z"
    "read_field m 0 (e_shnum (layout arch)) = Inr 5" "read_field m 0 (e_shstrndx (layout arch)) = Inr 4"
    unfolding header using bounds(1) by (simp_all add: header_offsets header_counts)
  have products: "int_product ?z i = Inr (?z * i)" "int_product i ?z = Inr (?z * i)"
    "gsize (?off + ?z * i) = ?off + ?z * i" "name_header_offset arch (?off + ?z * i) = ?off + ?z * i" if "i \<le> 4" for i
  proof -
    have "?z * i \<le> 64 * 4" using that size_bounds(2) [of arch] by (intro mult_le_mono)
    then show "int_product ?z i = Inr (?z * i)" "int_product i ?z = Inr (?z * i)"
      "gsize (?off + ?z * i) = ?off + ?z * i"
      using bounds(1) by (simp_all add: int_product_def gsize_def mult.commute)
    have "?z * i \<le> ?z * 4" using that by simp
    then have "?off + ?z * i < 4294967296"
      using fits unfolding image_fits_def image_length by linarith
    then show "name_header_offset arch (?off + ?z * i) = ?off + ?z * i"
      by (cases arch) (simp_all add: name_header_offset_def gsize_def)
  qed
  note sections = image_sections [OF fits, folded m_def]
  define N where "N = section_names @ c'"
  note compared = names_compared [where c = c', folded N_def]
  have first: "same_string N (ascii ''.dynstr'') = Inr False" "same_string N (ascii ''.dynsym'') = Inr False"
    "same_string N (ascii ''.text'') = Inr False"
    by (simp_all add: ascii_def compared(1))
  have step: "find_sections m arch ?off ?z (header_size arch) (i # is) found =
      bind_reading (same_string (drop name N) (ascii ''.dynstr''))
        (\<lambda>dynstr.
           if dynstr then find_sections m arch ?off ?z (header_size arch) is (found\<lparr>dynstr_header := Some (?off + ?z * i)\<rparr>)
           else bind_reading (same_string (drop name N) (ascii ''.dynsym''))
             (\<lambda>dynsym.
                if dynsym then find_sections m arch ?off ?z (header_size arch) is (found\<lparr>dynsym_header := Some (?off + ?z * i)\<rparr>)
                else bind_reading (same_string (drop name N) (ascii ''.text''))
                  (\<lambda>text_section. find_sections m arch ?off ?z (header_size arch) is
                     (if text_section then found\<lparr>text_index := i\<rparr> else found))))"
    if "i \<le> 4" "read_field m (?off + ?z * i) (sh_name (layout arch)) = Inr name" for i "is" found name
    using that by (simp add: products Let_def drops(2) N_def del: drop_append cong del: if_weak_cong)
  have found: "find_sections m arch ?off ?z (header_size arch) [0..<5]
      \<lparr>dynstr_header = None, dynsym_header = None, text_index = 0\<rparr> =
    Inr \<lparr>dynstr_header = Some (?off + ?z), dynsym_header = Some (?off + ?z * 2), text_index = 3\<rparr>"
  proof -
    have list: "[0..<5] = [0, 1, 2, 3, 4::nat]" by (simp add: upt_rec)
    show ?thesis
      unfolding list
      by (simp add: step [of 0 0] step [of 1 11] step [of 2 19] step [of 3 27] step [of 4 1] sections first compared
          del: find_sections.simps(2) One_nat_def)
  qed
  with found show ?thesis
    unfolding collect_symbol_information_def Let_def m_def [symmetric]
    using bounds size_bounds(3) [of arch]
    by (simp add: fields products sections image_tables_def)
qed

section \<open>Symbols\<close>

definition text_function :: "elf_symbol \<Rightarrow> bool" where
  "text_function s \<longleftrightarrow> es_info s mod 16 = STT_FUNC \<and> es_info s div 16 = STB_GLOBAL \<and> es_shndx s = 3"

definition names_length :: "elf_symbol list \<Rightarrow> nat" where
  "names_length ss = length (concat (map (\<lambda>s. es_name s @ [0]) ss))"

lemma symbol_table_append:
  "symbol_table arch k (ss @ us) = symbol_table arch k ss @ symbol_table arch (k + names_length ss) us"
  by (induction ss arbitrary: k) (simp_all add: names_length_def add.assoc)

lemma read_name:
  assumes "symbol_ok s" "length a = p"
  shows "read_string (a @ string_table (ss @ s # us) @ c) (p + (1 + names_length ss)) = Inr (es_name s)"
proof -
  have "drop (p + (1 + names_length ss)) (a @ string_table (ss @ s # us) @ c) =
      es_name s @ 0 # concat (map (\<lambda>s. es_name s @ [0]) us) @ c"
    using assms(2) by (simp add: string_table_def names_length_def)
  moreover have "takeWhile (\<lambda>b. b \<noteq> 0) (es_name s @ 0 # x) = es_name s" for x
    by (subst takeWhile_append2) (use assms(1) in \<open>auto simp: symbol_ok_def intro!: gr0I\<close>)
  ultimately show ?thesis by (simp add: read_string_def)
qed

lemma collect_image_entries:
  assumes "image_fits arch (ss @ us)" "list_all symbol_ok (ss @ us)"
  shows "collect_entries (elf_image arch (ss @ us) @ [0]) arch (image_tables arch (ss @ us)) [length ss..<length (ss @ us)] names =
    Inr (rev (map es_name (filter text_function us)) @ names)"
  using assms
proof (induction us arbitrary: ss names)
  case (Cons s us)
  let ?m = "elf_image arch (ss @ s # us) @ [0]" and ?i = "length ss" and ?all = "ss @ s # us"
  let ?k = "1 + names_length ss"
  note bounds = fits_bounds [OF Cons.prems(1)]
  obtain a where a: "?m = a @ string_table ?all @ symbol_table arch 1 ?all @ section_header_table arch ?all @ [0]"
    "length a = string_table_offset arch"
    by (rule image_parts)
  have s: "symbol_ok s" using Cons.prems(2) by simp
  have name: "read_string ?m (string_table_offset arch + ?k) = Inr (es_name s)"
    unfolding a(1) using s a(2) by (rule read_name)
  have offset: "gsize (symbol_table_offset arch ?all + gsize (?i * symbol_size arch)) =
      symbol_table_offset arch ?all + ?i * symbol_size arch"
  proof -
    have "?i * symbol_size arch \<le> length ?all * symbol_size arch" by (simp add: algebra_simps)
    then show ?thesis using bounds(2,5) by (simp add: gsize_def)
  qed
  obtain z where "?m = (a @ string_table ?all @ symbol_table arch 1 ss) @ symbol_bytes arch ?k s @ z"
    unfolding a(1) symbol_table_append [of arch 1 ss] by simp
  moreover have "length (a @ string_table ?all @ symbol_table arch 1 ss) =
      symbol_table_offset arch ?all + ?i * symbol_size arch"
    by (simp add: a(2) symbol_table_offset_def)
  ultimately have at: "read_field ?m (symbol_table_offset arch ?all + ?i * symbol_size arch) f =
      read_field (symbol_bytes arch ?k s @ z) 0 f" for f
    using field_behind_0 by metis
  have "?k < 4294967296"
    using bounds(4) by (simp add: string_table_def names_length_def)
  note fields = symbol_fields [OF this s, of arch z]
  have rest: "collect_entries ?m arch (image_tables arch ?all) [Suc ?i..<length ?all] ns = Inr (rev (map es_name (filter text_function us)) @ ns)"
    for ns
    using Cons.IH [of "ss @ [s]" ns] Cons.prems by simp
  have "?i < length ?all" by simp
  then have list: "[?i..<length ?all] = ?i # [Suc ?i..<length ?all]" by (rule upt_conv_Cons)
  have selected: "text_function s \<longleftrightarrow> es_info s mod 16 = STT_FUNC \<and> es_info s div 16 = STB_GLOBAL \<and> es_shndx s = 3"
    by (rule text_function_def)
  show ?case
    unfolding list collect_entries.simps(2) Let_def
    using offset at fields name rest selected
    by (simp add: image_tables_def del: upt_Suc)
qed simp

lemma elf_symbols_collected_lemma:
  assumes "list_all symbol_ok ss" and "length (elf_image arch ss) < 4294967296"
  shows "cut_elf_loader_is_elf (Some (elf_image arch ss)) = Inr (Some arch) \<and>
    cut_elf_loader_collect_symbols (elf_image arch ss) arch = Inr (rev (map es_name (filter text_function ss)))"
proof
  have fits: "image_fits arch ss" using assms(2) by (simp add: image_fits_def)
  obtain c where header: "elf_image arch ss = elf_header arch (section_headers_offset arch ss) @ c"
    by (simp add: elf_image_def)
  have "16 \<le> length (elf_image arch ss)"
    using image_length [of arch ss] size_bounds(5) [of arch] by linarith
  then show "cut_elf_loader_is_elf (Some (elf_image arch ss)) = Inr (Some arch)"
    using header_type [of arch "section_headers_offset arch ss" c] header
      header_type [of arch "section_headers_offset arch ss" "c @ [0]"]
    by (cases arch) (simp_all add: cut_elf_loader_is_elf_def EI_NIDENT_def)
  show "cut_elf_loader_collect_symbols (elf_image arch ss) arch = Inr (rev (map es_name (filter text_function ss)))"
    using collect_image_entries [of arch "[]" ss "[]"] image_information [OF fits] fits assms(1)
    by (simp add: cut_elf_loader_collect_symbols_def image_tables_def)
qed

text \<open>C23: From a shared object with any symbol table, of 32 or of 64 bits, the loader reads exactly the
  names of the global functions of the text section, the last one first, and no memory outside of the
  file.\<close>

theorem elf_symbols_collected:
  assumes "list_all symbol_ok ss" and "length (elf_image arch ss) < 4294967296"
  shows "cut_elf_loader_is_elf (Some (elf_image arch ss)) = Inr (Some arch) \<and>
    cut_elf_loader_collect_symbols (elf_image arch ss) arch = Inr (rev (map es_name (filter text_function ss)))"
  using assms by (rule elf_symbols_collected_lemma)

lemma elf_symbols_collected_witness:
  "cut_elf_loader_collect_symbols
     (elf_image ARCHITECTURE_64BIT
        [\<lparr>es_name = ascii ''setup'', es_info = 18, es_shndx = 3, es_value = 4096, es_size = 8\<rparr>,
         \<lparr>es_name = ascii ''printf'', es_info = 18, es_shndx = 0, es_value = 0, es_size = 0\<rparr>,
         \<lparr>es_name = ascii ''test_a'', es_info = 18, es_shndx = 3, es_value = 4104, es_size = 8\<rparr>])
     ARCHITECTURE_64BIT = Inr [ascii ''test_a'', ascii ''setup'']"
proof -
  let ?ss = "[\<lparr>es_name = ascii ''setup'', es_info = 18, es_shndx = 3, es_value = 4096, es_size = 8\<rparr>,
    \<lparr>es_name = ascii ''printf'', es_info = 18, es_shndx = 0, es_value = 0, es_size = 0\<rparr>,
    \<lparr>es_name = ascii ''test_a'', es_info = 18, es_shndx = 3, es_value = 4104, es_size = 8\<rparr>]"
  have "list_all symbol_ok ?ss" by (simp add: symbol_ok_def ascii_def)
  moreover have "length (elf_image ARCHITECTURE_64BIT ?ss) < 4294967296"
    by (simp add: image_length section_headers_offset_def symbol_table_offset_def string_table_offset_def
        string_table_def ascii_def)
  moreover have "map es_name (filter text_function ?ss) = [ascii ''setup'', ascii ''test_a'']"
    by (simp add: text_function_def STT_FUNC_def STB_GLOBAL_def)
  ultimately show ?thesis
    using elf_symbols_collected [of ?ss ARCHITECTURE_64BIT] by simp
qed

text \<open>A file that ends behind its identification passes the length check, and the type is read beyond
  the content and its NUL.\<close>

lemma ident_overread: "cut_elf_loader_is_elf (Some (elf_ident arch)) = Inl Out_Of_Bounds"
  by (cases arch)
    (simp_all add: cut_elf_loader_is_elf_def elf_ident_def EI_NIDENT_def read_uint_def numeral_nat)

end
