(* ===== verification/Mach_O_Properties.thy ===== *)
theory Mach_O_Properties
  imports Mach_O_Loader
begin

text \<open>
  The loader for Mach-O reads the functions of an image back.
\<close>

lemma mach_lengths [simp]:
  "length (mach_header arch) = mach_header_size arch" "length (text_segment arch) = text_segment_size arch"
  "length (symtab_command a b c d) = 24" "length (nlist arch k s) = nlist_size arch"
  "length (nlists arch k ss) = length ss * nlist_size arch"
proof -
  show "length (mach_header arch) = mach_header_size arch" "length (text_segment arch) = text_segment_size arch"
    by (cases arch; simp add: name_field_def ascii_def)+
  show "length (symtab_command a b c d) = 24" by (simp add: symtab_command_def)
  show n: "length (nlist arch k s) = nlist_size arch" for k s by (cases arch) (simp_all add: nlist_def)
  show "length (nlists arch k ss) = length ss * nlist_size arch"
    by (induction ss arbitrary: k) (simp_all add: n)
qed

lemma header_commands: "read_field (mach_header arch @ c) 0 (16, 4) = Inr 2"
  by (cases arch) (simp_all add: read_field_def read_simps)

lemma segment_fields:
  "read_field (text_segment arch @ c) 0 (0, 4) = Inr (if arch = ARCHITECTURE_32BIT then LC_SEGMENT else LC_SEGMENT_64)"
  "read_field (text_segment arch @ c) 0 (4, 4) = Inr (text_segment_size arch)"
  "read_field (text_segment arch @ c) 0 (nsects arch) = Inr 1"
  by (cases arch; simp add: read_field_def read_simps name_field_def ascii_def LC_SEGMENT_def LC_SEGMENT_64_def)+

lemma segment_names:
  "same_string (drop 8 (text_segment arch @ c)) (ascii ''__TEXT'') = Inr True"
  "same_string (drop (segment_command_size arch) (text_segment arch @ c)) (ascii ''__text'') = Inr True"
proof -
  have compared: "same_string (name_field ''__TEXT'' @ c) (ascii ''__TEXT'') = Inr True"
    "same_string (name_field ''__text'' @ c) (ascii ''__text'') = Inr True" for c
    by (simp_all add: name_field_def ascii_def numeral_nat)
  have field_length: "length (name_field ''__TEXT'') = 16" by (simp add: name_field_def ascii_def)
  have "\<exists>a b. length a = 8 \<and> text_segment arch @ c = a @ name_field ''__TEXT'' @ b"
  proof (cases arch)
    case ARCHITECTURE_32BIT
    show ?thesis by (rule exI [of _ "le_bytes 4 LC_SEGMENT @ le_bytes 4 124"]) (simp add: ARCHITECTURE_32BIT field_length)
  next
    case ARCHITECTURE_64BIT
    show ?thesis by (rule exI [of _ "le_bytes 4 LC_SEGMENT_64 @ le_bytes 4 152"]) (simp add: ARCHITECTURE_64BIT field_length)
  qed
  then show "same_string (drop 8 (text_segment arch @ c)) (ascii ''__TEXT'') = Inr True"
    using compared(1) by (auto simp del: drop_append) (metis append_eq_conv_conj)
  have "\<exists>a b. length a = segment_command_size arch \<and> text_segment arch @ c = a @ name_field ''__text'' @ b"
  proof (cases arch)
    case ARCHITECTURE_32BIT
    show ?thesis
      by (rule exI [of _ "le_bytes 4 LC_SEGMENT @ le_bytes 4 124 @ name_field ''__TEXT'' @ replicate 24 0 @
          le_bytes 4 1 @ replicate 4 0"]) (simp add: ARCHITECTURE_32BIT field_length)
  next
    case ARCHITECTURE_64BIT
    show ?thesis
      by (rule exI [of _ "le_bytes 4 LC_SEGMENT_64 @ le_bytes 4 152 @ name_field ''__TEXT'' @ replicate 40 0 @
          le_bytes 4 1 @ replicate 4 0"]) (simp add: ARCHITECTURE_64BIT field_length)
  qed
  then show "same_string (drop (segment_command_size arch) (text_segment arch @ c)) (ascii ''__text'') = Inr True"
    using compared(2) by (auto simp del: drop_append) (metis append_eq_conv_conj)
qed

lemma header_magic: "take 4 (mach_header arch @ c) = le_bytes 4 (mach_magic arch)"
  by (cases arch) simp_all

lemma symtab_fields:
  assumes "a < 4294967296" "b < 4294967296" "c < 4294967296"
  shows "read_field (symtab_command a b c d @ z) 0 (0, 4) = Inr LC_SYMTAB"
    "read_field (symtab_command a b c d @ z) 0 (4, 4) = Inr 24"
    "read_field (symtab_command a b c d @ z) 0 (8, 4) = Inr a"
    "read_field (symtab_command a b c d @ z) 0 (12, 4) = Inr b"
    "read_field (symtab_command a b c d @ z) 0 (16, 4) = Inr c"
  using assms by (simp_all add: read_field_def symtab_command_def read_simps LC_SYMTAB_def)

lemma nlist_fields:
  assumes "k < 4294967296" "mach_symbol_ok s"
  shows "read_field (nlist arch k s @ z) 0 (0, 4) = Inr k"
    "read_field (nlist arch k s @ z) 0 (4, Suc 0) = Inr (ms_type s)"
    "read_field (nlist arch k s @ z) 0 (5, Suc 0) = Inr (ms_sect s)"
  using assms by (simp_all add: read_field_def nlist_def mach_symbol_ok_def read_simps)

definition text_symbol :: "mach_symbol \<Rightarrow> bool" where
  "text_symbol s \<longleftrightarrow> function_in_text (ms_type s) (ms_sect s) 1"

lemma read_mach_name:
  assumes "mach_symbol_ok s" "length a = strings" "k = length (mach_strings ss)" "k < 2147483648"
  shows "symbol_name (a @ mach_strings (ss @ s # us) @ c) strings k = Inr (ms_name s)"
proof -
  have "nat (int strings + int k + 1) = strings + (k + 1)" by simp
  moreover have "drop (strings + (k + 1)) (a @ mach_strings (ss @ s # us) @ c) =
      ms_name s @ 0 # mach_strings us @ c"
    using assms(2,3) by (simp add: mach_strings_def)
  moreover have "takeWhile (\<lambda>b. b \<noteq> 0) (ms_name s @ 0 # x) = ms_name s" for x
    by (subst takeWhile_append2) (use assms(1) in \<open>auto simp: mach_symbol_ok_def intro!: gr0I\<close>)
  ultimately show ?thesis using assms(4) by (simp add: symbol_name_def read_string_def Let_def)
qed

lemma nlists_append: "nlists arch k (ss @ us) = nlists arch k ss @ nlists arch (k + length (mach_strings ss)) us"
  by (induction ss arbitrary: k) (simp_all add: mach_strings_def add.assoc)

lemma update_image_symbols:
  assumes "list_all mach_symbol_ok (ss @ us)" "length (mach_strings (ss @ us)) < 2147483648"
    "length a = symoff" "length b = stroff"
    "m = a @ nlists arch 0 (ss @ us) @ x" "m = b @ mach_strings (ss @ us) @ y"
  shows "update_symbols_from (length us) m arch 1 stroff (symoff + length ss * nlist_size arch) names =
    Inr (rev (map ms_name (filter text_symbol us)) @ names)"
  using assms
proof (induction us arbitrary: ss names)
  case (Cons s us)
  let ?k = "length (mach_strings ss)"
  have s: "mach_symbol_ok s" using Cons.prems(1) by simp
  have k: "?k < 2147483648" using Cons.prems(2) by (simp add: mach_strings_def)
  have name: "symbol_name m stroff ?k = Inr (ms_name s)"
    unfolding Cons.prems(6) using s Cons.prems(4) refl k by (rule read_mach_name)
  have "m = (a @ nlists arch 0 ss) @ nlist arch ?k s @ (nlists arch (?k + length (ms_name s) + 2) us @ x)"
    using Cons.prems(5) nlists_append [of arch 0 ss "s # us"] by simp
  moreover have "length (a @ nlists arch 0 ss) = symoff + length ss * nlist_size arch"
    using Cons.prems(3) by simp
  ultimately have at: "read_field m (symoff + length ss * nlist_size arch) f =
      read_field (nlist arch ?k s @ (nlists arch (?k + length (ms_name s) + 2) us @ x)) 0 f" for f
    using field_behind_0 by metis
  have k': "?k < 4294967296" using k by simp
  note fields = nlist_fields [OF k' s, where arch = arch]
  have rest: "update_symbols_from (length us) m arch 1 stroff
      (symoff + length ss * nlist_size arch + nlist_size arch) ns =
    Inr (rev (map ms_name (filter text_symbol us)) @ ns)" for ns
    using Cons.IH [of "ss @ [s]" ns] Cons.prems by (simp add: algebra_simps)
  have selected: "function_in_text (ms_type s) (ms_sect s) (Suc 0) \<longleftrightarrow> text_symbol s"
    by (simp add: text_symbol_def)
  show ?case
    using at fields name rest selected by simp
qed simp

lemma mach_o_symbols_lemma:
  assumes "list_all mach_symbol_ok ss" and "length (mach_image arch ss) < 2147483648"
  shows "cut_mach_o_loader_is_mach_o (Some (mach_image arch ss)) = Some arch \<and>
    cut_mach_o_loader_collect_symbols (mach_image arch ss) arch =
      Inr (rev (map ms_name (filter text_symbol ss)))"
proof
  show "cut_mach_o_loader_is_mach_o (Some (mach_image arch ss)) = Some arch"
  proof -
    have "mach_magic arch < 256 ^ 4" by (cases arch) (simp_all add: MH_MAGIC_def MH_MAGIC_64_def)
    then have "le_value (take 4 (mach_image arch ss)) = mach_magic arch"
      by (simp add: mach_image_def Let_def header_magic le_value_bytes del: le_bytes.simps take_append)
    moreover have "4 \<le> length (mach_image arch ss)" by (cases arch) (simp_all add: mach_image_def Let_def)
    ultimately show ?thesis
      by (cases arch) (simp_all add: cut_mach_o_loader_is_mach_o_def MH_MAGIC_def MH_MAGIC_64_def)
  qed
  define symoff where "symoff = commands_size arch + 24"
  define stroff where "stroff = symoff + length ss * nlist_size arch"
  define m where "m = mach_image arch ss @ [0]"
  let ?symtab = "symtab_command symoff (length ss) stroff (length (mach_strings ss))"
  have total: "stroff + length (mach_strings ss) < 2147483648"
    using assms(2) by (simp add: mach_image_def commands_size_def symoff_def stroff_def Let_def)
  have "length ss \<le> length ss * nlist_size arch" by (cases arch) simp_all
  then have bounds: "symoff < 4294967296" "length ss < 4294967296" "stroff < 4294967296"
    using total unfolding stroff_def by linarith+
  have m: "m = mach_header arch @ text_segment arch @ ?symtab @ nlists arch 0 ss @ mach_strings ss @ [0]"
    by (simp add: m_def mach_image_def symoff_def stroff_def Let_def)
  have segment: "read_field m (mach_header_size arch) f =
      read_field (text_segment arch @ ?symtab @ nlists arch 0 ss @ mach_strings ss @ [0]) 0 f" for f
    unfolding m by (rule field_behind_0) simp
  have names: "drop (mach_header_size arch + k) m =
      drop k (text_segment arch @ ?symtab @ nlists arch 0 ss @ mach_strings ss @ [0])" for k
    unfolding m by simp
  have symtab: "read_field m (commands_size arch) f =
      read_field (?symtab @ nlists arch 0 ss @ mach_strings ss @ [0]) 0 f" for f
    using field_behind_0 [of "mach_header arch @ text_segment arch" "commands_size arch"]
    unfolding m by (simp add: commands_size_def)
  have index: "update_section_index m arch (mach_header_size arch) (0, 0) = Inr (1, 1)"
    by (simp add: update_section_index_def segment segment_fields names segment_names guint_def
        del: drop_append)
  have "update_symbols_from (length ss) m arch 1 stroff (symoff + length ([] :: mach_symbol list) * nlist_size arch) [] =
      Inr (rev (map ms_name (filter text_symbol ss)) @ [])"
    by (rule update_image_symbols [where ss = "[]" and us = ss and
          a = "mach_header arch @ text_segment arch @ ?symtab" and x = "mach_strings ss @ [0]"
          and b = "mach_header arch @ text_segment arch @ ?symtab @ nlists arch 0 ss" and y = "[0]"])
      (use assms(1) total in \<open>simp_all add: m symoff_def stroff_def commands_size_def\<close>)
  then have symbols: "update_symbols m arch (commands_size arch) 1 [] = Inr (rev (map ms_name (filter text_symbol ss)))"
    by (simp add: update_symbols_def symtab symtab_fields [OF bounds])
  have "text_segment_size arch \<le> 200" "mach_header_size arch \<le> 200" by (cases arch; simp)+
  then have next_at: "gsize (mach_header_size arch + text_segment_size arch) = commands_size arch"
    by (simp add: gsize_def commands_size_def)
  have "read_field m 0 (16, 4) = Inr 2" unfolding m by (rule header_commands)
  then show "cut_mach_o_loader_collect_symbols (mach_image arch ss) arch =
      Inr (rev (map ms_name (filter text_symbol ss)))"
    by (simp add: cut_mach_o_loader_collect_symbols_def m_def [symmetric] numeral_2_eq_2 segment segment_fields
        load_command_def index next_at symtab symtab_fields [OF bounds] symbols [simplified] LC_SEGMENT_def
        LC_SEGMENT_64_def LC_SYMTAB_def)
qed

text \<open>C25: From a bundle of any symbols, of 32 or of 64 bits, the loader reads exactly the external
  symbols that are defined in the text section, without the underscore, the last one first.\<close>

theorem mach_o_symbols_collected:
  assumes "list_all mach_symbol_ok ss" and "length (mach_image arch ss) < 2147483648"
  shows "cut_mach_o_loader_is_mach_o (Some (mach_image arch ss)) = Some arch \<and>
    cut_mach_o_loader_collect_symbols (mach_image arch ss) arch =
      Inr (rev (map ms_name (filter text_symbol ss)))"
  using assms by (rule mach_o_symbols_lemma)

lemma mach_o_symbols_collected_witness:
  "cut_mach_o_loader_collect_symbols
     (mach_image ARCHITECTURE_64BIT
        [\<lparr>ms_name = ascii ''test_a'', ms_type = 15, ms_sect = 1, ms_value = 4096\<rparr>,
         \<lparr>ms_name = ascii ''printf'', ms_type = 1, ms_sect = 0, ms_value = 0\<rparr>,
         \<lparr>ms_name = ascii ''local'', ms_type = 14, ms_sect = 1, ms_value = 4104\<rparr>])
     ARCHITECTURE_64BIT = Inr [ascii ''test_a'']"
proof -
  let ?ss = "[\<lparr>ms_name = ascii ''test_a'', ms_type = 15, ms_sect = 1, ms_value = 4096\<rparr>,
     \<lparr>ms_name = ascii ''printf'', ms_type = 1, ms_sect = 0, ms_value = 0\<rparr>,
     \<lparr>ms_name = ascii ''local'', ms_type = 14, ms_sect = 1, ms_value = 4104\<rparr>]"
  have "list_all mach_symbol_ok ?ss" by (simp add: mach_symbol_ok_def ascii_def)
  moreover have "length (mach_image ARCHITECTURE_64BIT ?ss) < 2147483648"
    by (simp add: mach_image_def commands_size_def mach_strings_def name_field_def ascii_def Let_def)
  moreover have "map ms_name (filter text_symbol ?ss) = [ascii ''test_a'']"
    by (simp add: text_symbol_def function_in_text_def N_TYPE_def N_SECT_def N_EXT_def)
  ultimately show ?thesis using mach_o_symbols_collected [of ?ss ARCHITECTURE_64BIT] by simp
qed

end
