(* ===== verification/Format_Properties.thy ===== *)
theory Format_Properties
  imports Module_Formats Loader_Properties Elf_Properties Mach_O_Properties
begin

text \<open>
  From the bytes of a module to its test case: what the loader promises for a format, and the formats
  that it reads.
\<close>

section \<open>Modules of C\<close>

definition c_symbol :: "ustring \<Rightarrow> bool" where
  "c_symbol n \<longleftrightarrow> \<not> is_gcc_cpp_symbol n \<and> \<not> is_vcc_cpp_symbol n"

text \<open>A loader that makes the tests itself and looks for no attribute functions.\<close>

definition plain_loader :: "'f loader \<Rightarrow> bool" where
  "plain_loader L \<longleftrightarrow>
     \<not> enable_convenience_attribute_definition L \<and> create_test_function L = None \<and>
     create_test_iterator_function L = None"

lemma collect_c_symbols:
  "list_all c_symbol ss \<Longrightarrow>
   collect_names ss names = Inr (rev (map c_symbol_names (filter (has_prefix TEST_NAME_PREFIX) ss)) @ names)"
  by (induction ss arbitrary: names)
    (auto simp: detect_test_function_symbol_names_def detect_cpp_test_function_symbol_names_def c_symbol_def)

lemma set_attributes_name: "lt_name (fold (\<lambda>kv. set_attribute (fst kv) (snd kv)) attributes t) = lt_name t"
  by (induction attributes arbitrary: t) (simp_all add: set_attribute_def)

lemma register_c_test:
  assumes "plain_loader L"
  shows "\<exists>t. register_valid_test E L (c_symbol_names n) = Inr t \<and>
    map_option lt_name t = (if module_symbol E n = None then None else Some n)"
  using assms
  by (auto simp: register_valid_test_def c_symbol_names_def plain_loader_def cut_loader_support_attribute_def
      Let_def create_test_def create_test_iterator_def set_attributes_name split: option.split)

lemma load_tests_total:
  assumes "\<And>n. n \<in> set names \<Longrightarrow> \<exists>t. register_valid_test E L n = Inr t" "module_case_name filename = Inr m"
  shows "\<exists>cs. load_tests E L filename names cases = Inr cs"
  using assms
proof (induction names arbitrary: cases)
  case (Cons n names)
  then obtain t where "register_valid_test E L n = Inr t" by auto
  then show ?case using Cons by (simp add: load_test_def create_test_case_def split: option.split)
qed simp

lemma c_keys: "case_keys (map c_symbol_names ns) = (if ns = [] then [] else [None])"
  by (induction ns rule: rev_induct) (simp_all add: case_keys_snoc case_keys_Nil c_symbol_names_def)

lemma c_with_key: "with_key None (map c_symbol_names ns) = map c_symbol_names ns"
  by (simp add: with_key_def c_symbol_names_def filter_map o_def)

lemma registered_names:
  assumes "plain_loader L"
  shows "map lt_name (List.map_filter (registered_test E L) (map c_symbol_names ns)) =
    filter (\<lambda>n. module_symbol E n \<noteq> None) ns"
proof (induction ns)
  case (Cons n ns)
  obtain t where "register_valid_test E L (c_symbol_names n) = Inr t"
    "map_option lt_name t = (if module_symbol E n = None then None else Some n)"
    using register_c_test [OF assms] by blast
  then show ?case using Cons by (auto simp: map_filter_simps registered_test_def split: option.split if_splits)
qed (simp add: map_filter_simps)

lemma c_module_loaded:
  assumes plain: "plain_loader L" and named: "so_filename L = Some filename"
    and m: "module_case_name filename = Inr m" and symbols: "symbols L = rev names" and c: "list_all c_symbol names"
  defines "tests \<equiv> filter (has_prefix TEST_NAME_PREFIX) names"
  shows "cut_loader_load_test_cases (Some E) L =
    Inr (if tests = [] then [] else [grouped_case E L m (map c_symbol_names tests) None])"
proof -
  let ?names = "map c_symbol_names tests"
  have "collect_test_functions (symbols L) = Inr ?names"
    using collect_c_symbols [of "rev names" "[]"] c
    by (simp add: collect_test_functions_def symbols tests_def rev_filter rev_map)
  moreover have "\<exists>t. register_valid_test E L n = Inr t" if "n \<in> set ?names" for n
    using that register_c_test [OF plain, of E] by auto
  then obtain cs where "load_tests E L filename ?names [] = Inr cs" using load_tests_total m by metis
  moreover have "names_apart m ?names" by (simp add: names_apart_def c_symbol_names_def list_all_iff)
  ultimately show ?thesis
    using load_tests_grouped [OF m, of ?names E L cs] named
    by (simp add: cut_loader_load_test_cases_def c_keys)
qed

section \<open>Formats\<close>

text \<open>A format is what writes modules of it: the law is that the loader recognises such a module and reads
  its functions back.\<close>

locale module_format =
  fixes available :: "'f host \<Rightarrow> bool"
    and image_of :: "'a \<Rightarrow> 's list \<Rightarrow> nat list"
    and image_ok :: "'a \<Rightarrow> 's list \<Rightarrow> bool"
    and names_of :: "'s list \<Rightarrow> ustring list"
  assumes detected: "available H \<Longrightarrow> image_ok a ss \<Longrightarrow> content_at H filename = Some (image_of a ss) \<Longrightarrow>
    detect_format H filename L = Inr (L\<lparr>symbols := rev (names_of ss), support_attribute := True\<rparr>)"
begin

lemma module_loaded:
  assumes "available H" "image_ok a ss" "content_at H filename = Some (image_of a ss)"
    "module_at H filename = Some E" "so_filename L = Some filename" "module_case_name filename = Inr m"
    "plain_loader L" "list_all c_symbol (names_of ss)"
  shows "\<exists>cases. load_test_cases_of_file H L = Inr cases \<and> length cases \<le> 1 \<and> list_all lc_is_c cases \<and>
    map lt_name (concat (map lc_tests cases)) =
      filter (\<lambda>n. has_prefix TEST_NAME_PREFIX n \<and> module_symbol E n \<noteq> None) (names_of ss)"
proof -
  let ?L = "L\<lparr>symbols := rev (names_of ss), support_attribute := True\<rparr>"
  let ?tests = "filter (has_prefix TEST_NAME_PREFIX) (names_of ss)"
  have "detect_format H filename L = Inr ?L" using assms(1-3) by (rule detected)
  then have "load_test_cases_of_file H L = cut_loader_load_test_cases (Some E) ?L"
    using assms(4,5) by (simp add: load_test_cases_of_file_def)
  also have "\<dots> = Inr (if ?tests = [] then [] else [grouped_case E ?L m (map c_symbol_names ?tests) None])"
    by (rule c_module_loaded) (use assms(5-8) in \<open>simp_all add: plain_loader_def\<close>)
  finally have loaded: "load_test_cases_of_file H L =
    Inr (if ?tests = [] then [] else [grouped_case E ?L m (map c_symbol_names ?tests) None])" .
  have "plain_loader ?L" using assms(7) by (simp add: plain_loader_def)
  then have "map lt_name (lc_tests (grouped_case E ?L m (map c_symbol_names ?tests) None)) =
      filter (\<lambda>n. module_symbol E n \<noteq> None) ?tests"
    by (simp add: grouped_case_def c_with_key registered_names)
  moreover have "lc_is_c (grouped_case E ?L m (map c_symbol_names ?tests) None)"
    by (simp add: grouped_case_def new_test_case_def)
  moreover have "filter (\<lambda>n. module_symbol E n \<noteq> None) ?tests =
      filter (\<lambda>n. has_prefix TEST_NAME_PREFIX n \<and> module_symbol E n \<noteq> None) (names_of ss)"
    by simp
  ultimately show ?thesis unfolding loaded by (cases "?tests = []") (auto simp del: filter_filter)
qed

end

definition elf_ok :: "architecture_bit \<Rightarrow> elf_symbol list \<Rightarrow> bool" where
  "elf_ok arch ss \<longleftrightarrow> list_all symbol_ok ss \<and> length (elf_image arch ss) < 4294967296"

definition elf_functions :: "elf_symbol list \<Rightarrow> ustring list" where
  "elf_functions ss = map es_name (filter text_function ss)"

definition mach_o_ok :: "architecture_bit \<Rightarrow> mach_symbol list \<Rightarrow> bool" where
  "mach_o_ok arch ss \<longleftrightarrow> list_all mach_symbol_ok ss \<and> length (mach_image arch ss) < 2147483648"

definition mach_o_functions :: "mach_symbol list \<Rightarrow> ustring list" where
  "mach_o_functions ss = map ms_name (filter text_symbol ss)"

interpretation elf: module_format "\<lambda>H :: 'f host. True" elf_image elf_ok elf_functions
proof
  fix H :: "'f host" and a ss filename and L :: "'f loader"
  assume "elf_ok a ss" "content_at H filename = Some (elf_image a ss)"
  then show "detect_format H filename L = Inr (L\<lparr>symbols := rev (elf_functions ss), support_attribute := True\<rparr>)"
    using elf_symbols_collected_lemma [of ss a]
    by (simp add: detect_format_def elf_ok_def elf_functions_def with_symbols_def cut_elf_loader_support_attribute_def)
qed

lemma mach_o_is_not_elf: "cut_elf_loader_is_elf (Some (mach_image arch ss)) = Inr None"
proof -
  have "take 4 (mach_image arch ss) = le_bytes 4 (mach_magic arch)"
    by (simp add: mach_image_def Let_def header_magic del: take_append)
  also have "\<dots> \<noteq> [127, 69, 76, 70]"
  proof
    assume "le_bytes 4 (mach_magic arch) = [127, 69, 76, 70]"
    moreover have "mach_magic arch < 256 ^ 4" by (cases arch) (simp_all add: MH_MAGIC_def MH_MAGIC_64_def)
    ultimately have "mach_magic arch = le_value [127, 69, 76, 70]" using le_value_bytes by metis
    then show False by (cases arch) (simp_all add: MH_MAGIC_def MH_MAGIC_64_def)
  qed
  finally show ?thesis by (simp add: cut_elf_loader_is_elf_def)
qed

interpretation mach_o: module_format "have_mach_o :: 'f host \<Rightarrow> bool" mach_image mach_o_ok mach_o_functions
proof
  fix H :: "'f host" and a ss filename and L :: "'f loader"
  assume "have_mach_o H" "mach_o_ok a ss" "content_at H filename = Some (mach_image a ss)"
  then show "detect_format H filename L = Inr (L\<lparr>symbols := rev (mach_o_functions ss), support_attribute := True\<rparr>)"
    using mach_o_symbols_lemma [of ss a]
    by (simp add: detect_format_def mach_o_ok_def mach_o_functions_def with_symbols_def mach_o_is_not_elf
        cut_mach_o_loader_support_attribute_def)
qed

text \<open>C15: From the file to the tests, for ELF: if the functions of a shared object are of C, it is loaded as at
  most one test case, whose tests are the functions that begin with \<open>test_\<close> and that
  \<open>g_module_symbol\<close> finds, in the order of the symbol table.\<close>

theorem elf_module_loaded:
  assumes "elf_ok arch ss" and "content_at H filename = Some (elf_image arch ss)"
    and "module_at H filename = Some E" and "so_filename L = Some filename" and "module_case_name filename = Inr m" and "plain_loader L"
    and "list_all c_symbol (elf_functions ss)"
  shows "\<exists>cases. load_test_cases_of_file H L = Inr cases \<and> length cases \<le> 1 \<and> list_all lc_is_c cases \<and>
    map lt_name (concat (map lc_tests cases)) =
      filter (\<lambda>n. has_prefix TEST_NAME_PREFIX n \<and> module_symbol E n \<noteq> None) (elf_functions ss)"
  using assms by (intro elf.module_loaded) simp_all

definition example_symbols :: "elf_symbol list" where
  "example_symbols =
     [\<lparr>es_name = ascii ''test_b'', es_info = 18, es_shndx = 3, es_value = 4096, es_size = 8\<rparr>,
      \<lparr>es_name = ascii ''setup'', es_info = 18, es_shndx = 3, es_value = 4104, es_size = 8\<rparr>,
      \<lparr>es_name = ascii ''printf'', es_info = 18, es_shndx = 0, es_value = 0, es_size = 0\<rparr>,
      \<lparr>es_name = ascii ''test_a'', es_info = 18, es_shndx = 3, es_value = 4112, es_size = 8\<rparr>]"

definition example_host :: "nat host" where
  "example_host = \<lparr>module_at = (\<lambda>_. Some example_module),
     content_at = (\<lambda>_. Some (elf_image ARCHITECTURE_64BIT example_symbols)), have_mach_o = False,
     other_format = (\<lambda>_. ([], False))\<rparr>"

lemma example_functions: "elf_functions example_symbols = [ascii ''test_b'', ascii ''setup'', ascii ''test_a'']"
  by (simp add: elf_functions_def example_symbols_def text_function_def STT_FUNC_def STB_GLOBAL_def)

lemma example_ok: "elf_ok ARCHITECTURE_64BIT example_symbols"
  by (simp add: elf_ok_def example_symbols_def symbol_ok_def ascii_def image_length section_headers_offset_def
      symbol_table_offset_def string_table_offset_def string_table_def)

lemma elf_module_loaded_witness:
  "\<exists>cases. load_test_cases_of_file example_host (cut_loader_new (Some (ascii ''test.so''))) = Inr cases \<and> length cases \<le> 1 \<and>
     list_all lc_is_c cases \<and> map lt_name (concat (map lc_tests cases)) = [ascii ''test_b'', ascii ''test_a'']"
proof -
  have "list_all c_symbol (elf_functions example_symbols)"
    unfolding example_functions
    by (simp add: c_symbol_def is_gcc_cpp_symbol_def is_vcc_cpp_symbol_def has_prefix_def ascii_def)
  moreover have "plain_loader (cut_loader_new (Some (ascii ''test.so'')) :: nat loader)"
    by (simp add: plain_loader_def cut_loader_new_def)
  moreover have "module_case_name (ascii ''test.so'') = Inr (ascii ''test'')" by code_simp
  moreover have "filter (\<lambda>n. has_prefix TEST_NAME_PREFIX n \<and> module_symbol example_module n \<noteq> None)
      (elf_functions example_symbols) = [ascii ''test_b'', ascii ''test_a'']"
    unfolding example_functions by code_simp
  ultimately show ?thesis
    using elf_module_loaded [OF example_ok, of example_host "ascii ''test.so''" example_module
        "cut_loader_new (Some (ascii ''test.so''))"]
    by (simp add: example_host_def cut_loader_new_def)
qed

text \<open>From the file to the tests, for Mach-O: if the functions of a bundle are of C, it is loaded as at
  most one test case, whose tests are the functions that begin with \<open>test_\<close> and that
  \<open>g_module_symbol\<close> finds, in the order of the symbol table.\<close>

lemma mach_o_module_loaded:
  assumes "have_mach_o H" and "mach_o_ok arch ss" and "content_at H filename = Some (mach_image arch ss)"
    and "module_at H filename = Some E" and "so_filename L = Some filename" and "module_case_name filename = Inr m" and "plain_loader L"
    and "list_all c_symbol (mach_o_functions ss)"
  shows "\<exists>cases. load_test_cases_of_file H L = Inr cases \<and> length cases \<le> 1 \<and> list_all lc_is_c cases \<and>
    map lt_name (concat (map lc_tests cases)) =
      filter (\<lambda>n. has_prefix TEST_NAME_PREFIX n \<and> module_symbol E n \<noteq> None) (mach_o_functions ss)"
  using assms by (rule mach_o.module_loaded)

end
