(* ===== verification/Repository.thy ===== *)
theory Repository
  imports Module_Formats Filters
begin

text \<open>
  The repository (\<open>cutter/cut-repository.c\<close>): the modules below a directory and the test suite
  they are loaded as.
\<close>

section \<open>The file system\<close>

text \<open>What \<open>g_dir_read_name\<close> returns one after the other: a file; a directory and what is in it; a
  directory that cannot be opened.\<close>

datatype dir_entries =
    No_Entry
  | File_Entry ustring dir_entries
  | Directory_Entry ustring dir_entries dir_entries
  | Unreadable_Entry ustring dir_entries

section \<open>State\<close>

text \<open>The list of the expressions may have been freed while the pointer to it is kept.\<close>

datatype filter_list = Regexs "regex list" | Freed

record 'f repository =
  directory :: "ustring option"
  exclude_files_regexs :: filter_list
  exclude_dirs_regexs :: filter_list
  loader_customizers :: "('f loader \<Rightarrow> 'f loader) list"
  loaders :: "'f loader list"
  deep :: nat
  test_suite_loader :: "'f loader option"
  keep_opening_modules :: bool
  repository_enable_attributes :: bool

definition cut_repository_new :: "ustring option \<Rightarrow> 'f repository" where
  "cut_repository_new dir =
     \<lparr>directory = dir, exclude_files_regexs = Regexs [], exclude_dirs_regexs = Regexs [],
      loader_customizers = [], loaders = [], deep = 0, test_suite_loader = None,
      keep_opening_modules = False, repository_enable_attributes = False\<rparr>"

definition cut_repository_set_keep_opening_modules :: "bool \<Rightarrow> 'f repository \<Rightarrow> 'f repository" where
  "cut_repository_set_keep_opening_modules b R = R\<lparr>keep_opening_modules := b\<rparr>"

definition cut_repository_set_enable_convenience_attribute_definition ::
  "bool \<Rightarrow> 'f repository \<Rightarrow> 'f repository" where
  "cut_repository_set_enable_convenience_attribute_definition b R = R\<lparr>repository_enable_attributes := b\<rparr>"

text \<open>NULL for the files leaves the pointer to the list that is freed, if there is one.\<close>

definition replaced_filter ::
  "(ustring \<Rightarrow> ustring) \<Rightarrow> (ustring \<Rightarrow> regex option) \<Rightarrow> ustring list option \<Rightarrow> filter_list \<Rightarrow> filter_list reading" where
  "replaced_filter escape compile files old =
     (case old of
        Freed \<Rightarrow> Inl Use_After_Free
      | Regexs rs \<Rightarrow>
          Inr (case files of
                 Some fs \<Rightarrow> Regexs (cut_utils_filter_to_regexs escape compile fs)
               | None \<Rightarrow> if rs = [] then Regexs [] else Freed))"

definition cut_repository_set_exclude_files ::
  "(ustring \<Rightarrow> ustring) \<Rightarrow> (ustring \<Rightarrow> regex option) \<Rightarrow> ustring list option \<Rightarrow> 'f repository \<Rightarrow> 'f repository reading" where
  "cut_repository_set_exclude_files escape compile files R =
     map_sum id (\<lambda>f. R\<lparr>exclude_files_regexs := f\<rparr>)
       (replaced_filter escape compile files (exclude_files_regexs R))"

definition cut_repository_set_exclude_directories ::
  "(ustring \<Rightarrow> ustring) \<Rightarrow> (ustring \<Rightarrow> regex option) \<Rightarrow> ustring list option \<Rightarrow> 'f repository \<Rightarrow> 'f repository reading" where
  "cut_repository_set_exclude_directories escape compile dirs R =
     map_sum id (\<lambda>f. R\<lparr>exclude_dirs_regexs := f\<rparr>)
       (replaced_filter escape compile dirs (exclude_dirs_regexs R))"

definition cut_repository_add_loader_customizer ::
  "('f loader \<Rightarrow> 'f loader) \<Rightarrow> 'f repository \<Rightarrow> 'f repository" where
  "cut_repository_add_loader_customizer c R = R\<lparr>loader_customizers := loader_customizers R @ [c]\<rparr>"

section \<open>Collecting the modules\<close>

definition is_test_suite_so_path_name :: "ustring \<Rightarrow> bool" where
  "is_test_suite_so_path_name path_name \<longleftrightarrow>
     has_prefix (ascii ''suite_'') (g_path_get_basename path_name) \<or>
     has_prefix (ascii ''suite-'') (g_path_get_basename path_name)"

definition update_test_suite_loader :: "'f loader \<Rightarrow> nat \<Rightarrow> 'f repository \<Rightarrow> 'f repository" where
  "update_test_suite_loader L d R =
     (let R1 = (if test_suite_loader R = None then R\<lparr>deep := d, test_suite_loader := Some L\<rparr> else R)
      in if d < deep R1 then R1\<lparr>deep := d, test_suite_loader := Some L\<rparr> else R1)"

definition is_ignore_directory :: "ustring \<Rightarrow> bool" where
  "is_ignore_directory dir_name \<longleftrightarrow>
     dir_name = ascii ''.svn'' \<or> dir_name = ascii ''.git'' \<or> dir_name = ascii ''CVS'' \<or>
     has_suffix dir_name (ascii ''.dSYM'')"

definition compute_relative_path :: "ustring list \<Rightarrow> ustring" where
  "compute_relative_path paths =
     (let ignored = paths \<noteq> [] \<and> (last paths = ascii ''.libs'' \<or> last paths = ascii ''_libs'')
      in g_build_filename (if ignored then butlast paths else paths))"

definition filter_matches :: "filter_list \<Rightarrow> ustring \<Rightarrow> bool reading" where
  "filter_matches f name =
     (case f of Regexs rs \<Rightarrow> Inr (cut_utils_filter_match rs (Some name)) | Freed \<Rightarrow> Inl Use_After_Free)"

definition module_loader :: "'f repository \<Rightarrow> ustring \<Rightarrow> ustring list \<Rightarrow> 'f loader" where
  "module_loader R path_name paths =
     fold (\<lambda>customize L. customize L) (loader_customizers R)
       ((cut_loader_new (Some path_name))
        \<lparr>base_directory := Some (compute_relative_path paths), keep_opening := keep_opening_modules R,
         enable_convenience_attribute_definition := repository_enable_attributes R\<rparr>)"

definition collect_file :: "ustring \<Rightarrow> ustring list \<Rightarrow> ustring \<Rightarrow> 'f repository \<Rightarrow> 'f repository reading" where
  "collect_file dir_name paths entry R =
     (let path_name = g_build_filename [dir_name, entry]
      in bind_reading (filter_matches (exclude_files_regexs R) entry)
           (\<lambda>excluded.
              if excluded \<or> \<not> has_suffix entry (ascii ''.'' @ G_MODULE_SUFFIX) then Inr R
              else
                (let L = module_loader R path_name paths
                 in Inr (if is_test_suite_so_path_name path_name
                         then update_test_suite_loader L (length paths) R
                         else R\<lparr>loaders := L # loaders R\<rparr>))))"

primrec collect_entries_of ::
  "dir_entries \<Rightarrow> ustring \<Rightarrow> ustring list \<Rightarrow> 'f repository \<Rightarrow> 'f repository reading" where
  "collect_entries_of No_Entry dir_name paths R = Inr R"
| "collect_entries_of (File_Entry entry rest) dir_name paths R =
     bind_reading (collect_file dir_name paths entry R) (collect_entries_of rest dir_name paths)"
| "collect_entries_of (Directory_Entry entry inside rest) dir_name paths R =
     bind_reading (filter_matches (exclude_dirs_regexs R) entry)
       (\<lambda>excluded.
          bind_reading
            (if excluded \<or> is_ignore_directory (g_build_filename [dir_name, entry]) then Inr R
             else collect_entries_of inside (g_build_filename [dir_name, entry]) (paths @ [entry]) R)
            (collect_entries_of rest dir_name paths))"
| "collect_entries_of (Unreadable_Entry entry rest) dir_name paths R =
     bind_reading (filter_matches (exclude_dirs_regexs R) entry)
       (\<lambda>excluded. collect_entries_of rest dir_name paths R)"

definition cut_repository_collect_loader ::
  "dir_entries option \<Rightarrow> ustring \<Rightarrow> ustring list \<Rightarrow> 'f repository \<Rightarrow> 'f repository reading" where
  "cut_repository_collect_loader opened dir_name paths R =
     (if is_ignore_directory dir_name then Inr R
      else (case opened of
              None \<Rightarrow> Inr R
            | Some entries \<Rightarrow> collect_entries_of entries dir_name paths R))"

section \<open>The test suite\<close>

definition cut_test_suite_new_empty :: "'f loaded_suite" where
  "cut_test_suite_new_empty = \<lparr>ls_warmup = None, ls_cooldown = None, ls_base_directory = None, ls_cases = []\<rparr>"

primrec load_all_test_cases :: "'f host \<Rightarrow> 'f loader list \<Rightarrow> 'f loaded_suite \<Rightarrow> 'f loaded_suite reading" where
  "load_all_test_cases H [] suite = Inr suite"
| "load_all_test_cases H (L # Ls) suite =
     bind_reading (load_test_cases_of_file H L)
       (\<lambda>cs. load_all_test_cases H Ls (suite\<lparr>ls_cases := ls_cases suite @ cs\<rparr>))"

definition cut_repository_create_test_suite ::
  "'f host \<Rightarrow> dir_entries option \<Rightarrow> 'f repository \<Rightarrow> ('f repository \<times> 'f loaded_suite option) reading" where
  "cut_repository_create_test_suite H opened R =
     (case directory R of
        None \<Rightarrow> Inr (R, None)
      | Some dir_name \<Rightarrow>
          bind_reading
            (if loaders R = [] then cut_repository_collect_loader opened dir_name [] (R\<lparr>deep := 0\<rparr>) else Inr R)
            (\<lambda>R1.
               bind_reading
                 (case test_suite_loader R1 of
                    None \<Rightarrow> Inr None
                  | Some L \<Rightarrow> cut_loader_load_test_suite (Option.bind (so_filename L) (module_at H)) L)
                 (\<lambda>loaded.
                    let suite = (case loaded of None \<Rightarrow> cut_test_suite_new_empty | Some s \<Rightarrow> s)
                    in map_sum id (\<lambda>s. (R1, Some s)) (load_all_test_cases H (loaders R1) suite))))"

end
