(* ===== verification/Repository_Properties.thy ===== *)
theory Repository_Properties
  imports Repository
begin

text \<open>
  Which modules below a directory are collected, in which order, and which of them makes the test
  suite.
\<close>

section \<open>Paths\<close>

lemma suffix_iff: "has_suffix s x \<longleftrightarrow> (\<exists>z. s = z @ x)"
  by (auto simp: has_suffix_def) (metis append_take_drop_id)

lemma without_slashes:
  assumes "47 \<notin> set e"
  shows "without_last_slashes e = e" "dropWhile (\<lambda>c. c = 47) e = e" "takeWhile (\<lambda>c. c = 47) (rev e) = []"
proof -
  show "without_last_slashes e = e" "takeWhile (\<lambda>c. c = 47) (rev e) = []"
    using assms by (cases e rule: rev_cases; simp add: without_last_slashes_def)+
  show "dropWhile (\<lambda>c. c = 47) e = e" using assms by (cases e) simp_all
qed

definition entry_name :: "ustring \<Rightarrow> bool" where
  "entry_name e \<longleftrightarrow> e \<noteq> [] \<and> 47 \<notin> set e"

lemma all_slashes:
  assumes "without_last_slashes (dropWhile (\<lambda>c. c = 47) d) = []"
  shows "takeWhile (\<lambda>c. c = 47) d = d"
proof -
  have "dropWhile (\<lambda>c. c = 47) d = []"
  proof (rule ccontr)
    assume "dropWhile (\<lambda>c. c = 47) d \<noteq> []"
    then obtain c r where r: "dropWhile (\<lambda>c. c = 47) d = c # r" "c \<noteq> 47"
      using hd_dropWhile [of "\<lambda>c. c = 47" d] by (cases "dropWhile (\<lambda>c. c = 47) d") auto
    then show False using assms by (auto simp: without_last_slashes_def)
  qed
  then show ?thesis by (metis append_Nil2 takeWhile_dropWhile_id)
qed

lemma build_filename_entry:
  assumes "d \<noteq> []" "entry_name e"
  obtains x where "g_build_filename [d, e] = x @ 47 # e"
proof (cases "without_last_slashes (dropWhile (\<lambda>c. c = 47) d) = []")
  case True
  then have slashes: "takeWhile (\<lambda>c. c = 47) d = d" by (rule all_slashes)
  then have "\<forall>c\<in>set d. c = 47" by (simp add: takeWhile_eq_all_conv)
  then have "last d = 47" using last_in_set [OF assms(1)] by blast
  then have "d = butlast d @ [47]" using append_butlast_last_id [OF assms(1)] by simp
  with slashes have "g_build_filename [d, e] = butlast d @ 47 # e"
    using True assms
    by (simp add: g_build_filename_def entry_name_def g_strjoin_def without_slashes Let_def)
  then show ?thesis by (rule that)
next
  case False
  have "g_build_filename [d, e] =
      (takeWhile (\<lambda>c. c = 47) d @ without_last_slashes (dropWhile (\<lambda>c. c = 47) d)) @ 47 # e"
    using False assms
    by (simp add: g_build_filename_def entry_name_def g_strjoin_def without_slashes Let_def)
  then show ?thesis by (rule that)
qed

lemma basename_entry:
  assumes "entry_name e"
  shows "g_path_get_basename (x @ 47 # e) = e"
proof -
  obtain u c where e: "e = u @ [c]" "c \<noteq> 47"
    using assms unfolding entry_name_def by (cases e rule: rev_cases) auto
  then have "without_last_slashes (x @ 47 # e) = x @ 47 # e" by (simp add: without_last_slashes_def)
  moreover have "takeWhile (\<lambda>c. c \<noteq> 47) (rev e @ 47 # rev x) = rev e"
    by (subst takeWhile_append2) (use assms in \<open>auto simp: entry_name_def\<close>)
  ultimately show ?thesis by (simp add: g_path_get_basename_def)
qed

text \<open>Below the directory of the repository only the bundles of debug information are left out: the names
  of the version control are compared with the whole path.\<close>

lemma ignored_below:
  assumes "entry_name e"
  shows "is_ignore_directory (x @ 47 # e) \<longleftrightarrow> has_suffix e (ascii ''.dSYM'')"
proof -
  have "47 \<notin> set (ascii ''.svn'')" "47 \<notin> set (ascii ''.git'')" "47 \<notin> set (ascii ''CVS'')"
    by (simp_all add: ascii_def)
  moreover have "x @ 47 # e \<noteq> y" if "47 \<notin> set y" for y using that by auto
  ultimately have "x @ 47 # e \<notin> {ascii ''.svn'', ascii ''.git'', ascii ''CVS''}" by blast
  moreover have "has_suffix (x @ 47 # e) (ascii ''.dSYM'') \<longleftrightarrow> has_suffix e (ascii ''.dSYM'')"
  proof
    assume "has_suffix (x @ 47 # e) (ascii ''.dSYM'')"
    then obtain z where z: "x @ 47 # e = z @ ascii ''.dSYM''" by (auto simp: suffix_iff)
    then have "\<exists>u. ascii ''.dSYM'' = u @ 47 # e \<or> (\<exists>v. 47 # e = v @ ascii ''.dSYM'')"
      by (metis append_eq_append_conv2)
    moreover have "ascii ''.dSYM'' \<noteq> u @ 47 # e" for u
    proof
      assume "ascii ''.dSYM'' = u @ 47 # e"
      then have "47 \<in> set (ascii ''.dSYM'')" by simp
      then show False by (simp add: ascii_def)
    qed
    ultimately obtain v where v: "47 # e = v @ ascii ''.dSYM''" by blast
    then have "v \<noteq> []" by (auto simp: ascii_def)
    with v show "has_suffix e (ascii ''.dSYM'')" by (cases v) (auto simp: suffix_iff)
  next
    assume "has_suffix e (ascii ''.dSYM'')"
    then obtain z where "x @ 47 # e = (x @ 47 # z) @ ascii ''.dSYM''" by (auto simp: suffix_iff)
    then show "has_suffix (x @ 47 # e) (ascii ''.dSYM'')" unfolding suffix_iff by blast
  qed
  ultimately show ?thesis by (simp add: is_ignore_directory_def)
qed

section \<open>The files below a directory\<close>

text \<open>All files, each with the directories that lead to it, in the order in which they are read.\<close>

primrec all_files :: "dir_entries \<Rightarrow> ustring list \<Rightarrow> (ustring list \<times> ustring) list" where
  "all_files No_Entry ds = []"
| "all_files (File_Entry e rest) ds = (ds, e) # all_files rest ds"
| "all_files (Directory_Entry e inside rest) ds = all_files inside (ds @ [e]) @ all_files rest ds"
| "all_files (Unreadable_Entry e rest) ds = all_files rest ds"

primrec entries_ok :: "dir_entries \<Rightarrow> bool" where
  "entries_ok No_Entry \<longleftrightarrow> True"
| "entries_ok (File_Entry e rest) \<longleftrightarrow> entry_name e \<and> entries_ok rest"
| "entries_ok (Directory_Entry e inside rest) \<longleftrightarrow> entry_name e \<and> entries_ok inside \<and> entries_ok rest"
| "entries_ok (Unreadable_Entry e rest) \<longleftrightarrow> entry_name e \<and> entries_ok rest"

definition searched_directory :: "regex list \<Rightarrow> ustring \<Rightarrow> bool" where
  "searched_directory dirs d \<longleftrightarrow> \<not> cut_utils_filter_match dirs (Some d) \<and> \<not> has_suffix d (ascii ''.dSYM'')"

definition is_module :: "regex list \<Rightarrow> regex list \<Rightarrow> ustring list \<times> ustring \<Rightarrow> bool" where
  "is_module files dirs f \<longleftrightarrow>
     list_all (searched_directory dirs) (fst f) \<and> \<not> cut_utils_filter_match files (Some (snd f)) \<and>
     has_suffix (snd f) (ascii ''.'' @ G_MODULE_SUFFIX)"

definition is_suite_module :: "ustring list \<times> ustring \<Rightarrow> bool" where
  "is_suite_module f \<longleftrightarrow> has_prefix (ascii ''suite_'') (snd f) \<or> has_prefix (ascii ''suite-'') (snd f)"

definition directory_path :: "ustring \<Rightarrow> ustring list \<Rightarrow> ustring" where
  "directory_path dir ds = foldl (\<lambda>p d. g_build_filename [p, d]) dir ds"

definition module_depth :: "ustring list \<times> ustring \<Rightarrow> nat" where
  "module_depth f = length (fst f)"

definition loader_of :: "'f repository \<Rightarrow> ustring \<Rightarrow> ustring list \<times> ustring \<Rightarrow> 'f loader" where
  "loader_of R dir f = module_loader R (g_build_filename [directory_path dir (fst f), snd f]) (fst f)"

definition add_module :: "ustring \<Rightarrow> ustring list \<times> ustring \<Rightarrow> 'f repository \<Rightarrow> 'f repository" where
  "add_module dir f R =
     (if is_suite_module f then update_test_suite_loader (loader_of R dir f) (module_depth f) R
      else R\<lparr>loaders := loader_of R dir f # loaders R\<rparr>)"

lemma add_module_keeps:
  "exclude_files_regexs (add_module dir f R) = exclude_files_regexs R"
  "exclude_dirs_regexs (add_module dir f R) = exclude_dirs_regexs R"
  "loader_of (add_module dir f R) = loader_of R"
  by (simp_all add: add_module_def update_test_suite_loader_def loader_of_def module_loader_def fun_eq_iff Let_def)

lemma fold_add_module_keeps:
  "exclude_files_regexs (fold (add_module dir) fs R) = exclude_files_regexs R"
  "exclude_dirs_regexs (fold (add_module dir) fs R) = exclude_dirs_regexs R"
  "loader_of (fold (add_module dir) fs R) = loader_of R"
  by (induction fs arbitrary: R) (simp_all add: add_module_keeps)

lemma all_files_below: "f \<in> set (all_files t ds) \<Longrightarrow> \<exists>us. fst f = ds @ us"
  by (induction t arbitrary: ds) (auto, metis append_assoc)

lemma no_modules_below:
  assumes "\<not> searched_directory dirs e"
  shows "filter (is_module files dirs) (all_files t (ds @ [e])) = []"
  using assms all_files_below [of _ t "ds @ [e]"] by (fastforce simp: filter_empty_conv is_module_def)

lemma directory_path_nonempty:
  assumes "dir \<noteq> []" "list_all entry_name ds"
  shows "directory_path dir ds \<noteq> []"
  using assms
proof (induction ds rule: rev_induct)
  case (snoc e ds)
  then obtain x where "g_build_filename [directory_path dir ds, e] = x @ 47 # e"
    using build_filename_entry [of "directory_path dir ds" e] by auto
  then show ?case by (simp add: directory_path_def)
qed (simp add: directory_path_def)

lemma collect_file_module:
  assumes "dir \<noteq> []" "list_all entry_name ds" "entry_name e" "list_all (searched_directory dirs) ds"
    "exclude_files_regexs R = Regexs files"
  shows "collect_file (directory_path dir ds) ds e R =
    Inr (if is_module files dirs (ds, e) then add_module dir (ds, e) R else R)"
proof -
  obtain x where "g_build_filename [directory_path dir ds, e] = x @ 47 # e"
    using build_filename_entry [OF directory_path_nonempty [OF assms(1,2)] assms(3)] by blast
  then have "is_test_suite_so_path_name (g_build_filename [directory_path dir ds, e]) \<longleftrightarrow> is_suite_module (ds, e)"
    using basename_entry [OF assms(3)] by (simp add: is_test_suite_so_path_name_def is_suite_module_def)
  then show ?thesis
    using assms(4,5)
    by (simp add: collect_file_def filter_matches_def is_module_def add_module_def loader_of_def module_depth_def Let_def)
qed

lemma collect_entries_modules:
  assumes "dir \<noteq> []" "list_all entry_name ds" "entries_ok t" "list_all (searched_directory dirs) ds"
    "exclude_files_regexs R = Regexs files" "exclude_dirs_regexs R = Regexs dirs"
  shows "collect_entries_of t (directory_path dir ds) ds R =
    Inr (fold (add_module dir) (filter (is_module files dirs) (all_files t ds)) R)"
  using assms
proof (induction t arbitrary: ds R)
  case (File_Entry e rest)
  then show ?case
    using collect_file_module [of dir ds e dirs R files] by (simp add: add_module_keeps)
next
  case (Directory_Entry e inside rest)
  have path: "g_build_filename [directory_path dir ds, e] = directory_path dir (ds @ [e])"
    by (simp add: directory_path_def)
  obtain x where x: "directory_path dir (ds @ [e]) = x @ 47 # e"
    using build_filename_entry [OF directory_path_nonempty [of dir ds], of e] Directory_Entry.prems path by auto
  have e: "entry_name e" using Directory_Entry.prems(3) by simp
  show ?case
  proof (cases "searched_directory dirs e")
    case True
    then have "collect_entries_of inside (directory_path dir (ds @ [e])) (ds @ [e]) R =
        Inr (fold (add_module dir) (filter (is_module files dirs) (all_files inside (ds @ [e]))) R)"
      using Directory_Entry.prems e by (intro Directory_Entry.IH(1)) simp_all
    then show ?thesis
      using True Directory_Entry.prems Directory_Entry.IH(2) ignored_below [OF e, of x]
      by (simp add: path filter_matches_def searched_directory_def x fold_add_module_keeps)
  next
    case False
    then show ?thesis
      using Directory_Entry.prems Directory_Entry.IH(2) [of ds R] ignored_below [OF e, of x]
        no_modules_below [OF False, of files inside ds]
      by (auto simp: path filter_matches_def searched_directory_def x)
  qed
next
  case (Unreadable_Entry e rest)
  then show ?case by (simp add: filter_matches_def)
qed simp

section \<open>The module of the test suite\<close>

lemma arg_min_list_snoc:
  "arg_min_list f (xs @ [x]) = (if xs = [] then x else if f x < f (arg_min_list f xs) then x else arg_min_list f xs)"
  for f :: "'a \<Rightarrow> nat"
proof (induction xs)
  case (Cons a xs)
  then show ?case by (cases xs) (auto simp: Let_def)
qed simp

lemma fold_add_module:
  fixes R :: "'f repository"
  assumes "test_suite_loader R = None"
  defines "suites fs \<equiv> filter is_suite_module fs"
  shows "loaders (fold (add_module dir) fs R) = rev (map (loader_of R dir) (filter (\<lambda>f. \<not> is_suite_module f) fs)) @ loaders R"
    "test_suite_loader (fold (add_module dir) fs R) =
      (if suites fs = [] then None else Some (loader_of R dir (arg_min_list module_depth (suites fs))))"
    "suites fs \<noteq> [] \<Longrightarrow> deep (fold (add_module dir) fs R) = module_depth (arg_min_list module_depth (suites fs))"
proof (induction fs rule: rev_induct)
  case (snoc f fs)
  obtain S where S_def: "fold (add_module dir) fs R = S" by simp
  have S: "fold (add_module dir) (fs @ [f]) R = add_module dir f S" by (simp add: S_def)
  have keeps: "loader_of S = loader_of R" unfolding S_def [symmetric] by (rule fold_add_module_keeps(3))
  note IH = snoc(1-3) [unfolded S_def]
  note step = add_module_def update_test_suite_loader_def keeps Let_def
  case 1
  show ?case unfolding S using IH(1) by (simp add: step)
  case 2
  show ?case unfolding S using IH(2,3) by (auto simp: step suites_def arg_min_list_snoc)
  case 3
  then show ?case unfolding S using IH(2,3) by (auto simp: step suites_def arg_min_list_snoc split: if_splits)
qed (use assms in simp_all)

text \<open>C22: The repository collects exactly the modules below its directory that no filter excludes, neither
  by the name of the file nor by that of a directory on the way, the last one first; and of those whose
  name begins with \<open>suite_\<close> or \<open>suite-\<close> it takes for the test suite the one in the
  shallowest directory, and among these the first.\<close>

theorem modules_collected:
  assumes "dir \<noteq> []" and "\<not> is_ignore_directory dir" and "entries_ok entries"
    and "exclude_files_regexs R = Regexs files" and "exclude_dirs_regexs R = Regexs dirs"
    and "test_suite_loader R = None" and "modules = filter (is_module files dirs) (all_files entries [])"
    and "suites = filter is_suite_module modules"
  shows "\<exists>R'. cut_repository_collect_loader (Some entries) dir [] R = Inr R' \<and>
    loaders R' = rev (map (loader_of R dir) (filter (\<lambda>f. \<not> is_suite_module f) modules)) @ loaders R \<and>
    test_suite_loader R' =
      (if suites = [] then None else Some (loader_of R dir (arg_min_list module_depth suites)))"
  using collect_entries_modules [of dir "[]" entries dirs R files] fold_add_module(1,2) [OF assms(6), where dir = dir and fs = modules] assms
  by (simp add: cut_repository_collect_loader_def directory_path_def)

definition example_entries :: dir_entries where
  "example_entries =
     Directory_Entry (ascii ''sub'') (File_Entry (ascii ''suite_sub.so'') (File_Entry (ascii ''test_b.so'') No_Entry))
       (File_Entry (ascii ''suite_all.so'')
         (Directory_Entry (ascii ''.svn'') (File_Entry (ascii ''test_old.so'') No_Entry)
           (File_Entry (ascii ''test_a.so'') (File_Entry (ascii ''test_a.c'') No_Entry))))"

lemma modules_collected_witness:
  "\<exists>R'. cut_repository_collect_loader (Some example_entries) (ascii ''test'') []
      (cut_repository_new (Some (ascii ''test'')) :: nat repository) = Inr R' \<and>
     map so_filename (loaders R') =
       map Some [ascii ''test/test_a.so'', ascii ''test/.svn/test_old.so'', ascii ''test/sub/test_b.so''] \<and>
     map_option so_filename (test_suite_loader R') = Some (Some (ascii ''test/suite_all.so''))"
proof -
  let ?R = "cut_repository_new (Some (ascii ''test'')) :: nat repository"
  let ?modules = "filter (is_module [] []) (all_files example_entries [])"
  have "\<not> is_ignore_directory (ascii ''test'')" "entries_ok example_entries" by code_simp+
  moreover have "ascii ''test'' \<noteq> []" by (simp add: ascii_def)
  moreover have "exclude_files_regexs ?R = Regexs []" "exclude_dirs_regexs ?R = Regexs []"
    "test_suite_loader ?R = None" "loaders ?R = []"
    by (simp_all add: cut_repository_new_def)
  moreover have "map so_filename (map (loader_of ?R (ascii ''test'')) (filter (\<lambda>f. \<not> is_suite_module f) ?modules)) =
      map Some [ascii ''test/sub/test_b.so'', ascii ''test/.svn/test_old.so'', ascii ''test/test_a.so'']"
    by code_simp
  moreover have "filter is_suite_module ?modules \<noteq> []" by code_simp
  moreover have "so_filename (loader_of ?R (ascii ''test'') (arg_min_list module_depth (filter is_suite_module ?modules))) =
      Some (ascii ''test/suite_all.so'')"
    by code_simp
  ultimately show ?thesis
    using modules_collected [of "ascii ''test''" example_entries ?R "[]" "[]" ?modules "filter is_suite_module ?modules"]
    by (auto simp: rev_map [symmetric] map_map [symmetric] simp del: map_map)
qed

text \<open>Taking the filter away leaves a pointer to the freed list, which the next file is matched with.\<close>

lemma cleared_filter_used_after_free:
  "bind_reading (cut_repository_set_exclude_files escape compile None (R\<lparr>exclude_files_regexs := Regexs (r # rs)\<rparr>))
     (collect_file dir_name paths entry) = Inl Use_After_Free"
  by (simp add: cut_repository_set_exclude_files_def replaced_filter_def collect_file_def filter_matches_def Let_def)

end
