(* ===== verification/Differ_Properties.thy ===== *)
theory Differ_Properties
  imports Differ_Lines
begin

text \<open>
  What a diff shows: the lines of both texts, the hunks of the unified format, the widths of
  the marks under similar lines, and when a string is produced at all.
\<close>

section \<open>The lines a diff shows\<close>

text \<open>The lines written with one of some tags, in order.\<close>

fun shown :: "diff_tag list \<Rightarrow> writer_call list \<Rightarrow> ustring list" where
  "shown tags [] = []"
| "shown tags (Write_Line s tag # cs) = (if tag \<in> set tags then s # shown tags cs else shown tags cs)"
| "shown tags (c # cs) = shown tags cs"

abbreviation "from_tags \<equiv> [TAG_EQUAL_LINE, TAG_DELETED_LINE]"
abbreviation "to_tags \<equiv> [TAG_EQUAL_LINE, TAG_INSERTED_LINE]"

lemma shown_append [simp]: "shown tags (cs @ ds) = shown tags cs @ shown tags ds"
  by (induction tags cs rule: shown.induct) auto

lemma shown_concat: "shown tags (concat css) = concat (map (shown tags) css)"
  by (induction css) auto

lemma shown_mark_line [simp]:
  "shown tags (cut_diff_writer_mark_line mark sep line tag) = (if tag \<in> set tags then [line] else [])"
  by (auto simp: cut_diff_writer_mark_line_def cut_diff_writer_write_mark_def
      cut_diff_writer_write_def cut_diff_writer_write_line_def split: option.split)

lemma map_nth_slice: "e \<le> length xs \<Longrightarrow> map (\<lambda>i. xs ! i) [b..<e] = slice xs b e"
  by (rule nth_equalityI) (auto simp: length_slice slice_nth)

lemma shown_mark_lines:
  assumes "e \<le> length lines"
  shows "shown tags (cut_diff_writer_mark_lines mark sep lines b e tag) =
    (if tag \<in> set tags then slice lines b e else [])"
proof -
  have "concat (map (\<lambda>i. if tag \<in> set tags then [lines ! i] else []) [b..<e]) =
      (if tag \<in> set tags then map (\<lambda>i. lines ! i) [b..<e] else [])"
    by (induction "[b..<e]") auto
  then show ?thesis
    by (simp add: cut_diff_writer_mark_lines_def shown_concat comp_def map_nth_slice [OF assms]
        cong: if_cong)
qed

lemma shown_marks:
  "e \<le> length lines \<Longrightarrow> shown from_tags (mark_equal lines b e) = slice lines b e"
  "e \<le> length lines \<Longrightarrow> shown to_tags (mark_equal lines b e) = slice lines b e"
  "e \<le> length lines \<Longrightarrow> shown from_tags (mark_deleted lines b e) = slice lines b e"
  "e \<le> length lines \<Longrightarrow> shown to_tags (mark_deleted lines b e) = []"
  "e \<le> length lines \<Longrightarrow> shown from_tags (mark_inserted lines b e) = []"
  "e \<le> length lines \<Longrightarrow> shown to_tags (mark_inserted lines b e) = slice lines b e"
  "e \<le> length lines \<Longrightarrow> shown from_tags (mark_difference lines b e) = []"
  "e \<le> length lines \<Longrightarrow> shown to_tags (mark_difference lines b e) = []"
  "e \<le> length lines \<Longrightarrow> shown from_tags (unified_mark_equal lines b e) = slice lines b e"
  "e \<le> length lines \<Longrightarrow> shown to_tags (unified_mark_equal lines b e) = slice lines b e"
  "e \<le> length lines \<Longrightarrow> shown from_tags (unified_mark_deleted lines b e) = slice lines b e"
  "e \<le> length lines \<Longrightarrow> shown to_tags (unified_mark_deleted lines b e) = []"
  "e \<le> length lines \<Longrightarrow> shown from_tags (unified_mark_inserted lines b e) = []"
  "e \<le> length lines \<Longrightarrow> shown to_tags (unified_mark_inserted lines b e) = slice lines b e"
  by (simp_all add: mark_equal_def mark_deleted_def mark_inserted_def mark_difference_def
      unified_mark_equal_def unified_mark_deleted_def unified_mark_inserted_def shown_mark_lines)

lemma shown_summary [simp]:
  "shown from_tags (cut_differ_write_summary ops) = []"
  "shown to_tags (cut_differ_write_summary ops) = []"
  by (simp_all add: cut_differ_write_summary_def Let_def cut_diff_writer_write_line_def)

lemma shown_finish [simp]: "shown tags cut_diff_writer_finish = []"
  by (simp add: cut_diff_writer_finish_def)

lemma shown_readable_line:
  assumes "kind \<noteq> COLORIZE"
  shows "shown from_tags (diff_line iswide kind l1 l2) = [l1]"
    "shown to_tags (diff_line iswide kind l1 l2) = [l2]"
  using assms by (auto simp: diff_line_def readable_diff_line_def format_diff_point_def shown_marks
      Let_def slice_def split: prod.split)

lemma slice_split:
  assumes "b \<le> i" "i < e" "e \<le> length xs"
  shows "slice xs b i @ xs ! i # slice xs (i + 1) e = slice xs b e"
  using assms slice_append [of b i e xs] slice_Suc [of i e xs] by simp

text \<open>Recursion over the differing lines, once for the two functions.\<close>

lemma diff_lines_shown:
  assumes "kind \<noteq> COLORIZE"
  shows "fb < fe \<Longrightarrow> tb < te \<Longrightarrow> fe \<le> length f \<Longrightarrow> te \<le> length t \<Longrightarrow>
      shown from_tags (diff_lines iswide kind f fb fe t tb te) = slice f fb fe \<and>
      shown to_tags (diff_lines iswide kind f fb fe t tb te) = slice t tb te"
    and "fb \<le> fe \<Longrightarrow> tb \<le> te \<Longrightarrow> fe \<le> length f \<Longrightarrow> te \<le> length t \<Longrightarrow>
      shown from_tags (mark_diff_lines iswide kind f fb fe t tb te) = slice f fb fe \<and>
      shown to_tags (mark_diff_lines iswide kind f fb fe t tb te) = slice t tb te"
  using assms
proof (induction iswide kind f fb fe t tb te and iswide kind f fb fe t tb te
    rule: diff_lines_mark_diff_lines.induct)
  case (1 iswide kind f fb fe t tb te)
  then show ?case by (subst (1 2) mark_diff_lines.simps) (simp add: shown_marks)
next
  case (2 iswide kind f fb fe t tb te)
  show ?case
  proof (cases "best_index kind f fb fe t tb te")
    case None
    then show ?thesis using "2.prems"
      by (subst (1 2) diff_lines.simps) (simp add: shown_marks)
  next
    case (Some p)
    obtain i j where p: "p = (i, j)" by force
    have r: "fb \<le> i" "i < fe" "tb \<le> j" "j < te"
      using best_index_in [of kind f fb fe t tb te i j] Some p "2.prems" by auto
    show ?thesis
      using "2.IH"(1) [OF Some p [symmetric]] "2.IH"(2) [OF Some p [symmetric]] "2.prems" r
      by (subst (1 2) diff_lines.simps)
         (simp add: Some p shown_readable_line slice_split [simplified])
  qed
qed

lemma diff_operation_shown:
  assumes "kind \<noteq> COLORIZE" "operation_ok f t oper"
  shows "shown from_tags (diff_operation iswide kind f t oper) = slice f (from_begin oper) (from_end oper)"
    "shown to_tags (diff_operation iswide kind f t oper) = slice t (to_begin oper) (to_end oper)"
  using assms diff_lines_shown(1) [OF assms(1), of "from_begin oper" "from_end oper"
      "to_begin oper" "to_end oper" f t iswide]
  by (auto simp: diff_operation_def operation_ok_def shown_marks split: operation_type.splits)

lemma diff_operations_shown:
  assumes "kind \<noteq> COLORIZE" "edit_script f t ops"
  shows "shown from_tags (diff_operations iswide kind ops f t) = f"
    "shown to_tags (diff_operations iswide kind ops f t) = t"
proof -
  have ok: "\<forall>oper\<in>set ops. operation_ok f t oper" using assms(2) by (simp add: edit_script_def)
  have "shown from_tags (diff_operations iswide kind ops f t) =
      concat (map (\<lambda>oper. slice f (from_begin oper) (from_end oper)) ops)"
    unfolding diff_operations_def shown_concat map_map comp_def
    by (intro arg_cong [where f = concat] map_cong refl diff_operation_shown [OF assms(1)])
       (use ok in simp)
  then show "shown from_tags (diff_operations iswide kind ops f t) = f"
    using edit_script_replay(2) [OF assms(2)] by simp
  have "shown to_tags (diff_operations iswide kind ops f t) =
      concat (map (apply_operation f t) ops)"
    unfolding diff_operations_def shown_concat map_map comp_def
    by (intro arg_cong [where f = concat] map_cong refl)
       (use ok in \<open>simp add: diff_operation_shown [OF assms(1)] apply_operation_ok\<close>)
  then show "shown to_tags (diff_operations iswide kind ops f t) = t"
    using edit_script_replay(1) [OF assms(2)] by simp
qed

section \<open>The matcher of a differ\<close>

lemma new_differ_matcher:
  assumes "differ_matcher d = None"
  shows "fst (cut_differ_get_sequence_matcher d) =
    fold matcher_step (case get_initial_context_size (differ_kind d) of None \<Rightarrow> [] | Some n \<Rightarrow> [Set_Context_Size n])
      (cut_sequence_matcher_string_new_full (differ_from d) (differ_to d) None)"
  using assms by (auto simp: cut_differ_get_sequence_matcher_def cut_sequence_matcher_string_new_def
      Let_def split: option.split)

lemma readable_context:
  assumes "differ_matcher d = None" "differ_kind d \<noteq> UNIFIED"
  shows "cut_sequence_matcher_get_context_size (fst (cut_differ_get_sequence_matcher d)) = 0"
proof -
  have "get_initial_context_size (differ_kind d) = Some 0"
    using assms(2) by (cases "differ_kind d") (simp_all add: get_initial_context_size_def)
  then show ?thesis
    using assms(1) by (simp add: cut_differ_get_sequence_matcher_def
        cut_sequence_matcher_get_context_size_def cut_sequence_matcher_set_context_size_def
        cut_sequence_matcher_string_new_def cut_sequence_matcher_string_new_full_def
        dispose_goruped_operations_def Let_def)
qed

lemma differ_script:
  assumes "differ_matcher d = None" "length (differ_to d) < 4294967296"
  shows "edit_script (differ_from d) (differ_to d)
    (fst (cut_sequence_matcher_get_operations (fst (cut_differ_get_sequence_matcher d))))"
  unfolding new_differ_matcher [OF assms(1)] cut_sequence_matcher_string_new_full_def
  by (rule string_contents.script [OF assms(2)])

lemma readable_diff_calls:
  assumes "differ_matcher d = None" "differ_kind d \<noteq> UNIFIED"
  shows "fst (cut_differ_diff iswide d) =
    diff_operations iswide (differ_kind d)
      (fst (cut_sequence_matcher_get_operations (fst (cut_differ_get_sequence_matcher d))))
      (differ_from d) (differ_to d) @ cut_diff_writer_finish"
  using readable_context [OF assms] assms(2)
  by (simp add: cut_differ_diff_def readable_diff_def Let_def split_beta)

lemma readable_shown:
  assumes "differ_matcher d = None" "differ_kind d = READABLE" "length (differ_to d) < 4294967296"
  shows "shown from_tags (fst (cut_differ_diff iswide d)) = differ_from d"
    "shown to_tags (fst (cut_differ_diff iswide d)) = differ_to d"
  using diff_operations_shown [OF _ differ_script [OF assms(1,3)], of READABLE iswide] assms(1,2)
  by (simp_all add: readable_diff_calls)

section \<open>Hunks of the unified diff\<close>

lemma joined_slices:
  assumes "successively joins ops" "ops \<noteq> []"
    and "\<forall>oper\<in>set ops. from_begin oper \<le> from_end oper \<and> to_begin oper \<le> to_end oper"
  shows "concat (map (\<lambda>oper. slice f (from_begin oper) (from_end oper)) ops) =
      slice f (from_begin (hd ops)) (from_end (last ops))"
    and "concat (map (\<lambda>oper. slice t (to_begin oper) (to_end oper)) ops) =
      slice t (to_begin (hd ops)) (to_end (last ops))"
    and "from_begin (hd ops) \<le> from_end (last ops) \<and> to_begin (hd ops) \<le> to_end (last ops)"
  using assms
proof (induction ops)
  case (Cons oper ops)
  {
    case 1
    with Cons slice_append [of "from_begin oper" "from_end oper" "from_end (last ops)" f] show ?case
      by (cases ops) (auto simp: joins_def)
  next
    case 2
    with Cons slice_append [of "to_begin oper" "to_end oper" "to_end (last ops)" t] show ?case
      by (cases ops) (auto simp: joins_def)
  next
    case 3
    with Cons show ?case by (cases ops) (auto simp: joins_def)
  }
qed simp_all

lemma unified_operation_shown:
  assumes "piece_ok f t oper"
  shows "shown from_tags (unified_operation f t oper) =
      (if op_type oper = INSERT then [] else slice f (from_begin oper) (from_end oper))"
    "shown to_tags (unified_operation f t oper) =
      (if op_type oper = DELETE then [] else slice t (to_begin oper) (to_end oper))"
  using assms by (auto simp: unified_operation_def piece_ok_def shown_marks split: operation_type.splits)

text \<open>The pieces of a group keep the empty side of an insertion and of a deletion.\<close>

definition sides_ok :: "operation \<Rightarrow> bool" where
  "sides_ok oper \<longleftrightarrow>
     (op_type oper = INSERT \<longrightarrow> from_begin oper = from_end oper) \<and>
     (op_type oper = DELETE \<longrightarrow> to_begin oper = to_end oper)"

lemma changes_sides:
  assumes "\<forall>oper\<in>set ops. operation_ok f t oper" "changes (concat gs) = changes ops" "g \<in> set gs" "oper \<in> set g"
  shows "sides_ok oper"
proof (cases "op_type oper = EQUAL")
  case False
  then have "oper \<in> set (changes (concat gs))" using assms(3,4) by auto
  then have "oper \<in> set ops" unfolding assms(2) by simp
  then show ?thesis using assms(1) by (auto simp: sides_ok_def operation_ok_def split: operation_type.splits)
qed (simp add: sides_ok_def)

lemma unified_hunk_shown:
  assumes "successively joins g" "g \<noteq> []" "\<forall>oper\<in>set g. piece_ok f t oper \<and> sides_ok oper"
  shows "shown from_tags (unified_hunk f t g) = slice f (from_begin (hd g)) (from_end (last g))"
    "shown to_tags (unified_hunk f t g) = slice t (to_begin (hd g)) (to_end (last g))"
proof -
  have le: "\<forall>oper\<in>set g. from_begin oper \<le> from_end oper \<and> to_begin oper \<le> to_end oper"
    using assms(3) by (simp add: piece_ok_def)
  have "concat (map (\<lambda>oper. shown from_tags (unified_operation f t oper)) g) =
      concat (map (\<lambda>oper. slice f (from_begin oper) (from_end oper)) g)"
    using assms(3) by (intro arg_cong [where f = concat] map_cong refl)
      (auto simp: unified_operation_shown sides_ok_def)
  then show "shown from_tags (unified_hunk f t g) = slice f (from_begin (hd g)) (from_end (last g))"
    by (simp add: unified_hunk_def shown_concat comp_def joined_slices(1) [OF assms(1,2) le])
  have "concat (map (\<lambda>oper. shown to_tags (unified_operation f t oper)) g) =
      concat (map (\<lambda>oper. slice t (to_begin oper) (to_end oper)) g)"
    using assms(3) by (intro arg_cong [where f = concat] map_cong refl)
      (auto simp: unified_operation_shown sides_ok_def)
  then show "shown to_tags (unified_hunk f t g) = slice t (to_begin (hd g)) (to_end (last g))"
    by (simp add: unified_hunk_def shown_concat comp_def joined_slices(2) [OF assms(1,2) le])
qed

text \<open>The groups of a differ.\<close>

definition differ_groups :: "differ \<Rightarrow> operation list list" where
  "differ_groups d =
     fst (cut_sequence_matcher_get_grouped_operations (fst (cut_differ_get_sequence_matcher d)))"

lemma differ_groups_compute:
  assumes "differ_matcher d = None"
  shows "differ_groups d = compute_groups (context_size (fst (cut_differ_get_sequence_matcher d)))
      (compute_operations (cut_sequence_matcher_string_new (differ_from d) (differ_to d)))"
  unfolding differ_groups_def new_differ_matcher [OF assms]
  by (simp add: cut_sequence_matcher_string_new_def cut_sequence_matcher_string_new_full_def
      calls_results [OF new_cache_ok])

lemma unified_context:
  assumes "differ_matcher d = None" "differ_kind d = UNIFIED"
  shows "context_size (fst (cut_differ_get_sequence_matcher d)) = 3"
  using assms by (simp add: cut_differ_get_sequence_matcher_def get_initial_context_size_def Let_def
      cut_sequence_matcher_string_new_def cut_sequence_matcher_string_new_full_def)

lemma differ_compute_script:
  assumes "length (differ_to d) < 4294967296"
  shows "edit_script (differ_from d) (differ_to d)
    (compute_operations (cut_sequence_matcher_string_new (differ_from d) (differ_to d)))"
  using compute_operations_script [OF string_contents.wf [OF assms, of "differ_from d" None]]
  by (simp add: cut_sequence_matcher_string_new_def cut_sequence_matcher_string_new_full_def)

lemma unified_group:
  assumes "differ_matcher d = None" "differ_kind d = UNIFIED"
    and "length (differ_from d) < 2147483648" "length (differ_to d) < 2147483648"
    and "g \<in> set (differ_groups d)"
  shows "g \<noteq> []" "successively joins g"
    "\<forall>oper\<in>set g. context_ok 3 (differ_from d) (differ_to d) oper \<and> sides_ok oper"
proof -
  let ?ops = "compute_operations (cut_sequence_matcher_string_new (differ_from d) (differ_to d))"
  have script: "edit_script (differ_from d) (differ_to d) ?ops"
    using assms(4) by (intro differ_compute_script) simp
  have g: "g \<in> set (compute_groups 3 ?ops)"
    using assms(5) by (simp add: differ_groups_compute [OF assms(1)] unified_context [OF assms(1,2)])
  show "g \<noteq> []" "successively joins g" using compute_groups_joined [OF script g] .
  show "\<forall>oper\<in>set g. context_ok 3 (differ_from d) (differ_to d) oper \<and> sides_ok oper"
    using compute_groups_context [OF assms(3,4) _ script g] script
      changes_sides [OF _ compute_groups_changes g] by (auto simp: edit_script_def)
qed

lemma unified_diff_calls:
  assumes "differ_matcher d = None" "differ_kind d = UNIFIED"
  shows "fst (cut_differ_diff iswide d) =
    (if cut_differ_util_is_same_content (differ_groups d) then []
     else write_header d @ concat (map (unified_hunk (differ_from d) (differ_to d)) (differ_groups d)) @
          cut_diff_writer_finish)"
  using assms(2) by (simp add: cut_differ_diff_def unified_diff_def differ_groups_def Let_def split_beta)

section \<open>Equal contents\<close>

lemma equal_script_same:
  assumes "edit_script f t ops" "changes ops = []"
  shows "f = t"
proof -
  have "\<forall>oper\<in>set ops. op_type oper = EQUAL" using assms(2) by (auto simp: filter_empty_conv)
  then have "concat (map (apply_operation f t) ops) =
      concat (map (\<lambda>oper. slice f (from_begin oper) (from_end oper)) ops)"
    by (intro arg_cong [where f = concat] map_cong refl) (simp add: apply_operation_def)
  then show ?thesis using edit_script_replay [OF assms(1)] by simp
qed

lemma equal_groups:
  assumes "f = t" "length t < 4294967296"
  shows "cut_differ_util_is_same_content
    (compute_groups 3 (compute_operations (cut_sequence_matcher_string_new f t)))"
proof -
  let ?m = "cut_sequence_matcher_string_new f t"
  have m: "matcher_wf ?m" "from_seq ?m = f" "to_seq ?m = t" "junks ?m = []"
    using string_contents.wf [OF assms(2), of f None]
    by (simp_all add: cut_sequence_matcher_string_new_def cut_sequence_matcher_string_new_full_def,
        simp add: cut_sequence_matcher_new_def update_to_indices_def cut_sequence_matcher_init_def)
  show ?thesis
  proof (cases "t = []")
    case True
    then have "compute_operations ?m = []"
      using m assms(1) edit_script_replay [OF compute_operations_script [OF m(1)]]
        compute_operations_script [OF m(1)]
      by (cases "compute_operations ?m")
         (auto simp: edit_script_def operation_ok_def split: operation_type.splits)
    then show ?thesis
      by (simp add: compute_groups_def get_edge_expanded_copied_operations_def
          cut_sequence_match_operation_new_def cut_differ_util_is_same_content_def Let_def)
  next
    case False
    then have "compute_operations ?m =
        [cut_sequence_match_operation_new EQUAL 0 (length t) 0 (length t)]"
      using compute_operations_equal [OF m(1) _ m(4)] m(2,3) assms(1) by simp
    then show ?thesis
      by (simp add: compute_groups_def get_edge_expanded_copied_operations_def
          cut_sequence_match_operation_new_def cut_differ_util_is_same_content_def Let_def)
  qed
qed

lemma same_content_changes: "cut_differ_util_is_same_content gs \<Longrightarrow> changes (concat gs) = []"
  by (auto simp: cut_differ_util_is_same_content_def split: list.splits)

lemma unified_empty_iff:
  assumes "differ_matcher d = None" "differ_kind d = UNIFIED" "length (differ_to d) < 4294967296"
  shows "fst (cut_differ_diff iswide d) = [] \<longleftrightarrow> differ_from d = differ_to d"
proof -
  have groups: "differ_groups d =
      compute_groups 3 (compute_operations (cut_sequence_matcher_string_new (differ_from d) (differ_to d)))"
    by (simp add: differ_groups_compute [OF assms(1)] unified_context [OF assms(1,2)])
  have "cut_differ_util_is_same_content (differ_groups d) \<longleftrightarrow> differ_from d = differ_to d"
    using equal_groups [OF _ assms(3)] same_content_changes [of "differ_groups d"]
      equal_script_same [OF differ_compute_script [OF assms(3)]]
    by (auto simp: groups compute_groups_changes)
  then show ?thesis
    by (simp add: unified_diff_calls [OF assms(1,2)] cut_diff_writer_finish_def)
qed

section \<open>The string result\<close>

lemma no_finish_marks [simp]:
  "Finish \<notin> set (cut_diff_writer_mark_lines mark sep lines b e tag)"
  by (auto simp: cut_diff_writer_mark_lines_def cut_diff_writer_mark_line_def
      cut_diff_writer_write_mark_def cut_diff_writer_write_def cut_diff_writer_write_line_def
      split: option.splits if_splits)

lemma no_finish_line: "kind \<noteq> COLORIZE \<Longrightarrow> Finish \<notin> set (diff_line iswide kind l1 l2)"
  by (simp add: diff_line_def readable_diff_line_def format_diff_point_def Let_def split_beta
      mark_deleted_def mark_inserted_def mark_difference_def)

lemma no_finish_lines:
  "kind \<noteq> COLORIZE \<Longrightarrow> Finish \<notin> set (diff_lines iswide kind f fb fe t tb te)"
  "kind \<noteq> COLORIZE \<Longrightarrow> Finish \<notin> set (mark_diff_lines iswide kind f fb fe t tb te)"
proof (induction iswide kind f fb fe t tb te and iswide kind f fb fe t tb te
    rule: diff_lines_mark_diff_lines.induct)
  case (1 iswide kind f fb fe t tb te)
  then show ?case
    by (subst mark_diff_lines.simps) (simp add: mark_deleted_def mark_inserted_def)
next
  case (2 iswide kind f fb fe t tb te)
  then show ?case
    by (subst diff_lines.simps)
       (auto simp: mark_deleted_def mark_inserted_def no_finish_line split: option.split)
qed

lemma no_finish_operations:
  "kind \<noteq> COLORIZE \<Longrightarrow> Finish \<notin> set (diff_operations iswide kind ops f t)"
  by (auto simp: diff_operations_def diff_operation_def no_finish_lines mark_equal_def
      mark_deleted_def mark_inserted_def split: operation_type.splits)

abbreviation plain_text :: "writer_call list \<Rightarrow> ustring" where
  "plain_text cs \<equiv> concat (map (rendered (\<lambda>s tag. s)) cs)"

lemma shown_plain: "shown tags cs \<noteq> [] \<Longrightarrow> plain_text cs \<noteq> []"
  by (induction tags cs rule: shown.induct) auto

lemma string_finish_result:
  assumes "Finish \<notin> set cs"
  shows "run_calls string_writer_class (cs @ cut_diff_writer_finish) cut_string_diff_writer_new =
    string_finish \<lparr>writer_result = plain_text cs\<rparr>"
proof -
  obtain w where w: "run_calls string_writer_class cs cut_string_diff_writer_new = Some w"
    "writer_result w = plain_text cs"
    using string_diff_writer.run_output [OF assms, of cut_string_diff_writer_new]
    by (auto simp: cut_string_diff_writer_new_def)
  then have "w = \<lparr>writer_result = plain_text cs\<rparr>" by simp
  with w(1) show ?thesis
    by (auto simp: run_calls_append cut_diff_writer_finish_def string_writer_class_def split: option.split)
qed

lemma cut_diff_readable_None_iff:
  assumes "length (split t) < 4294967296"
  shows "cut_diff_readable split iswide f t = None \<longleftrightarrow> split f = [] \<and> split t = []"
proof -
  let ?d = "cut_differ_new split READABLE f t"
  let ?ops = "fst (cut_sequence_matcher_get_operations (fst (cut_differ_get_sequence_matcher ?d)))"
  let ?cs = "diff_operations iswide READABLE ?ops (split f) (split t)"
  have d: "differ_matcher ?d = None" "differ_kind ?d = READABLE" "differ_from ?d = split f"
    "differ_to ?d = split t"
    by (simp_all add: cut_differ_new_def)
  have script: "edit_script (split f) (split t) ?ops"
    using differ_script [of ?d] assms by (simp add: d)
  have res: "cut_diff_readable split iswide f t = None \<longleftrightarrow> plain_text ?cs = []"
    using readable_diff_calls [of ?d iswide] no_finish_operations [of READABLE iswide ?ops]
    by (simp add: cut_diff_readable_def d string_finish_result string_finish_def)
  show ?thesis
  proof (cases "split f = [] \<and> split t = []")
    case True
    then have "?ops = []"
      using script by (cases ?ops) (auto simp: edit_script_def operation_ok_def split: operation_type.splits)
    with True res show ?thesis by (simp add: diff_operations_def)
  next
    case False
    then have "shown from_tags ?cs \<noteq> [] \<or> shown to_tags ?cs \<noteq> []"
      using diff_operations_shown [OF _ script, of READABLE iswide] by simp
    then have "plain_text ?cs \<noteq> []" using shown_plain by blast
    with False res show ?thesis by (simp only: simp_thms)
  qed
qed

section \<open>Display widths\<close>

definition display_width :: "(gunichar \<Rightarrow> bool) \<Rightarrow> ustring \<Rightarrow> nat" where
  "display_width iswide s = cut_differ_util_compute_width iswide s 0 (length s)"

lemma display_width_simps [simp]:
  "display_width iswide [] = 0"
  "display_width iswide (c # s) = (if iswide c then 2 else if c = 9 then 8 else 1) + display_width iswide s"
  by (simp_all add: display_width_def cut_differ_util_compute_width_def slice_def)

lemma display_width_append [simp]:
  "display_width iswide (s @ s') = display_width iswide s + display_width iswide s'"
  by (induction s) auto

lemma compute_width_slice:
  "cut_differ_util_compute_width iswide s b e = display_width iswide (slice s b e)"
  by (simp add: display_width_def cut_differ_util_compute_width_def)

lemma display_width_replicate:
  "\<not> iswide c \<Longrightarrow> c \<noteq> 9 \<Longrightarrow> display_width iswide (replicate n c) = n"
  by (induction n) auto

lemma display_width_spaces:
  "\<not> iswide 32 \<Longrightarrow> display_width iswide (spaces_of iswide s) = display_width iswide s"
  by (induction s) (auto simp: spaces_of_def)

lemma tag_operations_width:
  assumes "\<forall>c\<in>{32, 43, 45, 94}. \<not> iswide c" "\<forall>oper\<in>set ops. operation_ok l1 l2 oper"
    and "fold (tag_operation iswide l1 l2) ops (ft, tt) = (ft', tt')"
  shows "display_width iswide ft' = display_width iswide ft +
      display_width iswide (concat (map (\<lambda>oper. slice l1 (from_begin oper) (from_end oper)) ops)) \<and>
    display_width iswide tt' = display_width iswide tt +
      display_width iswide (concat (map (apply_operation l1 l2) ops))"
  using assms(2,3)
proof (induction ops arbitrary: ft tt)
  case (Cons oper ops)
  obtain ft1 tt1 where st: "tag_operation iswide l1 l2 oper (ft, tt) = (ft1, tt1)" by force
  have "display_width iswide ft1 = display_width iswide ft +
      display_width iswide (slice l1 (from_begin oper) (from_end oper)) \<and>
    display_width iswide tt1 = display_width iswide tt +
      display_width iswide (slice l2 (to_begin oper) (to_end oper))"
    using st Cons.prems(1) assms(1)
    by (auto simp: tag_operation_def compute_width_slice display_width_spaces display_width_replicate
        operation_ok_def Let_def split: operation_type.splits)
  moreover have "apply_operation l1 l2 oper = slice l2 (to_begin oper) (to_end oper)"
    using Cons.prems(1) by (simp add: apply_operation_ok)
  ultimately show ?case
    using Cons.IH [of ft1 tt1] Cons.prems by (simp add: st)
qed simp

lemma line_operations_script:
  "length l2 < 4294967296 \<Longrightarrow> edit_script l1 l2 (line_operations l1 l2)"
  using char_contents.script [of l2 l1 "[]"]
  by (simp add: line_operations_def cut_sequence_matcher_char_new_full_def)

section \<open>Columns\<close>

text \<open>The character at each column of a displayed line; beyond its end the line is blank.\<close>

definition columns :: "(gunichar \<Rightarrow> bool) \<Rightarrow> ustring \<Rightarrow> gunichar list" where
  "columns iswide s = concat (map (\<lambda>c. replicate (if iswide c then 2 else if c = 9 then 8 else 1) c) s)"

definition column :: "(gunichar \<Rightarrow> bool) \<Rightarrow> ustring \<Rightarrow> nat \<Rightarrow> gunichar" where
  "column iswide s k = (let cs = columns iswide s in if k < length cs then cs ! k else 32)"

abbreviation blank :: "gunichar \<Rightarrow> bool" where
  "blank c \<equiv> c = 32 \<or> c = 9"

text \<open>The columns that a range of characters of a line takes.\<close>

definition columns_of :: "(gunichar \<Rightarrow> bool) \<Rightarrow> ustring \<Rightarrow> nat \<Rightarrow> nat \<Rightarrow> nat set" where
  "columns_of iswide s b e = {display_width iswide (take b s)..<display_width iswide (take e s)}"

lemma columns_append [simp]: "columns iswide (s @ s') = columns iswide s @ columns iswide s'"
  by (simp add: columns_def)

lemma length_columns [simp]: "length (columns iswide s) = display_width iswide s"
  by (induction s) (simp_all add: columns_def)

lemma columns_replicate: "\<not> iswide c \<Longrightarrow> c \<noteq> 9 \<Longrightarrow> columns iswide (replicate n c) = replicate n c"
  by (induction n) (simp_all add: columns_def)

lemma columns_set: "set (columns iswide s) = set s"
  by (induction s) (auto simp: columns_def)

lemma spaces_blank: "c \<in> set (spaces_of iswide s) \<Longrightarrow> blank c"
  by (auto simp: spaces_of_def split: if_splits)

text \<open>A line of marks that is made of one piece for each of some adjacent ranges, each as wide as
  the characters of its range, has its pieces in the columns of the ranges.\<close>

fun adjacent :: "nat \<Rightarrow> (nat \<times> nat \<times> ustring) list \<Rightarrow> bool" where
  "adjacent i [] \<longleftrightarrow> True"
| "adjacent i ((b, e, m) # ps) \<longleftrightarrow> b = i \<and> b \<le> e \<and> adjacent e ps"

lemma adjacent_columns:
  assumes "adjacent i ps"
    and "\<forall>(b, e, m)\<in>set ps. display_width iswide m = display_width iswide (slice l b e)"
    and "(b, e, m) \<in> set ps"
    and "display_width iswide (slice l i b) \<le> k" "k < display_width iswide (slice l i e)"
  shows "k < length (columns iswide (concat (map (\<lambda>(b, e, m). m) ps))) \<and>
    columns iswide (concat (map (\<lambda>(b, e, m). m) ps)) ! k \<in> set (columns iswide m) \<and>
    i \<le> b \<and> b \<le> e"
  using assms
proof (induction ps arbitrary: i k)
  case (Cons p ps)
  obtain b0 e0 m0 where p: "p = (b0, e0, m0)" by (cases p)
  with Cons.prems have i: "b0 = i" "i \<le> e0" "adjacent e0 ps"
    and w: "display_width iswide m0 = display_width iswide (slice l i e0)" by auto
  show ?case
  proof (cases "(b, e, m) = p")
    case True
    with p i have "b = i" "e = e0" "m = m0" by simp_all
    with Cons.prems(5) w i p show ?thesis by (simp add: nth_append)
  next
    case False
    with Cons.prems(3) have mem: "(b, e, m) \<in> set ps" by auto
    let ?w = "display_width iswide (slice l i e0)"
    have le: "e0 \<le> b \<and> b \<le> e" using i(3) mem
    proof (induction ps arbitrary: e0)
      case (Cons q qs)
      obtain b1 e1 m1 where q: "q = (b1, e1, m1)" by (cases q)
      with Cons.prems Cons.IH [of e1] show ?case by (cases "(b, e, m) = q") auto
    qed simp
    have split: "slice l i b = slice l i e0 @ slice l e0 b" "slice l i e = slice l i e0 @ slice l e0 e"
      using le i(2) by (simp_all add: slice_append)
    have k: "?w \<le> k" "display_width iswide (slice l e0 b) \<le> k - ?w" "k - ?w < display_width iswide (slice l e0 e)"
      using Cons.prems(4,5) split by simp_all
    have "\<forall>(b, e, m)\<in>set ps. display_width iswide m = display_width iswide (slice l b e)"
      using Cons.prems(2) by simp
    from Cons.IH [OF i(3) this mem k(2,3)] k(1) le i w p
    show ?thesis by (simp add: nth_append) linarith
  qed
qed simp

text \<open>Cutting the trailing blanks changes no column.\<close>

lemma strchomp_split:
  assumes "\<forall>c\<in>set s. c \<noteq> 10 \<and> c \<noteq> 12 \<and> c \<noteq> 13"
  obtains t where "s = strchomp s @ t" "\<forall>c\<in>set t. blank c"
proof -
  let ?P = "\<lambda>c. c = 32 \<or> c = 9 \<or> c = 10 \<or> c = 12 \<or> c = (13 :: gunichar)"
  have "s = strchomp s @ rev (takeWhile ?P (rev s))"
    by (simp add: strchomp_def flip: rev_append)
  moreover have "\<forall>c\<in>set (rev (takeWhile ?P (rev s))). blank c"
    using assms by (fastforce dest: set_takeWhileD)
  ultimately show ?thesis by (rule that)
qed

lemma column_strchomp:
  assumes "\<forall>c\<in>set s. c \<noteq> 10 \<and> c \<noteq> 12 \<and> c \<noteq> 13" "k < length (columns iswide s)"
  shows "column iswide (strchomp s) k = columns iswide s ! k \<or>
    blank (columns iswide s ! k) \<and> blank (column iswide (strchomp s) k)"
proof -
  obtain t where t: "s = strchomp s @ t" "\<forall>c\<in>set t. blank c" using strchomp_split [OF assms(1)] .
  have c: "columns iswide s = columns iswide (strchomp s) @ columns iswide t"
    using t(1) columns_append by metis
  show ?thesis
  proof (cases "k < length (columns iswide (strchomp s))")
    case True
    then show ?thesis by (simp add: c column_def nth_append Let_def del: length_columns)
  next
    case False
    with assms(2) have "columns iswide s ! k \<in> set (columns iswide t)"
      by (simp add: c nth_append del: length_columns)
    with t(2) False show ?thesis by (auto simp: column_def columns_set Let_def simp del: length_columns)
  qed
qed

lemma column_beyond:
  assumes "display_width iswide s \<le> k" "\<forall>c\<in>set s. c \<noteq> 10 \<and> c \<noteq> 12 \<and> c \<noteq> 13"
  shows "column iswide (strchomp s) k = 32"
proof -
  obtain t where "s = strchomp s @ t" using strchomp_split [OF assms(2)] .
  then have "display_width iswide (strchomp s) \<le> display_width iswide s"
    using display_width_append by (metis le_add1)
  with assms(1) show ?thesis by (simp add: column_def Let_def)
qed

text \<open>The marks that one character operation adds under the two lines.\<close>

definition marks_of :: "(gunichar \<Rightarrow> bool) \<Rightarrow> ustring \<Rightarrow> ustring \<Rightarrow> operation \<Rightarrow> ustring \<times> ustring" where
  "marks_of iswide l1 l2 oper = tag_operation iswide l1 l2 oper ([], [])"

lemma tag_operation_marks:
  "tag_operation iswide l1 l2 oper (ft, tt) =
     (ft @ fst (marks_of iswide l1 l2 oper), tt @ snd (marks_of iswide l1 l2 oper))"
  by (simp add: marks_of_def tag_operation_def Let_def split: operation_type.split)

lemma tag_operations_marks:
  "fold (tag_operation iswide l1 l2) ops (ft, tt) =
     (ft @ concat (map (\<lambda>oper. fst (marks_of iswide l1 l2 oper)) ops),
      tt @ concat (map (\<lambda>oper. snd (marks_of iswide l1 l2 oper)) ops))"
  by (induction ops arbitrary: ft tt) (simp_all add: tag_operation_marks)

text \<open>The mark a character gets.\<close>

definition marked :: "operation_type \<Rightarrow> gunichar \<Rightarrow> bool" where
  "marked ty c = (case ty of EQUAL \<Rightarrow> blank c | DELETE \<Rightarrow> c = 45 | INSERT \<Rightarrow> c = 43 | REPLACE \<Rightarrow> c = 94)"

lemma marks_of_ok:
  assumes "\<forall>c\<in>{32, 43, 45, 94}. \<not> iswide c" "operation_ok l1 l2 oper"
  shows "display_width iswide (fst (marks_of iswide l1 l2 oper)) =
      display_width iswide (slice l1 (from_begin oper) (from_end oper))"
    and "display_width iswide (snd (marks_of iswide l1 l2 oper)) =
      display_width iswide (slice l2 (to_begin oper) (to_end oper))"
    and "\<forall>c\<in>set (fst (marks_of iswide l1 l2 oper)). marked (op_type oper) c"
    and "\<forall>c\<in>set (snd (marks_of iswide l1 l2 oper)). marked (op_type oper) c"
  using assms spaces_blank
  by (auto simp: marks_of_def tag_operation_def compute_width_slice display_width_spaces
      display_width_replicate operation_ok_def marked_def Let_def split: operation_type.splits)

lemma marks_plain:
  assumes "\<forall>c\<in>{32, 43, 45, 94}. \<not> iswide c" "\<forall>oper\<in>set ops. operation_ok l1 l2 oper"
  shows "\<forall>c\<in>set (concat (map (\<lambda>oper. fst (marks_of iswide l1 l2 oper)) ops)). c \<noteq> 10 \<and> c \<noteq> 12 \<and> c \<noteq> 13"
    and "\<forall>c\<in>set (concat (map (\<lambda>oper. snd (marks_of iswide l1 l2 oper)) ops)). c \<noteq> 10 \<and> c \<noteq> 12 \<and> c \<noteq> 13"
proof -
  have chars: "c \<noteq> 10 \<and> c \<noteq> 12 \<and> c \<noteq> 13" if "marked ty c" for ty c
    using that by (auto simp: marked_def split: operation_type.splits)
  have "c \<noteq> 10 \<and> c \<noteq> 12 \<and> c \<noteq> 13" if "oper \<in> set ops" "c \<in> set (fst (marks_of iswide l1 l2 oper))" for c oper
    using marks_of_ok(3) [OF assms(1), of l1 l2 oper] assms(2) that chars by blast
  then show "\<forall>c\<in>set (concat (map (\<lambda>oper. fst (marks_of iswide l1 l2 oper)) ops)). c \<noteq> 10 \<and> c \<noteq> 12 \<and> c \<noteq> 13"
    by (simp only: set_concat set_map) blast
  have "c \<noteq> 10 \<and> c \<noteq> 12 \<and> c \<noteq> 13" if "oper \<in> set ops" "c \<in> set (snd (marks_of iswide l1 l2 oper))" for c oper
    using marks_of_ok(4) [OF assms(1), of l1 l2 oper] assms(2) that chars by blast
  then show "\<forall>c\<in>set (concat (map (\<lambda>oper. snd (marks_of iswide l1 l2 oper)) ops)). c \<noteq> 10 \<and> c \<noteq> 12 \<and> c \<noteq> 13"
    by (simp only: set_concat set_map) blast
qed

lemma tiles_adjacent:
  assumes "tiles i j ops fe te" "\<forall>oper\<in>set ops. operation_ok l1 l2 oper"
  shows "adjacent i (map (\<lambda>oper. (from_begin oper, from_end oper, m oper)) ops) \<and>
    adjacent j (map (\<lambda>oper. (to_begin oper, to_end oper, m oper)) ops)"
  using assms by (induction ops arbitrary: i j) (simp_all add: operation_ok_def)

lemma marks_columns:
  assumes "edit_script l1 l2 ops" "\<forall>c\<in>{32, 43, 45, 94}. \<not> iswide c" "oper \<in> set ops"
  shows "k \<in> columns_of iswide l1 (from_begin oper) (from_end oper) \<Longrightarrow>
      marked (op_type oper) (column iswide
        (strchomp (concat (map (\<lambda>oper. fst (marks_of iswide l1 l2 oper)) ops))) k)"
    and "k \<in> columns_of iswide l2 (to_begin oper) (to_end oper) \<Longrightarrow>
      marked (op_type oper) (column iswide
        (strchomp (concat (map (\<lambda>oper. snd (marks_of iswide l1 l2 oper)) ops))) k)"
proof -
  have ok: "\<forall>oper\<in>set ops. operation_ok l1 l2 oper" and t: "tiles 0 0 ops (length l1) (length l2)"
    using assms(1) by (simp_all add: edit_script_def)
  note m = marks_of_ok [OF assms(2)]
  have up: "marked ty (column iswide (strchomp s) k)"
    if "marked ty (columns iswide s ! k)" "\<forall>c\<in>set s. c \<noteq> 10 \<and> c \<noteq> 12 \<and> c \<noteq> 13"
      "k < length (columns iswide s)" for ty s k
    using column_strchomp [OF that(2,3)] that(1) by (auto simp: marked_def split: operation_type.splits)
  show "marked (op_type oper) (column iswide
        (strchomp (concat (map (\<lambda>oper. fst (marks_of iswide l1 l2 oper)) ops))) k)"
    if "k \<in> columns_of iswide l1 (from_begin oper) (from_end oper)"
  proof (rule up)
    let ?ps = "map (\<lambda>oper. (from_begin oper, from_end oper, fst (marks_of iswide l1 l2 oper))) ops"
    have "concat (map (\<lambda>(b, e, m). m) ?ps) = concat (map (\<lambda>oper. fst (marks_of iswide l1 l2 oper)) ops)"
      by (simp add: comp_def)
    with adjacent_columns [of 0 ?ps iswide l1 "from_begin oper" "from_end oper"
        "fst (marks_of iswide l1 l2 oper)" k] tiles_adjacent [OF t ok] that m(1) ok assms(3)
    have c: "k < length (columns iswide (concat (map (\<lambda>oper. fst (marks_of iswide l1 l2 oper)) ops))) \<and>
      columns iswide (concat (map (\<lambda>oper. fst (marks_of iswide l1 l2 oper)) ops)) ! k \<in>
        set (columns iswide (fst (marks_of iswide l1 l2 oper)))"
      by (auto simp: columns_of_def slice_def)
    then show "k < length (columns iswide (concat (map (\<lambda>oper. fst (marks_of iswide l1 l2 oper)) ops)))" by simp
    show "marked (op_type oper) (columns iswide (concat (map (\<lambda>oper. fst (marks_of iswide l1 l2 oper)) ops)) ! k)"
      using c m(3) [of l1 l2 oper] ok assms(3) by (simp only: columns_set)
    show "\<forall>c\<in>set (concat (map (\<lambda>oper. fst (marks_of iswide l1 l2 oper)) ops)). c \<noteq> 10 \<and> c \<noteq> 12 \<and> c \<noteq> 13"
      by (rule marks_plain(1) [OF assms(2) ok])
  qed
  show "marked (op_type oper) (column iswide
        (strchomp (concat (map (\<lambda>oper. snd (marks_of iswide l1 l2 oper)) ops))) k)"
    if "k \<in> columns_of iswide l2 (to_begin oper) (to_end oper)"
  proof (rule up)
    let ?ps = "map (\<lambda>oper. (to_begin oper, to_end oper, snd (marks_of iswide l1 l2 oper))) ops"
    have "concat (map (\<lambda>(b, e, m). m) ?ps) = concat (map (\<lambda>oper. snd (marks_of iswide l1 l2 oper)) ops)"
      by (simp add: comp_def)
    with adjacent_columns [of 0 ?ps iswide l2 "to_begin oper" "to_end oper"
        "snd (marks_of iswide l1 l2 oper)" k] tiles_adjacent [OF t ok] that m(2) ok assms(3)
    have c: "k < length (columns iswide (concat (map (\<lambda>oper. snd (marks_of iswide l1 l2 oper)) ops))) \<and>
      columns iswide (concat (map (\<lambda>oper. snd (marks_of iswide l1 l2 oper)) ops)) ! k \<in>
        set (columns iswide (snd (marks_of iswide l1 l2 oper)))"
      by (auto simp: columns_of_def slice_def)
    then show "k < length (columns iswide (concat (map (\<lambda>oper. snd (marks_of iswide l1 l2 oper)) ops)))" by simp
    show "marked (op_type oper) (columns iswide (concat (map (\<lambda>oper. snd (marks_of iswide l1 l2 oper)) ops)) ! k)"
      using c m(4) [of l1 l2 oper] ok assms(3) by (simp only: columns_set)
    show "\<forall>c\<in>set (concat (map (\<lambda>oper. snd (marks_of iswide l1 l2 oper)) ops)). c \<noteq> 10 \<and> c \<noteq> 12 \<and> c \<noteq> 13"
      by (rule marks_plain(2) [OF assms(2) ok])
  qed
qed

text \<open>A range in a hunk header: the number of its first line, and its number of lines unless that
  is one or none.\<close>

definition hunk_range :: "nat \<Rightarrow> nat \<Rightarrow> ustring" where
  "hunk_range first_line n = decimal first_line @ (if n \<le> 1 then [] else (map of_char '','') @ decimal n)"

section \<open>Properties\<close>

text \<open>C16: a readable diff without context shows both texts completely: the unchanged and the
  deleted lines are the first text, the unchanged and the inserted lines the second, in order,
  whatever pairs of similar lines it chooses.\<close>

theorem readable_diff_shows_both:
  assumes "length (split t) < 4294967296"
  shows "shown from_tags (fst (cut_differ_diff iswide (cut_differ_new split READABLE f t))) = split f \<and>
    shown to_tags (fst (cut_differ_diff iswide (cut_differ_new split READABLE f t))) = split t"
  using readable_shown [of "cut_differ_new split READABLE f t" iswide] assms
  by (simp add: cut_differ_new_def)

theorem readable_diff_shows_both_witness:
  "shown from_tags (fst (cut_differ_diff (\<lambda>c. False)
     (cut_differ_new (\<lambda>s. [s]) READABLE [97, 98, 99, 100] [97, 98, 99, 101]))) = [[97, 98, 99, 100]]"
  using readable_diff_shows_both [of "\<lambda>s. [s]" "[97, 98, 99, 101]" "\<lambda>c. False" "[97, 98, 99, 100]"] by simp

text \<open>C17: a hunk of a unified diff begins with the header line "@@ -b,n +b,n @@" where the begins
  are the numbers of the first lines of the two ranges and the counts (left out up to one) the
  numbers of lines that the hunk then shows of the two texts; what it shows are exactly the two
  ranges, from the begin of its first to the end of its last operation.\<close>

theorem unified_hunk_lines:
  fixes d :: differ and g :: "operation list"
  assumes "differ_matcher d = None" "differ_kind d = UNIFIED"
    and "length (differ_from d) < 2147483647" "length (differ_to d) < 2147483647"
    and "g \<in> set (differ_groups d)"
  defines "b1 \<equiv> from_begin (hd g)" and "b2 \<equiv> to_begin (hd g)"
  shows "\<exists>calls. unified_hunk (differ_from d) (differ_to d) g =
      Write_Line ((map of_char ''@@ -'') @ hunk_range (b1 + 1) (length (shown from_tags calls)) @
        (map of_char '' +'') @ hunk_range (b2 + 1) (length (shown to_tags calls)) @
        (map of_char '' @@'')) TAG_SUMMARY # calls \<and>
    shown from_tags calls = slice (differ_from d) b1 (from_end (last g)) \<and>
    shown to_tags calls = slice (differ_to d) b2 (to_end (last g)) \<and>
    b1 \<le> from_end (last g) \<and> from_end (last g) \<le> length (differ_from d) \<and>
    b2 \<le> to_end (last g) \<and> to_end (last g) \<le> length (differ_to d)"
proof -
  have small: "length (differ_from d) < 2147483648" "length (differ_to d) < 2147483648"
    using assms(3,4) by simp_all
  note g = unified_group [OF assms(1,2) small assms(5)]
  have ok: "\<forall>oper\<in>set g. piece_ok (differ_from d) (differ_to d) oper \<and> sides_ok oper"
    using g(3) by (simp add: context_ok_def)
  then have ends: "from_end (last g) \<le> length (differ_from d)" "to_end (last g) \<le> length (differ_to d)"
    using g(1) by (simp_all add: piece_ok_def)
  have begins: "b1 \<le> from_end (last g)" "b2 \<le> to_end (last g)"
    using joined_slices(3) [OF g(2,1)] ok by (simp_all add: b1_def b2_def piece_ok_def)
  define calls where "calls = concat (map (unified_operation (differ_from d) (differ_to d)) g)"
  have hunk: "unified_hunk (differ_from d) (differ_to d) g = cut_differ_write_summary g @ calls"
    by (simp add: unified_hunk_def calls_def)
  have shown: "shown from_tags calls = slice (differ_from d) b1 (from_end (last g))"
    "shown to_tags calls = slice (differ_to d) b2 (to_end (last g))"
    using unified_hunk_shown [OF g(2,1) ok] by (simp_all add: hunk b1_def b2_def)
  then have n: "length (shown from_tags calls) = from_end (last g) - b1"
    "length (shown to_tags calls) = to_end (last g) - b2"
    using ends by (simp_all add: length_slice)
  have "cut_differ_write_summary g =
      [Write_Line ((map of_char ''@@ -'') @ hunk_range (b1 + 1) (length (shown from_tags calls)) @
        (map of_char '' +'') @ hunk_range (b2 + 1) (length (shown to_tags calls)) @ (map of_char '' @@'')) TAG_SUMMARY]"
    unfolding n by (simp add: cut_differ_write_summary_def cut_diff_writer_write_line_def hunk_range_def
         b1_def b2_def Let_def)
  with hunk shown ends begins show ?thesis by (intro exI [of _ calls]) simp
qed

theorem unified_hunk_lines_witness:
  "\<exists>calls. unified_hunk [[97], [98]] [[97], [99]]
      [cut_sequence_match_operation_new EQUAL 0 1 0 1, cut_sequence_match_operation_new REPLACE 1 2 1 2] =
    Write_Line ((map of_char ''@@ -1,2 +1,2 @@'')) TAG_SUMMARY # calls \<and>
    shown from_tags calls = [[97], [98]] \<and> shown to_tags calls = [[97], [99]]"
proof -
  let ?d = "(cut_differ_new (\<lambda>s. map (\<lambda>c. [c]) s) UNIFIED [97, 98] [97, 99])"
  let ?g = "[cut_sequence_match_operation_new EQUAL 0 1 0 1, cut_sequence_match_operation_new REPLACE 1 2 1 2]"
  have g: "?g \<in> set (differ_groups ?d)" by code_simp
  have header: "(map of_char ''@@ -'') @ hunk_range 1 2 @ (map of_char '' +'') @ hunk_range 1 2 @ (map of_char '' @@'') =
      (map of_char ''@@ -1,2 +1,2 @@'' :: ustring)" by code_simp
  from unified_hunk_lines [OF _ _ _ _ g] obtain calls where
    "unified_hunk (differ_from ?d) (differ_to ?d) ?g =
      Write_Line ((map of_char ''@@ -'') @ hunk_range 1 2 @ (map of_char '' +'') @ hunk_range 1 2 @
        (map of_char '' @@'')) TAG_SUMMARY # calls"
    "shown from_tags calls = [[97], [98]]" "shown to_tags calls = [[97], [99]]"
    by (auto simp: cut_differ_new_def cut_sequence_match_operation_new_def slice_def numeral_2_eq_2)
  then show ?thesis unfolding header by (auto simp: cut_differ_new_def)
qed

text \<open>C32: a unified diff makes no output exactly when the two texts have the same lines.\<close>

theorem unified_diff_empty_iff:
  assumes "length (split t) < 4294967296"
  shows "fst (cut_differ_diff iswide (cut_differ_new split UNIFIED f t)) = [] \<longleftrightarrow> split f = split t"
  using unified_empty_iff [of "cut_differ_new split UNIFIED f t" iswide] assms
  by (simp add: cut_differ_new_def)

theorem unified_diff_empty_iff_witness:
  "fst (cut_differ_diff (\<lambda>c. False) (cut_differ_new (\<lambda>s. [s]) UNIFIED [97] [98])) \<noteq> [] \<and>
   fst (cut_differ_diff (\<lambda>c. False) (cut_differ_new (\<lambda>s. [s]) UNIFIED [97] [97])) = []"
  using unified_diff_empty_iff [of "\<lambda>s. [s]" "[98]" "\<lambda>c. False" "[97]"]
    unified_diff_empty_iff [of "\<lambda>s. [s]" "[97]" "\<lambda>c. False" "[97]"] by simp

text \<open>A readable diff string is produced except when both texts split into no line at
  all (two empty texts): there the string writer's \<open>finish\<close> reads before its buffer.\<close>

theorem readable_diff_undefined_iff:
  assumes "length (split t) < 4294967296"
  shows "cut_diff_readable split iswide f t = None \<longleftrightarrow> split f = [] \<and> split t = []"
  using assms by (rule cut_diff_readable_None_iff)

theorem readable_diff_undefined_iff_witness:
  "cut_diff_readable (\<lambda>s. if s = [] then [] else [s]) (\<lambda>c. False) [] [] = None"
  using readable_diff_undefined_iff [of "\<lambda>s. if s = [] then [] else [s]" "[]" "\<lambda>c. False" "[]"] by simp

text \<open>C33: under a pair of similar lines, the marks stand in the columns of the characters they
  mark: the operations of the script between the lines cover both lines, and below every column
  of a character of the first line stands a minus sign if the character is deleted, a caret if it is
  replaced and a blank if it is unchanged, below the second line a plus sign, a caret or a blank; a
  mark line is written when it has a mark, and has none behind the end of its line.\<close>

theorem diff_point_marks:
  assumes "length l2 < 4294967296" "\<forall>c\<in>{32, 43, 45, 94}. \<not> iswide c"
  shows "edit_script l1 l2 (line_operations l1 l2) \<and>
    (\<exists>m1 m2. readable_diff_line iswide l1 l2 =
        mark_deleted [l1] 0 1 @ (if m1 = [] then [] else mark_difference [m1] 0 1) @
        mark_inserted [l2] 0 1 @ (if m2 = [] then [] else mark_difference [m2] 0 1) \<and>
      (\<forall>oper\<in>set (line_operations l1 l2).
        (\<forall>k\<in>columns_of iswide l1 (from_begin oper) (from_end oper). marked (op_type oper) (column iswide m1 k)) \<and>
        (\<forall>k\<in>columns_of iswide l2 (to_begin oper) (to_end oper). marked (op_type oper) (column iswide m2 k))) \<and>
      (\<forall>k. display_width iswide l1 \<le> k \<longrightarrow> column iswide m1 k = 32) \<and>
      (\<forall>k. display_width iswide l2 \<le> k \<longrightarrow> column iswide m2 k = 32))"
proof -
  let ?ops = "line_operations l1 l2"
  let ?s1 = "concat (map (\<lambda>oper. fst (marks_of iswide l1 l2 oper)) ?ops)"
  let ?s2 = "concat (map (\<lambda>oper. snd (marks_of iswide l1 l2 oper)) ?ops)"
  have script: "edit_script l1 l2 ?ops" by (rule line_operations_script [OF assms(1)])
  then have ok: "\<forall>oper\<in>set ?ops. operation_ok l1 l2 oper" by (simp add: edit_script_def)
  have tags: "fold (tag_operation iswide l1 l2) ?ops ([], []) = (?s1, ?s2)"
    by (simp add: tag_operations_marks)
  have calls: "readable_diff_line iswide l1 l2 = format_diff_point l1 l2 ?s1 ?s2"
    unfolding readable_diff_line_def tags by simp
  have width: "display_width iswide ?s1 = display_width iswide l1"
    "display_width iswide ?s2 = display_width iswide l2"
    using tag_operations_width [OF assms(2) ok tags] edit_script_replay [OF script] by simp_all
  note cols = marks_columns [OF script assms(2)]
  have beyond: "column iswide (strchomp ?s1) k = 32" if "display_width iswide l1 \<le> k" for k
    using that width(1) marks_plain [OF assms(2) ok] by (intro column_beyond) simp_all
  have beyond': "column iswide (strchomp ?s2) k = 32" if "display_width iswide l2 \<le> k" for k
    using that width(2) marks_plain [OF assms(2) ok] by (intro column_beyond) simp_all
  show ?thesis
    using script cols beyond beyond'
    by (intro conjI exI [of _ "strchomp ?s1"] exI [of _ "strchomp ?s2"]) (auto simp: calls format_diff_point_def)
qed

text \<open>A replaced letter gets a caret under both lines.\<close>

theorem diff_point_marks_witness:
  "\<exists>m1. column (\<lambda>c. False) m1 0 = 94 \<and> readable_diff_line (\<lambda>c. False) [97, 98] [99, 98] =
     mark_deleted [[97, 98]] 0 1 @ mark_difference [m1] 0 1 @
     mark_inserted [[99, 98]] 0 1 @ mark_difference [[94]] 0 1"
proof -
  have ops: "line_operations [97, 98] [99, 98] =
      [cut_sequence_match_operation_new REPLACE 0 1 0 1, cut_sequence_match_operation_new EQUAL 1 2 1 2]"
    by code_simp
  have calls: "readable_diff_line (\<lambda>c. False) [97, 98] [99, 98] =
     mark_deleted [[97, 98]] 0 1 @ mark_difference [[94]] 0 1 @
     mark_inserted [[99, 98]] 0 1 @ mark_difference [[94]] 0 1"
    by code_simp
  from diff_point_marks [of "[99, 98]" "\<lambda>c. False" "[97, 98]"] obtain m1 m2
    where "readable_diff_line (\<lambda>c. False) [97, 98] [99, 98] =
        mark_deleted [[97, 98]] 0 1 @ (if m1 = [] then [] else mark_difference [m1] 0 1) @
        mark_inserted [[99, 98]] 0 1 @ (if m2 = [] then [] else mark_difference [m2] 0 1)"
      and "column (\<lambda>c. False) m1 0 = 94"
    by (auto simp: ops columns_of_def marked_def cut_sequence_match_operation_new_def)
  then show ?thesis
    unfolding calls by (intro exI [of _ "[94]"]) (simp add: column_def columns_def)
qed

text \<open>A hunk header does not tell an empty range from a range of one line: the count is
  left out for both, so the insertion of a line and its replacement have the same header.\<close>

theorem hunk_header_ambiguous:
  "cut_differ_write_summary [cut_sequence_match_operation_new INSERT n n k m] =
   cut_differ_write_summary [cut_sequence_match_operation_new REPLACE n (n + 1) k m]"
  by (simp add: cut_differ_write_summary_def cut_sequence_match_operation_new_def)

end
