(* ===== verification/Stream_Parser.thy ===== *)
theory Stream_Parser
  imports Stream_Writer "HOL-Library.AList"
begin

text \<open>
  The stream parser (\<open>cutter/cut-stream-parser.c\<close>): a stack machine that reads the events
  of a markup parser, builds the objects they describe and emits the signals on a run context. The
  objects live in a store that grows; the queues of the C code are stacks with their head first, and
  a queue that is popped when it is empty stays empty. Reference counts are not modelled. An event
  either leads to a new state, is rejected with an error, or dereferences a NULL pointer.
\<close>

section \<open>State\<close>

datatype parse_state =
    IN_TOP_LEVEL | IN_TOP_LEVEL_RESULT | IN_STREAM | IN_STREAM_SUCCESS
  | IN_TEST_SUITE | IN_TEST_CASE | IN_TEST_ITERATOR | IN_TEST | IN_ITERATED_TEST | IN_TEST_DATA
  | IN_TEST_NAME | IN_TEST_DESCRIPTION | IN_TEST_OPTION | IN_TEST_START_TIME | IN_TEST_ELAPSED
  | IN_TEST_DATA_NAME | IN_TEST_OPTION_NAME | IN_TEST_OPTION_VALUE
  | IN_TEST_CONTEXT | IN_TEST_CONTEXT_FAILED
  | IN_READY_TEST_SUITE | IN_READY_TEST_SUITE_N_TEST_CASES | IN_READY_TEST_SUITE_N_TESTS
  | IN_START_TEST_SUITE | IN_READY_TEST_CASE | IN_READY_TEST_CASE_N_TESTS
  | IN_READY_TEST_ITERATOR | IN_READY_TEST_ITERATOR_N_TESTS
  | IN_START_TEST_CASE | IN_START_TEST_ITERATOR | IN_START_TEST | IN_START_ITERATED_TEST
  | IN_PASS_ASSERTION | IN_TEST_RESULT
  | IN_RESULT | IN_RESULT_STATUS | IN_RESULT_DETAIL | IN_RESULT_BACKTRACE | IN_RESULT_BACKTRACE_ENTRY
  | IN_RESULT_BACKTRACE_ENTRY_FILE | IN_RESULT_BACKTRACE_ENTRY_LINE | IN_RESULT_BACKTRACE_ENTRY_INFO
  | IN_RESULT_START_TIME | IN_RESULT_ELAPSED | IN_RESULT_EXPECTED | IN_RESULT_ACTUAL | IN_RESULT_DIFF
  | IN_RESULT_FOLDED_DIFF
  | IN_COMPLETE_ITERATED_TEST | IN_COMPLETE_TEST | IN_TEST_ITERATOR_RESULT | IN_TEST_CASE_RESULT
  | IN_COMPLETE_TEST_ITERATOR | IN_COMPLETE_TEST_CASE | IN_COMPLETE_TEST_SUITE | IN_COMPLETE_SUCCESS

text \<open>\<open>ReadyTestSuite\<close>, \<open>ReadyTestCase\<close> and \<open>ReadyTestIterator\<close>; then
  \<open>StartTest\<close> and the others with a test and a context; then the results.\<close>

record ready_info =
  ready_object :: "object_id option"
  ready_n_test_cases :: nat
  ready_n_tests :: nat

record test_info =
  info_test :: "object_id option"
  info_context :: "object_id option"

record result_info =
  result_object :: "object_id option"
  result_context :: "object_id option"
  info_result :: "object_id option"

record stream_parser =
  sp_run_context :: "run_context option"
  sp_emitted :: "(markup_store \<times> run_signal) list"
  sp_results_emitted :: "test_result list"
  sp_store :: markup_store
  sp_results :: "test_result list"
  sp_states :: "parse_state list"
  sp_tests :: "object_id list"
  sp_iterators :: "object_id list"
  sp_cases :: "object_id list"
  sp_suites :: "object_id list"
  sp_contexts :: "object_id list"
  sp_data :: "object_id list"
  sp_ready_suite :: "ready_info option"
  sp_ready_case :: "ready_info option"
  sp_ready_iterator :: "ready_info option"
  sp_start_test :: "test_info option"
  sp_start_iterated_test :: "test_info option"
  sp_pass_assertion :: "test_info option"
  sp_test_result :: "result_info option"
  sp_complete_iterated_test :: "test_info option"
  sp_complete_test :: "test_info option"
  sp_iterator_result :: "result_info option"
  sp_case_result :: "result_info option"
  sp_result :: "object_id option"
  sp_backtrace :: "backtrace_entry list"
  sp_backtrace_entry :: "backtrace_entry option"
  sp_option_name :: "ustring option"
  sp_option_value :: "ustring option"
  sp_complete_success :: bool
  sp_stream_success :: bool
  sp_element_stack :: "string list"

datatype parse_stop = Parse_Error "string list" ustring | Null_Pointer

type_synonym parse_step = "stream_parser \<Rightarrow> parse_stop + stream_parser"

definition empty_test :: "test_kind \<Rightarrow> markup_test" where
  "empty_test k =
     \<lparr>mt_kind = k, mt_name = None, mt_attributes = [], mt_start_time = (0, 0), mt_elapsed = -1,
      mt_measured = 0\<rparr>"

definition empty_context :: markup_context where
  "empty_context =
     \<lparr>mc_suite = None, mc_case = None, mc_iterator = None, mc_test = None, mc_data = None, mc_failed = False\<rparr>"

definition cut_stream_parser_new :: "run_context option \<Rightarrow> stream_parser" where
  "cut_stream_parser_new rc =
     \<lparr>sp_run_context = rc, sp_emitted = [], sp_results_emitted = [],
      sp_store = \<lparr>ms_tests = [empty_test Test_Object], ms_data = [None], ms_contexts = [empty_context]\<rparr>,
      sp_results = [cut_test_result_new_empty], sp_states = [IN_TOP_LEVEL],
      sp_tests = [], sp_iterators = [], sp_cases = [], sp_suites = [], sp_contexts = [], sp_data = [],
      sp_ready_suite = None, sp_ready_case = None, sp_ready_iterator = None, sp_start_test = None,
      sp_start_iterated_test = None, sp_pass_assertion = None, sp_test_result = None,
      sp_complete_iterated_test = None, sp_complete_test = None, sp_iterator_result = None,
      sp_case_result = None, sp_result = None, sp_backtrace = [], sp_backtrace_entry = None,
      sp_option_name = None, sp_option_value = None, sp_complete_success = True,
      sp_stream_success = True, sp_element_stack = []\<rparr>"

definition cut_test_result_parser_new :: stream_parser where
  "cut_test_result_parser_new = (cut_stream_parser_new None)\<lparr>sp_states := [IN_TOP_LEVEL_RESULT]\<rparr>"

section \<open>Queues and objects\<close>

definition PUSH_STATE :: "parse_state \<Rightarrow> stream_parser \<Rightarrow> stream_parser" where
  "PUSH_STATE s p = p\<lparr>sp_states := s # sp_states p\<rparr>"

definition PUSH_TEST :: "object_id \<Rightarrow> stream_parser \<Rightarrow> stream_parser" where
  "PUSH_TEST t p = p\<lparr>sp_tests := t # sp_tests p\<rparr>"

definition PUSH_TEST_ITERATOR :: "object_id \<Rightarrow> stream_parser \<Rightarrow> stream_parser" where
  "PUSH_TEST_ITERATOR t p = p\<lparr>sp_iterators := t # sp_iterators p\<rparr>"

definition PUSH_TEST_CASE :: "object_id \<Rightarrow> stream_parser \<Rightarrow> stream_parser" where
  "PUSH_TEST_CASE t p = p\<lparr>sp_cases := t # sp_cases p\<rparr>"

definition PUSH_TEST_SUITE :: "object_id \<Rightarrow> stream_parser \<Rightarrow> stream_parser" where
  "PUSH_TEST_SUITE t p = p\<lparr>sp_suites := t # sp_suites p\<rparr>"

definition PUSH_TEST_CONTEXT :: "object_id \<Rightarrow> stream_parser \<Rightarrow> stream_parser" where
  "PUSH_TEST_CONTEXT c p = p\<lparr>sp_contexts := c # sp_contexts p\<rparr>"

definition PUSH_TEST_DATA :: "object_id \<Rightarrow> stream_parser \<Rightarrow> stream_parser" where
  "PUSH_TEST_DATA d p = p\<lparr>sp_data := d # sp_data p\<rparr>"

definition DROP_TEST :: "stream_parser \<Rightarrow> stream_parser" where
  "DROP_TEST p = p\<lparr>sp_tests := tl (sp_tests p)\<rparr>"

definition DROP_TEST_ITERATOR :: "stream_parser \<Rightarrow> stream_parser" where
  "DROP_TEST_ITERATOR p = p\<lparr>sp_iterators := tl (sp_iterators p)\<rparr>"

definition DROP_TEST_CASE :: "stream_parser \<Rightarrow> stream_parser" where
  "DROP_TEST_CASE p = p\<lparr>sp_cases := tl (sp_cases p)\<rparr>"

definition DROP_TEST_SUITE :: "stream_parser \<Rightarrow> stream_parser" where
  "DROP_TEST_SUITE p = p\<lparr>sp_suites := tl (sp_suites p)\<rparr>"

definition DROP_TEST_CONTEXT :: "stream_parser \<Rightarrow> stream_parser" where
  "DROP_TEST_CONTEXT p = p\<lparr>sp_contexts := tl (sp_contexts p)\<rparr>"

definition DROP_TEST_DATA :: "stream_parser \<Rightarrow> stream_parser" where
  "DROP_TEST_DATA p = p\<lparr>sp_data := tl (sp_data p)\<rparr>"

definition peek :: "'a list \<Rightarrow> 'a option" where
  "peek xs = (case xs of [] \<Rightarrow> None | x # _ \<Rightarrow> Some x)"

definition new_test :: "test_kind \<Rightarrow> stream_parser \<Rightarrow> object_id \<times> stream_parser" where
  "new_test k p =
     (length (ms_tests (sp_store p)),
      p\<lparr>sp_store := (sp_store p)\<lparr>ms_tests := ms_tests (sp_store p) @ [empty_test k]\<rparr>\<rparr>)"

definition new_context_object :: "stream_parser \<Rightarrow> object_id \<times> stream_parser" where
  "new_context_object p =
     (length (ms_contexts (sp_store p)),
      p\<lparr>sp_store := (sp_store p)\<lparr>ms_contexts := ms_contexts (sp_store p) @ [empty_context]\<rparr>\<rparr>)"

definition new_data :: "stream_parser \<Rightarrow> object_id \<times> stream_parser" where
  "new_data p =
     (length (ms_data (sp_store p)),
      p\<lparr>sp_store := (sp_store p)\<lparr>ms_data := ms_data (sp_store p) @ [None]\<rparr>\<rparr>)"

definition new_result :: "stream_parser \<Rightarrow> object_id \<times> stream_parser" where
  "new_result p = (length (sp_results p), p\<lparr>sp_results := sp_results p @ [cut_test_result_new_empty]\<rparr>)"

definition update_test :: "object_id \<Rightarrow> (markup_test \<Rightarrow> markup_test) \<Rightarrow> stream_parser \<Rightarrow> stream_parser" where
  "update_test t f p =
     p\<lparr>sp_store := (sp_store p)\<lparr>ms_tests := (ms_tests (sp_store p))[t := f (ms_tests (sp_store p) ! t)]\<rparr>\<rparr>"

definition update_context_object ::
  "object_id \<Rightarrow> (markup_context \<Rightarrow> markup_context) \<Rightarrow> stream_parser \<Rightarrow> stream_parser" where
  "update_context_object c f p =
     p\<lparr>sp_store := (sp_store p)\<lparr>ms_contexts := (ms_contexts (sp_store p))[c := f (ms_contexts (sp_store p) ! c)]\<rparr>\<rparr>"

definition update_data :: "object_id \<Rightarrow> ustring option \<Rightarrow> stream_parser \<Rightarrow> stream_parser" where
  "update_data d name p = p\<lparr>sp_store := (sp_store p)\<lparr>ms_data := (ms_data (sp_store p))[d := name]\<rparr>\<rparr>"

definition update_result :: "object_id \<Rightarrow> (test_result \<Rightarrow> test_result) \<Rightarrow> stream_parser \<Rightarrow> stream_parser" where
  "update_result r f p = p\<lparr>sp_results := (sp_results p)[r := f (sp_results p ! r)]\<rparr>"

text \<open>A dereference.\<close>

definition with_pointer :: "'a option \<Rightarrow> ('a \<Rightarrow> parse_stop + 'b) \<Rightarrow> parse_stop + 'b" where
  "with_pointer x f = (case x of None \<Rightarrow> Inl Null_Pointer | Some a \<Rightarrow> f a)"

definition set_parse_error :: "ustring \<Rightarrow> parse_step" where
  "set_parse_error message p = Inl (Parse_Error (sp_element_stack p) message)"

definition invalid_element :: parse_step where
  "invalid_element p = set_parse_error (ascii ''invalid element'') p"

text \<open>Emission on the run context, if there is one; NULL is object 0.\<close>

definition emit_signal :: "run_signal \<Rightarrow> stream_parser \<Rightarrow> stream_parser" where
  "emit_signal sig p =
     (case sp_run_context p of
        None \<Rightarrow> p
      | Some rc \<Rightarrow>
          p\<lparr>sp_run_context := Some (run_context_handler
               (\<lambda>t. cut_test_get_elapsed (ms_tests (sp_store p) ! t)) sig rc),
            sp_emitted := sp_emitted p @ [(sp_store p, sig)]\<rparr>)"

definition pointer :: "object_id option \<Rightarrow> object_id" where
  "pointer x = (case x of None \<Rightarrow> 0 | Some t \<Rightarrow> t)"

section \<open>Start of an element\<close>

definition start_top_level :: "string \<Rightarrow> parse_step" where
  "start_top_level name p =
     (if name = ''stream'' then Inr (emit_signal Start_Run (PUSH_STATE IN_STREAM p)) else invalid_element p)"

definition push_new ::
  "(object_id \<Rightarrow> stream_parser \<Rightarrow> stream_parser) \<Rightarrow> test_kind \<Rightarrow> parse_state \<Rightarrow> stream_parser \<Rightarrow> stream_parser" where
  "push_new push k s p = (let (t, q) = new_test k (PUSH_STATE s p) in push t q)"

abbreviation no_ready :: ready_info where
  "no_ready \<equiv> \<lparr>ready_object = None, ready_n_test_cases = 0, ready_n_tests = 0\<rparr>"

abbreviation no_test :: test_info where
  "no_test \<equiv> \<lparr>info_test = None, info_context = None\<rparr>"

abbreviation no_result :: result_info where
  "no_result \<equiv> \<lparr>result_object = None, result_context = None, info_result = None\<rparr>"

definition start_stream :: "string \<Rightarrow> parse_step" where
  "start_stream name p =
     (if name = ''pass-assertion'' then
        Inr ((PUSH_STATE IN_PASS_ASSERTION p)\<lparr>sp_pass_assertion := Some no_test\<rparr>)
      else if name = ''test-result'' then
        Inr ((PUSH_STATE IN_TEST_RESULT p)\<lparr>sp_test_result := Some no_result\<rparr>)
      else if name = ''ready-test-suite'' then
        Inr ((PUSH_STATE IN_READY_TEST_SUITE p)\<lparr>sp_ready_suite := Some no_ready\<rparr>)
      else if name = ''start-test-suite'' then
        Inr (push_new PUSH_TEST_SUITE Suite_Object IN_START_TEST_SUITE p)
      else if name = ''ready-test-case'' then
        Inr ((PUSH_STATE IN_READY_TEST_CASE p)\<lparr>sp_ready_case := Some no_ready\<rparr>)
      else if name = ''start-test-case'' then
        Inr (push_new PUSH_TEST_CASE Case_Object IN_START_TEST_CASE p)
      else if name = ''ready-test-iterator'' then
        Inr ((PUSH_STATE IN_READY_TEST_ITERATOR p)\<lparr>sp_ready_iterator := Some no_ready\<rparr>)
      else if name = ''start-test-iterator'' then
        Inr (push_new PUSH_TEST_ITERATOR Iterator_Object IN_START_TEST_ITERATOR p)
      else if name = ''start-test'' then
        Inr ((PUSH_STATE IN_START_TEST p)\<lparr>sp_start_test := Some no_test\<rparr>)
      else if name = ''start-iterated-test'' then
        Inr ((PUSH_STATE IN_START_ITERATED_TEST p)\<lparr>sp_start_iterated_test := Some no_test\<rparr>)
      else if name = ''complete-iterated-test'' then
        Inr ((PUSH_STATE IN_COMPLETE_ITERATED_TEST p)\<lparr>sp_complete_iterated_test := Some no_test\<rparr>)
      else if name = ''complete-test'' then
        Inr ((PUSH_STATE IN_COMPLETE_TEST p)\<lparr>sp_complete_test := Some no_test\<rparr>)
      else if name = ''test-iterator-result'' then
        Inr ((PUSH_STATE IN_TEST_ITERATOR_RESULT p)\<lparr>sp_iterator_result := Some no_result\<rparr>)
      else if name = ''complete-test-iterator'' then Inr (PUSH_STATE IN_COMPLETE_TEST_ITERATOR p)
      else if name = ''test-case-result'' then
        Inr ((PUSH_STATE IN_TEST_CASE_RESULT p)\<lparr>sp_case_result := Some no_result\<rparr>)
      else if name = ''complete-test-case'' then Inr (PUSH_STATE IN_COMPLETE_TEST_CASE p)
      else if name = ''complete-test-suite'' then Inr (PUSH_STATE IN_COMPLETE_TEST_SUITE p)
      else if name = ''success'' then Inr (PUSH_STATE IN_STREAM_SUCCESS p)
      else invalid_element p)"

definition start_ready_test_suite :: "string \<Rightarrow> parse_step" where
  "start_ready_test_suite name p =
     (if name = ''test-suite'' then
        with_pointer (sp_ready_suite p)
          (\<lambda>i. let (t, q) = new_test Suite_Object (PUSH_STATE IN_TEST_SUITE p)
               in Inr (PUSH_TEST_SUITE t (q\<lparr>sp_ready_suite := Some (i\<lparr>ready_object := Some t\<rparr>)\<rparr>)))
      else if name = ''n-test-cases'' then Inr (PUSH_STATE IN_READY_TEST_SUITE_N_TEST_CASES p)
      else if name = ''n-tests'' then Inr (PUSH_STATE IN_READY_TEST_SUITE_N_TESTS p)
      else invalid_element p)"

definition start_start_test_suite :: "string \<Rightarrow> parse_step" where
  "start_start_test_suite name p =
     (if name = ''test-suite'' then Inr (push_new PUSH_TEST_SUITE Suite_Object IN_TEST_SUITE p)
      else invalid_element p)"

definition start_ready_test_case :: "string \<Rightarrow> parse_step" where
  "start_ready_test_case name p =
     (if name = ''test-case'' then
        with_pointer (sp_ready_case p)
          (\<lambda>i. let (t, q) = new_test Case_Object (PUSH_STATE IN_TEST_CASE p)
               in Inr (PUSH_TEST_CASE t (q\<lparr>sp_ready_case := Some (i\<lparr>ready_object := Some t\<rparr>)\<rparr>)))
      else if name = ''n-tests'' then Inr (PUSH_STATE IN_READY_TEST_CASE_N_TESTS p)
      else invalid_element p)"

definition start_start_test_case :: "string \<Rightarrow> parse_step" where
  "start_start_test_case name p =
     (if name = ''test-case'' then Inr (push_new PUSH_TEST_CASE Case_Object IN_TEST_CASE p)
      else invalid_element p)"

definition start_ready_test_iterator :: "string \<Rightarrow> parse_step" where
  "start_ready_test_iterator name p =
     (if name = ''test-iterator'' then
        with_pointer (sp_ready_iterator p)
          (\<lambda>i. let (t, q) = new_test Iterator_Object (PUSH_STATE IN_TEST_ITERATOR p)
               in Inr (PUSH_TEST_ITERATOR t (q\<lparr>sp_ready_iterator := Some (i\<lparr>ready_object := Some t\<rparr>)\<rparr>)))
      else if name = ''n-tests'' then Inr (PUSH_STATE IN_READY_TEST_ITERATOR_N_TESTS p)
      else invalid_element p)"

definition start_start_test_iterator :: "string \<Rightarrow> parse_step" where
  "start_start_test_iterator name p =
     (if name = ''test-iterator'' then Inr (push_new PUSH_TEST_ITERATOR Iterator_Object IN_TEST_ITERATOR p)
      else invalid_element p)"

text \<open>A test and a context below an element that holds both: \<open>get\<close> and \<open>set\<close> are the
  field of the parser.\<close>

definition start_info_test ::
  "(stream_parser \<Rightarrow> test_info option) \<Rightarrow> (test_info option \<Rightarrow> stream_parser \<Rightarrow> stream_parser) \<Rightarrow>
     test_kind \<Rightarrow> parse_state \<Rightarrow> parse_step" where
  "start_info_test get set_info k s p =
     with_pointer (get p)
       (\<lambda>i. let (t, q) = new_test k (PUSH_STATE s p)
            in Inr (PUSH_TEST t (set_info (Some (i\<lparr>info_test := Some t\<rparr>)) q)))"

definition start_info_context ::
  "(stream_parser \<Rightarrow> test_info option) \<Rightarrow> (test_info option \<Rightarrow> stream_parser \<Rightarrow> stream_parser) \<Rightarrow> parse_step" where
  "start_info_context get set_info p =
     with_pointer (get p)
       (\<lambda>i. let (c, q) = new_context_object (PUSH_STATE IN_TEST_CONTEXT p)
            in Inr (PUSH_TEST_CONTEXT c (set_info (Some (i\<lparr>info_context := Some c\<rparr>)) q)))"

definition start_start_test :: "string \<Rightarrow> parse_step" where
  "start_start_test name p =
     (if name = ''test'' then
        start_info_test sp_start_test (\<lambda>i. sp_start_test_update (\<lambda>_. i)) Test_Object IN_TEST p
      else if name = ''test-context'' then
        start_info_context sp_start_test (\<lambda>i. sp_start_test_update (\<lambda>_. i)) p
      else invalid_element p)"

definition start_start_iterated_test :: "string \<Rightarrow> parse_step" where
  "start_start_iterated_test name p =
     (if name = ''iterated-test'' then
        start_info_test sp_start_iterated_test (\<lambda>i. sp_start_iterated_test_update (\<lambda>_. i))
          Iterated_Test_Object IN_ITERATED_TEST p
      else if name = ''test-context'' then
        start_info_context sp_start_iterated_test (\<lambda>i. sp_start_iterated_test_update (\<lambda>_. i)) p
      else invalid_element p)"

definition start_pass_assertion :: "string \<Rightarrow> parse_step" where
  "start_pass_assertion name p =
     (if name = ''test'' then
        start_info_test sp_pass_assertion (\<lambda>i. sp_pass_assertion_update (\<lambda>_. i)) Test_Object IN_TEST p
      else if name = ''iterated-test'' then
        start_info_test sp_pass_assertion (\<lambda>i. sp_pass_assertion_update (\<lambda>_. i))
          Iterated_Test_Object IN_ITERATED_TEST p
      else if name = ''test-context'' then
        start_info_context sp_pass_assertion (\<lambda>i. sp_pass_assertion_update (\<lambda>_. i)) p
      else invalid_element p)"

text \<open>The result that is read is the one of the element and the current result of the parser.\<close>

definition start_new_result ::
  "(result_info option \<Rightarrow> stream_parser \<Rightarrow> stream_parser) \<Rightarrow> result_info \<Rightarrow> stream_parser \<Rightarrow> stream_parser" where
  "start_new_result set_info i p =
     (let (r, q) = new_result (PUSH_STATE IN_RESULT p)
      in (set_info (Some (i\<lparr>info_result := Some r\<rparr>)) q)\<lparr>sp_result := Some r\<rparr>)"

definition start_test_result :: "string \<Rightarrow> parse_step" where
  "start_test_result name p =
     (if name \<in> {''test'', ''iterated-test''} then
        with_pointer (sp_test_result p)
          (\<lambda>i. let (t, q) = (if name = ''test'' then new_test Test_Object (PUSH_STATE IN_TEST p)
                             else new_test Iterated_Test_Object (PUSH_STATE IN_ITERATED_TEST p))
               in Inr (PUSH_TEST t (q\<lparr>sp_test_result := Some (i\<lparr>result_object := Some t\<rparr>)\<rparr>)))
      else if name = ''test-context'' then
        with_pointer (sp_test_result p)
          (\<lambda>i. let (c, q) = new_context_object (PUSH_STATE IN_TEST_CONTEXT p)
               in Inr (PUSH_TEST_CONTEXT c (q\<lparr>sp_test_result := Some (i\<lparr>result_context := Some c\<rparr>)\<rparr>)))
      else if name = ''result'' then
        with_pointer (sp_test_result p)
          (\<lambda>i. Inr (start_new_result (\<lambda>i. sp_test_result_update (\<lambda>_. i)) i p))
      else invalid_element p)"

definition start_top_level_result :: "string \<Rightarrow> parse_step" where
  "start_top_level_result name p =
     (if name = ''result'' then
        (let (r, q) = new_result (PUSH_STATE IN_RESULT p) in Inr (q\<lparr>sp_result := Some r\<rparr>))
      else invalid_element p)"

definition start_result :: "string \<Rightarrow> parse_step" where
  "start_result name p =
     (if name = ''test-case'' then
        with_pointer (sp_result p)
          (\<lambda>r. let (t, q) = new_test Case_Object (PUSH_STATE IN_TEST_CASE p)
               in Inr (PUSH_TEST_CASE t (update_result r (cut_test_result_set_test_case (Some t)) q)))
      else if name = ''test-iterator'' then
        with_pointer (sp_result p)
          (\<lambda>r. let (t, q) = new_test Iterator_Object (PUSH_STATE IN_TEST_ITERATOR p)
               in Inr (PUSH_TEST_ITERATOR t (update_result r (cut_test_result_set_test_iterator (Some t)) q)))
      else if name \<in> {''test'', ''iterated-test''} then
        with_pointer (sp_result p)
          (\<lambda>r. let (t, q) = new_test (if name = ''iterated-test'' then Iterated_Test_Object else Test_Object)
                              (PUSH_STATE IN_TEST p)
               in Inr (PUSH_TEST t (update_result r (cut_test_result_set_test (Some t)) q)))
      else if name = ''test-data'' then
        with_pointer (sp_result p)
          (\<lambda>r. let (d, q) = new_data (PUSH_STATE IN_TEST_DATA p)
               in Inr (PUSH_TEST_DATA d (update_result r (cut_test_result_set_test_data (Some d)) q)))
      else if name = ''status'' then Inr (PUSH_STATE IN_RESULT_STATUS p)
      else if name = ''detail'' then Inr (PUSH_STATE IN_RESULT_DETAIL p)
      else if name = ''backtrace'' then Inr (PUSH_STATE IN_RESULT_BACKTRACE p)
      else if name = ''start-time'' then Inr (PUSH_STATE IN_RESULT_START_TIME p)
      else if name = ''elapsed'' then Inr (PUSH_STATE IN_RESULT_ELAPSED p)
      else if name = ''expected'' then Inr (PUSH_STATE IN_RESULT_EXPECTED p)
      else if name = ''actual'' then Inr (PUSH_STATE IN_RESULT_ACTUAL p)
      else if name = ''diff'' then Inr (PUSH_STATE IN_RESULT_DIFF p)
      else if name = ''folded-diff'' then Inr (PUSH_STATE IN_RESULT_FOLDED_DIFF p)
      else invalid_element p)"

definition start_complete_iterated_test :: "string \<Rightarrow> parse_step" where
  "start_complete_iterated_test name p =
     (if name = ''iterated-test'' then
        start_info_test sp_complete_iterated_test (\<lambda>i. sp_complete_iterated_test_update (\<lambda>_. i))
          Iterated_Test_Object IN_ITERATED_TEST p
      else if name = ''test-context'' then
        start_info_context sp_complete_iterated_test (\<lambda>i. sp_complete_iterated_test_update (\<lambda>_. i)) p
      else if name = ''success'' then Inr (PUSH_STATE IN_COMPLETE_SUCCESS p)
      else invalid_element p)"

definition start_complete_test :: "string \<Rightarrow> parse_step" where
  "start_complete_test name p =
     (if name = ''test'' then
        start_info_test sp_complete_test (\<lambda>i. sp_complete_test_update (\<lambda>_. i)) Test_Object IN_TEST p
      else if name = ''test-context'' then
        start_info_context sp_complete_test (\<lambda>i. sp_complete_test_update (\<lambda>_. i)) p
      else if name = ''success'' then Inr (PUSH_STATE IN_COMPLETE_SUCCESS p)
      else invalid_element p)"

definition start_test_iterator_result :: "string \<Rightarrow> parse_step" where
  "start_test_iterator_result name p =
     (if name = ''test-iterator'' then
        with_pointer (sp_iterator_result p)
          (\<lambda>i. let (t, q) = new_test Iterator_Object (PUSH_STATE IN_TEST_ITERATOR p)
               in Inr (PUSH_TEST_ITERATOR t (q\<lparr>sp_iterator_result := Some (i\<lparr>result_object := Some t\<rparr>)\<rparr>)))
      else if name = ''result'' then
        with_pointer (sp_iterator_result p)
          (\<lambda>i. Inr (start_new_result (\<lambda>i. sp_iterator_result_update (\<lambda>_. i)) i p))
      else invalid_element p)"

definition start_complete_test_iterator :: "string \<Rightarrow> parse_step" where
  "start_complete_test_iterator name p =
     (if name = ''test-iterator'' then Inr (push_new PUSH_TEST_ITERATOR Iterator_Object IN_TEST_ITERATOR p)
      else if name = ''success'' then Inr (PUSH_STATE IN_COMPLETE_SUCCESS p)
      else invalid_element p)"

definition start_test_case_result :: "string \<Rightarrow> parse_step" where
  "start_test_case_result name p =
     (if name = ''test-case'' then
        with_pointer (sp_case_result p)
          (\<lambda>i. let (t, q) = new_test Case_Object (PUSH_STATE IN_TEST_CASE p)
               in Inr (PUSH_TEST_CASE t (q\<lparr>sp_case_result := Some (i\<lparr>result_object := Some t\<rparr>)\<rparr>)))
      else if name = ''result'' then
        with_pointer (sp_case_result p)
          (\<lambda>i. Inr (start_new_result (\<lambda>i. sp_case_result_update (\<lambda>_. i)) i p))
      else invalid_element p)"

definition start_complete_test_case :: "string \<Rightarrow> parse_step" where
  "start_complete_test_case name p =
     (if name = ''test-case'' then Inr (push_new PUSH_TEST_CASE Case_Object IN_TEST_CASE p)
      else if name = ''success'' then Inr (PUSH_STATE IN_COMPLETE_SUCCESS p)
      else invalid_element p)"

definition start_complete_test_suite :: "string \<Rightarrow> parse_step" where
  "start_complete_test_suite name p =
     (if name = ''test-suite'' then Inr (push_new PUSH_TEST_SUITE Suite_Object IN_TEST_SUITE p)
      else if name = ''success'' then Inr (PUSH_STATE IN_COMPLETE_SUCCESS p)
      else invalid_element p)"

definition start_test_object :: "string \<Rightarrow> parse_step" where
  "start_test_object name p =
     (if name = ''name'' then Inr (PUSH_STATE IN_TEST_NAME p)
      else if name = ''description'' then Inr (PUSH_STATE IN_TEST_DESCRIPTION p)
      else if name = ''option'' then Inr (PUSH_STATE IN_TEST_OPTION p)
      else if name = ''start-time'' then Inr (PUSH_STATE IN_TEST_START_TIME p)
      else if name = ''elapsed'' then Inr (PUSH_STATE IN_TEST_ELAPSED p)
      else invalid_element p)"

definition start_test_option :: "string \<Rightarrow> parse_step" where
  "start_test_option name p =
     (if name = ''name'' then Inr (PUSH_STATE IN_TEST_OPTION_NAME p)
      else if name = ''value'' then Inr (PUSH_STATE IN_TEST_OPTION_VALUE p)
      else invalid_element p)"

definition empty_entry :: backtrace_entry where
  "empty_entry = \<lparr>entry_file = None, entry_line = 0, entry_function = None, entry_info = None\<rparr>"

definition start_result_backtrace :: "string \<Rightarrow> parse_step" where
  "start_result_backtrace name p =
     (if name = ''entry'' then
        Inr ((PUSH_STATE IN_RESULT_BACKTRACE_ENTRY p)\<lparr>sp_backtrace_entry := Some empty_entry\<rparr>)
      else invalid_element p)"

definition start_result_backtrace_entry :: "string \<Rightarrow> parse_step" where
  "start_result_backtrace_entry name p =
     (if name = ''file'' then Inr (PUSH_STATE IN_RESULT_BACKTRACE_ENTRY_FILE p)
      else if name = ''line'' then Inr (PUSH_STATE IN_RESULT_BACKTRACE_ENTRY_LINE p)
      else if name = ''info'' then Inr (PUSH_STATE IN_RESULT_BACKTRACE_ENTRY_INFO p)
      else invalid_element p)"

definition start_context_test ::
  "(object_id \<Rightarrow> stream_parser \<Rightarrow> stream_parser) \<Rightarrow> (object_id option \<Rightarrow> markup_context \<Rightarrow> markup_context) \<Rightarrow>
     test_kind \<Rightarrow> parse_state \<Rightarrow> parse_step" where
  "start_context_test push set_field k s p =
     with_pointer (peek (sp_contexts p))
       (\<lambda>c. let (t, q) = new_test k (PUSH_STATE s p)
            in Inr (push t (update_context_object c (set_field (Some t)) q)))"

definition start_test_context :: "string \<Rightarrow> parse_step" where
  "start_test_context name p =
     (if name = ''test-suite'' then
        start_context_test PUSH_TEST_SUITE (\<lambda>x. mc_suite_update (\<lambda>_. x)) Suite_Object IN_TEST_SUITE p
      else if name = ''test-case'' then
        start_context_test PUSH_TEST_CASE (\<lambda>x. mc_case_update (\<lambda>_. x)) Case_Object IN_TEST_CASE p
      else if name = ''test-iterator'' then
        start_context_test PUSH_TEST_ITERATOR (\<lambda>x. mc_iterator_update (\<lambda>_. x)) Iterator_Object IN_TEST_ITERATOR p
      else if name = ''test'' then
        start_context_test PUSH_TEST (\<lambda>x. mc_test_update (\<lambda>_. x)) Test_Object IN_TEST p
      else if name = ''iterated-test'' then
        start_context_test PUSH_TEST (\<lambda>x. mc_test_update (\<lambda>_. x)) Iterated_Test_Object IN_ITERATED_TEST p
      else if name = ''test-data'' then
        with_pointer (peek (sp_contexts p))
          (\<lambda>c. let (d, q) = new_data (PUSH_STATE IN_TEST_DATA p)
               in Inr (PUSH_TEST_DATA d (update_context_object c (mc_data_update (\<lambda>_. Some d)) q)))
      else if name = ''failed'' then Inr (PUSH_STATE IN_TEST_CONTEXT_FAILED p)
      else invalid_element p)"

definition start_test_data :: "string \<Rightarrow> parse_step" where
  "start_test_data name p =
     (if name = ''name'' then Inr (PUSH_STATE IN_TEST_DATA_NAME p) else invalid_element p)"

text \<open>The state is the head of the queue, 0 for an empty queue, which is \<open>IN_TOP_LEVEL\<close>.\<close>

definition PEEK_STATE :: "stream_parser \<Rightarrow> parse_state" where
  "PEEK_STATE p = (case sp_states p of [] \<Rightarrow> IN_TOP_LEVEL | s # _ \<Rightarrow> s)"

definition start_in_state :: "parse_state \<Rightarrow> string \<Rightarrow> parse_step" where
  "start_in_state s =
     (case s of
        IN_TOP_LEVEL \<Rightarrow> start_top_level
      | IN_STREAM \<Rightarrow> start_stream
      | IN_READY_TEST_SUITE \<Rightarrow> start_ready_test_suite
      | IN_START_TEST_SUITE \<Rightarrow> start_start_test_suite
      | IN_READY_TEST_CASE \<Rightarrow> start_ready_test_case
      | IN_START_TEST_CASE \<Rightarrow> start_start_test_case
      | IN_READY_TEST_ITERATOR \<Rightarrow> start_ready_test_iterator
      | IN_START_TEST_ITERATOR \<Rightarrow> start_start_test_iterator
      | IN_START_TEST \<Rightarrow> start_start_test
      | IN_START_ITERATED_TEST \<Rightarrow> start_start_iterated_test
      | IN_PASS_ASSERTION \<Rightarrow> start_pass_assertion
      | IN_TEST_RESULT \<Rightarrow> start_test_result
      | IN_TOP_LEVEL_RESULT \<Rightarrow> start_top_level_result
      | IN_RESULT \<Rightarrow> start_result
      | IN_COMPLETE_ITERATED_TEST \<Rightarrow> start_complete_iterated_test
      | IN_COMPLETE_TEST \<Rightarrow> start_complete_test
      | IN_TEST_ITERATOR_RESULT \<Rightarrow> start_test_iterator_result
      | IN_COMPLETE_TEST_ITERATOR \<Rightarrow> start_complete_test_iterator
      | IN_TEST_CASE_RESULT \<Rightarrow> start_test_case_result
      | IN_COMPLETE_TEST_CASE \<Rightarrow> start_complete_test_case
      | IN_COMPLETE_TEST_SUITE \<Rightarrow> start_complete_test_suite
      | IN_TEST_SUITE \<Rightarrow> start_test_object
      | IN_TEST_CASE \<Rightarrow> start_test_object
      | IN_TEST_ITERATOR \<Rightarrow> start_test_object
      | IN_TEST \<Rightarrow> start_test_object
      | IN_ITERATED_TEST \<Rightarrow> start_test_object
      | IN_TEST_OPTION \<Rightarrow> start_test_option
      | IN_RESULT_BACKTRACE \<Rightarrow> start_result_backtrace
      | IN_RESULT_BACKTRACE_ENTRY \<Rightarrow> start_result_backtrace_entry
      | IN_TEST_CONTEXT \<Rightarrow> start_test_context
      | IN_TEST_DATA \<Rightarrow> start_test_data
      | _ \<Rightarrow> (\<lambda>name. invalid_element))"

definition start_element_handler :: "string \<Rightarrow> parse_step" where
  "start_element_handler name p =
     start_in_state (PEEK_STATE p) name (p\<lparr>sp_element_stack := sp_element_stack p @ [name]\<rparr>)"

section \<open>End of an element\<close>

definition end_top_level_result :: parse_step where
  "end_top_level_result p = Inr (p\<lparr>sp_result := None\<rparr>)"

text \<open>\<open>cut_run_context_emit_complete_run\<close>: the run is successful only if the status of the
  run context is not critical.\<close>

definition end_stream :: parse_step where
  "end_stream p =
     Inr (case sp_run_context p of
            None \<Rightarrow> p
          | Some rc \<Rightarrow>
              emit_signal (Complete_Run (if cut_test_result_status_is_critical (cut_run_context_get_status rc)
                                         then False else sp_stream_success p)) p)"

definition end_result :: parse_step where
  "end_result p =
     Inr (case sp_result p of
            None \<Rightarrow> p
          | Some r \<Rightarrow> p\<lparr>sp_results_emitted := sp_results_emitted p @ [sp_results p ! r]\<rparr>)"

definition drop_if :: "'a option \<Rightarrow> (stream_parser \<Rightarrow> stream_parser) \<Rightarrow> stream_parser \<Rightarrow> stream_parser" where
  "drop_if x drop_top p = (if x \<noteq> None then drop_top p else p)"

definition end_test_context :: parse_step where
  "end_test_context p =
     with_pointer (peek (sp_contexts p))
       (\<lambda>c. let mc = ms_contexts (sp_store p) ! c
            in Inr (drop_if (mc_data mc) DROP_TEST_DATA
                 (drop_if (mc_test mc) DROP_TEST
                   (drop_if (mc_iterator mc) DROP_TEST_ITERATOR
                     (drop_if (mc_case mc) DROP_TEST_CASE
                       (drop_if (mc_suite mc) DROP_TEST_SUITE p))))))"

definition cut_test_set_attribute :: "ustring \<Rightarrow> ustring \<Rightarrow> markup_test \<Rightarrow> markup_test" where
  "cut_test_set_attribute name v t = t\<lparr>mt_attributes := AList.update name v (mt_attributes t)\<rparr>"

definition end_test_option :: parse_step where
  "end_test_option p =
     (case (sp_option_name p, sp_option_value p) of
        (None, _) \<Rightarrow> set_parse_error (ascii ''option name is not set'') p
      | (Some n, None) \<Rightarrow> set_parse_error (ascii ''option value is not set'') p
      | (Some n, Some v) \<Rightarrow>
          with_pointer (peek (sp_tests p))
            (\<lambda>t. Inr ((update_test t (cut_test_set_attribute n v) p)
                        \<lparr>sp_option_name := None, sp_option_value := None\<rparr>)))"

definition end_result_backtrace :: parse_step where
  "end_result_backtrace p =
     Inr (if sp_backtrace p = [] then p
          else (case sp_result p of
                  None \<Rightarrow> p
                | Some r \<Rightarrow> update_result r (cut_test_result_set_backtrace (rev (sp_backtrace p))) p)
               \<lparr>sp_backtrace := []\<rparr>)"

definition end_result_backtrace_entry :: parse_step where
  "end_result_backtrace_entry p =
     Inr (case sp_backtrace_entry p of
            None \<Rightarrow> p
          | Some e \<Rightarrow> p\<lparr>sp_backtrace := e # sp_backtrace p, sp_backtrace_entry := None\<rparr>)"

definition end_ready_test_suite :: parse_step where
  "end_ready_test_suite p =
     Inr (case sp_ready_suite p of
            None \<Rightarrow> p
          | Some i \<Rightarrow>
              (drop_if (ready_object i) DROP_TEST_SUITE
                (emit_signal (Ready_Test_Suite (pointer (ready_object i)) (ready_n_test_cases i)
                   (ready_n_tests i)) p))\<lparr>sp_ready_suite := None\<rparr>)"

definition end_start_test_suite :: parse_step where
  "end_start_test_suite p =
     Inr (case sp_suites p of
            [] \<Rightarrow> p
          | t # ts \<Rightarrow> emit_signal (Start_Test_Suite t) (p\<lparr>sp_suites := ts\<rparr>))"

definition end_ready_test_case :: parse_step where
  "end_ready_test_case p =
     Inr (case sp_ready_case p of
            None \<Rightarrow> p
          | Some i \<Rightarrow>
              (drop_if (ready_object i) DROP_TEST_CASE
                (emit_signal (Ready_Test_Case (pointer (ready_object i)) (ready_n_tests i)) p))
              \<lparr>sp_ready_case := None\<rparr>)"

definition end_start_test_case :: parse_step where
  "end_start_test_case p =
     Inr (case sp_cases p of
            [] \<Rightarrow> p
          | t # ts \<Rightarrow> emit_signal (Start_Test_Case t) (p\<lparr>sp_cases := ts\<rparr>))"

definition end_ready_test_iterator :: parse_step where
  "end_ready_test_iterator p =
     Inr (case sp_ready_iterator p of
            None \<Rightarrow> p
          | Some i \<Rightarrow>
              (drop_if (ready_object i) DROP_TEST_ITERATOR
                (emit_signal (Ready_Test_Iterator (pointer (ready_object i)) (ready_n_tests i)) p))
              \<lparr>sp_ready_iterator := None\<rparr>)"

definition end_start_test_iterator :: parse_step where
  "end_start_test_iterator p =
     Inr (case sp_iterators p of
            [] \<Rightarrow> p
          | t # ts \<Rightarrow> emit_signal (Start_Test_Iterator t) (p\<lparr>sp_iterators := ts\<rparr>))"

definition drop_info :: "test_info \<Rightarrow> stream_parser \<Rightarrow> stream_parser" where
  "drop_info i p = drop_if (info_context i) DROP_TEST_CONTEXT (drop_if (info_test i) DROP_TEST p)"

definition end_start_test :: parse_step where
  "end_start_test p =
     Inr (case sp_start_test p of
            None \<Rightarrow> p
          | Some i \<Rightarrow>
              (drop_info i (emit_signal (Start_Test (pointer (info_test i)) (info_context i)) p))
              \<lparr>sp_start_test := None\<rparr>)"

definition end_start_iterated_test :: parse_step where
  "end_start_iterated_test p =
     Inr (case sp_start_iterated_test p of
            None \<Rightarrow> p
          | Some i \<Rightarrow>
              (drop_info i (emit_signal (Start_Iterated_Test (pointer (info_test i)) (info_context i)) p))
              \<lparr>sp_start_iterated_test := None\<rparr>)"

definition end_pass_assertion :: parse_step where
  "end_pass_assertion p =
     Inr (case sp_pass_assertion p of
            None \<Rightarrow> p
          | Some i \<Rightarrow>
              (drop_info i (emit_signal (Pass_Assertion (pointer (info_test i)) (info_context i)) p))
              \<lparr>sp_pass_assertion := None\<rparr>)"

text \<open>With a run context, the status of the result is read, which must be there.\<close>

definition emit_result :: "(test_status \<Rightarrow> test_result \<Rightarrow> run_signal) \<Rightarrow> result_info \<Rightarrow> parse_step" where
  "emit_result sig i p =
     (if sp_run_context p = None then Inr p
      else with_pointer (info_result i)
             (\<lambda>r. Inr (emit_signal (sig (result_status (sp_results p ! r)) (sp_results p ! r)) p)))"

definition end_test_result :: parse_step where
  "end_test_result p =
     (case sp_test_result p of
        None \<Rightarrow> Inr p
      | Some i \<Rightarrow>
          map_sum id
            (\<lambda>q. (drop_if (result_context i) DROP_TEST_CONTEXT (drop_if (result_object i) DROP_TEST q))
                 \<lparr>sp_test_result := None, sp_result := None\<rparr>)
            (emit_result (\<lambda>s r. Status_Test s (pointer (result_object i)) (result_context i) r) i p))"

text \<open>\<open>cut_test_get_elapsed\<close> of a missing test dereferences NULL in the class handler.\<close>

definition end_complete_iterated_test :: parse_step where
  "end_complete_iterated_test p =
     (case sp_complete_iterated_test p of
        None \<Rightarrow> Inr p
      | Some i \<Rightarrow>
          (if info_test i = None \<and> sp_run_context p \<noteq> None then Inl Null_Pointer
           else Inr ((drop_info i
             (emit_signal (Complete_Iterated_Test (pointer (info_test i)) (info_context i)
                (sp_complete_success p)) p))\<lparr>sp_complete_iterated_test := None\<rparr>)))"

definition end_complete_test :: parse_step where
  "end_complete_test p =
     (case sp_complete_test p of
        None \<Rightarrow> Inr p
      | Some i \<Rightarrow>
          (if info_test i = None \<and> sp_run_context p \<noteq> None then Inl Null_Pointer
           else Inr ((drop_info i
             (emit_signal (Complete_Test (pointer (info_test i)) (info_context i)
                (sp_complete_success p)) p))\<lparr>sp_complete_test := None, sp_complete_success := True\<rparr>)))"

definition end_test_iterator_result :: parse_step where
  "end_test_iterator_result p =
     (case sp_iterator_result p of
        None \<Rightarrow> Inr p
      | Some i \<Rightarrow>
          map_sum id
            (\<lambda>q. (drop_if (result_object i) DROP_TEST_ITERATOR q)\<lparr>sp_iterator_result := None, sp_result := None\<rparr>)
            (emit_result (\<lambda>s r. Status_Test_Iterator s (pointer (result_object i)) r) i p))"

definition end_complete_test_iterator :: parse_step where
  "end_complete_test_iterator p =
     Inr (case sp_iterators p of
            [] \<Rightarrow> p
          | t # ts \<Rightarrow>
              (emit_signal (Complete_Test_Iterator t (sp_complete_success p)) (p\<lparr>sp_iterators := ts\<rparr>))
              \<lparr>sp_complete_success := True\<rparr>)"

definition end_test_case_result :: parse_step where
  "end_test_case_result p =
     (case sp_case_result p of
        None \<Rightarrow> Inr p
      | Some i \<Rightarrow>
          map_sum id
            (\<lambda>q. (drop_if (result_object i) DROP_TEST_CASE q)\<lparr>sp_case_result := None, sp_result := None\<rparr>)
            (emit_result (\<lambda>s r. Status_Test_Case s (pointer (result_object i)) r) i p))"

definition end_complete_test_case :: parse_step where
  "end_complete_test_case p =
     Inr (case sp_cases p of
            [] \<Rightarrow> p
          | t # ts \<Rightarrow>
              (emit_signal (Complete_Test_Case t (sp_complete_success p)) (p\<lparr>sp_cases := ts\<rparr>))
              \<lparr>sp_complete_success := True\<rparr>)"

definition end_complete_test_suite :: parse_step where
  "end_complete_test_suite p =
     Inr (case sp_suites p of
            [] \<Rightarrow> p
          | t # ts \<Rightarrow>
              (emit_signal (Complete_Test_Suite t (sp_complete_success p)) (p\<lparr>sp_suites := ts\<rparr>))
              \<lparr>sp_complete_success := True\<rparr>)"

definition end_in_state :: "parse_state \<Rightarrow> parse_step" where
  "end_in_state s =
     (case s of
        IN_TOP_LEVEL_RESULT \<Rightarrow> end_top_level_result
      | IN_STREAM \<Rightarrow> end_stream
      | IN_RESULT \<Rightarrow> end_result
      | IN_TEST_CONTEXT \<Rightarrow> end_test_context
      | IN_TEST_OPTION \<Rightarrow> end_test_option
      | IN_RESULT_BACKTRACE \<Rightarrow> end_result_backtrace
      | IN_RESULT_BACKTRACE_ENTRY \<Rightarrow> end_result_backtrace_entry
      | IN_READY_TEST_SUITE \<Rightarrow> end_ready_test_suite
      | IN_START_TEST_SUITE \<Rightarrow> end_start_test_suite
      | IN_READY_TEST_CASE \<Rightarrow> end_ready_test_case
      | IN_START_TEST_CASE \<Rightarrow> end_start_test_case
      | IN_READY_TEST_ITERATOR \<Rightarrow> end_ready_test_iterator
      | IN_START_TEST_ITERATOR \<Rightarrow> end_start_test_iterator
      | IN_START_TEST \<Rightarrow> end_start_test
      | IN_START_ITERATED_TEST \<Rightarrow> end_start_iterated_test
      | IN_PASS_ASSERTION \<Rightarrow> end_pass_assertion
      | IN_TEST_RESULT \<Rightarrow> end_test_result
      | IN_COMPLETE_ITERATED_TEST \<Rightarrow> end_complete_iterated_test
      | IN_COMPLETE_TEST \<Rightarrow> end_complete_test
      | IN_TEST_ITERATOR_RESULT \<Rightarrow> end_test_iterator_result
      | IN_COMPLETE_TEST_ITERATOR \<Rightarrow> end_complete_test_iterator
      | IN_TEST_CASE_RESULT \<Rightarrow> end_test_case_result
      | IN_COMPLETE_TEST_CASE \<Rightarrow> end_complete_test_case
      | IN_COMPLETE_TEST_SUITE \<Rightarrow> end_complete_test_suite
      | _ \<Rightarrow> Inr)"

definition end_element_handler :: "string \<Rightarrow> parse_step" where
  "end_element_handler name p =
     map_sum id (\<lambda>q. q\<lparr>sp_element_stack := butlast (sp_element_stack q)\<rparr>)
       (end_in_state (PEEK_STATE p) (p\<lparr>sp_states := tl (sp_states p)\<rparr>))"

section \<open>Text\<close>

definition result_name_to_status :: "ustring \<Rightarrow> test_status option" where
  "result_name_to_status s =
     (if s = ascii ''success'' then Some SUCCESS
      else if s = ascii ''failure'' then Some FAILURE
      else if s = ascii ''error'' then Some ERROR
      else if s = ascii ''pending'' then Some PENDING
      else if s = ascii ''notification'' then Some NOTIFICATION
      else if s = ascii ''omission'' then Some OMISSION
      else if s = ascii ''crash'' then Some CRASH
      else None)"

text \<open>The object whose name, description or time is read, by the state below the current one.\<close>

definition target_test_object :: "parse_state \<Rightarrow> stream_parser \<Rightarrow> object_id option" where
  "target_test_object parent p =
     (case parent of
        IN_TEST_SUITE \<Rightarrow> peek (sp_suites p)
      | IN_TEST_CASE \<Rightarrow> peek (sp_cases p)
      | IN_TEST_ITERATOR \<Rightarrow> peek (sp_iterators p)
      | IN_TEST \<Rightarrow> peek (sp_tests p)
      | IN_ITERATED_TEST \<Rightarrow> peek (sp_tests p)
      | _ \<Rightarrow> None)"

definition parent_state :: "stream_parser \<Rightarrow> parse_state" where
  "parent_state p = (case sp_states p of _ # s # _ \<Rightarrow> s | _ \<Rightarrow> IN_TOP_LEVEL)"

definition with_target :: "string \<Rightarrow> (object_id \<Rightarrow> parse_step) \<Rightarrow> parse_step" where
  "with_target message f p =
     (case target_test_object (parent_state p) p of
        None \<Rightarrow> set_parse_error (ascii message) p
      | Some t \<Rightarrow> f t p)"

definition text_test_name :: "ustring \<Rightarrow> parse_step" where
  "text_test_name text =
     with_target ''can't find test name target'' (\<lambda>t p. Inr (update_test t (mt_name_update (\<lambda>_. Some text)) p))"

definition text_test_description :: "ustring \<Rightarrow> parse_step" where
  "text_test_description text =
     with_target ''can't find test description target''
       (\<lambda>t p. Inr (update_test t (cut_test_set_attribute description_key text) p))"

definition text_test_option_name :: "ustring \<Rightarrow> parse_step" where
  "text_test_option_name text p =
     (if sp_option_name p \<noteq> None then set_parse_error (ascii ''multiple option name: '' @ text) p
      else Inr (p\<lparr>sp_option_name := Some text\<rparr>))"

definition text_test_option_value :: "ustring \<Rightarrow> parse_step" where
  "text_test_option_value text p =
     (if sp_option_value p \<noteq> None then set_parse_error (ascii ''multiple option value: '' @ text) p
      else Inr (p\<lparr>sp_option_value := Some text\<rparr>))"

definition invalid_time :: "ustring \<Rightarrow> ustring" where
  "invalid_time text = ascii ''invalid start-time value (not ISO 8601 format): '' @ text"

definition read_double :: "text_tools \<Rightarrow> ustring \<Rightarrow> rat option" where
  "read_double G text =
     (case ascii_strtod G text of
        (x, n) \<Rightarrow> if n \<noteq> 0 \<and> n = length text then Some x else None)"

definition text_test_start_time :: "text_tools \<Rightarrow> ustring \<Rightarrow> parse_step" where
  "text_test_start_time G text =
     with_target ''can't find test start time target''
       (\<lambda>t p. case from_iso8601 G text of
                None \<Rightarrow> set_parse_error (invalid_time text) p
              | Some x \<Rightarrow> Inr (update_test t (mt_start_time_update (\<lambda>_. x)) p))"

definition text_test_elapsed :: "text_tools \<Rightarrow> ustring \<Rightarrow> parse_step" where
  "text_test_elapsed G text =
     with_target ''can't find test elapsed target''
       (\<lambda>t p. case read_double G text of
                None \<Rightarrow> set_parse_error (ascii ''invalid elapsed value: '' @ text) p
              | Some x \<Rightarrow> Inr (update_test t (mt_elapsed_update (\<lambda>_. x)) p))"

definition with_result :: "(test_result \<Rightarrow> test_result) \<Rightarrow> parse_step" where
  "with_result f p = with_pointer (sp_result p) (\<lambda>r. Inr (update_result r f p))"

definition text_result_status :: "ustring \<Rightarrow> parse_step" where
  "text_result_status text p =
     (case result_name_to_status text of
        None \<Rightarrow> set_parse_error (ascii ''invalid status: '' @ text) p
      | Some s \<Rightarrow> with_result (cut_test_result_set_status s) p)"

definition text_result_detail :: "ustring \<Rightarrow> parse_step" where
  "text_result_detail text = with_result (cut_test_result_set_message (Some text))"

definition with_entry :: "(backtrace_entry \<Rightarrow> backtrace_entry) \<Rightarrow> parse_step" where
  "with_entry f p = with_pointer (sp_backtrace_entry p) (\<lambda>e. Inr (p\<lparr>sp_backtrace_entry := Some (f e)\<rparr>))"

definition text_result_backtrace_entry_file :: "ustring \<Rightarrow> parse_step" where
  "text_result_backtrace_entry_file text = with_entry (entry_file_update (\<lambda>_. Some text))"

definition text_result_backtrace_entry_line :: "ustring \<Rightarrow> parse_step" where
  "text_result_backtrace_entry_line text p =
     (if is_integer text then with_entry (entry_line_update (\<lambda>_. atoi text)) p
      else set_parse_error (ascii ''invalid line number: '' @ text) p)"

definition text_result_backtrace_entry_info :: "ustring \<Rightarrow> parse_step" where
  "text_result_backtrace_entry_info text =
     (case strstr text (ascii ''):'') of
        Some (before, rest) \<Rightarrow>
          with_entry (\<lambda>e. e\<lparr>entry_function := Some (before @ ascii '')''),
                            entry_info := Some (dropWhile (\<lambda>c. c = 32) (drop 2 rest))\<rparr>)
      | None \<Rightarrow>
          (if has_suffix text (ascii '')'') \<and> strstr text (ascii ''('') \<noteq> None
           then with_entry (entry_function_update (\<lambda>_. Some text))
           else with_entry (entry_info_update (\<lambda>_. Some text))))"

definition text_result_start_time :: "text_tools \<Rightarrow> ustring \<Rightarrow> parse_step" where
  "text_result_start_time G text p =
     (case from_iso8601 G text of
        None \<Rightarrow> set_parse_error (invalid_time text) p
      | Some x \<Rightarrow> with_result (cut_test_result_set_start_time x) p)"

definition text_result_elapsed :: "text_tools \<Rightarrow> ustring \<Rightarrow> parse_step" where
  "text_result_elapsed G text p =
     (case read_double G text of
        None \<Rightarrow> set_parse_error (ascii ''invalid elapsed value: '' @ text) p
      | Some x \<Rightarrow> with_result (cut_test_result_set_elapsed x) p)"

definition text_result_expected :: "ustring \<Rightarrow> parse_step" where
  "text_result_expected text = with_result (cut_test_result_set_expected (Some text))"

definition text_result_actual :: "ustring \<Rightarrow> parse_step" where
  "text_result_actual text = with_result (cut_test_result_set_actual (Some text))"

definition text_result_diff :: "ustring \<Rightarrow> parse_step" where
  "text_result_diff text = with_result (cut_test_result_set_diff (Some text))"

definition text_result_folded_diff :: "ustring \<Rightarrow> parse_step" where
  "text_result_folded_diff text = with_result (cut_test_result_set_folded_diff (Some text))"

definition text_ready_test_suite_n_test_cases :: "ustring \<Rightarrow> parse_step" where
  "text_ready_test_suite_n_test_cases text p =
     (if is_integer text then
        with_pointer (sp_ready_suite p)
          (\<lambda>i. Inr (p\<lparr>sp_ready_suite := Some (i\<lparr>ready_n_test_cases := atoi text\<rparr>)\<rparr>))
      else set_parse_error (ascii ''invalid # of test cases: '' @ text) p)"

definition invalid_n_tests :: "ustring \<Rightarrow> parse_step" where
  "invalid_n_tests text = set_parse_error (ascii ''invalid # of tests: '' @ text)"

definition text_ready_test_suite_n_tests :: "ustring \<Rightarrow> parse_step" where
  "text_ready_test_suite_n_tests text p =
     (if is_integer text then
        with_pointer (sp_ready_suite p) (\<lambda>i. Inr (p\<lparr>sp_ready_suite := Some (i\<lparr>ready_n_tests := atoi text\<rparr>)\<rparr>))
      else invalid_n_tests text p)"

definition text_ready_test_case_n_tests :: "ustring \<Rightarrow> parse_step" where
  "text_ready_test_case_n_tests text p =
     (if is_integer text then
        with_pointer (sp_ready_case p) (\<lambda>i. Inr (p\<lparr>sp_ready_case := Some (i\<lparr>ready_n_tests := atoi text\<rparr>)\<rparr>))
      else invalid_n_tests text p)"

definition text_ready_test_iterator_n_tests :: "ustring \<Rightarrow> parse_step" where
  "text_ready_test_iterator_n_tests text p =
     (if is_integer text then
        with_pointer (sp_ready_iterator p)
          (\<lambda>i. Inr (p\<lparr>sp_ready_iterator := Some (i\<lparr>ready_n_tests := atoi text\<rparr>)\<rparr>))
      else invalid_n_tests text p)"

definition text_test_data_name :: "ustring \<Rightarrow> parse_step" where
  "text_test_data_name text p =
     with_pointer (peek (sp_data p)) (\<lambda>d. Inr (update_data d (Some text) p))"

definition invalid_boolean :: "ustring \<Rightarrow> parse_step" where
  "invalid_boolean text = set_parse_error (ascii ''invalid boolean value: '' @ text)"

definition text_test_context_failed :: "ustring \<Rightarrow> parse_step" where
  "text_test_context_failed text p =
     (if is_boolean text then
        with_pointer (peek (sp_contexts p))
          (\<lambda>c. Inr (update_context_object c (mc_failed_update (\<lambda>_. string_to_boolean text)) p))
      else invalid_boolean text p)"

definition text_complete_success :: "ustring \<Rightarrow> parse_step" where
  "text_complete_success text p =
     (if is_boolean text then Inr (p\<lparr>sp_complete_success := string_to_boolean text\<rparr>)
      else invalid_boolean text p)"

definition text_stream_success :: "ustring \<Rightarrow> parse_step" where
  "text_stream_success text p =
     (if is_boolean text then Inr (p\<lparr>sp_stream_success := string_to_boolean text\<rparr>)
      else invalid_boolean text p)"

definition then_step :: "parse_step \<Rightarrow> parse_step \<Rightarrow> parse_step" where
  "then_step f g p = (case f p of Inl e \<Rightarrow> Inl e | Inr q \<Rightarrow> g q)"

text \<open>The case of \<open>IN_COMPLETE_SUCCESS\<close> falls through to the next one; of two errors the first
  is kept.\<close>

definition text_in_state :: "text_tools \<Rightarrow> parse_state \<Rightarrow> ustring \<Rightarrow> parse_step" where
  "text_in_state G s text =
     (case s of
        IN_TEST_NAME \<Rightarrow> text_test_name text
      | IN_TEST_DESCRIPTION \<Rightarrow> text_test_description text
      | IN_TEST_OPTION_NAME \<Rightarrow> text_test_option_name text
      | IN_TEST_OPTION_VALUE \<Rightarrow> text_test_option_value text
      | IN_TEST_START_TIME \<Rightarrow> text_test_start_time G text
      | IN_TEST_ELAPSED \<Rightarrow> text_test_elapsed G text
      | IN_RESULT_STATUS \<Rightarrow> text_result_status text
      | IN_RESULT_DETAIL \<Rightarrow> text_result_detail text
      | IN_RESULT_BACKTRACE_ENTRY_FILE \<Rightarrow> text_result_backtrace_entry_file text
      | IN_RESULT_BACKTRACE_ENTRY_LINE \<Rightarrow> text_result_backtrace_entry_line text
      | IN_RESULT_BACKTRACE_ENTRY_INFO \<Rightarrow> text_result_backtrace_entry_info text
      | IN_RESULT_START_TIME \<Rightarrow> text_result_start_time G text
      | IN_RESULT_ELAPSED \<Rightarrow> text_result_elapsed G text
      | IN_RESULT_EXPECTED \<Rightarrow> text_result_expected text
      | IN_RESULT_ACTUAL \<Rightarrow> text_result_actual text
      | IN_RESULT_DIFF \<Rightarrow> text_result_diff text
      | IN_RESULT_FOLDED_DIFF \<Rightarrow> text_result_folded_diff text
      | IN_READY_TEST_SUITE_N_TEST_CASES \<Rightarrow> text_ready_test_suite_n_test_cases text
      | IN_READY_TEST_SUITE_N_TESTS \<Rightarrow> text_ready_test_suite_n_tests text
      | IN_READY_TEST_CASE_N_TESTS \<Rightarrow> text_ready_test_case_n_tests text
      | IN_READY_TEST_ITERATOR_N_TESTS \<Rightarrow> text_ready_test_iterator_n_tests text
      | IN_TEST_DATA_NAME \<Rightarrow> text_test_data_name text
      | IN_TEST_CONTEXT_FAILED \<Rightarrow> text_test_context_failed text
      | IN_COMPLETE_SUCCESS \<Rightarrow> then_step (text_complete_success text) (text_stream_success text)
      | IN_STREAM_SUCCESS \<Rightarrow> text_stream_success text
      | _ \<Rightarrow> Inr)"

definition text_handler :: "text_tools \<Rightarrow> ustring \<Rightarrow> parse_step" where
  "text_handler G text p = text_in_state G (PEEK_STATE p) text p"

section \<open>Parsing\<close>

text \<open>The markup parser calls the handlers and stops at the first error.\<close>

primrec handle_event :: "text_tools \<Rightarrow> xml_event \<Rightarrow> parse_step" where
  "handle_event G (Start_Element n) = start_element_handler n"
| "handle_event G (End_Element n) = end_element_handler n"
| "handle_event G (Characters s) = text_handler G s"

primrec cut_stream_parser_parse :: "text_tools \<Rightarrow> xml_event list \<Rightarrow> parse_step" where
  "cut_stream_parser_parse G [] = Inr"
| "cut_stream_parser_parse G (e # es) = then_step (handle_event G e) (cut_stream_parser_parse G es)"

end
