(* ===== verification/Stream_Trees.thy ===== *)
theory Stream_Trees
  imports Stream_Parser
begin

text \<open>
  The trees of what is written: each writer's text is the text of a tree, so that the events a markup
  parser reports of it are known.
\<close>

section \<open>Trees\<close>

definition opt_leaf :: "string \<Rightarrow> ustring option \<Rightarrow> xml_tree list" where
  "opt_leaf n x = (case x of None \<Rightarrow> [] | Some v \<Rightarrow> [Leaf n v])"

definition opt_tree :: "('a \<Rightarrow> xml_tree) \<Rightarrow> 'a option \<Rightarrow> xml_tree list" where
  "opt_tree f x = (case x of None \<Rightarrow> [] | Some a \<Rightarrow> [f a])"

definition boolean_text :: "bool \<Rightarrow> ustring" where
  "boolean_text b = (if b then ascii ''true'' else ascii ''false'')"

definition option_tree :: "ustring \<times> ustring \<Rightarrow> xml_tree" where
  "option_tree kv = Node ''option'' [Leaf ''name'' (fst kv), Leaf ''value'' (snd kv)]"

definition other_attributes :: "markup_test \<Rightarrow> (ustring \<times> ustring) list" where
  "other_attributes m = filter (\<lambda>kv. fst kv \<noteq> description_key) (mt_attributes m)"

definition test_trees :: "text_tools \<Rightarrow> markup_test \<Rightarrow> xml_tree list" where
  "test_trees G m =
     opt_leaf ''name'' (mt_name m) @ opt_leaf ''description'' (cut_test_get_description m) @
     [Leaf ''start-time'' (to_iso8601 G (mt_start_time m)),
      Leaf ''elapsed'' (cut_utils_double_to_string G (cut_test_get_elapsed m))] @
     map option_tree (other_attributes m)"

definition test_tree :: "text_tools \<Rightarrow> markup_test \<Rightarrow> xml_tree" where
  "test_tree G m = Node (element_name (mt_kind m)) (test_trees G m)"

definition data_tree :: "ustring option \<Rightarrow> xml_tree" where
  "data_tree name = Node ''test-data'' (opt_leaf ''name'' name)"

definition context_trees :: "text_tools \<Rightarrow> markup_store \<Rightarrow> markup_context \<Rightarrow> xml_tree list" where
  "context_trees G S c =
     (let tt = (\<lambda>t. test_tree G (ms_tests S ! t))
      in opt_tree tt (mc_suite c) @ opt_tree tt (mc_case c) @ opt_tree tt (mc_iterator c) @
         opt_tree tt (mc_test c) @ opt_tree (\<lambda>d. data_tree (ms_data S ! d)) (mc_data c) @
         [Leaf ''failed'' (boolean_text (mc_failed c))])"

definition context_tree :: "text_tools \<Rightarrow> markup_store \<Rightarrow> markup_context \<Rightarrow> xml_tree" where
  "context_tree G S c = Node ''test-context'' (context_trees G S c)"

definition entry_trees :: "backtrace_entry \<Rightarrow> xml_tree list" where
  "entry_trees e =
     opt_leaf ''file'' (entry_file e) @ opt_leaf ''line'' (entry_line_string e) @
     opt_leaf ''info'' (entry_info_string e)"

definition entry_written :: "backtrace_entry \<Rightarrow> bool" where
  "entry_written e \<longleftrightarrow> \<not> (entry_file e = None \<and> entry_function e = None)"

definition backtrace_trees :: "backtrace_entry list \<Rightarrow> xml_tree list" where
  "backtrace_trees es =
     (if es = [] then []
      else [Node ''backtrace'' (map (\<lambda>e. Node ''entry'' (entry_trees e)) (filter entry_written es))])"

definition result_trees :: "text_tools \<Rightarrow> diff_tools \<Rightarrow> markup_store \<Rightarrow> test_result \<Rightarrow> xml_tree list" where
  "result_trees G T S r =
     (let tt = (\<lambda>t. test_tree G (ms_tests S ! t));
          (message, diff, folded_diff) = shown_texts T r
      in opt_tree tt (result_test_case r) @ opt_tree tt (result_test_iterator r) @ opt_tree tt (result_test r) @
         opt_tree (\<lambda>d. data_tree (ms_data S ! d)) (result_test_data r) @
         [Leaf ''status'' (ascii (result_status_to_name (result_status r)))] @
         opt_leaf ''detail'' message @
         (if result_status r \<noteq> SUCCESS then backtrace_trees (result_backtrace r) else []) @
         [Leaf ''start-time'' (to_iso8601 G (result_start_time r)),
          Leaf ''elapsed'' (cut_utils_double_to_string G (result_elapsed r))] @
         opt_leaf ''expected'' (result_expected r) @ opt_leaf ''actual'' (result_actual r) @
         opt_leaf ''diff'' diff @ opt_leaf ''folded-diff'' folded_diff)"

definition result_tree :: "text_tools \<Rightarrow> diff_tools \<Rightarrow> markup_store \<Rightarrow> test_result \<Rightarrow> xml_tree" where
  "result_tree G T S r = Node ''result'' (result_trees G T S r)"

definition stored_test_tree :: "text_tools \<Rightarrow> markup_store \<Rightarrow> object_id \<Rightarrow> xml_tree" where
  "stored_test_tree G S t = test_tree G (ms_tests S ! t)"

definition stored_context_trees :: "text_tools \<Rightarrow> markup_store \<Rightarrow> object_id option \<Rightarrow> xml_tree list" where
  "stored_context_trees G S = opt_tree (\<lambda>c. context_tree G S (ms_contexts S ! c))"

abbreviation number_leaf :: "string \<Rightarrow> nat \<Rightarrow> xml_tree" where
  "number_leaf n k \<equiv> Leaf n (print_guint k)"

abbreviation success_leaf :: "bool \<Rightarrow> xml_tree" where
  "success_leaf b \<equiv> Leaf ''success'' (boolean_text b)"

fun signal_trees :: "text_tools \<Rightarrow> diff_tools \<Rightarrow> markup_store \<Rightarrow> run_signal \<Rightarrow> xml_tree list" where
  "signal_trees G T S (Ready_Test_Suite s n m) =
     [Node ''ready-test-suite'' [stored_test_tree G S s, number_leaf ''n-test-cases'' n, number_leaf ''n-tests'' m]]"
| "signal_trees G T S (Start_Test_Suite s) = [Node ''start-test-suite'' [stored_test_tree G S s]]"
| "signal_trees G T S (Ready_Test_Case k n) =
     [Node ''ready-test-case'' [stored_test_tree G S k, number_leaf ''n-tests'' n]]"
| "signal_trees G T S (Start_Test_Case k) = [Node ''start-test-case'' [stored_test_tree G S k]]"
| "signal_trees G T S (Ready_Test_Iterator i n) =
     [Node ''ready-test-iterator'' [stored_test_tree G S i, number_leaf ''n-tests'' n]]"
| "signal_trees G T S (Start_Test_Iterator i) = [Node ''start-test-iterator'' [stored_test_tree G S i]]"
| "signal_trees G T S (Start_Test t c) =
     [Node ''start-test'' (stored_test_tree G S t # stored_context_trees G S c)]"
| "signal_trees G T S (Start_Iterated_Test t c) =
     [Node ''start-iterated-test'' (stored_test_tree G S t # stored_context_trees G S c)]"
| "signal_trees G T S (Pass_Assertion t c) =
     [Node ''pass-assertion'' (stored_test_tree G S t # stored_context_trees G S c)]"
| "signal_trees G T S (Status_Test s t c r) =
     [Node ''test-result'' (stored_test_tree G S t # stored_context_trees G S c @ [result_tree G T S r])]"
| "signal_trees G T S (Status_Test_Iterator s i r) =
     [Node ''test-iterator-result'' [stored_test_tree G S i, result_tree G T S r]]"
| "signal_trees G T S (Status_Test_Case s k r) =
     [Node ''test-case-result'' [stored_test_tree G S k, result_tree G T S r]]"
| "signal_trees G T S (Complete_Test t c b) =
     [Node ''complete-test'' (stored_test_tree G S t # stored_context_trees G S c @ [success_leaf b])]"
| "signal_trees G T S (Complete_Iterated_Test t c b) =
     [Node ''complete-iterated-test'' (stored_test_tree G S t # stored_context_trees G S c @ [success_leaf b])]"
| "signal_trees G T S (Complete_Test_Iterator i b) =
     [Node ''complete-test-iterator'' [stored_test_tree G S i, success_leaf b]]"
| "signal_trees G T S (Complete_Test_Case k b) =
     [Node ''complete-test-case'' [stored_test_tree G S k, success_leaf b]]"
| "signal_trees G T S (Complete_Test_Suite s b) =
     [Node ''complete-test-suite'' [stored_test_tree G S s, success_leaf b]]"
| "signal_trees G T S sig = []"

fun frames_run :: "run_signal \<Rightarrow> bool" where
  "frames_run Start_Run = True"
| "frames_run (Complete_Run b) = True"
| "frames_run sig = False"

definition run_tree ::
  "text_tools \<Rightarrow> diff_tools \<Rightarrow> (markup_store \<times> run_signal) list \<Rightarrow> bool \<Rightarrow> xml_tree" where
  "run_tree G T moments b =
     Node ''stream'' (concat (map (\<lambda>(S, sig). signal_trees G T S sig) moments) @ [success_leaf b])"

section \<open>Writers write trees\<close>

definition name_char :: "char \<Rightarrow> bool" where
  "name_char c \<longleftrightarrow> (97 \<le> (of_char c :: nat) \<and> (of_char c :: nat) \<le> 122) \<or> c = CHR ''-''"

lemma escape_name:
  assumes "text_tools_ok G" "\<forall>c \<in> set n. name_char c"
  shows "escape_text G (ascii n) = ascii n"
proof -
  have "plain_text (ascii n)"
    using assms(2) by (fastforce simp: plain_text_def ascii_def name_char_def)
  then show ?thesis using assms(1) by (simp add: text_tools_ok_def)
qed

lemma escape_names:
  assumes "text_tools_ok G"
  shows "n \<in> {''name'', ''value'', ''description'', ''start-time'', ''elapsed'', ''failed'', ''file'', ''line'',
      ''info'', ''entry'', ''status'', ''detail'', ''expected'', ''actual'', ''diff'', ''folded-diff'',
      ''n-test-cases'', ''n-tests'', ''success''} \<Longrightarrow> escape_text G (ascii n) = ascii n"
    and "escape_text G (ascii (element_name k)) = ascii (element_name k)"
proof -
  show "escape_text G (ascii (element_name k)) = ascii (element_name k)"
    by (rule escape_name [OF assms]) (cases k; simp add: name_char_def)
qed (rule escape_name [OF assms], elim insertE emptyE; simp add: name_char_def)

lemma leaf_text:
  assumes "text_tools_ok G"
    and "n \<in> {''name'', ''value'', ''description'', ''start-time'', ''elapsed'', ''failed'', ''file'', ''line'',
      ''info'', ''entry'', ''status'', ''detail'', ''expected'', ''actual'', ''diff'', ''folded-diff'',
      ''n-test-cases'', ''n-tests'', ''success''}"
  shows "cut_utils_append_xml_element_with_value G i (ascii n) = (\<lambda>v. write_tree G i (Leaf n v))"
  using escape_names(1) [OF assms] by (simp add: fun_eq_iff cut_utils_append_xml_element_with_value_def)

lemma tags:
  "ascii ''<option>'' = open_tag (ascii ''option'')" "ascii ''</option>'' = close_tag (ascii ''option'')"
  "ascii ''<test-data>'' = open_tag (ascii ''test-data'')" "ascii ''</test-data>'' = close_tag (ascii ''test-data'')"
  "ascii ''<test-context>'' = open_tag (ascii ''test-context'')"
  "ascii ''</test-context>'' = close_tag (ascii ''test-context'')"
  "ascii ''<backtrace>'' = open_tag (ascii ''backtrace'')" "ascii ''</backtrace>'' = close_tag (ascii ''backtrace'')"
  "ascii ''<result>'' = open_tag (ascii ''result'')" "ascii ''</result>'' = close_tag (ascii ''result'')"
  "ascii ''<stream>'' = open_tag (ascii ''stream'')" "ascii ''</stream>'' = close_tag (ascii ''stream'')"
  by (simp_all add: ascii_def open_tag_def close_tag_def)

lemma write_opt_leaf [simp]:
  "write_trees G i (opt_leaf n x) = option_text (\<lambda>v. write_tree G i (Leaf n v)) x"
  by (simp add: opt_leaf_def option_text_def split: option.splits)

lemma write_opt_tree [simp]:
  "write_trees G i (opt_tree f x) = option_text (\<lambda>a. write_tree G i (f a)) x"
  by (simp add: opt_tree_def option_text_def split: option.splits)

lemma write_Node:
  "write_tree G i (Node n ts) =
     cut_utils_append_indent i @ open_tag (ascii n) @ newline @ write_trees G (i + 2) ts @
       cut_utils_append_indent i @ close_tag (ascii n) @ newline"
  by (simp add: write_trees_def)

lemma attributes_text:
  assumes "text_tools_ok G"
  shows "concat (map (append_attribute G i) kvs) =
    write_trees G i (map option_tree (filter (\<lambda>kv. fst kv \<noteq> description_key) kvs))"
  by (induction kvs)
     (simp_all add: append_attribute_def option_tree_def write_Node tags leaf_text [OF assms] del: write_tree.simps)

lemma test_text_tree:
  assumes "text_tools_ok G"
  shows "cut_test_to_xml_string G m i = write_tree G i (test_tree G m)"
  by (simp add: cut_test_to_xml_string_def test_tree_def test_trees_def write_Node attributes_text [OF assms]
      other_attributes_def leaf_text [OF assms] escape_names [OF assms] Let_def del: write_tree.simps)

lemma data_text_tree:
  assumes "text_tools_ok G"
  shows "cut_test_data_to_xml_string G name i = write_tree G i (data_tree name)"
  by (simp add: cut_test_data_to_xml_string_def data_tree_def write_Node tags leaf_text [OF assms]
      del: write_tree.simps)

lemma context_text_tree:
  assumes "text_tools_ok G"
  shows "cut_test_context_to_xml_string G S c i = write_tree G i (context_tree G S c)"
  by (simp add: cut_test_context_to_xml_string_def context_tree_def context_trees_def write_Node tags
      leaf_text [OF assms] test_text_tree [OF assms] data_text_tree [OF assms] Let_def boolean_text_def
      cut_utils_append_xml_element_with_boolean_value_def del: write_tree.simps)

lemma entry_text_tree:
  assumes "text_tools_ok G"
  shows "cut_backtrace_entry_to_xml_string G e i =
    (if entry_written e then write_tree G i (Node ''entry'' (entry_trees e)) else [])"
  by (simp add: cut_backtrace_entry_to_xml_string_def append_element_with_children_def append_element_valist_def
      entry_written_def entry_trees_def write_Node leaf_text [OF assms] escape_names [OF assms]
      del: write_tree.simps)

lemma entries_text_tree:
  assumes "text_tools_ok G"
  shows "concat (map (\<lambda>e. cut_backtrace_entry_to_xml_string G e i) es) =
    write_trees G i (map (\<lambda>e. Node ''entry'' (entry_trees e)) (filter entry_written es))"
  by (induction es) (simp_all add: entry_text_tree [OF assms] del: write_tree.simps)

lemma backtrace_text_tree:
  assumes "text_tools_ok G"
  shows "append_backtrace_to_string G r i = write_trees G i (backtrace_trees (result_backtrace r))"
  by (simp add: append_backtrace_to_string_def backtrace_trees_def write_Node tags entries_text_tree [OF assms]
      del: write_tree.simps)

lemma result_text_tree:
  assumes "text_tools_ok G"
  shows "cut_test_result_to_xml_string G T S r i = write_tree G i (result_tree G T S r)"
proof (cases "shown_texts T r")
  case (fields m d f)
  then show ?thesis
    by (simp add: cut_test_result_to_xml_string_def append_test_result_to_string_def result_tree_def
        result_trees_def write_Node tags leaf_text [OF assms] test_text_tree [OF assms]
        data_text_tree [OF assms] backtrace_text_tree [OF assms] Let_def option_text_def del: write_tree.simps)
qed

lemma tagged_tree: "tagged n (write_trees G 4 ts) = write_tree G 2 (Node n ts)"
proof -
  have "cut_utils_append_indent 2 = [32, 32]"
    by (simp add: cut_utils_append_indent_def numeral_2_eq_2)
  then show ?thesis
    by (simp add: tagged_def write_Node open_tag_def close_tag_def ascii_def del: write_tree.simps)
qed

lemma callback_tree:
  assumes "text_tools_ok G" "\<not> frames_run sig"
  shows "stream_callback G T S sig = write_trees G 2 (signal_trees G T S sig)"
  using assms(2)
  by (cases sig)
     (simp_all add: callback_defs tagged_tree [symmetric] test_text_def context_text_def number_text_def success_text_def
        stored_test_tree_def stored_context_trees_def test_text_tree [OF assms(1)] boolean_text_def
        context_text_tree [OF assms(1)] result_text_tree [OF assms(1)] leaf_text [OF assms(1)]
        cut_utils_append_xml_element_with_boolean_value_def del: write_tree.simps)

text \<open>The stream of a run is one document.\<close>

lemma stream_tree:
  assumes G: "text_tools_ok G"
    and "\<forall>(S, sig) \<in> set moments. \<not> frames_run sig"
  shows "stream_text G T ((S0, Start_Run) # moments @ [(S1, Complete_Run b)]) =
    write_tree G 0 (run_tree G T moments b)"
proof -
  have "concat (map (\<lambda>(S, sig). stream_callback G T S sig) moments) =
      write_trees G 2 (concat (map (\<lambda>(S, sig). signal_trees G T S sig) moments))"
    using assms(2) by (induction moments) (auto simp: callback_tree [OF G] simp del: write_tree.simps)
  then show ?thesis
    by (simp add: stream_text_def callback_defs run_tree_def write_Node tags leaf_text [OF G] boolean_text_def
        cut_utils_append_xml_element_with_boolean_value_def cut_utils_append_indent_def numeral_2_eq_2 del: write_tree.simps)
qed

end
