(* ===== verification/Stream_Reading.thy ===== *)
theory Stream_Reading
  imports Stream_Trees
begin

text \<open>
  The parser reads the trees of \<open>Stream_Trees\<close>: what it makes of a leaf, of a test, of a context
  and of a result, and how the elements of one level compose.
\<close>

section \<open>Composition\<close>

lemma then_step_Inr: "then_step f g p = Inr q \<longleftrightarrow> (\<exists>r. f p = Inr r \<and> g r = Inr q)"
  by (auto simp: then_step_def split: sum.splits)

lemma parse_append:
  "cut_stream_parser_parse G (xs @ ys) p =
     then_step (cut_stream_parser_parse G xs) (cut_stream_parser_parse G ys) p"
  by (induction xs arbitrary: p) (simp_all add: then_step_def split: sum.splits)

definition container :: "parse_state \<Rightarrow> bool" where
  "container s \<longleftrightarrow> (\<forall>G text. text_in_state G s text = Inr)"

lemma containers [simp]:
  "container IN_TOP_LEVEL" "container IN_STREAM" "container IN_TEST_SUITE" "container IN_TEST_CASE"
  "container IN_TEST_ITERATOR" "container IN_TEST" "container IN_ITERATED_TEST" "container IN_TEST_DATA"
  "container IN_TEST_OPTION" "container IN_TEST_CONTEXT" "container IN_READY_TEST_SUITE"
  "container IN_START_TEST_SUITE" "container IN_READY_TEST_CASE" "container IN_READY_TEST_ITERATOR"
  "container IN_START_TEST_CASE" "container IN_START_TEST_ITERATOR" "container IN_START_TEST"
  "container IN_START_ITERATED_TEST" "container IN_PASS_ASSERTION" "container IN_TEST_RESULT"
  "container IN_RESULT" "container IN_RESULT_BACKTRACE" "container IN_RESULT_BACKTRACE_ENTRY"
  "container IN_COMPLETE_ITERATED_TEST" "container IN_COMPLETE_TEST" "container IN_TEST_ITERATOR_RESULT"
  "container IN_TEST_CASE_RESULT" "container IN_COMPLETE_TEST_ITERATOR" "container IN_COMPLETE_TEST_CASE"
  "container IN_COMPLETE_TEST_SUITE"
  by (simp_all add: container_def text_in_state_def)

text \<open>The children of an element, each on a line of its own.\<close>

definition child_events :: "nat \<Rightarrow> xml_tree list \<Rightarrow> xml_event list" where
  "child_events i ts = concat (map (\<lambda>t. line_break i # tree_events i t) ts)"

definition reads :: "text_tools \<Rightarrow> nat \<Rightarrow> xml_tree list \<Rightarrow> stream_parser \<Rightarrow> stream_parser \<Rightarrow> bool" where
  "reads G i ts p q \<longleftrightarrow> cut_stream_parser_parse G (child_events i ts) p = Inr q"

lemma break_ignored: "container (PEEK_STATE p) \<Longrightarrow> handle_event G (line_break i) p = Inr p"
  by (simp add: line_break_def text_handler_def container_def)

lemma reads_Nil [simp]: "reads G i [] p q \<longleftrightarrow> q = p"
  by (auto simp: reads_def child_events_def)

lemma reads_append: "reads G i (ts @ us) p r \<longleftrightarrow> (\<exists>q. reads G i ts p q \<and> reads G i us q r)"
  by (auto simp: reads_def child_events_def parse_append then_step_Inr)

lemma reads_appendI: "reads G i ts p q \<Longrightarrow> reads G i us q r \<Longrightarrow> reads G i (ts @ us) p r"
  by (auto simp: reads_append)

lemma reads_Cons:
  "container (PEEK_STATE p) \<Longrightarrow>
   reads G i (t # ts) p r \<longleftrightarrow>
     (\<exists>q. cut_stream_parser_parse G (tree_events i t) p = Inr q \<and> reads G i ts q r)"
  by (simp add: reads_def child_events_def then_step_Inr break_ignored parse_append)

definition opened :: "string \<Rightarrow> stream_parser \<Rightarrow> stream_parser" where
  "opened n p = p\<lparr>sp_element_stack := sp_element_stack p @ [n]\<rparr>"

definition closed :: "stream_parser \<Rightarrow> stream_parser" where
  "closed p = p\<lparr>sp_element_stack := butlast (sp_element_stack p)\<rparr>"

definition popped :: "stream_parser \<Rightarrow> stream_parser" where
  "popped p = p\<lparr>sp_states := tl (sp_states p)\<rparr>"

lemma start_event: "handle_event G (Start_Element n) p = start_in_state (PEEK_STATE p) n (opened n p)"
  by (simp add: start_element_handler_def opened_def)

lemma end_event: "handle_event G (End_Element n) p = map_sum id closed (end_in_state (PEEK_STATE p) (popped p))"
  by (simp add: end_element_handler_def closed_def [abs_def] popped_def)

lemma reads_Node:
  assumes "container (PEEK_STATE p)"
    and "start_in_state (PEEK_STATE p) n (opened n p) = Inr p1"
    and "reads G (i + 2) ts p1 p2" and "container (PEEK_STATE p2)"
    and "end_in_state (PEEK_STATE p2) (popped p2) = Inr p3"
    and "reads G i us (closed p3) r"
  shows "reads G i (Node n ts # us) p r"
proof -
  have "cut_stream_parser_parse G (tree_events i (Node n ts)) p = Inr (closed p3)"
    using assms(2-5)
    by (simp add: parse_append then_step_Inr start_event end_event break_ignored reads_def child_events_def
        del: handle_event.simps)
  then show ?thesis using assms(1,6) by (auto simp: reads_Cons)
qed

lemma reads_Leaf:
  assumes "container (PEEK_STATE p)"
    and "start_in_state (PEEK_STATE p) n (opened n p) = Inr p1"
    and "v \<noteq> [] \<Longrightarrow> text_in_state G (PEEK_STATE p1) v p1 = Inr p2"
    and "v = [] \<Longrightarrow> p2 = p1"
    and "end_in_state (PEEK_STATE p2) (popped p2) = Inr p3"
    and "reads G i us (closed p3) r"
  shows "reads G i (Leaf n v # us) p r"
proof -
  have "cut_stream_parser_parse G (tree_events i (Leaf n v)) p = Inr (closed p3)"
    using assms(2-5)
    by (cases "v = []")
       (auto simp: then_step_Inr start_event end_event text_handler_def simp del: handle_event.simps(1,2))
  then show ?thesis using assms(1,6) by (auto simp: reads_Cons)
qed

section \<open>Tests\<close>

lemma update_test_frame [simp]:
  "sp_states (update_test t f p) = sp_states p" "PEEK_STATE (update_test t f p) = PEEK_STATE p"
  "sp_element_stack (update_test t f p) = sp_element_stack p" "sp_tests (update_test t f p) = sp_tests p"
  "sp_suites (update_test t f p) = sp_suites p" "sp_cases (update_test t f p) = sp_cases p"
  "sp_iterators (update_test t f p) = sp_iterators p" "sp_option_name (update_test t f p) = sp_option_name p"
  "sp_option_value (update_test t f p) = sp_option_value p"
  "length (ms_tests (sp_store (update_test t f p))) = length (ms_tests (sp_store p))"
  by (simp_all add: update_test_def PEEK_STATE_def)

lemma update_test_target [simp]: "target_test_object s (update_test t f p) = target_test_object s p"
  by (cases s) (simp_all add: target_test_object_def)

lemma update_test_update:
  "t < length (ms_tests (sp_store p)) \<Longrightarrow>
   update_test t g (update_test t f p) = update_test t (\<lambda>m. g (f m)) p"
  by (simp add: update_test_def)

lemma pushed_target [simp]: "target_test_object s (PUSH_STATE s' (opened n p)) = target_test_object s p"
  by (cases s) (simp_all add: target_test_object_def PUSH_STATE_def opened_def)

definition test_state :: "parse_state \<Rightarrow> bool" where
  "test_state s \<longleftrightarrow> s \<in> {IN_TEST_SUITE, IN_TEST_CASE, IN_TEST_ITERATOR, IN_TEST, IN_ITERATED_TEST}"

lemma test_state_start: "test_state s \<Longrightarrow> start_in_state s = start_test_object"
  and test_state_container: "test_state s \<Longrightarrow> container s"
  and test_state_end: "test_state s \<Longrightarrow> end_in_state s = Inr"
  by (auto simp: test_state_def start_in_state_def end_in_state_def)

text \<open>The parser stands in a test, whose object is on top of the queue of its kind.\<close>

definition in_test :: "object_id \<Rightarrow> stream_parser \<Rightarrow> bool" where
  "in_test t p \<longleftrightarrow> test_state (PEEK_STATE p) \<and> target_test_object (PEEK_STATE p) p = Some t \<and>
     sp_states p \<noteq> [] \<and> t < length (ms_tests (sp_store p))"

lemma in_test_update [simp]: "in_test t (update_test u f p) = in_test t p"
  by (simp add: in_test_def)

text \<open>A leaf below a test whose text updates the test.\<close>

lemma reads_test_leaf:
  assumes p: "in_test t p"
    and start: "\<And>q. start_test_object n q = Inr (PUSH_STATE s q)" and stop: "end_in_state s = Inr"
    and reading: "\<And>q. v \<noteq> [] \<Longrightarrow> target_test_object (parent_state q) q = Some t \<Longrightarrow>
      text_in_state G s v q = Inr (update_test t f q)"
    and rest: "reads G i us (if v = [] then p else update_test t f p) r"
  shows "reads G i (Leaf n v # us) p r"
proof -
  let ?p1 = "PUSH_STATE s (opened n p)"
  obtain s0 ss where states: "sp_states p = s0 # ss" "PEEK_STATE p = s0"
    using p by (auto simp: in_test_def PEEK_STATE_def split: list.splits)
  have target: "target_test_object (parent_state ?p1) ?p1 = Some t"
  proof -
    have "parent_state ?p1 = PEEK_STATE p"
      using states by (simp add: parent_state_def PUSH_STATE_def opened_def)
    then show ?thesis using p by (simp add: in_test_def)
  qed
  let ?p2 = "if v = [] then ?p1 else update_test t f ?p1"
  have peek: "PEEK_STATE ?p1 = s" "PEEK_STATE ?p2 = s"
    by (simp_all add: PEEK_STATE_def PUSH_STATE_def)
  have restored: "closed (popped ?p2) = (if v = [] then p else update_test t f p)"
    by (simp add: closed_def popped_def PUSH_STATE_def opened_def update_test_def)
  show ?thesis
  proof (rule reads_Leaf)
    show "container (PEEK_STATE p)" using p by (simp add: in_test_def test_state_container)
    show "start_in_state (PEEK_STATE p) n (opened n p) = Inr ?p1"
      using p start by (simp add: in_test_def test_state_start)
    show "text_in_state G (PEEK_STATE ?p1) v ?p1 = Inr ?p2" if "v \<noteq> []"
      using reading [OF that target] that peek by simp
    show "?p2 = ?p1" if "v = []" using that by simp
    show "end_in_state (PEEK_STATE ?p2) (popped ?p2) = Inr (popped ?p2)" using peek stop by simp
    show "reads G i us (closed (popped ?p2)) r" using rest restored by simp
  qed
qed

text \<open>What the parser knows of a test that was written.\<close>

definition carried :: "text_tools \<Rightarrow> rat \<Rightarrow> rat" where
  "carried G x = fst (ascii_strtod G (cut_utils_double_to_string G x))"

definition if_text :: "ustring option \<Rightarrow> (ustring \<Rightarrow> 'a \<Rightarrow> 'a) \<Rightarrow> 'a \<Rightarrow> 'a" where
  "if_text x f a = (case nonempty_string x of None \<Rightarrow> a | Some v \<Rightarrow> f v a)"

definition received_test :: "text_tools \<Rightarrow> markup_test \<Rightarrow> markup_test \<Rightarrow> markup_test" where
  "received_test G m m0 =
     fold (\<lambda>kv. cut_test_set_attribute (fst kv) (snd kv)) (other_attributes m)
       (if_text (cut_test_get_description m) (cut_test_set_attribute description_key)
         (if_text (mt_name m) (\<lambda>v. mt_name_update (\<lambda>_. Some v)) m0)
           \<lparr>mt_start_time := mt_start_time m, mt_elapsed := carried G (cut_test_get_elapsed m)\<rparr>)"

text \<open>Attributes have distinct names, and neither name nor value is empty; an object that is not a
  test has no attribute but its description.\<close>

definition readable_test :: "markup_test \<Rightarrow> bool" where
  "readable_test m \<longleftrightarrow> distinct (map fst (mt_attributes m)) \<and>
     (\<forall>kv \<in> set (mt_attributes m). fst kv \<noteq> [] \<and> snd kv \<noteq> []) \<and>
     (mt_kind m \<notin> {Test_Object, Iterated_Test_Object} \<longrightarrow> other_attributes m = []) \<and>
     valid_time (mt_start_time m)"

lemma printed_double:
  "text_tools_ok G \<Longrightarrow> read_double G (cut_utils_double_to_string G x) = Some (carried G x)"
  "text_tools_ok G \<Longrightarrow> cut_utils_double_to_string G x \<noteq> []"
  unfolding text_tools_ok_def by (auto simp: read_double_def carried_def split: prod.splits) (metis length_0_conv snd_conv)+

lemma reads_opt_leaf:
  assumes p: "in_test t p"
    and start: "\<And>q. start_test_object n q = Inr (PUSH_STATE s q)" and stop: "end_in_state s = Inr"
    and reading: "\<And>q v. target_test_object (parent_state q) q = Some t \<Longrightarrow>
      text_in_state G s v q = Inr (update_test t (f v) q)"
    and rest: "reads G i us (case nonempty_string x of None \<Rightarrow> p | Some v \<Rightarrow> update_test t (f v) p) r"
  shows "reads G i (opt_leaf n x @ us) p r"
proof (cases x)
  case None
  then show ?thesis using rest by (simp add: opt_leaf_def nonempty_string_def)
next
  case (Some v)
  have "reads G i (Leaf n v # us) p r"
    by (rule reads_test_leaf [OF p start stop reading])
       (use rest Some in \<open>auto simp: nonempty_string_def split: list.splits\<close>)
  then show ?thesis using Some by (simp add: opt_leaf_def)
qed

lemma test_texts:
  assumes "target_test_object (parent_state q) q = Some t"
  shows "text_in_state G IN_TEST_NAME v q = Inr (update_test t (mt_name_update (\<lambda>_. Some v)) q)"
    "text_in_state G IN_TEST_DESCRIPTION v q = Inr (update_test t (cut_test_set_attribute description_key v) q)"
    "from_iso8601 G v = Some x \<Longrightarrow>
       text_in_state G IN_TEST_START_TIME v q = Inr (update_test t (mt_start_time_update (\<lambda>_. x)) q)"
    "read_double G v = Some y \<Longrightarrow>
       text_in_state G IN_TEST_ELAPSED v q = Inr (update_test t (mt_elapsed_update (\<lambda>_. y)) q)"
  using assms
  by (simp_all add: text_in_state_def text_test_name_def text_test_description_def text_test_start_time_def
      text_test_elapsed_def with_target_def)

lemma test_starts:
  "start_test_object ''name'' q = Inr (PUSH_STATE IN_TEST_NAME q)"
  "start_test_object ''description'' q = Inr (PUSH_STATE IN_TEST_DESCRIPTION q)"
  "start_test_object ''start-time'' q = Inr (PUSH_STATE IN_TEST_START_TIME q)"
  "start_test_object ''elapsed'' q = Inr (PUSH_STATE IN_TEST_ELAPSED q)"
  "start_test_object ''option'' q = Inr (PUSH_STATE IN_TEST_OPTION q)"
  by (simp_all add: start_test_object_def)

lemma leaf_ends:
  "s \<notin> {IN_TOP_LEVEL_RESULT, IN_STREAM, IN_RESULT, IN_TEST_CONTEXT, IN_TEST_OPTION, IN_RESULT_BACKTRACE,
      IN_RESULT_BACKTRACE_ENTRY, IN_READY_TEST_SUITE, IN_START_TEST_SUITE, IN_READY_TEST_CASE,
      IN_START_TEST_CASE, IN_READY_TEST_ITERATOR, IN_START_TEST_ITERATOR, IN_START_TEST,
      IN_START_ITERATED_TEST, IN_PASS_ASSERTION, IN_TEST_RESULT, IN_COMPLETE_ITERATED_TEST,
      IN_COMPLETE_TEST, IN_TEST_ITERATOR_RESULT, IN_COMPLETE_TEST_ITERATOR, IN_TEST_CASE_RESULT,
      IN_COMPLETE_TEST_CASE, IN_COMPLETE_TEST_SUITE} \<Longrightarrow> end_in_state s = Inr"
  by (cases s) (simp_all add: end_in_state_def)

text \<open>A leaf below an element that is no test: the text changes the parser by \<open>f\<close>, which leaves
  the states and the open elements alone.\<close>

definition plain_change :: "(stream_parser \<Rightarrow> stream_parser) \<Rightarrow> bool" where
  "plain_change f \<longleftrightarrow>
     (\<forall>p. sp_states (f p) = sp_states p \<and> sp_element_stack (f p) = sp_element_stack p \<and>
       (\<forall>ss es. f (p\<lparr>sp_states := ss, sp_element_stack := es\<rparr>) = (f p)\<lparr>sp_states := ss, sp_element_stack := es\<rparr>))"

lemma pushed_states: "PUSH_STATE s (opened n p) =
    p\<lparr>sp_states := s # sp_states p, sp_element_stack := sp_element_stack p @ [n]\<rparr>"
  by (simp add: PUSH_STATE_def opened_def)

lemma popped_states: "closed (popped p) =
    p\<lparr>sp_states := tl (sp_states p), sp_element_stack := butlast (sp_element_stack p)\<rparr>"
  by (simp add: popped_def closed_def)

lemma same_stacks: "sp_states q = ss \<Longrightarrow> sp_element_stack q = es \<Longrightarrow> q\<lparr>sp_states := ss, sp_element_stack := es\<rparr> = q"
  by simp

lemma reads_plain_leaf:
  assumes "container (PEEK_STATE p)"
    and start: "start_in_state (PEEK_STATE p) n (opened n p) = Inr (PUSH_STATE s (opened n p))"
    and stop: "end_in_state s = Inr" and f: "plain_change f"
    and reading: "v \<noteq> [] \<Longrightarrow> text_in_state G s v (PUSH_STATE s (opened n p)) = Inr (f (PUSH_STATE s (opened n p)))"
    and rest: "reads G i us (if v = [] then p else f p) r"
  shows "reads G i (Leaf n v # us) p r"
proof -
  let ?p1 = "PUSH_STATE s (opened n p)"
  let ?p2 = "if v = [] then ?p1 else f ?p1"
  have f1: "f ?p1 = (f p)\<lparr>sp_states := s # sp_states p, sp_element_stack := sp_element_stack p @ [n]\<rparr>"
    using f unfolding plain_change_def pushed_states by blast
  have same: "(f p)\<lparr>sp_states := sp_states p, sp_element_stack := sp_element_stack p\<rparr> = f p"
    by (rule same_stacks) (use f in \<open>auto simp: plain_change_def\<close>)
  have peek: "PEEK_STATE ?p1 = s" "PEEK_STATE ?p2 = s"
    by (simp_all add: PEEK_STATE_def f1) (simp_all add: pushed_states)
  have restored: "closed (popped ?p2) = (if v = [] then p else f p)"
    using same by (simp add: popped_states f1) (simp add: pushed_states)
  show ?thesis
  proof (rule reads_Leaf [OF assms(1) start])
    show "text_in_state G (PEEK_STATE ?p1) v ?p1 = Inr ?p2" if "v \<noteq> []"
      using reading [OF that] that peek by simp
    show "end_in_state (PEEK_STATE ?p2) (popped ?p2) = Inr (popped ?p2)" using peek stop by simp
    show "reads G i us (closed (popped ?p2)) r" using rest restored by simp
  qed simp
qed

lemma reads_option:
  assumes p: "in_test t p" "PEEK_STATE p \<in> {IN_TEST, IN_ITERATED_TEST}"
    and free: "sp_option_name p = None" "sp_option_value p = None"
    and kv: "fst kv \<noteq> []" "snd kv \<noteq> []"
    and rest: "reads G i us (update_test t (cut_test_set_attribute (fst kv) (snd kv)) p) r"
  shows "reads G i (option_tree kv # us) p r"
proof -
  let ?p1 = "PUSH_STATE IN_TEST_OPTION (opened ''option'' p)"
  let ?n = "\<lambda>p. p\<lparr>sp_option_name := Some (fst kv)\<rparr>"
  let ?v = "\<lambda>p. p\<lparr>sp_option_value := Some (snd kv)\<rparr>"
  have peek: "PEEK_STATE ?p1 = IN_TEST_OPTION" "PEEK_STATE (?n ?p1) = IN_TEST_OPTION"
    "PEEK_STATE (?v (?n ?p1)) = IN_TEST_OPTION"
    by (simp_all add: PEEK_STATE_def PUSH_STATE_def)
  have inner: "reads G (i + 2) [Leaf ''name'' (fst kv), Leaf ''value'' (snd kv)] ?p1 (?v (?n ?p1))"
  proof (rule reads_plain_leaf [where s = IN_TEST_OPTION_NAME and f = ?n])
    show "reads G (i + 2) [Leaf ''value'' (snd kv)] (if fst kv = [] then ?p1 else ?n ?p1) (?v (?n ?p1))"
      by (rule reads_plain_leaf [where s = IN_TEST_OPTION_VALUE and f = ?v])
         (use peek kv free in \<open>auto simp: start_in_state_def start_test_option_def leaf_ends plain_change_def
            text_in_state_def text_test_option_value_def PUSH_STATE_def opened_def\<close>)
  qed (use peek kv free in \<open>auto simp: start_in_state_def start_test_option_def leaf_ends plain_change_def
      text_in_state_def text_test_option_name_def PUSH_STATE_def opened_def\<close>)
  have top: "peek (sp_tests p) = Some t"
    using p by (auto simp: in_test_def target_test_object_def)
  have stop: "end_in_state IN_TEST_OPTION (popped (?v (?n ?p1))) =
      Inr (update_test t (cut_test_set_attribute (fst kv) (snd kv)) (popped ?p1))"
    using top free by (simp add: end_in_state_def end_test_option_def popped_def with_pointer_def
        PUSH_STATE_def opened_def update_test_def)
  have restored: "closed (update_test t (cut_test_set_attribute (fst kv) (snd kv)) (popped ?p1)) =
      update_test t (cut_test_set_attribute (fst kv) (snd kv)) p"
    by (simp add: closed_def popped_def PUSH_STATE_def opened_def update_test_def)
  show ?thesis
    unfolding option_tree_def
  proof (rule reads_Node [OF _ _ inner])
    show "container (PEEK_STATE p)" using p(1) by (simp add: in_test_def test_state_container)
    show "start_in_state (PEEK_STATE p) ''option'' (opened ''option'' p) = Inr ?p1"
      using p(1) by (simp add: in_test_def test_state_start test_starts)
    show "end_in_state (PEEK_STATE (?v (?n ?p1))) (popped (?v (?n ?p1))) =
        Inr (update_test t (cut_test_set_attribute (fst kv) (snd kv)) (popped ?p1))"
      using peek stop by simp
    show "reads G i us (closed (update_test t (cut_test_set_attribute (fst kv) (snd kv)) (popped ?p1))) r"
      using restored rest by simp
  qed (use peek in simp)
qed

lemma reads_options:
  assumes "in_test t p" "kvs \<noteq> [] \<Longrightarrow> PEEK_STATE p \<in> {IN_TEST, IN_ITERATED_TEST}"
    and "sp_option_name p = None" "sp_option_value p = None"
    and "\<forall>kv \<in> set kvs. fst kv \<noteq> [] \<and> snd kv \<noteq> []"
  shows "reads G i (map option_tree kvs) p
    (update_test t (fold (\<lambda>kv. cut_test_set_attribute (fst kv) (snd kv)) kvs) p)"
  using assms
proof (induction kvs arbitrary: p)
  case Nil
  then show ?case by (simp add: update_test_def)
next
  case (Cons kv kvs)
  let ?q = "update_test t (cut_test_set_attribute (fst kv) (snd kv)) p"
  have "reads G i (map option_tree kvs) ?q
      (update_test t (fold (\<lambda>kv. cut_test_set_attribute (fst kv) (snd kv)) kvs) ?q)"
    by (rule Cons.IH) (use Cons.prems in simp_all)
  moreover have "t < length (ms_tests (sp_store p))" using Cons.prems(1) by (simp add: in_test_def)
  ultimately show ?case
    using reads_option [OF Cons.prems(1,2,3,4)] Cons.prems(5) by (simp add: update_test_update)
qed

text \<open>A whole test.\<close>

lemma reads_test_trees:
  assumes G: "text_tools_ok G" and m: "readable_test m"
    and p: "in_test t p" "mt_kind m \<in> {Test_Object, Iterated_Test_Object} \<Longrightarrow> PEEK_STATE p \<in> {IN_TEST, IN_ITERATED_TEST}"
    and free: "sp_option_name p = None" "sp_option_value p = None"
  shows "reads G i (test_trees G m) p (update_test t (received_test G m) p)"
proof -
  let ?p1 = "case nonempty_string (mt_name m) of None \<Rightarrow> p | Some v \<Rightarrow> update_test t (mt_name_update (\<lambda>_. Some v)) p"
  let ?p2 = "case nonempty_string (cut_test_get_description m) of None \<Rightarrow> ?p1
     | Some v \<Rightarrow> update_test t (cut_test_set_attribute description_key v) ?p1"
  let ?p3 = "update_test t (mt_start_time_update (\<lambda>_. mt_start_time m)) ?p2"
  let ?p4 = "update_test t (mt_elapsed_update (\<lambda>_. carried G (cut_test_get_elapsed m))) ?p3"
  let ?p5 = "update_test t (fold (\<lambda>kv. cut_test_set_attribute (fst kv) (snd kv)) (other_attributes m)) ?p4"
  have same: "in_test t ?p1 \<and> PEEK_STATE ?p1 = PEEK_STATE p \<and> sp_option_name ?p1 = None \<and> sp_option_value ?p1 = None"
    "in_test t ?p2 \<and> PEEK_STATE ?p2 = PEEK_STATE p \<and> sp_option_name ?p2 = None \<and> sp_option_value ?p2 = None"
    using p free by (simp_all split: option.splits)
  have time: "from_iso8601 G (to_iso8601 G (mt_start_time m)) = Some (mt_start_time m)"
    "to_iso8601 G (mt_start_time m) \<noteq> []"
    using G m unfolding text_tools_ok_def readable_test_def by blast+
  have options: "reads G i (map option_tree (other_attributes m)) ?p4 ?p5"
  proof (rule reads_options)
    show "PEEK_STATE ?p4 \<in> {IN_TEST, IN_ITERATED_TEST}" if "other_attributes m \<noteq> []"
      using that m p(2) same by (auto simp: readable_test_def)
    show "\<forall>kv \<in> set (other_attributes m). fst kv \<noteq> [] \<and> snd kv \<noteq> []"
      using m by (auto simp: readable_test_def other_attributes_def)
  qed (use same in simp_all)
  have "reads G i ([Leaf ''start-time'' (to_iso8601 G (mt_start_time m)),
      Leaf ''elapsed'' (cut_utils_double_to_string G (cut_test_get_elapsed m))] @
      map option_tree (other_attributes m)) ?p2 ?p5"
    unfolding append_Cons append_Nil
  proof (rule reads_test_leaf [where s = IN_TEST_START_TIME and f = "mt_start_time_update (\<lambda>_. mt_start_time m)"])
    show "reads G i (Leaf ''elapsed'' (cut_utils_double_to_string G (cut_test_get_elapsed m)) #
        map option_tree (other_attributes m))
      (if to_iso8601 G (mt_start_time m) = [] then ?p2 else ?p3) ?p5"
      by (rule reads_test_leaf [where s = IN_TEST_ELAPSED and
            f = "mt_elapsed_update (\<lambda>_. carried G (cut_test_get_elapsed m))"])
         (use same options time printed_double [OF G] in \<open>simp_all add: test_starts test_texts leaf_ends\<close>)
  qed (use same time in \<open>simp_all add: test_starts test_texts leaf_ends\<close>)
  then have "reads G i (test_trees G m) p ?p5"
    unfolding test_trees_def
    by (intro reads_opt_leaf [where s = IN_TEST_NAME and f = "\<lambda>v. mt_name_update (\<lambda>_. Some v)"]
        reads_opt_leaf [where s = IN_TEST_DESCRIPTION and f = "cut_test_set_attribute description_key"])
       (use p same in \<open>simp_all add: test_starts test_texts leaf_ends\<close>)
  moreover have "?p5 = update_test t (received_test G m) p"
    using p(1) by (auto simp: in_test_def update_test_update received_test_def [abs_def] if_text_def split: option.splits)
  ultimately show ?thesis by simp
qed

end
