(* ===== verification/Stream_Objects.thy ===== *)
theory Stream_Objects
  imports Stream_Reading
begin

text \<open>
  The parser reads the objects of \<open>Stream_Trees\<close>: tests, test data, contexts, backtraces and
  results, as children of any element that admits them. What is known of an object on either side of
  the markup is its view.
\<close>

section \<open>Views\<close>

type_synonym test_view = "test_kind \<times> ustring option \<times> (ustring \<rightharpoonup> ustring) \<times> time_val \<times> rat"

definition test_seen :: "markup_test \<Rightarrow> test_view" where
  "test_seen m = (mt_kind m, mt_name m, map_of (mt_attributes m), mt_start_time m, cut_test_get_elapsed m)"

text \<open>An empty name is not carried, and a number is carried as it was printed.\<close>

definition test_sent :: "text_tools \<Rightarrow> markup_test \<Rightarrow> test_view" where
  "test_sent G m =
     (mt_kind m, nonempty_string (mt_name m), map_of (mt_attributes m), mt_start_time m,
      max 0 (carried G (cut_test_get_elapsed m)))"

lemma set_attribute_fields [simp]:
  "mt_kind (cut_test_set_attribute n v m) = mt_kind m" "mt_name (cut_test_set_attribute n v m) = mt_name m"
  "mt_start_time (cut_test_set_attribute n v m) = mt_start_time m"
  "mt_elapsed (cut_test_set_attribute n v m) = mt_elapsed m"
  "mt_measured (cut_test_set_attribute n v m) = mt_measured m"
  "map_of (mt_attributes (cut_test_set_attribute n v m)) = (map_of (mt_attributes m))(n \<mapsto> v)"
  by (simp_all add: cut_test_set_attribute_def update_conv')

definition set_attributes :: "(ustring \<times> ustring) list \<Rightarrow> markup_test \<Rightarrow> markup_test" where
  "set_attributes kvs = fold (\<lambda>kv. cut_test_set_attribute (fst kv) (snd kv)) kvs"

lemma set_attributes_fields [simp]:
  "mt_kind (set_attributes kvs m) = mt_kind m" "mt_name (set_attributes kvs m) = mt_name m"
  "mt_start_time (set_attributes kvs m) = mt_start_time m" "mt_elapsed (set_attributes kvs m) = mt_elapsed m"
  "mt_measured (set_attributes kvs m) = mt_measured m"
  by (induction kvs arbitrary: m) (simp_all add: set_attributes_def)

lemma set_attributes_map:
  "distinct (map fst kvs) \<Longrightarrow>
   map_of (mt_attributes (set_attributes kvs m)) k =
     (case map_of kvs k of None \<Rightarrow> map_of (mt_attributes m) k | Some v \<Rightarrow> Some v)"
proof (induction kvs arbitrary: m)
  case (Cons kv kvs)
  have "map_of kvs (fst kv) = None" using Cons.prems by (simp add: map_of_eq_None_iff)
  then show ?case using Cons by (cases kv) (auto simp: set_attributes_def split: option.splits)
qed (simp add: set_attributes_def)

lemma map_of_other: "map_of (filter (\<lambda>kv. fst kv \<noteq> d) kvs) k = (if k = d then None else map_of kvs k)"
  by (induction kvs) auto

lemma received_seen:
  assumes "readable_test m"
  shows "test_seen (received_test G m (empty_test (mt_kind m))) = test_sent G m"
proof -
  have d: "distinct (map fst (other_attributes m))"
    using assms by (auto simp: readable_test_def other_attributes_def intro: distinct_map_filter)
  have filled: "nonempty_string (map_of (mt_attributes m) description_key) = map_of (mt_attributes m) description_key"
    using assms
    by (auto simp: nonempty_string_def readable_test_def split: option.splits list.splits dest!: map_of_SomeD)
  have attributes: "map_of (mt_attributes (received_test G m (empty_test (mt_kind m)))) k = map_of (mt_attributes m) k" for k
    unfolding received_test_def set_attributes_def [symmetric] set_attributes_map [OF d]
    by (auto simp: other_attributes_def map_of_other if_text_def filled cut_test_get_description_def
        cut_test_get_attribute_def empty_test_def split: option.splits)
  have fields: "mt_kind (received_test G m (empty_test (mt_kind m))) = mt_kind m"
    "mt_name (received_test G m (empty_test (mt_kind m))) = nonempty_string (mt_name m)"
    "mt_start_time (received_test G m (empty_test (mt_kind m))) = mt_start_time m"
    "cut_test_get_elapsed (received_test G m (empty_test (mt_kind m))) = max 0 (carried G (cut_test_get_elapsed m))"
    by (auto simp: received_test_def set_attributes_def [symmetric] if_text_def empty_test_def
        cut_test_get_elapsed_def split: option.splits)
  show ?thesis
    unfolding test_seen_def test_sent_def fields using attributes by (simp add: fun_eq_iff)
qed


text \<open>Objects carried from the store \<open>S\<close> of the writer to the store \<open>S'\<close> of the parser.\<close>

definition test_carried :: "text_tools \<Rightarrow> markup_store \<Rightarrow> markup_store \<Rightarrow> object_id \<Rightarrow> object_id \<Rightarrow> bool" where
  "test_carried G S S' t t' \<longleftrightarrow>
     t' < length (ms_tests S') \<and> test_seen (ms_tests S' ! t') = test_sent G (ms_tests S ! t)"

definition data_carried :: "markup_store \<Rightarrow> markup_store \<Rightarrow> object_id \<Rightarrow> object_id \<Rightarrow> bool" where
  "data_carried S S' d d' \<longleftrightarrow> d' < length (ms_data S') \<and> ms_data S' ! d' = nonempty_string (ms_data S ! d)"

definition objects_grow :: "markup_store \<Rightarrow> markup_store \<Rightarrow> bool" where
  "objects_grow S S' \<longleftrightarrow> (\<exists>ts ds. ms_tests S' = ms_tests S @ ts \<and> ms_data S' = ms_data S @ ds)"

definition grows :: "markup_store \<Rightarrow> markup_store \<Rightarrow> bool" where
  "grows S S' \<longleftrightarrow> objects_grow S S' \<and> (\<exists>cs. ms_contexts S' = ms_contexts S @ cs)"

lemma grow_refl [simp, intro]: "objects_grow S S" "grows S S"
  by (simp_all add: grows_def objects_grow_def)

lemma objects_grow_trans: "objects_grow S S' \<Longrightarrow> objects_grow S' S'' \<Longrightarrow> objects_grow S S''"
  by (auto simp: objects_grow_def)

lemma grows_trans: "grows S S' \<Longrightarrow> grows S' S'' \<Longrightarrow> grows S S''"
  unfolding grows_def by (metis append.assoc objects_grow_trans)

lemma test_carried_mono: "test_carried G S S' t t' \<Longrightarrow> objects_grow S' S'' \<Longrightarrow> test_carried G S S'' t t'"
  by (auto simp: test_carried_def objects_grow_def nth_append)

lemma data_carried_mono: "data_carried S S' d d' \<Longrightarrow> objects_grow S' S'' \<Longrightarrow> data_carried S S'' d d'"
  by (auto simp: data_carried_def objects_grow_def nth_append)

lemma tests_carried_mono:
  "rel_option (test_carried G S S') x x' \<Longrightarrow> objects_grow S' S'' \<Longrightarrow> rel_option (test_carried G S S'') x x'"
  by (auto elim!: option.rel_mono_strong intro: test_carried_mono)

lemma all_data_carried_mono:
  "rel_option (data_carried S S') x x' \<Longrightarrow> objects_grow S' S'' \<Longrightarrow> rel_option (data_carried S S'') x x'"
  by (auto elim!: option.rel_mono_strong intro: data_carried_mono)

section \<open>What a child leaves alone\<close>

text \<open>A child pushes objects and makes the store grow; the open elements, the pending signals
  and what was emitted stay.\<close>

definition framed :: "stream_parser \<Rightarrow> stream_parser \<Rightarrow> bool" where
  "framed p q \<longleftrightarrow>
     sp_run_context q = sp_run_context p \<and> sp_emitted q = sp_emitted p \<and> sp_states q = sp_states p \<and>
     sp_element_stack q = sp_element_stack p \<and>
     sp_ready_suite q = sp_ready_suite p \<and> sp_ready_case q = sp_ready_case p \<and>
     sp_ready_iterator q = sp_ready_iterator p \<and> sp_start_test q = sp_start_test p \<and>
     sp_start_iterated_test q = sp_start_iterated_test p \<and> sp_pass_assertion q = sp_pass_assertion p \<and>
     sp_test_result q = sp_test_result p \<and> sp_complete_iterated_test q = sp_complete_iterated_test p \<and>
     sp_complete_test q = sp_complete_test p \<and> sp_iterator_result q = sp_iterator_result p \<and>
     sp_case_result q = sp_case_result p \<and> sp_backtrace q = sp_backtrace p \<and>
     sp_backtrace_entry q = sp_backtrace_entry p \<and> sp_option_name q = sp_option_name p \<and>
     sp_option_value q = sp_option_value p \<and> sp_complete_success q = sp_complete_success p \<and>
     sp_stream_success q = sp_stream_success p"

lemma framed_refl [simp, intro]: "framed p p"
  by (simp add: framed_def)

lemma framed_trans [trans]: "framed p q \<Longrightarrow> framed q r \<Longrightarrow> framed p r"
  by (simp add: framed_def)

lemma framed_peek: "framed p q \<Longrightarrow> PEEK_STATE q = PEEK_STATE p"
  by (simp add: framed_def PEEK_STATE_def)

lemma framed_back:
  "framed p q \<Longrightarrow> framed (popped p) (popped q)" "framed p q \<Longrightarrow> framed (closed p) (closed q)"
  by (simp_all add: framed_def closed_def popped_def)

lemma update_frame [simp]:
  "framed p (q\<lparr>sp_store := S\<rparr>) = framed p q" "framed p (q\<lparr>sp_contexts := os\<rparr>) = framed p q"
  "framed p (q\<lparr>sp_data := os\<rparr>) = framed p q" "framed p (q\<lparr>sp_results := rs\<rparr>) = framed p q"
  "framed p (q\<lparr>sp_result := x\<rparr>) = framed p q" "framed p (update_context_object c f q) = framed p q"
  "framed p (update_data d v q) = framed p q" "framed p (update_result r g q) = framed p q"
  "framed p (update_test t h q) = framed p q"
  by (simp_all add: framed_def update_context_object_def update_data_def update_result_def update_test_def)

lemma update_peek [simp]:
  "PEEK_STATE (q\<lparr>sp_store := S\<rparr>) = PEEK_STATE q" "PEEK_STATE (q\<lparr>sp_contexts := os\<rparr>) = PEEK_STATE q"
  "PEEK_STATE (q\<lparr>sp_data := os\<rparr>) = PEEK_STATE q" "PEEK_STATE (q\<lparr>sp_results := rs\<rparr>) = PEEK_STATE q"
  "PEEK_STATE (q\<lparr>sp_result := x\<rparr>) = PEEK_STATE q" "PEEK_STATE (update_context_object c f q) = PEEK_STATE q"
  "PEEK_STATE (update_data d v q) = PEEK_STATE q" "PEEK_STATE (update_result r g q) = PEEK_STATE q"
  by (simp_all add: PEEK_STATE_def update_context_object_def update_data_def update_result_def)

lemma drop_frame [simp]:
  "framed p (drop_if x DROP_TEST q) = framed p q" "framed p (drop_if x DROP_TEST_ITERATOR q) = framed p q"
  "framed p (drop_if x DROP_TEST_CASE q) = framed p q" "framed p (drop_if x DROP_TEST_SUITE q) = framed p q"
  "framed p (drop_if x DROP_TEST_CONTEXT q) = framed p q" "framed p (drop_if x DROP_TEST_DATA q) = framed p q"
  by (simp_all add: framed_def drop_if_def DROP_TEST_def DROP_TEST_ITERATOR_def DROP_TEST_CASE_def
      DROP_TEST_SUITE_def DROP_TEST_CONTEXT_def DROP_TEST_DATA_def)

lemma drop_store [simp]:
  "sp_store (drop_if x DROP_TEST q) = sp_store q" "sp_store (drop_if x DROP_TEST_ITERATOR q) = sp_store q"
  "sp_store (drop_if x DROP_TEST_CASE q) = sp_store q" "sp_store (drop_if x DROP_TEST_SUITE q) = sp_store q"
  "sp_store (drop_if x DROP_TEST_CONTEXT q) = sp_store q" "sp_store (drop_if x DROP_TEST_DATA q) = sp_store q"
  "sp_result (drop_if x DROP_TEST q) = sp_result q" "sp_result (drop_if x DROP_TEST_ITERATOR q) = sp_result q"
  "sp_result (drop_if x DROP_TEST_CASE q) = sp_result q" "sp_result (drop_if x DROP_TEST_SUITE q) = sp_result q"
  "sp_result (drop_if x DROP_TEST_CONTEXT q) = sp_result q" "sp_result (drop_if x DROP_TEST_DATA q) = sp_result q"
  "sp_results (drop_if x DROP_TEST q) = sp_results q" "sp_results (drop_if x DROP_TEST_ITERATOR q) = sp_results q"
  "sp_results (drop_if x DROP_TEST_CASE q) = sp_results q" "sp_results (drop_if x DROP_TEST_SUITE q) = sp_results q"
  "sp_results (drop_if x DROP_TEST_CONTEXT q) = sp_results q" "sp_results (drop_if x DROP_TEST_DATA q) = sp_results q"
  by (simp_all add: drop_if_def DROP_TEST_def DROP_TEST_ITERATOR_def DROP_TEST_CASE_def
      DROP_TEST_SUITE_def DROP_TEST_CONTEXT_def DROP_TEST_DATA_def)

section \<open>A test\<close>

lemma reads_test:
  assumes G: "text_tools_ok G" and m: "readable_test m" and "container (PEEK_STATE p)"
    and start: "start_in_state (PEEK_STATE p) (element_name (mt_kind m)) (opened (element_name (mt_kind m)) p) = Inr p1"
    and p1: "sp_states p1 = s # sp_states p" "sp_element_stack p1 = sp_element_stack p @ [element_name (mt_kind m)]"
      "sp_option_name p1 = None" "sp_option_value p1 = None"
    and s: "test_state s" "target_test_object s p1 = Some t" "t < length (ms_tests (sp_store p1))"
      "mt_kind m \<in> {Test_Object, Iterated_Test_Object} \<Longrightarrow> s \<in> {IN_TEST, IN_ITERATED_TEST}"
    and rest: "reads G i us (update_test t (received_test G m)
      (p1\<lparr>sp_states := sp_states p, sp_element_stack := sp_element_stack p\<rparr>)) r"
  shows "reads G i (test_tree G m # us) p r"
proof -
  have peek: "PEEK_STATE p1 = s" using p1 by (simp add: PEEK_STATE_def)
  have p1_in: "in_test t p1" using s p1 peek by (simp add: in_test_def)
  have restored: "closed (popped (update_test t (received_test G m) p1)) =
      update_test t (received_test G m) (p1\<lparr>sp_states := sp_states p, sp_element_stack := sp_element_stack p\<rparr>)"
    using p1 by (simp add: closed_def popped_def update_test_def)
  show ?thesis
    unfolding test_tree_def
  proof (rule reads_Node [OF assms(3) start])
    show "reads G (i + 2) (test_trees G m) p1 (update_test t (received_test G m) p1)"
      by (rule reads_test_trees [OF G m p1_in]) (use s peek p1 in simp_all)
    show "end_in_state (PEEK_STATE (update_test t (received_test G m) p1))
        (popped (update_test t (received_test G m) p1)) = Inr (popped (update_test t (received_test G m) p1))"
      using s peek by (simp add: test_state_end)
  qed (use s peek restored rest in \<open>simp_all add: test_state_container\<close>)
qed


section \<open>Test data\<close>

lemma reads_data:
  assumes "container (PEEK_STATE p)"
    and start: "start_in_state (PEEK_STATE p) ''test-data'' (opened ''test-data'' p) = Inr p1"
    and p1: "sp_states p1 = IN_TEST_DATA # sp_states p" "sp_element_stack p1 = sp_element_stack p @ [''test-data'']"
      "sp_data p1 = d # ds" "d < length (ms_data (sp_store p1))" "ms_data (sp_store p1) ! d = None"
    and rest: "reads G i us (update_data d (nonempty_string name)
      (p1\<lparr>sp_states := sp_states p, sp_element_stack := sp_element_stack p\<rparr>)) r"
  shows "reads G i (data_tree name # us) p r"
proof -
  let ?f = "update_data d (nonempty_string name)"
  have peek: "PEEK_STATE p1 = IN_TEST_DATA" using p1 by (simp add: PEEK_STATE_def)
  have unset: "update_data d None p1 = p1"
  proof -
    have "(ms_data (sp_store p1))[d := None] = ms_data (sp_store p1)"
      by (metis list_update_id p1(5))
    then show ?thesis by (simp add: update_data_def)
  qed
  have inner: "reads G (i + 2) (opt_leaf ''name'' name) p1 (?f p1)"
  proof (cases name)
    case None
    then show ?thesis using unset by (simp add: opt_leaf_def nonempty_string_def)
  next
    case (Some v)
    have "reads G (i + 2) [Leaf ''name'' v] p1 (?f p1)"
    proof (rule reads_plain_leaf [where s = IN_TEST_DATA_NAME and f = ?f])
      show "reads G (i + 2) [] (if v = [] then p1 else ?f p1) (?f p1)"
        using unset Some by (auto simp: nonempty_string_def)
    qed (use peek p1 Some in \<open>auto simp: start_in_state_def start_test_data_def leaf_ends plain_change_def
        text_in_state_def text_test_data_name_def with_pointer_def peek_def update_data_def nonempty_string_def
        PUSH_STATE_def opened_def split: list.splits\<close>)
    then show ?thesis using Some by (simp add: opt_leaf_def)
  qed
  have peek': "PEEK_STATE (?f p1) = IN_TEST_DATA"
    using peek by (simp add: update_data_def PEEK_STATE_def)
  have restored: "closed (popped (?f p1)) = ?f (p1\<lparr>sp_states := sp_states p, sp_element_stack := sp_element_stack p\<rparr>)"
    using p1 by (simp add: closed_def popped_def update_data_def)
  show ?thesis
    unfolding data_tree_def
  proof (rule reads_Node [OF assms(1) start inner])
    show "end_in_state (PEEK_STATE (?f p1)) (popped (?f p1)) = Inr (popped (?f p1))"
      by (simp add: peek leaf_ends)
  qed (use peek' restored rest in simp_all)
qed

section \<open>A context\<close>

definition context_carried :: "text_tools \<Rightarrow> markup_store \<Rightarrow> markup_store \<Rightarrow> markup_context \<Rightarrow> markup_context \<Rightarrow> bool" where
  "context_carried G S S' mc mc' \<longleftrightarrow>
     rel_option (test_carried G S S') (mc_suite mc) (mc_suite mc') \<and>
     rel_option (test_carried G S S') (mc_case mc) (mc_case mc') \<and>
     rel_option (test_carried G S S') (mc_iterator mc) (mc_iterator mc') \<and>
     rel_option (test_carried G S S') (mc_test mc) (mc_test mc') \<and>
     rel_option (data_carried S S') (mc_data mc) (mc_data mc') \<and> mc_failed mc' = mc_failed mc"

definition holds_kind :: "test_kind set \<Rightarrow> markup_store \<Rightarrow> object_id option \<Rightarrow> bool" where
  "holds_kind K S x \<longleftrightarrow> pred_option (\<lambda>t. mt_kind (ms_tests S ! t) \<in> K \<and> readable_test (ms_tests S ! t)) x"

definition readable_context :: "markup_store \<Rightarrow> markup_context \<Rightarrow> bool" where
  "readable_context S mc \<longleftrightarrow>
     holds_kind {Suite_Object} S (mc_suite mc) \<and> holds_kind {Case_Object} S (mc_case mc) \<and>
     holds_kind {Iterator_Object} S (mc_iterator mc) \<and>
     holds_kind {Test_Object, Iterated_Test_Object} S (mc_test mc)"

text \<open>The parser is in the context \<open>c\<close>, which is newer than the store of \<open>p0\<close>.\<close>

definition in_context :: "stream_parser \<Rightarrow> object_id \<Rightarrow> stream_parser \<Rightarrow> bool" where
  "in_context p0 c p \<longleftrightarrow>
     framed p0 p \<and> PEEK_STATE p = IN_TEST_CONTEXT \<and> sp_states p \<noteq> [] \<and> peek (sp_contexts p) = Some c \<and>
     sp_option_name p = None \<and> sp_option_value p = None \<and> sp_result p = sp_result p0 \<and>
     sp_results p = sp_results p0 \<and> objects_grow (sp_store p0) (sp_store p) \<and>
     c = length (ms_contexts (sp_store p0)) \<and>
     (\<exists>mc. ms_contexts (sp_store p) = ms_contexts (sp_store p0) @ [mc])"

abbreviation the_context :: "object_id \<Rightarrow> stream_parser \<Rightarrow> markup_context" where
  "the_context c p \<equiv> ms_contexts (sp_store p) ! c"

text \<open>The queue of a kind of test and the state in which such a test is read.\<close>

definition pushes :: "(object_id \<Rightarrow> stream_parser \<Rightarrow> stream_parser) \<Rightarrow> parse_state \<Rightarrow> bool" where
  "pushes push s \<longleftrightarrow> (push, s) \<in> {(PUSH_TEST_SUITE, IN_TEST_SUITE), (PUSH_TEST_CASE, IN_TEST_CASE),
     (PUSH_TEST_ITERATOR, IN_TEST_ITERATOR), (PUSH_TEST, IN_TEST), (PUSH_TEST, IN_ITERATED_TEST)}"

lemma pushes_simps [simp]:
  "pushes PUSH_TEST_SUITE IN_TEST_SUITE" "pushes PUSH_TEST_CASE IN_TEST_CASE"
  "pushes PUSH_TEST_ITERATOR IN_TEST_ITERATOR" "pushes PUSH_TEST IN_TEST" "pushes PUSH_TEST IN_ITERATED_TEST"
  by (simp_all add: pushes_def)

lemma pushes_frame:
  assumes "pushes push s"
  shows "framed p (push t q) = framed p q" "sp_states (push t q) = sp_states q"
    "sp_element_stack (push t q) = sp_element_stack q" "sp_option_name (push t q) = sp_option_name q"
    "sp_option_value (push t q) = sp_option_value q" "sp_store (push t q) = sp_store q"
    "sp_contexts (push t q) = sp_contexts q" "sp_results (push t q) = sp_results q"
    "sp_result (push t q) = sp_result q" "PEEK_STATE (push t q) = PEEK_STATE q" "target_test_object s (push t q) = Some t" "test_state s"
    "update_test u f (push t q) = push t (update_test u f q)"
    "(push t q)\<lparr>sp_states := ss, sp_element_stack := es\<rparr> = push t (q\<lparr>sp_states := ss, sp_element_stack := es\<rparr>)"
    "sp_results_emitted (push t q) = sp_results_emitted q" "sp_backtrace (push t q) = sp_backtrace q"
    "sp_backtrace_entry (push t q) = sp_backtrace_entry q"
  using assms unfolding pushes_def
  by (elim insertE emptyE; simp add: framed_def PUSH_TEST_SUITE_def PUSH_TEST_CASE_def PUSH_TEST_ITERATOR_def
      PUSH_TEST_def target_test_object_def peek_def test_state_def update_test_def PEEK_STATE_def)+

lemma reads_context_child:
  assumes G: "text_tools_ok G" and p: "in_context p0 c p"
    and start: "\<And>q. start_in_state IN_TEST_CONTEXT (element_name (mt_kind (ms_tests S ! t))) q =
      start_context_test push set_field (mt_kind (ms_tests S ! t)) s q"
    and push: "pushes push s" and m: "readable_test (ms_tests S ! t)"
    and s: "mt_kind (ms_tests S ! t) \<in> {Test_Object, Iterated_Test_Object} \<Longrightarrow> s \<in> {IN_TEST, IN_ITERATED_TEST}"
  obtains q t' where "reads G i [test_tree G (ms_tests S ! t)] p q" "in_context p0 c q"
    "the_context c q = set_field (Some t') (the_context c p)"
    "test_carried G S (sp_store q) t t'" "objects_grow (sp_store p) (sp_store q)"
proof -
  let ?m = "ms_tests S ! t"
  let ?n = "element_name (mt_kind ?m)"
  let ?t = "length (ms_tests (sp_store p))"
  let ?f = "update_context_object c (set_field (Some ?t))"
  let ?add = "\<lambda>m p. p\<lparr>sp_store := (sp_store p)\<lparr>ms_tests := ms_tests (sp_store p) @ [m]\<rparr>\<rparr>"
  let ?q = "push ?t (?f (?add (received_test G ?m (empty_test (mt_kind ?m))) p))"
  have peek: "PEEK_STATE p = IN_TEST_CONTEXT" using p by (simp add: in_context_def)
  obtain mc where mc: "ms_contexts (sp_store p) = ms_contexts (sp_store p0) @ [mc]"
      "c = length (ms_contexts (sp_store p0))"
    using p by (auto simp: in_context_def)
  have reads: "reads G i [test_tree G ?m] p ?q"
  proof (rule reads_test [OF G m, where s = s and t = ?t])
    show "start_in_state (PEEK_STATE p) ?n (opened ?n p) =
        Inr (push ?t (?f (?add (empty_test (mt_kind ?m)) (PUSH_STATE s (opened ?n p)))))"
      using p by (simp add: peek start start_context_test_def with_pointer_def in_context_def new_test_def
          PUSH_STATE_def opened_def)
    show "target_test_object s (push ?t (?f (?add (empty_test (mt_kind ?m)) (PUSH_STATE s (opened ?n p))))) = Some ?t"
      using push by (simp add: pushes_frame)
    have same: "update_test ?t (received_test G ?m) (?f (?add (empty_test (mt_kind ?m)) p)) =
        ?f (?add (received_test G ?m (empty_test (mt_kind ?m))) p)"
      by (simp add: update_test_def update_context_object_def)
    have restored: "(?f (?add (empty_test (mt_kind ?m)) (PUSH_STATE s (opened ?n p))))
        \<lparr>sp_states := sp_states p, sp_element_stack := sp_element_stack p\<rparr> = ?f (?add (empty_test (mt_kind ?m)) p)"
      by (simp add: update_context_object_def PUSH_STATE_def opened_def)
    show "reads G i [] (update_test ?t (received_test G ?m)
        ((push ?t (?f (?add (empty_test (mt_kind ?m)) (PUSH_STATE s (opened ?n p)))))
          \<lparr>sp_states := sp_states p, sp_element_stack := sp_element_stack p\<rparr>)) ?q"
      unfolding pushes_frame(13,14) [OF push] restored same by simp
  qed (use peek push s p in \<open>simp_all add: pushes_frame in_context_def PUSH_STATE_def opened_def
        update_context_object_def\<close>)
  moreover have "in_context p0 c ?q"
    using p mc push by (auto simp: in_context_def pushes_frame update_context_object_def objects_grow_def)
  moreover have "the_context c ?q = set_field (Some ?t) (the_context c p)"
    using mc push by (simp add: pushes_frame update_context_object_def)
  moreover have "test_carried G S (sp_store ?q) t ?t"
    using m push by (simp add: test_carried_def pushes_frame update_context_object_def received_seen)
  moreover have "objects_grow (sp_store p) (sp_store ?q)"
    using push by (simp add: objects_grow_def pushes_frame update_context_object_def)
  ultimately show ?thesis by (rule that)
qed


text \<open>A child that may be missing, of a field that is not set yet.\<close>

lemma reads_context_option:
  assumes G: "text_tools_ok G" and p: "in_context p0 c p"
    and start: "\<And>k q. k \<in> K \<Longrightarrow> start_in_state IN_TEST_CONTEXT (element_name k) q =
      start_context_test push set_field k (st k) q"
    and push: "\<And>k. k \<in> K \<Longrightarrow> pushes push (st k)" and x: "holds_kind K S x"
    and st: "\<And>k. k \<in> K \<Longrightarrow> k \<in> {Test_Object, Iterated_Test_Object} \<Longrightarrow> st k \<in> {IN_TEST, IN_ITERATED_TEST}"
    and unset: "set_field None (the_context c p) = the_context c p"
  obtains q x' where "reads G i (opt_tree (\<lambda>t. test_tree G (ms_tests S ! t)) x) p q" "in_context p0 c q"
    "the_context c q = set_field x' (the_context c p)"
    "rel_option (test_carried G S (sp_store q)) x x'" "objects_grow (sp_store p) (sp_store q)"
proof (cases x)
  case None
  show ?thesis by (rule that [of p None]) (use None p unset in \<open>simp_all add: opt_tree_def\<close>)
next
  case (Some t)
  let ?k = "mt_kind (ms_tests S ! t)"
  have k: "?k \<in> K" "readable_test (ms_tests S ! t)" using x Some by (simp_all add: holds_kind_def)
  obtain q t' where "reads G i [test_tree G (ms_tests S ! t)] p q" "in_context p0 c q"
    "the_context c q = set_field (Some t') (the_context c p)"
    "test_carried G S (sp_store q) t t'" "objects_grow (sp_store p) (sp_store q)"
    by (rule reads_context_child [OF G p start push k(2) st]) (use k in auto)
  then show ?thesis using Some by (intro that [of q "Some t'"]) (simp_all add: opt_tree_def)
qed

lemma reads_context_data:
  assumes p: "in_context p0 c p" and unset: "mc_data (the_context c p) = None"
  obtains q x' where "reads G i (opt_tree (\<lambda>d. data_tree (ms_data S ! d)) x) p q" "in_context p0 c q"
    "the_context c q = (the_context c p)\<lparr>mc_data := x'\<rparr>"
    "rel_option (data_carried S (sp_store q)) x x'" "objects_grow (sp_store p) (sp_store q)"
proof (cases x)
  case None
  show ?thesis by (rule that [of p None]) (use None p unset in \<open>simp_all add: opt_tree_def\<close>)
next
  case (Some d)
  let ?d = "length (ms_data (sp_store p))"
  let ?f = "update_context_object c (mc_data_update (\<lambda>_. Some ?d))"
  let ?add = "\<lambda>n p. (?f (p\<lparr>sp_store := (sp_store p)\<lparr>ms_data := ms_data (sp_store p) @ [n]\<rparr>\<rparr>))\<lparr>sp_data := ?d # sp_data p\<rparr>"
  let ?name = "nonempty_string (ms_data S ! d)"
  obtain mc where mc: "ms_contexts (sp_store p) = ms_contexts (sp_store p0) @ [mc]"
      "c = length (ms_contexts (sp_store p0))"
    using p by (auto simp: in_context_def)
  have peek: "PEEK_STATE p = IN_TEST_CONTEXT" using p by (simp add: in_context_def)
  have "reads G i [data_tree (ms_data S ! d)] p (?add ?name p)"
  proof (rule reads_data [where d = ?d])
    show "start_in_state (PEEK_STATE p) ''test-data'' (opened ''test-data'' p) =
        Inr (?add None (PUSH_STATE IN_TEST_DATA (opened ''test-data'' p)))"
      using p by (simp add: peek start_in_state_def start_test_context_def with_pointer_def in_context_def new_data_def
          PUSH_STATE_def opened_def PUSH_TEST_DATA_def update_context_object_def)
  qed (use peek in \<open>simp_all add: update_context_object_def update_data_def PUSH_STATE_def opened_def\<close>)
  moreover have "in_context p0 c (?add ?name p)"
    using p mc by (auto simp: in_context_def update_context_object_def objects_grow_def)
  ultimately show ?thesis
    using mc Some
    by (intro that [of "?add ?name p" "Some ?d"])
       (simp_all add: opt_tree_def update_context_object_def data_carried_def objects_grow_def)
qed

lemma reads_context_failed:
  assumes p: "in_context p0 c p"
  obtains q where "reads G i [Leaf ''failed'' (boolean_text b)] p q" "in_context p0 c q"
    "the_context c q = (the_context c p)\<lparr>mc_failed := b\<rparr>" "objects_grow (sp_store p) (sp_store q)"
proof -
  let ?f = "update_context_object c (mc_failed_update (\<lambda>_. b))"
  obtain mc where mc: "ms_contexts (sp_store p) = ms_contexts (sp_store p0) @ [mc]"
      "c = length (ms_contexts (sp_store p0))"
    using p by (auto simp: in_context_def)
  have "reads G i [Leaf ''failed'' (boolean_text b)] p (?f p)"
  proof (rule reads_plain_leaf [where s = IN_TEST_CONTEXT_FAILED and f = ?f])
    show "plain_change ?f" by (simp add: plain_change_def update_context_object_def)
    show "text_in_state G IN_TEST_CONTEXT_FAILED (boolean_text b) (PUSH_STATE IN_TEST_CONTEXT_FAILED (opened ''failed'' p)) =
        Inr (?f (PUSH_STATE IN_TEST_CONTEXT_FAILED (opened ''failed'' p)))"
      using p boolean_read [of b]
      by (simp add: text_in_state_def text_test_context_failed_def boolean_text_def in_context_def with_pointer_def
          PUSH_STATE_def opened_def)
  qed (use p boolean_read [of b] in \<open>simp_all add: in_context_def start_in_state_def start_test_context_def leaf_ends
      boolean_text_def\<close>)
  moreover have "in_context p0 c (?f p)"
    using p mc by (auto simp: in_context_def update_context_object_def objects_grow_def)
  ultimately show ?thesis
    using mc by (intro that [of "?f p"]) (simp_all add: update_context_object_def objects_grow_def)
qed

lemma reads_context:
  assumes G: "text_tools_ok G" and "container (PEEK_STATE p)"
    and start: "start_in_state (PEEK_STATE p) ''test-context'' (opened ''test-context'' p) = Inr p1"
    and p1: "in_context p0 c p1" "the_context c p1 = empty_context" and mc: "readable_context S mc"
  obtains q mc' where "reads G i [context_tree G S mc] p q" "framed (closed (popped p0)) q"
    "ms_contexts (sp_store q) = ms_contexts (sp_store p0) @ [mc']" "context_carried G S (sp_store q) mc mc'"
    "objects_grow (sp_store p1) (sp_store q)" "sp_result q = sp_result p0" "sp_results q = sp_results p0"
proof -
  have kinds: "holds_kind {Suite_Object} S (mc_suite mc)" "holds_kind {Case_Object} S (mc_case mc)"
    "holds_kind {Iterator_Object} S (mc_iterator mc)" "holds_kind {Test_Object, Iterated_Test_Object} S (mc_test mc)"
    using mc by (simp_all add: readable_context_def)
  note start_def = start_in_state_def start_test_context_def
  obtain q1 x1 where 1: "reads G (i + 2) (opt_tree (\<lambda>t. test_tree G (ms_tests S ! t)) (mc_suite mc)) p1 q1"
    "in_context p0 c q1" "the_context c q1 = (the_context c p1)\<lparr>mc_suite := x1\<rparr>"
    "rel_option (test_carried G S (sp_store q1)) (mc_suite mc) x1" "objects_grow (sp_store p1) (sp_store q1)"
    by (rule reads_context_option [OF G p1(1), where K = "{Suite_Object}" and push = PUSH_TEST_SUITE
          and set_field = "\<lambda>x. mc_suite_update (\<lambda>_. x)" and st = "\<lambda>k. IN_TEST_SUITE"])
       (auto simp: kinds p1(2) start_def empty_context_def)
  obtain q2 x2 where 2: "reads G (i + 2) (opt_tree (\<lambda>t. test_tree G (ms_tests S ! t)) (mc_case mc)) q1 q2"
    "in_context p0 c q2" "the_context c q2 = (the_context c q1)\<lparr>mc_case := x2\<rparr>"
    "rel_option (test_carried G S (sp_store q2)) (mc_case mc) x2" "objects_grow (sp_store q1) (sp_store q2)"
    by (rule reads_context_option [OF G 1(2), where K = "{Case_Object}" and push = PUSH_TEST_CASE
          and set_field = "\<lambda>x. mc_case_update (\<lambda>_. x)" and st = "\<lambda>k. IN_TEST_CASE"])
       (auto simp: kinds 1(3) p1(2) start_def empty_context_def)
  obtain q3 x3 where 3: "reads G (i + 2) (opt_tree (\<lambda>t. test_tree G (ms_tests S ! t)) (mc_iterator mc)) q2 q3"
    "in_context p0 c q3" "the_context c q3 = (the_context c q2)\<lparr>mc_iterator := x3\<rparr>"
    "rel_option (test_carried G S (sp_store q3)) (mc_iterator mc) x3" "objects_grow (sp_store q2) (sp_store q3)"
    by (rule reads_context_option [OF G 2(2), where K = "{Iterator_Object}" and push = PUSH_TEST_ITERATOR
          and set_field = "\<lambda>x. mc_iterator_update (\<lambda>_. x)" and st = "\<lambda>k. IN_TEST_ITERATOR"])
       (auto simp: kinds 1(3) 2(3) p1(2) start_def empty_context_def)
  obtain q4 x4 where 4: "reads G (i + 2) (opt_tree (\<lambda>t. test_tree G (ms_tests S ! t)) (mc_test mc)) q3 q4"
    "in_context p0 c q4" "the_context c q4 = (the_context c q3)\<lparr>mc_test := x4\<rparr>"
    "rel_option (test_carried G S (sp_store q4)) (mc_test mc) x4" "objects_grow (sp_store q3) (sp_store q4)"
    by (rule reads_context_option [OF G 3(2), where K = "{Test_Object, Iterated_Test_Object}" and push = PUSH_TEST
          and set_field = "\<lambda>x. mc_test_update (\<lambda>_. x)"
          and st = "\<lambda>k. if k = Test_Object then IN_TEST else IN_ITERATED_TEST"])
       (auto simp: kinds 1(3) 2(3) 3(3) p1(2) start_def empty_context_def)
  obtain q5 x5 where 5: "reads G (i + 2) (opt_tree (\<lambda>d. data_tree (ms_data S ! d)) (mc_data mc)) q4 q5"
    "in_context p0 c q5" "the_context c q5 = (the_context c q4)\<lparr>mc_data := x5\<rparr>"
    "rel_option (data_carried S (sp_store q5)) (mc_data mc) x5" "objects_grow (sp_store q4) (sp_store q5)"
    by (rule reads_context_data [OF 4(2)]) (use 1 2 3 4 p1 in \<open>simp_all add: empty_context_def\<close>)
  obtain q6 where 6: "reads G (i + 2) [Leaf ''failed'' (boolean_text (mc_failed mc))] q5 q6"
    "in_context p0 c q6" "the_context c q6 = (the_context c q5)\<lparr>mc_failed := mc_failed mc\<rparr>"
    "objects_grow (sp_store q5) (sp_store q6)"
    by (rule reads_context_failed [OF 5(2)])
  have g5: "objects_grow (sp_store q5) (sp_store q6)" by (rule 6(4))
  have g4: "objects_grow (sp_store q4) (sp_store q6)" using 5(5) g5 by (rule objects_grow_trans)
  have g3: "objects_grow (sp_store q3) (sp_store q6)" using 4(5) g4 by (rule objects_grow_trans)
  have g2: "objects_grow (sp_store q2) (sp_store q6)" using 3(5) g3 by (rule objects_grow_trans)
  have g1: "objects_grow (sp_store q1) (sp_store q6)" using 2(5) g2 by (rule objects_grow_trans)
  have g0: "objects_grow (sp_store p1) (sp_store q6)" using 1(5) g1 by (rule objects_grow_trans)
  let ?mc = "the_context c q6"
  let ?dropped = "\<lambda>p. drop_if (mc_data ?mc) DROP_TEST_DATA (drop_if (mc_test ?mc) DROP_TEST
    (drop_if (mc_iterator ?mc) DROP_TEST_ITERATOR (drop_if (mc_case ?mc) DROP_TEST_CASE
      (drop_if (mc_suite ?mc) DROP_TEST_SUITE p))))"
  let ?q = "closed (?dropped (popped q6))"
  have inner: "reads G (i + 2) (context_trees G S mc) p1 q6"
    unfolding context_trees_def Let_def by (intro reads_appendI) (use 1 2 3 4 5 6 in simp_all)
  have stop: "end_in_state IN_TEST_CONTEXT (popped q6) = Inr (?dropped (popped q6))"
    using 6(2) by (simp add: end_in_state_def end_test_context_def with_pointer_def in_context_def popped_def Let_def)
  have "reads G i [context_tree G S mc] p ?q"
    unfolding context_tree_def
    by (rule reads_Node [OF assms(2) start inner]) (use 6(2) stop in \<open>simp_all add: in_context_def\<close>)
  moreover have "framed (closed (popped p0)) ?q"
    using 6(2) by (auto simp: in_context_def intro!: framed_back)
  moreover have "ms_contexts (sp_store ?q) = ms_contexts (sp_store p0) @ [?mc]"
    using 6(2) by (auto simp: in_context_def closed_def popped_def)
  moreover have "context_carried G S (sp_store ?q) mc ?mc"
    using tests_carried_mono [OF 1(4) g1] tests_carried_mono [OF 2(4) g2] tests_carried_mono [OF 3(4) g3]
      tests_carried_mono [OF 4(4) g4] all_data_carried_mono [OF 5(4) g5]
    by (simp add: context_carried_def closed_def popped_def 1(3) 2(3) 3(3) 4(3) 5(3) 6(3))
  moreover have "objects_grow (sp_store p1) (sp_store ?q)"
    using g0 by (simp add: closed_def popped_def)
  moreover have "sp_result ?q = sp_result p0" "sp_results ?q = sp_results p0"
    using 6(2) by (auto simp: in_context_def closed_def popped_def)
  ultimately show ?thesis by (rule that)
qed

end
