(* ===== verification/Stream_Results.thy ===== *)
theory Stream_Results
  imports Stream_Objects
begin

text \<open>
  The parser reads backtraces and results, and what a result is on either side of the markup.
\<close>

section \<open>Backtrace entries\<close>

lemma paren: "ascii '')'' = [41]" "ascii ''('' = [40]" "ascii ''):'' = [41, 58]" "ascii '': '' = [58, 32]" "ascii ''()'' = [40, 41]"
  by (simp_all add: ascii_def)

lemma has_suffix_paren: "has_suffix f [41] \<longleftrightarrow> (\<exists>u. f = u @ [41])"
proof
  assume "has_suffix f [41]"
  then have "f = take (length f - 1) f @ [41]"
    using append_take_drop_id [of "length f - 1" f] by (simp add: has_suffix_def)
  then show "\<exists>u. f = u @ [41]" by blast
qed (auto simp: has_suffix_def)

lemma function_text_end: "\<exists>u. function_text f = u @ [41]"
  by (auto simp: function_text_def paren has_suffix_paren)

lemma strstr_after:
  assumes "strstr (u @ [41]) [41, 58] = None"
  shows "strstr (u @ 41 # 58 # x) [41, 58] = Some (u, 41 # 58 # x)"
  using assms
proof (induction u)
  case (Cons c u)
  have "take 2 (c # u @ 41 # 58 # x) = take 2 (c # u @ [41])" by (cases u) simp_all
  then show ?case using Cons by (auto split: if_splits simp: numeral_2_eq_2)
qed (simp add: numeral_2_eq_2)

text \<open>The information of an entry holds the function and the text after it; they are told apart by
  the first \<open>):\<close>, or by the parentheses of the function.\<close>

definition readable_info :: "ustring option \<Rightarrow> ustring option \<Rightarrow> bool" where
  "readable_info function info =
     (case (map_option function_text function, info) of
        (Some f, Some i) \<Rightarrow> strstr f (ascii ''):'') = None \<and> (i = [] \<or> hd i \<noteq> 32)
      | (Some f, None) \<Rightarrow> strstr f (ascii ''):'') = None \<and> strstr f (ascii ''('') \<noteq> None
      | (None, Some i) \<Rightarrow> i \<noteq> [] \<and> strstr i (ascii ''):'') = None \<and>
          \<not> (has_suffix i (ascii '')'') \<and> strstr i (ascii ''('') \<noteq> None)
      | (None, None) \<Rightarrow> True)"

definition readable_entry :: "backtrace_entry \<Rightarrow> bool" where
  "readable_entry e \<longleftrightarrow> entry_file e \<noteq> Some [] \<and> entry_line e < 2147483648 \<and>
     readable_info (entry_function e) (entry_info e)"

definition received_entry :: "backtrace_entry \<Rightarrow> backtrace_entry" where
  "received_entry e = e\<lparr>entry_function := map_option function_text (entry_function e)\<rparr>"

text \<open>The parser stands in an entry.\<close>

definition in_entry :: "backtrace_entry \<Rightarrow> stream_parser \<Rightarrow> bool" where
  "in_entry e p \<longleftrightarrow> PEEK_STATE p = IN_RESULT_BACKTRACE_ENTRY \<and> sp_backtrace_entry p = Some e"

abbreviation set_entry :: "backtrace_entry \<Rightarrow> stream_parser \<Rightarrow> stream_parser" where
  "set_entry e p \<equiv> p\<lparr>sp_backtrace_entry := Some e\<rparr>"

lemma in_set_entry [simp]: "in_entry e' (set_entry e p) \<longleftrightarrow> PEEK_STATE p = IN_RESULT_BACKTRACE_ENTRY \<and> e' = e"
  by (auto simp: in_entry_def PEEK_STATE_def)

lemma reads_entry_leaf:
  assumes p: "in_entry e p"
    and start: "\<And>q. start_result_backtrace_entry n q = Inr (PUSH_STATE s q)" and stop: "end_in_state s = Inr"
    and reading: "\<And>v q. x = Some v \<Longrightarrow> sp_backtrace_entry q = Some e \<Longrightarrow> text_in_state G s v q = Inr (set_entry e' q)"
    and x: "x \<noteq> Some []" and none: "x = None \<Longrightarrow> e' = e"
    and rest: "reads G i us (set_entry e' p) r"
  shows "reads G i (opt_leaf n x @ us) p r"
proof (cases x)
  case None
  have "set_entry e p = p" using p by (cases p) (simp add: in_entry_def)
  then show ?thesis using rest none None by (simp add: opt_leaf_def)
next
  case (Some v)
  then have v: "v \<noteq> []" using x by simp
  have "reads G i (Leaf n v # us) p r"
  proof (rule reads_plain_leaf [where s = s and f = "set_entry e'"])
    show "start_in_state (PEEK_STATE p) n (opened n p) = Inr (PUSH_STATE s (opened n p))"
      using p start by (simp add: in_entry_def start_in_state_def)
    show "text_in_state G s v (PUSH_STATE s (opened n p)) = Inr (set_entry e' (PUSH_STATE s (opened n p)))"
      by (rule reading [OF Some]) (use p in \<open>simp add: in_entry_def PUSH_STATE_def opened_def\<close>)
  qed (use p stop v rest in \<open>simp_all add: in_entry_def plain_change_def\<close>)
  then show ?thesis using Some by (simp add: opt_leaf_def)
qed

lemma read_info:
  assumes "readable_info f i" "entry_info_string e = Some v" "entry_function e = f" "entry_info e = i"
    "sp_backtrace_entry q = Some (e0\<lparr>entry_function := None, entry_info := None\<rparr>)"
  shows "text_result_backtrace_entry_info v q =
    Inr (set_entry (e0\<lparr>entry_function := map_option function_text f, entry_info := i\<rparr>) q)"
proof (cases f; cases i)
  fix f' i' assume c: "f = Some f'" "i = Some i'"
  obtain u where u: "function_text f' = u @ [41]" using function_text_end by blast
  have "strstr (u @ 41 # 58 # 32 # i') [41, 58] = Some (u, 41 # 58 # 32 # i')"
    by (rule strstr_after) (use assms(1) c u in \<open>simp add: readable_info_def paren\<close>)
  moreover have "v = u @ 41 # 58 # 32 # i'" using assms(2-4) c u by (auto simp: entry_info_string_def paren)
  moreover have "dropWhile (\<lambda>c. c = 32) i' = i'"
    using assms(1) c by (cases i') (auto simp: readable_info_def)
  ultimately show ?thesis
    using assms(5) c u by (simp add: text_result_backtrace_entry_info_def paren with_entry_def with_pointer_def)
next
  fix f' assume c: "f = Some f'" "i = None"
  obtain u where u: "function_text f' = u @ [41]" using function_text_end by blast
  have "v = function_text f'" using assms(2-4) c by (auto simp: entry_info_string_def)
  moreover have "has_suffix (function_text f') [41]" using u by (simp add: has_suffix_paren)
  ultimately show ?thesis
    using assms(1,5) c
    by (simp add: text_result_backtrace_entry_info_def readable_info_def paren with_entry_def with_pointer_def)
next
  fix i' assume c: "f = None" "i = Some i'"
  then show ?thesis
    using assms by (auto simp: text_result_backtrace_entry_info_def readable_info_def entry_info_string_def
        paren with_entry_def with_pointer_def)
next
  assume "f = None" "i = None"
  then show ?thesis using assms(2-4) by (simp add: entry_info_string_def)
qed

lemma reads_entry:
  assumes p: "PEEK_STATE p = IN_RESULT_BACKTRACE" "sp_backtrace_entry p = None"
    and e: "readable_entry e"
    and rest: "reads G i us (p\<lparr>sp_backtrace := received_entry e # sp_backtrace p\<rparr>) r"
  shows "reads G i (Node ''entry'' (entry_trees e) # us) p r"
proof -
  let ?p1 = "PUSH_STATE IN_RESULT_BACKTRACE_ENTRY (opened ''entry'' p)"
  let ?e1 = "empty_entry\<lparr>entry_file := entry_file e\<rparr>"
  let ?e2 = "?e1\<lparr>entry_line := entry_line e\<rparr>"
  have peek: "PEEK_STATE ?p1 = IN_RESULT_BACKTRACE_ENTRY" by (simp add: PEEK_STATE_def PUSH_STATE_def)
  have line: "is_integer (print_guint (entry_line e))" "print_guint (entry_line e) \<noteq> []"
    "atoi (print_guint (entry_line e)) = entry_line e"
    using e print_guint_read [of "entry_line e"] by (simp_all add: readable_entry_def)
  have inner: "reads G (i + 2) (entry_trees e) (set_entry empty_entry ?p1) (set_entry (received_entry e) ?p1)"
    unfolding entry_trees_def
  proof (rule reads_entry_leaf [where s = IN_RESULT_BACKTRACE_ENTRY_FILE and e' = ?e1])
    show "reads G (i + 2) (opt_leaf ''line'' (entry_line_string e) @ opt_leaf ''info'' (entry_info_string e))
        (set_entry ?e1 (set_entry empty_entry ?p1)) (set_entry (received_entry e) ?p1)"
    proof (rule reads_entry_leaf [where s = IN_RESULT_BACKTRACE_ENTRY_LINE and e' = ?e2])
      have "reads G (i + 2) (opt_leaf ''info'' (entry_info_string e) @ [])
          (set_entry ?e2 (set_entry ?e1 (set_entry empty_entry ?p1))) (set_entry (received_entry e) ?p1)"
      proof (rule reads_entry_leaf [where s = IN_RESULT_BACKTRACE_ENTRY_INFO and e' = "received_entry e"])
        show "text_in_state G IN_RESULT_BACKTRACE_ENTRY_INFO v q = Inr (set_entry (received_entry e) q)"
          if "entry_info_string e = Some v" "sp_backtrace_entry q = Some ?e2" for v q
          using read_info [of "entry_function e" "entry_info e" e v q ?e2] that e
          by (simp add: text_in_state_def readable_entry_def received_entry_def empty_entry_def)
        show "entry_info_string e \<noteq> Some []"
          using e function_text_end
          by (auto simp: entry_info_string_def readable_entry_def readable_info_def paren split: option.splits)
        show "received_entry e = ?e2" if "entry_info_string e = None"
          using that by (auto simp: entry_info_string_def received_entry_def empty_entry_def split: option.splits)
      qed (use peek in \<open>simp_all add: start_result_backtrace_entry_def leaf_ends\<close>)
      then show "reads G (i + 2) (opt_leaf ''info'' (entry_info_string e))
          (set_entry ?e2 (set_entry ?e1 (set_entry empty_entry ?p1))) (set_entry (received_entry e) ?p1)" by simp
      show "text_in_state G IN_RESULT_BACKTRACE_ENTRY_LINE v q = Inr (set_entry ?e2 q)"
        if "entry_line_string e = Some v" "sp_backtrace_entry q = Some ?e1" for v q
      proof -
        have "v = print_guint (entry_line e)" using that(1) by (simp add: entry_line_string_def split: if_splits)
        then show ?thesis
          using line that(2)
          by (simp add: text_in_state_def text_result_backtrace_entry_line_def with_entry_def with_pointer_def)
      qed
      show "entry_line_string e \<noteq> Some []" using line by (simp add: entry_line_string_def)
      show "?e2 = ?e1" if "entry_line_string e = None"
        using that by (simp add: entry_line_string_def empty_entry_def split: if_splits)
    qed (use peek in \<open>simp_all add: start_result_backtrace_entry_def leaf_ends\<close>)
  qed (use peek e in \<open>auto simp: start_result_backtrace_entry_def leaf_ends readable_entry_def text_in_state_def
      text_result_backtrace_entry_file_def with_entry_def with_pointer_def empty_entry_def\<close>)
  let ?q = "set_entry (received_entry e) ?p1"
  have peek': "PEEK_STATE ?q = IN_RESULT_BACKTRACE_ENTRY" "PEEK_STATE (set_entry empty_entry ?p1) = IN_RESULT_BACKTRACE_ENTRY"
    by (simp_all add: PEEK_STATE_def PUSH_STATE_def)
  have stop: "end_in_state IN_RESULT_BACKTRACE_ENTRY (popped ?q) =
      Inr ((popped ?q)\<lparr>sp_backtrace := received_entry e # sp_backtrace p, sp_backtrace_entry := None\<rparr>)"
    by (simp add: end_in_state_def end_result_backtrace_entry_def popped_def PUSH_STATE_def opened_def)
  have restored: "closed ((popped ?q)\<lparr>sp_backtrace := received_entry e # sp_backtrace p, sp_backtrace_entry := None\<rparr>) =
      p\<lparr>sp_backtrace := received_entry e # sp_backtrace p\<rparr>"
    using p(2) by (simp add: closed_def popped_def PUSH_STATE_def opened_def)
  show ?thesis
  proof (rule reads_Node [OF _ _ inner])
    show "container (PEEK_STATE p)" using p(1) by simp
    show "start_in_state (PEEK_STATE p) ''entry'' (opened ''entry'' p) = Inr (set_entry empty_entry ?p1)"
      using p(1) by (simp add: start_in_state_def start_result_backtrace_def)
    show "container (PEEK_STATE ?q)" unfolding peek' by simp
    show "end_in_state (PEEK_STATE ?q) (popped ?q) =
        Inr ((popped ?q)\<lparr>sp_backtrace := received_entry e # sp_backtrace p, sp_backtrace_entry := None\<rparr>)"
      unfolding peek' stop ..
    show "reads G i us (closed ((popped ?q)
        \<lparr>sp_backtrace := received_entry e # sp_backtrace p, sp_backtrace_entry := None\<rparr>)) r"
      unfolding restored by (rule rest)
  qed
qed


lemma reads_entries:
  assumes "PEEK_STATE p = IN_RESULT_BACKTRACE" "sp_backtrace_entry p = None" "\<forall>e \<in> set es. readable_entry e"
  shows "reads G i (map (\<lambda>e. Node ''entry'' (entry_trees e)) es) p
    (p\<lparr>sp_backtrace := rev (map received_entry es) @ sp_backtrace p\<rparr>)"
  using assms
proof (induction es arbitrary: p)
  case (Cons e es)
  let ?q = "p\<lparr>sp_backtrace := received_entry e # sp_backtrace p\<rparr>"
  have "reads G i (map (\<lambda>e. Node ''entry'' (entry_trees e)) es) ?q
      (?q\<lparr>sp_backtrace := rev (map received_entry es) @ sp_backtrace ?q\<rparr>)"
    by (rule Cons.IH) (use Cons.prems in \<open>simp_all add: PEEK_STATE_def\<close>)
  then show ?case using reads_entry [OF Cons.prems(1,2)] Cons.prems(3) by simp
qed simp

section \<open>A result being read\<close>

text \<open>The parser reads the result \<open>r\<close>, newer than the results of \<open>p0\<close>, which is \<open>x\<close> so far.\<close>

definition in_result :: "stream_parser \<Rightarrow> object_id \<Rightarrow> test_result \<Rightarrow> stream_parser \<Rightarrow> bool" where
  "in_result p0 r x p \<longleftrightarrow>
     framed p0 p \<and> PEEK_STATE p = IN_RESULT \<and> sp_states p \<noteq> [] \<and> sp_result p = Some r \<and>
     r = length (sp_results p0) \<and> sp_results p = sp_results p0 @ [x] \<and>
     sp_results_emitted p = sp_results_emitted p0 \<and>
     sp_option_name p = None \<and> sp_option_value p = None \<and> sp_backtrace p = [] \<and>
     sp_backtrace_entry p = None \<and> grows (sp_store p0) (sp_store p)"

lemma in_result_update: "in_result p0 r x p \<Longrightarrow> in_result p0 r (f x) (update_result r f p)"
  by (simp add: in_result_def) (simp add: update_result_def)

lemma backtrace_kept: "result_backtrace x = [] \<Longrightarrow> cut_test_result_set_backtrace [] x = x"
  by (cases x) (simp add: cut_test_result_set_backtrace_def)

definition carried_backtrace :: "backtrace_entry list \<Rightarrow> backtrace_entry list" where
  "carried_backtrace es = map received_entry (filter entry_written es)"

lemma reads_backtrace:
  assumes p: "in_result p0 r x p" "result_backtrace x = []"
    and es: "\<forall>e \<in> set es. entry_written e \<longrightarrow> readable_entry e"
  obtains q where "reads G i (backtrace_trees es) p q"
    "in_result p0 r (cut_test_result_set_backtrace (carried_backtrace es) x) q" "sp_store q = sp_store p"
proof (cases "es = []")
  case True
  then show ?thesis
    using p by (intro that [of p]) (simp_all add: backtrace_trees_def carried_backtrace_def backtrace_kept)
next
  case False
  let ?p1 = "PUSH_STATE IN_RESULT_BACKTRACE (opened ''backtrace'' p)"
  let ?b = "carried_backtrace es"
  let ?p2 = "?p1\<lparr>sp_backtrace := rev ?b\<rparr>"
  let ?q = "if ?b = [] then p else update_result r (cut_test_result_set_backtrace ?b) p"
  have peek: "PEEK_STATE ?p1 = IN_RESULT_BACKTRACE" "PEEK_STATE ?p2 = IN_RESULT_BACKTRACE"
    by (simp_all add: PEEK_STATE_def PUSH_STATE_def)
  have empty: "sp_backtrace p = []" "sp_backtrace_entry p = None" using p by (simp_all add: in_result_def)
  have inner: "reads G (i + 2) (map (\<lambda>e. Node ''entry'' (entry_trees e)) (filter entry_written es)) ?p1 ?p2"
    using reads_entries [of ?p1 "filter entry_written es" G "i + 2"] peek empty es
    by (simp add: carried_backtrace_def PUSH_STATE_def opened_def)
  let ?p3 = "if ?b = [] then popped ?p2
    else (update_result r (cut_test_result_set_backtrace ?b) (popped ?p2))\<lparr>sp_backtrace := []\<rparr>"
  have stop: "end_in_state IN_RESULT_BACKTRACE (popped ?p2) = Inr ?p3"
    using p(1) by (simp add: end_in_state_def end_result_backtrace_def popped_def PUSH_STATE_def opened_def in_result_def)
  have restored: "closed ?p3 = ?q"
    using empty by (simp add: closed_def popped_def PUSH_STATE_def opened_def update_result_def)
  have "reads G i [Node ''backtrace'' (map (\<lambda>e. Node ''entry'' (entry_trees e)) (filter entry_written es))] p ?q"
  proof (rule reads_Node [OF _ _ inner])
    show "container (PEEK_STATE p)" using p(1) by (simp add: in_result_def)
    show "start_in_state (PEEK_STATE p) ''backtrace'' (opened ''backtrace'' p) = Inr ?p1"
      using p(1) by (simp add: in_result_def start_in_state_def start_result_def)
    show "container (PEEK_STATE ?p2)" unfolding peek by simp
    show "end_in_state (PEEK_STATE ?p2) (popped ?p2) = Inr ?p3" unfolding peek stop ..
    show "reads G i [] (closed ?p3) ?q" unfolding restored by simp
  qed
  moreover have "in_result p0 r (cut_test_result_set_backtrace ?b x) ?q"
    using p in_result_update [OF p(1)] by (simp add: backtrace_kept)
  ultimately show ?thesis
    using False by (intro that [of ?q]) (simp_all add: backtrace_trees_def update_result_def)
qed

text \<open>A leaf whose text updates the result.\<close>

lemma reads_result_leaf:
  assumes p: "in_result p0 r x p"
    and start: "\<And>q. start_result n q = Inr (PUSH_STATE s q)" and stop: "end_in_state s = Inr"
    and reading: "\<And>q. text_in_state G s v q = with_result f q" and v: "v \<noteq> []"
  shows "reads G i [Leaf n v] p (update_result r f p)"
proof (rule reads_plain_leaf [where s = s and f = "update_result r f"])
  show "start_in_state (PEEK_STATE p) n (opened n p) = Inr (PUSH_STATE s (opened n p))"
    using p start by (simp add: in_result_def start_in_state_def)
  show "text_in_state G s v (PUSH_STATE s (opened n p)) = Inr (update_result r f (PUSH_STATE s (opened n p)))"
    using p reading by (simp add: in_result_def with_result_def with_pointer_def PUSH_STATE_def opened_def)
qed (use p stop v in \<open>simp_all add: in_result_def plain_change_def update_result_def\<close>)


section \<open>The objects of a result\<close>

lemma reads_result_child:
  assumes G: "text_tools_ok G" and p: "in_result p0 r x p"
    and start: "\<And>q. start_in_state IN_RESULT (element_name (mt_kind (ms_tests S ! t))) q =
      with_pointer (sp_result q) (\<lambda>r. let (t', q1) = new_test (mt_kind (ms_tests S ! t)) (PUSH_STATE s q)
        in Inr (push t' (update_result r (set_field (Some t')) q1)))"
    and push: "pushes push s" and m: "readable_test (ms_tests S ! t)"
    and s: "mt_kind (ms_tests S ! t) \<in> {Test_Object, Iterated_Test_Object} \<Longrightarrow> s \<in> {IN_TEST, IN_ITERATED_TEST}"
  obtains q t' where "reads G i [test_tree G (ms_tests S ! t)] p q" "in_result p0 r (set_field (Some t') x) q"
    "test_carried G S (sp_store q) t t'" "objects_grow (sp_store p) (sp_store q)"
proof -
  let ?m = "ms_tests S ! t"
  let ?n = "element_name (mt_kind ?m)"
  let ?t = "length (ms_tests (sp_store p))"
  let ?f = "update_result r (set_field (Some ?t))"
  let ?add = "\<lambda>m p. p\<lparr>sp_store := (sp_store p)\<lparr>ms_tests := ms_tests (sp_store p) @ [m]\<rparr>\<rparr>"
  let ?q = "push ?t (?f (?add (received_test G ?m (empty_test (mt_kind ?m))) p))"
  have peek: "PEEK_STATE p = IN_RESULT" using p by (simp add: in_result_def)
  have "reads G i [test_tree G ?m] p ?q"
  proof (rule reads_test [OF G m, where s = s and t = ?t])
    show "start_in_state (PEEK_STATE p) ?n (opened ?n p) =
        Inr (push ?t (?f (?add (empty_test (mt_kind ?m)) (PUSH_STATE s (opened ?n p)))))"
      using p by (simp add: peek start with_pointer_def in_result_def new_test_def PUSH_STATE_def opened_def)
    show "target_test_object s (push ?t (?f (?add (empty_test (mt_kind ?m)) (PUSH_STATE s (opened ?n p))))) = Some ?t"
      using push by (simp add: pushes_frame)
    have same: "update_test ?t (received_test G ?m) (?f (?add (empty_test (mt_kind ?m)) p)) =
        ?f (?add (received_test G ?m (empty_test (mt_kind ?m))) p)"
      by (simp add: update_test_def update_result_def)
    have restored: "(?f (?add (empty_test (mt_kind ?m)) (PUSH_STATE s (opened ?n p))))
        \<lparr>sp_states := sp_states p, sp_element_stack := sp_element_stack p\<rparr> = ?f (?add (empty_test (mt_kind ?m)) p)"
      by (simp add: update_result_def PUSH_STATE_def opened_def)
    show "reads G i [] (update_test ?t (received_test G ?m)
        ((push ?t (?f (?add (empty_test (mt_kind ?m)) (PUSH_STATE s (opened ?n p)))))
          \<lparr>sp_states := sp_states p, sp_element_stack := sp_element_stack p\<rparr>)) ?q"
      unfolding pushes_frame(13,14) [OF push] restored same by simp
  qed (use peek push s p in \<open>simp_all add: pushes_frame in_result_def PUSH_STATE_def opened_def update_result_def\<close>)
  moreover have "in_result p0 r (set_field (Some ?t) x) ?q"
    using p push by (auto simp: in_result_def pushes_frame grows_def objects_grow_def) (auto simp: update_result_def)
  moreover have "test_carried G S (sp_store ?q) t ?t"
    using m push by (simp add: test_carried_def pushes_frame update_result_def received_seen)
  moreover have "objects_grow (sp_store p) (sp_store ?q)"
    using push by (simp add: objects_grow_def pushes_frame update_result_def)
  ultimately show ?thesis by (rule that)
qed

lemma reads_result_option:
  assumes G: "text_tools_ok G" and p: "in_result p0 r x p"
    and start: "\<And>k q. k \<in> K \<Longrightarrow> start_in_state IN_RESULT (element_name k) q =
      with_pointer (sp_result q) (\<lambda>r. let (t', q1) = new_test k (PUSH_STATE s q)
        in Inr (push t' (update_result r (set_field (Some t')) q1)))"
    and push: "pushes push s" and y: "holds_kind K S y"
    and s: "K \<inter> {Test_Object, Iterated_Test_Object} = {} \<or> s = IN_TEST"
    and unset: "set_field None x = x"
  obtains q y' where "reads G i (opt_tree (\<lambda>t. test_tree G (ms_tests S ! t)) y) p q"
    "in_result p0 r (set_field y' x) q" "rel_option (test_carried G S (sp_store q)) y y'"
    "objects_grow (sp_store p) (sp_store q)"
proof (cases y)
  case None
  show ?thesis by (rule that [of p None]) (use None p unset in \<open>simp_all add: opt_tree_def\<close>)
next
  case (Some t)
  have k: "mt_kind (ms_tests S ! t) \<in> K" "readable_test (ms_tests S ! t)"
    using y Some by (simp_all add: holds_kind_def)
  obtain q t' where "reads G i [test_tree G (ms_tests S ! t)] p q" "in_result p0 r (set_field (Some t') x) q"
    "test_carried G S (sp_store q) t t'" "objects_grow (sp_store p) (sp_store q)"
    by (rule reads_result_child [OF G p start [OF k(1)] push k(2)]) (use k s in auto)
  then show ?thesis using Some by (intro that [of q "Some t'"]) (simp_all add: opt_tree_def)
qed

lemma reads_result_data:
  assumes p: "in_result p0 r x p" and unset: "result_test_data x = None"
  obtains q y' where "reads G i (opt_tree (\<lambda>d. data_tree (ms_data S ! d)) y) p q"
    "in_result p0 r (cut_test_result_set_test_data y' x) q" "rel_option (data_carried S (sp_store q)) y y'"
    "objects_grow (sp_store p) (sp_store q)"
proof (cases y)
  case None
  have "cut_test_result_set_test_data None x = x" using unset by (cases x) (simp add: cut_test_result_set_test_data_def)
  then show ?thesis by (intro that [of p None]) (use None p in \<open>simp_all add: opt_tree_def\<close>)
next
  case (Some d)
  let ?d = "length (ms_data (sp_store p))"
  let ?f = "update_result r (cut_test_result_set_test_data (Some ?d))"
  let ?add = "\<lambda>n p. (?f (p\<lparr>sp_store := (sp_store p)\<lparr>ms_data := ms_data (sp_store p) @ [n]\<rparr>\<rparr>))\<lparr>sp_data := ?d # sp_data p\<rparr>"
  let ?name = "nonempty_string (ms_data S ! d)"
  have peek: "PEEK_STATE p = IN_RESULT" using p by (simp add: in_result_def)
  have "reads G i [data_tree (ms_data S ! d)] p (?add ?name p)"
  proof (rule reads_data [where d = ?d])
    show "start_in_state (PEEK_STATE p) ''test-data'' (opened ''test-data'' p) =
        Inr (?add None (PUSH_STATE IN_TEST_DATA (opened ''test-data'' p)))"
      using p by (simp add: peek start_in_state_def start_result_def with_pointer_def in_result_def new_data_def
          PUSH_STATE_def opened_def PUSH_TEST_DATA_def update_result_def)
  qed (use peek in \<open>simp_all add: update_result_def update_data_def PUSH_STATE_def opened_def\<close>)
  moreover have "in_result p0 r (cut_test_result_set_test_data (Some ?d) x) (?add ?name p)"
    using p by (auto simp: in_result_def grows_def objects_grow_def) (auto simp: update_result_def)
  ultimately show ?thesis
    using Some
    by (intro that [of "?add ?name p" "Some ?d"])
       (simp_all add: opt_tree_def update_result_def data_carried_def objects_grow_def)
qed


section \<open>A whole result\<close>

text \<open>The fields of a result besides the objects it refers to, and the fields that are carried.\<close>

type_synonym result_fields =
  "test_status \<times> ustring option \<times> backtrace_entry list \<times> time_val \<times> rat \<times> ustring option \<times> ustring option \<times>
     ustring option \<times> ustring option"

definition fields_seen :: "test_result \<Rightarrow> result_fields" where
  "fields_seen r =
     (result_status r, result_message r, result_backtrace r, result_start_time r, result_elapsed r,
      result_expected r, result_actual r, result_diff r, result_folded_diff r)"

definition sent_backtrace :: "test_result \<Rightarrow> backtrace_entry list" where
  "sent_backtrace r = (if result_status r = SUCCESS then [] else carried_backtrace (result_backtrace r))"

definition fields_sent :: "text_tools \<Rightarrow> diff_tools \<Rightarrow> test_result \<Rightarrow> result_fields" where
  "fields_sent G T r =
     (let (message, diff, folded) = shown_texts T r
      in (result_status r, nonempty_string message, sent_backtrace r, result_start_time r,
          carried G (result_elapsed r), nonempty_string (result_expected r), nonempty_string (result_actual r),
          nonempty_string diff, nonempty_string folded))"

definition result_carried :: "text_tools \<Rightarrow> diff_tools \<Rightarrow> markup_store \<Rightarrow> markup_store \<Rightarrow> test_result \<Rightarrow> test_result \<Rightarrow> bool" where
  "result_carried G T S S' r r' \<longleftrightarrow>
     fields_seen r' = fields_sent G T r \<and>
     rel_option (test_carried G S S') (result_test_case r) (result_test_case r') \<and>
     rel_option (test_carried G S S') (result_test_iterator r) (result_test_iterator r') \<and>
     rel_option (test_carried G S S') (result_test r) (result_test r') \<and>
     rel_option (data_carried S S') (result_test_data r) (result_test_data r')"

definition readable_result :: "markup_store \<Rightarrow> test_result \<Rightarrow> bool" where
  "readable_result S r \<longleftrightarrow>
     holds_kind {Case_Object} S (result_test_case r) \<and> holds_kind {Iterator_Object} S (result_test_iterator r) \<and>
     holds_kind {Test_Object, Iterated_Test_Object} S (result_test r) \<and>
     (result_status r \<noteq> SUCCESS \<longrightarrow> list_all readable_entry (filter entry_written (result_backtrace r))) \<and>
     valid_time (result_start_time r)"

definition received_objects ::
  "object_id option \<Rightarrow> object_id option \<Rightarrow> object_id option \<Rightarrow> object_id option \<Rightarrow> test_result" where
  "received_objects c i t d =
     cut_test_result_set_test_data d (cut_test_result_set_test t (cut_test_result_set_test_iterator i
       (cut_test_result_set_test_case c cut_test_result_new_empty)))"

definition received_fields :: "result_fields \<Rightarrow> test_result \<Rightarrow> test_result" where
  "received_fields f x =
     (case f of (status, message, backtrace, start, elapsed, expected, actual, diff, folded) \<Rightarrow>
        if_text folded (\<lambda>v. cut_test_result_set_folded_diff (Some v))
         (if_text diff (\<lambda>v. cut_test_result_set_diff (Some v))
          (if_text actual (\<lambda>v. cut_test_result_set_actual (Some v))
           (if_text expected (\<lambda>v. cut_test_result_set_expected (Some v))
            (cut_test_result_set_elapsed elapsed (cut_test_result_set_start_time start
             (cut_test_result_set_backtrace backtrace
              (if_text message (\<lambda>v. cut_test_result_set_message (Some v))
               (cut_test_result_set_status status x)))))))))"

lemma nonempty_twice [simp]: "nonempty_string (nonempty_string x) = nonempty_string x"
  by (simp add: nonempty_string_def split: option.splits list.splits)

lemma if_text_nonempty: "if_text (nonempty_string x) f a = if_text x f a"
  by (simp add: if_text_def)

lemma if_text_cases:
  "nonempty_string x = x \<Longrightarrow> if_text x f a = (case x of None \<Rightarrow> a | Some v \<Rightarrow> f v a)"
  by (simp add: if_text_def)

lemma received_fields_seen:
  assumes "nonempty_string message = message" "nonempty_string diff = diff" "nonempty_string folded = folded"
    "nonempty_string expected = expected" "nonempty_string actual = actual"
    and f: "f = (status, message, backtrace, start, elapsed, expected, actual, diff, folded)"
    and y: "y = received_fields f (received_objects c i t d)"
  shows "fields_seen y = f" "result_test_case y = c" "result_test_iterator y = i" "result_test y = t"
    "result_test_data y = d"
  unfolding y f received_fields_def prod.case if_text_cases [OF assms(1)] if_text_cases [OF assms(2)]
    if_text_cases [OF assms(3)] if_text_cases [OF assms(4)] if_text_cases [OF assms(5)]
  using assms(2,3)
  by (cases message; cases diff; cases folded; cases expected; cases actual;
      simp add: fields_seen_def received_objects_def cut_test_result_new_empty_def cut_test_result_new_def
        cut_test_result_init_def cut_test_result_set_user_message_def cut_test_result_set_system_message_def
        reset_message_def reset_diff_def cut_test_result_set_folded_diff_def cut_test_result_set_diff_def
        cut_test_result_set_actual_def cut_test_result_set_expected_def cut_test_result_set_elapsed_def
        cut_test_result_set_start_time_def cut_test_result_set_backtrace_def cut_test_result_set_message_def
        cut_test_result_set_status_def cut_test_result_set_test_data_def cut_test_result_set_test_def
        cut_test_result_set_test_iterator_def cut_test_result_set_test_case_def Let_def)+

lemma reads_result_opt_leaf:
  assumes p: "in_result p0 r x p"
    and start: "\<And>q. start_result n q = Inr (PUSH_STATE s q)" and stop: "end_in_state s = Inr"
    and reading: "\<And>v q. text_in_state G s v q = with_result (f v) q"
  obtains q where "reads G i (opt_leaf n y) p q" "in_result p0 r (if_text y f x) q" "sp_store q = sp_store p"
proof (cases "nonempty_string y")
  case None
  have "reads G i (opt_leaf n y) p p"
  proof (cases y)
    case (Some v)
    then have v: "v = []" using None by (simp add: nonempty_string_def split: list.splits)
    have "reads G i [Leaf n v] p p"
      by (rule reads_plain_leaf [where s = s and f = id])
         (use p start stop v in \<open>simp_all add: in_result_def start_in_state_def plain_change_def\<close>)
    then show ?thesis using Some by (simp add: opt_leaf_def)
  qed (simp add: opt_leaf_def)
  then show ?thesis using None p by (intro that [of p]) (simp_all add: if_text_def)
next
  case (Some v)
  then have y: "y = Some v" "v \<noteq> []" by (auto simp: nonempty_string_def split: option.splits list.splits)
  show ?thesis
    using reads_result_leaf [OF p start stop reading y(2)] in_result_update [OF p] Some y
    by (intro that [of "update_result r (f v) p"]) (simp_all add: opt_leaf_def if_text_def update_result_def)
qed


lemma status_read: "result_name_to_status (ascii (result_status_to_name s)) = Some s" "ascii (result_status_to_name s) \<noteq> []"
  by (cases s; simp add: result_name_to_status_def result_status_to_name_def ascii_def)+

lemma result_starts:
  "start_result ''detail'' q = Inr (PUSH_STATE IN_RESULT_DETAIL q)"
  "start_result ''expected'' q = Inr (PUSH_STATE IN_RESULT_EXPECTED q)"
  "start_result ''actual'' q = Inr (PUSH_STATE IN_RESULT_ACTUAL q)"
  "start_result ''diff'' q = Inr (PUSH_STATE IN_RESULT_DIFF q)"
  "start_result ''folded-diff'' q = Inr (PUSH_STATE IN_RESULT_FOLDED_DIFF q)"
  by (simp_all add: start_result_def)

lemma result_ends:
  "end_in_state IN_RESULT_DETAIL = Inr" "end_in_state IN_RESULT_EXPECTED = Inr" "end_in_state IN_RESULT_ACTUAL = Inr"
  "end_in_state IN_RESULT_DIFF = Inr" "end_in_state IN_RESULT_FOLDED_DIFF = Inr"
  by (simp_all add: leaf_ends)

lemma result_texts:
  "text_in_state G IN_RESULT_DETAIL v q = with_result (cut_test_result_set_message (Some v)) q"
  "text_in_state G IN_RESULT_EXPECTED v q = with_result (cut_test_result_set_expected (Some v)) q"
  "text_in_state G IN_RESULT_ACTUAL v q = with_result (cut_test_result_set_actual (Some v)) q"
  "text_in_state G IN_RESULT_DIFF v q = with_result (cut_test_result_set_diff (Some v)) q"
  "text_in_state G IN_RESULT_FOLDED_DIFF v q = with_result (cut_test_result_set_folded_diff (Some v)) q"
  by (simp_all add: text_in_state_def text_result_detail_def text_result_expected_def text_result_actual_def
      text_result_diff_def text_result_folded_diff_def)

lemma reads_result_texts:
  assumes G: "text_tools_ok G" and p: "in_result p0 r x p" and x: "result_backtrace x = []"
    and m: "readable_result S y" and shown: "shown_texts T y = (message, diff, folded)"
  obtains q where
    "reads G i ([Leaf ''status'' (ascii (result_status_to_name (result_status y)))] @
       opt_leaf ''detail'' message @
       (if result_status y \<noteq> SUCCESS then backtrace_trees (result_backtrace y) else []) @
       [Leaf ''start-time'' (to_iso8601 G (result_start_time y))] @
       [Leaf ''elapsed'' (cut_utils_double_to_string G (result_elapsed y))] @
       opt_leaf ''expected'' (result_expected y) @ opt_leaf ''actual'' (result_actual y) @
       opt_leaf ''diff'' diff @ opt_leaf ''folded-diff'' folded) p q"
    "in_result p0 r (received_fields (fields_sent G T y) x) q" "sp_store q = sp_store p"
proof -
  note texts = text_in_state_def text_result_detail_def text_result_expected_def text_result_actual_def
    text_result_diff_def text_result_folded_diff_def text_result_status_def text_result_start_time_def
    text_result_elapsed_def status_read start_result_def leaf_ends
  have time: "from_iso8601 G (to_iso8601 G (result_start_time y)) = Some (result_start_time y)"
    "to_iso8601 G (result_start_time y) \<noteq> []"
    using G m unfolding text_tools_ok_def readable_result_def by blast+
  define q1 where "q1 = update_result r (cut_test_result_set_status (result_status y)) p"
  let ?x1 = "cut_test_result_set_status (result_status y) x"
  have q1: "in_result p0 r ?x1 q1" unfolding q1_def by (rule in_result_update [OF p])
  have 1: "reads G i [Leaf ''status'' (ascii (result_status_to_name (result_status y)))] p q1"
    unfolding q1_def by (rule reads_result_leaf [OF p, where s = IN_RESULT_STATUS]) (simp_all add: texts)
  obtain q2 where 2: "reads G i (opt_leaf ''detail'' message) q1 q2"
    "in_result p0 r (if_text message (\<lambda>v. cut_test_result_set_message (Some v)) ?x1) q2" "sp_store q2 = sp_store q1"
    by (rule reads_result_opt_leaf [OF q1 result_starts(1) result_ends(1) result_texts(1)])
  let ?x2 = "if_text message (\<lambda>v. cut_test_result_set_message (Some v)) ?x1"
  have x2: "result_backtrace ?x2 = []"
    using x by (simp add: if_text_def cut_test_result_set_message_def cut_test_result_set_status_def split: option.splits)
  let ?x3 = "cut_test_result_set_backtrace (sent_backtrace y) ?x2"
  obtain q3 where 3: "reads G i (if result_status y \<noteq> SUCCESS then backtrace_trees (result_backtrace y) else []) q2 q3"
    "in_result p0 r ?x3 q3" "sp_store q3 = sp_store q2"
  proof (cases "result_status y = SUCCESS")
    case True
    have "?x3 = ?x2" using x2 by (simp only: sent_backtrace_def True simp_thms if_True backtrace_kept)
    then have "in_result p0 r ?x3 q2" using 2(2) by (simp only:)
    moreover have "reads G i (if result_status y \<noteq> SUCCESS then backtrace_trees (result_backtrace y) else []) q2 q2"
      using True by simp
    ultimately show ?thesis using that by blast
  next
    case False
    have "\<forall>e \<in> set (result_backtrace y). entry_written e \<longrightarrow> readable_entry e"
      using m False by (auto simp: readable_result_def list_all_iff)
    then obtain q where "reads G i (backtrace_trees (result_backtrace y)) q2 q"
      "in_result p0 r (cut_test_result_set_backtrace (carried_backtrace (result_backtrace y)) ?x2) q"
      "sp_store q = sp_store q2"
      by (rule reads_backtrace [OF 2(2) x2])
    then show ?thesis using that [of q] False by (simp add: sent_backtrace_def)
  qed
  define q4 where "q4 = update_result r (cut_test_result_set_start_time (result_start_time y)) q3"
  let ?x4 = "cut_test_result_set_start_time (result_start_time y) ?x3"
  have q4: "in_result p0 r ?x4 q4" unfolding q4_def by (rule in_result_update [OF 3(2)])
  have 4: "reads G i [Leaf ''start-time'' (to_iso8601 G (result_start_time y))] q3 q4"
    unfolding q4_def by (rule reads_result_leaf [OF 3(2), where s = IN_RESULT_START_TIME]) (simp_all add: texts time)
  define q5 where "q5 = update_result r (cut_test_result_set_elapsed (carried G (result_elapsed y))) q4"
  let ?x5 = "cut_test_result_set_elapsed (carried G (result_elapsed y)) ?x4"
  have q5: "in_result p0 r ?x5 q5" unfolding q5_def by (rule in_result_update [OF q4])
  have 5: "reads G i [Leaf ''elapsed'' (cut_utils_double_to_string G (result_elapsed y))] q4 q5"
    unfolding q5_def
    by (rule reads_result_leaf [OF q4, where s = IN_RESULT_ELAPSED]) (simp_all add: texts printed_double [OF G])
  obtain q6 where 6: "reads G i (opt_leaf ''expected'' (result_expected y)) q5 q6"
    "in_result p0 r (if_text (result_expected y) (\<lambda>v. cut_test_result_set_expected (Some v)) ?x5) q6"
    "sp_store q6 = sp_store q5"
    by (rule reads_result_opt_leaf [OF q5 result_starts(2) result_ends(2) result_texts(2)])
  let ?x6 = "if_text (result_expected y) (\<lambda>v. cut_test_result_set_expected (Some v)) ?x5"
  obtain q7 where 7: "reads G i (opt_leaf ''actual'' (result_actual y)) q6 q7"
    "in_result p0 r (if_text (result_actual y) (\<lambda>v. cut_test_result_set_actual (Some v)) ?x6) q7"
    "sp_store q7 = sp_store q6"
    by (rule reads_result_opt_leaf [OF 6(2) result_starts(3) result_ends(3) result_texts(3)])
  let ?x7 = "if_text (result_actual y) (\<lambda>v. cut_test_result_set_actual (Some v)) ?x6"
  obtain q8 where 8: "reads G i (opt_leaf ''diff'' diff) q7 q8"
    "in_result p0 r (if_text diff (\<lambda>v. cut_test_result_set_diff (Some v)) ?x7) q8" "sp_store q8 = sp_store q7"
    by (rule reads_result_opt_leaf [OF 7(2) result_starts(4) result_ends(4) result_texts(4)])
  let ?x8 = "if_text diff (\<lambda>v. cut_test_result_set_diff (Some v)) ?x7"
  obtain q9 where 9: "reads G i (opt_leaf ''folded-diff'' folded) q8 q9"
    "in_result p0 r (if_text folded (\<lambda>v. cut_test_result_set_folded_diff (Some v)) ?x8) q9" "sp_store q9 = sp_store q8"
    by (rule reads_result_opt_leaf [OF 8(2) result_starts(5) result_ends(5) result_texts(5)])
  show ?thesis
  proof (rule that)
    show "in_result p0 r (received_fields (fields_sent G T y) x) q9"
      using 9(2) by (simp add: received_fields_def fields_sent_def shown if_text_nonempty)
    show "sp_store q9 = sp_store p"
      using 2(3) 3(3) 6(3) 7(3) 8(3) 9(3) by (simp add: q1_def q4_def q5_def update_result_def)
  qed (intro reads_appendI, (rule 1 2 3 4 5 6 7 8 9)+)
qed


lemma empty_result: "result_backtrace (received_objects c i t d) = []"
  "received_objects None None None None = cut_test_result_new_empty"
  by (simp_all add: received_objects_def cut_test_result_new_empty_def cut_test_result_new_def
      cut_test_result_init_def cut_test_result_set_user_message_def cut_test_result_set_system_message_def
      reset_message_def cut_test_result_set_test_data_def cut_test_result_set_test_def
      cut_test_result_set_test_iterator_def cut_test_result_set_test_case_def)

lemma set_objects:
  "cut_test_result_set_test_case c (received_objects c0 i t d) = received_objects c i t d"
  "cut_test_result_set_test_iterator i (received_objects c i0 t d) = received_objects c i t d"
  "cut_test_result_set_test t (received_objects c i t0 d) = received_objects c i t d"
  "cut_test_result_set_test_data d (received_objects c i t d0) = received_objects c i t d"
  by (simp_all add: received_objects_def cut_test_result_set_test_data_def cut_test_result_set_test_def
      cut_test_result_set_test_iterator_def cut_test_result_set_test_case_def)

lemma sent_texts_nonempty:
  assumes "fields_sent G T r = (status, message, backtrace, start, elapsed, expected, actual, diff, folded)"
  shows "nonempty_string message = message" "nonempty_string diff = diff" "nonempty_string folded = folded"
    "nonempty_string expected = expected" "nonempty_string actual = actual"
  using assms by (auto simp: fields_sent_def split: prod.splits)

lemma received_sent:
  assumes y: "y = received_fields (fields_sent G T r) (received_objects c i t d)"
  shows "fields_seen y = fields_sent G T r" "result_test_case y = c" "result_test_iterator y = i"
    "result_test y = t" "result_test_data y = d"
proof -
  obtain status message backtrace start elapsed expected actual diff folded
    where f: "fields_sent G T r = (status, message, backtrace, start, elapsed, expected, actual, diff, folded)"
    by (metis prod.exhaust)
  note seen = received_fields_seen [OF sent_texts_nonempty [OF f] f y]
  show "fields_seen y = fields_sent G T r" "result_test_case y = c" "result_test_iterator y = i"
    "result_test y = t" "result_test_data y = d"
    by (rule seen)+
qed

lemma reads_result:
  assumes G: "text_tools_ok G" and "container (PEEK_STATE p)"
    and start: "start_in_state (PEEK_STATE p) ''result'' (opened ''result'' p) = Inr p1"
    and p1: "in_result p0 r cut_test_result_new_empty p1" and m: "readable_result S y"
  obtains q y' where "reads G i [result_tree G T S y] p q" "framed (closed (popped p0)) q"
    "sp_results q = sp_results p0 @ [y']" "result_carried G T S (sp_store q) y y'"
    "grows (sp_store p0) (sp_store q)" "sp_results_emitted q = sp_results_emitted p0 @ [y']"
proof -
  have kinds: "holds_kind {Case_Object} S (result_test_case y)" "holds_kind {Iterator_Object} S (result_test_iterator y)"
    "holds_kind {Test_Object, Iterated_Test_Object} S (result_test y)"
    using m by (simp_all add: readable_result_def)
  note starting = start_in_state_def start_result_def set_objects
  have 0: "in_result p0 r (received_objects None None None None) p1" using p1 by (simp add: empty_result)
  obtain q1 c where 1: "reads G (i + 2) (opt_tree (\<lambda>t. test_tree G (ms_tests S ! t)) (result_test_case y)) p1 q1"
    "in_result p0 r (cut_test_result_set_test_case c (received_objects None None None None)) q1"
    "rel_option (test_carried G S (sp_store q1)) (result_test_case y) c" "objects_grow (sp_store p1) (sp_store q1)"
    by (rule reads_result_option [OF G 0, where K = "{Case_Object}" and push = PUSH_TEST_CASE
          and set_field = cut_test_result_set_test_case and s = IN_TEST_CASE])
       (auto simp: kinds starting with_pointer_def)
  obtain q2 j where 2: "reads G (i + 2) (opt_tree (\<lambda>t. test_tree G (ms_tests S ! t)) (result_test_iterator y)) q1 q2"
    "in_result p0 r (cut_test_result_set_test_iterator j (received_objects c None None None)) q2"
    "rel_option (test_carried G S (sp_store q2)) (result_test_iterator y) j" "objects_grow (sp_store q1) (sp_store q2)"
    by (rule reads_result_option [OF G 1(2) [unfolded set_objects], where K = "{Iterator_Object}"
          and push = PUSH_TEST_ITERATOR and set_field = cut_test_result_set_test_iterator and s = IN_TEST_ITERATOR])
       (auto simp: kinds starting with_pointer_def)
  obtain q3 t where 3: "reads G (i + 2) (opt_tree (\<lambda>t. test_tree G (ms_tests S ! t)) (result_test y)) q2 q3"
    "in_result p0 r (cut_test_result_set_test t (received_objects c j None None)) q3"
    "rel_option (test_carried G S (sp_store q3)) (result_test y) t" "objects_grow (sp_store q2) (sp_store q3)"
    by (rule reads_result_option [OF G 2(2) [unfolded set_objects], where K = "{Test_Object, Iterated_Test_Object}"
          and push = PUSH_TEST and set_field = cut_test_result_set_test and s = IN_TEST])
       (auto simp: kinds starting with_pointer_def)
  have unset: "result_test_data (received_objects c j t None) = None"
    by (simp add: received_objects_def cut_test_result_set_test_data_def)
  obtain q4 d where 4: "reads G (i + 2) (opt_tree (\<lambda>d. data_tree (ms_data S ! d)) (result_test_data y)) q3 q4"
    "in_result p0 r (cut_test_result_set_test_data d (received_objects c j t None)) q4"
    "rel_option (data_carried S (sp_store q4)) (result_test_data y) d" "objects_grow (sp_store q3) (sp_store q4)"
    by (rule reads_result_data [OF 3(2) [unfolded set_objects] unset])
  obtain message diff folded where shown: "shown_texts T y = (message, diff, folded)"
    by (cases "shown_texts T y")
  let ?y = "received_fields (fields_sent G T y) (received_objects c j t d)"
  obtain q5 where 5: "reads G (i + 2) ([Leaf ''status'' (ascii (result_status_to_name (result_status y)))] @
       opt_leaf ''detail'' message @
       (if result_status y \<noteq> SUCCESS then backtrace_trees (result_backtrace y) else []) @
       [Leaf ''start-time'' (to_iso8601 G (result_start_time y))] @
       [Leaf ''elapsed'' (cut_utils_double_to_string G (result_elapsed y))] @
       opt_leaf ''expected'' (result_expected y) @ opt_leaf ''actual'' (result_actual y) @
       opt_leaf ''diff'' diff @ opt_leaf ''folded-diff'' folded) q4 q5"
    "in_result p0 r ?y q5" "sp_store q5 = sp_store q4"
    by (rule reads_result_texts [OF G 4(2) [unfolded set_objects] empty_result(1) m shown])
  have inner: "reads G (i + 2) (result_trees G T S y) p1 q5"
    unfolding result_trees_def Let_def shown prod.case
    by (intro reads_appendI [OF 1(1)] reads_appendI [OF 2(1)] reads_appendI [OF 3(1)] reads_appendI [OF 4(1)])
       (use 5(1) in simp)
  let ?q = "(closed (popped q5))\<lparr>sp_results_emitted := sp_results_emitted p0 @ [?y]\<rparr>"
  have "reads G i [result_tree G T S y] p ?q"
    unfolding result_tree_def
  proof (rule reads_Node [OF assms(2) start inner])
    show "container (PEEK_STATE q5)" using 5(2) by (simp add: in_result_def)
    show "end_in_state (PEEK_STATE q5) (popped q5) =
        Inr ((popped q5)\<lparr>sp_results_emitted := sp_results_emitted p0 @ [?y]\<rparr>)"
      using 5(2) by (simp add: in_result_def end_in_state_def end_result_def popped_def nth_append)
    show "reads G i [] (closed ((popped q5)\<lparr>sp_results_emitted := sp_results_emitted p0 @ [?y]\<rparr>)) ?q"
      by (simp add: closed_def)
  qed
  moreover have "framed (closed (popped p0)) ?q"
  proof -
    have "framed (closed (popped p0)) (closed (popped q5))"
      using 5(2) by (intro framed_back) (simp add: in_result_def)
    then show ?thesis by (simp add: framed_def)
  qed
  moreover have "sp_results ?q = sp_results p0 @ [?y]" "grows (sp_store p0) (sp_store ?q)"
    using 5(2) by (auto simp: in_result_def closed_def popped_def)
  moreover have carried: "result_carried G T S (sp_store ?q) y ?y"
  proof -
    have g3: "objects_grow (sp_store q3) (sp_store q5)" using 4(4) by (simp add: 5(3))
    have g2: "objects_grow (sp_store q2) (sp_store q5)" using 3(4) g3 by (rule objects_grow_trans)
    have g1: "objects_grow (sp_store q1) (sp_store q5)" using 2(4) g2 by (rule objects_grow_trans)
    show ?thesis
      using tests_carried_mono [OF 1(3) g1] tests_carried_mono [OF 2(3) g2] tests_carried_mono [OF 3(3) g3]
        4(3) [folded 5(3)]
      by (simp add: result_carried_def received_sent [OF refl] closed_def popped_def)
  qed
  moreover have "sp_results_emitted ?q = sp_results_emitted p0 @ [?y]" by simp
  ultimately show ?thesis by (intro that)
qed

end
