(* ===== verification/Stream_Signals.thy ===== *)
theory Stream_Signals
  imports Stream_Results
begin

text \<open>
  The parser reads the element of a signal: between two elements it is idle, and each element makes it
  emit the signal that was written. The views of a signal on both sides are equal.
\<close>

section \<open>Views of signals\<close>

type_synonym context_view =
  "test_view option \<times> test_view option \<times> test_view option \<times> test_view option \<times> ustring option option \<times> bool"

type_synonym result_view =
  "result_fields \<times> test_view option \<times> test_view option \<times> test_view option \<times> ustring option option"

datatype signal_view =
  Signal_View (view_name: string) (view_test: "test_view option") (view_context: "context_view option")
    (view_result: "result_view option") (view_numbers: "nat list") (view_success: "bool option")

definition show_context ::
  "(object_id \<Rightarrow> test_view) \<Rightarrow> (object_id \<Rightarrow> ustring option) \<Rightarrow> markup_context \<Rightarrow> context_view" where
  "show_context tv dv mc =
     (map_option tv (mc_suite mc), map_option tv (mc_case mc), map_option tv (mc_iterator mc),
      map_option tv (mc_test mc), map_option dv (mc_data mc), mc_failed mc)"

definition show_result ::
  "(object_id \<Rightarrow> test_view) \<Rightarrow> (object_id \<Rightarrow> ustring option) \<Rightarrow> (test_result \<Rightarrow> result_fields) \<Rightarrow> test_result \<Rightarrow>
     result_view" where
  "show_result tv dv fv r =
     (fv r, map_option tv (result_test_case r), map_option tv (result_test_iterator r),
      map_option tv (result_test r), map_option dv (result_test_data r))"

fun show_signal ::
  "(object_id \<Rightarrow> test_view) \<Rightarrow> (object_id \<Rightarrow> context_view) \<Rightarrow> (test_result \<Rightarrow> result_view) \<Rightarrow> run_signal \<Rightarrow> signal_view" where
  "show_signal tv cv rv (Ready_Test_Suite s n m) = Signal_View ''ready-test-suite'' (Some (tv s)) None None [n, m] None"
| "show_signal tv cv rv (Start_Test_Suite s) = Signal_View ''start-test-suite'' (Some (tv s)) None None [] None"
| "show_signal tv cv rv (Ready_Test_Case k n) = Signal_View ''ready-test-case'' (Some (tv k)) None None [n] None"
| "show_signal tv cv rv (Start_Test_Case k) = Signal_View ''start-test-case'' (Some (tv k)) None None [] None"
| "show_signal tv cv rv (Ready_Test_Iterator i n) = Signal_View ''ready-test-iterator'' (Some (tv i)) None None [n] None"
| "show_signal tv cv rv (Start_Test_Iterator i) = Signal_View ''start-test-iterator'' (Some (tv i)) None None [] None"
| "show_signal tv cv rv (Start_Test t c) = Signal_View ''start-test'' (Some (tv t)) (map_option cv c) None [] None"
| "show_signal tv cv rv (Start_Iterated_Test t c) =
     Signal_View ''start-iterated-test'' (Some (tv t)) (map_option cv c) None [] None"
| "show_signal tv cv rv (Pass_Assertion t c) = Signal_View ''pass-assertion'' (Some (tv t)) (map_option cv c) None [] None"
| "show_signal tv cv rv (Status_Test s t c r) =
     Signal_View ''test-result'' (Some (tv t)) (map_option cv c) (Some (rv r)) [severity s] None"
| "show_signal tv cv rv (Status_Test_Iterator s i r) =
     Signal_View ''test-iterator-result'' (Some (tv i)) None (Some (rv r)) [severity s] None"
| "show_signal tv cv rv (Status_Test_Case s k r) =
     Signal_View ''test-case-result'' (Some (tv k)) None (Some (rv r)) [severity s] None"
| "show_signal tv cv rv (Complete_Test t c b) =
     Signal_View ''complete-test'' (Some (tv t)) (map_option cv c) None [] (Some b)"
| "show_signal tv cv rv (Complete_Iterated_Test t c b) =
     Signal_View ''complete-iterated-test'' (Some (tv t)) (map_option cv c) None [] (Some b)"
| "show_signal tv cv rv (Complete_Test_Iterator i b) =
     Signal_View ''complete-test-iterator'' (Some (tv i)) None None [] (Some b)"
| "show_signal tv cv rv (Complete_Test_Case k b) =
     Signal_View ''complete-test-case'' (Some (tv k)) None None [] (Some b)"
| "show_signal tv cv rv (Complete_Test_Suite s b) =
     Signal_View ''complete-test-suite'' (Some (tv s)) None None [] (Some b)"
| "show_signal tv cv rv Start_Run = Signal_View ''stream'' None None None [] None"
| "show_signal tv cv rv (Complete_Run b) = Signal_View ''success'' None None None [] (Some b)"
| "show_signal tv cv rv (Status_In_Test_Case s k r) =
     Signal_View ''in-test-case'' (Some (tv k)) None (Some (rv r)) [severity s] None"
| "show_signal tv cv rv (Crash_Test_Suite s r) = Signal_View ''crash-test-suite'' (Some (tv s)) None (Some (rv r)) [] None"
| "show_signal tv cv rv (Error_Signal m) = Signal_View ''error'' None None None [] None"

text \<open>What the run context of the parser is told, and what was written.\<close>

definition signal_seen :: "markup_store \<times> run_signal \<Rightarrow> signal_view" where
  "signal_seen moment =
     (let S = fst moment; tv = (\<lambda>t. test_seen (ms_tests S ! t)); dv = (\<lambda>d. ms_data S ! d)
      in show_signal tv (\<lambda>c. show_context tv dv (ms_contexts S ! c)) (show_result tv dv fields_seen) (snd moment))"

definition signal_sent :: "text_tools \<Rightarrow> diff_tools \<Rightarrow> markup_store \<times> run_signal \<Rightarrow> signal_view" where
  "signal_sent G T moment =
     (let S = fst moment; tv = (\<lambda>t. test_sent G (ms_tests S ! t)); dv = (\<lambda>d. nonempty_string (ms_data S ! d))
      in show_signal tv (\<lambda>c. show_context tv dv (ms_contexts S ! c)) (show_result tv dv (fields_sent G T))
           (snd moment))"

lemma tests_carried_views:
  "rel_option (test_carried G S S') x x' \<Longrightarrow>
   map_option (\<lambda>t. test_seen (ms_tests S' ! t)) x' = map_option (\<lambda>t. test_sent G (ms_tests S ! t)) x"
  by (cases x; cases x') (simp_all add: test_carried_def)

lemma data_carried_views:
  "rel_option (data_carried S S') x x' \<Longrightarrow>
   map_option (\<lambda>d. ms_data S' ! d) x' = map_option (\<lambda>d. nonempty_string (ms_data S ! d)) x"
  by (cases x; cases x') (simp_all add: data_carried_def)

lemma context_carried_views:
  "context_carried G S S' mc mc' \<Longrightarrow>
   show_context (\<lambda>t. test_seen (ms_tests S' ! t)) (\<lambda>d. ms_data S' ! d) mc' =
   show_context (\<lambda>t. test_sent G (ms_tests S ! t)) (\<lambda>d. nonempty_string (ms_data S ! d)) mc"
  by (auto simp: context_carried_def show_context_def dest!: tests_carried_views data_carried_views)

lemma result_carried_views:
  "result_carried G T S S' r r' \<Longrightarrow>
   show_result (\<lambda>t. test_seen (ms_tests S' ! t)) (\<lambda>d. ms_data S' ! d) fields_seen r' =
   show_result (\<lambda>t. test_sent G (ms_tests S ! t)) (\<lambda>d. nonempty_string (ms_data S ! d)) (fields_sent G T) r"
  by (auto simp: result_carried_def show_result_def dest!: tests_carried_views data_carried_views)

section \<open>Signals that can be carried\<close>

abbreviation is_object :: "test_kind set \<Rightarrow> markup_store \<Rightarrow> object_id \<Rightarrow> bool" where
  "is_object K S t \<equiv> holds_kind K S (Some t)"

definition given_context :: "markup_store \<Rightarrow> object_id option \<Rightarrow> bool" where
  "given_context S c \<longleftrightarrow> c \<noteq> None \<and> pred_option (\<lambda>c. readable_context S (ms_contexts S ! c)) c"

text \<open>Every object is of the kind its signal is about, every text can be read back, and the numbers
  fit in a signed integer.\<close>

fun readable_signal :: "markup_store \<Rightarrow> run_signal \<Rightarrow> bool" where
  "readable_signal S (Ready_Test_Suite s n m) = (is_object {Suite_Object} S s \<and> n < 2147483648 \<and> m < 2147483648)"
| "readable_signal S (Start_Test_Suite s) = is_object {Suite_Object} S s"
| "readable_signal S (Ready_Test_Case k n) = (is_object {Case_Object} S k \<and> n < 2147483648)"
| "readable_signal S (Start_Test_Case k) = is_object {Case_Object} S k"
| "readable_signal S (Ready_Test_Iterator i n) = (is_object {Iterator_Object} S i \<and> n < 2147483648)"
| "readable_signal S (Start_Test_Iterator i) = is_object {Iterator_Object} S i"
| "readable_signal S (Start_Test t c) = (is_object {Test_Object} S t \<and> given_context S c)"
| "readable_signal S (Start_Iterated_Test t c) = (is_object {Iterated_Test_Object} S t \<and> given_context S c)"
| "readable_signal S (Pass_Assertion t c) =
     (is_object {Test_Object, Iterated_Test_Object} S t \<and> given_context S c)"
| "readable_signal S (Status_Test s t c r) =
     (is_object {Test_Object, Iterated_Test_Object} S t \<and> given_context S c \<and> readable_result S r \<and>
      s = result_status r)"
| "readable_signal S (Status_Test_Iterator s i r) =
     (is_object {Iterator_Object} S i \<and> readable_result S r \<and> s = result_status r)"
| "readable_signal S (Status_Test_Case s k r) =
     (is_object {Case_Object} S k \<and> readable_result S r \<and> s = result_status r)"
| "readable_signal S (Complete_Test t c b) =
     (is_object {Test_Object} S t \<and> pred_option (\<lambda>c. readable_context S (ms_contexts S ! c)) c)"
| "readable_signal S (Complete_Iterated_Test t c b) = (is_object {Iterated_Test_Object} S t \<and> given_context S c)"
| "readable_signal S (Complete_Test_Iterator i b) = is_object {Iterator_Object} S i"
| "readable_signal S (Complete_Test_Case k b) = is_object {Case_Object} S k"
| "readable_signal S (Complete_Test_Suite s b) = is_object {Suite_Object} S s"
| "readable_signal S sig = True"

section \<open>Reading a signal\<close>

definition idle :: "stream_parser \<Rightarrow> bool" where
  "idle p \<longleftrightarrow>
     sp_states p = [IN_STREAM, IN_TOP_LEVEL] \<and> sp_element_stack p = [''stream''] \<and>
     sp_option_name p = None \<and> sp_option_value p = None \<and> sp_backtrace p = [] \<and>
     sp_backtrace_entry p = None \<and> sp_run_context p \<noteq> None"

text \<open>One more signal was emitted, in the store it refers to.\<close>

definition emits :: "stream_parser \<Rightarrow> stream_parser \<Rightarrow> signal_view \<Rightarrow> bool" where
  "emits p q v \<longleftrightarrow> idle q \<and> (\<exists>moment. sp_emitted q = sp_emitted p @ [moment] \<and> signal_seen moment = v)"

abbreviation stored :: "markup_test \<Rightarrow> stream_parser \<Rightarrow> stream_parser" where
  "stored m p \<equiv> p\<lparr>sp_store := (sp_store p)\<lparr>ms_tests := ms_tests (sp_store p) @ [m]\<rparr>\<rparr>"

abbreviation next_test :: "stream_parser \<Rightarrow> object_id" where
  "next_test p \<equiv> length (ms_tests (sp_store p))"

text \<open>A function that changes none of the fields that reading a test is about.\<close>

definition field_change :: "(stream_parser \<Rightarrow> stream_parser) \<Rightarrow> bool" where
  "field_change h \<longleftrightarrow>
     (\<forall>q. sp_store (h q) = sp_store q \<and> sp_states (h q) = sp_states q \<and>
        sp_element_stack (h q) = sp_element_stack q \<and> sp_option_name (h q) = sp_option_name q \<and>
        sp_option_value (h q) = sp_option_value q \<and>
        (\<forall>S. (h q)\<lparr>sp_store := S\<rparr> = h (q\<lparr>sp_store := S\<rparr>)) \<and>
        (\<forall>ss es. (h q)\<lparr>sp_states := ss, sp_element_stack := es\<rparr> = h (q\<lparr>sp_states := ss, sp_element_stack := es\<rparr>)))"

lemma reads_child:
  assumes G: "text_tools_ok G" and m: "readable_test m" and "container (PEEK_STATE p)"
    and start: "start_in_state (PEEK_STATE p) (element_name (mt_kind m)) (opened (element_name (mt_kind m)) p) =
      Inr (push (next_test p) (h (stored (empty_test (mt_kind m)) (PUSH_STATE s (opened (element_name (mt_kind m)) p)))))"
    and push: "pushes push s" and h: "field_change h"
    and s: "mt_kind m \<in> {Test_Object, Iterated_Test_Object} \<Longrightarrow> s \<in> {IN_TEST, IN_ITERATED_TEST}"
    and free: "sp_option_name p = None" "sp_option_value p = None"
  shows "reads G i [test_tree G m] p
    (push (next_test p) (h (stored (received_test G m (empty_test (mt_kind m))) p)))"
proof -
  let ?n = "element_name (mt_kind m)"
  let ?t = "next_test p"
  have h_frame: "sp_store (h q) = sp_store q" "sp_states (h q) = sp_states q"
    "sp_element_stack (h q) = sp_element_stack q" "sp_option_name (h q) = sp_option_name q"
    "sp_option_value (h q) = sp_option_value q" "(h q)\<lparr>sp_store := S\<rparr> = h (q\<lparr>sp_store := S\<rparr>)"
    "(h q)\<lparr>sp_states := ss, sp_element_stack := es\<rparr> = h (q\<lparr>sp_states := ss, sp_element_stack := es\<rparr>)" for q S ss es
    using h by (simp_all add: field_change_def)
  have same: "update_test ?t (received_test G m) (h (stored (empty_test (mt_kind m)) p)) =
      h (stored (received_test G m (empty_test (mt_kind m))) p)"
    by (simp add: update_test_def h_frame)
  have restored: "(h (stored (empty_test (mt_kind m)) (PUSH_STATE s (opened ?n p))))
      \<lparr>sp_states := sp_states p, sp_element_stack := sp_element_stack p\<rparr> = h (stored (empty_test (mt_kind m)) p)"
    by (simp add: h_frame PUSH_STATE_def opened_def)
  show ?thesis
  proof (rule reads_test [OF G m assms(3) start, where s = s and t = ?t])
    show "reads G i [] (update_test ?t (received_test G m)
        ((push ?t (h (stored (empty_test (mt_kind m)) (PUSH_STATE s (opened ?n p)))))
          \<lparr>sp_states := sp_states p, sp_element_stack := sp_element_stack p\<rparr>))
        (push ?t (h (stored (received_test G m (empty_test (mt_kind m))) p)))"
      unfolding pushes_frame(13,14) [OF push] restored same by simp
  qed (use push s free in \<open>simp_all add: pushes_frame h_frame PUSH_STATE_def opened_def\<close>)
qed


lemma opened_fields [simp]:
  "sp_store (opened n q) = sp_store q" "sp_states (opened n q) = sp_states q"
  "sp_element_stack (opened n q) = sp_element_stack q @ [n]" "sp_option_name (opened n q) = sp_option_name q"
  "sp_option_value (opened n q) = sp_option_value q" "sp_run_context (opened n q) = sp_run_context q"
  "sp_emitted (opened n q) = sp_emitted q" "sp_complete_success (opened n q) = sp_complete_success q"
  by (simp_all add: opened_def)

lemma received_view:
  "readable_test m \<Longrightarrow> test_seen (received_test G m (empty_test (mt_kind m))) = test_sent G m"
  by (rule received_seen)

lemma field_changes [simp]:
  "field_change (\<lambda>q. q)" "field_change (\<lambda>q. q\<lparr>sp_ready_suite := i\<rparr>)" "field_change (\<lambda>q. q\<lparr>sp_ready_case := i\<rparr>)"
  "field_change (\<lambda>q. q\<lparr>sp_ready_iterator := i\<rparr>)" "field_change (\<lambda>q. q\<lparr>sp_start_test := k\<rparr>)"
  "field_change (\<lambda>q. q\<lparr>sp_start_iterated_test := k\<rparr>)" "field_change (\<lambda>q. q\<lparr>sp_pass_assertion := k\<rparr>)"
  "field_change (\<lambda>q. q\<lparr>sp_complete_test := k\<rparr>)" "field_change (\<lambda>q. q\<lparr>sp_complete_iterated_test := k\<rparr>)"
  "field_change (\<lambda>q. q\<lparr>sp_test_result := r\<rparr>)" "field_change (\<lambda>q. q\<lparr>sp_iterator_result := r\<rparr>)"
  "field_change (\<lambda>q. q\<lparr>sp_case_result := r\<rparr>)"
  by (simp_all add: field_change_def)

lemma idle_peek: "idle p \<Longrightarrow> PEEK_STATE p = IN_STREAM"
  by (simp add: idle_def PEEK_STATE_def)

lemma reads_signal:
  assumes "idle p" and start: "start_stream n (opened n p) = Inr p1" and inner: "reads G 4 ts p1 p2"
    and "container (PEEK_STATE p2)" "end_in_state (PEEK_STATE p2) (popped p2) = Inr p3"
  shows "reads G 2 [Node n ts] p (closed p3)"
proof (rule reads_Node)
  show "start_in_state (PEEK_STATE p) n (opened n p) = Inr p1"
    using assms(1) start by (simp add: idle_peek start_in_state_def)
  show "reads G (2 + 2) ts p1 p2" using inner by simp
qed (use assms in \<open>simp_all add: idle_peek\<close>)

lemma pushes_popped:
  assumes "pushes push s"
  shows "popped (push t q) = push t (popped q)" "closed (push t q) = push t (closed q)"
    "sp_run_context (push t q) = sp_run_context q" "sp_emitted (push t q) = sp_emitted q"
    "emit_signal sig (push t q) = push t (emit_signal sig q)"
  using assms unfolding pushes_def
  by (elim insertE emptyE; simp add: popped_def closed_def emit_signal_def PUSH_TEST_SUITE_def PUSH_TEST_CASE_def
      PUSH_TEST_ITERATOR_def PUSH_TEST_def split: option.split)+

lemma push_new_eq: "push_new push k s q = push (next_test q) (stored (empty_test k) (PUSH_STATE s q))"
  by (simp add: push_new_def new_test_def PUSH_STATE_def)

lemma peek_pushed [simp]: "PEEK_STATE (PUSH_STATE s q) = s"
  by (simp add: PEEK_STATE_def PUSH_STATE_def)

lemma idle_push: "pushes push s \<Longrightarrow> idle (push t q) = idle q"
  by (simp add: idle_def pushes_frame pushes_popped)

lemma idle_emit: "idle (emit_signal sig q) = idle q"
  by (simp add: idle_def emit_signal_def split: option.split)

lemma emit_fields [simp]:
  "sp_states (emit_signal sig q) = sp_states q" "sp_element_stack (emit_signal sig q) = sp_element_stack q"
  "sp_store (emit_signal sig q) = sp_store q"
  "sp_run_context q \<noteq> None \<Longrightarrow> sp_emitted (emit_signal sig q) = sp_emitted q @ [(sp_store q, sig)]"
  by (auto simp: emit_signal_def split: option.split)

text \<open>The start of a suite, a test case and an iterator: the object is on top of its queue.\<close>

lemma reads_start_object:
  assumes G: "text_tools_ok G" and p: "idle p" and m: "is_object {k} S t" and push: "pushes push s2"
    and kind: "k \<notin> {Test_Object, Iterated_Test_Object}"
    and start: "\<And>q. start_stream n q = Inr (push_new push k s1 q)"
    and inside: "\<And>q. start_in_state s1 (element_name k) q = Inr (push_new push k s2 q)" and s1: "container s1"
    and stop: "\<And>q t. end_in_state s1 (push t q) = Inr (emit_signal (sig t) q)"
    and view: "\<And>tv cv rv t. show_signal tv cv rv (sig t) = Signal_View n (Some (tv t)) None None [] None"
  shows "\<exists>q. reads G 2 [Node n [stored_test_tree G S t]] p q \<and> emits p q (signal_sent G T (S, sig t))"
proof -
  let ?m = "ms_tests S ! t"
  have m: "readable_test ?m" "mt_kind ?m = k" using m by (simp_all add: holds_kind_def)
  let ?p1 = "push_new push k s1 (opened n p)"
  let ?r = "received_test G ?m (empty_test k)"
  let ?t = "next_test ?p1"
  let ?p2 = "push ?t (stored ?r ?p1)"
  have peek: "PEEK_STATE ?p1 = s1" "PEEK_STATE ?p2 = s1"
    using push by (simp_all add: push_new_eq pushes_frame)
  have free: "sp_option_name ?p1 = None" "sp_option_value ?p1 = None"
    using p push by (simp_all add: push_new_eq pushes_frame idle_def PUSH_STATE_def opened_def)
  have child: "reads G 4 [test_tree G ?m] ?p1 ?p2"
    using reads_child [OF G m(1), of ?p1 push "\<lambda>q. q" s2 4] peek inside s1 push free kind
    by (simp add: m(2) push_new_eq [of push k s2])
  let ?p3 = "emit_signal (sig ?t) (popped (stored ?r ?p1))"
  have "reads G 2 [Node n [test_tree G ?m]] p (closed ?p3)"
    by (rule reads_signal [OF p start child]) (simp_all add: peek s1 pushes_popped [OF push] stop)
  moreover have "emits p (closed ?p3) (signal_sent G T (S, sig t))"
    unfolding emits_def
  proof (intro conjI exI)
    show "idle (closed ?p3)"
      using p push by (simp add: idle_def closed_def popped_def push_new_eq pushes_frame pushes_popped PUSH_STATE_def
          opened_def emit_signal_def split: option.split)
    show "sp_emitted (closed ?p3) = sp_emitted p @ [(sp_store (stored ?r ?p1), sig ?t)]"
      using p push by (auto simp: closed_def popped_def push_new_eq pushes_frame pushes_popped PUSH_STATE_def
          opened_def idle_def)
    show "signal_seen (sp_store (stored ?r ?p1), sig ?t) = signal_sent G T (S, sig t)"
      using received_view [OF m(1), of G] by (simp add: signal_seen_def signal_sent_def view m(2))
  qed
  ultimately show ?thesis by (auto simp: stored_test_tree_def)
qed


text \<open>Inside the element of a signal.\<close>

definition in_signal :: "stream_parser \<Rightarrow> string \<Rightarrow> parse_state \<Rightarrow> stream_parser \<Rightarrow> bool" where
  "in_signal p n s q \<longleftrightarrow>
     sp_states q = s # sp_states p \<and> sp_element_stack q = sp_element_stack p @ [n] \<and>
     sp_option_name q = sp_option_name p \<and> sp_option_value q = sp_option_value p \<and>
     sp_backtrace q = sp_backtrace p \<and> sp_backtrace_entry q = sp_backtrace_entry p \<and>
     sp_run_context q = sp_run_context p \<and> sp_emitted q = sp_emitted p"

definition settled :: "stream_parser \<Rightarrow> stream_parser \<Rightarrow> bool" where
  "settled p q \<longleftrightarrow>
     sp_states q = sp_states p \<and> sp_element_stack q = sp_element_stack p \<and>
     sp_option_name q = sp_option_name p \<and> sp_option_value q = sp_option_value p \<and>
     sp_backtrace q = sp_backtrace p \<and> sp_backtrace_entry q = sp_backtrace_entry p \<and>
     sp_run_context q = sp_run_context p \<and> sp_emitted q = sp_emitted p"

lemma in_signal_peek: "in_signal p n s q \<Longrightarrow> PEEK_STATE q = s"
  by (simp add: in_signal_def PEEK_STATE_def)

lemma in_signal_framed: "in_signal p n s q \<Longrightarrow> framed q r \<Longrightarrow> in_signal p n s r"
  by (simp add: in_signal_def framed_def)

lemma in_signal_idle:
  "in_signal p n s q \<Longrightarrow> idle p \<Longrightarrow> sp_option_name q = None \<and> sp_option_value q = None \<and>
     sp_backtrace q = [] \<and> sp_backtrace_entry q = None \<and> sp_run_context q \<noteq> None"
  by (simp add: in_signal_def idle_def)

lemma in_signal_success: "in_signal p n s q \<Longrightarrow> in_signal p n s (q\<lparr>sp_complete_success := b, sp_stream_success := d\<rparr>)"
  by (simp add: in_signal_def)

lemma emits_end:
  assumes p: "idle p" and q: "in_signal p n s q" and r: "settled (emit_signal sig (popped q)) r"
    and v: "signal_seen (sp_store q, sig) = v"
  shows "emits p (closed r) v"
proof -
  have rc: "sp_run_context (popped q) \<noteq> None" using p q by (simp add: in_signal_def idle_def popped_def)
  have "idle (closed r)"
    using p q r by (simp add: idle_def in_signal_def settled_def closed_def popped_def emit_signal_def split: option.splits)
  moreover have "sp_emitted (closed r) = sp_emitted p @ [(sp_store q, sig)]"
    using r q rc by (simp add: settled_def closed_def) (simp add: in_signal_def popped_def)
  ultimately show ?thesis using v by (auto simp: emits_def)
qed

definition success_trees :: "bool option \<Rightarrow> xml_tree list" where
  "success_trees x = (case x of None \<Rightarrow> [] | Some b \<Rightarrow> [success_leaf b])"

definition success_set :: "bool option \<Rightarrow> stream_parser \<Rightarrow> stream_parser" where
  "success_set x q = (case x of None \<Rightarrow> q | Some b \<Rightarrow> q\<lparr>sp_complete_success := b, sp_stream_success := b\<rparr>)"

lemma reads_success:
  assumes "container (PEEK_STATE p)"
    and start: "x \<noteq> None \<Longrightarrow> start_in_state (PEEK_STATE p) ''success'' (opened ''success'' p) =
      Inr (PUSH_STATE IN_COMPLETE_SUCCESS (opened ''success'' p))"
  shows "reads G i (success_trees x) p (success_set x p)"
proof (cases x)
  case (Some b)
  let ?f = "\<lambda>q. q\<lparr>sp_complete_success := b, sp_stream_success := b\<rparr>"
  have "reads G i [success_leaf b] p (?f p)"
  proof (rule reads_plain_leaf [OF assms(1) start, where f = ?f])
    show "text_in_state G IN_COMPLETE_SUCCESS (boolean_text b) (PUSH_STATE IN_COMPLETE_SUCCESS (opened ''success'' p)) =
        Inr (?f (PUSH_STATE IN_COMPLETE_SUCCESS (opened ''success'' p)))"
      using boolean_read [of b]
      by (simp add: text_in_state_def then_step_def text_complete_success_def text_stream_success_def boolean_text_def)
  qed (use Some boolean_read [of b] in \<open>simp_all add: leaf_ends plain_change_def boolean_text_def\<close>)
  then show ?thesis using Some by (simp add: success_trees_def success_set_def)
qed (simp add: success_trees_def success_set_def)

end
