(* ===== verification/Stream_Pending.thy ===== *)
theory Stream_Pending
  imports Stream_Signals
begin

text \<open>
  The signals with a pending field. The parser keeps what it has read of such a signal in a field of its
  own until the element ends; the locale says what a field is, and each of the eleven fields is one.
\<close>

section \<open>Fields\<close>

locale pending =
  fixes get :: "stream_parser \<Rightarrow> 'i option" and put :: "'i option \<Rightarrow> stream_parser \<Rightarrow> stream_parser"
  assumes get_put: "get (put i q) = i"
    and put_put: "put i (put j q) = put i q"
    and put_change: "field_change (put i)"
    and put_keeps: "sp_run_context (put i q) = sp_run_context q" "sp_emitted (put i q) = sp_emitted q"
      "sp_backtrace (put i q) = sp_backtrace q" "sp_backtrace_entry (put i q) = sp_backtrace_entry q"
      "sp_results (put i q) = sp_results q" "sp_result (put i q) = sp_result q"
      "sp_contexts (put i q) = sp_contexts q" "sp_results_emitted (put i q) = sp_results_emitted q"
      "sp_complete_success (put i q) = sp_complete_success q"
    and put_contexts: "(put i q)\<lparr>sp_contexts := cs\<rparr> = put i (q\<lparr>sp_contexts := cs\<rparr>)"
    and framed_get: "framed p q \<Longrightarrow> get q = get p"
    and framed_put: "framed p q \<Longrightarrow> framed (put i p) (put i q)"
    and get_success: "get (q\<lparr>sp_complete_success := b, sp_stream_success := d\<rparr>) = get q"
    and get_states: "get (q\<lparr>sp_states := ss, sp_element_stack := es\<rparr>) = get q"
begin

lemma put_frame:
  "sp_store (put i q) = sp_store q" "sp_states (put i q) = sp_states q" "sp_element_stack (put i q) = sp_element_stack q"
  "sp_option_name (put i q) = sp_option_name q" "sp_option_value (put i q) = sp_option_value q"
  "(put i q)\<lparr>sp_store := S\<rparr> = put i (q\<lparr>sp_store := S\<rparr>)"
  "(put i q)\<lparr>sp_states := ss, sp_element_stack := es\<rparr> = put i (q\<lparr>sp_states := ss, sp_element_stack := es\<rparr>)"
  using put_change [of i] by (simp_all add: field_change_def)

lemma get_moves:
  "get (opened n q) = get q" "get (PUSH_STATE s q) = get q" "get (popped q) = get q" "get (closed q) = get q"
proof -
  have "opened n q = q\<lparr>sp_states := sp_states q, sp_element_stack := sp_element_stack q @ [n]\<rparr>"
    "PUSH_STATE s q = q\<lparr>sp_states := s # sp_states q, sp_element_stack := sp_element_stack q\<rparr>"
    "popped q = q\<lparr>sp_states := tl (sp_states q), sp_element_stack := sp_element_stack q\<rparr>"
    "closed q = q\<lparr>sp_states := sp_states q, sp_element_stack := butlast (sp_element_stack q)\<rparr>"
    by (simp_all add: opened_def PUSH_STATE_def popped_def closed_def)
  then show "get (opened n q) = get q" "get (PUSH_STATE s q) = get q" "get (popped q) = get q" "get (closed q) = get q"
    by (simp_all only: get_states)
qed

lemma in_signal_put: "in_signal p n s (put i q) = in_signal p n s q"
  by (simp add: in_signal_def put_frame put_keeps)

lemma peek_put: "PEEK_STATE (put i q) = PEEK_STATE q"
  by (simp add: PEEK_STATE_def put_frame)

text \<open>A test below the element.\<close>

lemma reads_pending_object:
  assumes G: "text_tools_ok G" and p: "idle p" and q: "in_signal p n s q" and s: "container s"
    and m: "is_object K S t" and push: "pushes push st"
    and start: "\<And>r. get r = get q \<Longrightarrow> start_in_state s (element_name (mt_kind (ms_tests S ! t))) r =
      Inr (push (next_test r) (put (Some (f (next_test r)))
        (stored (empty_test (mt_kind (ms_tests S ! t))) (PUSH_STATE st r))))"
    and st: "mt_kind (ms_tests S ! t) \<in> {Test_Object, Iterated_Test_Object} \<Longrightarrow> st \<in> {IN_TEST, IN_ITERATED_TEST}"
  obtains r t' where "reads G i [stored_test_tree G S t] q r" "in_signal p n s r" "get r = Some (f t')"
    "test_carried G S (sp_store r) t t'" "objects_grow (sp_store q) (sp_store r)"
    "sp_results r = sp_results q" "sp_result r = sp_result q" "sp_contexts r = sp_contexts q"
    "sp_results_emitted r = sp_results_emitted q"
proof -
  let ?m = "ms_tests S ! t"
  let ?t = "next_test q"
  let ?n = "element_name (mt_kind ?m)"
  have m: "readable_test ?m" using m by (simp add: holds_kind_def)
  let ?h = "put (Some (f ?t))"
  let ?r = "push ?t (?h (stored (received_test G ?m (empty_test (mt_kind ?m))) q))"
  have peek: "PEEK_STATE q = s" by (rule in_signal_peek [OF q])
  have "reads G i [stored_test_tree G S t] q ?r"
    unfolding stored_test_tree_def
  proof (rule reads_child [OF G m _ _ push put_change st])
    show "start_in_state (PEEK_STATE q) ?n (opened ?n q) =
        Inr (push ?t (?h (stored (empty_test (mt_kind ?m)) (PUSH_STATE st (opened ?n q)))))"
      using start [OF get_moves(1)] by (simp add: peek)
  qed (use peek s in_signal_idle [OF q p] in simp_all)
  moreover have "in_signal p n s ?r"
    using q push by (simp add: in_signal_def put_frame put_keeps pushes_frame pushes_popped)
  moreover have "get ?r = Some (f ?t)"
  proof -
    have "framed (?h q) ?r"
      using push by (simp add: pushes_frame) (simp add: framed_put flip: put_frame(6))
    then show ?thesis by (simp add: framed_get get_put)
  qed
  moreover have "test_carried G S (sp_store ?r) t ?t"
    using push received_view [OF m] by (simp add: test_carried_def pushes_frame put_frame)
  moreover have "objects_grow (sp_store q) (sp_store ?r)"
    using push by (simp add: objects_grow_def pushes_frame put_frame)
  moreover have "sp_results ?r = sp_results q" "sp_result ?r = sp_result q" "sp_contexts ?r = sp_contexts q"
    "sp_results_emitted ?r = sp_results_emitted q"
    using push by (simp_all add: pushes_frame put_keeps)
  ultimately show ?thesis by (intro that)
qed

text \<open>A context below the element.\<close>

lemma reads_pending_context:
  assumes G: "text_tools_ok G" and p: "idle p" and q: "in_signal p n s q" and s: "container s"
    and mc: "readable_context S (ms_contexts S ! c)"
    and start: "\<And>r. get r = get q \<Longrightarrow> start_in_state s ''test-context'' r =
      (let (c', r1) = new_context_object (PUSH_STATE IN_TEST_CONTEXT r)
       in Inr (PUSH_TEST_CONTEXT c' (put (Some (f c')) r1)))"
  obtains r c' where "reads G i [context_tree G S (ms_contexts S ! c)] q r" "in_signal p n s r"
    "get r = Some (f c')" "c' < length (ms_contexts (sp_store r))"
    "context_carried G S (sp_store r) (ms_contexts S ! c) (ms_contexts (sp_store r) ! c')"
    "objects_grow (sp_store q) (sp_store r)"
    "sp_results r = sp_results q" "sp_result r = sp_result q"
proof -
  let ?n = "''test-context''"
  let ?c = "length (ms_contexts (sp_store q))"
  let ?p0 = "put (Some (f ?c)) (PUSH_STATE IN_TEST_CONTEXT (opened ?n q))"
  let ?add = "\<lambda>p. p\<lparr>sp_store := (sp_store p)\<lparr>ms_contexts := ms_contexts (sp_store p) @ [empty_context]\<rparr>,
    sp_contexts := ?c # sp_contexts p\<rparr>"
  let ?p1 = "?add ?p0"
  have peek: "PEEK_STATE q = s" by (rule in_signal_peek [OF q])
  have starts: "start_in_state (PEEK_STATE q) ?n (opened ?n q) = Inr ?p1"
    by (simp add: peek start [OF get_moves(1)] new_context_object_def PUSH_TEST_CONTEXT_def put_frame put_keeps
        put_contexts) (simp add: PUSH_STATE_def put_frame put_contexts)
  have p0: "sp_states ?p0 = IN_TEST_CONTEXT # sp_states q" "sp_element_stack ?p0 = sp_element_stack q @ [?n]"
    "sp_store ?p0 = sp_store q" "sp_results ?p0 = sp_results q" "sp_result ?p0 = sp_result q"
    "sp_option_name ?p0 = None" "sp_option_value ?p0 = None"
    using in_signal_idle [OF q p] by (simp_all add: put_frame put_keeps PUSH_STATE_def opened_def)
  have inside: "in_context ?p0 ?c ?p1"
    using p0 by (simp add: in_context_def PEEK_STATE_def peek_def objects_grow_def)
  obtain r mc' where r: "reads G i [context_tree G S (ms_contexts S ! c)] q r" "framed (closed (popped ?p0)) r"
    "ms_contexts (sp_store r) = ms_contexts (sp_store ?p0) @ [mc']"
    "context_carried G S (sp_store r) (ms_contexts S ! c) mc'"
    "objects_grow (sp_store ?p1) (sp_store r)" "sp_result r = sp_result ?p0" "sp_results r = sp_results ?p0"
    by (rule reads_context [OF G _ starts inside _ mc]) (use peek s in \<open>simp_all add: p0\<close>)
  have restored: "closed (popped ?p0) = put (Some (f ?c)) q"
  proof -
    have "closed (popped ?p0) = ?p0\<lparr>sp_states := sp_states q, sp_element_stack := sp_element_stack q\<rparr>"
      by (simp add: closed_def popped_def p0)
    then show ?thesis by (simp add: put_frame) (simp add: PUSH_STATE_def opened_def)
  qed
  show ?thesis
  proof (rule that [OF r(1)])
    show "in_signal p n s r"
      using in_signal_framed [OF _ r(2) [unfolded restored]] q by (simp add: in_signal_put)
    show "get r = Some (f ?c)" using framed_get [OF r(2) [unfolded restored]] by (simp add: get_put)
    show "context_carried G S (sp_store r) (ms_contexts S ! c) (ms_contexts (sp_store r) ! ?c)"
      using r(3,4) by (simp add: p0)
    show "objects_grow (sp_store q) (sp_store r)" using r(5) by (simp add: objects_grow_def p0)
  qed (use r(3,6,7) in \<open>simp_all add: p0\<close>)
qed

lemma in_signal_start:
  "in_signal p n s (put i (PUSH_STATE s (opened n p)))"
  by (simp add: in_signal_put) (simp add: in_signal_def PUSH_STATE_def opened_def)

text \<open>A number below the element.\<close>

lemma reads_number:
  assumes q: "get q = Some i" "container (PEEK_STATE q)" and k: "k < 2147483648"
    and start: "\<And>r. start_in_state (PEEK_STATE q) m r = Inr (PUSH_STATE s r)" and stop: "end_in_state s = Inr"
    and reading: "\<And>r v. is_integer v \<Longrightarrow> get r = Some i \<Longrightarrow> text_in_state G s v r = Inr (put (Some (f (atoi v))) r)"
  shows "reads G j [number_leaf m k] q (put (Some (f k)) q)"
proof (rule reads_plain_leaf [OF q(2) start stop, where f = "put (Some (f k))"])
  show "plain_change (put (Some (f k)))" by (simp add: plain_change_def put_frame)
  show "text_in_state G s (print_guint k) (PUSH_STATE s (opened m q)) =
      Inr (put (Some (f k)) (PUSH_STATE s (opened m q)))"
    using reading [of "print_guint k"] q(1) print_guint_read [OF k] by (simp add: get_moves)
qed (use print_guint_read [OF k] in simp)

end

section \<open>A test with its context\<close>

locale pending_info = pending get put
  for get :: "stream_parser \<Rightarrow> test_info option" and put
begin

lemma reads_info_signal:
  assumes G: "text_tools_ok G" and p: "idle p" and m: "is_object K S t"
    and c: "pred_option (\<lambda>c. readable_context S (ms_contexts S ! c)) c"
    and start: "\<And>q. start_stream n q = Inr (put (Some no_test) (PUSH_STATE s q))" and s: "container s"
    and object: "\<And>k q. k \<in> K \<Longrightarrow> start_in_state s (element_name k) q = start_info_test get put k (st k) q"
    and st: "\<And>k. k \<in> K \<Longrightarrow> pushes PUSH_TEST (st k) \<and> st k \<in> {IN_TEST, IN_ITERATED_TEST}"
    and context_start: "\<And>q. start_in_state s ''test-context'' q = start_info_context get put q"
    and success: "\<And>q. x \<noteq> None \<Longrightarrow> start_in_state s ''success'' q = Inr (PUSH_STATE IN_COMPLETE_SUCCESS q)"
    and stop: "\<And>q t' c'. get q = Some \<lparr>info_test = Some t', info_context = c'\<rparr> \<Longrightarrow> sp_run_context q \<noteq> None \<Longrightarrow>
      (\<And>b. x = Some b \<Longrightarrow> sp_complete_success q = b) \<Longrightarrow>
      \<exists>r. end_in_state s q = Inr r \<and> settled (emit_signal (sig t' c') q) r"
    and view: "\<And>tv cv rv t c. show_signal tv cv rv (sig t c) =
      Signal_View n (Some (tv t)) (map_option cv c) None [] x"
  shows "\<exists>q. reads G 2 [Node n (stored_test_tree G S t # stored_context_trees G S c @ success_trees x)] p q \<and>
    emits p q (signal_sent G T (S, sig t c))"
proof -
  have k: "mt_kind (ms_tests S ! t) \<in> K" using m by (simp add: holds_kind_def)
  let ?p1 = "put (Some no_test) (PUSH_STATE s (opened n p))"
  have 1: "in_signal p n s ?p1" by (rule in_signal_start)
  obtain p2 t' where 2: "reads G 4 [stored_test_tree G S t] ?p1 p2" "in_signal p n s p2"
    "get p2 = Some (no_test\<lparr>info_test := Some t'\<rparr>)" "test_carried G S (sp_store p2) t t'"
    by (rule reads_pending_object [OF G p 1 s m conjunct1 [OF st [OF k]],
          where f = "\<lambda>t'. no_test\<lparr>info_test := Some t'\<rparr>"])
       (use st [OF k] in \<open>auto simp: object [OF k] start_info_test_def with_pointer_def get_put new_test_def PUSH_STATE_def\<close>)
  obtain p3 c' where 3: "reads G 4 (stored_context_trees G S c) p2 p3" "in_signal p n s p3"
    "get p3 = Some \<lparr>info_test = Some t', info_context = c'\<rparr>" "objects_grow (sp_store p2) (sp_store p3)"
    "rel_option (\<lambda>c c'. context_carried G S (sp_store p3) (ms_contexts S ! c) (ms_contexts (sp_store p3) ! c')) c c'"
  proof (cases c)
    case None
    show ?thesis by (rule that [of p2 None]) (use None 2 in \<open>simp_all add: stored_context_trees_def opt_tree_def\<close>)
  next
    case (Some d)
    have mc: "readable_context S (ms_contexts S ! d)" using c Some by simp
    obtain p3 c' where "reads G 4 [context_tree G S (ms_contexts S ! d)] p2 p3" "in_signal p n s p3"
      "get p3 = Some \<lparr>info_test = Some t', info_context = Some c'\<rparr>" "objects_grow (sp_store p2) (sp_store p3)"
      "context_carried G S (sp_store p3) (ms_contexts S ! d) (ms_contexts (sp_store p3) ! c')"
      by (rule reads_pending_context [OF G p 2(2) s mc, where f = "\<lambda>c'. \<lparr>info_test = Some t', info_context = Some c'\<rparr>"])
         (use 2(3) in \<open>auto simp: context_start start_info_context_def with_pointer_def Let_def split: prod.splits\<close>)
    then show ?thesis
      by (intro that [of p3 "Some c'"]) (simp_all add: Some stored_context_trees_def opt_tree_def)
  qed
  let ?p4 = "success_set x p3"
  have peek: "PEEK_STATE p3 = s" by (rule in_signal_peek [OF 3(2)])
  have 4: "reads G 4 (success_trees x) p3 ?p4"
    by (rule reads_success) (simp_all add: peek s success)
  have p4: "in_signal p n s ?p4" "get ?p4 = get p3" "sp_store ?p4 = sp_store p3"
    "x = Some b \<Longrightarrow> sp_complete_success ?p4 = b" for b
    using 3(2) by (auto simp: success_set_def in_signal_success get_success split: option.splits)
  have inner: "reads G 4 (stored_test_tree G S t # stored_context_trees G S c @ success_trees x) ?p1 ?p4"
    using reads_appendI [OF 2(1) reads_appendI [OF 3(1) 4]] by simp
  have "sp_run_context (popped ?p4) \<noteq> None"
    using in_signal_idle [OF p4(1) p] by (simp add: popped_def)
  moreover have "get (popped ?p4) = Some \<lparr>info_test = Some t', info_context = c'\<rparr>"
    by (simp add: get_moves p4(2) 3(3))
  moreover have "sp_complete_success (popped ?p4) = b" if "x = Some b" for b
    using p4(4) [OF that] by (simp add: popped_def)
  ultimately obtain r where r: "end_in_state s (popped ?p4) = Inr r" "settled (emit_signal (sig t' c') (popped ?p4)) r"
    using stop by blast
  have "reads G 2 [Node n (stored_test_tree G S t # stored_context_trees G S c @ success_trees x)] p (closed r)"
    by (rule reads_signal [OF p start inner]) (simp_all add: in_signal_peek [OF p4(1)] s r)
  moreover have "emits p (closed r) (signal_sent G T (S, sig t c))"
  proof (rule emits_end [OF p p4(1) r(2)])
    have "test_carried G S (sp_store p3) t t'" using 2(4) 3(4) by (rule test_carried_mono)
    moreover have "map_option (\<lambda>c. show_context (\<lambda>t. test_seen (ms_tests (sp_store p3) ! t)) (\<lambda>d. ms_data (sp_store p3) ! d)
        (ms_contexts (sp_store p3) ! c)) c' =
      map_option (\<lambda>c. show_context (\<lambda>t. test_sent G (ms_tests S ! t)) (\<lambda>d. nonempty_string (ms_data S ! d)) (ms_contexts S ! c)) c"
      using 3(5) by (cases c; cases c') (auto dest: context_carried_views)
    ultimately show "signal_seen (sp_store ?p4, sig t' c') = signal_sent G T (S, sig t c)"
      by (simp add: signal_seen_def signal_sent_def view Let_def p4(3) test_carried_def)
  qed
  ultimately show ?thesis by blast
qed

end

end
