(* ===== verification/Stream_Round_Trip.thy ===== *)
theory Stream_Round_Trip
  imports Stream_Pending
begin

text \<open>
  The parser reads back what the stream wrote: results and announcements of tests with their fields,
  every signal of the run context, and a whole document.
\<close>

section \<open>Results\<close>

lemma context_carried_mono:
  "context_carried G S S' mc mc' \<Longrightarrow> objects_grow S' S'' \<Longrightarrow> context_carried G S S'' mc mc'"
  unfolding context_carried_def by (blast intro: tests_carried_mono all_data_carried_mono)

locale pending_result = pending get put
  for get :: "stream_parser \<Rightarrow> result_info option" and put
begin

lemma reads_result_signal:
  assumes G: "text_tools_ok G" and p: "idle p" and m: "is_object K S t" and r: "readable_result S y"
    and c: "if with_context then given_context S c else c = None"
    and start: "\<And>q. start_stream n q = Inr (put (Some no_result) (PUSH_STATE s q))" and s: "container s"
    and object: "\<And>k q i. k \<in> K \<Longrightarrow> get q = Some i \<Longrightarrow> start_in_state s (element_name k) q =
      Inr (push (next_test q) (put (Some (i\<lparr>result_object := Some (next_test q)\<rparr>))
        (stored (empty_test k) (PUSH_STATE (st k) q))))"
    and push: "\<And>k. k \<in> K \<Longrightarrow> pushes push (st k)"
    and st: "\<And>k. k \<in> K \<Longrightarrow> k \<in> {Test_Object, Iterated_Test_Object} \<Longrightarrow> st k \<in> {IN_TEST, IN_ITERATED_TEST}"
    and context_start: "\<And>q i. with_context \<Longrightarrow> get q = Some i \<Longrightarrow> start_in_state s ''test-context'' q =
      (let (c', q1) = new_context_object (PUSH_STATE IN_TEST_CONTEXT q)
       in Inr (PUSH_TEST_CONTEXT c' (put (Some (i\<lparr>result_context := Some c'\<rparr>)) q1)))"
    and result_start: "\<And>q i. get q = Some i \<Longrightarrow> start_in_state s ''result'' q = Inr (start_new_result put i q)"
    and stop: "\<And>q t' c' r'. get q = Some \<lparr>result_object = Some t', result_context = c', info_result = Some r'\<rparr> \<Longrightarrow>
      sp_run_context q \<noteq> None \<Longrightarrow> \<exists>r. end_in_state s q = Inr r \<and>
        settled (emit_signal (sig (result_status (sp_results q ! r')) t' c' (sp_results q ! r')) q) r"
    and view: "\<And>tv cv rv a t c r. (\<not> with_context \<Longrightarrow> c = None) \<Longrightarrow> show_signal tv cv rv (sig a t c r) =
      Signal_View n (Some (tv t)) (map_option cv c) (Some (rv r)) [severity a] None"
  shows "\<exists>q. reads G 2 [Node n (stored_test_tree G S t # stored_context_trees G S c @ [result_tree G T S y])] p q \<and>
    emits p q (signal_sent G T (S, sig (result_status y) t c y))"
proof -
  have k: "mt_kind (ms_tests S ! t) \<in> K" using m by (simp add: holds_kind_def)
  let ?p1 = "put (Some no_result) (PUSH_STATE s (opened n p))"
  have 1: "in_signal p n s ?p1" by (rule in_signal_start)
  obtain p2 t' where 2: "reads G 4 [stored_test_tree G S t] ?p1 p2" "in_signal p n s p2"
    "get p2 = Some (no_result\<lparr>result_object := Some t'\<rparr>)" "test_carried G S (sp_store p2) t t'"
    by (rule reads_pending_object [OF G p 1 s m push [OF k], where f = "\<lambda>t'. no_result\<lparr>result_object := Some t'\<rparr>"])
       (use st [OF k] in \<open>auto simp: object [OF k] get_put\<close>)
  obtain p3 c' where 3: "reads G 4 (stored_context_trees G S c) p2 p3" "in_signal p n s p3"
    "get p3 = Some \<lparr>result_object = Some t', result_context = c', info_result = None\<rparr>"
    "objects_grow (sp_store p2) (sp_store p3)" "pred_option (\<lambda>c'. c' < length (ms_contexts (sp_store p3))) c'"
    "rel_option (\<lambda>c c'. context_carried G S (sp_store p3) (ms_contexts S ! c) (ms_contexts (sp_store p3) ! c')) c c'"
  proof (cases c)
    case None
    show ?thesis by (rule that [of p2 None]) (use None 2 in \<open>simp_all add: stored_context_trees_def opt_tree_def\<close>)
  next
    case (Some d)
    have mc: "with_context" "readable_context S (ms_contexts S ! d)"
      using c Some by (auto simp: given_context_def split: if_splits)
    obtain p3 c' where "reads G 4 [context_tree G S (ms_contexts S ! d)] p2 p3" "in_signal p n s p3"
      "get p3 = Some \<lparr>result_object = Some t', result_context = Some c', info_result = None\<rparr>"
      "objects_grow (sp_store p2) (sp_store p3)" "c' < length (ms_contexts (sp_store p3))"
      "context_carried G S (sp_store p3) (ms_contexts S ! d) (ms_contexts (sp_store p3) ! c')"
      by (rule reads_pending_context [OF G p 2(2) s mc(2),
            where f = "\<lambda>c'. \<lparr>result_object = Some t', result_context = Some c', info_result = None\<rparr>"])
         (use 2(3) in \<open>auto simp: context_start [OF mc(1)]\<close>)
    then show ?thesis
      by (intro that [of p3 "Some c'"]) (simp_all add: Some stored_context_trees_def opt_tree_def)
  qed
  let ?i = "\<lparr>result_object = Some t', result_context = c', info_result = Some (length (sp_results p3))\<rparr>"
  let ?p0 = "put (Some ?i) (PUSH_STATE IN_RESULT (opened ''result'' p3))"
  let ?p4 = "start_new_result put \<lparr>result_object = Some t', result_context = c', info_result = None\<rparr> (opened ''result'' p3)"
  have peek: "PEEK_STATE p3 = s" by (rule in_signal_peek [OF 3(2)])
  have p0: "sp_states ?p0 = IN_RESULT # sp_states p3" "sp_element_stack ?p0 = sp_element_stack p3 @ [''result'']"
    "sp_store ?p0 = sp_store p3" "sp_results ?p0 = sp_results p3" "sp_results_emitted ?p0 = sp_results_emitted p3"
    "sp_option_name ?p0 = None" "sp_option_value ?p0 = None" "sp_backtrace ?p0 = []" "sp_backtrace_entry ?p0 = None"
    using in_signal_idle [OF 3(2) p] by (simp_all add: put_frame put_keeps PUSH_STATE_def opened_def)
  have p4: "?p4 = (put (Some ?i) ((PUSH_STATE IN_RESULT (opened ''result'' p3))
      \<lparr>sp_results := sp_results p3 @ [cut_test_result_new_empty]\<rparr>))\<lparr>sp_result := Some (length (sp_results p3))\<rparr>"
    by (simp add: start_new_result_def new_result_def PUSH_STATE_def opened_def)
  have inside: "in_result ?p0 (length (sp_results p3)) cut_test_result_new_empty ?p4"
  proof -
    have "framed ?p0 ?p4" unfolding p4 update_frame by (rule framed_put) simp
    then show ?thesis
      using p0 in_signal_idle [OF 3(2) p] unfolding p4
      by (simp add: in_result_def put_frame put_keeps peek_put PUSH_STATE_def opened_def PEEK_STATE_def)
  qed
  have starts: "start_in_state (PEEK_STATE p3) ''result'' (opened ''result'' p3) = Inr ?p4"
    using 3(3) by (simp add: peek result_start get_moves)
  obtain p5 y' where 5: "reads G 4 [result_tree G T S y] p3 p5" "framed (closed (popped ?p0)) p5"
    "sp_results p5 = sp_results ?p0 @ [y']" "result_carried G T S (sp_store p5) y y'"
    "grows (sp_store ?p0) (sp_store p5)"
    by (rule reads_result [OF G _ starts inside r]) (simp_all add: peek s)
  have restored: "closed (popped ?p0) = put (Some ?i) p3"
  proof -
    have "closed (popped ?p0) = ?p0\<lparr>sp_states := sp_states p3, sp_element_stack := sp_element_stack p3\<rparr>"
      by (simp add: closed_def popped_def p0)
    then show ?thesis by (simp add: put_frame) (simp add: PUSH_STATE_def opened_def)
  qed
  have p5: "in_signal p n s p5" "get p5 = Some ?i"
    using in_signal_framed [OF _ 5(2) [unfolded restored]] 3(2) framed_get [OF 5(2) [unfolded restored]]
    by (simp_all add: in_signal_put get_put)
  have inner: "reads G 4 (stored_test_tree G S t # stored_context_trees G S c @ [result_tree G T S y]) ?p1 p5"
    using reads_appendI [OF 2(1) reads_appendI [OF 3(1) 5(1)]] by simp
  have last: "sp_results (popped p5) ! length (sp_results p3) = y'" using 5(3) by (simp add: popped_def p0)
  have status: "result_status y' = result_status y"
    using 5(4) by (auto simp: result_carried_def fields_seen_def fields_sent_def split: prod.splits)
  have "get (popped p5) = Some ?i" "sp_run_context (popped p5) \<noteq> None"
    using p5(2) in_signal_idle [OF p5(1) p] by (simp_all add: get_moves) (simp add: popped_def)
  then obtain r where r: "end_in_state s (popped p5) = Inr r"
    "settled (emit_signal (sig (result_status y) t' c' y') (popped p5)) r"
    using stop [of "popped p5" t' c' "length (sp_results p3)"] unfolding last status by blast
  have "reads G 2 [Node n (stored_test_tree G S t # stored_context_trees G S c @ [result_tree G T S y])] p (closed r)"
    by (rule reads_signal [OF p start inner]) (simp_all add: in_signal_peek [OF p5(1)] s r)
  moreover have "emits p (closed r) (signal_sent G T (S, sig (result_status y) t c y))"
  proof (rule emits_end [OF p p5(1) r(2)])
    have grow: "objects_grow (sp_store p3) (sp_store p5)" "\<exists>cs. ms_contexts (sp_store p5) = ms_contexts (sp_store p3) @ cs"
      using 5(5) by (simp_all add: grows_def p0)
    have "test_carried G S (sp_store p5) t t'"
      using test_carried_mono [OF test_carried_mono [OF 2(4) 3(4)] grow(1)] .
    moreover have "map_option (\<lambda>c. show_context (\<lambda>t. test_seen (ms_tests (sp_store p5) ! t)) (\<lambda>d. ms_data (sp_store p5) ! d)
        (ms_contexts (sp_store p5) ! c)) c' =
      map_option (\<lambda>c. show_context (\<lambda>t. test_sent G (ms_tests S ! t)) (\<lambda>d. nonempty_string (ms_data S ! d)) (ms_contexts S ! c)) c"
    proof (cases c')
      case (Some d')
      then obtain d where d: "c = Some d"
        "context_carried G S (sp_store p3) (ms_contexts S ! d) (ms_contexts (sp_store p3) ! d')"
        using 3(6) by (auto elim: option.rel_cases)
      have "ms_contexts (sp_store p5) ! d' = ms_contexts (sp_store p3) ! d'"
        using grow(2) 3(5) Some by (auto simp: nth_append)
      then show ?thesis
        using context_carried_views [OF context_carried_mono [OF d(2) grow(1)]] d Some by simp
    qed (use 3(6) in \<open>auto elim: option.rel_cases\<close>)
    moreover have "c' = None" if "\<not> with_context" using that c 3(6) by simp
    moreover have "c = None" if "\<not> with_context" using that c by simp
    ultimately show "signal_seen (sp_store p5, sig (result_status y) t' c' y') =
        signal_sent G T (S, sig (result_status y) t c y)"
      using result_carried_views [OF 5(4)]
      by (simp add: signal_seen_def signal_sent_def view Let_def test_carried_def)
  qed
  ultimately show ?thesis by blast
qed

end


section \<open>Announcements\<close>

locale pending_ready = pending get put
  for get :: "stream_parser \<Rightarrow> ready_info option" and put
begin

lemma reads_ready_signal:
  assumes G: "text_tools_ok G" and p: "idle p" and m: "is_object {k} S t" and push: "pushes push st"
    and kind: "k \<notin> {Test_Object, Iterated_Test_Object}"
    and numbers: "a < 2147483648" "b < 2147483648"
    and start: "\<And>q. start_stream n q = Inr (put (Some no_ready) (PUSH_STATE s q))" and s: "container s"
    and object: "\<And>q i. get q = Some i \<Longrightarrow> start_in_state s (element_name k) q =
      Inr (push (next_test q) (put (Some (i\<lparr>ready_object := Some (next_test q)\<rparr>)) (stored (empty_test k) (PUSH_STATE st q))))"
    and starts: "\<And>q. cases \<Longrightarrow> start_in_state s ''n-test-cases'' q = Inr (PUSH_STATE sc q)"
      "\<And>q. start_in_state s ''n-tests'' q = Inr (PUSH_STATE sn q)"
    and stops: "end_in_state sc = Inr" "end_in_state sn = Inr"
    and reading: "\<And>q v i. cases \<Longrightarrow> is_integer v \<Longrightarrow> get q = Some i \<Longrightarrow>
        text_in_state G sc v q = Inr (put (Some (i\<lparr>ready_n_test_cases := atoi v\<rparr>)) q)"
      "\<And>q v i. is_integer v \<Longrightarrow> get q = Some i \<Longrightarrow>
        text_in_state G sn v q = Inr (put (Some (i\<lparr>ready_n_tests := atoi v\<rparr>)) q)"
    and stop: "\<And>q t' a b. get q = Some \<lparr>ready_object = Some t', ready_n_test_cases = a, ready_n_tests = b\<rparr> \<Longrightarrow>
      sp_run_context q \<noteq> None \<Longrightarrow> \<exists>r. end_in_state s q = Inr r \<and> settled (emit_signal (sig t' a b) q) r"
    and view: "\<And>tv cv rv t a b. show_signal tv cv rv (sig t a b) =
      Signal_View n (Some (tv t)) None None (if cases then [a, b] else [b]) None"
    and none: "\<not> cases \<Longrightarrow> a = 0"
  shows "\<exists>q. reads G 2 [Node n (stored_test_tree G S t # (if cases then [number_leaf ''n-test-cases'' a] else []) @
      [number_leaf ''n-tests'' b])] p q \<and> emits p q (signal_sent G T (S, sig t a b))"
proof -
  have k: "mt_kind (ms_tests S ! t) = k" using m by (simp add: holds_kind_def)
  let ?p1 = "put (Some no_ready) (PUSH_STATE s (opened n p))"
  have 1: "in_signal p n s ?p1" by (rule in_signal_start)
  obtain p2 t' where 2: "reads G 4 [stored_test_tree G S t] ?p1 p2" "in_signal p n s p2"
    "get p2 = Some (no_ready\<lparr>ready_object := Some t'\<rparr>)" "test_carried G S (sp_store p2) t t'"
    by (rule reads_pending_object [OF G p 1 s m push, where f = "\<lambda>t'. no_ready\<lparr>ready_object := Some t'\<rparr>"])
       (use kind in \<open>simp_all add: k object get_put\<close>)
  let ?i = "\<lparr>ready_object = Some t', ready_n_test_cases = a, ready_n_tests = 0\<rparr>"
  let ?p3 = "if cases then put (Some ?i) p2 else p2"
  let ?p4 = "put (Some (?i\<lparr>ready_n_tests := b\<rparr>)) ?p3"
  have peek: "PEEK_STATE p2 = s" by (rule in_signal_peek [OF 2(2)])
  have 3: "reads G 4 (if cases then [number_leaf ''n-test-cases'' a] else []) p2 ?p3"
  proof (cases cases)
    case True
    have "reads G 4 [number_leaf ''n-test-cases'' a] p2
        (put (Some (no_ready\<lparr>ready_object := Some t', ready_n_test_cases := a\<rparr>)) p2)"
      by (rule reads_number [OF 2(3) _ numbers(1) _ stops(1),
            where f = "\<lambda>v. no_ready\<lparr>ready_object := Some t', ready_n_test_cases := v\<rparr>"])
         (simp_all add: peek s starts(1) [OF True] reading(1) [OF True])
    then show ?thesis using True by simp
  qed simp
  have get3: "get ?p3 = Some ?i" using 2(3) none by (simp add: get_put)
  have peek3: "PEEK_STATE ?p3 = s" by (simp add: peek_put peek)
  have 4: "reads G 4 [number_leaf ''n-tests'' b] ?p3 ?p4"
    by (rule reads_number [OF get3 _ numbers(2) _ stops(2), where f = "\<lambda>v. ?i\<lparr>ready_n_tests := v\<rparr>"])
       (simp_all only: peek3 s starts(2) reading(2))
  have p4: "in_signal p n s ?p4" "get ?p4 = Some (?i\<lparr>ready_n_tests := b\<rparr>)" "sp_store ?p4 = sp_store p2"
    using 2(2) by (simp_all add: in_signal_put get_put put_frame)
  have inner: "reads G 4 (stored_test_tree G S t # (if cases then [number_leaf ''n-test-cases'' a] else []) @
      [number_leaf ''n-tests'' b]) ?p1 ?p4"
    using reads_appendI [OF 2(1) reads_appendI [OF 3 4]] by simp
  have "sp_run_context (popped ?p4) \<noteq> None" using in_signal_idle [OF p4(1) p] by (simp add: popped_def)
  moreover have "get (popped ?p4) = Some \<lparr>ready_object = Some t', ready_n_test_cases = a, ready_n_tests = b\<rparr>"
    unfolding get_moves p4(2) by simp
  ultimately obtain r where r: "end_in_state s (popped ?p4) = Inr r" "settled (emit_signal (sig t' a b) (popped ?p4)) r"
    using stop by blast
  have "reads G 2 [Node n (stored_test_tree G S t # (if cases then [number_leaf ''n-test-cases'' a] else []) @
      [number_leaf ''n-tests'' b])] p (closed r)"
    by (rule reads_signal [OF p start inner]) (unfold in_signal_peek [OF p4(1)], rule s, rule r)
  moreover have "emits p (closed r) (signal_sent G T (S, sig t a b))"
    by (rule emits_end [OF p p4(1) r(2)])
       (use 2(4) in \<open>simp add: signal_seen_def signal_sent_def view Let_def put_frame(1) test_carried_def\<close>)
  ultimately show ?thesis by blast
qed

end

section \<open>The fields of the parser\<close>

interpretation ready_suite: pending_ready sp_ready_suite "\<lambda>i. sp_ready_suite_update (\<lambda>_. i)"
  by unfold_locales (simp_all add: field_change_def framed_def)

interpretation ready_case: pending_ready sp_ready_case "\<lambda>i. sp_ready_case_update (\<lambda>_. i)"
  by unfold_locales (simp_all add: field_change_def framed_def)

interpretation ready_iterator: pending_ready sp_ready_iterator "\<lambda>i. sp_ready_iterator_update (\<lambda>_. i)"
  by unfold_locales (simp_all add: field_change_def framed_def)

interpretation start_test: pending_info sp_start_test "\<lambda>i. sp_start_test_update (\<lambda>_. i)"
  by unfold_locales (simp_all add: field_change_def framed_def)

interpretation start_iterated_test: pending_info sp_start_iterated_test "\<lambda>i. sp_start_iterated_test_update (\<lambda>_. i)"
  by unfold_locales (simp_all add: field_change_def framed_def)

interpretation pass_assertion: pending_info sp_pass_assertion "\<lambda>i. sp_pass_assertion_update (\<lambda>_. i)"
  by unfold_locales (simp_all add: field_change_def framed_def)

interpretation complete_test: pending_info sp_complete_test "\<lambda>i. sp_complete_test_update (\<lambda>_. i)"
  by unfold_locales (simp_all add: field_change_def framed_def)

interpretation complete_iterated_test: pending_info sp_complete_iterated_test "\<lambda>i. sp_complete_iterated_test_update (\<lambda>_. i)"
  by unfold_locales (simp_all add: field_change_def framed_def)

interpretation test_result: pending_result sp_test_result "\<lambda>i. sp_test_result_update (\<lambda>_. i)"
  by unfold_locales (simp_all add: field_change_def framed_def)

interpretation iterator_result: pending_result sp_iterator_result "\<lambda>i. sp_iterator_result_update (\<lambda>_. i)"
  by unfold_locales (simp_all add: field_change_def framed_def)

interpretation case_result: pending_result sp_case_result "\<lambda>i. sp_case_result_update (\<lambda>_. i)"
  by unfold_locales (simp_all add: field_change_def framed_def)


section \<open>Every signal\<close>

lemma settled_simps:
  "settled p (drop_if x DROP_TEST q) = settled p q" "settled p (drop_if x DROP_TEST_ITERATOR q) = settled p q"
  "settled p (drop_if x DROP_TEST_CASE q) = settled p q" "settled p (drop_if x DROP_TEST_SUITE q) = settled p q"
  "settled p (drop_if x DROP_TEST_CONTEXT q) = settled p q" "settled p p"
  by (simp_all add: settled_def drop_if_def DROP_TEST_def DROP_TEST_ITERATOR_def DROP_TEST_CASE_def
      DROP_TEST_SUITE_def DROP_TEST_CONTEXT_def)

lemma settled_fields:
  "settled p (q\<lparr>sp_ready_suite := i\<rparr>) = settled p q" "settled p (q\<lparr>sp_ready_case := i\<rparr>) = settled p q"
  "settled p (q\<lparr>sp_ready_iterator := i\<rparr>) = settled p q" "settled p (q\<lparr>sp_start_test := k\<rparr>) = settled p q"
  "settled p (q\<lparr>sp_start_iterated_test := k\<rparr>) = settled p q" "settled p (q\<lparr>sp_pass_assertion := k\<rparr>) = settled p q"
  "settled p (q\<lparr>sp_complete_test := k\<rparr>) = settled p q"
  "settled p (q\<lparr>sp_complete_iterated_test := k\<rparr>) = settled p q" "settled p (q\<lparr>sp_test_result := r\<rparr>) = settled p q"
  "settled p (q\<lparr>sp_iterator_result := r\<rparr>) = settled p q" "settled p (q\<lparr>sp_case_result := r\<rparr>) = settled p q"
  "settled p (q\<lparr>sp_result := x\<rparr>) = settled p q" "settled p (q\<lparr>sp_complete_success := b\<rparr>) = settled p q"
  by (simp_all add: settled_def)

lemma push_unfolds:
  "PUSH_TEST_SUITE t q = q\<lparr>sp_suites := t # sp_suites q\<rparr>" "PUSH_TEST_CASE t q = q\<lparr>sp_cases := t # sp_cases q\<rparr>"
  "PUSH_TEST_ITERATOR t q = q\<lparr>sp_iterators := t # sp_iterators q\<rparr>"
  by (simp_all add: PUSH_TEST_SUITE_def PUSH_TEST_CASE_def PUSH_TEST_ITERATOR_def)

lemma start_signals:
  assumes G: "text_tools_ok G" and p: "idle p"
  shows "is_object {Suite_Object} S t \<Longrightarrow> \<exists>q. reads G 2 (signal_trees G T S (Start_Test_Suite t)) p q \<and>
      emits p q (signal_sent G T (S, Start_Test_Suite t))"
    and "is_object {Case_Object} S t \<Longrightarrow> \<exists>q. reads G 2 (signal_trees G T S (Start_Test_Case t)) p q \<and>
      emits p q (signal_sent G T (S, Start_Test_Case t))"
    and "is_object {Iterator_Object} S t \<Longrightarrow> \<exists>q. reads G 2 (signal_trees G T S (Start_Test_Iterator t)) p q \<and>
      emits p q (signal_sent G T (S, Start_Test_Iterator t))"
proof -
  show "\<exists>q. reads G 2 (signal_trees G T S (Start_Test_Suite t)) p q \<and> emits p q (signal_sent G T (S, Start_Test_Suite t))"
    if "is_object {Suite_Object} S t"
    using reads_start_object [OF G p that, where push = PUSH_TEST_SUITE and ?s1.0 = IN_START_TEST_SUITE
        and ?s2.0 = IN_TEST_SUITE and n = "''start-test-suite''" and sig = Start_Test_Suite]
    by (simp add: start_stream_def start_in_state_def start_start_test_suite_def end_in_state_def
        end_start_test_suite_def push_unfolds)
  show "\<exists>q. reads G 2 (signal_trees G T S (Start_Test_Case t)) p q \<and> emits p q (signal_sent G T (S, Start_Test_Case t))"
    if "is_object {Case_Object} S t"
    using reads_start_object [OF G p that, where push = PUSH_TEST_CASE and ?s1.0 = IN_START_TEST_CASE
        and ?s2.0 = IN_TEST_CASE and n = "''start-test-case''" and sig = Start_Test_Case]
    by (simp add: start_stream_def start_in_state_def start_start_test_case_def end_in_state_def
        end_start_test_case_def push_unfolds)
  show "\<exists>q. reads G 2 (signal_trees G T S (Start_Test_Iterator t)) p q \<and> emits p q (signal_sent G T (S, Start_Test_Iterator t))"
    if "is_object {Iterator_Object} S t"
    using reads_start_object [OF G p that, where push = PUSH_TEST_ITERATOR and ?s1.0 = IN_START_TEST_ITERATOR
        and ?s2.0 = IN_TEST_ITERATOR and n = "''start-test-iterator''" and sig = Start_Test_Iterator]
    by (simp add: start_stream_def start_in_state_def start_start_test_iterator_def end_in_state_def
        end_start_test_iterator_def push_unfolds)
qed


lemma reads_complete_object:
  assumes G: "text_tools_ok G" and p: "idle p" and m: "is_object {k} S t" and push: "pushes push st"
    and kind: "k \<notin> {Test_Object, Iterated_Test_Object}"
    and start: "\<And>q. start_stream n q = Inr (PUSH_STATE s q)" and s: "container s"
    and object: "\<And>q. start_in_state s (element_name k) q = Inr (push_new push k st q)"
    and success: "\<And>q. start_in_state s ''success'' q = Inr (PUSH_STATE IN_COMPLETE_SUCCESS q)"
    and stop: "\<And>q t. end_in_state s (push t q) =
      Inr ((emit_signal (sig t (sp_complete_success q)) q)\<lparr>sp_complete_success := True\<rparr>)"
    and view: "\<And>tv cv rv t b. show_signal tv cv rv (sig t b) = Signal_View n (Some (tv t)) None None [] (Some b)"
  shows "\<exists>q. reads G 2 [Node n [stored_test_tree G S t, success_leaf b]] p q \<and> emits p q (signal_sent G T (S, sig t b))"
proof -
  let ?m = "ms_tests S ! t"
  have m: "readable_test ?m" "mt_kind ?m = k" using m by (simp_all add: holds_kind_def)
  let ?p1 = "PUSH_STATE s (opened n p)"
  let ?r = "stored (received_test G ?m (empty_test k)) ?p1"
  let ?p2 = "push (next_test ?p1) ?r"
  let ?r3 = "?r\<lparr>sp_complete_success := b, sp_stream_success := b\<rparr>"
  have p1: "in_signal p n s ?p1" by (simp add: in_signal_def PUSH_STATE_def opened_def)
  have child: "reads G 4 [test_tree G ?m] ?p1 ?p2"
  proof -
    have "reads G 4 [test_tree G ?m] ?p1 (push (next_test ?p1) (stored (received_test G ?m (empty_test (mt_kind ?m))) ?p1))"
      by (rule reads_child [OF G m(1) _ _ push, where h = "\<lambda>q. q"])
         (use kind in_signal_idle [OF p1 p] in \<open>simp_all add: s object m(2) push_new_eq\<close>)
    then show ?thesis by (simp add: m(2))
  qed
  have p2: "in_signal p n s ?p2"
    using p1 push by (simp add: in_signal_def pushes_frame pushes_popped)
  have commute: "success_set (Some b) ?p2 = push (next_test ?p1) ?r3"
    using push unfolding pushes_def success_set_def
    by (elim insertE emptyE; simp add: push_unfolds PUSH_TEST_def)
  have "reads G 4 [success_leaf b] ?p2 (success_set (Some b) ?p2)"
    using reads_success [of ?p2 "Some b"] in_signal_peek [OF p2] s success by (simp add: success_trees_def)
  then have tail: "reads G 4 [success_leaf b] ?p2 (push (next_test ?p1) ?r3)" unfolding commute .
  have p3: "in_signal p n s (push (next_test ?p1) ?r3)" "in_signal p n s ?r3"
    using p1 push by (simp_all add: in_signal_def pushes_frame pushes_popped)
  let ?e = "(emit_signal (sig (next_test ?p1) b) (popped ?r3))\<lparr>sp_complete_success := True\<rparr>"
  have stop: "end_in_state s (popped (push (next_test ?p1) ?r3)) = Inr ?e"
    by (simp add: pushes_popped [OF push] stop) (simp add: popped_def)
  have "reads G 2 [Node n [stored_test_tree G S t, success_leaf b]] p (closed ?e)"
    using reads_signal [OF p start reads_appendI [OF child tail]] in_signal_peek [OF p3(1)] s stop
    by (simp add: stored_test_tree_def)
  moreover have "emits p (closed ?e) (signal_sent G T (S, sig t b))"
    by (rule emits_end [OF p p3(2), where sig = "sig (next_test ?p1) b"])
       (use received_view [OF m(1), of G] in \<open>simp_all add: settled_simps settled_fields signal_seen_def signal_sent_def
          view m(2) Let_def\<close>)
  ultimately show ?thesis by blast
qed

lemma complete_signals:
  assumes G: "text_tools_ok G" and p: "idle p"
  shows "is_object {Suite_Object} S t \<Longrightarrow> \<exists>q. reads G 2 (signal_trees G T S (Complete_Test_Suite t b)) p q \<and>
      emits p q (signal_sent G T (S, Complete_Test_Suite t b))"
    and "is_object {Case_Object} S t \<Longrightarrow> \<exists>q. reads G 2 (signal_trees G T S (Complete_Test_Case t b)) p q \<and>
      emits p q (signal_sent G T (S, Complete_Test_Case t b))"
    and "is_object {Iterator_Object} S t \<Longrightarrow> \<exists>q. reads G 2 (signal_trees G T S (Complete_Test_Iterator t b)) p q \<and>
      emits p q (signal_sent G T (S, Complete_Test_Iterator t b))"
proof -
  show "\<exists>q. reads G 2 (signal_trees G T S (Complete_Test_Suite t b)) p q \<and> emits p q (signal_sent G T (S, Complete_Test_Suite t b))"
    if "is_object {Suite_Object} S t"
    using reads_complete_object [OF G p that, where push = PUSH_TEST_SUITE and s = IN_COMPLETE_TEST_SUITE
        and st = IN_TEST_SUITE and n = "''complete-test-suite''" and sig = Complete_Test_Suite]
    by (simp add: start_stream_def start_in_state_def start_complete_test_suite_def end_in_state_def
        end_complete_test_suite_def push_unfolds)
  show "\<exists>q. reads G 2 (signal_trees G T S (Complete_Test_Case t b)) p q \<and> emits p q (signal_sent G T (S, Complete_Test_Case t b))"
    if "is_object {Case_Object} S t"
    using reads_complete_object [OF G p that, where push = PUSH_TEST_CASE and s = IN_COMPLETE_TEST_CASE
        and st = IN_TEST_CASE and n = "''complete-test-case''" and sig = Complete_Test_Case]
    by (simp add: start_stream_def start_in_state_def start_complete_test_case_def end_in_state_def
        end_complete_test_case_def push_unfolds)
  show "\<exists>q. reads G 2 (signal_trees G T S (Complete_Test_Iterator t b)) p q \<and> emits p q (signal_sent G T (S, Complete_Test_Iterator t b))"
    if "is_object {Iterator_Object} S t"
    using reads_complete_object [OF G p that, where push = PUSH_TEST_ITERATOR and s = IN_COMPLETE_TEST_ITERATOR
        and st = IN_TEST_ITERATOR and n = "''complete-test-iterator''" and sig = Complete_Test_Iterator]
    by (simp add: start_stream_def start_in_state_def start_complete_test_iterator_def end_in_state_def
        end_complete_test_iterator_def push_unfolds)
qed

lemmas ready_steps = start_stream_def start_in_state_def end_in_state_def leaf_ends with_pointer_def new_test_def
  PUSH_STATE_def push_unfolds text_in_state_def settled_simps settled_fields pointer_def

lemma ready_suite_signal:
  assumes "text_tools_ok G" "idle p" "is_object {Suite_Object} S t" "n < 2147483648" "m < 2147483648"
  shows "\<exists>q. reads G 2 (signal_trees G T S (Ready_Test_Suite t n m)) p q \<and>
    emits p q (signal_sent G T (S, Ready_Test_Suite t n m))"
proof -
  have "\<exists>q. reads G 2 [Node ''ready-test-suite'' (stored_test_tree G S t #
      (if True then [number_leaf ''n-test-cases'' n] else []) @ [number_leaf ''n-tests'' m])] p q \<and>
    emits p q (signal_sent G T (S, Ready_Test_Suite t n m))"
    by (rule ready_suite.reads_ready_signal [OF assms(1,2,3), where push = PUSH_TEST_SUITE and s = IN_READY_TEST_SUITE
        and st = IN_TEST_SUITE and sc = IN_READY_TEST_SUITE_N_TEST_CASES and sn = IN_READY_TEST_SUITE_N_TESTS])
       (simp_all add: assms ready_steps start_ready_test_suite_def end_ready_test_suite_def
         text_ready_test_suite_n_tests_def text_ready_test_suite_n_test_cases_def)
  then show ?thesis by simp
qed

lemma ready_case_signal:
  assumes "text_tools_ok G" "idle p" "is_object {Case_Object} S t" "m < 2147483648"
  shows "\<exists>q. reads G 2 (signal_trees G T S (Ready_Test_Case t m)) p q \<and>
    emits p q (signal_sent G T (S, Ready_Test_Case t m))"
proof -
  have "\<exists>q. reads G 2 [Node ''ready-test-case'' (stored_test_tree G S t #
      (if False then [number_leaf ''n-test-cases'' 0] else []) @ [number_leaf ''n-tests'' m])] p q \<and>
    emits p q (signal_sent G T (S, (\<lambda>t n m. Ready_Test_Case t m) t 0 m))"
    by (rule ready_case.reads_ready_signal [OF assms(1,2,3), where push = PUSH_TEST_CASE and s = IN_READY_TEST_CASE
        and st = IN_TEST_CASE and sc = IN_READY_TEST_CASE_N_TESTS and sn = IN_READY_TEST_CASE_N_TESTS])
       (simp_all add: assms ready_steps start_ready_test_case_def end_ready_test_case_def text_ready_test_case_n_tests_def)
  then show ?thesis by simp
qed

lemma ready_iterator_signal:
  assumes "text_tools_ok G" "idle p" "is_object {Iterator_Object} S t" "m < 2147483648"
  shows "\<exists>q. reads G 2 (signal_trees G T S (Ready_Test_Iterator t m)) p q \<and>
    emits p q (signal_sent G T (S, Ready_Test_Iterator t m))"
proof -
  have "\<exists>q. reads G 2 [Node ''ready-test-iterator'' (stored_test_tree G S t #
      (if False then [number_leaf ''n-test-cases'' 0] else []) @ [number_leaf ''n-tests'' m])] p q \<and>
    emits p q (signal_sent G T (S, (\<lambda>t n m. Ready_Test_Iterator t m) t 0 m))"
    by (rule ready_iterator.reads_ready_signal [OF assms(1,2,3), where push = PUSH_TEST_ITERATOR and s = IN_READY_TEST_ITERATOR
        and st = IN_TEST_ITERATOR and sc = IN_READY_TEST_ITERATOR_N_TESTS and sn = IN_READY_TEST_ITERATOR_N_TESTS])
       (simp_all add: assms ready_steps start_ready_test_iterator_def end_ready_test_iterator_def
         text_ready_test_iterator_n_tests_def)
  then show ?thesis by simp
qed


lemma settled_info: "settled p (drop_info i q) = settled p q"
  by (simp add: drop_info_def settled_simps)

lemmas info_steps = start_stream_def start_in_state_def end_in_state_def settled_info settled_fields settled_simps
  pointer_def

lemma start_test_signal:
  assumes "text_tools_ok G" "idle p" "is_object {Test_Object} S t" "given_context S c"
  shows "\<exists>q. reads G 2 (signal_trees G T S (Start_Test t c)) p q \<and> emits p q (signal_sent G T (S, Start_Test t c))"
proof -
  have "\<exists>q. reads G 2 [Node ''start-test'' (stored_test_tree G S t # stored_context_trees G S c @ success_trees None)] p q \<and>
    emits p q (signal_sent G T (S, Start_Test t c))"
    by (rule start_test.reads_info_signal [OF assms(1,2,3), where s = IN_START_TEST and st = "\<lambda>k. IN_TEST"])
       (use assms(4) in \<open>simp_all add: given_context_def info_steps start_start_test_def end_start_test_def\<close>)
  then show ?thesis by (simp add: success_trees_def)
qed

lemma start_iterated_test_signal:
  assumes "text_tools_ok G" "idle p" "is_object {Iterated_Test_Object} S t" "given_context S c"
  shows "\<exists>q. reads G 2 (signal_trees G T S (Start_Iterated_Test t c)) p q \<and>
    emits p q (signal_sent G T (S, Start_Iterated_Test t c))"
proof -
  have "\<exists>q. reads G 2 [Node ''start-iterated-test''
      (stored_test_tree G S t # stored_context_trees G S c @ success_trees None)] p q \<and>
    emits p q (signal_sent G T (S, Start_Iterated_Test t c))"
    by (rule start_iterated_test.reads_info_signal [OF assms(1,2,3), where s = IN_START_ITERATED_TEST
          and st = "\<lambda>k. IN_ITERATED_TEST"])
       (use assms(4) in \<open>simp_all add: given_context_def info_steps start_start_iterated_test_def
          end_start_iterated_test_def\<close>)
  then show ?thesis by (simp add: success_trees_def)
qed

lemma pass_assertion_signal:
  assumes "text_tools_ok G" "idle p" "is_object {Test_Object, Iterated_Test_Object} S t" "given_context S c"
  shows "\<exists>q. reads G 2 (signal_trees G T S (Pass_Assertion t c)) p q \<and>
    emits p q (signal_sent G T (S, Pass_Assertion t c))"
proof -
  have "\<exists>q. reads G 2 [Node ''pass-assertion''
      (stored_test_tree G S t # stored_context_trees G S c @ success_trees None)] p q \<and>
    emits p q (signal_sent G T (S, Pass_Assertion t c))"
    by (rule pass_assertion.reads_info_signal [OF assms(1,2,3), where s = IN_PASS_ASSERTION
          and st = "\<lambda>k. if k = Test_Object then IN_TEST else IN_ITERATED_TEST"])
       (use assms(4) in \<open>auto simp: given_context_def info_steps start_pass_assertion_def end_pass_assertion_def\<close>)
  then show ?thesis by (simp add: success_trees_def)
qed

lemma complete_test_signal:
  assumes "text_tools_ok G" "idle p" "is_object {Test_Object} S t"
    "pred_option (\<lambda>c. readable_context S (ms_contexts S ! c)) c"
  shows "\<exists>q. reads G 2 (signal_trees G T S (Complete_Test t c b)) p q \<and>
    emits p q (signal_sent G T (S, Complete_Test t c b))"
proof -
  have "\<exists>q. reads G 2 [Node ''complete-test''
      (stored_test_tree G S t # stored_context_trees G S c @ success_trees (Some b))] p q \<and>
    emits p q (signal_sent G T (S, (\<lambda>t c. Complete_Test t c b) t c))"
    by (rule complete_test.reads_info_signal [OF assms(1,2,3), where s = IN_COMPLETE_TEST and st = "\<lambda>k. IN_TEST"])
       (use assms(4) in \<open>simp_all add: info_steps start_complete_test_def end_complete_test_def\<close>)
  then show ?thesis by (simp add: success_trees_def)
qed

lemma complete_iterated_test_signal:
  assumes "text_tools_ok G" "idle p" "is_object {Iterated_Test_Object} S t" "given_context S c"
  shows "\<exists>q. reads G 2 (signal_trees G T S (Complete_Iterated_Test t c b)) p q \<and>
    emits p q (signal_sent G T (S, Complete_Iterated_Test t c b))"
proof -
  have "\<exists>q. reads G 2 [Node ''complete-iterated-test''
      (stored_test_tree G S t # stored_context_trees G S c @ success_trees (Some b))] p q \<and>
    emits p q (signal_sent G T (S, (\<lambda>t c. Complete_Iterated_Test t c b) t c))"
    by (rule complete_iterated_test.reads_info_signal [OF assms(1,2,3), where s = IN_COMPLETE_ITERATED_TEST
          and st = "\<lambda>k. IN_ITERATED_TEST"])
       (use assms(4) in \<open>simp_all add: given_context_def info_steps start_complete_iterated_test_def
          end_complete_iterated_test_def\<close>)
  then show ?thesis by (simp add: success_trees_def)
qed


lemma test_result_signal:
  assumes "text_tools_ok G" "idle p" "is_object {Test_Object, Iterated_Test_Object} S t" "given_context S c"
    "readable_result S r"
  shows "\<exists>q. reads G 2 (signal_trees G T S (Status_Test (result_status r) t c r)) p q \<and>
    emits p q (signal_sent G T (S, Status_Test (result_status r) t c r))"
proof -
  have "\<exists>q. reads G 2 [Node ''test-result'' (stored_test_tree G S t # stored_context_trees G S c @ [result_tree G T S r])] p q \<and>
    emits p q (signal_sent G T (S, Status_Test (result_status r) t c r))"
    by (rule test_result.reads_result_signal [OF assms(1,2,3,5), where s = IN_TEST_RESULT and push = PUSH_TEST
          and st = "\<lambda>k. if k = Test_Object then IN_TEST else IN_ITERATED_TEST" and with_context = True])
       (use assms(4) in \<open>auto simp: info_steps start_test_result_def end_test_result_def emit_result_def
          with_pointer_def new_test_def PUSH_STATE_def PUSH_TEST_def\<close>)
  then show ?thesis by simp
qed

lemma iterator_result_signal:
  assumes "text_tools_ok G" "idle p" "is_object {Iterator_Object} S t" "readable_result S r"
  shows "\<exists>q. reads G 2 (signal_trees G T S (Status_Test_Iterator (result_status r) t r)) p q \<and>
    emits p q (signal_sent G T (S, Status_Test_Iterator (result_status r) t r))"
proof -
  have "\<exists>q. reads G 2 [Node ''test-iterator-result''
      (stored_test_tree G S t # stored_context_trees G S None @ [result_tree G T S r])] p q \<and>
    emits p q (signal_sent G T (S, (\<lambda>a t c r. Status_Test_Iterator a t r) (result_status r) t None r))"
    by (rule iterator_result.reads_result_signal [OF assms(1-4), where s = IN_TEST_ITERATOR_RESULT
          and push = PUSH_TEST_ITERATOR and st = "\<lambda>k. IN_TEST_ITERATOR" and with_context = False])
       (auto simp: info_steps start_test_iterator_result_def end_test_iterator_result_def emit_result_def
          with_pointer_def new_test_def PUSH_STATE_def push_unfolds)
  then show ?thesis by (simp add: stored_context_trees_def opt_tree_def)
qed

lemma case_result_signal:
  assumes "text_tools_ok G" "idle p" "is_object {Case_Object} S t" "readable_result S r"
  shows "\<exists>q. reads G 2 (signal_trees G T S (Status_Test_Case (result_status r) t r)) p q \<and>
    emits p q (signal_sent G T (S, Status_Test_Case (result_status r) t r))"
proof -
  have "\<exists>q. reads G 2 [Node ''test-case-result''
      (stored_test_tree G S t # stored_context_trees G S None @ [result_tree G T S r])] p q \<and>
    emits p q (signal_sent G T (S, (\<lambda>a t c r. Status_Test_Case a t r) (result_status r) t None r))"
    by (rule case_result.reads_result_signal [OF assms(1-4), where s = IN_TEST_CASE_RESULT
          and push = PUSH_TEST_CASE and st = "\<lambda>k. IN_TEST_CASE" and with_context = False])
       (auto simp: info_steps start_test_case_result_def end_test_case_result_def emit_result_def
          with_pointer_def new_test_def PUSH_STATE_def push_unfolds)
  then show ?thesis by (simp add: stored_context_trees_def opt_tree_def)
qed

text \<open>The signals that are written, apart from the ones that frame the run.\<close>

fun streamed :: "run_signal \<Rightarrow> bool" where
  "streamed Start_Run = False"
| "streamed (Complete_Run b) = False"
| "streamed (Status_In_Test_Case s k r) = False"
| "streamed (Crash_Test_Suite s r) = False"
| "streamed (Error_Signal m) = False"
| "streamed sig = True"

lemma streamed_signal:
  assumes "text_tools_ok G" "idle p" "readable_signal S sig" "streamed sig"
  shows "\<exists>q. reads G 2 (signal_trees G T S sig) p q \<and> emits p q (signal_sent G T (S, sig))"
  using assms
  by (cases sig)
     (simp_all add: start_signals complete_signals ready_suite_signal ready_case_signal ready_iterator_signal
        start_test_signal start_iterated_test_signal pass_assertion_signal complete_test_signal
        complete_iterated_test_signal test_result_signal iterator_result_signal case_result_signal
        del: signal_trees.simps)

lemma other_signal: "\<not> streamed sig \<Longrightarrow> signal_trees G T S sig = []"
  by (cases sig) simp_all

section \<open>A document\<close>

lemma reads_moments:
  assumes "text_tools_ok G" "idle p" "\<forall>(S, sig) \<in> set moments. readable_signal S sig"
  shows "\<exists>q. reads G 2 (concat (map (\<lambda>(S, sig). signal_trees G T S sig) moments)) p q \<and> idle q \<and>
    (\<exists>es. sp_emitted q = sp_emitted p @ es \<and>
      map signal_seen es = map (signal_sent G T) (filter (\<lambda>(S, sig). streamed sig) moments))"
  using assms(2,3)
proof (induction moments arbitrary: p)
  case (Cons m moments)
  obtain S sig where m: "m = (S, sig)" by (cases m)
  show ?case
  proof (cases "streamed sig")
    case True
    obtain q1 where q1: "reads G 2 (signal_trees G T S sig) p q1" "emits p q1 (signal_sent G T (S, sig))"
      using streamed_signal [OF assms(1) Cons.prems(1) _ True] Cons.prems(2) m by fastforce
    obtain e where e: "sp_emitted q1 = sp_emitted p @ [e]" "signal_seen e = signal_sent G T (S, sig)" "idle q1"
      using q1(2) by (auto simp: emits_def)
    obtain q es where q: "reads G 2 (concat (map (\<lambda>(S, sig). signal_trees G T S sig) moments)) q1 q" "idle q"
      "sp_emitted q = sp_emitted q1 @ es"
      "map signal_seen es = map (signal_sent G T) (filter (\<lambda>(S, sig). streamed sig) moments)"
      using Cons.IH [OF e(3)] Cons.prems(2) by auto
    show ?thesis
    proof (intro exI conjI)
      show "reads G 2 (concat (map (\<lambda>(S, sig). signal_trees G T S sig) (m # moments))) p q"
        using reads_appendI [OF q1(1) q(1)] by (simp add: m)
      show "sp_emitted q = sp_emitted p @ e # es" using q(3) e(1) by simp
      show "map signal_seen (e # es) =
          map (signal_sent G T) (filter (\<lambda>(S, sig). streamed sig) (m # moments))"
        using q(4) e(2) True by (simp add: m)
    qed (rule q(2))
  next
    case False
    then show ?thesis using Cons.IH [OF Cons.prems(1)] Cons.prems(2) by (simp add: m other_signal)
  qed
qed auto

definition stream_events ::
  "text_tools \<Rightarrow> diff_tools \<Rightarrow> (markup_store \<times> run_signal) list \<Rightarrow> bool \<Rightarrow> xml_event list" where
  "stream_events G T moments b = tree_events 0 (run_tree G T moments b)"

lemma reads_stream:
  assumes G: "text_tools_ok G" and moments: "\<forall>(S, sig) \<in> set moments. readable_signal S sig"
  obtains q rc where
    "cut_stream_parser_parse G (stream_events G T moments b) (cut_stream_parser_new (Some rc0)) = Inr q"
    "sp_run_context q = Some rc"
    "map signal_seen (sp_emitted q) =
       [Signal_View ''stream'' None None None [] None] @
       map (signal_sent G T) (filter (\<lambda>(S, sig). streamed sig) moments) @
       [Signal_View ''success'' None None None []
         (Some (b \<and> \<not> cut_test_result_status_is_critical (cut_run_context_get_status rc)))]"
proof -
  let ?p0 = "cut_stream_parser_new (Some rc0)"
  let ?p1 = "emit_signal Start_Run (PUSH_STATE IN_STREAM (opened ''stream'' ?p0))"
  let ?ts = "concat (map (\<lambda>(S, sig). signal_trees G T S sig) moments)"
  have p0: "sp_states ?p0 = [IN_TOP_LEVEL]" "PEEK_STATE ?p0 = IN_TOP_LEVEL"
    by (simp_all add: cut_stream_parser_new_def PEEK_STATE_def)
  have p1: "idle ?p1" "map signal_seen (sp_emitted ?p1) = [Signal_View ''stream'' None None None [] None]"
    by (simp_all add: idle_def emit_signal_def PUSH_STATE_def opened_def cut_stream_parser_new_def signal_seen_def)
  obtain p2 es where 2: "reads G 2 ?ts ?p1 p2" "idle p2" "sp_emitted p2 = sp_emitted ?p1 @ es"
    "map signal_seen es = map (signal_sent G T) (filter (\<lambda>(S, sig). streamed sig) moments)"
    using reads_moments [OF G p1(1) moments] by blast
  let ?p3 = "p2\<lparr>sp_stream_success := b\<rparr>"
  have 3: "reads G 2 [success_leaf b] p2 ?p3"
  proof (rule reads_plain_leaf [where s = IN_STREAM_SUCCESS and f = "\<lambda>q. q\<lparr>sp_stream_success := b\<rparr>"])
    show "text_in_state G IN_STREAM_SUCCESS (boolean_text b) (PUSH_STATE IN_STREAM_SUCCESS (opened ''success'' p2)) =
        Inr ((PUSH_STATE IN_STREAM_SUCCESS (opened ''success'' p2))\<lparr>sp_stream_success := b\<rparr>)"
      using boolean_read [of b] by (simp add: text_in_state_def text_stream_success_def boolean_text_def)
  qed (use 2(2) boolean_read [of b] in \<open>simp_all add: idle_peek start_in_state_def start_stream_def leaf_ends
      plain_change_def boolean_text_def\<close>)
  obtain rc where rc: "sp_run_context p2 = Some rc" using 2(2) by (auto simp: idle_def)
  let ?b = "b \<and> \<not> cut_test_result_status_is_critical (cut_run_context_get_status rc)"
  let ?q = "emit_signal (Complete_Run ?b) (popped ?p3)"
  have stop: "end_in_state IN_STREAM (popped ?p3) = Inr ?q"
    using rc by (simp add: end_in_state_def end_stream_def popped_def)
  have "reads G 0 [Node ''stream'' (?ts @ [success_leaf b])] ?p0 (closed ?q)"
  proof (rule reads_Node)
    show "start_in_state (PEEK_STATE ?p0) ''stream'' (opened ''stream'' ?p0) = Inr ?p1"
      by (simp add: p0 start_in_state_def start_top_level_def)
    show "reads G (0 + 2) (?ts @ [success_leaf b]) ?p1 ?p3" using reads_appendI [OF 2(1) 3] by (simp only: add_0)
    have "PEEK_STATE ?p3 = IN_STREAM" using 2(2) by (simp add: idle_def PEEK_STATE_def)
    then show "container (PEEK_STATE ?p3)" "end_in_state (PEEK_STATE ?p3) (popped ?p3) = Inr ?q"
      using stop by simp_all
  qed (simp_all add: p0)
  then have "cut_stream_parser_parse G (stream_events G T moments b) ?p0 = Inr (closed ?q)"
    by (simp add: reads_Cons p0 stream_events_def run_tree_def del: tree_events.simps)
  moreover have "sp_run_context (closed ?q) = Some (complete_run rc)"
    using rc by (simp add: closed_def emit_signal_def popped_def)
  moreover have "map signal_seen (sp_emitted (closed ?q)) =
      [Signal_View ''stream'' None None None [] None] @
      map (signal_sent G T) (filter (\<lambda>(S, sig). streamed sig) moments) @
      [Signal_View ''success'' None None None []
        (Some (b \<and> \<not> cut_test_result_status_is_critical (cut_run_context_get_status (complete_run rc))))]"
  proof -
    have "cut_run_context_get_status (complete_run rc) = cut_run_context_get_status rc"
      by (simp add: complete_run_def cut_run_context_get_status_def)
    moreover have "sp_emitted (closed ?q) = sp_emitted p2 @ [(sp_store p2, Complete_Run ?b)]"
      using rc by (simp add: closed_def popped_def)
    ultimately show ?thesis using 2(3,4) p1(2) by (simp add: signal_seen_def Let_def)
  qed
  ultimately show ?thesis by (rule that)
qed

text \<open>C1: What one run context is told through the stream is what the other was told. The text that is
  written for a run is the text of a sequence of markup events, and a parser that is fed those events
  emits on its run context the start of the run, then for every signal that is written the same signal,
  in the same order, about objects that look the same, and then the completion of the run, which is
  successful only if the run was and the parser's run context has no critical status.\<close>

theorem stream_round_trip:
  assumes "text_tools_ok G" and "list_all (\<lambda>(S, sig). readable_signal S sig \<and> \<not> frames_run sig) moments"
  shows "stream_text G T ((S0, Start_Run) # moments @ [(S1, Complete_Run b)]) =
      render G (stream_events G T moments b) @ newline \<and>
    (\<exists>q rc. cut_stream_parser_parse G (stream_events G T moments b) (cut_stream_parser_new (Some rc0)) = Inr q \<and>
      sp_run_context q = Some rc \<and>
      map signal_seen (sp_emitted q) =
        [Signal_View ''stream'' None None None [] None] @
        map (signal_sent G T) (filter (\<lambda>(S, sig). streamed sig) moments) @
        [Signal_View ''success'' None None None []
          (Some (b \<and> \<not> cut_test_result_status_is_critical (cut_run_context_get_status rc)))])"
proof
  have moments: "\<forall>(S, sig) \<in> set moments. readable_signal S sig" "\<forall>(S, sig) \<in> set moments. \<not> frames_run sig"
    using assms(2) by (auto simp: list_all_iff)
  show "stream_text G T ((S0, Start_Run) # moments @ [(S1, Complete_Run b)]) =
      render G (stream_events G T moments b) @ newline"
    unfolding stream_tree [OF assms(1) moments(2)] stream_events_def write_tree_events [OF assms(1)]
    by (simp add: cut_utils_append_indent_def)
  show "\<exists>q rc. cut_stream_parser_parse G (stream_events G T moments b) (cut_stream_parser_new (Some rc0)) = Inr q \<and>
      sp_run_context q = Some rc \<and>
      map signal_seen (sp_emitted q) =
        [Signal_View ''stream'' None None None [] None] @
        map (signal_sent G T) (filter (\<lambda>(S, sig). streamed sig) moments) @
        [Signal_View ''success'' None None None []
          (Some (b \<and> \<not> cut_test_result_status_is_critical (cut_run_context_get_status rc)))]"
    by (rule reads_stream [OF assms(1) moments(1)]) blast
qed

text \<open>Library functions that satisfy what is used of them, and a run with a failing test.\<close>

definition simple_tools :: text_tools where
  "simple_tools =
     \<lparr>escape_text = \<lambda>s. s, print_double = \<lambda>x. ascii ''0.5'', ascii_strtod = \<lambda>s. (1 / 2, length s),
      to_iso8601 = \<lambda>t. [nat (fst t), nat (snd t)],
      from_iso8601 = \<lambda>s. case s of [x, y] \<Rightarrow> Some (int x, int y) | _ \<Rightarrow> None\<rparr>"

lemma simple_tools_ok: "text_tools_ok simple_tools"
  by (auto simp: text_tools_ok_def simple_tools_def cut_utils_double_to_string_def ascii_def valid_time_def)

definition sample_store :: markup_store where
  "sample_store =
     (let e = (\<lambda>k n kvs. (empty_test k)\<lparr>mt_name := Some (ascii n), mt_attributes := kvs, mt_start_time := (12, 5)\<rparr>)
      in \<lparr>ms_tests = [empty_test Test_Object, e Suite_Object ''suite'' [], e Case_Object ''case'' [],
                      e Test_Object ''test_add'' [(ascii ''bug'', ascii ''123''), (description_key, ascii ''adds'')]],
          ms_data = [None],
          ms_contexts = [empty_context, empty_context\<lparr>mc_suite := Some 1, mc_case := Some 2, mc_test := Some 3,
            mc_failed := True\<rparr>]\<rparr>)"

definition sample_result :: test_result where
  "sample_result =
     (cut_test_result_new FAILURE (Some 3) None (Some 2) (Some 1) None None (Some (ascii ''expected'')) [])
     \<lparr>result_backtrace := [\<lparr>entry_file = Some (ascii ''test.c''), entry_line = 29,
        entry_function = Some (ascii ''test_add''), entry_info = Some (ascii ''cut_assert(1 > 2)'')\<rparr>],
      result_expected := Some (ascii ''1''), result_actual := Some (ascii ''2'')\<rparr>"

definition sample_moments :: "(markup_store \<times> run_signal) list" where
  "sample_moments = map (Pair sample_store)
     [Ready_Test_Suite 1 1 1, Start_Test 3 (Some 1), Status_Test FAILURE 3 (Some 1) sample_result,
      Complete_Test 3 (Some 1) False, Crash_Test_Suite 1 sample_result, Complete_Test_Suite 1 False]"

lemma sample_readable:
  "list_all (\<lambda>(S, sig). readable_signal S sig \<and> \<not> frames_run sig) sample_moments"
  by (simp add: sample_moments_def sample_store_def sample_result_def holds_kind_def given_context_def
      readable_context_def readable_result_def readable_test_def readable_entry_def readable_info_def
      cut_test_result_new_def cut_test_result_init_def cut_test_result_set_user_message_def
      cut_test_result_set_system_message_def reset_message_def empty_test_def empty_context_def valid_time_def
      other_attributes_def entry_written_def function_text_def has_suffix_def description_key_def ascii_def Let_def)

theorem stream_round_trip_witness:
  "\<forall>T rc0. \<exists>q rc. cut_stream_parser_parse simple_tools (stream_events simple_tools T sample_moments False)
      (cut_stream_parser_new (Some rc0)) = Inr q \<and> sp_run_context q = Some rc \<and>
    map view_name (map signal_seen (sp_emitted q)) =
      [''stream'', ''ready-test-suite'', ''start-test'', ''test-result'', ''complete-test'', ''complete-test-suite'',
       ''success'']"
proof (intro allI)
  fix T rc0
  show "\<exists>q rc. cut_stream_parser_parse simple_tools (stream_events simple_tools T sample_moments False)
      (cut_stream_parser_new (Some rc0)) = Inr q \<and> sp_run_context q = Some rc \<and>
    map view_name (map signal_seen (sp_emitted q)) =
      [''stream'', ''ready-test-suite'', ''start-test'', ''test-result'', ''complete-test'', ''complete-test-suite'',
       ''success'']"
    using stream_round_trip [OF simple_tools_ok sample_readable, of T sample_store sample_store False rc0]
    by (auto simp: sample_moments_def signal_sent_def Let_def)
qed

end
