(* ===== verification/Forked_Results.thy ===== *)
theory Forked_Results
  imports Stream_Round_Trip
begin

text \<open>
  Results of forked processes (\<open>cutter/cut-test-context.c\<close>, \<open>cutter/cut-process.c\<close>): a
  child writes each of its results as a document of its own to a pipe
  (\<open>cut_process_send_test_result_to_parent\<close>); the parent cuts what it has read at every
  \<open><result>\<close> and reads each piece back (\<open>cut_test_result_new_from_xml\<close>). The
  tokenizer of GMarkup is the argument \<open>K\<close>, which reports the events of a text.
\<close>

section \<open>One result\<close>

definition cut_test_result_to_xml :: "text_tools \<Rightarrow> diff_tools \<Rightarrow> markup_store \<Rightarrow> test_result \<Rightarrow> ustring" where
  "cut_test_result_to_xml G T S r = cut_test_result_to_xml_string G T S r 0"

text \<open>Parsing goes on until the first error; a NULL pointer ends the process.\<close>

primrec parse_until :: "text_tools \<Rightarrow> xml_event list \<Rightarrow> stream_parser \<Rightarrow> stream_parser option" where
  "parse_until G [] p = Some p"
| "parse_until G (e # es) p =
     (case handle_event G e p of
        Inr q \<Rightarrow> parse_until G es q
      | Inl Null_Pointer \<Rightarrow> None
      | Inl (Parse_Error path message) \<Rightarrow> Some p)"

text \<open>The result that was emitted last is kept, with the objects it refers to.\<close>

definition collect_result :: "stream_parser \<Rightarrow> (markup_store \<times> test_result) option" where
  "collect_result p =
     (if sp_results_emitted p = [] then None else Some (sp_store p, last (sp_results_emitted p)))"

definition cut_test_result_new_from_xml ::
  "(ustring \<Rightarrow> xml_event list) \<Rightarrow> text_tools \<Rightarrow> ustring \<Rightarrow> (markup_store \<times> test_result) option option" where
  "cut_test_result_new_from_xml K G xml =
     map_option collect_result (parse_until G (K xml) cut_test_result_parser_new)"

section \<open>Several results\<close>

definition result_mark :: ustring where
  "result_mark = ascii ''<result>''"

function result_chunks :: "ustring \<Rightarrow> ustring list" where
  "result_chunks xml =
     (case strstr (tl xml) result_mark of
        None \<Rightarrow> [xml]
      | Some (u, rest) \<Rightarrow> take (length xml - length rest) xml # result_chunks rest)"
  by auto
termination
proof (relation "measure length")
  fix xml u rest x
  assume a: "strstr (tl xml) result_mark = Some x" "(u, rest) = x"
  then have "tl xml = u @ rest" by (auto dest: strstr_parts)
  moreover have "xml \<noteq> []" using a by (auto simp: result_mark_def ascii_def)
  ultimately show "(rest, xml) \<in> measure length" by (cases xml) auto
qed simp

declare result_chunks.simps [simp del]

text \<open>The loop of \<open>cut_test_context_wait_process\<close>: the results it emits, in order.\<close>

fun results_of_chunks ::
  "(ustring \<Rightarrow> xml_event list) \<Rightarrow> text_tools \<Rightarrow> ustring list \<Rightarrow> (markup_store \<times> test_result) list option" where
  "results_of_chunks K G [] = Some []"
| "results_of_chunks K G (x # xs) =
     (case cut_test_result_new_from_xml K G x of
        None \<Rightarrow> None
      | Some None \<Rightarrow> results_of_chunks K G xs
      | Some (Some r) \<Rightarrow> map_option (\<lambda>rs. r # rs) (results_of_chunks K G xs))"

definition forked_results ::
  "(ustring \<Rightarrow> xml_event list) \<Rightarrow> text_tools \<Rightarrow> ustring \<Rightarrow> (markup_store \<times> test_result) list option" where
  "forked_results K G xml =
     (case strstr xml result_mark of
        None \<Rightarrow> Some []
      | Some (u, x) \<Rightarrow> results_of_chunks K G (result_chunks x))"

section \<open>Cutting\<close>

text \<open>A text in which no \<open><result>\<close> begins, whatever follows it.\<close>

definition quiet :: "ustring \<Rightarrow> bool" where
  "quiet s \<longleftrightarrow> (\<forall>u v. s = u @ 60 # v \<longrightarrow> (\<exists>n w. v = n @ 62 # w \<and> 62 \<notin> set n \<and> n \<noteq> ascii ''result''))"

lemma quiet_plain: "60 \<notin> set s \<Longrightarrow> quiet s"
  by (auto simp: quiet_def)

lemma quiet_append: "quiet s \<Longrightarrow> quiet t \<Longrightarrow> quiet (s @ t)"
  unfolding quiet_def
proof (intro allI impI)
  fix u v
  assume s: "\<forall>u v. s = u @ 60 # v \<longrightarrow> (\<exists>n w. v = n @ 62 # w \<and> 62 \<notin> set n \<and> n \<noteq> ascii ''result'')"
    and t: "\<forall>u v. t = u @ 60 # v \<longrightarrow> (\<exists>n w. v = n @ 62 # w \<and> 62 \<notin> set n \<and> n \<noteq> ascii ''result'')"
    and eq: "s @ t = u @ 60 # v"
  then obtain us where "s = u @ us \<and> us @ t = 60 # v \<or> s @ us = u \<and> t = us @ 60 # v"
    by (auto simp: append_eq_append_conv2)
  then show "\<exists>n w. v = n @ 62 # w \<and> 62 \<notin> set n \<and> n \<noteq> ascii ''result''"
  proof
    assume us: "s = u @ us \<and> us @ t = 60 # v"
    show ?thesis
    proof (cases us)
      case Nil
      then show ?thesis using us t by (metis append_Nil)
    next
      case (Cons a x)
      then have "s = u @ 60 # x" "v = x @ t" using us by auto
      then show ?thesis using s by (metis append.assoc append_Cons)
    qed
  qed (use t in blast)
qed

lemma quiet_tag: "62 \<notin> set n \<Longrightarrow> 60 \<notin> set n \<Longrightarrow> n \<noteq> ascii ''result'' \<Longrightarrow> quiet (60 # n @ [62])"
  unfolding quiet_def
proof (intro allI impI)
  fix u v
  assume n: "62 \<notin> set n" "60 \<notin> set n" "n \<noteq> ascii ''result''" and eq: "60 # n @ [62] = u @ 60 # v"
  have "u = []"
  proof (rule ccontr)
    assume "u \<noteq> []"
    then obtain a us where "u = a # us" by (cases u) auto
    then have "n @ [62] = us @ 60 # v" using eq by simp
    then have "60 \<in> set (n @ [62])" by (simp add: in_set_conv_decomp)
    then show False using n by simp
  qed
  then show "\<exists>n w. v = n @ 62 # w \<and> 62 \<notin> set n \<and> n \<noteq> ascii ''result''" using eq n by auto
qed

lemma name_before_mark:
  assumes "take 7 (n @ 62 # x) = ascii ''result'' @ [62]" "62 \<notin> set n"
  shows "n = ascii ''result''"
proof -
  have *: "takeWhile (\<lambda>c. c \<noteq> 62) (ascii ''result'' @ [62]) = ascii ''result''" by (simp add: ascii_def)
  have "62 \<in> set (take 7 (n @ 62 # x))" unfolding assms(1) by simp
  then have "length n < 7"
    using assms(2) by (metis in_set_takeD not_less take_all_iff take_append append.right_neutral diff_is_0_eq take_0)
  then have "take 7 (n @ 62 # x) = n @ 62 # take (6 - length n) x"
    by (simp add: take_Cons' )
  then have "takeWhile (\<lambda>c. c \<noteq> 62) (take 7 (n @ 62 # x)) = n"
    using assms(2) by (simp add: takeWhile_append)
  then show ?thesis using assms(1) * by simp
qed

lemma strstr_quiet:
  assumes "quiet s"
  shows "strstr (s @ t) result_mark = map_option (\<lambda>(u, v). (s @ u, v)) (strstr t result_mark)"
  using assms
proof (induction s)
  case (Cons c s)
  have "quiet s" using Cons.prems unfolding quiet_def by (metis append_Cons)
  moreover have "take (length result_mark) ((c # s) @ t) \<noteq> result_mark"
  proof
    assume mark: "take (length result_mark) ((c # s) @ t) = result_mark"
    then have c: "c = 60" by (simp add: result_mark_def ascii_def)
    obtain n w where n: "s = n @ 62 # w" "62 \<notin> set n" "n \<noteq> ascii ''result''"
      using Cons.prems c unfolding quiet_def by (metis append_Nil)
    have "take 7 (n @ 62 # w @ t) = ascii ''result'' @ [62]"
      using mark c n(1) by (simp add: result_mark_def ascii_def eval_nat_numeral)
    then show False using name_before_mark n by blast
  qed
  ultimately show ?case using Cons.IH by (cases "strstr t result_mark") (auto split: prod.splits)
qed (simp add: option.map_ident split_def)


lemma ascii_eq [simp]: "ascii a = ascii b \<longleftrightarrow> a = b"
proof -
  have "inj (of_char :: char \<Rightarrow> gunichar)" by (rule injI) simp
  then show ?thesis by (simp add: ascii_def inj_map_eq_map)
qed

primrec tree_names :: "xml_tree \<Rightarrow> string set" where
  "tree_names (Leaf n v) = {n}"
| "tree_names (Node n ts) = insert n (\<Union> (set (map tree_names ts)))"

definition inner_name :: "string \<Rightarrow> bool" where
  "inner_name n \<longleftrightarrow> n \<noteq> ''result'' \<and> list_all name_char n"

definition escapes_markup :: "text_tools \<Rightarrow> bool" where
  "escapes_markup G \<longleftrightarrow> (\<forall>v. 60 \<notin> set (escape_text G v))"

lemma name_plain: "inner_name n \<Longrightarrow> 60 \<notin> set (ascii n) \<and> 62 \<notin> set (ascii n)"
  by (auto simp: inner_name_def list_all_iff name_char_def ascii_def)

lemma quiet_open: "inner_name n \<Longrightarrow> quiet (open_tag (ascii n))"
  unfolding open_tag_def using quiet_tag [of "ascii n"] name_plain [of n] by (simp add: inner_name_def)

lemma quiet_close: "60 \<notin> set (ascii n) \<Longrightarrow> 62 \<notin> set (ascii n) \<Longrightarrow> quiet (close_tag (ascii n))"
  unfolding close_tag_def using quiet_tag [of "47 # ascii n"] by (simp add: ascii_def)

lemma quiet_space: "quiet (cut_utils_append_indent i)" "quiet newline"
  by (auto intro!: quiet_plain simp: cut_utils_append_indent_def newline_def)

lemma quiet_concat: "\<forall>x \<in> set xs. quiet x \<Longrightarrow> quiet (concat xs)"
  by (induction xs) (auto intro: quiet_append quiet_plain)

lemma quiet_tree:
  assumes "escapes_markup G"
  shows "\<forall>n \<in> tree_names t. inner_name n \<Longrightarrow> quiet (write_tree G i t)"
proof (induction t arbitrary: i)
  case (Leaf n v)
  have "quiet (escape_text G v)" using assms by (intro quiet_plain) (simp add: escapes_markup_def)
  then show ?case using Leaf by (auto intro!: quiet_append quiet_space quiet_open quiet_close simp: name_plain)
next
  case (Node n ts)
  have "quiet (concat (map (write_tree G (i + 2)) ts))" by (rule quiet_concat) (use Node in auto)
  then show ?case
    using Node.prems by (auto intro!: quiet_append quiet_space quiet_open quiet_close simp: name_plain)
qed

lemma inner_names [simp]:
  "inner_name ''name''" "inner_name ''value''" "inner_name ''option''" "inner_name ''description''"
  "inner_name ''start-time''" "inner_name ''elapsed''" "inner_name ''test-data''" "inner_name ''file''"
  "inner_name ''line''" "inner_name ''info''" "inner_name ''entry''" "inner_name ''backtrace''"
  "inner_name ''status''" "inner_name ''detail''" "inner_name ''expected''" "inner_name ''actual''"
  "inner_name ''diff''" "inner_name ''folded-diff''" "inner_name (element_name k)"
  by (simp_all add: inner_name_def name_char_def) (cases k; simp add: name_char_def)

lemma opt_leaf_names: "t \<in> set (opt_leaf n x) \<Longrightarrow> inner_name n \<Longrightarrow> m \<in> tree_names t \<Longrightarrow> inner_name m"
  by (auto simp: opt_leaf_def split: option.splits)

lemma test_tree_names: "m \<in> tree_names (test_tree G x) \<Longrightarrow> inner_name m"
  by (auto simp: test_tree_def test_trees_def option_tree_def dest: opt_leaf_names split: if_splits)

lemma data_tree_names: "m \<in> tree_names (data_tree x) \<Longrightarrow> inner_name m"
  by (auto simp: data_tree_def dest: opt_leaf_names)

lemma opt_tree_names: "t \<in> set (opt_tree f x) \<Longrightarrow> \<exists>a. t = f a"
  by (auto simp: opt_tree_def split: option.splits)

lemma backtrace_names: "t \<in> set (backtrace_trees es) \<Longrightarrow> m \<in> tree_names t \<Longrightarrow> inner_name m"
  by (auto simp: backtrace_trees_def entry_trees_def dest: opt_leaf_names split: if_splits)

lemma result_tree_names: "t \<in> set (result_trees G T S r) \<Longrightarrow> m \<in> tree_names t \<Longrightarrow> inner_name m"
  by (cases "shown_texts T r")
     (auto simp: result_trees_def Let_def dest: opt_leaf_names opt_tree_names test_tree_names data_tree_names
        backtrace_names split: if_splits)

lemma result_text:
  assumes "text_tools_ok G" "escapes_markup G"
  obtains rest where "cut_test_result_to_xml G T S r = result_mark @ rest" "quiet rest"
proof -
  let ?rest = "newline @ concat (map (write_tree G 2) (result_trees G T S r)) @ close_tag (ascii ''result'') @ newline"
  have "quiet (concat (map (write_tree G 2) (result_trees G T S r)))"
    by (rule quiet_concat) (use quiet_tree [OF assms(2)] result_tree_names in fastforce)
  then have "quiet ?rest"
    by (auto intro!: quiet_append quiet_space quiet_close) (auto simp: ascii_def)
  moreover have "cut_test_result_to_xml G T S r = result_mark @ ?rest"
    by (simp add: cut_test_result_to_xml_def result_text_tree [OF assms(1)] result_tree_def cut_utils_append_indent_def
        open_tag_def result_mark_def numeral_2_eq_2) (simp add: ascii_def)
  ultimately show ?thesis using that by blast
qed

lemma chunks_of_results:
  assumes "text_tools_ok G" "escapes_markup G"
  shows "result_chunks (concat (map (cut_test_result_to_xml G T S) (r # rs))) =
    map (cut_test_result_to_xml G T S) (r # rs)"
proof (induction rs arbitrary: r)
  case Nil
  obtain rest where rest: "cut_test_result_to_xml G T S r = result_mark @ rest" "quiet rest"
    by (rule result_text [OF assms])
  have "quiet (tl result_mark @ rest)"
    by (intro quiet_append rest(2) quiet_plain) (simp add: result_mark_def ascii_def)
  then have "strstr (tl (result_mark @ rest)) result_mark = None"
    using strstr_quiet [of "tl result_mark @ rest" "[]"] by (simp add: result_mark_def ascii_def)
  then show ?case by (subst result_chunks.simps) (simp add: rest(1))
next
  case (Cons r' rs)
  let ?x = "cut_test_result_to_xml G T S"
  let ?next = "concat (map ?x (r' # rs))"
  obtain rest where rest: "?x r = result_mark @ rest" "quiet rest" by (rule result_text [OF assms])
  obtain rest' where rest': "?x r' = result_mark @ rest'" by (rule result_text [OF assms])
  have "quiet (tl result_mark @ rest)"
    by (intro quiet_append rest(2) quiet_plain) (simp add: result_mark_def ascii_def)
  moreover have "strstr ?next result_mark = Some ([], ?next)"
    by (simp add: rest' result_mark_def ascii_def)
  ultimately have "strstr (tl (?x r @ ?next)) result_mark = Some (tl result_mark @ rest, ?next)"
    using strstr_quiet [of "tl result_mark @ rest" ?next] by (simp add: rest(1) result_mark_def ascii_def)
  then have "result_chunks (?x r @ ?next) = ?x r # result_chunks ?next"
    by (subst result_chunks.simps) simp
  then show ?case using Cons.IH by simp
qed


section \<open>Reading back\<close>

lemma parse_until_parse: "cut_stream_parser_parse G es p = Inr q \<Longrightarrow> parse_until G es p = Some q"
  by (induction es arbitrary: p) (auto simp: then_step_Inr)

lemma result_parsed:
  assumes G: "text_tools_ok G" and r: "readable_result S r"
  obtains q y where
    "cut_stream_parser_parse G (tree_events 0 (result_tree G T S r)) cut_test_result_parser_new = Inr q"
    "sp_results_emitted q = [y]" "result_carried G T S (sp_store q) r y"
proof -
  let ?new = "cut_test_result_parser_new"
  let ?p0 = "PUSH_STATE IN_RESULT (opened ''result'' ?new)"
  let ?p1 = "?p0\<lparr>sp_results := sp_results ?new @ [cut_test_result_new_empty], sp_result := Some (length (sp_results ?new))\<rparr>"
  have p: "container (PEEK_STATE ?new)" "PEEK_STATE ?new = IN_TOP_LEVEL_RESULT"
    by (simp_all add: cut_test_result_parser_new_def PEEK_STATE_def container_def text_in_state_def)
  have start: "start_in_state (PEEK_STATE ?new) ''result'' (opened ''result'' ?new) = Inr ?p1"
    by (simp add: p start_in_state_def start_top_level_result_def new_result_def PUSH_STATE_def opened_def)
  have inside: "in_result ?p0 (length (sp_results ?new)) cut_test_result_new_empty ?p1"
    by (simp add: in_result_def) (simp add: PUSH_STATE_def opened_def PEEK_STATE_def cut_test_result_parser_new_def
        cut_stream_parser_new_def)
  obtain q y where q: "reads G 0 [result_tree G T S r] ?new q" "result_carried G T S (sp_store q) r y"
    "sp_results_emitted q = sp_results_emitted ?p0 @ [y]"
    by (rule reads_result [OF G p(1) start inside r])
  have "cut_stream_parser_parse G (tree_events 0 (result_tree G T S r)) ?new = Inr q"
    using q(1) by (simp add: reads_Cons [OF p(1)])
  moreover have "sp_results_emitted q = [y]"
    using q(3) by (simp add: PUSH_STATE_def opened_def cut_test_result_parser_new_def cut_stream_parser_new_def)
  ultimately show ?thesis using q(2) that by blast
qed

text \<open>A result on either side of the pipe.\<close>

definition result_seen :: "markup_store \<times> test_result \<Rightarrow> result_view" where
  "result_seen x = show_result (\<lambda>t. test_seen (ms_tests (fst x) ! t)) (\<lambda>d. ms_data (fst x) ! d) fields_seen (snd x)"

definition result_sent :: "text_tools \<Rightarrow> diff_tools \<Rightarrow> markup_store \<Rightarrow> test_result \<Rightarrow> result_view" where
  "result_sent G T S r =
     show_result (\<lambda>t. test_sent G (ms_tests S ! t)) (\<lambda>d. nonempty_string (ms_data S ! d)) (fields_sent G T) r"

text \<open>The tokenizer reports the events of the text of a tree.\<close>

definition tokenizes :: "(ustring \<Rightarrow> xml_event list) \<Rightarrow> text_tools \<Rightarrow> xml_tree \<Rightarrow> bool" where
  "tokenizes K G t \<longleftrightarrow> K (write_tree G 0 t) = tree_events 0 t"

lemma chunks_read:
  assumes G: "text_tools_ok G"
    and "list_all (\<lambda>r. readable_result S r \<and> tokenizes K G (result_tree G T S r)) rs"
  shows "\<exists>ys. results_of_chunks K G (map (cut_test_result_to_xml G T S) rs) = Some ys \<and>
    map result_seen ys = map (result_sent G T S) rs"
  using assms(2)
proof (induction rs)
  case (Cons r rs)
  obtain q y where q: "cut_stream_parser_parse G (tree_events 0 (result_tree G T S r)) cut_test_result_parser_new = Inr q"
    "sp_results_emitted q = [y]" "result_carried G T S (sp_store q) r y"
    by (rule result_parsed [OF G]) (use Cons.prems in auto)
  have "K (cut_test_result_to_xml G T S r) = tree_events 0 (result_tree G T S r)"
    using Cons.prems by (simp add: tokenizes_def cut_test_result_to_xml_def result_text_tree [OF G])
  then have "cut_test_result_new_from_xml K G (cut_test_result_to_xml G T S r) = Some (Some (sp_store q, y))"
    using parse_until_parse [OF q(1)] q(2)
    by (simp add: cut_test_result_new_from_xml_def collect_result_def)
  moreover have "result_seen (sp_store q, y) = result_sent G T S r"
    using result_carried_views [OF q(3)] by (simp add: result_seen_def result_sent_def)
  moreover obtain ys where "results_of_chunks K G (map (cut_test_result_to_xml G T S) rs) = Some ys"
    "map result_seen ys = map (result_sent G T S) rs"
    using Cons by auto
  ultimately show ?case by auto
qed simp

text \<open>C4: The results that a forked child writes to its parent one after another, each as a document, are
  received by the parent: however many there are, it cuts the text where the child began a result, and
  every piece is read back as a result with the same fields, backtrace and objects, in order.\<close>

theorem forked_results_received:
  assumes "text_tools_ok G" "escapes_markup G"
    and "list_all (\<lambda>r. readable_result S r \<and> tokenizes K G (result_tree G T S r)) rs"
  shows "\<exists>ys. forked_results K G (concat (map (cut_test_result_to_xml G T S) rs)) = Some ys \<and>
    map result_seen ys = map (result_sent G T S) rs"
proof (cases rs)
  case Nil
  then show ?thesis by (auto simp: forked_results_def result_mark_def ascii_def)
next
  case (Cons r rs')
  obtain rest where rest: "cut_test_result_to_xml G T S r = result_mark @ rest"
    by (rule result_text [OF assms(1,2)])
  have "strstr (concat (map (cut_test_result_to_xml G T S) rs)) result_mark =
      Some ([], concat (map (cut_test_result_to_xml G T S) rs))"
    by (simp add: Cons rest result_mark_def ascii_def)
  then show ?thesis
    using chunks_read [OF assms(1,3)] chunks_of_results [OF assms(1,2)] Cons by (simp add: forked_results_def)
qed

definition escaping_tools :: text_tools where
  "escaping_tools = simple_tools\<lparr>escape_text := filter (\<lambda>c. c \<noteq> 60)\<rparr>"

lemma escaping_tools_ok: "text_tools_ok escaping_tools" "escapes_markup escaping_tools"
proof -
  have "filter (\<lambda>c. c \<noteq> 60) s = s" if "plain_text s" for s
    using that by (induction s) (auto simp: plain_text_def)
  then show "text_tools_ok escaping_tools"
    using simple_tools_ok
    by (simp add: text_tools_ok_def escaping_tools_def cut_utils_double_to_string_def)
qed (simp add: escapes_markup_def escaping_tools_def)

theorem forked_results_received_witness:
  "\<forall>T. \<exists>ys. forked_results
      (\<lambda>s. if s = write_tree escaping_tools 0 (result_tree escaping_tools T sample_store sample_result)
           then tree_events 0 (result_tree escaping_tools T sample_store sample_result) else [])
      escaping_tools
      (concat (map (cut_test_result_to_xml escaping_tools T sample_store) [sample_result, sample_result])) = Some ys \<and>
    map result_seen ys = map (result_sent escaping_tools T sample_store) [sample_result, sample_result]"
proof
  fix T
  have "readable_result sample_store sample_result"
    using sample_readable by (simp add: sample_moments_def)
  then show "\<exists>ys. forked_results
      (\<lambda>s. if s = write_tree escaping_tools 0 (result_tree escaping_tools T sample_store sample_result)
           then tree_events 0 (result_tree escaping_tools T sample_store sample_result) else [])
      escaping_tools
      (concat (map (cut_test_result_to_xml escaping_tools T sample_store) [sample_result, sample_result])) = Some ys \<and>
    map result_seen ys = map (result_sent escaping_tools T sample_store) [sample_result, sample_result]"
    by (intro forked_results_received escaping_tools_ok) (simp add: tokenizes_def)
qed

end
