(* ===== verification/Forked_Chunks.thy ===== *)
theory Forked_Chunks
  imports Forked_Results "HOL-Library.While_Combinator"
begin

text \<open>
  The loop of \<open>cut_test_context_wait_process\<close> that cuts what was read from a child, as the
  loop of the C code: it ends for any text, and its pieces are the text.
\<close>

text \<open>One round: the pointer to the text that is left, NULL at the end, and the pieces so far.\<close>

definition cut_piece :: "ustring option \<times> ustring list \<Rightarrow> ustring option \<times> ustring list" where
  "cut_piece s =
     (case s of
        (None, cs) \<Rightarrow> (None, cs)
      | (Some xml, cs) \<Rightarrow>
          (case strstr (tl xml) result_mark of
             None \<Rightarrow> (None, cs @ [xml])
           | Some (u, rest) \<Rightarrow> (Some rest, cs @ [take (length xml - length rest) xml])))"

definition wait_process_loop :: "ustring \<Rightarrow> (ustring option \<times> ustring list) option" where
  "wait_process_loop xml = while_option (\<lambda>(x, cs). x \<noteq> None) cut_piece (Some xml, [])"

lemma loop_from:
  "while_option (\<lambda>(x, cs). x \<noteq> None) cut_piece (Some xml, cs) = Some (None, cs @ result_chunks xml)"
proof (induction xml arbitrary: cs rule: result_chunks.induct)
  case (1 xml)
  show ?case
  proof (cases "strstr (tl xml) result_mark")
    case None
    then have "cut_piece (Some xml, cs) = (None, cs @ [xml])" by (simp add: cut_piece_def)
    then show ?thesis
      using None by (subst while_option_unfold, simp, subst while_option_unfold) (simp add: result_chunks.simps [of xml])
  next
    case (Some x)
    obtain u rest where x: "x = (u, rest)" by (cases x)
    then have "cut_piece (Some xml, cs) = (Some rest, cs @ [take (length xml - length rest) xml])"
      using Some by (simp add: cut_piece_def)
    then show ?thesis
      using 1 [OF Some x [symmetric]] Some x
      by (subst while_option_unfold) (simp add: result_chunks.simps [of xml])
  qed
qed

lemma mark_length: "length result_mark = 8"
  by (simp add: result_mark_def ascii_def)

lemma chunks_hd: "\<exists>c cs. result_chunks xml = c # cs"
  by (subst result_chunks.simps) (auto split: option.split)

lemma chunk_cases:
  assumes "strstr (tl xml) result_mark = Some (u, rest)"
  obtains c where "xml = c # u @ rest" "result_chunks xml = (c # u) # result_chunks rest"
proof -
  have "xml \<noteq> []" using assms by (auto simp: result_mark_def ascii_def)
  then obtain c where "xml = c # u @ rest" using strstr_parts [OF assms] by (cases xml) auto
  moreover have "result_chunks xml = (c # u) # result_chunks rest"
    using assms calculation by (subst result_chunks.simps) simp
  ultimately show ?thesis by (rule that)
qed

lemma chunks_concat: "concat (result_chunks xml) = xml"
proof (induction xml rule: result_chunks.induct)
  case (1 xml)
  show ?case
  proof (cases "strstr (tl xml) result_mark")
    case None
    then show ?thesis by (subst result_chunks.simps) simp
  next
    case (Some x)
    obtain u rest where x: "x = (u, rest)" by (cases x)
    then show ?thesis using 1 [OF Some x [symmetric]] Some x by (metis chunk_cases append_Cons concat.simps(2))
  qed
qed

lemma chunks_begin:
  "take 8 xml = result_mark \<Longrightarrow> list_all (\<lambda>c. take 8 c = result_mark) (result_chunks xml)"
proof (induction xml rule: result_chunks.induct)
  case (1 xml)
  show ?case
  proof (cases "strstr (tl xml) result_mark")
    case None
    then show ?thesis using "1.prems" by (subst result_chunks.simps) simp
  next
    case (Some x)
    obtain u rest where x: "x = (u, rest)" by (cases x)
    obtain c where c: "xml = c # u @ rest" "result_chunks xml = (c # u) # result_chunks rest"
      using Some x chunk_cases by metis
    have rest: "take 8 rest = result_mark"
      using strstr_at [of "tl xml" result_mark u rest] Some x by (simp add: mark_length)
    have "7 \<le> length u"
    proof (rule ccontr)
      assume "\<not> 7 \<le> length u"
      then have "length u < 7" by simp
      have "xml ! Suc (length u) = 60"
        using rest c(1) by (cases rest) (auto simp: result_mark_def ascii_def nth_append)
      moreover have "take 8 xml ! Suc (length u) = xml ! Suc (length u)"
        by (rule nth_take) (use \<open>length u < 7\<close> in simp)
      moreover have "result_mark ! Suc n \<noteq> 60" if "n < 7" for n
        using that by (auto simp: result_mark_def ascii_def less_Suc_eq numeral_eq_Suc)
      ultimately show False using "1.prems" \<open>length u < 7\<close> by simp
    qed
    then have "take 8 (c # u) = result_mark" using "1.prems" c(1) by (simp add: take_Cons')
    then show ?thesis using 1(1) [OF Some x [symmetric] rest] c(2) by simp
  qed
qed

text \<open>C14: Whatever a child wrote, the loop in which the parent cuts it ends, after at least one round; the
  pieces together are the text, in order and with nothing lost, and if the text begins with
  \<open><result>\<close>, where the loop is entered, then so does every piece.\<close>

theorem wait_process_loop_ends:
  "\<exists>cs. wait_process_loop xml = Some (None, cs) \<and> cs = result_chunks xml \<and> cs \<noteq> [] \<and> concat cs = xml \<and>
    (take 8 xml = result_mark \<longrightarrow> list_all (\<lambda>c. take 8 c = result_mark) cs)"
  using loop_from [of xml "[]"] chunks_hd [of xml] chunks_concat [of xml] chunks_begin [of xml]
  by (auto simp: wait_process_loop_def)

lemma wait_process_loop_ends_witness:
  "\<exists>cs. wait_process_loop (result_mark @ [49] @ result_mark) = Some (None, cs) \<and>
     cs \<noteq> [] \<and> concat cs = result_mark @ [49] @ result_mark \<and> list_all (\<lambda>c. take 8 c = result_mark) cs"
proof -
  have "take 8 (result_mark @ [49] @ result_mark) = result_mark" by (simp add: result_mark_def ascii_def)
  then show ?thesis using wait_process_loop_ends [of "result_mark @ [49] @ result_mark"] by auto
qed

end
