(* ===== verification/Stream_Scopes.thy ===== *)
theory Stream_Scopes
  imports Stream_Reading
begin

text \<open>
  What holds of the parser for any markup at all: elements are scopes of its two stacks, and the
  objects it refers to exist and are of the right kind.
\<close>

section \<open>Scopes\<close>

definition same_scope :: "stream_parser \<Rightarrow> stream_parser \<Rightarrow> bool" where
  "same_scope p q \<longleftrightarrow> sp_states q = sp_states p \<and> sp_element_stack q = sp_element_stack p"

definition deeper :: "stream_parser \<Rightarrow> stream_parser \<Rightarrow> bool" where
  "deeper p q \<longleftrightarrow> (\<exists>s. sp_states q = s # sp_states p) \<and> sp_element_stack q = sp_element_stack p"

named_theorems parser_moves

lemma with_pointer_Inr [parser_moves]: "with_pointer x f = Inr q \<longleftrightarrow> (\<exists>a. x = Some a \<and> f a = Inr q)"
  by (simp add: with_pointer_def split: option.splits)

lemma errors_Inr [parser_moves]: "invalid_element p \<noteq> Inr q" "set_parse_error m p \<noteq> Inr q"
  by (simp_all add: invalid_element_def set_parse_error_def)

lemma push_scope [parser_moves]:
  "deeper p (PUSH_STATE s q) = same_scope p q" "deeper p (emit_signal sig q) = deeper p q"
  "deeper p (PUSH_TEST t q) = deeper p q" "deeper p (PUSH_TEST_CASE t q) = deeper p q"
  "deeper p (PUSH_TEST_SUITE t q) = deeper p q" "deeper p (PUSH_TEST_ITERATOR t q) = deeper p q"
  "deeper p (PUSH_TEST_CONTEXT t q) = deeper p q" "deeper p (PUSH_TEST_DATA t q) = deeper p q"
  "deeper p (snd (new_test k q)) = deeper p q" "deeper p (snd (new_context_object q)) = deeper p q"
  "deeper p (snd (new_data q)) = deeper p q" "deeper p (snd (new_result q)) = deeper p q"
  "deeper p (update_result r f q) = deeper p q" "deeper p (update_context_object c g q) = deeper p q"
  by (auto simp: deeper_def same_scope_def PUSH_STATE_def emit_signal_def PUSH_TEST_def PUSH_TEST_CASE_def
      PUSH_TEST_SUITE_def PUSH_TEST_ITERATOR_def PUSH_TEST_CONTEXT_def PUSH_TEST_DATA_def new_test_def
      new_context_object_def new_data_def new_result_def update_result_def update_context_object_def
      split: option.split)

lemma field_scope [parser_moves]:
  "deeper p (q\<lparr>sp_ready_suite := i\<rparr>) = deeper p q" "deeper p (q\<lparr>sp_ready_case := i\<rparr>) = deeper p q"
  "deeper p (q\<lparr>sp_ready_iterator := i\<rparr>) = deeper p q" "deeper p (q\<lparr>sp_start_test := k\<rparr>) = deeper p q"
  "deeper p (q\<lparr>sp_start_iterated_test := k\<rparr>) = deeper p q" "deeper p (q\<lparr>sp_pass_assertion := k\<rparr>) = deeper p q"
  "deeper p (q\<lparr>sp_complete_test := k\<rparr>) = deeper p q"
  "deeper p (q\<lparr>sp_complete_iterated_test := k\<rparr>) = deeper p q" "deeper p (q\<lparr>sp_test_result := r\<rparr>) = deeper p q"
  "deeper p (q\<lparr>sp_iterator_result := r\<rparr>) = deeper p q" "deeper p (q\<lparr>sp_case_result := r\<rparr>) = deeper p q"
  "deeper p (q\<lparr>sp_result := x\<rparr>) = deeper p q" "deeper p (q\<lparr>sp_backtrace_entry := e\<rparr>) = deeper p q"
  "same_scope p p"
  by (simp_all add: deeper_def same_scope_def)

lemmas start_defs = start_top_level_def start_stream_def start_ready_test_suite_def start_start_test_suite_def
  start_ready_test_case_def start_start_test_case_def start_ready_test_iterator_def start_start_test_iterator_def
  start_start_test_def start_start_iterated_test_def start_pass_assertion_def start_test_result_def
  start_top_level_result_def start_result_def start_complete_iterated_test_def start_complete_test_def
  start_test_iterator_result_def start_complete_test_iterator_def start_test_case_result_def
  start_complete_test_case_def start_complete_test_suite_def start_test_object_def start_test_option_def
  start_result_backtrace_def start_result_backtrace_entry_def start_test_context_def start_test_data_def
  start_info_test_def start_info_context_def start_new_result_def start_context_test_def push_new_def

lemma start_deeper: "start_in_state s n p = Inr q \<Longrightarrow> deeper p q"
  by (cases s)
     (auto simp: start_in_state_def start_defs parser_moves Let_def split_def split: if_splits)


lemma move_scope [parser_moves]:
  "same_scope p (emit_signal sig q) = same_scope p q" "same_scope p (DROP_TEST q) = same_scope p q"
  "same_scope p (DROP_TEST_CASE q) = same_scope p q" "same_scope p (DROP_TEST_SUITE q) = same_scope p q"
  "same_scope p (DROP_TEST_ITERATOR q) = same_scope p q" "same_scope p (DROP_TEST_CONTEXT q) = same_scope p q"
  "same_scope p (DROP_TEST_DATA q) = same_scope p q" "same_scope p (update_test t h q) = same_scope p q"
  "same_scope p (update_result r f q) = same_scope p q" "same_scope p (update_data d v q) = same_scope p q"
  "same_scope p (update_context_object c g q) = same_scope p q"
  by (auto simp: same_scope_def emit_signal_def DROP_TEST_def DROP_TEST_CASE_def DROP_TEST_SUITE_def
      DROP_TEST_ITERATOR_def DROP_TEST_CONTEXT_def DROP_TEST_DATA_def update_test_def update_result_def
      update_data_def update_context_object_def split: option.split)

lemma same_field_scope [parser_moves]:
  "same_scope p (q\<lparr>sp_ready_suite := i\<rparr>) = same_scope p q" "same_scope p (q\<lparr>sp_ready_case := i\<rparr>) = same_scope p q"
  "same_scope p (q\<lparr>sp_ready_iterator := i\<rparr>) = same_scope p q" "same_scope p (q\<lparr>sp_start_test := k\<rparr>) = same_scope p q"
  "same_scope p (q\<lparr>sp_start_iterated_test := k\<rparr>) = same_scope p q" "same_scope p (q\<lparr>sp_pass_assertion := k\<rparr>) = same_scope p q"
  "same_scope p (q\<lparr>sp_complete_test := k\<rparr>) = same_scope p q"
  "same_scope p (q\<lparr>sp_complete_iterated_test := k\<rparr>) = same_scope p q" "same_scope p (q\<lparr>sp_test_result := r\<rparr>) = same_scope p q"
  "same_scope p (q\<lparr>sp_iterator_result := r\<rparr>) = same_scope p q" "same_scope p (q\<lparr>sp_case_result := r\<rparr>) = same_scope p q"
  "same_scope p (q\<lparr>sp_result := x\<rparr>) = same_scope p q" "same_scope p (q\<lparr>sp_backtrace_entry := e\<rparr>) = same_scope p q"
  "same_scope p (q\<lparr>sp_backtrace := es\<rparr>) = same_scope p q" "same_scope p (q\<lparr>sp_option_name := n\<rparr>) = same_scope p q"
  "same_scope p (q\<lparr>sp_option_value := n\<rparr>) = same_scope p q" "same_scope p (q\<lparr>sp_complete_success := b\<rparr>) = same_scope p q"
  "same_scope p (q\<lparr>sp_stream_success := b\<rparr>) = same_scope p q" "same_scope p (q\<lparr>sp_results_emitted := rs\<rparr>) = same_scope p q"
  "same_scope p (q\<lparr>sp_suites := ts\<rparr>) = same_scope p q" "same_scope p (q\<lparr>sp_cases := ts\<rparr>) = same_scope p q"
  "same_scope p (q\<lparr>sp_iterators := ts\<rparr>) = same_scope p q"
  by (simp_all add: same_scope_def)

lemmas end_defs = end_top_level_result_def end_stream_def end_result_def end_test_context_def end_test_option_def
  end_result_backtrace_def end_result_backtrace_entry_def end_ready_test_suite_def end_start_test_suite_def
  end_ready_test_case_def end_start_test_case_def end_ready_test_iterator_def end_start_test_iterator_def
  end_start_test_def end_start_iterated_test_def end_pass_assertion_def end_test_result_def
  end_complete_iterated_test_def end_complete_test_def end_test_iterator_result_def end_complete_test_iterator_def
  end_test_case_result_def end_complete_test_case_def end_complete_test_suite_def emit_result_def drop_info_def
  drop_if_def

lemma map_sum_Inr [parser_moves]: "map_sum id f x = Inr q \<longleftrightarrow> (\<exists>r. x = Inr r \<and> q = f r)"
  by (cases x) auto

lemma end_scope: "end_in_state s p = Inr q \<Longrightarrow> same_scope p q"
  by (cases s)
     (auto simp: end_in_state_def end_defs parser_moves Let_def split: if_splits option.splits list.splits)

lemmas text_defs = text_test_name_def text_test_description_def text_test_option_name_def text_test_option_value_def
  text_test_start_time_def text_test_elapsed_def text_result_status_def text_result_detail_def
  text_result_backtrace_entry_file_def text_result_backtrace_entry_line_def text_result_backtrace_entry_info_def
  text_result_start_time_def text_result_elapsed_def text_result_expected_def text_result_actual_def
  text_result_diff_def text_result_folded_diff_def text_ready_test_suite_n_test_cases_def
  text_ready_test_suite_n_tests_def text_ready_test_case_n_tests_def text_ready_test_iterator_n_tests_def
  invalid_n_tests_def invalid_boolean_def text_test_data_name_def text_test_context_failed_def
  text_complete_success_def text_stream_success_def with_target_def with_result_def with_entry_def

lemma text_scope: "text_in_state G s v p = Inr q \<Longrightarrow> same_scope p q"
  by (cases s)
     (auto simp: text_in_state_def text_defs parser_moves then_step_Inr split: if_splits option.splits)

lemma same_scope_trans: "same_scope p q \<Longrightarrow> same_scope q r \<Longrightarrow> same_scope p r"
  by (simp add: same_scope_def)

lemma scope_of_break: "handle_event G (line_break i) p = Inr q \<Longrightarrow> same_scope p q"
  by (simp add: line_break_def text_handler_def text_scope)

text \<open>C10: An element is a scope of the parser, whatever it holds: if the parser gets to the end of an
  element, known or not, the state it is in and the path of open elements are those before the element.\<close>

theorem element_scoped:
  "cut_stream_parser_parse G (tree_events i t) p = Inr q \<Longrightarrow>
   sp_states q = sp_states p \<and> sp_element_stack q = sp_element_stack p"
proof (induction t arbitrary: i p q)
  case (Leaf n v)
  obtain p1 where p1: "start_in_state (PEEK_STATE p) n (opened n p) = Inr p1"
    using Leaf by (auto simp: then_step_Inr start_event simp del: handle_event.simps)
  obtain p2 where p2: "same_scope p1 p2" "handle_event G (End_Element n) p2 = Inr q"
    using Leaf p1
    by (auto simp: then_step_Inr start_event text_handler_def simp del: handle_event.simps(1,2)
        split: if_splits dest: text_scope) (auto simp: same_scope_def)
  obtain p3 where p3: "end_in_state (PEEK_STATE p2) (popped p2) = Inr p3" "q = closed p3"
    using p2(2) unfolding end_event by (auto simp: parser_moves)
  show ?case
    using start_deeper [OF p1] end_scope [OF p3(1)] p2(1) p3(2)
    by (auto simp: deeper_def same_scope_def popped_def closed_def opened_def)
next
  case (Node n ts)
  have children: "same_scope r s"
    if "cut_stream_parser_parse G (concat (map (\<lambda>t. line_break (i + 2) # tree_events (i + 2) t) us)) r = Inr s"
      "set us \<subseteq> set ts" for us r s
    using that
  proof (induction us arbitrary: r)
    case Nil
    then show ?case by (simp add: same_scope_def)
  next
    case (Cons u us)
    obtain r1 r2 where r: "handle_event G (line_break (i + 2)) r = Inr r1"
      "cut_stream_parser_parse G (tree_events (i + 2) u) r1 = Inr r2"
      "cut_stream_parser_parse G (concat (map (\<lambda>t. line_break (i + 2) # tree_events (i + 2) t) us)) r2 = Inr s"
      using Cons.prems(1) by (auto simp: then_step_Inr parse_append)
    have "same_scope r1 r2" using Node.IH [of u] r(2) Cons.prems(2) by (auto simp: same_scope_def)
    moreover have "same_scope r2 s" using Cons.IH [OF r(3)] Cons.prems(2) by simp
    ultimately show ?case using scope_of_break [OF r(1)] same_scope_trans by blast
  qed
  obtain p1 p2 p3 where p: "start_in_state (PEEK_STATE p) n (opened n p) = Inr p1"
    "cut_stream_parser_parse G (concat (map (\<lambda>t. line_break (i + 2) # tree_events (i + 2) t) ts)) p1 = Inr p2"
    "handle_event G (line_break i) p2 = Inr p3" "handle_event G (End_Element n) p3 = Inr q"
    using Node.prems by (auto simp: then_step_Inr parse_append start_event simp del: handle_event.simps)
  obtain p4 where p4: "end_in_state (PEEK_STATE p3) (popped p3) = Inr p4" "q = closed p4"
    using p(4) unfolding end_event by (auto simp: parser_moves)
  show ?case
    using start_deeper [OF p(1)] children [OF p(2)] scope_of_break [OF p(3)] end_scope [OF p4(1)] p4(2)
    by (auto simp: deeper_def same_scope_def popped_def closed_def opened_def)
qed

lemma element_scoped_witness:
  "\<forall>G. \<exists>q. cut_stream_parser_parse G (tree_events 0 (Node ''stream'' [])) (cut_stream_parser_new None) = Inr q \<and>
     sp_states q = [IN_TOP_LEVEL] \<and> sp_element_stack q = []"
proof
  fix G
  have "\<exists>q. cut_stream_parser_parse G (tree_events 0 (Node ''stream'' [])) (cut_stream_parser_new None) = Inr q"
    by (simp add: cut_stream_parser_new_def then_step_def start_element_handler_def PEEK_STATE_def
        start_in_state_def start_top_level_def emit_signal_def PUSH_STATE_def end_element_handler_def
        end_in_state_def end_stream_def line_break_def text_handler_def text_in_state_def)
  then show "\<exists>q. cut_stream_parser_parse G (tree_events 0 (Node ''stream'' [])) (cut_stream_parser_new None) = Inr q \<and>
     sp_states q = [IN_TOP_LEVEL] \<and> sp_element_stack q = []"
    using element_scoped [where i = 0 and t = "Node ''stream'' []" and p = "cut_stream_parser_new None"]
    by (fastforce simp: cut_stream_parser_new_def)
qed

end
