(* ===== verification/Stream_Types.thy ===== *)
theory Stream_Types
  imports Stream_Scopes
begin

text \<open>
  The objects of the parser exist and are of the right kind, for any markup at all: every reference
  that the parser holds, that an object holds or that a signal is emitted with is to an object of its
  store, and to a suite, a test case, an iterator, a test, a context or a result where it should be.
\<close>

section \<open>References\<close>

definition has_kind :: "test_kind set \<Rightarrow> markup_store \<Rightarrow> object_id \<Rightarrow> bool" where
  "has_kind K S t \<longleftrightarrow> t < length (ms_tests S) \<and> mt_kind (ms_tests S ! t) \<in> K"

abbreviation is_suite where "is_suite \<equiv> has_kind {Suite_Object}"
abbreviation is_case where "is_case \<equiv> has_kind {Case_Object}"
abbreviation is_iterator where "is_iterator \<equiv> has_kind {Iterator_Object}"
abbreviation is_test where "is_test \<equiv> has_kind {Test_Object, Iterated_Test_Object}"

definition is_context :: "markup_store \<Rightarrow> object_id \<Rightarrow> bool" where
  "is_context S c \<longleftrightarrow> c < length (ms_contexts S)"

definition is_data :: "markup_store \<Rightarrow> object_id \<Rightarrow> bool" where
  "is_data S d \<longleftrightarrow> d < length (ms_data S)"

definition context_typed :: "markup_store \<Rightarrow> markup_context \<Rightarrow> bool" where
  "context_typed S mc \<longleftrightarrow>
     pred_option (is_suite S) (mc_suite mc) \<and> pred_option (is_case S) (mc_case mc) \<and>
     pred_option (is_iterator S) (mc_iterator mc) \<and> pred_option (is_test S) (mc_test mc) \<and>
     pred_option (is_data S) (mc_data mc)"

definition result_typed :: "markup_store \<Rightarrow> test_result \<Rightarrow> bool" where
  "result_typed S r \<longleftrightarrow>
     pred_option (is_case S) (result_test_case r) \<and> pred_option (is_iterator S) (result_test_iterator r) \<and>
     pred_option (is_test S) (result_test r) \<and> pred_option (is_data S) (result_test_data r)"

definition ready_typed :: "test_kind set \<Rightarrow> markup_store \<Rightarrow> ready_info \<Rightarrow> bool" where
  "ready_typed K S i \<longleftrightarrow> pred_option (has_kind K S) (ready_object i)"

definition info_typed :: "test_kind set \<Rightarrow> markup_store \<Rightarrow> test_info \<Rightarrow> bool" where
  "info_typed K S i \<longleftrightarrow> pred_option (has_kind K S) (info_test i) \<and> pred_option (is_context S) (info_context i)"

definition result_info_typed :: "test_kind set \<Rightarrow> markup_store \<Rightarrow> nat \<Rightarrow> result_info \<Rightarrow> bool" where
  "result_info_typed K S n i \<longleftrightarrow>
     pred_option (has_kind K S) (result_object i) \<and> pred_option (is_context S) (result_context i) \<and>
     pred_option (\<lambda>r. r < n) (info_result i)"

text \<open>A signal is emitted with an object of the right kind, or with NULL.\<close>

definition given :: "test_kind set \<Rightarrow> markup_store \<Rightarrow> object_id \<Rightarrow> bool" where
  "given K S t \<longleftrightarrow> t = 0 \<or> has_kind K S t"

abbreviation "test_kinds_set \<equiv> {Test_Object, Iterated_Test_Object}"

fun signal_typed :: "markup_store \<times> run_signal \<Rightarrow> bool" where
  "signal_typed (S, Ready_Test_Suite s n m) = given {Suite_Object} S s"
| "signal_typed (S, Start_Test_Suite s) = given {Suite_Object} S s"
| "signal_typed (S, Ready_Test_Case k n) = given {Case_Object} S k"
| "signal_typed (S, Start_Test_Case k) = given {Case_Object} S k"
| "signal_typed (S, Ready_Test_Iterator i n) = given {Iterator_Object} S i"
| "signal_typed (S, Start_Test_Iterator i) = given {Iterator_Object} S i"
| "signal_typed (S, Start_Test t c) = (given {Test_Object} S t \<and> pred_option (is_context S) c)"
| "signal_typed (S, Start_Iterated_Test t c) = (given {Iterated_Test_Object} S t \<and> pred_option (is_context S) c)"
| "signal_typed (S, Pass_Assertion t c) = (given test_kinds_set S t \<and> pred_option (is_context S) c)"
| "signal_typed (S, Status_Test s t c r) =
     (given test_kinds_set S t \<and> pred_option (is_context S) c \<and> result_typed S r \<and> s = result_status r)"
| "signal_typed (S, Status_Test_Iterator s i r) =
     (given {Iterator_Object} S i \<and> result_typed S r \<and> s = result_status r)"
| "signal_typed (S, Status_Test_Case s k r) = (given {Case_Object} S k \<and> result_typed S r \<and> s = result_status r)"
| "signal_typed (S, Complete_Test t c b) = (given {Test_Object} S t \<and> pred_option (is_context S) c)"
| "signal_typed (S, Complete_Iterated_Test t c b) =
     (given {Iterated_Test_Object} S t \<and> pred_option (is_context S) c)"
| "signal_typed (S, Complete_Test_Iterator i b) = given {Iterator_Object} S i"
| "signal_typed (S, Complete_Test_Case k b) = given {Case_Object} S k"
| "signal_typed (S, Complete_Test_Suite s b) = given {Suite_Object} S s"
| "signal_typed (S, sig) = True"

definition parser_typed :: "stream_parser \<Rightarrow> bool" where
  "parser_typed p \<longleftrightarrow>
     (let S = sp_store p; n = length (sp_results p)
      in list_all (is_suite S) (sp_suites p) \<and> list_all (is_case S) (sp_cases p) \<and>
         list_all (is_iterator S) (sp_iterators p) \<and> list_all (is_test S) (sp_tests p) \<and>
         list_all (is_context S) (sp_contexts p) \<and> list_all (is_data S) (sp_data p) \<and>
         list_all (context_typed S) (ms_contexts S) \<and> list_all (result_typed S) (sp_results p) \<and>
         pred_option (\<lambda>r. r < n) (sp_result p) \<and>
         pred_option (ready_typed {Suite_Object} S) (sp_ready_suite p) \<and>
         pred_option (ready_typed {Case_Object} S) (sp_ready_case p) \<and>
         pred_option (ready_typed {Iterator_Object} S) (sp_ready_iterator p) \<and>
         pred_option (info_typed {Test_Object} S) (sp_start_test p) \<and>
         pred_option (info_typed {Iterated_Test_Object} S) (sp_start_iterated_test p) \<and>
         pred_option (info_typed test_kinds_set S) (sp_pass_assertion p) \<and>
         pred_option (info_typed {Test_Object} S) (sp_complete_test p) \<and>
         pred_option (info_typed {Iterated_Test_Object} S) (sp_complete_iterated_test p) \<and>
         pred_option (result_info_typed test_kinds_set S n) (sp_test_result p) \<and>
         pred_option (result_info_typed {Iterator_Object} S n) (sp_iterator_result p) \<and>
         pred_option (result_info_typed {Case_Object} S n) (sp_case_result p) \<and>
         list_all signal_typed (sp_emitted p) \<and> 0 < length (ms_tests S))"

section \<open>Growing stores\<close>

text \<open>A store keeps the kinds of its objects.\<close>

definition extends :: "markup_store \<Rightarrow> markup_store \<Rightarrow> bool" where
  "extends S S' \<longleftrightarrow>
     length (ms_tests S) \<le> length (ms_tests S') \<and> length (ms_contexts S) \<le> length (ms_contexts S') \<and>
     length (ms_data S) \<le> length (ms_data S') \<and>
     (\<forall>t < length (ms_tests S). mt_kind (ms_tests S' ! t) = mt_kind (ms_tests S ! t))"

lemma extends_refl [simp]: "extends S S"
  by (simp add: extends_def)

lemma extends_kind: "extends S S' \<Longrightarrow> has_kind K S t \<Longrightarrow> has_kind K S' t"
  by (auto simp: extends_def has_kind_def)

lemma extends_context: "extends S S' \<Longrightarrow> is_context S c \<Longrightarrow> is_context S' c"
  and extends_data: "extends S S' \<Longrightarrow> is_data S d \<Longrightarrow> is_data S' d"
  by (auto simp: extends_def is_context_def is_data_def)

lemmas extends_refs = extends_kind extends_context extends_data

lemma pred_option_mono: "pred_option P x \<Longrightarrow> (\<And>a. P a \<Longrightarrow> Q a) \<Longrightarrow> pred_option Q x"
  by (cases x) auto

lemma extends_infos:
  assumes "extends S S'"
  shows "context_typed S mc \<Longrightarrow> context_typed S' mc" "result_typed S r \<Longrightarrow> result_typed S' r"
    "ready_typed K S i \<Longrightarrow> ready_typed K S' i" "info_typed K S k \<Longrightarrow> info_typed K S' k"
    "n \<le> n' \<Longrightarrow> result_info_typed K S n j \<Longrightarrow> result_info_typed K S' n' j"
  using extends_refs [OF assms]
  by (auto simp: context_typed_def result_typed_def ready_typed_def info_typed_def result_info_typed_def
      elim!: pred_option_mono)

text \<open>The parser in a larger store.\<close>

lemma typed_store:
  assumes p: "parser_typed p" and S: "extends (sp_store p) S"
    and c: "list_all (context_typed S) (ms_contexts S)"
  shows "parser_typed (p\<lparr>sp_store := S\<rparr>)"
proof -
  have "list_all P xs \<Longrightarrow> (\<And>x. P x \<Longrightarrow> Q x) \<Longrightarrow> list_all Q xs" for P Q :: "'a \<Rightarrow> bool" and xs
    by (auto simp: list_all_iff)
  note lists = this
  note refs = extends_refs [OF S] extends_infos [OF S]
  have "0 < length (ms_tests S)" using p S by (auto simp: parser_typed_def extends_def Let_def)
  then show ?thesis
    using p c unfolding parser_typed_def Let_def
    by (auto elim!: pred_option_mono intro: refs simp: list_all_iff)
qed

section \<open>Steps\<close>

text \<open>What a typed parser becomes by an update is typed exactly if the new value is.\<close>

named_theorems typed

lemma typed_fields [typed]:
  assumes "parser_typed p"
  shows "parser_typed (p\<lparr>sp_ready_suite := x\<rparr>) \<longleftrightarrow> pred_option (ready_typed {Suite_Object} (sp_store p)) x"
    "parser_typed (p\<lparr>sp_ready_case := x\<rparr>) \<longleftrightarrow> pred_option (ready_typed {Case_Object} (sp_store p)) x"
    "parser_typed (p\<lparr>sp_ready_iterator := x\<rparr>) \<longleftrightarrow> pred_option (ready_typed {Iterator_Object} (sp_store p)) x"
    "parser_typed (p\<lparr>sp_start_test := y\<rparr>) \<longleftrightarrow> pred_option (info_typed {Test_Object} (sp_store p)) y"
    "parser_typed (p\<lparr>sp_start_iterated_test := y\<rparr>) \<longleftrightarrow>
       pred_option (info_typed {Iterated_Test_Object} (sp_store p)) y"
    "parser_typed (p\<lparr>sp_pass_assertion := y\<rparr>) \<longleftrightarrow> pred_option (info_typed test_kinds_set (sp_store p)) y"
    "parser_typed (p\<lparr>sp_complete_test := y\<rparr>) \<longleftrightarrow> pred_option (info_typed {Test_Object} (sp_store p)) y"
    "parser_typed (p\<lparr>sp_complete_iterated_test := y\<rparr>) \<longleftrightarrow>
       pred_option (info_typed {Iterated_Test_Object} (sp_store p)) y"
    "parser_typed (p\<lparr>sp_test_result := z\<rparr>) \<longleftrightarrow>
       pred_option (result_info_typed test_kinds_set (sp_store p) (length (sp_results p))) z"
    "parser_typed (p\<lparr>sp_iterator_result := z\<rparr>) \<longleftrightarrow>
       pred_option (result_info_typed {Iterator_Object} (sp_store p) (length (sp_results p))) z"
    "parser_typed (p\<lparr>sp_case_result := z\<rparr>) \<longleftrightarrow>
       pred_option (result_info_typed {Case_Object} (sp_store p) (length (sp_results p))) z"
    "parser_typed (p\<lparr>sp_result := r\<rparr>) \<longleftrightarrow> pred_option (\<lambda>r. r < length (sp_results p)) r"
  using assms by (simp_all add: parser_typed_def Let_def)

lemma typed_stacks [typed]:
  assumes "parser_typed p"
  shows "parser_typed (p\<lparr>sp_suites := xs\<rparr>) \<longleftrightarrow> list_all (is_suite (sp_store p)) xs"
    "parser_typed (p\<lparr>sp_cases := xs\<rparr>) \<longleftrightarrow> list_all (is_case (sp_store p)) xs"
    "parser_typed (p\<lparr>sp_iterators := xs\<rparr>) \<longleftrightarrow> list_all (is_iterator (sp_store p)) xs"
    "parser_typed (PUSH_TEST_SUITE t p) \<longleftrightarrow> is_suite (sp_store p) t"
    "parser_typed (PUSH_TEST_CASE t p) \<longleftrightarrow> is_case (sp_store p) t"
    "parser_typed (PUSH_TEST_ITERATOR t p) \<longleftrightarrow> is_iterator (sp_store p) t"
    "parser_typed (PUSH_TEST t p) \<longleftrightarrow> is_test (sp_store p) t"
    "parser_typed (PUSH_TEST_CONTEXT c p) \<longleftrightarrow> is_context (sp_store p) c"
    "parser_typed (PUSH_TEST_DATA c p) \<longleftrightarrow> is_data (sp_store p) c"
  using assms
  by (simp_all add: parser_typed_def Let_def PUSH_TEST_SUITE_def PUSH_TEST_CASE_def PUSH_TEST_ITERATOR_def
      PUSH_TEST_def PUSH_TEST_CONTEXT_def PUSH_TEST_DATA_def)

text \<open>Fields with no references, and elements popped.\<close>

lemma untyped_fields [typed]:
  "parser_typed (PUSH_STATE s p) = parser_typed p" "parser_typed (p\<lparr>sp_states := ss\<rparr>) = parser_typed p"
  "parser_typed (p\<lparr>sp_element_stack := es\<rparr>) = parser_typed p"
  "parser_typed (p\<lparr>sp_option_name := n\<rparr>) = parser_typed p" "parser_typed (p\<lparr>sp_option_value := n\<rparr>) = parser_typed p"
  "parser_typed (p\<lparr>sp_backtrace := bs\<rparr>) = parser_typed p"
  "parser_typed (p\<lparr>sp_backtrace_entry := e\<rparr>) = parser_typed p"
  "parser_typed (p\<lparr>sp_complete_success := b\<rparr>) = parser_typed p"
  "parser_typed (p\<lparr>sp_stream_success := b\<rparr>) = parser_typed p"
  "parser_typed (p\<lparr>sp_results_emitted := rs\<rparr>) = parser_typed p"
  by (simp_all add: parser_typed_def Let_def PUSH_STATE_def)

lemma list_all_tl: "list_all P xs \<Longrightarrow> list_all P (tl xs)"
  by (cases xs) auto

lemma typed_drops [typed]:
  assumes "parser_typed p"
  shows "parser_typed (DROP_TEST_SUITE p)" "parser_typed (DROP_TEST_CASE p)" "parser_typed (DROP_TEST_ITERATOR p)"
    "parser_typed (DROP_TEST p)" "parser_typed (DROP_TEST_CONTEXT p)" "parser_typed (DROP_TEST_DATA p)"
  using assms
  by (simp_all add: parser_typed_def Let_def DROP_TEST_SUITE_def DROP_TEST_CASE_def DROP_TEST_ITERATOR_def
      DROP_TEST_def DROP_TEST_CONTEXT_def DROP_TEST_DATA_def list_all_tl)

lemma typed_drop_if [typed]:
  "parser_typed p \<Longrightarrow> parser_typed (drop_p p) \<Longrightarrow> parser_typed (drop_if x drop_p p)"
  by (simp add: drop_if_def)

text \<open>New objects.\<close>

lemma typed_new [typed]:
  assumes p: "parser_typed p"
  shows "parser_typed (snd (new_test k p))" "parser_typed (snd (new_context_object p))"
    "parser_typed (snd (new_data p))" "parser_typed (snd (new_result p))"
proof -
  have all: "list_all (context_typed (sp_store p)) (ms_contexts (sp_store p))"
    and res: "list_all (result_typed (sp_store p)) (sp_results p)"
    using p by (auto simp: parser_typed_def Let_def)
  have ext: "extends (sp_store p) (sp_store (snd (new_test k p)))"
    "extends (sp_store p) (sp_store (snd (new_context_object p)))"
    "extends (sp_store p) (sp_store (snd (new_data p)))"
    by (auto simp: extends_def new_test_def new_context_object_def new_data_def nth_append)
  have step: "parser_typed (p\<lparr>sp_store := S\<rparr>)" if "extends (sp_store p) S"
    "set (ms_contexts S) \<subseteq> insert empty_context (set (ms_contexts (sp_store p)))" for S
  proof (rule typed_store [OF p that(1)])
    have "context_typed S empty_context" by (simp add: context_typed_def empty_context_def)
    moreover have "context_typed S mc" if "mc \<in> set (ms_contexts (sp_store p))" for mc
      using extends_infos(1) [OF \<open>extends (sp_store p) S\<close>] all that by (simp add: list_all_iff)
    ultimately show "list_all (context_typed S) (ms_contexts S)"
      using that(2) by (auto simp: list_all_iff)
  qed
  show "parser_typed (snd (new_test k p))" "parser_typed (snd (new_context_object p))"
    "parser_typed (snd (new_data p))"
    using step [OF ext(1)] step [OF ext(2)] step [OF ext(3)]
    by (simp_all add: new_test_def new_context_object_def new_data_def subset_insertI)
  have "result_typed (sp_store p) cut_test_result_new_empty"
    by (simp add: result_typed_def cut_test_result_new_empty_def cut_test_result_new_def
        cut_test_result_set_system_message_def cut_test_result_set_user_message_def cut_test_result_init_def reset_message_def)
  then show "parser_typed (snd (new_result p))"
    using p extends_infos(5) [OF extends_refl, of "length (sp_results p)" "Suc (length (sp_results p))"]
    by (auto simp: parser_typed_def Let_def new_result_def elim!: pred_option_mono)
qed

text \<open>The store of a parser, and the objects in it.\<close>

lemma store_moves [typed]:
  "sp_store (PUSH_STATE s p) = sp_store p" "sp_store (PUSH_TEST_SUITE t p) = sp_store p"
  "sp_store (PUSH_TEST_CASE t p) = sp_store p" "sp_store (PUSH_TEST_ITERATOR t p) = sp_store p"
  "sp_store (PUSH_TEST t p) = sp_store p" "sp_store (PUSH_TEST_CONTEXT t p) = sp_store p"
  "sp_store (PUSH_TEST_DATA t p) = sp_store p" "sp_store (snd (new_result p)) = sp_store p"
  "sp_store (update_result r f p) = sp_store p" "sp_store (emit_signal sig p) = sp_store p"
  "sp_results (PUSH_STATE s p) = sp_results p" "sp_results (snd (new_test k p)) = sp_results p"
  "sp_results (snd (new_context_object p)) = sp_results p" "sp_results (emit_signal sig p) = sp_results p"
  "sp_results (snd (new_result p)) = sp_results p @ [cut_test_result_new_empty]"
  "fst (new_result p) = length (sp_results p)"
  by (simp_all add: PUSH_STATE_def PUSH_TEST_SUITE_def PUSH_TEST_CASE_def PUSH_TEST_ITERATOR_def PUSH_TEST_def
      PUSH_TEST_CONTEXT_def PUSH_TEST_DATA_def new_result_def new_test_def new_context_object_def
      update_result_def emit_signal_def split: option.split)

lemma new_refs [typed]:
  "has_kind K (sp_store (snd (new_test k p))) (fst (new_test k p)) \<longleftrightarrow> k \<in> K"
  "is_context (sp_store (snd (new_context_object p))) (fst (new_context_object p))"
  "is_data (sp_store (snd (new_data p))) (fst (new_data p))"
  by (simp_all add: has_kind_def is_context_def is_data_def new_test_def new_context_object_def new_data_def
      empty_test_def)

lemma new_extends:
  "extends (sp_store p) (sp_store (snd (new_test k p)))"
  "extends (sp_store p) (sp_store (snd (new_context_object p)))"
  "extends (sp_store p) (sp_store (snd (new_data p)))"
  by (auto simp: extends_def new_test_def new_context_object_def new_data_def nth_append)

lemma typed_update_test [typed]:
  assumes p: "parser_typed p" and f: "\<And>m. mt_kind (f m) = mt_kind m"
  shows "parser_typed (update_test t f p)"
proof -
  let ?S = "(sp_store p)\<lparr>ms_tests := (ms_tests (sp_store p))[t := f (ms_tests (sp_store p) ! t)]\<rparr>"
  have "mt_kind ((ms_tests (sp_store p))[t := f (ms_tests (sp_store p) ! t)] ! u) = mt_kind (ms_tests (sp_store p) ! u)"
    if "u < length (ms_tests (sp_store p))" for u
    using f that by (cases "t = u") auto
  then have ext: "extends (sp_store p) ?S" by (simp add: extends_def)
  have "list_all (context_typed (sp_store p)) (ms_contexts (sp_store p))"
    using p by (simp add: parser_typed_def Let_def)
  then have "list_all (context_typed ?S) (ms_contexts ?S)"
    using extends_infos(1) [OF ext] by (auto simp: list_all_iff)
  from typed_store [OF p ext this] show ?thesis by (simp add: update_test_def)
qed

lemma typed_update_data [typed]:
  assumes p: "parser_typed p"
  shows "parser_typed (update_data d v p)"
proof -
  let ?S = "(sp_store p)\<lparr>ms_data := (ms_data (sp_store p))[d := v]\<rparr>"
  have ext: "extends (sp_store p) ?S" by (auto simp: extends_def)
  have "list_all (context_typed (sp_store p)) (ms_contexts (sp_store p))"
    using p by (simp add: parser_typed_def Let_def)
  then have "list_all (context_typed ?S) (ms_contexts ?S)"
    using extends_infos(1) [OF ext] by (auto simp: list_all_iff)
  from typed_store [OF p ext this] show ?thesis by (simp add: update_data_def)
qed

lemma list_all_update: "list_all P xs \<Longrightarrow> (P (xs ! i) \<Longrightarrow> P x) \<Longrightarrow> list_all P (xs[i := x])"
  by (cases "i < length xs") (auto simp: list_all_length nth_list_update)

lemma typed_update_context [typed]:
  assumes p: "parser_typed p"
    and f: "\<And>mc. context_typed (sp_store p) mc \<Longrightarrow> context_typed (sp_store p) (f mc)"
  shows "parser_typed (update_context_object c f p)"
proof -
  let ?cs = "(ms_contexts (sp_store p))[c := f (ms_contexts (sp_store p) ! c)]"
  let ?S = "(sp_store p)\<lparr>ms_contexts := ?cs\<rparr>"
  have ext: "extends (sp_store p) ?S" by (auto simp: extends_def)
  have "list_all (context_typed (sp_store p)) (ms_contexts (sp_store p))"
    using p by (simp add: parser_typed_def Let_def)
  then have "list_all (context_typed (sp_store p)) ?cs" by (rule list_all_update) (rule f)
  then have "list_all (context_typed ?S) (ms_contexts ?S)"
    using extends_infos(1) [OF ext] by (auto simp: list_all_iff)
  from typed_store [OF p ext this] show ?thesis by (simp add: update_context_object_def)
qed

lemma typed_update_result [typed]:
  assumes p: "parser_typed p" and f: "\<And>x. result_typed (sp_store p) x \<Longrightarrow> result_typed (sp_store p) (f x)"
  shows "parser_typed (update_result r f p)"
proof -
  have "list_all (result_typed (sp_store p)) (sp_results p)" using p by (simp add: parser_typed_def Let_def)
  then have "list_all (result_typed (sp_store p)) ((sp_results p)[r := f (sp_results p ! r)])"
    by (rule list_all_update) (rule f)
  then show ?thesis using p by (simp add: parser_typed_def Let_def update_result_def)
qed

lemma typed_emit [typed]:
  "parser_typed p \<Longrightarrow> parser_typed (emit_signal sig p) \<longleftrightarrow> sp_run_context p = None \<or> signal_typed (sp_store p, sig)"
  by (auto simp: parser_typed_def Let_def emit_signal_def split: option.split)

text \<open>What a typed parser holds.\<close>

lemma typed_holds:
  assumes "parser_typed p"
  shows "sp_ready_suite p = Some i \<Longrightarrow> ready_typed {Suite_Object} (sp_store p) i"
    "sp_ready_case p = Some i \<Longrightarrow> ready_typed {Case_Object} (sp_store p) i"
    "sp_ready_iterator p = Some i \<Longrightarrow> ready_typed {Iterator_Object} (sp_store p) i"
    "sp_start_test p = Some k \<Longrightarrow> info_typed {Test_Object} (sp_store p) k"
    "sp_start_iterated_test p = Some k \<Longrightarrow> info_typed {Iterated_Test_Object} (sp_store p) k"
    "sp_pass_assertion p = Some k \<Longrightarrow> info_typed test_kinds_set (sp_store p) k"
    "sp_complete_test p = Some k \<Longrightarrow> info_typed {Test_Object} (sp_store p) k"
    "sp_complete_iterated_test p = Some k \<Longrightarrow> info_typed {Iterated_Test_Object} (sp_store p) k"
    "sp_test_result p = Some j \<Longrightarrow> result_info_typed test_kinds_set (sp_store p) (length (sp_results p)) j"
    "sp_iterator_result p = Some j \<Longrightarrow> result_info_typed {Iterator_Object} (sp_store p) (length (sp_results p)) j"
    "sp_case_result p = Some j \<Longrightarrow> result_info_typed {Case_Object} (sp_store p) (length (sp_results p)) j"
    "sp_result p = Some r \<Longrightarrow> r < length (sp_results p)"
    "sp_suites p = t # ts \<Longrightarrow> is_suite (sp_store p) t \<and> list_all (is_suite (sp_store p)) ts"
    "sp_cases p = t # ts \<Longrightarrow> is_case (sp_store p) t \<and> list_all (is_case (sp_store p)) ts"
    "sp_iterators p = t # ts \<Longrightarrow> is_iterator (sp_store p) t \<and> list_all (is_iterator (sp_store p)) ts"
    "r < length (sp_results p) \<Longrightarrow> result_typed (sp_store p) (sp_results p ! r)"
  using assms by (auto simp: parser_typed_def Let_def list_all_length)

section \<open>Handlers\<close>

lemma typed_infos [typed]:
  "ready_typed K S (i\<lparr>ready_object := Some t\<rparr>) \<longleftrightarrow> has_kind K S t"
  "ready_typed K S (i\<lparr>ready_n_tests := n\<rparr>) \<longleftrightarrow> ready_typed K S i"
  "ready_typed K S (i\<lparr>ready_n_test_cases := n\<rparr>) \<longleftrightarrow> ready_typed K S i"
  "ready_typed K S no_ready" "info_typed K S no_test" "result_info_typed K S m no_result"
  by (simp_all add: ready_typed_def info_typed_def result_info_typed_def)

lemma typed_info_fields [typed]:
  "info_typed K S k \<Longrightarrow> info_typed K S (k\<lparr>info_test := Some t\<rparr>) \<longleftrightarrow> has_kind K S t"
  "info_typed K S k \<Longrightarrow> info_typed K S (k\<lparr>info_context := Some c\<rparr>) \<longleftrightarrow> is_context S c"
  "result_info_typed K S n j \<Longrightarrow> result_info_typed K S n (j\<lparr>result_object := Some t\<rparr>) \<longleftrightarrow> has_kind K S t"
  "result_info_typed K S n j \<Longrightarrow> result_info_typed K S n (j\<lparr>result_context := Some c\<rparr>) \<longleftrightarrow> is_context S c"
  "result_info_typed K S n j \<Longrightarrow> result_info_typed K S m (j\<lparr>info_result := Some r\<rparr>) \<longleftrightarrow> r < m"
  by (simp_all add: info_typed_def result_info_typed_def)

text \<open>An element for a test or for a context below one of the five elements that hold both.\<close>

lemma typed_info_test:
  assumes "start_info_test get set_info k s p = Inr q" and p: "parser_typed p" and "k \<in> K" "k \<in> test_kinds_set"
    and get: "\<And>i. get p = Some i \<Longrightarrow> info_typed K (sp_store p) i"
    and set_info: "\<And>i r. parser_typed r \<Longrightarrow> info_typed K (sp_store r) i \<Longrightarrow> parser_typed (set_info (Some i) r)"
      "\<And>i r. sp_store (set_info i r) = sp_store r"
  shows "parser_typed q"
proof -
  let ?n = "new_test k (PUSH_STATE s p)"
  obtain i where i: "get p = Some i" and q: "q = PUSH_TEST (fst ?n) (set_info (Some (i\<lparr>info_test := Some (fst ?n)\<rparr>)) (snd ?n))"
    using assms(1) by (auto simp: start_info_test_def parser_moves Let_def split_def)
  have "info_typed K (sp_store (snd ?n)) i"
    using extends_infos(4) [OF new_extends(1)] get [OF i] by (simp add: typed)
  then have "parser_typed (set_info (Some (i\<lparr>info_test := Some (fst ?n)\<rparr>)) (snd ?n))"
    using p \<open>k \<in> K\<close> by (intro set_info) (simp_all add: typed)
  then show ?thesis using q \<open>k \<in> test_kinds_set\<close> by (simp add: typed set_info)
qed

lemma typed_info_context:
  assumes "start_info_context get set_info p = Inr q" and p: "parser_typed p"
    and get: "\<And>i. get p = Some i \<Longrightarrow> info_typed K (sp_store p) i"
    and set_info: "\<And>i r. parser_typed r \<Longrightarrow> info_typed K (sp_store r) i \<Longrightarrow> parser_typed (set_info (Some i) r)"
      "\<And>i r. sp_store (set_info i r) = sp_store r"
  shows "parser_typed q"
proof -
  let ?n = "new_context_object (PUSH_STATE IN_TEST_CONTEXT p)"
  obtain i where i: "get p = Some i"
    and q: "q = PUSH_TEST_CONTEXT (fst ?n) (set_info (Some (i\<lparr>info_context := Some (fst ?n)\<rparr>)) (snd ?n))"
    using assms(1) by (auto simp: start_info_context_def parser_moves Let_def split_def)
  have "info_typed K (sp_store (snd ?n)) i"
    using extends_infos(4) [OF new_extends(2)] get [OF i] by (simp add: typed)
  then have "parser_typed (set_info (Some (i\<lparr>info_context := Some (fst ?n)\<rparr>)) (snd ?n))"
    using p by (intro set_info) (simp_all add: typed)
  then show ?thesis using q by (simp add: typed set_info)
qed

lemmas typed_info_elements = typed_info_test [where get = sp_start_test and K = "{Test_Object}"]
  typed_info_test [where get = sp_start_iterated_test and K = "{Iterated_Test_Object}"]
  typed_info_test [where get = sp_pass_assertion and K = test_kinds_set]
  typed_info_test [where get = sp_complete_test and K = "{Test_Object}"]
  typed_info_test [where get = sp_complete_iterated_test and K = "{Iterated_Test_Object}"]
  typed_info_context [where get = sp_start_test and K = "{Test_Object}"]
  typed_info_context [where get = sp_start_iterated_test and K = "{Iterated_Test_Object}"]
  typed_info_context [where get = sp_pass_assertion and K = test_kinds_set]
  typed_info_context [where get = sp_complete_test and K = "{Test_Object}"]
  typed_info_context [where get = sp_complete_iterated_test and K = "{Iterated_Test_Object}"]

lemma start_info_typed:
  assumes "parser_typed p"
  shows "start_start_test n p = Inr q \<Longrightarrow> parser_typed q"
    "start_start_iterated_test n p = Inr q \<Longrightarrow> parser_typed q"
    "start_pass_assertion n p = Inr q \<Longrightarrow> parser_typed q"
    "start_complete_test n p = Inr q \<Longrightarrow> parser_typed q"
    "start_complete_iterated_test n p = Inr q \<Longrightarrow> parser_typed q"
  using assms
  by (auto simp: start_start_test_def start_start_iterated_test_def start_pass_assertion_def
      start_complete_test_def start_complete_iterated_test_def parser_moves typed
      split: if_splits elim!: typed_info_elements dest: typed_holds)

text \<open>A result set to an object, and a context set to one.\<close>

lemma typed_result_setters [typed]:
  assumes "result_typed S r"
  shows "result_typed S (cut_test_result_set_test_case (Some t) r) \<longleftrightarrow> is_case S t"
    "result_typed S (cut_test_result_set_test_iterator (Some t) r) \<longleftrightarrow> is_iterator S t"
    "result_typed S (cut_test_result_set_test (Some t) r) \<longleftrightarrow> is_test S t"
    "result_typed S (cut_test_result_set_test_data (Some d) r) \<longleftrightarrow> is_data S d"
    "result_typed S (cut_test_result_set_status s r)" "result_typed S (cut_test_result_set_message m r)"
    "result_typed S (cut_test_result_set_backtrace es r)" "result_typed S (cut_test_result_set_start_time x r)"
    "result_typed S (cut_test_result_set_elapsed e r)" "result_typed S (cut_test_result_set_expected m r)"
    "result_typed S (cut_test_result_set_actual m r)" "result_typed S (cut_test_result_set_diff m r)"
    "result_typed S (cut_test_result_set_folded_diff m r)"
  using assms
  by (simp_all add: result_typed_def cut_test_result_set_test_case_def cut_test_result_set_test_iterator_def
      cut_test_result_set_test_def cut_test_result_set_test_data_def cut_test_result_set_status_def
      cut_test_result_set_message_def cut_test_result_set_backtrace_def cut_test_result_set_start_time_def
      cut_test_result_set_elapsed_def cut_test_result_set_expected_def cut_test_result_set_actual_def
      cut_test_result_set_diff_def cut_test_result_set_folded_diff_def reset_diff_def reset_message_def Let_def)

lemma typed_context_fields [typed]:
  assumes "context_typed S mc"
  shows "context_typed S (mc\<lparr>mc_suite := Some t\<rparr>) \<longleftrightarrow> is_suite S t"
    "context_typed S (mc\<lparr>mc_case := Some t\<rparr>) \<longleftrightarrow> is_case S t"
    "context_typed S (mc\<lparr>mc_iterator := Some t\<rparr>) \<longleftrightarrow> is_iterator S t"
    "context_typed S (mc\<lparr>mc_test := Some t\<rparr>) \<longleftrightarrow> is_test S t"
    "context_typed S (mc\<lparr>mc_data := Some d\<rparr>) \<longleftrightarrow> is_data S d" "context_typed S (mc\<lparr>mc_failed := b\<rparr>)"
  using assms by (simp_all add: context_typed_def)

lemma context_store [typed]:
  "has_kind K (sp_store (update_context_object c f p)) t = has_kind K (sp_store p) t"
  "is_data (sp_store (update_context_object c f p)) d = is_data (sp_store p) d"
  by (simp_all add: has_kind_def is_data_def update_context_object_def)

lemma start_context_typed:
  "parser_typed p \<Longrightarrow> start_test_context n p = Inr q \<Longrightarrow> parser_typed q"
  by (auto simp: start_test_context_def start_context_test_def parser_moves typed Let_def split_def
      split: if_splits)

lemma start_result_typed:
  "parser_typed p \<Longrightarrow> start_result n p = Inr q \<Longrightarrow> parser_typed q"
  by (auto simp: start_result_def parser_moves typed Let_def split_def split: if_splits)

text \<open>What is held is still of its kind after a new object or a new result.\<close>

lemma held_infos:
  assumes "parser_typed p"
  shows "sp_ready_suite p = Some i \<Longrightarrow> ready_typed {Suite_Object} (sp_store (snd (new_test k (PUSH_STATE s p)))) i"
    "sp_test_result p = Some j \<Longrightarrow> result_info_typed test_kinds_set (sp_store (snd (new_test k (PUSH_STATE s p))))
       (length (sp_results p)) j"
    "sp_test_result p = Some j \<Longrightarrow> result_info_typed test_kinds_set
       (sp_store (snd (new_context_object (PUSH_STATE s p)))) (length (sp_results p)) j"
    "sp_iterator_result p = Some j \<Longrightarrow> result_info_typed {Iterator_Object}
       (sp_store (snd (new_test k (PUSH_STATE s p)))) (length (sp_results p)) j"
    "sp_case_result p = Some j \<Longrightarrow> result_info_typed {Case_Object}
       (sp_store (snd (new_test k (PUSH_STATE s p)))) (length (sp_results p)) j"
proof -
  have "extends (sp_store p) (sp_store (snd (new_test k (PUSH_STATE s p))))"
    "extends (sp_store p) (sp_store (snd (new_context_object (PUSH_STATE s p))))"
    using new_extends(1,2) [of "PUSH_STATE s p"] by (simp_all add: typed)
  note larger = this [THEN extends_infos(3)] this [THEN extends_infos(5), OF order_refl]
  show "sp_ready_suite p = Some i \<Longrightarrow> ready_typed {Suite_Object} (sp_store (snd (new_test k (PUSH_STATE s p)))) i"
    "sp_test_result p = Some j \<Longrightarrow> result_info_typed test_kinds_set (sp_store (snd (new_test k (PUSH_STATE s p))))
       (length (sp_results p)) j"
    "sp_test_result p = Some j \<Longrightarrow> result_info_typed test_kinds_set
       (sp_store (snd (new_context_object (PUSH_STATE s p)))) (length (sp_results p)) j"
    "sp_iterator_result p = Some j \<Longrightarrow> result_info_typed {Iterator_Object}
       (sp_store (snd (new_test k (PUSH_STATE s p)))) (length (sp_results p)) j"
    "sp_case_result p = Some j \<Longrightarrow> result_info_typed {Case_Object}
       (sp_store (snd (new_test k (PUSH_STATE s p)))) (length (sp_results p)) j"
    by (blast intro: larger typed_holds [OF assms])+
qed

lemma held_results:
  assumes "parser_typed p"
  shows "sp_test_result p = Some j \<Longrightarrow>
      result_info_typed test_kinds_set (sp_store p) m (j\<lparr>info_result := Some r\<rparr>) \<longleftrightarrow> r < m"
    "sp_iterator_result p = Some j \<Longrightarrow>
      result_info_typed {Iterator_Object} (sp_store p) m (j\<lparr>info_result := Some r\<rparr>) \<longleftrightarrow> r < m"
    "sp_case_result p = Some j \<Longrightarrow>
      result_info_typed {Case_Object} (sp_store p) m (j\<lparr>info_result := Some r\<rparr>) \<longleftrightarrow> r < m"
  using typed_holds(9-11) [OF assms] by (auto simp: result_info_typed_def)

lemma start_results_typed:
  assumes "parser_typed p"
  shows "start_test_result n p = Inr q \<Longrightarrow> parser_typed q" "start_test_iterator_result n p = Inr q \<Longrightarrow> parser_typed q"
    "start_test_case_result n p = Inr q \<Longrightarrow> parser_typed q"
  using assms
  by (auto simp: start_test_result_def start_test_iterator_result_def start_test_case_result_def
      start_new_result_def parser_moves typed Let_def split_def held_infos held_results
      split: if_splits)

lemma start_stream_typed:
  assumes "parser_typed p"
  shows "start_stream n p = Inr q \<Longrightarrow> parser_typed q" "start_top_level n p = Inr q \<Longrightarrow> parser_typed q"
    "start_top_level_result n p = Inr q \<Longrightarrow> parser_typed q"
  using assms
  by (auto simp: start_stream_def start_top_level_def start_top_level_result_def push_new_def parser_moves typed
      Let_def split_def split: if_splits)

lemma start_objects_typed:
  assumes "parser_typed p"
  shows "start_ready_test_suite n p = Inr q \<Longrightarrow> parser_typed q" "start_ready_test_case n p = Inr q \<Longrightarrow> parser_typed q"
    "start_ready_test_iterator n p = Inr q \<Longrightarrow> parser_typed q"
    "start_start_test_suite n p = Inr q \<Longrightarrow> parser_typed q" "start_start_test_case n p = Inr q \<Longrightarrow> parser_typed q"
    "start_start_test_iterator n p = Inr q \<Longrightarrow> parser_typed q"
    "start_complete_test_suite n p = Inr q \<Longrightarrow> parser_typed q"
    "start_complete_test_case n p = Inr q \<Longrightarrow> parser_typed q"
    "start_complete_test_iterator n p = Inr q \<Longrightarrow> parser_typed q"
  using assms
  by (auto simp: start_ready_test_suite_def start_ready_test_case_def start_ready_test_iterator_def
      start_start_test_suite_def start_start_test_case_def start_start_test_iterator_def
      start_complete_test_suite_def start_complete_test_case_def start_complete_test_iterator_def push_new_def
      parser_moves typed Let_def split_def split: if_splits)

lemma start_texts_typed:
  assumes "parser_typed p"
  shows "start_test_object n p = Inr q \<Longrightarrow> parser_typed q" "start_test_option n p = Inr q \<Longrightarrow> parser_typed q"
    "start_result_backtrace n p = Inr q \<Longrightarrow> parser_typed q"
    "start_result_backtrace_entry n p = Inr q \<Longrightarrow> parser_typed q" "start_test_data n p = Inr q \<Longrightarrow> parser_typed q"
  using assms
  by (auto simp: start_test_object_def start_test_option_def start_result_backtrace_def
      start_result_backtrace_entry_def start_test_data_def parser_moves typed split: if_splits)

lemmas start_handlers_typed = start_stream_typed start_objects_typed start_texts_typed start_info_typed
  start_context_typed start_result_typed start_results_typed

lemma start_typed: "parser_typed p \<Longrightarrow> start_in_state s n p = Inr q \<Longrightarrow> parser_typed q"
  unfolding start_in_state_def
  by (cases s; simp only: parse_state.case; (erule (1) start_handlers_typed | simp only: errors_Inr))

lemma emit_signals_typed:
  assumes "emit_result sig i p = Inr q" and p: "parser_typed p" and i: "pred_option (\<lambda>r. r < length (sp_results p)) (info_result i)"
    and sig: "\<And>r. result_typed (sp_store p) r \<Longrightarrow> signal_typed (sp_store p, sig (result_status r) r)"
  shows "parser_typed q"
proof (cases "sp_run_context p = None")
  case False
  then obtain r where r: "info_result i = Some r"
    "q = emit_signal (sig (result_status (sp_results p ! r)) (sp_results p ! r)) p"
    using assms(1) by (auto simp: emit_result_def parser_moves)
  then have "result_typed (sp_store p) (sp_results p ! r)"
    using i typed_holds(16) [OF p] by simp
  then show ?thesis using r p sig by (simp add: typed)
qed (use assms(1) p in \<open>simp add: emit_result_def\<close>)

lemma given_pointer: "pred_option (has_kind K S) x \<Longrightarrow> given K S (pointer x)"
  by (cases x) (simp_all add: pointer_def given_def)

lemma given_kind: "has_kind K S t \<Longrightarrow> given K S t"
  by (simp add: given_def)

lemma end_results_typed:
  assumes p: "parser_typed p"
  shows "end_test_result p = Inr q \<Longrightarrow> parser_typed q" "end_test_iterator_result p = Inr q \<Longrightarrow> parser_typed q"
    "end_test_case_result p = Inr q \<Longrightarrow> parser_typed q"
proof -
  note refs = result_info_typed_def given_pointer
  have "parser_typed r" if "emit_result (\<lambda>s r. Status_Test s (pointer (result_object i)) (result_context i) r) i p = Inr r"
    "sp_test_result p = Some i" for i r
    using that typed_holds(9) [OF p] by (elim emit_signals_typed) (simp_all add: p refs)
  then show "end_test_result p = Inr q \<Longrightarrow> parser_typed q"
    using p by (auto simp: end_test_result_def parser_moves typed split: option.splits)
  have "parser_typed r" if "emit_result (\<lambda>s r. Status_Test_Iterator s (pointer (result_object i)) r) i p = Inr r"
    "sp_iterator_result p = Some i" for i r
    using that typed_holds(10) [OF p] by (elim emit_signals_typed) (simp_all add: p refs)
  then show "end_test_iterator_result p = Inr q \<Longrightarrow> parser_typed q"
    using p by (auto simp: end_test_iterator_result_def parser_moves typed split: option.splits)
  have "parser_typed r" if "emit_result (\<lambda>s r. Status_Test_Case s (pointer (result_object i)) r) i p = Inr r"
    "sp_case_result p = Some i" for i r
    using that typed_holds(11) [OF p] by (elim emit_signals_typed) (simp_all add: p refs)
  then show "end_test_case_result p = Inr q \<Longrightarrow> parser_typed q"
    using p by (auto simp: end_test_case_result_def parser_moves typed split: option.splits)
qed

lemma typed_drop_info [typed]: "parser_typed p \<Longrightarrow> parser_typed (drop_info i p)"
  by (simp add: drop_info_def typed)

lemma end_option_typed: "parser_typed p \<Longrightarrow> end_test_option p = Inr q \<Longrightarrow> parser_typed q"
  by (auto simp: end_test_option_def parser_moves cut_test_set_attribute_def typed split: option.splits)

lemma end_infos_typed:
  assumes p: "parser_typed p"
  shows "end_start_test p = Inr q \<Longrightarrow> parser_typed q" "end_start_iterated_test p = Inr q \<Longrightarrow> parser_typed q"
    "end_pass_assertion p = Inr q \<Longrightarrow> parser_typed q" "end_complete_test p = Inr q \<Longrightarrow> parser_typed q"
    "end_complete_iterated_test p = Inr q \<Longrightarrow> parser_typed q"
  using p typed_holds(4-8) [OF p]
  by (auto simp: end_start_test_def end_start_iterated_test_def end_pass_assertion_def end_complete_test_def
      end_complete_iterated_test_def info_typed_def typed given_pointer split: option.splits if_splits)

lemma end_objects_typed:
  assumes p: "parser_typed p"
  shows "end_start_test_suite p = Inr q \<Longrightarrow> parser_typed q" "end_start_test_case p = Inr q \<Longrightarrow> parser_typed q"
    "end_start_test_iterator p = Inr q \<Longrightarrow> parser_typed q" "end_complete_test_suite p = Inr q \<Longrightarrow> parser_typed q"
    "end_complete_test_case p = Inr q \<Longrightarrow> parser_typed q" "end_complete_test_iterator p = Inr q \<Longrightarrow> parser_typed q"
  using p typed_holds(13-15) [OF p]
  by (auto simp: end_start_test_suite_def end_start_test_case_def end_start_test_iterator_def
      end_complete_test_suite_def end_complete_test_case_def end_complete_test_iterator_def typed given_kind
      split: list.splits)

lemma end_ready_typed:
  assumes p: "parser_typed p"
  shows "end_ready_test_suite p = Inr q \<Longrightarrow> parser_typed q" "end_ready_test_case p = Inr q \<Longrightarrow> parser_typed q"
    "end_ready_test_iterator p = Inr q \<Longrightarrow> parser_typed q"
  using p typed_holds(1-3) [OF p]
  by (auto simp: end_ready_test_suite_def end_ready_test_case_def end_ready_test_iterator_def ready_typed_def
      typed given_pointer split: option.splits)

lemma end_others_typed:
  assumes "parser_typed p"
  shows "end_top_level_result p = Inr q \<Longrightarrow> parser_typed q" "end_stream p = Inr q \<Longrightarrow> parser_typed q"
    "end_result p = Inr q \<Longrightarrow> parser_typed q" "end_test_context p = Inr q \<Longrightarrow> parser_typed q"
    "end_result_backtrace p = Inr q \<Longrightarrow> parser_typed q" "end_result_backtrace_entry p = Inr q \<Longrightarrow> parser_typed q"
  using assms
  by (auto simp: end_top_level_result_def end_stream_def end_result_def end_test_context_def
       end_result_backtrace_def end_result_backtrace_entry_def parser_moves typed Let_def
      split: if_splits option.splits)

lemmas end_handlers_typed = end_others_typed end_results_typed end_option_typed end_infos_typed end_objects_typed
  end_ready_typed

lemma end_typed: "parser_typed p \<Longrightarrow> end_in_state s p = Inr q \<Longrightarrow> parser_typed q"
  unfolding end_in_state_def
  by (cases s; simp only: parse_state.case; (erule (1) end_handlers_typed | simp))

lemma text_targets_typed:
  assumes "parser_typed p"
  shows "text_test_name v p = Inr q \<Longrightarrow> parser_typed q" "text_test_description v p = Inr q \<Longrightarrow> parser_typed q"
    "text_test_start_time G v p = Inr q \<Longrightarrow> parser_typed q" "text_test_elapsed G v p = Inr q \<Longrightarrow> parser_typed q"
    "text_test_option_name v p = Inr q \<Longrightarrow> parser_typed q" "text_test_option_value v p = Inr q \<Longrightarrow> parser_typed q"
    "text_test_data_name v p = Inr q \<Longrightarrow> parser_typed q" "text_test_context_failed v p = Inr q \<Longrightarrow> parser_typed q"
    "text_complete_success v p = Inr q \<Longrightarrow> parser_typed q" "text_stream_success v p = Inr q \<Longrightarrow> parser_typed q"
  using assms
  by (auto simp: text_defs cut_test_set_attribute_def parser_moves typed split: if_splits option.splits)

lemma with_result_typed:
  "parser_typed p \<Longrightarrow> (\<And>S x. result_typed S x \<Longrightarrow> result_typed S (f x)) \<Longrightarrow> with_result f p = Inr q \<Longrightarrow>
   parser_typed q"
  by (auto simp: with_result_def parser_moves typed)

lemma text_results_typed:
  assumes "parser_typed p"
  shows "text_result_status v p = Inr q \<Longrightarrow> parser_typed q" "text_result_detail v p = Inr q \<Longrightarrow> parser_typed q"
    "text_result_start_time G v p = Inr q \<Longrightarrow> parser_typed q" "text_result_elapsed G v p = Inr q \<Longrightarrow> parser_typed q"
    "text_result_expected v p = Inr q \<Longrightarrow> parser_typed q" "text_result_actual v p = Inr q \<Longrightarrow> parser_typed q"
    "text_result_diff v p = Inr q \<Longrightarrow> parser_typed q" "text_result_folded_diff v p = Inr q \<Longrightarrow> parser_typed q"
  using assms
  by (auto simp: text_result_status_def text_result_detail_def text_result_start_time_def
      text_result_elapsed_def text_result_expected_def text_result_actual_def text_result_diff_def
      text_result_folded_diff_def parser_moves typed split: option.splits elim!: with_result_typed [rotated 2])

lemma text_entries_typed:
  assumes "parser_typed p"
  shows "text_result_backtrace_entry_file v p = Inr q \<Longrightarrow> parser_typed q"
    "text_result_backtrace_entry_line v p = Inr q \<Longrightarrow> parser_typed q"
    "text_result_backtrace_entry_info v p = Inr q \<Longrightarrow> parser_typed q"
  using assms
  by (auto simp: text_result_backtrace_entry_file_def text_result_backtrace_entry_line_def
      text_result_backtrace_entry_info_def with_entry_def parser_moves typed split: if_splits option.splits)

lemma text_counts_typed:
  assumes "parser_typed p"
  shows "text_ready_test_suite_n_test_cases v p = Inr q \<Longrightarrow> parser_typed q"
    "text_ready_test_suite_n_tests v p = Inr q \<Longrightarrow> parser_typed q"
    "text_ready_test_case_n_tests v p = Inr q \<Longrightarrow> parser_typed q"
    "text_ready_test_iterator_n_tests v p = Inr q \<Longrightarrow> parser_typed q"
  using assms typed_holds(1-3) [OF assms]
  by (auto simp: text_ready_test_suite_n_test_cases_def text_ready_test_suite_n_tests_def
      text_ready_test_case_n_tests_def text_ready_test_iterator_n_tests_def invalid_n_tests_def parser_moves typed
      split: if_splits)

lemmas text_handlers_typed = text_targets_typed text_results_typed text_entries_typed text_counts_typed

lemma text_success_typed:
  "parser_typed p \<Longrightarrow> then_step (text_complete_success v) (text_stream_success v) p = Inr q \<Longrightarrow> parser_typed q"
  unfolding then_step_Inr using text_targets_typed(9,10) by blast

lemma text_typed: "parser_typed p \<Longrightarrow> text_in_state G s v p = Inr q \<Longrightarrow> parser_typed q"
  unfolding text_in_state_def
  by (cases s; simp only: parse_state.case; (erule (1) text_handlers_typed text_success_typed | simp))

lemma handle_typed: "parser_typed p \<Longrightarrow> handle_event G e p = Inr q \<Longrightarrow> parser_typed q"
  by (cases e)
     (auto simp: start_element_handler_def end_element_handler_def text_handler_def parser_moves typed
       dest!: start_typed [rotated] end_typed [rotated] text_typed [rotated])

lemma parse_typed: "parser_typed p \<Longrightarrow> cut_stream_parser_parse G es p = Inr q \<Longrightarrow> parser_typed q"
  by (induction es arbitrary: p) (auto simp: then_step_Inr dest: handle_typed)

lemma new_typed: "parser_typed (cut_stream_parser_new rc)"
  by (simp add: parser_typed_def Let_def cut_stream_parser_new_def context_typed_def empty_context_def
      result_typed_def cut_test_result_new_empty_def cut_test_result_new_def
      cut_test_result_set_system_message_def cut_test_result_set_user_message_def cut_test_result_init_def
      reset_message_def)

section \<open>The property\<close>

text \<open>C5: Whatever markup is read, well formed or not, every object that the parser holds or that a
  signal is emitted with exists and is of the right kind, and the status of a result signal is the
  status of its result.\<close>

theorem parsed_objects_typed:
  "cut_stream_parser_parse G es (cut_stream_parser_new rc) = Inr q \<Longrightarrow> parser_typed q"
  using parse_typed new_typed by blast

text \<open>A suite that is made ready with one test case and two tests.\<close>

definition sample_events :: "xml_event list" where
  "sample_events =
     [Start_Element ''stream'', Start_Element ''ready-test-suite'', Start_Element ''test-suite'',
      Start_Element ''name'', Characters (ascii ''s''), End_Element ''name'', End_Element ''test-suite'',
      Start_Element ''n-test-cases'', Characters (ascii ''1''), End_Element ''n-test-cases'',
      Start_Element ''n-tests'', Characters (ascii ''2''), End_Element ''n-tests'',
      End_Element ''ready-test-suite'']"

lemma parsed_objects_typed_witness:
  "\<forall>G rc. (case cut_stream_parser_parse G sample_events (cut_stream_parser_new (Some rc)) of
            Inl _ \<Rightarrow> False
          | Inr q \<Rightarrow> parser_typed q \<and> map snd (sp_emitted q) = [Start_Run, Ready_Test_Suite 1 1 2])"
proof (intro allI)
  fix G rc
  have "\<exists>q. cut_stream_parser_parse G sample_events (cut_stream_parser_new (Some rc)) = Inr q \<and>
         map snd (sp_emitted q) = [Start_Run, Ready_Test_Suite 1 1 2]"
    by (simp add: sample_events_def cut_stream_parser_new_def then_step_def start_element_handler_def
        PEEK_STATE_def start_in_state_def start_top_level_def start_stream_def start_ready_test_suite_def
        start_test_object_def end_element_handler_def end_in_state_def end_ready_test_suite_def text_handler_def
        text_in_state_def text_defs PUSH_STATE_def PUSH_TEST_SUITE_def DROP_TEST_SUITE_def emit_signal_def
        new_test_def with_pointer_def update_test_def Let_def parent_state_def target_test_object_def peek_def
        pointer_def drop_if_def empty_test_def ascii_def is_integer_def atoi_def guint_def digits_value_def)
  then show "case cut_stream_parser_parse G sample_events (cut_stream_parser_new (Some rc)) of
            Inl _ \<Rightarrow> False
          | Inr q \<Rightarrow> parser_typed q \<and> map snd (sp_emitted q) = [Start_Run, Ready_Test_Suite 1 1 2]"
    using parsed_objects_typed by fastforce
qed

end
