(* ===== verification/Stream_Errors.thy ===== *)
theory Stream_Errors
  imports Stream_Scopes
begin

text \<open>
  Markup on which the parser dereferences NULL or changes an object it is not reading.
\<close>

lemmas stream_steps = then_step_def start_element_handler_def end_element_handler_def text_handler_def
  PEEK_STATE_def start_in_state_def end_in_state_def text_in_state_def start_stream_def start_test_object_def
  start_test_option_def text_test_option_name_def text_test_option_value_def end_test_option_def
  PUSH_STATE_def with_pointer_def peek_def line_break_def

text \<open>The attribute of a test suite, of a test case or of an iterator is set on the test that was
  opened last, and not on the object that is read; where no test is open the parser dereferences NULL.\<close>

theorem option_outside_test:
  assumes "PEEK_STATE p \<in> {IN_TEST_SUITE, IN_TEST_CASE, IN_TEST_ITERATOR}"
    and "sp_option_name p = None" and "sp_option_value p = None" and "k \<noteq> []" and "v \<noteq> []"
  shows "cut_stream_parser_parse G (tree_events i (option_tree (k, v))) p =
    (case sp_tests p of [] \<Rightarrow> Inl Null_Pointer
     | t # ts \<Rightarrow> Inr (update_test t (cut_test_set_attribute k v) p))"
proof -
  obtain s ss where s: "sp_states p = s # ss" "s \<in> {IN_TEST_SUITE, IN_TEST_CASE, IN_TEST_ITERATOR}"
    using assms(1) by (auto simp: PEEK_STATE_def split: list.splits)
  then show ?thesis
    using assms(2-)
    by (cases "sp_tests p")
      (auto simp: option_tree_def stream_steps update_test_def butlast_append intro!: stream_parser.equality)
qed

text \<open>A suite below the element that makes it ready, and a stream with nothing open.\<close>

definition suite_read :: "object_id list \<Rightarrow> stream_parser" where
  "suite_read ts = (cut_stream_parser_new None)\<lparr>sp_states := [IN_TEST_SUITE, IN_READY_TEST_SUITE, IN_STREAM],
     sp_suites := [0], sp_tests := ts\<rparr>"

lemma option_outside_test_witness:
  "\<forall>G. cut_stream_parser_parse G (tree_events 0 (option_tree (ascii ''bug'', ascii ''1''))) (suite_read []) =
     Inl Null_Pointer \<and>
   cut_stream_parser_parse G (tree_events 0 (option_tree (ascii ''bug'', ascii ''1''))) (suite_read [0]) =
     Inr (update_test 0 (cut_test_set_attribute (ascii ''bug'') (ascii ''1'')) (suite_read [0]))"
proof
  fix G
  have "ascii ''bug'' \<noteq> []" "ascii ''1'' \<noteq> []" by (simp_all add: ascii_def)
  moreover have "PEEK_STATE (suite_read ts) \<in> {IN_TEST_SUITE, IN_TEST_CASE, IN_TEST_ITERATOR}"
    "sp_option_name (suite_read ts) = None" "sp_option_value (suite_read ts) = None" "sp_tests (suite_read ts) = ts" for ts
    by (simp_all add: suite_read_def cut_stream_parser_new_def PEEK_STATE_def)
  ultimately show "cut_stream_parser_parse G (tree_events 0 (option_tree (ascii ''bug'', ascii ''1''))) (suite_read []) =
     Inl Null_Pointer \<and>
   cut_stream_parser_parse G (tree_events 0 (option_tree (ascii ''bug'', ascii ''1''))) (suite_read [0]) =
     Inr (update_test 0 (cut_test_set_attribute (ascii ''bug'') (ascii ''1'')) (suite_read [0]))"
    by (simp only: option_outside_test list.case simp_thms)
qed

section \<open>What the inner elements leave alone\<close>

text \<open>The states inside the elements that are read below a result or a completion.\<close>

definition inner :: "parse_state \<Rightarrow> bool" where
  "inner s \<longleftrightarrow> s \<notin> {IN_TOP_LEVEL, IN_TOP_LEVEL_RESULT, IN_STREAM, IN_READY_TEST_SUITE, IN_START_TEST_SUITE,
     IN_READY_TEST_CASE, IN_START_TEST_CASE, IN_READY_TEST_ITERATOR, IN_START_TEST_ITERATOR, IN_START_TEST,
     IN_START_ITERATED_TEST, IN_PASS_ASSERTION, IN_TEST_RESULT, IN_COMPLETE_ITERATED_TEST, IN_COMPLETE_TEST,
     IN_TEST_ITERATOR_RESULT, IN_COMPLETE_TEST_ITERATOR, IN_TEST_CASE_RESULT, IN_COMPLETE_TEST_CASE,
     IN_COMPLETE_TEST_SUITE}"

definition same_infos :: "stream_parser \<Rightarrow> stream_parser \<Rightarrow> bool" where
  "same_infos p q \<longleftrightarrow> sp_test_result q = sp_test_result p \<and> sp_iterator_result q = sp_iterator_result p \<and>
     sp_case_result q = sp_case_result p \<and> sp_complete_test q = sp_complete_test p \<and>
     sp_complete_iterated_test q = sp_complete_iterated_test p \<and>
     (sp_run_context q = None \<longleftrightarrow> sp_run_context p = None)"

lemma same_infos_refl [simp]: "same_infos p p"
  by (simp add: same_infos_def)

lemma same_infos_trans: "same_infos p q \<Longrightarrow> same_infos q r \<Longrightarrow> same_infos p r"
  by (simp add: same_infos_def)

lemmas parser_defs = PUSH_STATE_def emit_signal_def PUSH_TEST_def PUSH_TEST_CASE_def
  PUSH_TEST_SUITE_def PUSH_TEST_ITERATOR_def PUSH_TEST_CONTEXT_def PUSH_TEST_DATA_def new_test_def
  new_context_object_def new_data_def new_result_def update_result_def update_context_object_def
  DROP_TEST_def DROP_TEST_CASE_def DROP_TEST_SUITE_def DROP_TEST_ITERATOR_def DROP_TEST_CONTEXT_def
  DROP_TEST_DATA_def update_test_def update_data_def

named_theorems info_moves

lemma operation_infos [info_moves]:
  "same_infos p (emit_signal sig q) = same_infos p q"
  "same_infos p (PUSH_TEST t q) = same_infos p q" "same_infos p (PUSH_TEST_CASE t q) = same_infos p q"
  "same_infos p (PUSH_TEST_SUITE t q) = same_infos p q" "same_infos p (PUSH_TEST_ITERATOR t q) = same_infos p q"
  "same_infos p (PUSH_TEST_CONTEXT t q) = same_infos p q" "same_infos p (PUSH_TEST_DATA t q) = same_infos p q"
  "same_infos p (snd (new_test k q)) = same_infos p q" "same_infos p (snd (new_context_object q)) = same_infos p q"
  "same_infos p (snd (new_data q)) = same_infos p q" "same_infos p (snd (new_result q)) = same_infos p q"
  "same_infos p (PUSH_STATE s q) = same_infos p q"
  "same_infos p (DROP_TEST q) = same_infos p q" "same_infos p (DROP_TEST_CASE q) = same_infos p q"
  "same_infos p (DROP_TEST_SUITE q) = same_infos p q" "same_infos p (DROP_TEST_ITERATOR q) = same_infos p q"
  "same_infos p (DROP_TEST_CONTEXT q) = same_infos p q" "same_infos p (DROP_TEST_DATA q) = same_infos p q"
  "same_infos p (update_test t h q) = same_infos p q" "same_infos p (update_result r f q) = same_infos p q"
  "same_infos p (update_data d v q) = same_infos p q" "same_infos p (update_context_object c g q) = same_infos p q"
  by (auto simp: same_infos_def parser_defs split: option.split)

lemma field_infos [info_moves]:
  "same_infos p (q\<lparr>sp_ready_suite := i\<rparr>) = same_infos p q" "same_infos p (q\<lparr>sp_ready_case := i\<rparr>) = same_infos p q"
  "same_infos p (q\<lparr>sp_ready_iterator := i\<rparr>) = same_infos p q" "same_infos p (q\<lparr>sp_start_test := k\<rparr>) = same_infos p q"
  "same_infos p (q\<lparr>sp_start_iterated_test := k\<rparr>) = same_infos p q" "same_infos p (q\<lparr>sp_pass_assertion := k\<rparr>) = same_infos p q"
  "same_infos p (q\<lparr>sp_result := x\<rparr>) = same_infos p q" "same_infos p (q\<lparr>sp_backtrace_entry := e\<rparr>) = same_infos p q"
  "same_infos p (q\<lparr>sp_backtrace := es\<rparr>) = same_infos p q" "same_infos p (q\<lparr>sp_option_name := n\<rparr>) = same_infos p q"
  "same_infos p (q\<lparr>sp_option_value := n\<rparr>) = same_infos p q" "same_infos p (q\<lparr>sp_complete_success := b\<rparr>) = same_infos p q"
  "same_infos p (q\<lparr>sp_stream_success := b\<rparr>) = same_infos p q" "same_infos p (q\<lparr>sp_results_emitted := rs\<rparr>) = same_infos p q"
  "same_infos p (q\<lparr>sp_suites := ts\<rparr>) = same_infos p q" "same_infos p (q\<lparr>sp_cases := ts\<rparr>) = same_infos p q"
  "same_infos p (q\<lparr>sp_iterators := ts\<rparr>) = same_infos p q" "same_infos p (q\<lparr>sp_element_stack := es'\<rparr>) = same_infos p q"
  "same_infos p (q\<lparr>sp_states := ss\<rparr>) = same_infos p q"
  by (simp_all add: same_infos_def)

text \<open>A new inner state on the states of p.\<close>

definition enters_inner :: "stream_parser \<Rightarrow> stream_parser \<Rightarrow> bool" where
  "enters_inner p q \<longleftrightarrow> (\<exists>s. inner s \<and> sp_states q = s # sp_states p)"

lemma enters_moves [info_moves]:
  "enters_inner p (emit_signal sig q) = enters_inner p q"
  "enters_inner p (PUSH_TEST t q) = enters_inner p q" "enters_inner p (PUSH_TEST_CASE t q) = enters_inner p q"
  "enters_inner p (PUSH_TEST_SUITE t q) = enters_inner p q" "enters_inner p (PUSH_TEST_ITERATOR t q) = enters_inner p q"
  "enters_inner p (PUSH_TEST_CONTEXT t q) = enters_inner p q" "enters_inner p (PUSH_TEST_DATA t q) = enters_inner p q"
  "enters_inner p (snd (new_test k q)) = enters_inner p q" "enters_inner p (snd (new_context_object q)) = enters_inner p q"
  "enters_inner p (snd (new_data q)) = enters_inner p q" "enters_inner p (snd (new_result q)) = enters_inner p q"
  "enters_inner p (update_result r f q) = enters_inner p q" "enters_inner p (update_context_object c g q) = enters_inner p q"
  "enters_inner p (q\<lparr>sp_result := x\<rparr>) = enters_inner p q" "enters_inner p (q\<lparr>sp_backtrace_entry := e\<rparr>) = enters_inner p q"
  "enters_inner p (q\<lparr>sp_test_result := ri\<rparr>) = enters_inner p q" "enters_inner p (q\<lparr>sp_iterator_result := ri\<rparr>) = enters_inner p q"
  "enters_inner p (q\<lparr>sp_case_result := ri\<rparr>) = enters_inner p q" "enters_inner p (q\<lparr>sp_complete_test := ti\<rparr>) = enters_inner p q"
  "enters_inner p (q\<lparr>sp_complete_iterated_test := ti\<rparr>) = enters_inner p q"
  by (auto simp: enters_inner_def parser_defs split: option.split)

lemma enters_push [info_moves]: "enters_inner p (PUSH_STATE s p) = inner s"
  by (simp add: enters_inner_def PUSH_STATE_def)

lemmas start_inner_defs = start_result_def start_test_object_def start_test_option_def
  start_result_backtrace_def start_result_backtrace_entry_def start_test_context_def start_test_data_def
  start_context_test_def

lemma start_inner:
  assumes "start_in_state s n p = Inr q" "inner s"
  shows "same_infos p q" "enters_inner p q"
  using assms
  by (cases s;
      (simp add: inner_def; fail)?;
      auto simp: start_in_state_def start_inner_defs parser_moves info_moves inner_def Let_def split_def
        split: if_splits)+

lemma end_inner: "end_in_state s p = Inr q \<Longrightarrow> inner s \<Longrightarrow> same_infos p q"
  by (cases s;
      (simp add: inner_def; fail)?;
      auto simp: end_in_state_def end_result_def end_test_context_def end_test_option_def
        end_result_backtrace_def end_result_backtrace_entry_def drop_if_def parser_moves info_moves Let_def
        split: if_splits option.splits)

lemma text_infos: "text_in_state G s v p = Inr q \<Longrightarrow> same_infos p q"
  by (cases s)
     (auto simp: text_in_state_def text_defs parser_moves info_moves then_step_Inr
        split: if_splits option.splits)

lemma frame_moves [info_moves]:
  "same_infos p (opened n q) = same_infos p q" "same_infos (opened n p) q = same_infos p q"
  "same_infos p (closed q) = same_infos p q" "same_infos (popped p) q = same_infos p q"
  "sp_states (opened n q) = sp_states q" "sp_states (closed q) = sp_states q"
  by (simp_all add: same_infos_def opened_def closed_def popped_def)

lemma inner_nonempty: "inner (PEEK_STATE p) \<Longrightarrow> \<exists>ss. sp_states p = PEEK_STATE p # ss"
  by (auto simp: PEEK_STATE_def inner_def split: list.splits)

lemma peek_entered: "enters_inner p q \<Longrightarrow> inner (PEEK_STATE q)"
  by (auto simp: enters_inner_def PEEK_STATE_def)

lemma same_states_peek: "sp_states q = sp_states p \<Longrightarrow> PEEK_STATE q = PEEK_STATE p"
  by (simp add: PEEK_STATE_def)

text \<open>What every child of an element and every text between them keep, all of them keep.\<close>

lemma children_keep:
  assumes break: "\<And>i r s. Q r \<Longrightarrow> handle_event G (line_break i) r = Inr s \<Longrightarrow> Q s"
    and child: "\<And>u i r s. u \<in> set us \<Longrightarrow> Q r \<Longrightarrow> cut_stream_parser_parse G (tree_events i u) r = Inr s \<Longrightarrow> Q s"
  shows "cut_stream_parser_parse G (concat (map (\<lambda>t. line_break j # tree_events j t) us)) r = Inr s \<Longrightarrow>
    Q r \<Longrightarrow> Q s"
  using child
proof (induction us arbitrary: r)
  case (Cons u us)
  obtain r1 r2 where r: "handle_event G (line_break j) r = Inr r1"
    "cut_stream_parser_parse G (tree_events j u) r1 = Inr r2"
    "cut_stream_parser_parse G (concat (map (\<lambda>t. line_break j # tree_events j t) us)) r2 = Inr s"
    using Cons.prems(1) by (auto simp: then_step_Inr parse_append)
  have "Q r2" using Cons.prems(3) [of u r1 j r2] break [OF Cons.prems(2) r(1)] r(2) by simp
  with Cons.IH [OF r(3)] Cons.prems(3) show ?case by (metis list.set_intros(2))
qed simp

lemma break_infos: "handle_event G (line_break i) r = Inr s \<Longrightarrow> same_infos r s"
  by (simp add: line_break_def text_handler_def text_infos)

lemma tree_infos:
  "cut_stream_parser_parse G (tree_events i t) p = Inr q \<Longrightarrow> inner (PEEK_STATE p) \<Longrightarrow> same_infos p q"
proof (induction t arbitrary: i p q)
  case (Leaf n v)
  obtain p1 where p1: "start_in_state (PEEK_STATE p) n (opened n p) = Inr p1"
    using Leaf.prems(1) by (auto simp: then_step_Inr start_event simp del: handle_event.simps)
  note in1 = start_inner [OF p1 Leaf.prems(2), unfolded info_moves]
  obtain p2 where p2: "same_scope p1 p2" "same_infos p1 p2" "handle_event G (End_Element n) p2 = Inr q"
    using Leaf.prems(1) p1
    by (auto simp: then_step_Inr start_event text_handler_def simp del: handle_event.simps(1,2)
        split: if_splits dest: text_scope text_infos) (auto simp: same_scope_def)
  obtain p3 where p3: "end_in_state (PEEK_STATE p2) (popped p2) = Inr p3" "q = closed p3"
    using p2(3) unfolding end_event by (auto simp: parser_moves)
  have "PEEK_STATE p2 = PEEK_STATE p1" using p2(1) by (intro same_states_peek) (simp add: same_scope_def)
  with peek_entered [OF in1(2)] have "same_infos p2 p3"
    using end_inner [OF p3(1)] by (simp add: info_moves)
  with in1(1) p2(2) p3(2) show ?case using same_infos_trans by (simp add: info_moves)
next
  case (Node n ts)
  obtain p1 p2 p3 where p: "start_in_state (PEEK_STATE p) n (opened n p) = Inr p1"
    "cut_stream_parser_parse G (concat (map (\<lambda>t. line_break (i + 2) # tree_events (i + 2) t) ts)) p1 = Inr p2"
    "handle_event G (line_break i) p2 = Inr p3" "handle_event G (End_Element n) p3 = Inr q"
    using Node.prems(1) by (auto simp: then_step_Inr parse_append start_event simp del: handle_event.simps)
  obtain p4 where p4: "end_in_state (PEEK_STATE p3) (popped p3) = Inr p4" "q = closed p4"
    using p(4) unfolding end_event by (auto simp: parser_moves)
  note in1 = start_inner [OF p(1) Node.prems(2), unfolded info_moves]
  let ?Q = "\<lambda>r. sp_states r = sp_states p1 \<and> same_infos p1 r"
  have inn: "inner (PEEK_STATE r)" if "sp_states r = sp_states p1" for r
    using peek_entered [OF in1(2)] same_states_peek [OF that] by simp
  have "?Q p2"
  proof (rule children_keep [OF _ _ p(2)])
    fix i r s assume "?Q r" "handle_event G (line_break i) r = Inr s"
    then show "?Q s" using break_infos scope_of_break same_infos_trans by (simp add: same_scope_def) blast
  next
    fix u i r s assume "u \<in> set ts" "?Q r" "cut_stream_parser_parse G (tree_events i u) r = Inr s"
    then show "?Q s" using Node.IH [of u i r s] inn [of r] element_scoped same_infos_trans by metis
  qed simp
  then have 3: "sp_states p3 = sp_states p1" "same_infos p1 p3"
    using break_infos [OF p(3)] scope_of_break [OF p(3)] same_infos_trans by (auto simp: same_scope_def)
  have "same_infos p3 p4" using end_inner [OF p4(1) inn [OF 3(1)]] by (simp add: info_moves)
  with in1(1) 3(2) p4(2) show ?case using same_infos_trans by (simp add: info_moves)
qed

section \<open>Missing children\<close>

primrec root_name :: "xml_tree \<Rightarrow> string" where
  "root_name (Leaf n v) = n"
| "root_name (Node n ts) = n"

text \<open>The child an element cannot do without, by the state inside the element.\<close>

definition required_child :: "string \<Rightarrow> string" where
  "required_child n =
     (if n = ''complete-test'' then ''test'' else if n = ''complete-iterated-test'' then ''iterated-test''
      else ''result'')"

definition missing :: "parse_state \<Rightarrow> stream_parser \<Rightarrow> bool" where
  "missing s p \<longleftrightarrow> sp_run_context p \<noteq> None \<and>
     (case s of
        IN_TEST_RESULT \<Rightarrow> \<exists>i. sp_test_result p = Some i \<and> info_result i = None
      | IN_TEST_ITERATOR_RESULT \<Rightarrow> \<exists>i. sp_iterator_result p = Some i \<and> info_result i = None
      | IN_TEST_CASE_RESULT \<Rightarrow> \<exists>i. sp_case_result p = Some i \<and> info_result i = None
      | IN_COMPLETE_TEST \<Rightarrow> \<exists>i. sp_complete_test p = Some i \<and> info_test i = None
      | IN_COMPLETE_ITERATED_TEST \<Rightarrow> \<exists>i. sp_complete_iterated_test p = Some i \<and> info_test i = None
      | _ \<Rightarrow> False)"

lemma missing_infos: "same_infos p q \<Longrightarrow> missing s p \<Longrightarrow> missing s q"
  by (auto simp: missing_def same_infos_def split: parse_state.splits)

lemma missing_same: "same_infos q r \<Longrightarrow> missing s r = missing s q"
  using missing_infos [of q r s] missing_infos [of r q s] by (auto simp: same_infos_def)

lemma missing_moves [info_moves]:
  "missing s (PUSH_STATE s' q) = missing s q" "missing s (PUSH_TEST t q) = missing s q"
  "missing s (PUSH_TEST_CASE t q) = missing s q" "missing s (PUSH_TEST_ITERATOR t q) = missing s q"
  "missing s (PUSH_TEST_CONTEXT t q) = missing s q" "missing s (snd (new_test k q)) = missing s q"
  "missing s (snd (new_context_object q)) = missing s q"
  by (rule missing_same, simp add: info_moves)+

lemma missing_fields [info_moves]:
  "missing IN_TEST_RESULT (q\<lparr>sp_test_result := Some i\<rparr>) \<longleftrightarrow> sp_run_context q \<noteq> None \<and> info_result i = None"
  "missing IN_TEST_ITERATOR_RESULT (q\<lparr>sp_iterator_result := Some i\<rparr>) \<longleftrightarrow> sp_run_context q \<noteq> None \<and> info_result i = None"
  "missing IN_TEST_CASE_RESULT (q\<lparr>sp_case_result := Some i\<rparr>) \<longleftrightarrow> sp_run_context q \<noteq> None \<and> info_result i = None"
  "missing IN_COMPLETE_TEST (q\<lparr>sp_complete_test := Some k\<rparr>) \<longleftrightarrow> sp_run_context q \<noteq> None \<and> info_test k = None"
  "missing IN_COMPLETE_ITERATED_TEST (q\<lparr>sp_complete_iterated_test := Some k\<rparr>) \<longleftrightarrow>
     sp_run_context q \<noteq> None \<and> info_test k = None"
  "sp_run_context (snd (new_test x q)) = sp_run_context q" "sp_run_context (PUSH_STATE s q) = sp_run_context q"
  "sp_run_context (snd (new_context_object q)) = sp_run_context q"
  by (auto simp: missing_def new_test_def PUSH_STATE_def new_context_object_def)

lemma missing_info:
  "missing IN_TEST_RESULT q \<Longrightarrow> sp_test_result q = Some i \<Longrightarrow> sp_run_context q \<noteq> None \<and> info_result i = None"
  "missing IN_TEST_ITERATOR_RESULT q \<Longrightarrow> sp_iterator_result q = Some i \<Longrightarrow> sp_run_context q \<noteq> None \<and> info_result i = None"
  "missing IN_TEST_CASE_RESULT q \<Longrightarrow> sp_case_result q = Some i \<Longrightarrow> sp_run_context q \<noteq> None \<and> info_result i = None"
  "missing IN_COMPLETE_TEST q \<Longrightarrow> sp_complete_test q = Some k \<Longrightarrow> sp_run_context q \<noteq> None \<and> info_test k = None"
  "missing IN_COMPLETE_ITERATED_TEST q \<Longrightarrow> sp_complete_iterated_test q = Some k \<Longrightarrow> sp_run_context q \<noteq> None \<and> info_test k = None"
  by (auto simp: missing_def)

lemmas start_required_defs = start_in_state_def start_test_result_def start_test_iterator_result_def
  start_test_case_result_def start_complete_test_def start_complete_iterated_test_def
  start_info_test_def start_info_context_def

lemma start_not_required:
  assumes start: "start_in_state s n p = Inr q" and m: "missing s p"
    and n: "n \<noteq> (case s of IN_COMPLETE_TEST \<Rightarrow> ''test'' | IN_COMPLETE_ITERATED_TEST \<Rightarrow> ''iterated-test'' | _ \<Rightarrow> ''result'')"
  shows "missing s q \<and> enters_inner p q"
proof -
  have "s \<in> {IN_TEST_RESULT, IN_TEST_ITERATOR_RESULT, IN_TEST_CASE_RESULT, IN_COMPLETE_TEST, IN_COMPLETE_ITERATED_TEST}"
    using m by (auto simp: missing_def split: parse_state.splits)
  then consider "s = IN_TEST_RESULT" | "s = IN_TEST_ITERATOR_RESULT" | "s = IN_TEST_CASE_RESULT"
    | "s = IN_COMPLETE_TEST" | "s = IN_COMPLETE_ITERATED_TEST" by blast
  then show ?thesis
  proof cases
    case 1
    with start m n show ?thesis
      by (auto simp: start_required_defs parser_moves info_moves inner_def Let_def split_def
          dest: missing_info split: if_splits)
  next
    case 2
    with start m n show ?thesis
      by (auto simp: start_required_defs parser_moves info_moves inner_def Let_def split_def
          dest: missing_info split: if_splits)
  next
    case 3
    with start m n show ?thesis
      by (auto simp: start_required_defs parser_moves info_moves inner_def Let_def split_def
          dest: missing_info split: if_splits)
  next
    case 4
    with start m n show ?thesis
      by (auto simp: start_required_defs parser_moves info_moves inner_def Let_def split_def
          dest: missing_info split: if_splits)
  next
    case 5
    with start m n show ?thesis
      by (auto simp: start_required_defs parser_moves info_moves inner_def Let_def split_def
          dest: missing_info split: if_splits)
  qed
qed

text \<open>A child that is not the required one leaves it missing.\<close>

lemma child_not_required:
  assumes run: "cut_stream_parser_parse G (tree_events i t) p = Inr q" and m: "missing (PEEK_STATE p) p"
    and name: "root_name t \<noteq> (case PEEK_STATE p of IN_COMPLETE_TEST \<Rightarrow> ''test''
      | IN_COMPLETE_ITERATED_TEST \<Rightarrow> ''iterated-test'' | _ \<Rightarrow> ''result'')"
  shows "missing (PEEK_STATE p) q"
proof -
  let ?s = "PEEK_STATE p"
  obtain p1 where p1: "start_in_state ?s (root_name t) (opened (root_name t) p) = Inr p1"
    using run by (cases t) (auto simp: then_step_Inr start_event simp del: handle_event.simps)
  have "missing ?s (opened (root_name t) p)" by (rule missing_infos [OF _ m]) (simp add: info_moves)
  from start_not_required [OF p1 this name] have m1: "missing ?s p1" "enters_inner (opened (root_name t) p) p1" by simp_all
  note inn = peek_entered [OF m1(2)]
  obtain p2 p3 where p2: "same_infos p1 p2" "sp_states p2 = sp_states p1"
    and p3: "end_in_state (PEEK_STATE p2) (popped p2) = Inr p3" "q = closed p3"
  proof (cases t)
    case (Leaf n v)
    obtain p2 where p2: "same_scope p1 p2" "same_infos p1 p2" "handle_event G (End_Element n) p2 = Inr q"
      using run p1 Leaf
      by (auto simp: then_step_Inr start_event text_handler_def simp del: handle_event.simps(1,2)
          split: if_splits dest: text_scope text_infos) (auto simp: same_scope_def)
    from p2(3) obtain p3 where "end_in_state (PEEK_STATE p2) (popped p2) = Inr p3" "q = closed p3"
      unfolding end_event by (auto simp: parser_moves)
    with p2(1,2) show thesis by (intro that [of p2 p3]) (simp_all add: same_scope_def)
  next
    case (Node n ts)
    obtain r r2 where r: "cut_stream_parser_parse G (concat (map (\<lambda>t. line_break (i + 2) # tree_events (i + 2) t) ts)) p1 = Inr r"
      "handle_event G (line_break i) r = Inr r2" "handle_event G (End_Element n) r2 = Inr q"
      using run p1 Node by (auto simp: then_step_Inr parse_append start_event simp del: handle_event.simps)
    let ?Q = "\<lambda>r. sp_states r = sp_states p1 \<and> same_infos p1 r"
    have "?Q r"
    proof (rule children_keep [OF _ _ r(1)])
      fix i r s assume "?Q r" "handle_event G (line_break i) r = Inr s"
      then show "?Q s" using break_infos scope_of_break same_infos_trans by (simp add: same_scope_def) blast
    next
      fix u i r s assume q: "?Q r" and u: "cut_stream_parser_parse G (tree_events i u) r = Inr s"
      have "inner (PEEK_STATE r)" using q inn same_states_peek by metis
      from tree_infos [OF u this] q show "?Q s" using element_scoped [OF u] same_infos_trans by auto
    qed simp
    then have "?Q r2" using break_infos [OF r(2)] scope_of_break [OF r(2)] same_infos_trans by (auto simp: same_scope_def)
    moreover from r(3) obtain p3 where "end_in_state (PEEK_STATE r2) (popped r2) = Inr p3" "q = closed p3"
      unfolding end_event by (auto simp: parser_moves)
    ultimately show thesis by (intro that [of r2 p3]) simp_all
  qed
  have "inner (PEEK_STATE p2)" using inn same_states_peek [OF p2(2)] by simp
  from end_inner [OF p3(1) this] have "same_infos p2 p3" by (simp add: info_moves)
  then have "same_infos p1 q" using p2(1) p3(2) same_infos_trans by (simp add: info_moves)
  then show ?thesis by (rule missing_infos [OF _ m1(1)])
qed

text \<open>The end of an element without its required child.\<close>

lemma end_missing: "missing s p \<Longrightarrow> end_in_state s p = Inl Null_Pointer"
  by (cases s)
     (auto simp: missing_def end_in_state_def end_test_result_def end_test_iterator_result_def
        end_test_case_result_def end_complete_test_def end_complete_iterated_test_def emit_result_def
        with_pointer_def)

lemma start_missing:
  assumes "PEEK_STATE p = IN_STREAM" "sp_run_context p \<noteq> None"
    and "n \<in> {''test-result'', ''test-iterator-result'', ''test-case-result'', ''complete-test'',
              ''complete-iterated-test''}"
  obtains q where "start_in_state (PEEK_STATE p) n (opened n p) = Inr q" "missing (PEEK_STATE q) q"
    "(case PEEK_STATE q of IN_COMPLETE_TEST \<Rightarrow> ''test'' | IN_COMPLETE_ITERATED_TEST \<Rightarrow> ''iterated-test''
      | _ \<Rightarrow> ''result'') = required_child n"
proof -
  have "\<exists>q. start_in_state IN_STREAM n (opened n p) = Inr q \<and> missing (PEEK_STATE q) q \<and>
    (case PEEK_STATE q of IN_COMPLETE_TEST \<Rightarrow> ''test'' | IN_COMPLETE_ITERATED_TEST \<Rightarrow> ''iterated-test''
      | _ \<Rightarrow> ''result'') = required_child n"
    using assms(2,3)
    by (elim insertE emptyE)
       (simp_all add: start_in_state_def start_stream_def PUSH_STATE_def missing_def PEEK_STATE_def
         required_child_def opened_def)
  then show thesis using that assms(1) by auto
qed

text \<open>C38: An element of a result without its result, or of a completion without its test, whatever
  other children it has, is never read: if the parser gets to its end, it dereferences NULL there.\<close>

theorem missing_child_dereferenced:
  assumes "PEEK_STATE p = IN_STREAM" and "sp_run_context p \<noteq> None"
    and "n \<in> {''test-result'', ''test-iterator-result'', ''test-case-result'', ''complete-test'',
              ''complete-iterated-test''}"
    and "\<forall>t\<in>set ts. root_name t \<noteq> required_child n"
  shows "cut_stream_parser_parse G (tree_events i (Node n ts)) p =
    (case cut_stream_parser_parse G (butlast (tree_events i (Node n ts))) p of
       Inl e \<Rightarrow> Inl e | Inr q \<Rightarrow> Inl Null_Pointer)"
proof -
  let ?children = "concat (map (\<lambda>t. line_break (i + 2) # tree_events (i + 2) t) ts)"
  let ?inside = "Start_Element n # ?children @ [line_break i]"
  have events: "tree_events i (Node n ts) = ?inside @ [End_Element n]" by simp
  obtain q1 where q1: "start_in_state (PEEK_STATE p) n (opened n p) = Inr q1" "missing (PEEK_STATE q1) q1"
    "(case PEEK_STATE q1 of IN_COMPLETE_TEST \<Rightarrow> ''test'' | IN_COMPLETE_ITERATED_TEST \<Rightarrow> ''iterated-test''
      | _ \<Rightarrow> ''result'') = required_child n"
    using start_missing [OF assms(1-3)] .
  have null: "handle_event G (End_Element n) q = Inl Null_Pointer"
    if run: "cut_stream_parser_parse G ?inside p = Inr q" for q
  proof -
    obtain q2 where q2: "cut_stream_parser_parse G ?children q1 = Inr q2" "handle_event G (line_break i) q2 = Inr q"
      using run q1(1) by (auto simp: then_step_Inr parse_append start_event simp del: handle_event.simps)
    let ?Q = "\<lambda>r. sp_states r = sp_states q1 \<and> missing (PEEK_STATE q1) r"
    have break: "?Q s" if "?Q r" "handle_event G (line_break i) r = Inr s" for i r s
      using that missing_infos [OF break_infos] scope_of_break by (auto simp: same_scope_def)
    have "?Q q2"
    proof (rule children_keep [OF break _ q2(1)])
      fix u i r s assume u: "u \<in> set ts" and r: "?Q r" and run: "cut_stream_parser_parse G (tree_events i u) r = Inr s"
      have peek: "PEEK_STATE r = PEEK_STATE q1" using r same_states_peek by blast
      have "missing (PEEK_STATE r) s"
        by (rule child_not_required [OF run]) (use r u q1(3) assms(4) in \<open>simp_all add: peek\<close>)
      with element_scoped [OF run] r peek show "?Q s" by simp
    qed (use q1 in simp_all)
    with break q2(2) have q: "?Q q" by blast
    then have peek: "PEEK_STATE q = PEEK_STATE q1" using same_states_peek by blast
    have "missing (PEEK_STATE q) (popped q)"
      by (rule missing_infos [of q]) (use q peek in \<open>simp_all add: same_infos_def popped_def\<close>)
    then show ?thesis unfolding end_event by (simp add: end_missing)
  qed
  have "cut_stream_parser_parse G (?inside @ [End_Element n]) p =
      then_step (cut_stream_parser_parse G ?inside) (cut_stream_parser_parse G [End_Element n]) p"
    by (rule parse_append)
  also have "\<dots> = (case cut_stream_parser_parse G ?inside p of Inl e \<Rightarrow> Inl e | Inr q \<Rightarrow> Inl Null_Pointer)"
  proof (cases "cut_stream_parser_parse G ?inside p")
    case (Inr q)
    then show ?thesis using null [OF Inr]
      by (simp only: then_step_def sum.case cut_stream_parser_parse.simps)
  qed (simp add: then_step_def)
  finally show ?thesis unfolding events butlast_snoc .
qed

lemma missing_child_dereferenced_witness:
  "\<forall>G rc. cut_stream_parser_parse G (tree_events 2 (Node ''test-result'' [Node ''test'' []]))
     ((cut_stream_parser_new (Some rc))\<lparr>sp_states := [IN_STREAM, IN_TOP_LEVEL]\<rparr>) = Inl Null_Pointer"
proof (intro allI)
  fix G rc
  let ?p = "(cut_stream_parser_new (Some rc))\<lparr>sp_states := [IN_STREAM, IN_TOP_LEVEL]\<rparr>"
  have "\<exists>q. cut_stream_parser_parse G (butlast (tree_events 2 (Node ''test-result'' [Node ''test'' []]))) ?p = Inr q"
    by (simp add: cut_stream_parser_new_def stream_steps start_test_result_def new_test_def PUSH_TEST_def Let_def)
  moreover have "cut_stream_parser_parse G (tree_events 2 (Node ''test-result'' [Node ''test'' []])) ?p =
      (case cut_stream_parser_parse G (butlast (tree_events 2 (Node ''test-result'' [Node ''test'' []]))) ?p of
         Inl e \<Rightarrow> Inl e | Inr q \<Rightarrow> Inl Null_Pointer)"
    by (rule missing_child_dereferenced) (simp_all add: PEEK_STATE_def cut_stream_parser_new_def required_child_def)
  ultimately show "cut_stream_parser_parse G (tree_events 2 (Node ''test-result'' [Node ''test'' []])) ?p = Inl Null_Pointer"
    by (auto simp del: tree_events.simps cut_stream_parser_parse.simps)
qed

end
