(* ===== verification/Spec2Isabelle.thy ===== *)
theory Spec2Isabelle
  imports Console_Properties Assertion_Properties Format_Properties Repository_Properties Differ_Properties Run_Context_Properties Run_Properties Forked_Chunks Stream_Types Stream_Errors
begin

text \<open>
  A verification library of cutter, a unit testing framework for C and C++. The header grows
  with the development.
\<close>

end
